(* ===== verification/Prelude.thy ===== *)
theory Prelude
  imports Main "HOL-Library.Char_ord" "HOL-Library.List_Lexorder"
begin

text \<open>
  Shared vocabulary of the development: the operations of Go's packages \<open>strings\<close> and
  \<open>strconv\<close> that the program calls, on strings as lists of bytes, with the lemmas the
  components share.  Operations Go defines through Unicode classes (\<open>TrimSpace\<close>, \<open>Fields\<close>,
  \<open>ToLower\<close>, \<open>EqualFold\<close>) act here on ASCII bytes and leave every other byte alone.
  The interface locales used by several components are at the end.
\<close>

named_theorems go_string "facts about the byte-string operations"
named_theorems go_length "length bounds of the byte-string operations"

section \<open>Characters\<close>

definition is_space :: "char \<Rightarrow> bool" where
  "is_space c \<longleftrightarrow> c = CHR '' '' \<or> c = CHR 0x09 \<or> c = CHR 0x0A \<or> c = CHR 0x0B
     \<or> c = CHR 0x0C \<or> c = CHR 0x0D"

abbreviation (input) newline :: char where "newline \<equiv> CHR 0x0A"
abbreviation (input) cr :: char where "cr \<equiv> CHR 0x0D"
abbreviation (input) tab :: char where "tab \<equiv> CHR 0x09"
abbreviation (input) quote1 :: char where "quote1 \<equiv> CHR 0x27"
abbreviation (input) quote2 :: char where "quote2 \<equiv> CHR 0x22"
abbreviation (input) backtick :: char where "backtick \<equiv> CHR 0x60"
abbreviation (input) backslash :: char where "backslash \<equiv> CHR 0x5C"

definition is_digit :: "char \<Rightarrow> bool" where
  "is_digit c \<longleftrightarrow> (48::nat) \<le> of_char c \<and> of_char c \<le> (57::nat)"

definition is_upper :: "char \<Rightarrow> bool" where
  "is_upper c \<longleftrightarrow> (65::nat) \<le> of_char c \<and> of_char c \<le> (90::nat)"

definition is_lower :: "char \<Rightarrow> bool" where
  "is_lower c \<longleftrightarrow> (97::nat) \<le> of_char c \<and> of_char c \<le> (122::nat)"

definition lower_char :: "char \<Rightarrow> char" where
  "lower_char c = (if is_upper c then char_of (of_char c + (32::nat)) else c)"

lemma lower_char_idem [simp]: "lower_char (lower_char c) = lower_char c"
proof (cases "is_upper c")
  case True
  then have "of_char (char_of (of_char c + (32::nat)) :: char) = of_char c + (32::nat)"
    by (simp add: is_upper_def of_char_of)
  with True show ?thesis by (simp add: lower_char_def is_upper_def)
qed (simp add: lower_char_def)

section \<open>Package strings\<close>

fun has_prefix :: "'a list \<Rightarrow> 'a list \<Rightarrow> bool" where
  "has_prefix s [] = True"
| "has_prefix [] (p # ps) = False"
| "has_prefix (c # s) (p # ps) = (c = p \<and> has_prefix s ps)"

lemma has_prefix_iff: "has_prefix s p \<longleftrightarrow> (\<exists>t. s = p @ t)"
  by (induction s p rule: has_prefix.induct) auto

lemma has_prefix_Nil_iff [simp]: "has_prefix [] p \<longleftrightarrow> p = []"
  by (cases p) auto

lemma has_prefix_append [simp]: "has_prefix (p @ t) p"
  by (auto simp: has_prefix_iff)

lemma has_prefix_refl [simp]: "has_prefix s s"
  by (auto simp: has_prefix_iff)

lemma has_prefix_trans: "has_prefix a b \<Longrightarrow> has_prefix b c \<Longrightarrow> has_prefix a c"
  by (auto simp: has_prefix_iff)

lemma has_prefix_length: "has_prefix s p \<Longrightarrow> length p \<le> length s"
  by (auto simp: has_prefix_iff)

lemma has_prefix_take: "has_prefix s p \<longleftrightarrow> take (length p) s = p"
  by (metis append_eq_conv_conj has_prefix_append has_prefix_iff)

definition has_suffix :: "'a list \<Rightarrow> 'a list \<Rightarrow> bool" where
  "has_suffix s p = has_prefix (rev s) (rev p)"

lemma has_suffix_iff: "has_suffix s p \<longleftrightarrow> (\<exists>t. s = t @ p)"
  unfolding has_suffix_def has_prefix_iff
  by (metis rev_append rev_rev_ident)

fun contains :: "'a list \<Rightarrow> 'a list \<Rightarrow> bool" where
  "contains [] sub = (sub = [])"
| "contains (c # s) sub = (has_prefix (c # s) sub \<or> contains s sub)"

lemma contains_iff: "contains s sub \<longleftrightarrow> (\<exists>a b. s = a @ sub @ b)"
proof (induction s)
  case (Cons c s)
  have "(\<exists>a b. c # s = a @ sub @ b) \<longleftrightarrow>
        (\<exists>b. c # s = sub @ b) \<or> (\<exists>a b. s = a @ sub @ b)"
    by (metis append_Cons append_Nil list.sel(3) neq_Nil_conv)
  with Cons show ?case by (simp add: has_prefix_iff)
qed simp

lemma contains_refl [simp]: "contains s s"
  unfolding contains_iff by (metis append_Nil append_Nil2)

text \<open>\<open>strings.Index\<close>: the first position of the substring.\<close>

fun index_of :: "'a list \<Rightarrow> 'a list \<Rightarrow> nat option" where
  "index_of [] sub = (if sub = [] then Some 0 else None)"
| "index_of (c # s) sub = (if has_prefix (c # s) sub then Some 0 else map_option Suc (index_of s sub))"

lemma index_of_Some: "index_of s sub = Some i \<Longrightarrow> has_prefix (drop i s) sub \<and> i \<le> length s"
  by (induction s arbitrary: i) (auto split: if_splits)

lemma index_of_None: "index_of s sub = None \<longleftrightarrow> \<not> contains s sub"
  by (induction s) auto

text \<open>\<open>strings.LastIndex\<close>: the last position of the substring.\<close>

fun last_index_of :: "'a list \<Rightarrow> 'a list \<Rightarrow> nat option" where
  "last_index_of [] sub = (if sub = [] then Some 0 else None)"
| "last_index_of (c # s) sub = (case last_index_of s sub of
       Some i \<Rightarrow> Some (Suc i)
     | None \<Rightarrow> if has_prefix (c # s) sub then Some 0 else None)"

definition trim_left_by :: "('a \<Rightarrow> bool) \<Rightarrow> 'a list \<Rightarrow> 'a list" where
  "trim_left_by P s = dropWhile P s"

definition trim_right_by :: "('a \<Rightarrow> bool) \<Rightarrow> 'a list \<Rightarrow> 'a list" where
  "trim_right_by P s = rev (dropWhile P (rev s))"

definition trim_by :: "('a \<Rightarrow> bool) \<Rightarrow> 'a list \<Rightarrow> 'a list" where
  "trim_by P s = trim_right_by P (trim_left_by P s)"

definition trim_space :: "string \<Rightarrow> string" where
  "trim_space s = trim_by is_space s"

lemma trim_by_length [go_length]: "length (trim_by P s) \<le> length s"
  unfolding trim_by_def trim_left_by_def trim_right_by_def
  by (metis length_dropWhile_le length_rev order_trans)

lemma trim_space_length [go_length]: "length (trim_space s) \<le> length s"
  by (simp add: trim_space_def trim_by_length)

lemma trim_space_Nil [simp]: "trim_space [] = []"
  by (simp add: trim_space_def trim_by_def trim_left_by_def trim_right_by_def)

lemma dropWhile_rev_hd:
  assumes "s \<noteq> []" "\<not> P (hd s)"
  shows "rev (dropWhile P (rev s)) \<noteq> [] \<and> hd (rev (dropWhile P (rev s))) = hd s"
proof -
  obtain c t where s: "s = c # t" using assms(1) by (cases s) auto
  with assms(2) have "\<not> P c" by simp
  then have "dropWhile P (rev t @ [c]) = dropWhile P (rev t) @ [c]"
    by (induction t rule: rev_induct) auto
  with s show ?thesis by simp
qed

lemma trim_by_idem [simp]: "trim_by P (trim_by P s) = trim_by P s"
proof (cases "dropWhile P s = []")
  case True
  then show ?thesis
    by (simp only: trim_by_def trim_left_by_def trim_right_by_def rev.simps dropWhile.simps)
next
  case False
  define t where "t = dropWhile P s"
  have hd: "\<not> P (hd t)" using False unfolding t_def by (rule hd_dropWhile)
  define u where "u = rev (dropWhile P (rev t))"
  have u: "u \<noteq> []" "hd u = hd t"
    using dropWhile_rev_hd [of t P] False hd unfolding t_def u_def by auto
  have "dropWhile P u = u" using u hd by (cases u) auto
  moreover have "rev (dropWhile P (rev u)) = u" unfolding u_def by simp
  ultimately show ?thesis
    by (simp only: trim_by_def trim_left_by_def trim_right_by_def t_def [symmetric] u_def [symmetric])
qed

lemma trim_space_idem [simp]: "trim_space (trim_space s) = trim_space s"
  by (simp add: trim_space_def)

text \<open>\<open>strings.TrimPrefix\<close> and \<open>strings.TrimSuffix\<close>.\<close>

definition trim_prefix :: "'a list \<Rightarrow> 'a list \<Rightarrow> 'a list" where
  "trim_prefix s p = (if has_prefix s p then drop (length p) s else s)"

definition trim_suffix :: "'a list \<Rightarrow> 'a list \<Rightarrow> 'a list" where
  "trim_suffix s p = (if has_suffix s p then take (length s - length p) s else s)"

definition to_lower :: "string \<Rightarrow> string" where
  "to_lower s = map lower_char s"

lemma to_lower_idem [simp]: "to_lower (to_lower s) = to_lower s"
  by (simp add: to_lower_def o_def)

lemma to_lower_length [simp, go_length]: "length (to_lower s) = length s"
  by (simp add: to_lower_def)

lemma is_space_lower_char [simp]: "is_space (lower_char c) = is_space c"
proof (cases "is_upper c")
  case True
  define n where "n = (of_char c :: nat)"
  have n: "65 \<le> n" "n \<le> 90" using True by (auto simp: is_upper_def n_def)
  have c: "c = char_of n" by (simp add: n_def)
  have "\<not> is_space c"
    using n by (auto simp: is_space_def n_def)
  moreover have "of_char (lower_char c) = n + 32"
    using True n by (simp add: lower_char_def n_def of_char_of)
  then have "\<not> is_space (lower_char c)"
    using n by (auto simp: is_space_def)
  ultimately show ?thesis by simp
qed (simp add: lower_char_def)

lemma to_lower_trim_space: "to_lower (trim_space s) = trim_space (to_lower s)"
  by (simp add: to_lower_def trim_space_def trim_by_def trim_left_by_def trim_right_by_def
      dropWhile_map rev_map o_def)

text \<open>\<open>strings.EqualFold\<close> on ASCII.\<close>

definition equal_fold :: "string \<Rightarrow> string \<Rightarrow> bool" where
  "equal_fold a b \<longleftrightarrow> to_lower a = to_lower b"

text \<open>\<open>strings.Fields\<close>.\<close>

function str_fields :: "string \<Rightarrow> string list" where
  "str_fields [] = []"
| "str_fields (c # cs) =
     (if is_space c then str_fields cs
      else (c # takeWhile (\<lambda>x. \<not> is_space x) cs) # str_fields (dropWhile (\<lambda>x. \<not> is_space x) cs))"
  by pat_completeness auto
termination
  by (relation "measure length") (auto simp: le_imp_less_Suc length_dropWhile_le)

text \<open>\<open>strings.Split\<close> on a one-byte separator and \<open>strings.Join\<close>.\<close>

fun split_on :: "'a \<Rightarrow> 'a list \<Rightarrow> 'a list list" where
  "split_on c [] = [[]]"
| "split_on c (x # xs) =
     (if x = c then [] # split_on c xs
      else (case split_on c xs of [] \<Rightarrow> [[x]] | y # ys \<Rightarrow> (x # y) # ys))"

fun join :: "'a list \<Rightarrow> 'a list list \<Rightarrow> 'a list" where
  "join sep [] = []"
| "join sep [x] = x"
| "join sep (x # y # ys) = x @ sep @ join sep (y # ys)"

lemma split_on_nonempty [simp]: "split_on c s \<noteq> []"
  by (induction s) (auto split: list.splits)

lemma join_Cons: "ys \<noteq> [] \<Longrightarrow> join sep (y # ys) = y @ sep @ join sep ys"
  by (cases ys) auto

lemma join_Cons_head: "join sep ((x # y) # ys) = x # join sep (y # ys)"
  by (cases ys) auto

lemma join_split_on [simp]: "join [c] (split_on c s) = s"
proof (induction s)
  case (Cons x s)
  show ?case
  proof (cases "split_on c s")
    case Nil
    then show ?thesis by simp
  next
    case (Cons y ys)
    then show ?thesis using Cons.IH by (auto simp: join_Cons join_Cons_head)
  qed
qed simp

lemma split_on_no_sep: "c \<notin> set s \<Longrightarrow> split_on c s = [s]"
  by (induction s) auto

lemma split_on_append_sep: "c \<notin> set a \<Longrightarrow> split_on c (a @ c # b) = a # split_on c b"
  by (induction a) auto

lemma split_on_join:
  "xs \<noteq> [] \<Longrightarrow> \<forall>x \<in> set xs. c \<notin> set x \<Longrightarrow> split_on c (join [c] xs) = xs"
proof (induction xs)
  case (Cons x xs)
  then show ?case by (cases xs) (auto simp: split_on_no_sep split_on_append_sep)
qed simp

lemma split_on_parts: "x \<in> set (split_on c s) \<Longrightarrow> c \<notin> set x"
  by (induction s arbitrary: x) (auto split: list.splits if_splits)

lemma split_on_length: "x \<in> set (split_on c s) \<Longrightarrow> length x \<le> length s"
  by (induction s arbitrary: x) (fastforce split: list.splits if_splits)+

text \<open>Joining the str_fields of a string never makes it longer.\<close>

definition fields_cost :: "string list \<Rightarrow> nat" where
  "fields_cost xs = sum_list (map (\<lambda>x. Suc (length x)) xs)"

lemma fields_cost_simps [simp]:
  "fields_cost [] = 0" "fields_cost (x # xs) = Suc (length x + fields_cost xs)"
  "fields_cost (xs @ ys) = fields_cost xs + fields_cost ys"
  by (simp_all add: fields_cost_def)

lemma length_join_space: "Suc (length (join [sep] xs)) \<le> max 1 (fields_cost xs)"
  by (induction "[sep]" xs rule: join.induct) auto

lemma fields_nonempty: "x \<in> set (str_fields s) \<Longrightarrow> x \<noteq> []"
  by (induction s rule: str_fields.induct) (auto split: if_splits)

lemma fields_no_space: "x \<in> set (str_fields s) \<Longrightarrow> c \<in> set x \<Longrightarrow> \<not> is_space c"
  by (induction s rule: str_fields.induct) (auto split: if_splits dest: set_takeWhileD)

lemma fields_cost_bound:
  "fields_cost (str_fields s) \<le> Suc (length s) \<and>
   (s \<noteq> [] \<longrightarrow> is_space (hd s) \<longrightarrow> fields_cost (str_fields s) \<le> length s)"
proof (induction s rule: str_fields.induct)
  case (2 c cs)
  show ?case
  proof (cases "is_space c")
    case True
    with 2 show ?thesis by auto
  next
    case False
    let ?t = "takeWhile (\<lambda>x. \<not> is_space x) cs" and ?d = "dropWhile (\<lambda>x. \<not> is_space x) cs"
    have len: "length ?t + length ?d = length cs"
      by (metis length_append takeWhile_dropWhile_id)
    have IH: "fields_cost (str_fields ?d) \<le> Suc (length ?d)"
      "?d \<noteq> [] \<longrightarrow> is_space (hd ?d) \<longrightarrow> fields_cost (str_fields ?d) \<le> length ?d"
      using 2 False by auto
    have "fields_cost (str_fields ?d) \<le> length ?d"
    proof (cases "?d = []")
      case True
      then show ?thesis by (simp del: dropWhile_eq_Nil_conv)
    next
      case False
      then have "is_space (hd ?d)" using hd_dropWhile by blast
      with IH False show ?thesis by blast
    qed
    with False len show ?thesis by simp
  qed
qed simp

lemma fields_cost_le: "fields_cost (str_fields s) \<le> Suc (length s)"
  using fields_cost_bound by blast

lemma length_join_fields [go_length]: "length (join [sep] (str_fields s)) \<le> length s"
  using length_join_space [of sep "str_fields s"] fields_cost_le [of s] by simp

definition normalize_whitespace :: "string \<Rightarrow> string" where
  "normalize_whitespace value = join '' '' (str_fields value)"

lemma fields_append_space:
  assumes "\<forall>c \<in> set a. \<not> is_space c" "a \<noteq> []" "is_space b"
  shows "str_fields (a @ b # s) = a # str_fields s"
proof -
  obtain x t where a: "a = x # t" using assms(2) by (cases a) auto
  have t: "\<forall>c \<in> set t. \<not> is_space c" and "\<not> is_space x" using assms(1) a by auto
  with assms(3) show ?thesis by (simp add: a takeWhile_append dropWhile_append)
qed

lemma fields_single:
  assumes "\<forall>c \<in> set a. \<not> is_space c" "a \<noteq> []"
  shows "str_fields a = [a]"
  using assms by (cases a) (auto simp: takeWhile_eq_all_conv [THEN iffD2] dropWhile_eq_Nil_conv [THEN iffD2])

lemma fields_join_space:
  "\<forall>x \<in> set xs. x \<noteq> [] \<and> (\<forall>c \<in> set x. \<not> is_space c) \<Longrightarrow> str_fields (join '' '' xs) = xs"
  by (induction "'' ''::string" xs rule: join.induct)
    (auto simp: fields_append_space fields_single is_space_def)

lemma normalize_whitespace_idem [simp]:
  "normalize_whitespace (normalize_whitespace s) = normalize_whitespace s"
  unfolding normalize_whitespace_def
  by (subst fields_join_space) (auto dest: fields_nonempty fields_no_space)

text \<open>\<open>strings.ReplaceAll\<close> for a non-empty pattern; \<open>strings.Cut\<close>.\<close>

function replace_all :: "'a list \<Rightarrow> 'a list \<Rightarrow> 'a list \<Rightarrow> 'a list" where
  "replace_all [] old new = []"
| "replace_all (c # s) old new =
     (if old \<noteq> [] \<and> has_prefix (c # s) old
      then new @ replace_all (drop (length old) (c # s)) old new
      else c # replace_all s old new)"
  by pat_completeness auto
termination
  by (relation "measure (\<lambda>(s, _, _). length s)") (auto simp: neq_Nil_conv)

definition cut :: "'a list \<Rightarrow> 'a list \<Rightarrow> 'a list \<times> 'a list \<times> bool" where
  "cut s sep = (case index_of s sep of
       None \<Rightarrow> (s, [], False)
     | Some i \<Rightarrow> (take i s, drop (i + length sep) s, True))"

section \<open>Package strconv\<close>

definition digit_val :: "char \<Rightarrow> int" where
  "digit_val c = int (of_char c) - 48"

fun digits_val :: "int \<Rightarrow> string \<Rightarrow> int" where
  "digits_val acc [] = acc"
| "digits_val acc (c # cs) = digits_val (10 * acc + digit_val c) cs"

text \<open>\<open>strconv.Atoi\<close> on a 64-bit platform: an optional sign, digits only, in range.\<close>

definition atoi :: "string \<Rightarrow> int option" where
  "atoi s =
     (let (neg, ds) = (case s of c # cs \<Rightarrow>
             if c = CHR ''-'' then (True, cs) else if c = CHR ''+'' then (False, cs) else (False, s)
           | [] \<Rightarrow> (False, []));
          n = (if neg then - digits_val 0 ds else digits_val 0 ds)
      in if ds \<noteq> [] \<and> list_all is_digit ds \<and> - (2 ^ 63) \<le> n \<and> n < 2 ^ 63 then Some n else None)"

function itoa :: "nat \<Rightarrow> string" where
  "itoa n = (if n < 10 then [char_of (n + 48)] else itoa (n div 10) @ [char_of (n mod 10 + 48)])"
  by pat_completeness auto
termination by (relation "measure id") auto

declare itoa.simps [simp del]

lemma digit_char [simp]:
  assumes "m < 10"
  shows "is_digit (char_of (m + 48))" "digit_val (char_of (m + 48)) = int m"
proof -
  have "(of_char (char_of (m + 48) :: char) :: nat) = m + 48"
    using assms by (simp add: of_char_of)
  then show "is_digit (char_of (m + 48))" "digit_val (char_of (m + 48)) = int m"
    using assms by (simp_all add: is_digit_def digit_val_def)
qed

lemma itoa_digits: "itoa n \<noteq> [] \<and> list_all is_digit (itoa n)"
proof (induction n rule: itoa.induct)
  case (1 n)
  then show ?case by (cases "n < 10") (simp_all add: itoa.simps [of n])
qed

lemma digits_val_append: "digits_val acc (xs @ [c]) = 10 * digits_val acc xs + digit_val c"
  by (induction xs arbitrary: acc) auto

lemma digits_val_itoa: "digits_val 0 (itoa n) = int n"
proof (induction n rule: itoa.induct)
  case (1 n)
  have "10 * int (n div 10) + int (n mod 10) = int n" by presburger
  with 1 show ?case
    by (cases "n < 10") (simp_all only: itoa.simps [of n] digits_val_append if_True if_False
        digit_char(2) mod_less_divisor digits_val.simps, simp_all)
qed

lemma atoi_itoa: "int n < 2 ^ 63 \<Longrightarrow> atoi (itoa n) = Some (int n)"
proof -
  assume n: "int n < 2 ^ 63"
  obtain c cs where s: "itoa n = c # cs" using itoa_digits [of n] by (cases "itoa n") auto
  have "is_digit c" using itoa_digits [of n] s by simp
  then have "c \<noteq> CHR ''-''" "c \<noteq> CHR ''+''" by (auto simp: is_digit_def)
  then show ?thesis
    using n itoa_digits [of n] digits_val_itoa [of n] by (simp add: atoi_def s)
qed

text \<open>\<open>strconv.Quote\<close> on ASCII text.\<close>

definition hex_char :: "nat \<Rightarrow> char" where
  "hex_char n = ''0123456789abcdef'' ! n"

definition quote_char :: "char \<Rightarrow> string" where
  "quote_char c =
     (if c = quote2 \<or> c = backslash then [backslash, c]
      else if c = CHR 0x07 then [backslash, CHR ''a'']
      else if c = CHR 0x08 then [backslash, CHR ''b'']
      else if c = CHR 0x0C then [backslash, CHR ''f'']
      else if c = newline then [backslash, CHR ''n'']
      else if c = cr then [backslash, CHR ''r'']
      else if c = tab then [backslash, CHR ''t'']
      else if c = CHR 0x0B then [backslash, CHR ''v'']
      else if of_char c < (32 :: nat) \<or> of_char c = (127 :: nat)
      then [backslash, CHR ''x'', hex_char (of_char c div 16), hex_char (of_char c mod 16)]
      else [c])"

definition go_quote :: "string \<Rightarrow> string" where
  "go_quote s = quote2 # List.concat (List.map quote_char s) @ [quote2]"

text \<open>Words, cuts and replacements at a separator that occurs only where it is put.\<close>

lemma index_of_append: "c \<notin> set a \<Longrightarrow> index_of (a @ c # cs @ b) (c # cs) = Some (length a)"
proof (induction a)
  case Nil
  then show ?case using has_prefix_append [of "c # cs" b] by simp
qed auto

lemma cut_append: "c \<notin> set a \<Longrightarrow> cut (a @ c # cs @ b) (c # cs) = (a, b, True)"
  by (simp add: cut_def index_of_append)

lemma takeWhile_word: "\<forall>x \<in> set w. \<not> is_space x \<Longrightarrow> takeWhile (\<lambda>x. \<not> is_space x) w = w"
  by (simp add: takeWhile_eq_all_conv)

lemma dropWhile_word: "\<forall>x \<in> set w. \<not> is_space x \<Longrightarrow> dropWhile (\<lambda>x. \<not> is_space x) w = []"
  by (simp add: dropWhile_eq_Nil_conv)

lemma str_fields_word: "w \<noteq> [] \<Longrightarrow> \<forall>x \<in> set w. \<not> is_space x \<Longrightarrow> str_fields w = [w]"
  by (cases w) (simp_all add: takeWhile_word dropWhile_word)

lemma str_fields_Cons_word:
  assumes "w \<noteq> []" "\<forall>x \<in> set w. \<not> is_space x" "is_space c"
  shows "str_fields (w @ c # s) = w # str_fields s"
  using assms
  by (cases w) (simp_all add: takeWhile_append dropWhile_append takeWhile_word dropWhile_word)

lemma dropWhile_none: "\<forall>x \<in> set w. \<not> P x \<Longrightarrow> dropWhile P w = w"
  by (cases w) auto

lemma trim_space_word: "\<forall>x \<in> set w. \<not> is_space x \<Longrightarrow> trim_space w = w"
  by (simp add: trim_space_def trim_by_def trim_left_by_def trim_right_by_def dropWhile_none)

lemma replace_all_absent: "c \<notin> set s \<Longrightarrow> replace_all s (c # cs) new = s"
  by (induction s) auto

lemma digit_not_space: "is_digit c \<Longrightarrow> \<not> is_space c"
  by (auto simp: is_digit_def is_space_def)

lemma index_of_drop:
  assumes "index_of s sub = Some i"
  shows "s = take i s @ sub @ drop (i + length sub) s"
proof -
  have "has_prefix (drop i s) sub" using assms by (simp add: index_of_Some)
  then obtain t where "drop i s = sub @ t" by (auto simp: has_prefix_iff)
  moreover from this have "drop (i + length sub) s = t"
    by (metis add.commute append_eq_conv_conj drop_drop)
  ultimately show ?thesis by (metis append_take_drop_id)
qed

lemma trim_space_Nil_iff: "trim_space s = [] \<longleftrightarrow> (\<forall>c \<in> set s. is_space c)"
proof -
  have "trim_space s = [] \<longleftrightarrow> (\<forall>c \<in> set (dropWhile is_space s). is_space c)"
    by (simp add: trim_space_def trim_by_def trim_left_by_def trim_right_by_def)
  also have "\<dots> \<longleftrightarrow> dropWhile is_space s = []"
    by (metis dropWhile_eq_Nil_conv hd_dropWhile hd_in_set empty_iff list.set(1))
  finally show ?thesis by simp
qed

section \<open>Interfaces shared by several components\<close>

text \<open>
  A string-typed enumeration of the code: \<open>repr\<close> gives each constant its string and
  \<open>norm\<close> maps any string a caller supplies to a constant.  The provider promises that the
  constants survive and that case and surrounding space do not matter.
\<close>

locale enumeration =
  fixes norm :: "string \<Rightarrow> 'e" and repr :: "'e \<Rightarrow> string"
  assumes norm_repr: "norm (repr e) = e"
    and norm_fold: "norm (to_lower (trim_space s)) = norm s"
begin

lemma norm_idem: "norm (repr (norm s)) = norm s"
  by (rule norm_repr)

lemma repr_inj: "repr a = repr b \<Longrightarrow> a = b"
  by (metis norm_repr)

lemma norm_surj: "\<exists>s. norm s = e"
  using norm_repr by blast

lemma norm_cong: "to_lower (trim_space s) = to_lower (trim_space t) \<Longrightarrow> norm s = norm t"
  by (metis norm_fold)

end

text \<open>
  A counter of consecutive bad events: a bad event adds one, a neutral one leaves the counter
  alone, any other clears it.  After any history the counter is the number of bad events since
  the last one that cleared it, so a limit trips exactly when that many bad events came in a row.
\<close>

locale streak =
  fixes step :: "'s \<Rightarrow> 'ev \<Rightarrow> 's" and cnt :: "'s \<Rightarrow> nat"
    and bad :: "'s \<Rightarrow> 'ev \<Rightarrow> bool" and neutral :: "'s \<Rightarrow> 'ev \<Rightarrow> bool"
  assumes bad_step: "\<not> neutral s e \<Longrightarrow> bad s e \<Longrightarrow> cnt (step s e) = Suc (cnt s)"
    and good_step: "\<not> neutral s e \<Longrightarrow> \<not> bad s e \<Longrightarrow> cnt (step s e) = 0"
    and neutral_step: "neutral s e \<Longrightarrow> cnt (step s e) = cnt s"
begin

fun history :: "'s \<Rightarrow> 'ev list \<Rightarrow> bool list" where
  "history s [] = []"
| "history s (e # es) = (if neutral s e then [] else [bad s e]) @ history (step s e) es"

lemma history_snoc:
  "history s (es @ [e]) = history s es @
     (if neutral (foldl step s es) e then [] else [bad (foldl step s es) e])"
  by (induction es arbitrary: s) auto

theorem streak_counts: "cnt s = 0 \<Longrightarrow> cnt (foldl step s es) = length (takeWhile id (rev (history s es)))"
proof (induction es rule: rev_induct)
  case (snoc e es)
  then show ?case
    by (cases "neutral (foldl step s es) e"; cases "bad (foldl step s es) e")
      (auto simp: history_snoc bad_step good_step neutral_step)
qed simp

lemma history_static:
  assumes "\<And>s e. bad s e = B e" "\<And>s e. neutral s e = N e"
  shows "history s es = map B (filter (\<lambda>e. \<not> N e) es)"
  by (induction es arbitrary: s) (simp_all add: assms)

lemma streak_static:
  assumes "\<And>s e. bad s e = B e" "\<And>s e. neutral s e = N e" "cnt s = 0"
  shows "cnt (foldl step s es) = length (takeWhile B (rev (filter (\<lambda>e. \<not> N e) es)))"
  using streak_counts [of s es] history_static [of B N s es] assms
  by (simp add: rev_map takeWhile_map comp_def)

lemma streak_at_most: "cnt s = 0 \<Longrightarrow> cnt (foldl step s es) \<le> length (history s es)"
  by (metis length_rev length_takeWhile_le streak_counts)

end

end
