(* ===== verification/Guardrails.thy ===== *)
theory Guardrails
  imports Prelude
begin

text \<open>
  The runaway guards of the agent loop (\<open>internal/agent/guardrails.go\<close>, with the plan parser of
  \<open>task_state.go\<close> and \<open>capTaskObjective\<close> of \<open>compaction_preserve.go\<close>): the counters of
  \<open>guardState\<close>, one operation per method, the stop answers and their recogniser, and the
  detectors that read the model's final message.  Counters are natural numbers: they start at
  zero, are only incremented and cleared, and count turns and calls of one run.  The two maps of
  the Go state are made by \<open>newGuardState\<close>, so their nil cases do not arise.  Texts with
  characters outside ASCII are written with their UTF-8 bytes.  The arguments of a \<open>todo_write\<close>
  call reach the model decoded: the parameter \<open>decode\<close> stands for \<open>encoding/json\<close>.
\<close>

section \<open>Thresholds\<close>

definition maxEmptyTurns :: nat where "maxEmptyTurns = 3"
definition staleToolCallThreshold :: nat where "staleToolCallThreshold = 10"
definition stalePlanTurnThreshold :: nat where "stalePlanTurnThreshold = 8"
definition toolOnlyProgressReminderAt :: nat where "toolOnlyProgressReminderAt = 6"
definition noActionReminderAt :: nat where "noActionReminderAt = 3"
definition maxNoActionTurns :: nat where "maxNoActionTurns = 6"
definition planReminderTurn :: nat where "planReminderTurn = 3"
definition planToolName :: string where "planToolName = ''todo_write''"
definition toolFailureHintAt :: nat where "toolFailureHintAt = 2"
definition toolFailureStopAt :: nat where "toolFailureStopAt = 6"
definition noOpToolCallHintAt :: nat where "noOpToolCallHintAt = 3"
definition noOpToolCallStopAt :: nat where "noOpToolCallStopAt = 6"

lemmas thresholds = maxEmptyTurns_def staleToolCallThreshold_def stalePlanTurnThreshold_def
  toolOnlyProgressReminderAt_def noActionReminderAt_def maxNoActionTurns_def planReminderTurn_def
  toolFailureHintAt_def toolFailureStopAt_def noOpToolCallHintAt_def noOpToolCallStopAt_def

section \<open>Reading the model's messages\<close>

text \<open>Two byte sequences of the source: the curly quotes and the ellipsis.\<close>

abbreviation (input) open_curly :: string where "open_curly \<equiv> [CHR 0xE2, CHR 0x80, CHR 0x9C]"
abbreviation (input) close_curly :: string where "close_curly \<equiv> [CHR 0xE2, CHR 0x80, CHR 0x9D]"
abbreviation (input) ellipsis :: string where "ellipsis \<equiv> [CHR 0xE2, CHR 0x80, CHR 0xA6]"

definition has_any_prefix :: "string \<Rightarrow> string list \<Rightarrow> bool" where
  "has_any_prefix s prefixes \<longleftrightarrow> (\<exists>p \<in> set prefixes. has_prefix s p)"

definition contains_any :: "string \<Rightarrow> string list \<Rightarrow> bool" where
  "contains_any s subs \<longleftrightarrow> (\<exists>sub \<in> set subs. contains s sub)"

definition last_line :: "string \<Rightarrow> string" where
  "last_line trimmed =
     (case filter (\<lambda>l. l \<noteq> []) (rev (map trim_space (split_on newline trimmed))) of
        [] \<Rightarrow> [] | l # _ \<Rightarrow> to_lower l)"

definition continuation_cues :: "string list" where
  "continuation_cues = [''let me '', ''let's '', ''now i'll '', ''now i will '', ''now let me '',
     ''let me now '', ''i'll now '', ''i will now '', ''next i'll '', ''next, i'll '', ''first, i'll '',
     ''first let me '']"

definition endsWithContinuationCue :: "string \<Rightarrow> bool" where
  "endsWithContinuationCue text =
     (let trimmed = trim_space text; last = last_line trimmed;
          clause = (case last_index_of last ''. '' of
              Some i \<Rightarrow> trim_space (drop (i + 2) last) | None \<Rightarrow> last)
      in trimmed \<noteq> [] \<and> has_suffix last '':'' \<and> \<not> has_prefix clause ''let me know'' \<and>
         has_any_prefix clause continuation_cues)"

definition selfReportPhrases :: "string list" where
  "selfReportPhrases = [''i guessed'', ''my best guess'', ''i'm guessing'', ''this is a guess'',
     ''just a guess'', ''i made it up'', ''i fabricated'', ''i assumed a'', ''i had to assume'',
     ''i do not have the ability'', ''i don't have the ability'', ''i lack the ability'',
     ''no way for me to'', ''not possible for me to'',
     ''may not be correct'', ''might not be correct'', ''may be incorrect'', ''might be incorrect'',
     ''this may not work'', ''this might not work'', ''not fully functional'', ''not fully working'']"

definition inabilityStems :: "string list" where
  "inabilityStems = [''i cannot '', ''i can't '', ''i can not '', ''i could not '', ''i couldn't '',
     ''i am unable to'', ''i'm unable to'', ''i was unable to'', ''i wasn't able to'',
     ''i was not able to'', ''i do not have'', ''i don't have'', ''unable to '',
     ''without being able to'']"

definition successNegationTails :: "string list" where
  "successNegationTails = [''find any'', ''found any'', ''find a '', ''see any'', ''detect any'',
     ''identify any'', ''reproduce'', ''spot any'', ''locate any'']"

definition narrativeMarkers :: "string list" where
  "narrativeMarkers = [''you asked'', ''you said'', ''you wanted'', ''you mentioned'',
     ''we discussed'', ''we talked'', ''we covered'',
     ''when we last'', ''last time'', ''last session'', ''previous session'',
     ''previous conversation'', ''earlier session'', ''earlier conversation'',
     ''at the time'', ''back then'']"

text \<open>
  \<open>stripQuoted\<close> reads runes; the model reads the same text byte by byte, with the three-byte
  quotes taken at once.  \<open>span\<close> is the pending text since the opening delimiter.
\<close>

datatype delim = Straight | Curly | Backticked

fun open_delim :: "string \<Rightarrow> (delim \<times> string \<times> string) option" where
  "open_delim s =
     (if has_prefix s [quote2] then Some (Straight, [quote2], drop 1 s)
      else if has_prefix s open_curly then Some (Curly, open_curly, drop 3 s)
      else if has_prefix s [backtick] then Some (Backticked, [backtick], drop 1 s)
      else None)"

fun close_delim :: "delim \<Rightarrow> string" where
  "close_delim Straight = [quote2]" | "close_delim Curly = close_curly" | "close_delim Backticked = [backtick]"

function strip_from :: "delim option \<Rightarrow> string \<Rightarrow> string \<Rightarrow> string" where
  "strip_from None span [] = span"
| "strip_from (Some d) span [] = span"
| "strip_from (Some d) span (c # s) =
     (if has_prefix (c # s) (close_delim d) then strip_from None [] (drop (length (close_delim d)) (c # s))
      else strip_from (Some d) (span @ [c]) s)"
| "strip_from None span (c # s) =
     (case open_delim (c # s) of
        Some (d, l, rest) \<Rightarrow> strip_from (Some d) (span @ l) rest
      | None \<Rightarrow> c # strip_from None span s)"
  by pat_completeness auto
termination
proof (relation "measure (\<lambda>(_, _, s). length s)")
  fix d and c :: char and s :: string
  show "((None, [], drop (length (close_delim d)) (c # s)), Some d, span, c # s)
      \<in> measure (\<lambda>(_, _, s). length s)" for span :: string
    by (cases d) auto
qed (auto split: if_splits)

definition stripQuoted :: "string \<Rightarrow> string" where
  "stripQuoted s = strip_from None [] s"

function fields_func :: "('a \<Rightarrow> bool) \<Rightarrow> 'a list \<Rightarrow> 'a list list" where
  "fields_func P [] = []"
| "fields_func P (c # cs) =
     (if P c then fields_func P cs
      else (c # takeWhile (\<lambda>x. \<not> P x) cs) # fields_func P (dropWhile (\<lambda>x. \<not> P x) cs))"
  by pat_completeness auto
termination
  by (relation "measure (\<lambda>(_, s). length s)") (auto simp: le_imp_less_Suc length_dropWhile_le)

definition admissionSentences :: "string \<Rightarrow> string list" where
  "admissionSentences lower =
     fields_func (\<lambda>c. c = CHR ''.'' \<or> c = CHR ''!'' \<or> c = CHR ''?'' \<or> c = newline) lower"

definition selfReportReason :: "string \<Rightarrow> string" where
  "selfReportReason marker =
     ''the final message admits the objective was not met ('' @ [quote2] @ marker @ [quote2] @ '')''"

text \<open>The inner loop of \<open>selfReportedIncompletion\<close>: every occurrence of the stem.\<close>

function inability_at :: "string \<Rightarrow> string \<Rightarrow> bool" where
  "inability_at stem rest =
     (if stem = [] then False
      else case index_of rest stem of
        None \<Rightarrow> False
      | Some i \<Rightarrow>
          \<not> has_any_prefix (trim_space (drop (i + length stem) rest)) successNegationTails \<or>
          inability_at stem (drop (i + length stem) rest))"
  by pat_completeness auto
termination
proof (relation "measure (\<lambda>(_, s). length s)")
  fix stem rest :: string and i
  assume "stem \<noteq> []" "index_of rest stem = Some i"
  then have "has_prefix (drop i rest) stem" by (simp add: index_of_Some)
  then have "length stem \<le> length rest - i" by (metis has_prefix_length length_drop)
  with \<open>stem \<noteq> []\<close> show "((stem, drop (i + length stem) rest), stem, rest) \<in> measure (\<lambda>(_, s). length s)"
    by (cases stem) auto
qed simp

declare inability_at.simps [simp del]

definition sentence_admits :: "string \<Rightarrow> string option" where
  "sentence_admits sentence =
     (if contains_any sentence narrativeMarkers then None
      else case find (contains sentence) selfReportPhrases of
        Some phrase \<Rightarrow> Some (selfReportReason phrase)
      | None \<Rightarrow> (case find (\<lambda>stem. inability_at stem sentence) inabilityStems of
          Some stem \<Rightarrow> Some (selfReportReason (trim_space stem @ '' '' @ ellipsis))
        | None \<Rightarrow> None))"

fun first_admission :: "string list \<Rightarrow> string" where
  "first_admission [] = []"
| "first_admission (s # ss) = (case sentence_admits s of Some r \<Rightarrow> r | None \<Rightarrow> first_admission ss)"

definition selfReportedIncompletion :: "string \<Rightarrow> string" where
  "selfReportedIncompletion text = first_admission (admissionSentences (to_lower (stripQuoted text)))"

section \<open>Reminders, hints and stop answers\<close>

definition continueNudgeMarker :: string where "continueNudgeMarker = ''the task is not finished''"

definition continueNudge :: "string \<Rightarrow> string" where
  "continueNudge reason =
     ''You stopped without calling a tool, but '' @ continueNudgeMarker @ '' ('' @ reason @ ''). '' @
     ''Do not stop here: take the next concrete action with a tool now. '' @
     ''If you are genuinely finished, first mark the plan complete with todo_write, then give your final summary.''"

definition maxTaskObjectiveBytes :: nat where "maxTaskObjectiveBytes = 512"

definition rune_start :: "char \<Rightarrow> bool" where
  "rune_start c \<longleftrightarrow> (of_char c :: nat) div 64 \<noteq> 2"

fun rune_floor :: "string \<Rightarrow> nat \<Rightarrow> nat" where
  "rune_floor s 0 = 0"
| "rune_floor s (Suc n) = (if rune_start (s ! Suc n) then Suc n else rune_floor s n)"

definition capTaskObjective :: "string \<Rightarrow> string" where
  "capTaskObjective objective =
     (let s = trim_space objective
      in if length s \<le> maxTaskObjectiveBytes then s
         else trim_space (take (rune_floor s (maxTaskObjectiveBytes - length ellipsis)) s) @ ellipsis)"

definition acceptanceNudgeMarker :: string where
  "acceptanceNudgeMarker = ''verify your work against the task's stated success criterion''"

abbreviation (input) em_dash :: string where "em_dash \<equiv> [CHR 0xE2, CHR 0x80, CHR 0x94]"

definition acceptanceVerificationNudge :: "string \<Rightarrow> string" where
  "acceptanceVerificationNudge objective =
     (let nudge = ''Before this task can be marked complete, '' @ acceptanceNudgeMarker @ '' '' @ em_dash @ '' '' @
            ''NOT the shape or format of your output, NOT that pre-existing tests pass, and NOT that your '' @
            ''result merely matches a baseline you were asked to beat or improve. '' @
            ''Re-read the original task, then run a concrete check that exercises the actual requirement: '' @
            ''execute the program or tests that demonstrate the required behavior, or directly probe the specific '' @
            ''thing the task asked you to produce, recover, fix, or optimize. '' @
            ''If that check passes, reply PASS and cite the evidence. '' @
            ''If it does not pass '' @ em_dash @ '' or you cannot run such a check '' @ em_dash @
            '' say so plainly and keep working; do not claim success.'';
          capped = capTaskObjective objective
      in if capped \<noteq> [] then nudge @ [newline, newline] @ ''Task objective: '' @ capped else nudge)"

definition errorSignature :: "string \<Rightarrow> string" where
  "errorSignature output = take 80 (to_lower (join '' '' (str_fields output)))"

definition toolFailureHintMarker :: string where
  "toolFailureHintMarker = ''kept failing with the same error''"

definition toolFailureHint :: "string \<Rightarrow> string \<Rightarrow> string \<Rightarrow> string" where
  "toolFailureHint toolName schemaJSON errOutput =
     ''Your calls to the '' @ [backtick] @ toolName @ [backtick] @ '' tool '' @ toolFailureHintMarker @ '':'' @
     [newline] @ trim_space errOutput @
     [newline, newline] @ ''The '' @ [backtick] @ toolName @ [backtick] @
     '' tool expects arguments matching this schema '' @ em_dash @ '' match it exactly:'' @ [newline] @
     trim_space schemaJSON @
     [newline, newline] @ ''Fix the arguments and try once more, or take a different approach.''"

definition toolFailureStopAnswer :: "string \<Rightarrow> nat \<Rightarrow> string" where
  "toolFailureStopAnswer toolName count =
     ''Agent stopped: the '' @ [backtick] @ toolName @ [backtick] @ '' tool failed '' @ itoa count @
     '' times in a row with the same error, so I halted instead of looping further. '' @
     ''Please check the request or adjust the tool arguments.''"

definition noOutputStopPrefix :: string where "noOutputStopPrefix = ''Agent stopped after ''"
definition noOutputStopMarker :: string where
  "noOutputStopMarker = ''with no output (no visible text and no tool calls)''"
definition noOutputStopSuffix :: string where
  "noOutputStopSuffix = ''to avoid consuming tokens without making progress.''"
definition noActionStopMarker :: string where
  "noActionStopMarker = ''without producing output or running a tool''"
definition droppedCallStopMarker :: string where "droppedCallStopMarker = ''whose tool calls could not run''"
definition degenerateStopMarker :: string where
  "degenerateStopMarker = ''whose output was stuck repeating itself''"
definition noOpToolCallStopMarker :: string where
  "noOpToolCallStopMarker = ''repeated earlier tool calls verbatim''"

definition noActionStopTail :: string where
  "noActionStopTail = noActionStopMarker @ '', to avoid consuming tokens without making progress.''"
definition droppedCallStopTail :: string where
  "droppedCallStopTail = droppedCallStopMarker @ '', to avoid consuming tokens without making progress.''"
definition degenerateStopTail :: string where
  "degenerateStopTail = degenerateStopMarker @ '', to avoid consuming tokens without making progress.''"
definition noOpToolCallStopTail :: string where
  "noOpToolCallStopTail = ''that '' @ noOpToolCallStopMarker @
     '', which returned nothing new, to avoid consuming tokens without making progress.''"

definition noOutputStopAnswer :: "nat \<Rightarrow> string" where
  "noOutputStopAnswer turns = noOutputStopPrefix @ itoa turns @ '' turns '' @ noOutputStopMarker @ '' '' @
     noOutputStopSuffix"
definition noActionStopAnswer :: "nat \<Rightarrow> bool \<Rightarrow> string" where
  "noActionStopAnswer turns droppedCall = noOutputStopPrefix @ itoa turns @ '' turns '' @
     (if droppedCall then droppedCallStopTail else noActionStopTail)"
definition degenerateStopAnswer :: "nat \<Rightarrow> string" where
  "degenerateStopAnswer turns = noOutputStopPrefix @ itoa turns @ '' turns '' @ degenerateStopTail"
definition noOpToolCallStopAnswer :: "nat \<Rightarrow> string" where
  "noOpToolCallStopAnswer turns = noOutputStopPrefix @ itoa turns @ '' turns '' @ noOpToolCallStopTail"

definition guardStopTails :: "string list" where
  "guardStopTails = [noOutputStopMarker @ '' '' @ noOutputStopSuffix, noActionStopTail,
     droppedCallStopTail, degenerateStopTail, noOpToolCallStopTail]"

definition IsNoProgressStop :: "string \<Rightarrow> bool" where
  "IsNoProgressStop content =
     (let trimmed = trim_space content; rest = drop (length noOutputStopPrefix) trimmed
      in has_prefix trimmed noOutputStopPrefix \<and>
         (case index_of rest '' turns '' of
            None \<Rightarrow> False
          | Some sep \<Rightarrow> atoi (take sep rest) \<noteq> None \<and>
              drop (sep + length '' turns '') rest \<in> set guardStopTails))"

definition planNotCalledReminder :: string where
  "planNotCalledReminder =
     ''Reminder: this looks like a multi-step task and '' @ ''you have not called todo_write'' @
     ''. Use the todo_write tool to record the steps and keep progress visible. '' @
     ''Continue with your work after updating the plan.''"

definition planStaleReminder :: "nat \<Rightarrow> string" where
  "planStaleReminder callsSinceUpdate =
     ''Reminder: you've made '' @ itoa callsSinceUpdate @ '' tool calls but '' @
     ''haven't updated the plan via todo_write'' @
     '' in a while. Update the plan to reflect completed and remaining steps, then continue.''"

definition toolOnlyProgressReminder :: "nat \<Rightarrow> string" where
  "toolOnlyProgressReminder turns =
     ''Reminder: you've made '' @ itoa turns @ '' '' @ ''consecutive tool-only turns'' @
     '' without visible progress. Before calling more tools, summarize what you already know, state the next concrete step, and finish if you have enough information.''"

definition noActionProgressReminder :: "nat \<Rightarrow> string" where
  "noActionProgressReminder turns =
     ''Reminder: your last '' @ itoa turns @ '' '' @
     ''consecutive turns with no visible output and no executed tool call'' @
     ''. Stop deliberating: call a tool now to make progress, or give your final answer.''"

definition noOpToolCallReminder :: "nat \<Rightarrow> string" where
  "noOpToolCallReminder turns =
     ''Your last '' @ itoa turns @ '' turns called tools with arguments identical to earlier calls in this run, '' @
     ''so they returned nothing new. Do not repeat a call you have already made: '' @
     ''use the results you already have, change the arguments, or state the answer with what you know.''"

section \<open>Plans\<close>

definition normalizeTaskPlanStatus :: "string \<Rightarrow> string" where
  "normalizeTaskPlanStatus status =
     (let s = to_lower (trim_space status)
      in if s \<in> {''completed'', ''complete'', ''done'', ''finished'', ''resolved'',
                 [CHR 0xE2, CHR 0x9C, CHR 0x93], ''x'', ''[x]''} then ''completed''
         else if s \<in> {''in_progress'', ''in-progress'', ''inprogress'', ''in progress'', ''active'',
                 ''doing'', ''started'', ''current'', ''wip'', ''ongoing'', ''running''} then ''in_progress''
         else if s \<in> {''failed'', ''fail'', ''error'', ''errored'', ''blocked'', ''cancelled'',
                 ''canceled'', ''abandoned'', ''skipped''} then ''failed''
         else ''pending'')"

record taskPlanItem =
  item_Content :: string
  item_Status :: string
  item_Notes :: string

text \<open>
  What \<open>encoding/json\<close> makes of a call's arguments: no object, an object without the key, a
  null or ill-typed \<open>todos\<close>, or the list of raw items (the Go struct's zero values filled in).
\<close>

datatype todos_arg = Not_Object | No_Todos | Todos_Null | Todos_Ill_Typed | Todos "taskPlanItem list"

fun keep_last_in_progress :: "taskPlanItem list \<Rightarrow> taskPlanItem list" where
  "keep_last_in_progress [] = []"
| "keep_last_in_progress (it # its) =
     (if item_Status it = ''in_progress'' \<and> (\<exists>j \<in> set its. item_Status j = ''in_progress'')
      then it\<lparr>item_Status := ''completed''\<rparr> else it) # keep_last_in_progress its"

definition parseTaskPlan :: "(string \<Rightarrow> todos_arg) \<Rightarrow> string \<Rightarrow> taskPlanItem list option" where
  "parseTaskPlan decode arguments =
     (case decode (trim_space arguments) of
        Todos raw \<Rightarrow>
          if \<exists>it \<in> set raw. item_Content it = [] then None
          else Some (keep_last_in_progress
            (map (\<lambda>it. it\<lparr>item_Status := normalizeTaskPlanStatus (item_Status it)\<rparr>) raw))
      | Not_Object \<Rightarrow> None | No_Todos \<Rightarrow> None | Todos_Null \<Rightarrow> None | Todos_Ill_Typed \<Rightarrow> None)"

definition planStatusRemaining :: "string \<Rightarrow> bool" where
  "planStatusRemaining status \<longleftrightarrow> normalizeTaskPlanStatus status \<notin> {''completed'', ''failed''}"

section \<open>The guard state\<close>

record toolFailureRecord =
  tf_count :: nat
  errSig :: string
  hintShown :: bool

record tool_outcome =
  InjectHint :: bool
  Stop :: bool
  Count :: nat

definition no_outcome :: tool_outcome where
  "no_outcome = \<lparr>InjectHint = False, Stop = False, Count = 0\<rparr>"

record ToolCall =
  call_ID :: string
  call_Name :: string
  call_Arguments :: string
  call_Signature :: string

text \<open>The fields of \<open>CollectedStream\<close> the guards read; a reasoning block is opaque text.\<close>

record CollectedStream =
  Text :: string
  ToolCalls :: "ToolCall list"
  ReasoningBlocks :: "string list"
  HasReasoning :: bool

record guardState =
  emptyTurns :: nat
  totalToolCalls :: nat
  toolCallsSincePlanUpdate :: nat
  turnsSincePlanUpdate :: nat
  planEverCalled :: bool
  notCalledReminderSent :: bool
  staleReminderSent :: bool
  toolOnlyTurns :: nat
  toolOnlyReminderSent :: bool
  noActionTurns :: nat
  noActionReminderSent :: bool
  noActionDroppedCall :: bool
  noActionDegenerate :: bool
  planItemsPending :: nat
  toolFailures :: "string \<rightharpoonup> toolFailureRecord"
  seenToolCalls :: "string set"
  noOpTurns :: nat
  noOpReminderSent :: bool

definition newGuardState :: guardState where
  "newGuardState = \<lparr>emptyTurns = 0, totalToolCalls = 0, toolCallsSincePlanUpdate = 0,
     turnsSincePlanUpdate = 0, planEverCalled = False, notCalledReminderSent = False,
     staleReminderSent = False, toolOnlyTurns = 0, toolOnlyReminderSent = False, noActionTurns = 0,
     noActionReminderSent = False, noActionDroppedCall = False, noActionDegenerate = False,
     planItemsPending = 0, toolFailures = Map.empty, seenToolCalls = {}, noOpTurns = 0,
     noOpReminderSent = False\<rparr>"

definition toolCallKey :: "ToolCall \<Rightarrow> string" where
  "toolCallKey call = call_Name call @ [CHR 0x00] @ call_Arguments call"

fun mark_seen :: "ToolCall list \<Rightarrow> string set \<times> bool \<Rightarrow> string set \<times> bool" where
  "mark_seen [] (seen, repeated) = (seen, repeated)"
| "mark_seen (call # calls) (seen, repeated) =
     mark_seen calls (if toolCallKey call \<notin> seen then (insert (toolCallKey call) seen, False)
       else (seen, repeated))"

definition observeNoOpToolCalls :: "ToolCall list \<Rightarrow> string list \<Rightarrow> guardState \<Rightarrow> tool_outcome \<times> guardState" where
  "observeNoOpToolCalls calls changedFiles state =
     (if calls = [] then (no_outcome, state)
      else
        let (seen, repeated) = mark_seen calls (seenToolCalls state, changedFiles = []);
            st = state\<lparr>seenToolCalls := seen\<rparr>
        in if \<not> repeated then (no_outcome, st\<lparr>noOpTurns := 0, noOpReminderSent := False\<rparr>)
           else
             let n = Suc (noOpTurns st); st1 = st\<lparr>noOpTurns := n\<rparr>; outcome = no_outcome\<lparr>Count := n\<rparr>
             in if noOpToolCallStopAt \<le> n then (outcome\<lparr>Stop := True\<rparr>, st1)
                else if noOpToolCallHintAt \<le> n \<and> \<not> noOpReminderSent st1
                then (outcome\<lparr>InjectHint := True\<rparr>, st1\<lparr>noOpReminderSent := True\<rparr>)
                else (outcome, st1))"

definition observeToolResult :: "string \<Rightarrow> bool \<Rightarrow> string \<Rightarrow> guardState \<Rightarrow> tool_outcome \<times> guardState" where
  "observeToolResult name failed output state =
     (if \<not> failed then (no_outcome, state\<lparr>toolFailures := (toolFailures state)(name := None)\<rparr>)
      else
        let sig = errorSignature output;
            record = (case toolFailures state name of
                None \<Rightarrow> \<lparr>tf_count = 1, errSig = sig, hintShown = False\<rparr>
              | Some r \<Rightarrow> if errSig r \<noteq> sig then \<lparr>tf_count = 1, errSig = sig, hintShown = False\<rparr>
                  else r\<lparr>tf_count := Suc (tf_count r)\<rparr>);
            outcome = no_outcome\<lparr>Count := tf_count record\<rparr>;
            put = (\<lambda>r. state\<lparr>toolFailures := (toolFailures state)(name \<mapsto> r)\<rparr>)
        in if toolFailureStopAt \<le> tf_count record then (outcome\<lparr>Stop := True\<rparr>, put record)
           else if toolFailureHintAt \<le> tf_count record \<and> \<not> hintShown record
           then (outcome\<lparr>InjectHint := True\<rparr>, put (record\<lparr>hintShown := True\<rparr>))
           else (outcome, put record))"

definition observePlanUpdate :: "(string \<Rightarrow> todos_arg) \<Rightarrow> string \<Rightarrow> guardState \<Rightarrow> guardState" where
  "observePlanUpdate decode arguments state =
     (case parseTaskPlan decode arguments of
        None \<Rightarrow> state
      | Some plan \<Rightarrow>
          state\<lparr>planItemsPending := length (filter (\<lambda>it. planStatusRemaining (item_Status it)) plan)\<rparr>)"

definition observe_call :: "(string \<Rightarrow> todos_arg) \<Rightarrow> ToolCall \<Rightarrow> guardState \<Rightarrow> guardState" where
  "observe_call decode call state =
     (let st = state\<lparr>totalToolCalls := Suc (totalToolCalls state)\<rparr>
      in if call_Name call = planToolName
         then observePlanUpdate decode (call_Arguments call)
           (st\<lparr>planEverCalled := True, toolCallsSincePlanUpdate := 0, turnsSincePlanUpdate := 0,
               staleReminderSent := False\<rparr>)
         else st\<lparr>toolCallsSincePlanUpdate := Suc (toolCallsSincePlanUpdate st)\<rparr>)"

definition hasVisibleText :: "CollectedStream \<Rightarrow> bool" where
  "hasVisibleText collected \<longleftrightarrow> trim_space (Text collected) \<noteq> []"

definition observeTurn :: "(string \<Rightarrow> todos_arg) \<Rightarrow> CollectedStream \<Rightarrow> guardState \<Rightarrow> bool \<times> guardState" where
  "observeTurn decode collected state =
     (let hasToolCalls = ToolCalls collected \<noteq> [];
          hasText = hasVisibleText collected;
          hasReasoning = HasReasoning collected \<or> ReasoningBlocks collected \<noteq> [];
          s1 = (if hasToolCalls \<or> hasText \<or> hasReasoning then state\<lparr>emptyTurns := 0\<rparr>
                else state\<lparr>emptyTurns := Suc (emptyTurns state)\<rparr>);
          s2 = (if hasToolCalls \<and> \<not> hasText then s1\<lparr>toolOnlyTurns := Suc (toolOnlyTurns s1)\<rparr>
                else s1\<lparr>toolOnlyTurns := 0, toolOnlyReminderSent := False\<rparr>);
          s3 = (if \<not> hasToolCalls \<and> \<not> hasText
                then s2\<lparr>noActionTurns := Suc (noActionTurns s2), noActionDroppedCall := False,
                        noActionDegenerate := False\<rparr>
                else s2\<lparr>noActionTurns := 0, noActionReminderSent := False\<rparr>);
          s4 = s3\<lparr>turnsSincePlanUpdate := Suc (turnsSincePlanUpdate s3)\<rparr>;
          s5 = fold (observe_call decode) (ToolCalls collected) s4
      in (maxEmptyTurns \<le> emptyTurns s5 \<or> maxNoActionTurns \<le> noActionTurns s5, s5))"

definition observeNoActionTurn :: "guardState \<Rightarrow> bool \<times> guardState" where
  "observeNoActionTurn state =
     (let s = state\<lparr>noActionTurns := Suc (noActionTurns state), noActionDroppedCall := True,
                    noActionDegenerate := False\<rparr>
      in (maxNoActionTurns \<le> noActionTurns s, s))"

definition observeDegenerateTurn :: "guardState \<Rightarrow> bool \<times> guardState" where
  "observeDegenerateTurn state =
     (let s = state\<lparr>noActionTurns := Suc (noActionTurns state), noActionDroppedCall := False,
                    noActionDegenerate := True\<rparr>
      in (maxNoActionTurns \<le> noActionTurns s, s))"

definition pendingPlanItems :: "guardState \<Rightarrow> bool" where
  "pendingPlanItems state \<longleftrightarrow> 0 < planItemsPending state"

definition guardStopAnswer :: "guardState \<Rightarrow> nat \<Rightarrow> string" where
  "guardStopAnswer state turns =
     (if maxNoActionTurns \<le> noActionTurns state
      then if noActionDegenerate state then degenerateStopAnswer turns
           else noActionStopAnswer turns (noActionDroppedCall state)
      else noOutputStopAnswer turns)"

definition progressReminder :: "guardState \<Rightarrow> string \<times> guardState" where
  "progressReminder state =
     (if toolOnlyReminderSent state \<or> toolOnlyTurns state < toolOnlyProgressReminderAt then ([], state)
      else (toolOnlyProgressReminder (toolOnlyTurns state), state\<lparr>toolOnlyReminderSent := True\<rparr>))"

definition noActionReminder :: "guardState \<Rightarrow> string \<times> guardState" where
  "noActionReminder state =
     (if noActionReminderSent state \<or> noActionTurns state < noActionReminderAt then ([], state)
      else (noActionProgressReminder (noActionTurns state), state\<lparr>noActionReminderSent := True\<rparr>))"

definition planReminder :: "nat \<Rightarrow> guardState \<Rightarrow> string \<times> guardState" where
  "planReminder turn state =
     (if planEverCalled state \<and> \<not> staleReminderSent state \<and>
         (staleToolCallThreshold \<le> toolCallsSincePlanUpdate state \<or>
          (stalePlanTurnThreshold \<le> turnsSincePlanUpdate state \<and> 0 < planItemsPending state))
      then (planStaleReminder (toolCallsSincePlanUpdate state), state\<lparr>staleReminderSent := True\<rparr>)
      else if \<not> notCalledReminderSent state \<and> \<not> planEverCalled state \<and> planReminderTurn \<le> turn \<and>
         1 \<le> totalToolCalls state
      then (planNotCalledReminder, state\<lparr>notCalledReminderSent := True\<rparr>)
      else ([], state))"

section \<open>Runs of the agent loop\<close>

text \<open>
  What the loop does with the state, in the order of the calls of \<open>loop.go\<close>: a collected turn, a
  turn whose tool calls were dropped, a turn cut off for repeating itself, the batch of calls of a
  turn with the files it changed, one tool result, and the three reminders.
\<close>

datatype guard_op =
    Turn CollectedStream
  | Dropped_Call
  | Cut_Off
  | Calls "ToolCall list" "string list"
  | Result string bool string
  | Ask_Progress
  | Ask_No_Action
  | Ask_Plan nat

fun run_op :: "(string \<Rightarrow> todos_arg) \<Rightarrow> guardState \<Rightarrow> guard_op \<Rightarrow> guardState" where
  "run_op decode s (Turn c) = snd (observeTurn decode c s)"
| "run_op decode s Dropped_Call = snd (observeNoActionTurn s)"
| "run_op decode s Cut_Off = snd (observeDegenerateTurn s)"
| "run_op decode s (Calls cs ch) = snd (observeNoOpToolCalls cs ch s)"
| "run_op decode s (Result n f out) = snd (observeToolResult n f out s)"
| "run_op decode s Ask_Progress = snd (progressReminder s)"
| "run_op decode s Ask_No_Action = snd (noActionReminder s)"
| "run_op decode s (Ask_Plan t) = snd (planReminder t s)"

abbreviation run_ops :: "(string \<Rightarrow> todos_arg) \<Rightarrow> guard_op list \<Rightarrow> guardState" where
  "run_ops decode ops \<equiv> foldl (run_op decode) newGuardState ops"

fun turn_stops :: "(string \<Rightarrow> todos_arg) \<Rightarrow> guard_op \<Rightarrow> guardState \<Rightarrow> bool" where
  "turn_stops decode (Turn c) s = fst (observeTurn decode c s)"
| "turn_stops decode Dropped_Call s = fst (observeNoActionTurn s)"
| "turn_stops decode Cut_Off s = fst (observeDegenerateTurn s)"
| "turn_stops decode _ s = False"

fun turn_op :: "guard_op \<Rightarrow> bool" where
  "turn_op (Turn c) = True" | "turn_op Dropped_Call = True" | "turn_op Cut_Off = True" | "turn_op _ = False"

fun collected_op :: "guard_op \<Rightarrow> bool" where
  "collected_op (Turn c) = True" | "collected_op _ = False"

text \<open>A turn that showed no text and ran no tool, and one that did not even reason.\<close>

fun no_action_op :: "guard_op \<Rightarrow> bool" where
  "no_action_op (Turn c) = (ToolCalls c = [] \<and> \<not> hasVisibleText c)"
| "no_action_op _ = True"

fun empty_op :: "guard_op \<Rightarrow> bool" where
  "empty_op (Turn c) = (ToolCalls c = [] \<and> \<not> hasVisibleText c \<and> \<not> HasReasoning c \<and> ReasoningBlocks c = [])"
| "empty_op _ = False"

fun tool_only_op :: "guard_op \<Rightarrow> bool" where
  "tool_only_op (Turn c) = (ToolCalls c \<noteq> [] \<and> \<not> hasVisibleText c)"
| "tool_only_op _ = False"

fun batch_op :: "guard_op \<Rightarrow> bool" where
  "batch_op (Calls cs ch) = (cs \<noteq> [])" | "batch_op _ = False"

fun repeat_op :: "guardState \<Rightarrow> guard_op \<Rightarrow> bool" where
  "repeat_op s (Calls cs ch) = (ch = [] \<and> toolCallKey ` set cs \<subseteq> seenToolCalls s)"
| "repeat_op s _ = False"

named_theorems guard_ops "the guard operations, unfolded"

lemmas [guard_ops] = observeTurn_def observeNoActionTurn_def observeDegenerateTurn_def
  observeNoOpToolCalls_def observeToolResult_def progressReminder_def noActionReminder_def planReminder_def

lemma observe_call_frame [simp]:
  "emptyTurns (observe_call d c s) = emptyTurns s" "toolOnlyTurns (observe_call d c s) = toolOnlyTurns s"
  "noActionTurns (observe_call d c s) = noActionTurns s" "noOpTurns (observe_call d c s) = noOpTurns s"
  "seenToolCalls (observe_call d c s) = seenToolCalls s" "toolFailures (observe_call d c s) = toolFailures s"
  "noOpReminderSent (observe_call d c s) = noOpReminderSent s"
  "noActionDroppedCall (observe_call d c s) = noActionDroppedCall s"
  "noActionDegenerate (observe_call d c s) = noActionDegenerate s"
  by (auto simp: observe_call_def observePlanUpdate_def Let_def split: option.splits)

lemma observe_calls_frame [simp]:
  "emptyTurns (fold (observe_call d) cs s) = emptyTurns s"
  "toolOnlyTurns (fold (observe_call d) cs s) = toolOnlyTurns s"
  "noActionTurns (fold (observe_call d) cs s) = noActionTurns s"
  "noOpTurns (fold (observe_call d) cs s) = noOpTurns s"
  "seenToolCalls (fold (observe_call d) cs s) = seenToolCalls s"
  "toolFailures (fold (observe_call d) cs s) = toolFailures s"
  "noOpReminderSent (fold (observe_call d) cs s) = noOpReminderSent s"
  "noActionDroppedCall (fold (observe_call d) cs s) = noActionDroppedCall s"
  "noActionDegenerate (fold (observe_call d) cs s) = noActionDegenerate s"
  by (induction cs arbitrary: s) auto

lemma mark_seen_eq:
  "mark_seen cs (seen, r) = (seen \<union> toolCallKey ` set cs, r \<and> toolCallKey ` set cs \<subseteq> seen)"
proof (induction cs arbitrary: seen r)
  case (Cons c cs)
  then show ?case by (cases "toolCallKey c \<in> seen") auto
qed simp

interpretation no_action: streak "run_op d" noActionTurns "\<lambda>_. no_action_op" "\<lambda>_ op. \<not> turn_op op" for d
proof
  fix s op
  show "\<not> \<not> turn_op op \<Longrightarrow> no_action_op op \<Longrightarrow> noActionTurns (run_op d s op) = Suc (noActionTurns s)"
    by (cases op) (auto simp: guard_ops Let_def)
  show "\<not> \<not> turn_op op \<Longrightarrow> \<not> no_action_op op \<Longrightarrow> noActionTurns (run_op d s op) = 0"
    by (cases op) (auto simp: guard_ops Let_def)
  show "\<not> turn_op op \<Longrightarrow> noActionTurns (run_op d s op) = noActionTurns s"
    by (cases op) (auto simp: guard_ops Let_def mark_seen_eq)
qed

interpretation empty_turn: streak "run_op d" emptyTurns "\<lambda>_. empty_op" "\<lambda>_ op. \<not> collected_op op" for d
proof
  fix s op
  show "\<not> \<not> collected_op op \<Longrightarrow> empty_op op \<Longrightarrow> emptyTurns (run_op d s op) = Suc (emptyTurns s)"
    by (cases op) (auto simp: guard_ops Let_def)
  show "\<not> \<not> collected_op op \<Longrightarrow> \<not> empty_op op \<Longrightarrow> emptyTurns (run_op d s op) = 0"
    by (cases op) (auto simp: guard_ops Let_def)
  show "\<not> collected_op op \<Longrightarrow> emptyTurns (run_op d s op) = emptyTurns s"
    by (cases op) (auto simp: guard_ops Let_def mark_seen_eq)
qed

interpretation tool_only: streak "run_op d" toolOnlyTurns "\<lambda>_. tool_only_op" "\<lambda>_ op. \<not> collected_op op" for d
proof
  fix s op
  show "\<not> \<not> collected_op op \<Longrightarrow> tool_only_op op \<Longrightarrow> toolOnlyTurns (run_op d s op) = Suc (toolOnlyTurns s)"
    by (cases op) (auto simp: guard_ops Let_def)
  show "\<not> \<not> collected_op op \<Longrightarrow> \<not> tool_only_op op \<Longrightarrow> toolOnlyTurns (run_op d s op) = 0"
    by (cases op) (auto simp: guard_ops Let_def)
  show "\<not> collected_op op \<Longrightarrow> toolOnlyTurns (run_op d s op) = toolOnlyTurns s"
    by (cases op) (auto simp: guard_ops Let_def mark_seen_eq)
qed

interpretation no_op: streak "run_op d" noOpTurns repeat_op "\<lambda>_ op. \<not> batch_op op" for d
proof
  fix s op
  show "\<not> \<not> batch_op op \<Longrightarrow> repeat_op s op \<Longrightarrow> noOpTurns (run_op d s op) = Suc (noOpTurns s)"
    by (cases op) (auto simp: guard_ops Let_def mark_seen_eq)
  show "\<not> \<not> batch_op op \<Longrightarrow> \<not> repeat_op s op \<Longrightarrow> noOpTurns (run_op d s op) = 0"
    by (cases op) (auto simp: guard_ops Let_def mark_seen_eq)
  show "\<not> batch_op op \<Longrightarrow> noOpTurns (run_op d s op) = noOpTurns s"
    by (cases op) (auto simp: guard_ops Let_def)
qed

section \<open>Counting turns, repeats and failures\<close>

definition idle_turns :: "guard_op list \<Rightarrow> nat" where
  "idle_turns ops = length (takeWhile no_action_op (rev (filter turn_op ops)))"

definition silent_turns :: "guard_op list \<Rightarrow> nat" where
  "silent_turns ops = length (takeWhile empty_op (rev (filter collected_op ops)))"

definition tool_only_run :: "guard_op list \<Rightarrow> nat" where
  "tool_only_run ops = length (takeWhile tool_only_op (rev (filter collected_op ops)))"

fun op_keys :: "guard_op \<Rightarrow> string set" where
  "op_keys (Calls cs ch) = toolCallKey ` set cs" | "op_keys _ = {}"

text \<open>For each batch of calls, whether it changed no file and every call had been issued before it.\<close>

fun repeat_flags :: "string set \<Rightarrow> guard_op list \<Rightarrow> bool list" where
  "repeat_flags seen [] = []"
| "repeat_flags seen (op # ops) =
     (if batch_op op then [op_keys op \<subseteq> seen \<and> (case op of Calls cs ch \<Rightarrow> ch = [] | _ \<Rightarrow> False)] else []) @
     repeat_flags (seen \<union> op_keys op) ops"

definition repeats :: "guard_op list \<Rightarrow> nat" where
  "repeats ops = length (takeWhile id (rev (repeat_flags {} ops)))"

fun result_of :: "string \<Rightarrow> guard_op \<Rightarrow> (bool \<times> string) option" where
  "result_of t (Result n f out) = (if n = t then Some (f, errorSignature out) else None)"
| "result_of t _ = None"

definition results_of :: "string \<Rightarrow> guard_op list \<Rightarrow> (bool \<times> string) list" where
  "results_of t ops = List.map_filter (result_of t) ops"

definition same_failures :: "string \<Rightarrow> string \<Rightarrow> guard_op list \<Rightarrow> nat" where
  "same_failures t sig ops = length (takeWhile (\<lambda>r. r = (True, sig)) (rev (results_of t ops)))"

lemma noActionTurns_run: "noActionTurns (run_ops d ops) = idle_turns ops"
  using no_action.streak_static [of no_action_op "\<lambda>op. \<not> turn_op op" newGuardState d ops]
  by (simp add: idle_turns_def newGuardState_def)

lemma emptyTurns_run: "emptyTurns (run_ops d ops) = silent_turns ops"
  using empty_turn.streak_static [of empty_op "\<lambda>op. \<not> collected_op op" newGuardState d ops]
  by (simp add: silent_turns_def newGuardState_def)

lemma toolOnlyTurns_run: "toolOnlyTurns (run_ops d ops) = tool_only_run ops"
  using tool_only.streak_static [of tool_only_op "\<lambda>op. \<not> collected_op op" newGuardState d ops]
  by (simp add: tool_only_run_def newGuardState_def)

lemma run_op_seen: "seenToolCalls (run_op d s op) = seenToolCalls s \<union> op_keys op"
  by (cases op) (auto simp: guard_ops Let_def mark_seen_eq)

lemma no_op_history: "no_op.history d s ops = repeat_flags (seenToolCalls s) ops"
proof (induction ops arbitrary: s)
  case (Cons op ops)
  have "repeat_op s op = (op_keys op \<subseteq> seenToolCalls s \<and> (case op of Calls cs ch \<Rightarrow> ch = [] | _ \<Rightarrow> False))"
    by (cases op) auto
  with Cons show ?case by (simp add: run_op_seen)
qed simp

lemma noOpTurns_run: "noOpTurns (run_ops d ops) = repeats ops"
  using no_op.streak_counts [of newGuardState d ops]
  by (simp add: repeats_def no_op_history newGuardState_def)

lemma noOp_reminder_step:
  "noOpReminderSent s = (noOpToolCallHintAt \<le> noOpTurns s) \<Longrightarrow>
   noOpReminderSent (run_op d s op) = (noOpToolCallHintAt \<le> noOpTurns (run_op d s op))"
  by (cases op) (auto simp: guard_ops Let_def mark_seen_eq thresholds)

lemma noOp_reminder_run: "noOpReminderSent (run_ops d ops) = (noOpToolCallHintAt \<le> noOpTurns (run_ops d ops))"
proof (induction ops rule: rev_induct)
  case Nil
  then show ?case by (simp add: newGuardState_def thresholds)
next
  case (snoc op ops)
  then show ?case by (simp add: noOp_reminder_step)
qed

text \<open>The record of a tool is determined by the results it returned so far.\<close>

definition failure_record :: "(bool \<times> string) list \<Rightarrow> toolFailureRecord option" where
  "failure_record rs =
     (case rs of (True, sig) # _ \<Rightarrow>
          let n = length (takeWhile (\<lambda>r. r = (True, sig)) rs)
          in Some \<lparr>tf_count = n, errSig = sig, hintShown = (toolFailureHintAt \<le> n)\<rparr>
      | _ \<Rightarrow> None)"

lemma run_op_other_tool: "result_of t op = None \<Longrightarrow> toolFailures (run_op d s op) t = toolFailures s t"
  by (cases op) (auto simp: guard_ops Let_def mark_seen_eq split: if_splits)

lemma results_of_snoc: "results_of t (ops @ [op]) = results_of t ops @ (case result_of t op of None \<Rightarrow> [] | Some r \<Rightarrow> [r])"
  by (simp add: results_of_def map_filter_def split: option.splits)

lemma failure_record_None: "failure_record rs = None \<longleftrightarrow> (case rs of (True, sig) # _ \<Rightarrow> False | _ \<Rightarrow> True)"
  by (auto simp: failure_record_def Let_def split: list.splits prod.splits bool.splits)

lemma failure_record_step:
  assumes "toolFailures s t = failure_record rs"
  shows "toolFailures (run_op d s (Result t f out)) t = failure_record ((f, errorSignature out) # rs)"
proof (cases f)
  case False
  then show ?thesis by (simp add: guard_ops failure_record_def)
next
  case True
  consider (none) "failure_record rs = None"
    | (some) sig rs' where "rs = (True, sig) # rs'"
    using that by (cases rs; cases "hd rs"; cases "fst (hd rs)") (auto simp: failure_record_None)
  then show ?thesis
  proof cases
    case none
    then have "takeWhile (\<lambda>r. r = (True, errorSignature out)) rs = []"
      by (cases rs) (auto simp: failure_record_None split: prod.splits bool.splits)
    with none True assms show ?thesis
      by (simp add: guard_ops Let_def failure_record_def thresholds)
  next
    case some
    with True assms show ?thesis
      by (cases "sig = errorSignature out")
        (auto simp: guard_ops Let_def failure_record_def thresholds)
  qed
qed

lemma toolFailures_run: "toolFailures (run_ops d ops) t = failure_record (rev (results_of t ops))"
proof (induction ops rule: rev_induct)
  case Nil
  then show ?case by (simp add: newGuardState_def results_of_def map_filter_def failure_record_def)
next
  case (snoc op ops)
  show ?case
  proof (cases "result_of t op")
    case None
    with snoc show ?thesis by (simp add: results_of_snoc run_op_other_tool)
  next
    case (Some r)
    then obtain f out where op: "op = Result t f out" by (cases op) (auto split: if_splits)
    with snoc failure_record_step [of "run_ops d ops" t _ d f out] show ?thesis
      by (simp add: results_of_snoc)
  qed
qed

section \<open>Recognising the stop answers\<close>

lemma atoi_no_space:
  assumes "atoi ds \<noteq> None"
  shows "CHR '' '' \<notin> set ds"
proof -
  have "is_digit CHR '' '' = False" by (simp add: is_digit_def)
  then show ?thesis
    using assms unfolding atoi_def Let_def
    by (cases ds) (auto simp: list_all_iff split: if_splits)
qed

lemma IsNoProgressStop_shape:
  "IsNoProgressStop content \<longleftrightarrow>
     (\<exists>ds. \<exists>tail \<in> set guardStopTails. atoi ds \<noteq> None \<and>
        trim_space content = noOutputStopPrefix @ ds @ '' turns '' @ tail)"
proof
  assume h: "IsNoProgressStop content"
  define rest where "rest = drop (length noOutputStopPrefix) (trim_space content)"
  from h have p: "has_prefix (trim_space content) noOutputStopPrefix"
    by (simp add: IsNoProgressStop_def Let_def)
  then have t: "trim_space content = noOutputStopPrefix @ rest"
    by (auto simp: rest_def has_prefix_iff)
  obtain sep where "index_of rest '' turns '' = Some sep" "atoi (take sep rest) \<noteq> None"
      "drop (sep + length '' turns '') rest \<in> set guardStopTails"
    using h unfolding IsNoProgressStop_def Let_def rest_def [symmetric] by (auto split: option.splits)
  note r = t this
  have "rest = take sep rest @ '' turns '' @ drop (sep + length '' turns '') rest"
    using r(2) by (rule index_of_drop)
  with r show "\<exists>ds. \<exists>tail \<in> set guardStopTails. atoi ds \<noteq> None \<and>
      trim_space content = noOutputStopPrefix @ ds @ '' turns '' @ tail"
    by metis
next
  assume "\<exists>ds. \<exists>tail \<in> set guardStopTails. atoi ds \<noteq> None \<and>
      trim_space content = noOutputStopPrefix @ ds @ '' turns '' @ tail"
  then obtain ds tail where t: "tail \<in> set guardStopTails" "atoi ds \<noteq> None"
      "trim_space content = noOutputStopPrefix @ ds @ '' turns '' @ tail" by blast
  have "index_of (ds @ '' turns '' @ tail) '' turns '' = Some (length ds)"
    using index_of_append [of "CHR '' ''" ds "''turns ''" tail] atoi_no_space [OF t(2)] by simp
  with t show "IsNoProgressStop content" by (simp add: IsNoProgressStop_def Let_def)
qed

section \<open>Occurrences of an inability stem\<close>

text \<open>No proper part of the stem is both its beginning and its end, so occurrences never overlap.\<close>

definition borderless :: "string \<Rightarrow> bool" where
  "borderless stem \<longleftrightarrow> stem \<noteq> [] \<and> list_all (\<lambda>k. \<not> has_prefix stem (drop k stem)) [1..<length stem]"

lemma stems_borderless: "list_all borderless inabilityStems"
  by code_simp

lemma has_prefix_overlap: "has_prefix (a @ b) p \<Longrightarrow> length a \<le> length p \<Longrightarrow> has_prefix b (drop (length a) p)"
  by (metis append_eq_append_conv_if append_eq_conv_conj drop_append has_prefix_iff has_prefix_take
      length_drop take_drop take_append)

lemma has_prefix_short: "has_prefix (s @ b) p \<Longrightarrow> length p \<le> length s \<Longrightarrow> has_prefix s p"
  by (simp add: has_prefix_take)

lemma index_of_first: "index_of (a @ sub @ b) sub = Some i \<Longrightarrow> i \<le> length a"
proof (induction a arbitrary: i)
  case Nil
  have "has_prefix (sub @ b) sub" by simp
  then show ?case using Nil by (cases "sub @ b") (auto split: if_splits simp del: has_prefix_append)
next
  case (Cons c a)
  then show ?case by (auto split: if_splits)
qed

definition genuine_at :: "string \<Rightarrow> string \<Rightarrow> bool" where
  "genuine_at stem sentence \<longleftrightarrow> (\<exists>a b. sentence = a @ stem @ b \<and>
     \<not> has_any_prefix (trim_space b) successNegationTails)"

lemma inability_at_iff: "borderless stem \<Longrightarrow> inability_at stem rest \<longleftrightarrow> genuine_at stem rest"
proof (induction stem rest rule: inability_at.induct)
  case (1 stem rest)
  then have ne: "stem \<noteq> []" by (simp add: borderless_def)
  show ?case
  proof (cases "index_of rest stem")
    case None
    then have "\<not> contains rest stem" by (simp add: index_of_None)
    with None ne show ?thesis
      by (auto simp: inability_at.simps [of stem rest] genuine_at_def contains_iff)
  next
    case (Some i)
    define d where "d = drop (i + length stem) rest"
    have split: "rest = take i rest @ stem @ d" unfolding d_def using Some by (rule index_of_drop)
    have IH: "inability_at stem d \<longleftrightarrow> genuine_at stem d"
      unfolding d_def using 1 ne Some by blast
    have later: "genuine_at stem d \<Longrightarrow> genuine_at stem rest"
      unfolding genuine_at_def using split by (metis append.assoc)
    have first: "genuine_at stem rest \<Longrightarrow>
        \<not> has_any_prefix (trim_space d) successNegationTails \<or> genuine_at stem d"
    proof -
      assume "genuine_at stem rest"
      then obtain a b where ab: "rest = a @ stem @ b" "\<not> has_any_prefix (trim_space b) successNegationTails"
        by (auto simp: genuine_at_def)
      have ia: "i \<le> length a" using Some index_of_first [of a stem b i] ab(1) by simp
      consider "length a = i" | "i + length stem \<le> length a" | "i < length a" "length a < i + length stem"
        using ia by linarith
      then show ?thesis
      proof cases
        case 1
        with ab show ?thesis by (simp add: d_def)
      next
        case 2
        then have "d = drop (i + length stem) a @ stem @ b" by (simp add: d_def ab(1))
        with ab(2) show ?thesis by (auto simp: genuine_at_def)
      next
        case 3
        have "has_prefix (drop i a @ stem @ b) stem"
          using Some index_of_Some [of rest stem i] ab(1) ia by simp
        with 3 have "has_prefix (stem @ b) (drop (length a - i) stem)"
          using has_prefix_overlap [of "drop i a" "stem @ b" stem] by simp
        then have "has_prefix stem (drop (length a - i) stem)" using has_prefix_short by fastforce
        moreover have "length a - i \<in> set [1..<length stem]" using 3 by auto
        ultimately show ?thesis using 1(2) by (auto simp: borderless_def list_all_iff)
      qed
    qed
    have "inability_at stem rest \<longleftrightarrow>
        \<not> has_any_prefix (trim_space d) successNegationTails \<or> inability_at stem d"
      using ne Some by (simp add: inability_at.simps [of stem rest] d_def)
    moreover have "\<not> has_any_prefix (trim_space d) successNegationTails \<Longrightarrow> genuine_at stem rest"
      unfolding genuine_at_def using split by blast
    ultimately show ?thesis using IH later first by blast
  qed
qed

lemma sentence_admits_iff:
  "sentence_admits sentence \<noteq> None \<longleftrightarrow> \<not> contains_any sentence narrativeMarkers \<and>
     (contains_any sentence selfReportPhrases \<or> (\<exists>stem \<in> set inabilityStems. genuine_at stem sentence))"
proof -
  have b: "stem \<in> set inabilityStems \<Longrightarrow> inability_at stem sentence = genuine_at stem sentence" for stem
    using stems_borderless by (simp add: list_all_iff inability_at_iff)
  have p: "find (contains sentence) selfReportPhrases = None \<longleftrightarrow> \<not> contains_any sentence selfReportPhrases"
    by (auto simp: contains_any_def find_None_iff)
  have i: "find (\<lambda>stem. inability_at stem sentence) inabilityStems = None \<longleftrightarrow>
      (\<forall>stem \<in> set inabilityStems. \<not> genuine_at stem sentence)"
    by (auto simp: find_None_iff b)
  show ?thesis
    unfolding sentence_admits_def using p i by (auto split: option.splits)
qed

lemma first_admission_iff: "first_admission ss \<noteq> [] \<longleftrightarrow> (\<exists>s \<in> set ss. sentence_admits s \<noteq> None)"
proof (induction ss)
  case (Cons s ss)
  have "sentence_admits s = Some r \<Longrightarrow> r \<noteq> []" for r
    by (auto simp: sentence_admits_def selfReportReason_def split: if_splits option.splits)
  with Cons show ?case by (auto split: option.splits)
qed simp

lemma strip_from_plain:
  "\<forall>c \<in> set a. c \<noteq> quote2 \<and> c \<noteq> backtick \<and> c \<noteq> CHR 0xE2 \<Longrightarrow>
   strip_from None span (a @ s) = a @ strip_from None span s"
  by (induction a) auto

lemma strip_from_span:
  "\<forall>c \<in> set b. c \<noteq> quote2 \<Longrightarrow> strip_from (Some Straight) span (b @ [quote2] @ s) = strip_from None [] s"
  by (induction b arbitrary: span) auto

lemma strip_from_dangling:
  "\<forall>c \<in> set b. c \<noteq> quote2 \<Longrightarrow> strip_from (Some Straight) span b = span @ b"
  by (induction b arbitrary: span) auto

lemma stripQuoted_pair:
  assumes "\<forall>c \<in> set a. c \<noteq> quote2 \<and> c \<noteq> backtick \<and> c \<noteq> CHR 0xE2" "\<forall>c \<in> set b. c \<noteq> quote2"
  shows "stripQuoted (a @ [quote2] @ b @ [quote2] @ s) = a @ stripQuoted s"
    "stripQuoted (a @ [quote2] @ b) = a @ [quote2] @ b"
  using assms strip_from_span [of b "[quote2]" s] strip_from_dangling [of b "[quote2]"]
  by (simp_all add: stripQuoted_def strip_from_plain)

section \<open>The objective kept across compactions\<close>

lemma rune_floor_le: "rune_floor s n \<le> n"
  by (induction n) auto

lemma capTaskObjective_length: "length (capTaskObjective s) \<le> maxTaskObjectiveBytes"
proof -
  have "length (trim_space (take (rune_floor (trim_space s) 509) (trim_space s))) \<le> 509"
    using rune_floor_le [of "trim_space s" 509]
      trim_space_length [of "take (rune_floor (trim_space s) 509) (trim_space s)"] by simp
  then show ?thesis by (simp add: capTaskObjective_def Let_def maxTaskObjectiveBytes_def)
qed

end
