(* ===== verification/Context_Tail.thy ===== *)
theory Context_Tail
  imports Guardrails
begin

text \<open>
  The transcript of a run (\<open>Message\<close> of \<open>internal/kajicoderuntime/types.go\<close>), its token estimate
  (\<open>internal/agent/compaction.go\<close>) and the choice of the recent turns that a compaction keeps
  (\<open>internal/agent/compaction_tail.go\<close>).  An index \<open>i\<close> into a slice is a natural number; token
  counts and budgets are integers, as budgets may be negative.
\<close>

section \<open>Messages and their token estimate\<close>

datatype MessageRole = RoleSystem | RoleUser | RoleAssistant | RoleTool | RoleOther string

record Message =
  msg_role :: MessageRole
  msg_content :: string
  msg_calls :: "ToolCall list"
  msg_callID :: string
  msg_images :: "string list"
  msg_reasoning :: "string list"

definition imageTokenEstimate :: int where "imageTokenEstimate = 1000"

text \<open>The bytes \<open>ApproxTextTokens\<close> skips are the ASCII white space of \<open>is_space\<close>.\<close>

definition ApproxTextTokens :: "string \<Rightarrow> int" where
  "ApproxTextTokens s = int (length (filter (\<lambda>c. \<not> is_space c) s)) div 4"

definition call_tokens :: "ToolCall \<Rightarrow> int" where
  "call_tokens call = ApproxTextTokens (call_Name call) + ApproxTextTokens (call_Arguments call) + 4"

definition message_tokens :: "Message \<Rightarrow> int" where
  "message_tokens m = ApproxTextTokens (msg_content m) + sum_list (map call_tokens (msg_calls m)) +
     int (length (msg_images m)) * imageTokenEstimate + 4"

definition estimateTokens :: "Message list \<Rightarrow> int" where
  "estimateTokens ms = sum_list (map message_tokens ms)"

definition slice :: "'a list \<Rightarrow> nat \<Rightarrow> nat \<Rightarrow> 'a list" where
  "slice xs i j = drop i (take j xs)"

section \<open>Turns\<close>

definition summaryLabel :: string where
  "summaryLabel = ''[Summary of earlier conversation]''"

definition compactionContinuationText :: string where
  "compactionContinuationText =
     ''Continue if you have next steps, or stop and ask for clarification if you are unsure how to proceed.''"

definition isCompactionContinuation :: "Message \<Rightarrow> bool" where
  "isCompactionContinuation m \<longleftrightarrow> msg_role m = RoleUser \<and> has_prefix (msg_content m) compactionContinuationText"

definition isSummaryMarkerMessage :: "Message \<Rightarrow> bool" where
  "isSummaryMarkerMessage m \<longleftrightarrow> has_prefix (msg_content m) summaryLabel"

definition beginsNewTurn :: "Message \<Rightarrow> bool" where
  "beginsNewTurn m \<longleftrightarrow> \<not> isSummaryMarkerMessage m \<and> \<not> isCompactionContinuation m"

record tailTurn =
  turn_start :: nat
  turn_end :: nat

definition close_turn :: "nat \<Rightarrow> tailTurn list \<Rightarrow> tailTurn list" where
  "close_turn i turns = (if turns = [] then [] else butlast turns @ [(last turns)\<lparr>turn_end := i\<rparr>])"

text \<open>The loop of \<open>splitTurns\<close> at index \<open>i\<close>, over the messages that are left.\<close>

fun split_loop :: "nat \<Rightarrow> nat \<Rightarrow> Message list \<Rightarrow> tailTurn list \<Rightarrow> tailTurn list" where
  "split_loop n i [] turns = turns"
| "split_loop n i (m # ms) turns =
     (if msg_role m \<noteq> RoleUser then split_loop n (i + 1) ms turns
      else if \<not> beginsNewTurn m then split_loop n (i + 1) ms turns
      else split_loop n (i + 1) ms (close_turn i turns @ [\<lparr>turn_start = i, turn_end = n\<rparr>]))"

definition splitTurns :: "Message list \<Rightarrow> nat \<Rightarrow> tailTurn list" where
  "splitTurns messages startIndex =
     split_loop (length messages) startIndex (drop startIndex messages) []"

definition turnTokens :: "tailTurn \<Rightarrow> Message list \<Rightarrow> int" where
  "turnTokens turn messages = estimateTokens (slice messages (turn_start turn) (turn_end turn))"

section \<open>The tail to keep\<close>

text \<open>The loop of \<open>splitTurnToBudget\<close>: everything from \<open>keepFrom\<close> on is kept, \<open>used\<close> tokens.\<close>

fun suffix_loop :: "Message list \<Rightarrow> nat \<Rightarrow> int \<Rightarrow> int \<Rightarrow> nat \<Rightarrow> nat" where
  "suffix_loop messages start remaining used 0 = 0"
| "suffix_loop messages start remaining used (Suc i) =
     (if i < start then Suc i
      else (let msgTokens = estimateTokens (slice messages i (i + 1))
            in if used + msgTokens > remaining then Suc i
               else suffix_loop messages start remaining (used + msgTokens) i))"

definition splitTurnToBudget :: "Message list \<Rightarrow> tailTurn \<Rightarrow> int \<Rightarrow> nat option" where
  "splitTurnToBudget messages turn remaining =
     (let keepFrom = suffix_loop messages (turn_start turn) remaining 0 (turn_end turn)
      in if keepFrom = turn_end turn then None else Some keepFrom)"

text \<open>The walk of \<open>planTail\<close> over the older turns, newest first.\<close>

fun plan_loop :: "Message list \<Rightarrow> nat \<Rightarrow> int \<Rightarrow> tailTurn list \<Rightarrow> nat \<Rightarrow> int \<Rightarrow> int \<Rightarrow> nat" where
  "plan_loop messages headLimit tailTurns [] keptStart keptTurns remaining = keptStart"
| "plan_loop messages headLimit tailTurns (t # older) keptStart keptTurns remaining =
     (if tailTurns > 0 \<and> keptTurns \<ge> tailTurns then keptStart
      else if turn_start t < headLimit then keptStart
      else (let size = turnTokens t messages
            in if size \<le> remaining
               then plan_loop messages headLimit tailTurns older (turn_start t) (keptTurns + 1) (remaining - size)
               else (case splitTurnToBudget messages t remaining of
                       Some split \<Rightarrow> split
                     | None \<Rightarrow> keptStart)))"

definition planTail :: "Message list \<Rightarrow> nat \<Rightarrow> int \<Rightarrow> int \<Rightarrow> nat" where
  "planTail messages headLimit tailTurns budget =
     (if messages = [] then 0
      else (let turns = splitTurns messages headLimit
            in if turns = [] then length messages
               else (let newest = last turns;
                         mandatoryTokens = turnTokens newest messages;
                         remaining = (if budget < mandatoryTokens then mandatoryTokens else budget)
                     in plan_loop messages headLimit tailTurns (rev (butlast turns)) (turn_start newest) 1
                          (remaining - mandatoryTokens))))"

definition minTailTokenBudget :: int where "minTailTokenBudget = 2000"
definition maxTailTokenBudget :: int where "maxTailTokenBudget = 15000"

text \<open>A quarter of the window, computed in \<open>float64\<close> and truncated, is exact below \<open>2 ^ 53\<close>.\<close>

definition tailTokenBudget :: "int \<Rightarrow> int" where
  "tailTokenBudget contextWindow =
     (if contextWindow \<le> 0 then 0
      else (let budget = contextWindow div 4;
                budget = (if budget < minTailTokenBudget then minTailTokenBudget else budget)
            in if budget > maxTailTokenBudget then maxTailTokenBudget else budget))"

section \<open>Token counts add up\<close>

lemma ApproxTextTokens_nonneg [simp]: "0 \<le> ApproxTextTokens s"
  by (simp add: ApproxTextTokens_def)

lemma message_tokens_pos: "4 \<le> message_tokens m"
proof -
  have "0 \<le> sum_list (map call_tokens cs)" for cs
    by (induction cs) (simp_all add: call_tokens_def add_nonneg_nonneg)
  then show ?thesis by (simp add: message_tokens_def imageTokenEstimate_def)
qed

lemma estimateTokens_simps [simp]:
  "estimateTokens [] = 0" "estimateTokens (m # ms) = message_tokens m + estimateTokens ms"
  "estimateTokens (xs @ ys) = estimateTokens xs + estimateTokens ys"
  by (simp_all add: estimateTokens_def)

lemma estimateTokens_nonneg [simp]: "0 \<le> estimateTokens ms"
proof (induction ms)
  case (Cons m ms)
  then show ?case using message_tokens_pos [of m] by simp
qed simp

lemma drop_slice: "i \<le> j \<Longrightarrow> drop i xs = slice xs i j @ drop j xs"
proof -
  assume "i \<le> j"
  have "drop i xs = drop i (take j xs @ drop j xs)" by simp
  also have "\<dots> = slice xs i j @ drop j xs"
  proof (cases "j \<le> length xs")
    case True
    with \<open>i \<le> j\<close> show ?thesis by (simp add: slice_def drop_append del: append_take_drop_id)
  next
    case False
    then show ?thesis by (simp add: slice_def)
  qed
  finally show ?thesis .
qed

abbreviation tokens_from :: "Message list \<Rightarrow> nat \<Rightarrow> int" where
  "tokens_from ms i \<equiv> estimateTokens (drop i ms)"

lemma tokens_from_slice: "i \<le> j \<Longrightarrow> tokens_from ms i = estimateTokens (slice ms i j) + tokens_from ms j"
  using drop_slice [of i j ms] by simp

lemma tokens_from_mono: "i \<le> j \<Longrightarrow> tokens_from ms j \<le> tokens_from ms i"
  using tokens_from_slice [of i j ms] by simp

section \<open>Turns are the stretches between user messages\<close>

definition starts_turn :: "Message \<Rightarrow> bool" where
  "starts_turn m \<longleftrightarrow> msg_role m = RoleUser \<and> beginsNewTurn m"

fun turn_starts :: "nat \<Rightarrow> Message list \<Rightarrow> nat list" where
  "turn_starts i [] = []"
| "turn_starts i (m # ms) = (if starts_turn m then i # turn_starts (i + 1) ms else turn_starts (i + 1) ms)"

fun between :: "nat \<Rightarrow> nat list \<Rightarrow> tailTurn list" where
  "between n [] = []"
| "between n [s] = [\<lparr>turn_start = s, turn_end = n\<rparr>]"
| "between n (s # t # ss) = \<lparr>turn_start = s, turn_end = t\<rparr> # between n (t # ss)"

lemma between_snoc: "between n (ss @ [i]) = close_turn i (between n ss) @ [\<lparr>turn_start = i, turn_end = n\<rparr>]"
proof (induction n ss rule: between.induct)
  case (3 n s t ss)
  have "between n (t # ss) \<noteq> []" by (cases ss) simp_all
  with 3 show ?case by (simp add: close_turn_def)
qed (simp_all add: close_turn_def)

lemma split_loop_between: "split_loop n i ms (between n ss) = between n (ss @ turn_starts i ms)"
proof (induction ms arbitrary: i ss)
  case (Cons m ms)
  show ?case
    using Cons.IH [of "i + 1" ss] Cons.IH [of "i + 1" "ss @ [i]"]
    by (auto simp: starts_turn_def between_snoc)
qed simp

lemma splitTurns_between: "splitTurns ms h = between (length ms) (turn_starts h (drop h ms))"
  using split_loop_between [of "length ms" h "drop h ms" "[]"] by (simp add: splitTurns_def)

lemma turn_starts_bounds: "x \<in> set (turn_starts i ms) \<Longrightarrow> i \<le> x \<and> x < i + length ms"
proof (induction ms arbitrary: i)
  case (Cons m ms)
  then show ?case using Cons.IH [of "i + 1"] by (auto split: if_splits dest: Suc_leD)
qed simp

lemma turn_starts_sorted: "sorted_wrt (<) (turn_starts i ms)"
proof (induction ms arbitrary: i)
  case (Cons m ms)
  then show ?case using turn_starts_bounds [of _ "i + 1" ms] by fastforce
qed simp

lemma turn_starts_iff:
  "x \<in> set (turn_starts i ms) \<longleftrightarrow> i \<le> x \<and> x < i + length ms \<and> starts_turn (ms ! (x - i))"
proof (induction ms arbitrary: i)
  case (Cons m ms)
  show ?case
  proof (cases "x = i")
    case True
    then show ?thesis using Cons.IH [of "i + 1"] by auto
  next
    case False
    then have "i + 1 \<le> x \<Longrightarrow> (m # ms) ! (x - i) = ms ! (x - (i + 1))" by (metis Suc_diff_Suc Suc_eq_plus1 Suc_le_eq nth_Cons_Suc)
    with False show ?thesis using Cons.IH [of "i + 1"] by auto
  qed
qed simp

lemma between_Nil_iff: "between n ss = [] \<longleftrightarrow> ss = []"
  by (induction n ss rule: between.induct) auto

lemma between_last: "ss \<noteq> [] \<Longrightarrow> last (between n ss) = \<lparr>turn_start = last ss, turn_end = n\<rparr>"
  by (induction n ss rule: between.induct) (auto simp: between_Nil_iff)

section \<open>What the tail holds\<close>

text \<open>The suffix loop stops at the least index at or after \<open>start\<close> whose messages up to \<open>stop\<close> fit.\<close>

lemma suffix_loop_fits:
  assumes "i \<le> length ms" "start \<le> i" "0 \<le> remaining - used"
  shows "start \<le> suffix_loop ms start remaining used i \<and> suffix_loop ms start remaining used i \<le> i \<and>
    (\<forall>k. start \<le> k \<and> k \<le> i \<longrightarrow>
      (suffix_loop ms start remaining used i \<le> k \<longleftrightarrow> estimateTokens (slice ms k i) \<le> remaining - used))"
  using assms
proof (induction i arbitrary: used)
  case 0
  then show ?case by (simp add: slice_def)
next
  case (Suc i)
  have all: "slice ms k (Suc i) = slice ms k i @ [ms ! i]" if "k \<le> i" for k
    using Suc.prems(1) that by (simp add: slice_def take_Suc_conv_app_nth)
  have one: "slice ms i (i + 1) = [ms ! i]" using all [of i] by (simp add: slice_def)
  have none: "slice ms (Suc i) (Suc i) = []" by (simp add: slice_def)
  define r where "r = suffix_loop ms start remaining used (Suc i)"
  show ?case
  proof (cases "start \<le> i \<and> used + message_tokens (ms ! i) \<le> remaining")
    case True
    let ?u = "used + message_tokens (ms ! i)"
    have r: "r = suffix_loop ms start remaining ?u i" using True one by (simp add: r_def Let_def)
    have ih: "start \<le> r \<and> r \<le> i \<and> (\<forall>k. start \<le> k \<and> k \<le> i \<longrightarrow>
        (r \<le> k \<longleftrightarrow> estimateTokens (slice ms k i) \<le> remaining - ?u))"
      unfolding r using Suc.IH [of ?u] Suc.prems True by simp
    have "r \<le> k \<longleftrightarrow> estimateTokens (slice ms k (Suc i)) \<le> remaining - used" if "start \<le> k" "k \<le> Suc i" for k
    proof (cases "k = Suc i")
      case True
      then show ?thesis using none ih Suc.prems(3) by simp
    next
      case False
      then show ?thesis using that ih all [of k] by (auto simp: algebra_simps)
    qed
    moreover have "start \<le> r" "r \<le> Suc i" using ih by simp_all
    ultimately show ?thesis unfolding r_def [symmetric] by blast
  next
    case False
    then have r: "r = Suc i" using one by (auto simp: r_def Let_def)
    have "r \<le> k \<longleftrightarrow> estimateTokens (slice ms k (Suc i)) \<le> remaining - used" if k: "start \<le> k" "k \<le> Suc i" for k
    proof (cases "k = Suc i")
      case True
      then show ?thesis using none Suc.prems(3) r by simp
    next
      case less: False
      then have "start \<le> i" using k by simp
      then have "remaining < used + message_tokens (ms ! i)" using False by simp
      moreover have "estimateTokens (slice ms k (Suc i)) = estimateTokens (slice ms k i) + message_tokens (ms ! i)"
        using less k all [of k] by simp
      ultimately have "remaining - used < estimateTokens (slice ms k (Suc i))"
        using estimateTokens_nonneg [of "slice ms k i"] by linarith
      then show ?thesis using less k r by simp
    qed
    moreover have "start \<le> r" "r \<le> Suc i" using Suc.prems(2) r by simp_all
    ultimately show ?thesis unfolding r_def [symmetric] by blast
  qed
qed

lemma between_snoc_start: "between e (ss @ [s]) = between s ss @ [\<lparr>turn_start = s, turn_end = e\<rparr>]"
  by (induction e ss rule: between.induct) simp_all

lemma slice_split: "k \<le> s \<Longrightarrow> s \<le> e \<Longrightarrow> slice xs k e = slice xs k s @ slice xs s e"
  using drop_slice [of k s "take e xs"] by (simp add: slice_def min_absorb1)

text \<open>The walk over older turns that fill the messages before \<open>e\<close>, with \<open>R\<close> tokens to spend.\<close>

lemma plan_loop_fits:
  assumes "sorted_wrt (<) (ss @ [e])" "\<forall>s \<in> set ss. h \<le> s" "e \<le> length ms" "0 \<le> R"
  shows "hd (ss @ [e]) \<le> plan_loop ms h tt (rev (between e ss)) e kt R \<and>
    plan_loop ms h tt (rev (between e ss)) e kt R \<le> e \<and>
    estimateTokens (slice ms (plan_loop ms h tt (rev (between e ss)) e kt R) e) \<le> R \<and>
    (tt \<le> 0 \<longrightarrow> (\<forall>k. hd (ss @ [e]) \<le> k \<and> k \<le> e \<longrightarrow>
       (plan_loop ms h tt (rev (between e ss)) e kt R \<le> k \<longleftrightarrow> estimateTokens (slice ms k e) \<le> R)))"
  using assms
proof (induction ss arbitrary: e kt R rule: rev_induct)
  case Nil
  then show ?case by (auto simp: slice_def)
next
  case (snoc s ss)
  define t where "t = \<lparr>turn_start = s, turn_end = e\<rparr>"
  define b where "b = plan_loop ms h tt (rev (between e (ss @ [s]))) e kt R"
  have s: "s < e" "h \<le> s" using snoc.prems by (simp_all add: sorted_wrt_append)
  have lo: "hd ((ss @ [s]) @ [e]) = hd (ss @ [s])" "hd (ss @ [s]) \<le> s"
    using snoc.prems(1) by (cases ss; auto simp: sorted_wrt_append)+
  have b: "b = plan_loop ms h tt (t # rev (between s ss)) e kt R"
    by (simp add: b_def t_def between_snoc_start)
  have none: "slice ms e e = []" by (simp add: slice_def)
  show ?case
  proof (cases "tt > 0 \<and> kt \<ge> tt")
    case True
    then have "b = e" using b by simp
    then show ?thesis using True lo s none snoc.prems(4) unfolding b_def [symmetric] by auto
  next
    case go: False
    define size where "size = estimateTokens (slice ms s e)"
    show ?thesis
    proof (cases "size \<le> R")
      case True
      have r: "b = plan_loop ms h tt (rev (between s ss)) s (kt + 1) (R - size)"
        using b go s True by (simp add: t_def turnTokens_def size_def Let_def)
      have pre: "sorted_wrt (<) (ss @ [s])" "\<forall>s \<in> set ss. h \<le> s" "s \<le> length ms" "0 \<le> R - size"
        using snoc.prems s True by (simp_all add: sorted_wrt_append)
      note ih = snoc.IH [OF pre, of "kt + 1", folded r]
      have sum: "estimateTokens (slice ms k e) = estimateTokens (slice ms k s) + size" if "k \<le> s" for k
        using slice_split [OF that, of e ms] s by (simp add: size_def)
      have "b \<le> k \<longleftrightarrow> estimateTokens (slice ms k e) \<le> R" if k: "tt \<le> 0" "hd (ss @ [s]) \<le> k" "k \<le> e" for k
      proof (cases "k \<le> s")
        case ks: True
        then show ?thesis using ih k sum [of k] by auto
      next
        case False
        then have "slice ms s e = slice ms s k @ slice ms k e" using k by (intro slice_split) simp_all
        then have "estimateTokens (slice ms k e) \<le> size" by (simp add: size_def)
        then show ?thesis using False True ih by auto
      qed
      then show ?thesis using ih s sum [of b] unfolding b_def [symmetric] lo(1) by (auto intro: order_trans)
    next
      case False
      define r where "r = suffix_loop ms s R 0 e"
      have fit: "s \<le> r \<and> r \<le> e \<and> (\<forall>k. s \<le> k \<and> k \<le> e \<longrightarrow> (r \<le> k \<longleftrightarrow> estimateTokens (slice ms k e) \<le> R))"
        using suffix_loop_fits [of e ms s R 0] snoc.prems(3,4) s unfolding r_def by simp
      have r: "b = r"
        using b go s False fit by (auto simp: t_def turnTokens_def size_def [symmetric] splitTurnToBudget_def Let_def r_def)
      have "b \<le> k \<longleftrightarrow> estimateTokens (slice ms k e) \<le> R" if k: "hd (ss @ [s]) \<le> k" "k \<le> e" for k
      proof (cases "s \<le> k")
        case True
        then show ?thesis using fit k r by simp
      next
        case ks: False
        then have "estimateTokens (slice ms k e) = estimateTokens (slice ms k s) + size"
          using slice_split [of k s e ms] s by (simp add: size_def)
        then have "size \<le> estimateTokens (slice ms k e)" by simp
        then have "R < estimateTokens (slice ms k e)" using False by linarith
        then show ?thesis using ks fit r by auto
      qed
      then show ?thesis using fit r lo unfolding b_def [symmetric] lo(1) by (auto intro: order_trans)
    qed
  qed
qed

section \<open>The tail is the longest that fits\<close>

definition user_starts :: "Message list \<Rightarrow> nat \<Rightarrow> nat list" where
  "user_starts ms h = turn_starts h (drop h ms)"

lemma user_starts_iff: "x \<in> set (user_starts ms h) \<longleftrightarrow> h \<le> x \<and> x < length ms \<and> starts_turn (ms ! x)"
  by (auto simp: user_starts_def turn_starts_iff)

lemma planTail_fits:
  assumes "user_starts ms h \<noteq> []"
  shows "hd (user_starts ms h) \<le> planTail ms h tt budget \<and> planTail ms h tt budget \<le> last (user_starts ms h) \<and>
    tokens_from ms (planTail ms h tt budget) \<le> max budget (tokens_from ms (last (user_starts ms h))) \<and>
    (tt \<le> 0 \<longrightarrow> (\<forall>k. hd (user_starts ms h) \<le> k \<and> k \<le> last (user_starts ms h) \<longrightarrow>
       (planTail ms h tt budget \<le> k \<longleftrightarrow>
        tokens_from ms k \<le> max budget (tokens_from ms (last (user_starts ms h))))))"
proof -
  let ?ss = "user_starts ms h"
  let ?e = "last ?ss"
  let ?m = "tokens_from ms ?e"
  define R where "R = max budget ?m - ?m"
  have ne: "ms \<noteq> []" using assms by (auto simp: user_starts_def)
  have e: "?e \<in> set ?ss" using assms by simp
  then have el: "?e < length ms" by (simp add: user_starts_iff)
  have ss: "butlast ?ss @ [?e] = ?ss" using assms by simp
  have turns: "splitTurns ms h = between ?e (butlast ?ss) @ [\<lparr>turn_start = ?e, turn_end = length ms\<rparr>]"
    using between_snoc_start [of "length ms" "butlast ?ss" ?e] ss
    by (simp add: splitTurns_between user_starts_def)
  have p: "planTail ms h tt budget = plan_loop ms h tt (rev (between ?e (butlast ?ss))) ?e 1 R"
    using ne by (simp add: planTail_def turns Let_def turnTokens_def slice_def R_def max_def)
  have pre: "sorted_wrt (<) (butlast ?ss @ [?e])" "\<forall>s \<in> set (butlast ?ss). h \<le> s" "?e \<le> length ms" "0 \<le> R"
    using turn_starts_sorted [of h "drop h ms"] el
    by (simp_all add: ss) (auto simp: user_starts_def user_starts_iff R_def dest!: in_set_butlastD turn_starts_bounds)
  note fit = plan_loop_fits [OF pre, of tt 1, folded p, unfolded ss]
  have sum: "tokens_from ms k \<le> max budget ?m \<longleftrightarrow> estimateTokens (slice ms k ?e) \<le> R" if "k \<le> ?e" for k
    unfolding tokens_from_slice [OF that, of ms] R_def by linarith
  show ?thesis using fit sum by simp
qed

lemma planTail_no_turns: "user_starts ms h = [] \<Longrightarrow> planTail ms h tt budget = length ms"
  by (simp add: planTail_def splitTurns_between user_starts_def)

lemma tailTokenBudget_bounds: "0 < w \<Longrightarrow> minTailTokenBudget \<le> tailTokenBudget w \<and> tailTokenBudget w \<le> maxTailTokenBudget"
  by (simp add: tailTokenBudget_def minTailTokenBudget_def maxTailTokenBudget_def Let_def)

end
