(* ===== verification/Compaction.thy ===== *)
theory Compaction
  imports Context_Tail
begin

text \<open>
  \<open>CompactMessages\<close> of \<open>internal/agent/compaction.go\<close> and the checks of a summary
  (\<open>internal/sessions/summary_validation.go\<close>).  The summarizer is a call to a model, so it is a
  parameter; so is what the blocks of artifacts and preserved state add to the text of the summary.
\<close>

section \<open>Usable summaries\<close>

definition MaxCompactionSummaryBytes :: nat where "MaxCompactionSummaryBytes = 32000"
definition MaxCompactionSummaryRepeatRun :: nat where "MaxCompactionSummaryRepeatRun = 20"
definition compactionSummaryHeadingOffset :: nat where "compactionSummaryHeadingOffset = 200"

fun line_runs :: "string list \<Rightarrow> string \<Rightarrow> nat \<Rightarrow> nat \<Rightarrow> nat" where
  "line_runs [] previous longest current = longest"
| "line_runs (line # lines) previous longest current =
     (let line = trim_space line
      in if line = [] then line_runs lines previous longest current
         else (let current = (if line = previous then current + 1 else 1)
               in line_runs lines line (if current > longest then current else longest) current))"

definition LongestIdenticalLineRun :: "string \<Rightarrow> nat" where
  "LongestIdenticalLineRun txt = line_runs (split_on newline txt) [] 0 0"

definition ValidCompactionSummaryShape :: "string \<Rightarrow> bool" where
  "ValidCompactionSummaryShape summary =
     (let trimmed = trim_space summary
      in if trimmed = [] then False
         else if length trimmed > MaxCompactionSummaryBytes then False
         else LongestIdenticalLineRun summary < MaxCompactionSummaryRepeatRun)"

definition validCompactionSummary :: "string \<Rightarrow> bool" where
  "validCompactionSummary summary =
     (if \<not> ValidCompactionSummaryShape summary then False
      else (case index_of (trim_space summary) ''## Objective'' of
              None \<Rightarrow> False
            | Some heading \<Rightarrow>
                if heading > compactionSummaryHeadingOffset then False
                else contains summary ''## Next Move''))"

section \<open>Compaction\<close>

definition defaultCompactionPreserveLast :: int where "defaultCompactionPreserveLast = 12"

datatype compact_error = No_Summarizer | Summarizer_Error string | Unusable_Summary

text \<open>\<open>Attach\<close> stands for \<open>formatArtifacts\<close> and \<open>appendPreservedState\<close>: the bounds of the middle, the
  middle and the labelled summary give the text to inject.\<close>

record CompactionOptions =
  PreserveLast :: int
  TailTurns :: int
  TailTokenBudget :: int
  ContextWindow :: int
  Summarize :: "(Message list \<Rightarrow> string + string) option"
  Attach :: "nat \<Rightarrow> nat \<Rightarrow> Message list \<Rightarrow> string \<Rightarrow> string"

record CompactionResult =
  Messages :: "Message list"
  RemovedCount :: nat
  PreservedCount :: nat
  SummaryText :: string
  Compacted :: bool

definition user_message :: "string \<Rightarrow> Message" where
  "user_message txt = \<lparr>msg_role = RoleUser, msg_content = txt, msg_calls = [], msg_callID = [],
     msg_images = [], msg_reasoning = []\<rparr>"

definition system_end :: "Message list \<Rightarrow> nat" where
  "system_end messages = length (takeWhile (\<lambda>m. msg_role m = RoleSystem) messages)"

fun safeSuffixBoundary :: "Message list \<Rightarrow> nat \<Rightarrow> nat \<Rightarrow> nat" where
  "safeSuffixBoundary messages systemEnd 0 = 0"
| "safeSuffixBoundary messages systemEnd (Suc b) =
     (if systemEnd < Suc b \<and> msg_role (messages ! Suc b) \<noteq> RoleAssistant
      then safeSuffixBoundary messages systemEnd b else Suc b)"

definition kept_whole :: "Message list \<Rightarrow> CompactionResult" where
  "kept_whole messages = \<lparr>Messages = messages, RemovedCount = 0, PreservedCount = length messages,
     SummaryText = [], Compacted = False\<rparr>"

text \<open>The boundary before widening, \<open>None\<close> when the budget keeps everything.\<close>

definition raw_boundary :: "Message list \<Rightarrow> CompactionOptions \<Rightarrow> int option" where
  "raw_boundary messages opts =
     (if TailTurns opts \<noteq> 0
      then (let budget = (if TailTokenBudget opts \<le> 0 then tailTokenBudget (ContextWindow opts) else TailTokenBudget opts);
                boundary = planTail messages (system_end messages) (TailTurns opts) budget
            in if boundary \<ge> length messages then None else Some (int boundary))
      else Some (int (length messages) - PreserveLast opts))"

text \<open>The boundary after both corrections.\<close>

definition safe_boundary :: "Message list \<Rightarrow> int \<Rightarrow> nat" where
  "safe_boundary messages boundary =
     (let systemEnd = system_end messages;
          boundary = (if boundary < int systemEnd then systemEnd else nat boundary)
      in if boundary < length messages then safeSuffixBoundary messages systemEnd boundary else boundary)"

text \<open>The steps from the boundary on; a boundary beyond the messages is a slice out of range, the outer \<open>None\<close>.\<close>

definition compact_at ::
    "Message list \<Rightarrow> CompactionOptions \<Rightarrow> (Message list \<Rightarrow> string + string) \<Rightarrow> nat
      \<Rightarrow> (compact_error + CompactionResult) option" where
  "compact_at messages opts summarize boundary =
     (if boundary > length messages then None
      else (let systemEnd = system_end messages;
                middle = slice messages systemEnd boundary
            in if middle = [] then Some (Inr (kept_whole messages))
               else (case summarize middle of
                       Inl err \<Rightarrow> Some (Inl (Summarizer_Error err))
                     | Inr text' \<Rightarrow>
                         (let summary = trim_space text'
                          in if \<not> validCompactionSummary summary then Some (Inl Unusable_Summary)
                             else Some (Inr \<lparr>Messages = take systemEnd messages @
                                    [user_message (Attach opts systemEnd boundary middle (summaryLabel @ newline # summary))] @
                                    drop boundary messages,
                                  RemovedCount = length middle, PreservedCount = length messages - length middle,
                                  SummaryText = summary, Compacted = True\<rparr>)))))"

definition CompactMessages ::
    "Message list \<Rightarrow> CompactionOptions \<Rightarrow> (compact_error + CompactionResult) option" where
  "CompactMessages messages opts =
     (case Summarize opts of
        None \<Rightarrow> Some (Inl No_Summarizer)
      | Some summarize \<Rightarrow>
          (case raw_boundary messages opts of
             None \<Rightarrow> Some (Inr (kept_whole messages))
           | Some boundary \<Rightarrow> compact_at messages opts summarize (safe_boundary messages boundary)))"

definition Compact :: "Message list \<Rightarrow> CompactionOptions \<Rightarrow> (compact_error + Message list) option" where
  "Compact messages opts =
     (case CompactMessages messages opts of
        None \<Rightarrow> None
      | Some (Inl err) \<Rightarrow> Some (Inl err)
      | Some (Inr result) \<Rightarrow> Some (Inr (Messages result)))"

definition appendCompactionContinuation :: "Message list \<Rightarrow> Message list" where
  "appendCompactionContinuation messages =
     (if messages = [] then messages
      else if msg_role (last messages) = RoleUser then messages
      else messages @ [user_message compactionContinuationText])"

section \<open>Transcripts a provider accepts\<close>

text \<open>
  Every tool result answers a call of the assistant message before it, with only other results
  between: \<open>open\<close> holds the identifiers of the calls that may be answered.
\<close>

fun replayable :: "string list \<Rightarrow> Message list \<Rightarrow> bool" where
  "replayable opn [] \<longleftrightarrow> True"
| "replayable opn (m # ms) \<longleftrightarrow>
     (case msg_role m of
        RoleTool \<Rightarrow> msg_callID m \<in> set opn \<and> replayable opn ms
      | RoleAssistant \<Rightarrow> replayable (map call_ID (msg_calls m)) ms
      | _ \<Rightarrow> replayable [] ms)"

lemma replayable_from: "ms = [] \<or> msg_role (hd ms) \<noteq> RoleTool \<Longrightarrow> replayable a ms = replayable b ms"
  by (cases ms) (auto split: MessageRole.split)

lemma replayable_suffix: "replayable a (xs @ m # ms) \<Longrightarrow> msg_role m \<noteq> RoleTool \<Longrightarrow> replayable b (m # ms)"
proof (induction xs arbitrary: a)
  case Nil
  then show ?case using replayable_from [of "m # ms" a b] by simp
next
  case (Cons x xs)
  then show ?case by (auto split: MessageRole.splits)
qed

lemma replayable_system: "\<forall>x \<in> set xs. msg_role x = RoleSystem \<Longrightarrow> replayable [] (xs @ ms) = replayable [] ms"
  by (induction xs) simp_all

section \<open>The boundary\<close>

lemma safeSuffixBoundary_le: "safeSuffixBoundary ms s b \<le> b"
  by (induction ms s b rule: safeSuffixBoundary.induct) auto

lemma safeSuffixBoundary_ge: "s \<le> b \<Longrightarrow> s \<le> safeSuffixBoundary ms s b"
  by (induction ms s b rule: safeSuffixBoundary.induct) auto

lemma safeSuffixBoundary_assistant:
  "s < safeSuffixBoundary ms s b \<Longrightarrow> msg_role (ms ! safeSuffixBoundary ms s b) = RoleAssistant"
proof (induction ms s b rule: safeSuffixBoundary.induct)
  case (2 messages systemEnd b)
  then show ?case
    by (cases "systemEnd < Suc b \<and> msg_role (messages ! Suc b) \<noteq> RoleAssistant") auto
qed simp

text \<open>Between the safe boundary and the one asked for no assistant message is passed over.\<close>

lemma safeSuffixBoundary_nearest:
  "safeSuffixBoundary ms s b < k \<Longrightarrow> k \<le> b \<Longrightarrow> msg_role (ms ! k) \<noteq> RoleAssistant"
proof (induction ms s b rule: safeSuffixBoundary.induct)
  case (2 messages systemEnd b)
  then show ?case
    by (cases "systemEnd < Suc b \<and> msg_role (messages ! Suc b) \<noteq> RoleAssistant"; cases "k = Suc b") auto
qed simp

lemma system_end_le: "system_end ms \<le> length ms"
  by (simp add: system_end_def length_takeWhile_le)

lemma take_system: "take (system_end ms) ms = takeWhile (\<lambda>m. msg_role m = RoleSystem) ms"
  unfolding system_end_def by (rule takeWhile_eq_take [symmetric])

lemma safe_boundary_props:
  "int (safe_boundary ms boundary) \<le> max boundary (int (system_end ms))"
  "system_end ms < safe_boundary ms boundary \<Longrightarrow> safe_boundary ms boundary < length ms \<Longrightarrow>
    msg_role (ms ! safe_boundary ms boundary) = RoleAssistant"
proof -
  let ?s = "system_end ms"
  define b where "b = (if boundary < int ?s then ?s else nat boundary)"
  have sb: "safe_boundary ms boundary = (if b < length ms then safeSuffixBoundary ms ?s b else b)"
    by (simp add: safe_boundary_def b_def Let_def)
  have "safe_boundary ms boundary \<le> b" using safeSuffixBoundary_le [of ms ?s b] sb by simp
  moreover have "int b \<le> max boundary (int ?s)" by (simp add: b_def)
  ultimately show "int (safe_boundary ms boundary) \<le> max boundary (int ?s)" by simp
  show "msg_role (ms ! safe_boundary ms boundary) = RoleAssistant"
    if "?s < safe_boundary ms boundary" "safe_boundary ms boundary < length ms"
    using that safeSuffixBoundary_assistant [of ?s ms b] by (simp add: sb split: if_splits)
qed

text \<open>What a compaction returns.\<close>

definition compacted_messages :: "Message list \<Rightarrow> string \<Rightarrow> nat \<Rightarrow> Message list" where
  "compacted_messages ms txt b = take (system_end ms) ms @ [user_message txt] @ drop b ms"

lemma compact_at_result:
  assumes "compact_at ms opts summarize b = Some (Inr r)"
  shows "r = kept_whole ms \<or> Compacted r \<and> system_end ms < b \<and> b \<le> length ms \<and>
    Messages r = compacted_messages ms (Attach opts (system_end ms) b (slice ms (system_end ms) b)
      (summaryLabel @ newline # SummaryText r)) b \<and>
    RemovedCount r = b - system_end ms \<and> PreservedCount r = length ms - RemovedCount r \<and>
    validCompactionSummary (SummaryText r)"
proof (cases "slice ms (system_end ms) b = []")
  case True
  then show ?thesis using assms by (simp add: compact_at_def Let_def split: if_splits)
next
  case False
  then have le: "b \<le> length ms" using assms by (simp add: compact_at_def split: if_splits)
  have s: "system_end ms < b"
  proof (rule ccontr)
    assume "\<not> system_end ms < b"
    then show False using False by (simp add: slice_def)
  qed
  have len: "length (slice ms (system_end ms) b) = b - system_end ms" using le by (simp add: slice_def)
  obtain summary where sm: "summarize (slice ms (system_end ms) b) = Inr summary"
    using assms False le by (cases "summarize (slice ms (system_end ms) b)") (simp_all add: compact_at_def Let_def)
  have v: "validCompactionSummary (trim_space summary)"
    using assms False le sm by (simp add: compact_at_def Let_def split: if_splits)
  have "r = \<lparr>Messages = compacted_messages ms (Attach opts (system_end ms) b (slice ms (system_end ms) b)
        (summaryLabel @ newline # trim_space summary)) b,
      RemovedCount = b - system_end ms, PreservedCount = length ms - (b - system_end ms),
      SummaryText = trim_space summary, Compacted = True\<rparr>"
    using assms False le sm v by (simp add: compact_at_def Let_def compacted_messages_def len)
  then show ?thesis using s le v by simp
qed

lemma CompactMessages_result:
  assumes "CompactMessages ms opts = Some (Inr r)"
  shows "r = kept_whole ms \<or>
    (\<exists>boundary b. raw_boundary ms opts = Some boundary \<and> b = safe_boundary ms boundary \<and>
      Compacted r \<and> system_end ms < b \<and> b \<le> length ms \<and>
      Messages r = compacted_messages ms (Attach opts (system_end ms) b (slice ms (system_end ms) b)
        (summaryLabel @ newline # SummaryText r)) b \<and>
      RemovedCount r = b - system_end ms \<and> PreservedCount r = length ms - RemovedCount r \<and>
      validCompactionSummary (SummaryText r))"
proof -
  obtain summarize where s: "Summarize opts = Some summarize"
    using assms by (cases "Summarize opts") (simp_all add: CompactMessages_def)
  show ?thesis
  proof (cases "raw_boundary ms opts")
    case None
    then show ?thesis using assms s by (simp add: CompactMessages_def)
  next
    case (Some boundary)
    then have "compact_at ms opts summarize (safe_boundary ms boundary) = Some (Inr r)"
      using assms s by (simp add: CompactMessages_def)
    from compact_at_result [OF this] Some show ?thesis by blast
  qed
qed

lemma kept_whole_simps [simp]: "Messages (kept_whole ms) = ms" "\<not> Compacted (kept_whole ms)"
  by (simp_all add: kept_whole_def)

section \<open>What compaction keeps\<close>

lemma compact_replayable:
  assumes "CompactMessages ms opts = Some (Inr r)" "replayable [] ms"
  shows "replayable [] (Messages r)"
  using CompactMessages_result [OF assms(1)]
proof (elim disjE exE conjE)
  assume "r = kept_whole ms"
  then show ?thesis using assms(2) by simp
next
  fix boundary b
  assume b: "b = safe_boundary ms boundary" "system_end ms < b" "b \<le> length ms"
    and r: "Messages r = compacted_messages ms (Attach opts (system_end ms) b (slice ms (system_end ms) b)
        (summaryLabel @ newline # SummaryText r)) b"
  have rest: "replayable [] (drop b ms)"
  proof (cases "b < length ms")
    case True
    have "replayable [] (take b ms @ ms ! b # drop (Suc b) ms)" using assms(2) True by (simp add: id_take_nth_drop [symmetric])
    moreover have "msg_role (ms ! b) \<noteq> RoleTool" using safe_boundary_props(2) [of ms boundary] b True by simp
    ultimately have "replayable [] (ms ! b # drop (Suc b) ms)" by (rule replayable_suffix)
    then show ?thesis using True by (simp add: Cons_nth_drop_Suc)
  qed simp
  have sys: "\<forall>x \<in> set (take (system_end ms) ms). msg_role x = RoleSystem"
    unfolding take_system by (auto dest: set_takeWhileD)
  have "replayable [] (take (system_end ms) ms @ xs) = replayable [] xs" for xs
    by (rule replayable_system [OF sys])
  then show ?thesis unfolding r compacted_messages_def using rest by (simp add: user_message_def)
qed

text \<open>The newest user turn survives a budgeted compaction.\<close>

lemma budgeted_boundary:
  assumes "raw_boundary ms opts = Some boundary" "TailTurns opts \<noteq> 0"
  shows "user_starts ms (system_end ms) \<noteq> [] \<and> safe_boundary ms boundary \<le> last (user_starts ms (system_end ms))"
proof -
  let ?s = "system_end ms"
  obtain budget where bd: "boundary = int (planTail ms ?s (TailTurns opts) budget)" "planTail ms ?s (TailTurns opts) budget < length ms"
    using assms by (auto simp: raw_boundary_def Let_def split: if_splits)
  have ne: "user_starts ms ?s \<noteq> []" using bd(2) planTail_no_turns [of ms ?s] by fastforce
  have "planTail ms ?s (TailTurns opts) budget \<le> last (user_starts ms ?s)" using planTail_fits [OF ne] by blast
  moreover have "?s \<le> last (user_starts ms ?s)" using last_in_set [OF ne] unfolding user_starts_iff by simp
  moreover have "int (safe_boundary ms boundary) \<le> max boundary (int ?s)" by (rule safe_boundary_props(1))
  ultimately show ?thesis using bd(1) ne by simp
qed

end
