(* ===== verification/Prune.thy ===== *)
theory Prune
  imports Context_Tail
begin

text \<open>
  \<open>internal/agent/prune.go\<close>: the pass that replaces the bodies of old or duplicated tool results
  before the paid summarizer is tried.  Both loops walk the messages newest first; the map of
  replacements is a partial function on indices.
\<close>

definition pruneProtectRecentTokens :: int where "pruneProtectRecentTokens = 40000"
definition pruneMinReclaimTokens :: int where "pruneMinReclaimTokens = 20000"
definition pruneMinBodyTokens :: int where "pruneMinBodyTokens = 200"

text \<open>The em dash of the placeholders, in UTF-8.\<close>

definition em_dash :: string where
  "em_dash = [CHR 0xE2, CHR 0x80, CHR 0x94]"

definition toolLabel :: "string \<Rightarrow> string" where
  "toolLabel toolName = (if toolName = [] then ''tool'' else toolName)"

definition prunedPlaceholder :: "string \<Rightarrow> int \<Rightarrow> string" where
  "prunedPlaceholder toolName originalTokens =
     ''[pruned '' @ toolLabel toolName @ '' output (~'' @ itoa (nat originalTokens) @
     '' tokens) to reclaim context '' @ em_dash @ '' re-run the tool if you need it again]''"

definition duplicatePlaceholder :: "string \<Rightarrow> int \<Rightarrow> string" where
  "duplicatePlaceholder toolName originalTokens =
     ''[pruned duplicate '' @ toolLabel toolName @ '' output (~'' @ itoa (nat originalTokens) @
     '' tokens) '' @ em_dash @ '' identical to a later result still in context]''"

definition isPrunedPlaceholder :: "string \<Rightarrow> bool" where
  "isPrunedPlaceholder content \<longleftrightarrow> has_prefix (trim_space content) ''[pruned ''"

text \<open>The name of the tool that produced each result.\<close>

definition note_call :: "ToolCall \<Rightarrow> (string \<rightharpoonup> string) \<Rightarrow> (string \<rightharpoonup> string)" where
  "note_call call names =
     (if call_ID call \<noteq> [] \<and> call_Name call \<noteq> [] then names(call_ID call \<mapsto> call_Name call) else names)"

definition toolNamesByCallID :: "Message list \<Rightarrow> (string \<rightharpoonup> string)" where
  "toolNamesByCallID messages = fold (\<lambda>m. fold note_call (msg_calls m)) messages Map.empty"

definition name_of :: "(string \<rightharpoonup> string) \<Rightarrow> string \<Rightarrow> string" where
  "name_of names callID = (case names callID of None \<Rightarrow> [] | Some name \<Rightarrow> name)"

type_synonym replacements = "nat \<rightharpoonup> string"

text \<open>A body is recorded only when it saves tokens.\<close>

definition record_body :: "nat \<Rightarrow> Message \<Rightarrow> string \<Rightarrow> replacements \<Rightarrow> replacements" where
  "record_body index msg body reps =
     (if ApproxTextTokens body \<ge> ApproxTextTokens (msg_content msg) then reps else reps(index \<mapsto> body))"

definition result_key :: "(string \<rightharpoonup> string) \<Rightarrow> Message \<Rightarrow> string" where
  "result_key names msg = name_of names (msg_callID msg) @ [CHR 0x00] @ msg_content msg"

text \<open>Pass 1 at index \<open>i\<close>, with the older messages left in reverse order.\<close>

fun duplicate_pass :: "(string \<rightharpoonup> string) \<Rightarrow> int \<Rightarrow> Message list \<Rightarrow> string set \<Rightarrow> replacements \<Rightarrow> replacements" where
  "duplicate_pass names protectUntil [] seen reps = reps"
| "duplicate_pass names protectUntil (msg # older) seen reps =
     (if msg_role msg \<noteq> RoleTool \<or> isPrunedPlaceholder (msg_content msg)
      then duplicate_pass names protectUntil older seen reps
      else if result_key names msg \<notin> seen
      then duplicate_pass names protectUntil older (insert (result_key names msg) seen) reps
      else if int (length older) \<ge> protectUntil \<or> ApproxTextTokens (msg_content msg) < pruneMinBodyTokens
      then duplicate_pass names protectUntil older seen reps
      else duplicate_pass names protectUntil older seen
             (record_body (length older) msg
               (duplicatePlaceholder (name_of names (msg_callID msg)) (ApproxTextTokens (msg_content msg))) reps))"

text \<open>Pass 2, which skips what pass 1 replaced.\<close>

fun stale_pass :: "(string \<rightharpoonup> string) \<Rightarrow> int \<Rightarrow> Message list \<Rightarrow> int \<Rightarrow> replacements \<Rightarrow> replacements" where
  "stale_pass names protectUntil [] recent reps = reps"
| "stale_pass names protectUntil (msg # older) recent reps =
     (if msg_role msg \<noteq> RoleTool then stale_pass names protectUntil older recent reps
      else if reps (length older) \<noteq> None then stale_pass names protectUntil older recent reps
      else (let bodyTokens = ApproxTextTokens (msg_content msg)
            in if int (length older) \<ge> protectUntil
               then stale_pass names protectUntil older (recent + bodyTokens) reps
               else if recent < pruneProtectRecentTokens
               then stale_pass names protectUntil older (recent + bodyTokens) reps
               else if bodyTokens < pruneMinBodyTokens \<or> isPrunedPlaceholder (msg_content msg)
               then stale_pass names protectUntil older recent reps
               else stale_pass names protectUntil older recent
                      (record_body (length older) msg
                        (prunedPlaceholder (name_of names (msg_callID msg)) bodyTokens) reps)))"

definition put_body :: "replacements \<Rightarrow> nat \<times> Message \<Rightarrow> Message" where
  "put_body reps = (\<lambda>(i, msg). case reps i of None \<Rightarrow> msg | Some body \<Rightarrow> msg\<lparr>msg_content := body\<rparr>)"

definition saved_at :: "replacements \<Rightarrow> nat \<times> Message \<Rightarrow> int" where
  "saved_at reps = (\<lambda>(i, msg). case reps i of None \<Rightarrow> 0
     | Some body \<Rightarrow> ApproxTextTokens (msg_content msg) - ApproxTextTokens body)"

definition all_replacements :: "Message list \<Rightarrow> int \<Rightarrow> replacements" where
  "all_replacements messages preserveLast =
     (let protectUntil = int (length messages) - (if preserveLast < 0 then 0 else preserveLast);
          names = toolNamesByCallID messages
      in stale_pass names protectUntil (rev messages) 0
           (duplicate_pass names protectUntil (rev messages) {} Map.empty))"

definition pruneStaleToolOutput :: "Message list \<Rightarrow> int \<Rightarrow> Message list \<times> int" where
  "pruneStaleToolOutput messages preserveLast =
     (if messages = [] then (messages, 0)
      else (let reps = all_replacements messages preserveLast;
                indexed = zip [0..<length messages] messages;
                reclaimable = sum_list (map (saved_at reps) indexed)
            in if reclaimable < pruneMinReclaimTokens \<or> (\<forall>e \<in> set indexed. reps (fst e) = None)
               then (messages, 0)
               else (map (put_body reps) indexed, reclaimable)))"

section \<open>Invariant of the passes\<close>

text \<open>
  What justifies a replacement at \<open>i\<close>: the message is an unprotected tool result that is no
  placeholder yet, of at least the minimum size, the new body is smaller and a placeholder, and
  either the same tool result occurs later or the tool output after it fills the window.
\<close>

definition tool_tokens :: "Message list \<Rightarrow> int" where
  "tool_tokens ms = sum_list (map (\<lambda>m. if msg_role m = RoleTool then ApproxTextTokens (msg_content m) else 0) ms)"

definition same_result :: "(string \<rightharpoonup> string) \<Rightarrow> Message \<Rightarrow> Message \<Rightarrow> bool" where
  "same_result names a b \<longleftrightarrow> msg_role a = RoleTool \<and> result_key names a = result_key names b"

definition justified :: "Message list \<Rightarrow> int \<Rightarrow> (string \<rightharpoonup> string) \<Rightarrow> nat \<Rightarrow> string \<Rightarrow> bool" where
  "justified ms protectUntil names i body \<longleftrightarrow>
     i < length ms \<and> int i < protectUntil \<and> msg_role (ms ! i) = RoleTool \<and>
     \<not> isPrunedPlaceholder (msg_content (ms ! i)) \<and> pruneMinBodyTokens \<le> ApproxTextTokens (msg_content (ms ! i)) \<and>
     ApproxTextTokens body < ApproxTextTokens (msg_content (ms ! i)) \<and>
     (body = duplicatePlaceholder (name_of names (msg_callID (ms ! i))) (ApproxTextTokens (msg_content (ms ! i))) \<and>
        (\<exists>later \<in> set (drop (Suc i) ms). same_result names later (ms ! i)) \<or>
      body = prunedPlaceholder (name_of names (msg_callID (ms ! i))) (ApproxTextTokens (msg_content (ms ! i))) \<and>
        pruneProtectRecentTokens \<le> tool_tokens (drop (Suc i) ms))"

lemma record_body_justified:
  assumes "\<forall>i b. reps i = Some b \<longrightarrow> justified ms p names i b"
    and "ApproxTextTokens body < ApproxTextTokens (msg_content (ms ! k)) \<Longrightarrow> justified ms p names k body"
  shows "record_body k (ms ! k) body reps i = Some b \<Longrightarrow> justified ms p names i b"
  using assms by (auto simp: record_body_def split: if_splits)

lemma split_at: "ms = rev older @ msg # newer \<Longrightarrow>
    length older < length ms \<and> ms ! length older = msg \<and> drop (Suc (length older)) ms = newer"
  by (simp add: nth_append)

lemma duplicate_pass_justified:
  assumes "ms = rev older @ newer" "\<forall>i b. reps i = Some b \<longrightarrow> justified ms p names i b"
    and "\<forall>k \<in> seen. \<exists>m \<in> set newer. msg_role m = RoleTool \<and> result_key names m = k"
  shows "duplicate_pass names p older seen reps i = Some b \<Longrightarrow> justified ms p names i b"
  using assms
proof (induction older arbitrary: seen reps newer)
  case (Cons msg older)
  have ms: "ms = rev older @ (msg # newer)" using Cons.prems(2) by simp
  note at = split_at [OF ms]
  have seen': "\<forall>k \<in> seen. \<exists>m \<in> set (msg # newer). msg_role m = RoleTool \<and> result_key names m = k"
    using Cons.prems(4) by auto
  let ?key = "result_key names msg"
  let ?body = "duplicatePlaceholder (name_of names (msg_callID msg)) (ApproxTextTokens (msg_content msg))"
  note ih = Cons.IH [OF _ ms]
  consider (skip) "msg_role msg \<noteq> RoleTool \<or> isPrunedPlaceholder (msg_content msg)"
    | (first) "msg_role msg = RoleTool" "\<not> isPrunedPlaceholder (msg_content msg)" "?key \<notin> seen"
    | (keep) "msg_role msg = RoleTool" "\<not> isPrunedPlaceholder (msg_content msg)" "?key \<in> seen"
        "int (length older) \<ge> p \<or> ApproxTextTokens (msg_content msg) < pruneMinBodyTokens"
    | (repl) "msg_role msg = RoleTool" "\<not> isPrunedPlaceholder (msg_content msg)" "?key \<in> seen"
        "int (length older) < p" "pruneMinBodyTokens \<le> ApproxTextTokens (msg_content msg)"
    by fastforce
  then show ?case
  proof cases
    case skip
    then show ?thesis using ih [OF _ Cons.prems(3) seen'] Cons.prems(1) by simp
  next
    case first
    then have "\<forall>k \<in> insert ?key seen. \<exists>m \<in> set (msg # newer). msg_role m = RoleTool \<and> result_key names m = k"
      using seen' by auto
    then show ?thesis using ih [OF _ Cons.prems(3)] Cons.prems(1) first by simp
  next
    case keep
    then show ?thesis using ih [OF _ Cons.prems(3) seen'] Cons.prems(1) by simp
  next
    case repl
    obtain later where later: "later \<in> set newer" "same_result names later msg"
      using Cons.prems(4) repl(3) by (auto simp: same_result_def)
    have "justified ms p names (length older) ?body" if "ApproxTextTokens ?body < ApproxTextTokens (msg_content msg)"
      using that repl at later by (auto simp: justified_def)
    then have "\<forall>i b. record_body (length older) msg ?body reps i = Some b \<longrightarrow> justified ms p names i b"
      using record_body_justified [OF Cons.prems(3), of ?body "length older"] at by blast
    then show ?thesis using ih [OF _ _ seen'] Cons.prems(1) repl by simp
  qed
qed simp

lemma tool_tokens_Cons [simp]: "tool_tokens (m # ms) =
    (if msg_role m = RoleTool then ApproxTextTokens (msg_content m) else 0) + tool_tokens ms"
  by (simp add: tool_tokens_def)

lemma stale_pass_justified:
  assumes "ms = rev older @ newer" "\<forall>i b. reps i = Some b \<longrightarrow> justified ms p names i b" "recent \<le> tool_tokens newer"
  shows "stale_pass names p older recent reps i = Some b \<Longrightarrow> justified ms p names i b"
  using assms
proof (induction older arbitrary: recent reps newer)
  case (Cons msg older)
  have ms: "ms = rev older @ (msg # newer)" using Cons.prems(2) by simp
  note at = split_at [OF ms]
  let ?n = "ApproxTextTokens (msg_content msg)"
  let ?body = "prunedPlaceholder (name_of names (msg_callID msg)) ?n"
  note ih = Cons.IH [OF _ ms]
  have same: "recent \<le> tool_tokens (msg # newer)" using Cons.prems(4) ApproxTextTokens_nonneg [of "msg_content msg"]
    by (simp add: add_increasing)
  consider (skip) "msg_role msg \<noteq> RoleTool \<or> reps (length older) \<noteq> None"
    | (window) "msg_role msg = RoleTool" "reps (length older) = None"
        "int (length older) \<ge> p \<or> recent < pruneProtectRecentTokens"
    | (keep) "msg_role msg = RoleTool" "reps (length older) = None" "int (length older) < p"
        "pruneProtectRecentTokens \<le> recent" "?n < pruneMinBodyTokens \<or> isPrunedPlaceholder (msg_content msg)"
    | (repl) "msg_role msg = RoleTool" "reps (length older) = None" "int (length older) < p"
        "pruneProtectRecentTokens \<le> recent" "pruneMinBodyTokens \<le> ?n" "\<not> isPrunedPlaceholder (msg_content msg)"
    by fastforce
  then show ?case
  proof cases
    case skip
    then have "stale_pass names p (msg # older) recent reps = stale_pass names p older recent reps"
      by (cases "msg_role msg = RoleTool") simp_all
    then show ?thesis using ih [OF _ Cons.prems(3) same] Cons.prems(1) by simp
  next
    case window
    then have "recent + ?n \<le> tool_tokens (msg # newer)" using Cons.prems(4) by simp
    then show ?thesis using ih [OF _ Cons.prems(3)] Cons.prems(1) window by (auto simp: Let_def split: if_splits)
  next
    case keep
    then show ?thesis using ih [OF _ Cons.prems(3) same] Cons.prems(1) by (simp add: Let_def)
  next
    case repl
    have "justified ms p names (length older) ?body" if "ApproxTextTokens ?body < ?n"
      using that repl at Cons.prems(4) by (auto simp: justified_def)
    then have "\<forall>i b. record_body (length older) msg ?body reps i = Some b \<longrightarrow> justified ms p names i b"
      using record_body_justified [OF Cons.prems(3), of ?body "length older"] at by blast
    then show ?thesis using ih [OF _ _ same] Cons.prems(1) repl by (simp add: Let_def)
  qed
qed simp

definition protect_from :: "Message list \<Rightarrow> int \<Rightarrow> int" where
  "protect_from ms preserveLast = int (length ms) - (if preserveLast < 0 then 0 else preserveLast)"

lemma all_replacements_justified:
  assumes "all_replacements ms preserveLast i = Some b"
  shows "justified ms (protect_from ms preserveLast) (toolNamesByCallID ms) i b"
proof -
  let ?p = "protect_from ms preserveLast" and ?n = "toolNamesByCallID ms"
  have "\<forall>i b. duplicate_pass ?n ?p (rev ms) {} Map.empty i = Some b \<longrightarrow> justified ms ?p ?n i b"
    using duplicate_pass_justified [of ms "rev ms" "[]" Map.empty ?p ?n "{}"] by simp
  from stale_pass_justified [of ms "rev ms" "[]", OF _ this, of 0]
  show ?thesis using assms by (simp add: all_replacements_def Let_def protect_from_def tool_tokens_def)
qed

section \<open>What a pruning keeps\<close>

text \<open>Messages may differ in their content only.\<close>

definition same_frame :: "Message \<Rightarrow> Message \<Rightarrow> bool" where
  "same_frame a b \<longleftrightarrow> a\<lparr>msg_content := []\<rparr> = b\<lparr>msg_content := []\<rparr>"

lemma put_body_frame: "same_frame (put_body reps (i, m)) m"
  by (simp add: put_body_def same_frame_def split: option.split)

lemma prune_cases:
  obtains (none) "pruneStaleToolOutput ms n = (ms, 0)"
  | (some) "pruneStaleToolOutput ms n =
      (map (put_body (all_replacements ms n)) (zip [0..<length ms] ms),
       sum_list (map (saved_at (all_replacements ms n)) (zip [0..<length ms] ms)))"
      "pruneMinReclaimTokens \<le> sum_list (map (saved_at (all_replacements ms n)) (zip [0..<length ms] ms))"
proof (cases "ms = []")
  case True
  then show ?thesis using none by (simp add: pruneStaleToolOutput_def)
next
  case ne: False
  let ?ims = "zip [0..<length ms] ms" and ?reps = "all_replacements ms n"
  let ?small = "sum_list (map (saved_at ?reps) ?ims) < pruneMinReclaimTokens \<or> (\<forall>e \<in> set ?ims. ?reps (fst e) = None)"
  show ?thesis
  proof (cases ?small)
    case True
    then show ?thesis using none ne unfolding pruneStaleToolOutput_def Let_def if_not_P [OF ne] if_P [OF True] by simp
  next
    case False
    have "pruneMinReclaimTokens \<le> sum_list (map (saved_at ?reps) ?ims)" using False by linarith
    then show ?thesis using some
      unfolding pruneStaleToolOutput_def Let_def if_not_P [OF ne] if_not_P [OF False] by simp
  qed
qed

lemma prune_nth:
  assumes "i < length ms"
  shows "fst (pruneStaleToolOutput ms n) ! i = ms ! i \<or>
    fst (pruneStaleToolOutput ms n) ! i = put_body (all_replacements ms n) (i, ms ! i)"
  by (rule prune_cases [of ms n]) (use assms in simp_all)

lemma prune_length: "length (fst (pruneStaleToolOutput ms n)) = length ms"
  by (rule prune_cases [of ms n]) simp_all

lemma estimate_put_body:
  "estimateTokens (map (put_body reps) ims) = estimateTokens (map snd ims) - sum_list (map (saved_at reps) ims)"
proof (induction ims)
  case (Cons x ims)
  obtain i m where x: "x = (i, m)" by (cases x)
  have "message_tokens (put_body reps x) = message_tokens m - saved_at reps x"
    by (simp add: x put_body_def saved_at_def message_tokens_def split: option.split)
  then show ?case using Cons.IH by (simp add: x)
qed simp

lemma prune_tokens:
  "estimateTokens (fst (pruneStaleToolOutput ms n)) = estimateTokens ms - snd (pruneStaleToolOutput ms n)"
  by (rule prune_cases [of ms n]) (simp_all add: estimate_put_body)

lemma prune_threshold: "snd (pruneStaleToolOutput ms n) = 0 \<or> pruneMinReclaimTokens \<le> snd (pruneStaleToolOutput ms n)"
  by (rule prune_cases [of ms n]) simp_all

lemma prune_changes:
  assumes "i < length ms" "fst (pruneStaleToolOutput ms n) ! i \<noteq> ms ! i"
  shows "\<exists>body. fst (pruneStaleToolOutput ms n) ! i = (ms ! i)\<lparr>msg_content := body\<rparr> \<and>
    justified ms (protect_from ms n) (toolNamesByCallID ms) i body"
proof -
  have p: "fst (pruneStaleToolOutput ms n) ! i = put_body (all_replacements ms n) (i, ms ! i)"
    using prune_nth [OF assms(1), of n] assms(2) by blast
  then obtain body where "all_replacements ms n i = Some body"
    using assms(2) by (cases "all_replacements ms n i") (auto simp: put_body_def)
  then show ?thesis using all_replacements_justified p by (auto simp: put_body_def)
qed

end
