(* ===== verification/Repetition.thy ===== *)
theory Repetition
  imports Prelude
begin

text \<open>
  The detector of a model stuck repeating itself in its stream
  (\<open>internal/kajicoderuntime/repetition.go\<close>).  Deltas are read byte by byte; \<open>unicode.IsSpace\<close>,
  \<open>IsLetter\<close> and \<open>IsDigit\<close> act on ASCII.  The abstract specification is the list of segments the
  stream closes and the predicate \<open>repeating\<close> on it; the detector, which keeps a window of the
  last sixteen segments, implements it, however the stream is cut into deltas.
\<close>

definition repetitionWindow :: nat where "repetitionWindow = 16"
definition repetitionMaxDistinct :: nat where "repetitionMaxDistinct = 4"
definition repetitionMaxLen :: nat where "repetitionMaxLen = 60"
definition repetitionRun :: nat where "repetitionRun = 6"

lemmas repetition_bounds = repetitionWindow_def repetitionMaxDistinct_def repetitionMaxLen_def
  repetitionRun_def

record repetitionDetector =
  rep_current :: string
  sentence :: bool
  recent :: "string list"
  recentRaw :: "string list"

definition new_detector :: repetitionDetector where
  "new_detector = \<lparr>rep_current = [], sentence = False, recent = [], recentRaw = []\<rparr>"

definition letter_or_digit :: "char \<Rightarrow> bool" where
  "letter_or_digit c \<longleftrightarrow> is_upper c \<or> is_lower c \<or> is_digit c"

fun normalize_from :: "bool \<Rightarrow> string \<Rightarrow> string \<Rightarrow> string" where
  "normalize_from pendingSpace out [] = out"
| "normalize_from pendingSpace out (c # cs) =
     (if letter_or_digit c
      then normalize_from False ((if pendingSpace \<and> out \<noteq> [] then out @ '' '' else out) @ [c]) cs
      else if is_space c then normalize_from True out cs
      else normalize_from pendingSpace out cs)"

definition normalizeSegment :: "string \<Rightarrow> string" where
  "normalizeSegment text = normalize_from False [] (to_lower text)"

definition stuck :: "repetitionDetector \<Rightarrow> bool" where
  "stuck detector =
     (let rs = recent detector;
          tail = drop (length rs - repetitionRun) rs
      in (repetitionRun \<le> length rs \<and> list_all (\<lambda>s. s = hd tail) tail) \<or>
         (repetitionWindow \<le> length rs \<and>
          \<not> list_ex (\<lambda>s. repetitionMaxLen < length s) rs \<and>
          length (remdups rs) \<le> repetitionMaxDistinct))"

definition endSegment :: "repetitionDetector \<Rightarrow> bool \<times> repetitionDetector" where
  "endSegment detector =
     (let raw = trim_space (rep_current detector);
          d1 = detector\<lparr>rep_current := []\<rparr>;
          segment = normalizeSegment raw
      in if segment = [] then (False, d1)
         else
           let d2 = d1\<lparr>recent := recent d1 @ [segment], recentRaw := recentRaw d1 @ [raw]\<rparr>;
               d3 = (if repetitionWindow < length (recent d2)
                     then d2\<lparr>recent := drop 1 (recent d2), recentRaw := drop 1 (recentRaw d2)\<rparr> else d2)
           in (stuck d3, d3))"

definition ends_sentence :: "char \<Rightarrow> bool" where
  "ends_sentence c \<longleftrightarrow> c = CHR ''.'' \<or> c = CHR ''!'' \<or> c = CHR ''?''"

fun feed :: "string \<Rightarrow> repetitionDetector \<Rightarrow> bool \<times> repetitionDetector" where
  "feed [] detector = (False, detector)"
| "feed (c # cs) detector =
     (if c = newline \<or> (sentence detector \<and> is_space c)
      then let (stop, d) = endSegment (detector\<lparr>sentence := False\<rparr>)
           in if stop then (True, d) else feed cs d
      else feed cs (detector\<lparr>rep_current := rep_current detector @ [c], sentence := ends_sentence c\<rparr>))"

definition excerpt :: "repetitionDetector \<Rightarrow> string" where
  "excerpt detector = join [newline] (recentRaw detector)"

text \<open>A stream that arrives in several deltas: feeding stops at the first alarm.\<close>

fun feed_all :: "string list \<Rightarrow> repetitionDetector \<Rightarrow> bool \<times> repetitionDetector" where
  "feed_all [] detector = (False, detector)"
| "feed_all (delta # deltas) detector =
     (case feed delta detector of (stop, d) \<Rightarrow> if stop then (True, d) else feed_all deltas d)"

section \<open>The specification\<close>

text \<open>The normalized segments a stream closes, from a pending text and sentence flag.\<close>

fun segments_from :: "string \<Rightarrow> bool \<Rightarrow> string \<Rightarrow> string list" where
  "segments_from cur sent [] = []"
| "segments_from cur sent (c # cs) =
     (if c = newline \<or> (sent \<and> is_space c)
      then let segment = normalizeSegment (trim_space cur)
           in (if segment = [] then [] else [segment]) @ segments_from [] False cs
      else segments_from (cur @ [c]) (ends_sentence c) cs)"

definition last_n :: "nat \<Rightarrow> 'a list \<Rightarrow> 'a list" where
  "last_n n xs = drop (length xs - n) xs"

definition repeating :: "string list \<Rightarrow> bool" where
  "repeating segs \<longleftrightarrow>
     (repetitionRun \<le> length segs \<and> (\<exists>s. last_n repetitionRun segs = replicate repetitionRun s)) \<or>
     (repetitionWindow \<le> length segs \<and>
      (\<forall>s \<in> set (last_n repetitionWindow segs). length s \<le> repetitionMaxLen) \<and>
      card (set (last_n repetitionWindow segs)) \<le> repetitionMaxDistinct)"

section \<open>Lemmas\<close>

lemma last_n_snoc: "length (last_n n (xs @ [x])) = min n (Suc (length xs))"
  by (simp add: last_n_def)

lemma last_n_window: "(if n < length (last_n n xs @ [x]) then drop 1 (last_n n xs @ [x]) else last_n n xs @ [x])
    = last_n n (xs @ [x])"
  by (cases n) (auto simp: last_n_def Suc_diff_Suc drop_Suc drop_tl not_less tl_append split: list.splits)

lemma last_n_last_n: "m \<le> n \<Longrightarrow> last_n m (last_n n xs) = last_n m xs"
  by (cases "n \<le> length xs"; cases "m \<le> length xs") (auto simp: last_n_def)

lemma length_last_n: "length (last_n n xs) = min n (length xs)"
  by (simp add: last_n_def)

lemma all_hd_replicate:
  "xs \<noteq> [] \<Longrightarrow> list_all (\<lambda>s. s = hd xs) xs \<longleftrightarrow> (\<exists>s. xs = replicate (length xs) s)"
proof
  assume "list_all (\<lambda>s. s = hd xs) xs"
  then have "xs = replicate (length xs) (hd xs)" by (intro replicate_eqI) (auto simp: list_all_iff)
  then show "\<exists>s. xs = replicate (length xs) s" by blast
next
  assume "xs \<noteq> []" "\<exists>s. xs = replicate (length xs) s"
  then obtain s n where "xs = replicate n s" "n \<noteq> 0" by (metis length_0_conv)
  then show "list_all (\<lambda>s. s = hd xs) xs" by (cases n) (auto simp: list_all_iff)
qed

lemma stuck_repeating: "recent d = last_n repetitionWindow segs \<Longrightarrow> stuck d \<longleftrightarrow> repeating segs"
proof -
  assume r: "recent d = last_n repetitionWindow segs"
  have t: "drop (length (recent d) - repetitionRun) (recent d) = last_n repetitionRun segs"
    using last_n_last_n [of repetitionRun repetitionWindow segs] r
    by (simp add: last_n_def repetition_bounds)
  have l: "repetitionRun \<le> length (recent d) \<longleftrightarrow> repetitionRun \<le> length segs"
    "repetitionWindow \<le> length (recent d) \<longleftrightarrow> repetitionWindow \<le> length segs"
    by (simp_all add: r length_last_n repetition_bounds min_def)
  have h: "repetitionRun \<le> length segs \<Longrightarrow>
      list_all (\<lambda>s. s = hd (last_n repetitionRun segs)) (last_n repetitionRun segs) \<longleftrightarrow>
      (\<exists>s. last_n repetitionRun segs = replicate repetitionRun s)"
    using all_hd_replicate [of "last_n repetitionRun segs"] length_last_n [of repetitionRun segs]
    by (simp add: repetition_bounds) fastforce
  show ?thesis
    unfolding stuck_def Let_def t l repeating_def using h
    by (auto simp: r list_ex_iff not_less length_remdups_card_conv)
qed

text \<open>The generalised statement: the window holds the end of the segments already closed.\<close>

lemma endSegment_cases:
  assumes "recent d = last_n repetitionWindow segs"
  shows "endSegment d =
    (let segment = normalizeSegment (trim_space (rep_current d))
     in if segment = [] then (False, d\<lparr>rep_current := []\<rparr>)
        else (repeating (segs @ [segment]), snd (endSegment d)))"
    "recent (snd (endSegment d)) = last_n repetitionWindow
       (segs @ (let segment = normalizeSegment (trim_space (rep_current d))
                in if segment = [] then [] else [segment]))"
    "rep_current (snd (endSegment d)) = []" "sentence (snd (endSegment d)) = sentence d"
proof -
  let ?seg = "normalizeSegment (trim_space (rep_current d))"
  have w: "?seg \<noteq> [] \<Longrightarrow> recent (snd (endSegment d)) = last_n repetitionWindow (segs @ [?seg])"
    using last_n_window [of repetitionWindow segs ?seg] length_last_n [of repetitionWindow "segs @ [?seg]"]
    by (cases "repetitionWindow < length (last_n repetitionWindow segs @ [?seg])")
      (simp_all add: endSegment_def Let_def assms del: drop_append)
  have s: "?seg \<noteq> [] \<Longrightarrow> fst (endSegment d) = stuck (snd (endSegment d))"
    by (simp add: endSegment_def Let_def)
  show "recent (snd (endSegment d)) = last_n repetitionWindow
       (segs @ (let segment = normalizeSegment (trim_space (rep_current d))
                in if segment = [] then [] else [segment]))"
    using w assms by (cases "?seg = []") (simp_all add: endSegment_def Let_def)
  show "rep_current (snd (endSegment d)) = []" "sentence (snd (endSegment d)) = sentence d"
    by (simp_all add: endSegment_def Let_def)
  show "endSegment d =
    (let segment = normalizeSegment (trim_space (rep_current d))
     in if segment = [] then (False, d\<lparr>rep_current := []\<rparr>)
        else (repeating (segs @ [segment]), snd (endSegment d)))"
    using w s stuck_repeating [of "snd (endSegment d)" "segs @ [?seg]"]
    by (cases "?seg = []") (simp add: endSegment_def Let_def, simp add: Let_def prod_eq_iff)
qed

lemma feed_repeating:
  "recent d = last_n repetitionWindow segs \<Longrightarrow>
   fst (feed cs d) \<longleftrightarrow> (\<exists>n \<in> {1..length (segments_from (rep_current d) (sentence d) cs)}.
      repeating (segs @ take n (segments_from (rep_current d) (sentence d) cs)))"
proof (induction cs arbitrary: d segs)
  case Nil
  then show ?case by simp
next
  case (Cons c cs)
  show ?case
  proof (cases "c = newline \<or> (sentence d \<and> is_space c)")
    case False
    with Cons.IH [of "d\<lparr>rep_current := rep_current d @ [c], sentence := ends_sentence c\<rparr>" segs] Cons.prems
    show ?thesis by auto
  next
    case True
    define d' where "d' = d\<lparr>sentence := False\<rparr>"
    define seg where "seg = normalizeSegment (trim_space (rep_current d))"
    define rest where "rest = segments_from [] False cs"
    have d': "recent d' = last_n repetitionWindow segs" "rep_current d' = rep_current d" "sentence d' = False"
      using Cons.prems by (simp_all add: d'_def)
    note e = endSegment_cases [OF d'(1), unfolded d'(2,3)]
    have IH: "fst (feed cs (snd (endSegment d'))) \<longleftrightarrow>
        (\<exists>n \<in> {1..length rest}. repeating ((segs @ (if seg = [] then [] else [seg])) @ take n rest))"
      using Cons.IH [OF e(2)] e(3,4) by (simp add: seg_def rest_def Let_def)
    have f: "fst (feed (c # cs) d) \<longleftrightarrow> fst (endSegment d') \<or> fst (feed cs (snd (endSegment d')))"
      using True by (simp add: d'_def split: prod.splits)
    have s: "segments_from (rep_current d) (sentence d) (c # cs) = (if seg = [] then [] else [seg]) @ rest"
      using True by (simp add: seg_def rest_def Let_def)
    show ?thesis
    proof (cases "seg = []")
      case True
      then have "\<not> fst (endSegment d')" using e(1) by (simp add: seg_def Let_def)
      with True show ?thesis unfolding f s IH by simp
    next
      case False
      then have "fst (endSegment d') = repeating (segs @ [seg])"
        using arg_cong [OF e(1), of fst] unfolding seg_def [symmetric] Let_def by simp
      moreover have "(\<exists>n \<in> {1..Suc m}. P n) \<longleftrightarrow> P 1 \<or> (\<exists>n \<in> {1..m}. P (Suc n))" for P m
      proof -
        have "{1..Suc m} = insert 1 (Suc ` {1..m})"
          by (simp add: image_Suc_atLeastAtMost atLeastAtMost_insertL)
        show ?thesis unfolding \<open>{1..Suc m} = insert 1 (Suc ` {1..m})\<close> by blast
      qed
      ultimately show ?thesis unfolding f s IH using False by simp
    qed
  qed
qed

lemma feed_append:
  "feed (a @ b) d = (case feed a d of (stop, d') \<Rightarrow> if stop then (True, d') else feed b d')"
  by (induction a arbitrary: d) (auto split: prod.splits)

lemma feed_all_concat: "feed_all deltas d = feed (concat deltas) d"
  by (induction deltas arbitrary: d) (auto simp: feed_append split: prod.splits)

lemma feed_window: "length (recent d) \<le> repetitionWindow \<Longrightarrow> length (recent (snd (feed cs d))) \<le> repetitionWindow"
proof (induction cs arbitrary: d)
  case (Cons c cs)
  have e: "length (recent (snd (endSegment (d\<lparr>sentence := False\<rparr>)))) \<le> repetitionWindow"
    using Cons.prems by (cases "recent d") (auto simp: endSegment_def Let_def repetitionWindow_def)
  show ?case using Cons e by (simp split: prod.splits) (metis snd_conv)
qed simp

section \<open>Normalized segments\<close>

lemma filter_words_step:
  "letter_or_digit c \<Longrightarrow> \<not> is_space c"
  by (auto simp: letter_or_digit_def is_space_def is_upper_def is_lower_def is_digit_def)

abbreviation (input) visible :: "char \<Rightarrow> bool" where "visible c \<equiv> letter_or_digit c \<or> is_space c"

lemma normalize_from_words:
  "normalize_from p out cs =
    (let fs = filter visible cs; ws = str_fields fs in
     if out = [] then join '' '' ws
     else if p then out @ (if ws = [] then [] else '' '' @ join '' '' ws)
     else let more = str_fields (dropWhile (\<lambda>c. \<not> is_space c) fs) in
       out @ takeWhile (\<lambda>c. \<not> is_space c) fs @ (if more = [] then [] else '' '' @ join '' '' more))"
proof (induction cs arbitrary: p out)
  case Nil
  then show ?case by simp
next
  case (Cons c cs)
  show ?case
  proof (cases "letter_or_digit c")
    case True
    let ?fs = "filter visible cs"
    have w: "str_fields (c # ?fs) = (c # takeWhile (\<lambda>x. \<not> is_space x) ?fs) #
        str_fields (dropWhile (\<lambda>x. \<not> is_space x) ?fs)"
      using True filter_words_step by simp
    show ?thesis
      using True filter_words_step [OF True] w Cons.IH [of False "(if p \<and> out \<noteq> [] then out @ '' '' else out) @ [c]"]
      by (cases "str_fields (dropWhile (\<lambda>x. \<not> is_space x) ?fs)") (auto simp: Let_def)
  next
    case False
    then show ?thesis
      using Cons.IH [of True out] Cons.IH [of p out] by (cases "is_space c") (auto simp: Let_def)
  qed
qed

lemma normalizeSegment_words:
  "normalizeSegment text = join '' '' (str_fields (filter visible (to_lower text)))"
  by (simp add: normalizeSegment_def normalize_from_words Let_def)

end
