(* ===== verification/Stream_Collect.thy ===== *)
theory Stream_Collect
  imports Repetition Guardrails
begin

text \<open>
  From the events of a provider's stream to the turn the loop acts on
  (\<open>internal/kajicoderuntime/helpers.go\<close>, \<open>usage.go\<close>): the cl_collector of tool tc_calls whose starts,
  argument fragments and ends arrive interleaved, the token usage, and the reading loop with its two
  repetition detectors.  A Go map from keys to call records is a map, the tc_order of first mention a list.
\<close>

section \<open>Token usage\<close>

record Usage =
  InputTokens :: int
  OutputTokens :: int
  PromptTokens :: int
  CompletionTokens :: int
  CachedInputTokens :: int
  CacheWriteTokens :: int
  ReasoningTokens :: int

definition no_usage :: Usage where
  "no_usage = \<lparr>InputTokens = 0, OutputTokens = 0, PromptTokens = 0, CompletionTokens = 0,
     CachedInputTokens = 0, CacheWriteTokens = 0, ReasoningTokens = 0\<rparr>"

definition EffectiveInputTokens :: "Usage \<Rightarrow> int" where
  "EffectiveInputTokens u = (if InputTokens u \<noteq> 0 then InputTokens u else PromptTokens u)"

definition EffectiveOutputTokens :: "Usage \<Rightarrow> int" where
  "EffectiveOutputTokens u = (if OutputTokens u \<noteq> 0 then OutputTokens u else CompletionTokens u)"

definition providerAlias :: "int \<Rightarrow> int \<Rightarrow> int option" where
  "providerAlias primary alias =
     (if primary < 0 \<or> alias < 0 then None else Some (if primary \<noteq> 0 then primary else alias))"

text \<open>\<open>NormalizeUsage\<close> reads the aliases of its argument; \<open>None\<close> is its error, a negative count.\<close>

definition NormalizeUsage :: "Usage \<Rightarrow> Usage option" where
  "NormalizeUsage u =
     (case (providerAlias (InputTokens u) (PromptTokens u), providerAlias (OutputTokens u) (CompletionTokens u)) of
        (Some input, Some output) \<Rightarrow>
          if CachedInputTokens u < 0 \<or> CacheWriteTokens u < 0 \<or> ReasoningTokens u < 0 then None
          else (let cached = min (CachedInputTokens u) input
                in Some \<lparr>InputTokens = input, OutputTokens = output, PromptTokens = input, CompletionTokens = output,
                     CachedInputTokens = cached, CacheWriteTokens = min (CacheWriteTokens u) (input - cached),
                     ReasoningTokens = min (ReasoningTokens u) output\<rparr>)
      | _ \<Rightarrow> None)"

definition newer :: "int \<Rightarrow> int \<Rightarrow> int" where
  "newer old new = (if new \<noteq> 0 then new else old)"

definition mergeUsageSnapshot :: "Usage \<Rightarrow> Usage \<Rightarrow> Usage" where
  "mergeUsageSnapshot left right =
     (case NormalizeUsage
        \<lparr>InputTokens = newer (EffectiveInputTokens left) (EffectiveInputTokens right),
         OutputTokens = newer (EffectiveOutputTokens left) (EffectiveOutputTokens right),
         PromptTokens = 0, CompletionTokens = 0,
         CachedInputTokens = newer (CachedInputTokens left) (CachedInputTokens right),
         CacheWriteTokens = newer (CacheWriteTokens left) (CacheWriteTokens right),
         ReasoningTokens = newer (ReasoningTokens left) (ReasoningTokens right)\<rparr> of
        None \<Rightarrow> right
      | Some u \<Rightarrow> u)"

section \<open>The collector of tool calls\<close>

record toolCallCollector =
  tc_calls :: "string \<rightharpoonup> ToolCall"
  tc_order :: "string list"
  openEmptyID :: "string list"
  tc_synthetic :: nat
  collected_text :: string
  pendingEmptyDelta :: string

definition newToolCallCollector :: toolCallCollector where
  "newToolCallCollector = \<lparr>tc_calls = Map.empty, tc_order = [], openEmptyID = [], tc_synthetic = 0,
     collected_text = [], pendingEmptyDelta = []\<rparr>"

definition syntheticKey :: "nat \<Rightarrow> string" where
  "syntheticKey n = CHR 0x00 # ''synthetic-'' @ itoa n"

definition ensure :: "string \<Rightarrow> string \<Rightarrow> toolCallCollector \<Rightarrow> toolCallCollector" where
  "ensure key id' c =
     (case tc_calls c key of
        Some _ \<Rightarrow> c
      | None \<Rightarrow> c\<lparr>tc_calls := (tc_calls c)(key \<mapsto> \<lparr>call_ID = id', call_Name = [], call_Arguments = [], call_Signature = []\<rparr>),
                   tc_order := tc_order c @ [key]\<rparr>)"

definition on_call :: "string \<Rightarrow> (ToolCall \<Rightarrow> ToolCall) \<Rightarrow> toolCallCollector \<Rightarrow> toolCallCollector" where
  "on_call key f c = c\<lparr>tc_calls := (tc_calls c)(key := map_option f (tc_calls c key))\<rparr>"

definition open_synthetic :: "toolCallCollector \<Rightarrow> string \<times> toolCallCollector" where
  "open_synthetic c =
     (let key = syntheticKey (Suc (tc_synthetic c))
      in (key, c\<lparr>tc_synthetic := Suc (tc_synthetic c), openEmptyID := openEmptyID c @ [key]\<rparr>))"

definition start_key :: "string \<Rightarrow> toolCallCollector \<Rightarrow> string \<times> toolCallCollector" where
  "start_key id' c =
     (if id' \<noteq> [] then (id', c)
      else if pendingEmptyDelta c \<noteq> [] then (pendingEmptyDelta c, c\<lparr>pendingEmptyDelta := []\<rparr>)
      else open_synthetic c)"

definition start_fields :: "string \<Rightarrow> string \<Rightarrow> ToolCall \<Rightarrow> ToolCall" where
  "start_fields name signature call =
     (let call = (if name \<noteq> [] \<and> call_Name call = [] then call\<lparr>call_Name := name\<rparr> else call)
      in if signature \<noteq> [] \<and> call_Signature call = [] then call\<lparr>call_Signature := signature\<rparr> else call)"

definition call_start :: "string \<Rightarrow> string \<Rightarrow> string \<Rightarrow> toolCallCollector \<Rightarrow> toolCallCollector" where
  "call_start id' name signature c =
     (case start_key id' c of (key, c) \<Rightarrow> on_call key (start_fields name signature) (ensure key id' c))"

definition resolveKey :: "string \<Rightarrow> toolCallCollector \<Rightarrow> string option" where
  "resolveKey id' c =
     (if id' = [] then (if openEmptyID c = [] then None else Some (last (openEmptyID c)))
      else if tc_calls c id' \<noteq> None then Some id' else None)"

definition delta_key :: "string \<Rightarrow> toolCallCollector \<Rightarrow> string \<times> toolCallCollector" where
  "delta_key id' c =
     (case resolveKey id' c of
        Some key \<Rightarrow> (key, c)
      | None \<Rightarrow> if id' = [] then (case open_synthetic c of (key, c) \<Rightarrow> (key, ensure key id' (c\<lparr>pendingEmptyDelta := key\<rparr>)))
                else (id', ensure id' id' c))"

definition call_delta :: "string \<Rightarrow> string \<Rightarrow> toolCallCollector \<Rightarrow> toolCallCollector" where
  "call_delta id' fragment c =
     (case delta_key id' c of
        (key, c) \<Rightarrow> on_call key (\<lambda>call. call\<lparr>call_Arguments := call_Arguments call @ fragment\<rparr>) c)"

definition call_end :: "string \<Rightarrow> toolCallCollector \<Rightarrow> toolCallCollector" where
  "call_end id' c =
     (if id' \<noteq> [] \<or> openEmptyID c = [] then c
      else c\<lparr>openEmptyID := butlast (openEmptyID c),
             pendingEmptyDelta := (if last (openEmptyID c) = pendingEmptyDelta c then [] else pendingEmptyDelta c)\<rparr>)"

section \<open>Reading a stream\<close>

datatype StreamEventType =
  StreamText | StreamReasoning | StreamToolCallStart | StreamToolCallDelta | StreamToolCallEnd
| StreamToolCallDropped | StreamUsage | StreamDone | StreamError

record StreamEvent =
  se_Type :: StreamEventType
  se_Content :: string
  se_ToolCallID :: string
  se_ToolName :: string
  se_Signature :: string
  se_Fragment :: string
  se_Usage :: Usage
  se_Error :: string
  se_FinishReason :: string
  se_ReasoningBlocks :: "string list"

record collected = CollectedStream +
  TokenUsage :: Usage
  Error :: string
  DroppedToolCalls :: nat
  FinishReason :: string
  Degenerate :: bool
  DegenerateSample :: string

text \<open>What the reader's \<open>select\<close> takes next: an event, or the end of the context.  A closed channel ends the list.\<close>

datatype received = Received StreamEvent | ContextDone string

text \<open>\<open>forwarded\<close> counts the tc_calls of \<open>OnText\<close>, \<open>usageSeen\<close> whether \<open>OnUsage\<close> is called.\<close>

record collecting =
  cl_result :: collected
  cl_collector :: toolCallCollector
  textRepeats :: repetitionDetector
  reasoningRepeats :: repetitionDetector
  usageSeen :: bool
  cl_forwarded :: nat

definition no_stream :: collected where
  "no_stream = \<lparr>Text = [], ToolCalls = [], ReasoningBlocks = [], HasReasoning = False, TokenUsage = no_usage,
     Error = [], DroppedToolCalls = 0, FinishReason = [], Degenerate = False, DegenerateSample = []\<rparr>"

definition new_collecting :: collecting where
  "new_collecting = \<lparr>cl_result = no_stream, cl_collector = newToolCallCollector, textRepeats = new_detector,
     reasoningRepeats = new_detector, usageSeen = False, cl_forwarded = 0\<rparr>"

text \<open>The calls in the order of their keys; those without a name are dropped.\<close>

definition flush_calls :: "collecting \<Rightarrow> collecting" where
  "flush_calls s =
     (let found = List.map_filter (tc_calls (cl_collector s)) (tc_order (cl_collector s));
          out = cl_result s
      in s\<lparr>cl_result := out\<lparr>ToolCalls := ToolCalls out @ filter (\<lambda>call. call_Name call \<noteq> []) found,
             DroppedToolCalls := DroppedToolCalls out + length (filter (\<lambda>call. call_Name call = []) found),
             Text := collected_text (cl_collector s)\<rparr>\<rparr>)"

definition carry :: "StreamEvent \<Rightarrow> collected \<Rightarrow> collected" where
  "carry ev out =
     out\<lparr>FinishReason := (if se_FinishReason ev \<noteq> [] then se_FinishReason ev else FinishReason out),
         ReasoningBlocks := ReasoningBlocks out @ se_ReasoningBlocks ev\<rparr>"

definition cutOff :: "repetitionDetector \<Rightarrow> collecting \<Rightarrow> collecting" where
  "cutOff detector s = s\<lparr>cl_result := (cl_result s)\<lparr>Degenerate := True, DegenerateSample := excerpt detector\<rparr>\<rparr>"

text \<open>One event: whether the reading goes on, and the new state.\<close>

definition read_event :: "StreamEvent \<Rightarrow> collecting \<Rightarrow> bool \<times> collecting" where
  "read_event ev s =
     (let s = s\<lparr>cl_result := carry ev (cl_result s)\<rparr>
      in case se_Type ev of
           StreamText \<Rightarrow>
             (let c = cl_collector s;
                  s = s\<lparr>cl_collector := c\<lparr>collected_text := collected_text c @ se_Content ev\<rparr>, cl_forwarded := Suc (cl_forwarded s)\<rparr>;
                  (stuck, d) = feed (se_Content ev) (textRepeats s);
                  s = s\<lparr>textRepeats := d\<rparr>
              in if stuck then (False, cutOff d s) else (True, s))
         | StreamReasoning \<Rightarrow>
             (let s = (if trim_space (se_Content ev) \<noteq> [] then s\<lparr>cl_result := (cl_result s)\<lparr>HasReasoning := True\<rparr>\<rparr> else s);
                  (stuck, d) = feed (se_Content ev) (reasoningRepeats s);
                  s = s\<lparr>reasoningRepeats := d\<rparr>
              in if stuck then (False, cutOff d s) else (True, s))
         | StreamToolCallStart \<Rightarrow>
             (True, s\<lparr>cl_collector := call_start (se_ToolCallID ev) (se_ToolName ev) (se_Signature ev) (cl_collector s)\<rparr>)
         | StreamToolCallDelta \<Rightarrow> (True, s\<lparr>cl_collector := call_delta (se_ToolCallID ev) (se_Fragment ev) (cl_collector s)\<rparr>)
         | StreamToolCallEnd \<Rightarrow> (True, s\<lparr>cl_collector := call_end (se_ToolCallID ev) (cl_collector s)\<rparr>)
         | StreamToolCallDropped \<Rightarrow>
             (True, s\<lparr>cl_result := (cl_result s)\<lparr>DroppedToolCalls := Suc (DroppedToolCalls (cl_result s))\<rparr>\<rparr>)
         | StreamUsage \<Rightarrow>
             (True, s\<lparr>cl_result := (cl_result s)\<lparr>TokenUsage := mergeUsageSnapshot (TokenUsage (cl_result s)) (se_Usage ev)\<rparr>,
                      usageSeen := True\<rparr>)
         | StreamError \<Rightarrow> (False, s\<lparr>cl_result := (cl_result s)\<lparr>Error := se_Error ev\<rparr>\<rparr>)
         | StreamDone \<Rightarrow> (False, s))"

fun read_stream :: "received list \<Rightarrow> collecting \<Rightarrow> collecting" where
  "read_stream [] s = s"
| "read_stream (ContextDone err # rs) s = s\<lparr>cl_result := (cl_result s)\<lparr>Error := err\<rparr>\<rparr>"
| "read_stream (Received ev # rs) s = (case read_event ev s of (go, s) \<Rightarrow> if go then read_stream rs s else s)"

definition CollectStreamWithOptions :: "received list \<Rightarrow> collecting" where
  "CollectStreamWithOptions rs = flush_calls (read_stream rs new_collecting)"

definition Truncated :: "collected \<Rightarrow> bool" where
  "Truncated c \<longleftrightarrow> FinishReason c \<noteq> []"

section \<open>What a stream says\<close>

text \<open>
  The specification, on the list of events that are read.  A call is named by the identifier its
  events carry; its name and signature are the first that are not empty, its arguments the
  fragments in the order they came, whatever came between.
\<close>

definition deltas_of :: "StreamEventType \<Rightarrow> StreamEvent list \<Rightarrow> string" where
  "deltas_of ty evs = concat (map se_Content (filter (\<lambda>ev. se_Type ev = ty) evs))"

definition call_events :: "StreamEvent list \<Rightarrow> StreamEvent list" where
  "call_events evs = filter (\<lambda>ev. se_Type ev \<in> {StreamToolCallStart, StreamToolCallDelta}) evs"

definition first_seen :: "'a list \<Rightarrow> 'a list" where
  "first_seen xs = rev (remdups (rev xs))"

definition first_text :: "string list \<Rightarrow> string" where
  "first_text xs = (case find (\<lambda>x. x \<noteq> []) xs of None \<Rightarrow> [] | Some x \<Rightarrow> x)"

definition events_of :: "StreamEventType \<Rightarrow> string \<Rightarrow> StreamEvent list \<Rightarrow> StreamEvent list" where
  "events_of ty id' evs = filter (\<lambda>ev. se_Type ev = ty \<and> se_ToolCallID ev = id') evs"

definition call_of :: "StreamEvent list \<Rightarrow> string \<Rightarrow> ToolCall" where
  "call_of evs id' = \<lparr>call_ID = id',
     call_Name = first_text (map se_ToolName (events_of StreamToolCallStart id' evs)),
     call_Arguments = concat (map se_Fragment (events_of StreamToolCallDelta id' evs)),
     call_Signature = first_text (map se_Signature (events_of StreamToolCallStart id' evs))\<rparr>"

definition calls_of :: "StreamEvent list \<Rightarrow> ToolCall list" where
  "calls_of evs = map (call_of evs) (first_seen (map se_ToolCallID (call_events evs)))"

text \<open>A stream in which one of the two texts repeats itself, and one that ends with its last event.\<close>

definition degenerate :: "StreamEvent list \<Rightarrow> bool" where
  "degenerate evs \<longleftrightarrow> fst (feed (deltas_of StreamText evs) new_detector)
     \<or> fst (feed (deltas_of StreamReasoning evs) new_detector)"

definition stops :: "StreamEvent list \<Rightarrow> bool" where
  "stops evs \<longleftrightarrow> evs \<noteq> [] \<and> (se_Type (last evs) \<in> {StreamError, StreamDone} \<or> degenerate evs)"

fun read_until :: "StreamEvent list \<Rightarrow> received list \<Rightarrow> StreamEvent list" where
  "read_until evs [] = evs"
| "read_until evs (ContextDone err # rs) = evs"
| "read_until evs (Received ev # rs) = (if stops (evs @ [ev]) then evs @ [ev] else read_until (evs @ [ev]) rs)"

text \<open>The error the context leaves, when its end is what stops the reading.\<close>

fun context_error :: "StreamEvent list \<Rightarrow> received list \<Rightarrow> string option" where
  "context_error evs [] = None"
| "context_error evs (ContextDone err # rs) = Some err"
| "context_error evs (Received ev # rs) = (if stops (evs @ [ev]) then None else context_error (evs @ [ev]) rs)"

section \<open>The collector\<close>

lemma first_seen_simps [simp]: "first_seen [] = []"
  "first_seen (xs @ [x]) = (if x \<in> set xs then first_seen xs else first_seen xs @ [x])"
  by (simp_all add: first_seen_def)

lemma first_seen_set [simp]: "set (first_seen xs) = set xs" "distinct (first_seen xs)"
  by (simp_all add: first_seen_def)

lemma first_text_simps [simp]: "first_text [] = []" "first_text [x] = x"
  "first_text (xs @ [x]) = (if first_text xs = [] then x else first_text xs)"
proof -
  have "find (\<lambda>x. x \<noteq> []) xs = Some y \<Longrightarrow> y \<noteq> []" for xs :: "string list" and y by (auto simp: find_Some_iff)
  then show "first_text (xs @ [x]) = (if first_text xs = [] then x else first_text xs)"
    by (induction xs) (auto simp: first_text_def split: option.splits)
qed (simp_all add: first_text_def)

lemma first_text_Cons: "first_text (x # xs) = (if x \<noteq> [] then x else first_text xs)"
  by (simp add: first_text_def)

lemma deltas_of_simps [simp]: "deltas_of ty [] = []"
  "deltas_of ty (evs @ [ev]) = (if se_Type ev = ty then deltas_of ty evs @ se_Content ev else deltas_of ty evs)"
  by (simp_all add: deltas_of_def)

lemma events_of_simps [simp]: "events_of ty i [] = []"
  "events_of ty i (evs @ [ev]) =
     (if se_Type ev = ty \<and> se_ToolCallID ev = i then events_of ty i evs @ [ev] else events_of ty i evs)"
  by (simp_all add: events_of_def)

lemma call_events_simps [simp]: "call_events [] = []"
  "call_events (evs @ [ev]) =
     (if se_Type ev \<in> {StreamToolCallStart, StreamToolCallDelta} then call_events evs @ [ev] else call_events evs)"
  by (simp_all add: call_events_def)

text \<open>The collector after the events \<open>evs\<close>, none of which has an empty identifier.\<close>

definition collects :: "StreamEvent list \<Rightarrow> toolCallCollector \<Rightarrow> bool" where
  "collects evs c \<longleftrightarrow>
     tc_order c = first_seen (map se_ToolCallID (call_events evs)) \<and>
     (\<forall>i. tc_calls c i = (if i \<in> se_ToolCallID ` set (call_events evs) then Some (call_of evs i) else None))"

lemma not_mentioned:
  "i \<notin> se_ToolCallID ` set (call_events evs) \<Longrightarrow> events_of StreamToolCallStart i evs = [] \<and> events_of StreamToolCallDelta i evs = []"
  by (auto simp: call_events_def events_of_def filter_empty_conv)

lemma collects_start:
  assumes "collects evs c" "se_Type ev = StreamToolCallStart" "se_ToolCallID ev \<noteq> []"
  shows "collects (evs @ [ev]) (call_start (se_ToolCallID ev) (se_ToolName ev) (se_Signature ev) c)"
  using assms not_mentioned [of "se_ToolCallID ev" evs]
  by (auto simp: collects_def call_start_def start_key_def on_call_def ensure_def start_fields_def call_of_def Let_def
      split: option.splits)

lemma collects_delta:
  assumes "collects evs c" "se_Type ev = StreamToolCallDelta" "se_ToolCallID ev \<noteq> []"
  shows "collects (evs @ [ev]) (call_delta (se_ToolCallID ev) (se_Fragment ev) c)"
  using assms not_mentioned [of "se_ToolCallID ev" evs]
  by (auto simp: collects_def call_delta_def delta_key_def resolveKey_def on_call_def ensure_def call_of_def
      split: option.splits)

lemma collects_other:
  "collects evs c \<Longrightarrow> se_Type ev \<notin> {StreamToolCallStart, StreamToolCallDelta} \<Longrightarrow> collects (evs @ [ev]) c"
  by (simp add: collects_def call_of_def)

lemma collects_end: "collects evs c \<Longrightarrow> i \<noteq> [] \<Longrightarrow> call_end i c = c"
  by (simp add: call_end_def)

lemma collects_text: "collects evs c \<Longrightarrow> collects evs (c\<lparr>collected_text := txt\<rparr>)"
  by (simp add: collects_def)

section \<open>The reading loop\<close>

text \<open>The state after events none of which but the last stops the reading.\<close>

definition after_events :: "StreamEvent list \<Rightarrow> collecting" where
  "after_events evs = fold (\<lambda>ev s. snd (read_event ev s)) evs new_collecting"

lemma after_events_simps [simp]: "after_events [] = new_collecting"
  "after_events (evs @ [ev]) = snd (read_event ev (after_events evs))"
  by (simp_all add: after_events_def)

lemmas read_event_unfold = read_event_def carry_def cutOff_def Let_def

lemma collected_text_calls [simp]:
  "collected_text (call_start i n sg c) = collected_text c"
  "collected_text (call_delta i f c) = collected_text c"
  "collected_text (call_end i c) = collected_text c"
proof -
  have e: "collected_text (ensure k i c) = collected_text c" for k i c
    by (simp add: ensure_def split: option.split)
  have k: "collected_text (snd (start_key i c)) = collected_text c" "collected_text (snd (delta_key i c)) = collected_text c"
    by (simp_all add: start_key_def delta_key_def open_synthetic_def e Let_def split: option.split)
  show "collected_text (call_start i n sg c) = collected_text c"
    using k(1) by (cases "start_key i c") (simp add: call_start_def on_call_def e)
  show "collected_text (call_delta i f c) = collected_text c"
    using k(2) by (cases "delta_key i c") (simp add: call_delta_def on_call_def)
  show "collected_text (call_end i c) = collected_text c"
    by (simp add: call_end_def)
qed

lemma read_event_fields:
  "collected_text (cl_collector (snd (read_event ev s))) =
     collected_text (cl_collector s) @ (if se_Type ev = StreamText then se_Content ev else [])"
  "FinishReason (cl_result (snd (read_event ev s))) =
     (if se_FinishReason ev \<noteq> [] then se_FinishReason ev else FinishReason (cl_result s))"
  "ReasoningBlocks (cl_result (snd (read_event ev s))) = ReasoningBlocks (cl_result s) @ se_ReasoningBlocks ev"
  "HasReasoning (cl_result (snd (read_event ev s))) \<longleftrightarrow> HasReasoning (cl_result s)
     \<or> se_Type ev = StreamReasoning \<and> trim_space (se_Content ev) \<noteq> []"
  "DroppedToolCalls (cl_result (snd (read_event ev s))) =
     DroppedToolCalls (cl_result s) + (if se_Type ev = StreamToolCallDropped then 1 else 0)"
  "TokenUsage (cl_result (snd (read_event ev s))) =
     (if se_Type ev = StreamUsage then mergeUsageSnapshot (TokenUsage (cl_result s)) (se_Usage ev) else TokenUsage (cl_result s))"
  "usageSeen (snd (read_event ev s)) \<longleftrightarrow> usageSeen s \<or> se_Type ev = StreamUsage"
  "ToolCalls (cl_result (snd (read_event ev s))) = ToolCalls (cl_result s)"
  "cl_forwarded (snd (read_event ev s)) = cl_forwarded s + (if se_Type ev = StreamText then 1 else 0)"
  "Error (cl_result (snd (read_event ev s))) = (if se_Type ev = StreamError then se_Error ev else Error (cl_result s))"
  by (cases "se_Type ev"; simp add: read_event_unfold split: prod.split)+

lemma after_events_fields:
  "collected_text (cl_collector (after_events evs)) = deltas_of StreamText evs"
  "FinishReason (cl_result (after_events evs)) = first_text (rev (map se_FinishReason evs))"
  "ReasoningBlocks (cl_result (after_events evs)) = concat (map se_ReasoningBlocks evs)"
  "HasReasoning (cl_result (after_events evs)) \<longleftrightarrow>
     (\<exists>ev \<in> set evs. se_Type ev = StreamReasoning \<and> trim_space (se_Content ev) \<noteq> [])"
  "DroppedToolCalls (cl_result (after_events evs)) = length (filter (\<lambda>ev. se_Type ev = StreamToolCallDropped) evs)"
  "TokenUsage (cl_result (after_events evs)) =
     fold (\<lambda>ev u. mergeUsageSnapshot u (se_Usage ev)) (filter (\<lambda>ev. se_Type ev = StreamUsage) evs) no_usage"
  "usageSeen (after_events evs) \<longleftrightarrow> (\<exists>ev \<in> set evs. se_Type ev = StreamUsage)"
  "ToolCalls (cl_result (after_events evs)) = []"
  "cl_forwarded (after_events evs) = length (filter (\<lambda>ev. se_Type ev = StreamText) evs)"
  by (induction evs rule: rev_induct;
      simp add: read_event_fields new_collecting_def newToolCallCollector_def no_stream_def first_text_Cons; blast?)+

text \<open>The detectors follow the texts as long as neither of them has raised the alarm.\<close>

lemma after_events_detectors:
  "\<not> degenerate evs \<Longrightarrow>
     textRepeats (after_events evs) = snd (feed (deltas_of StreamText evs) new_detector) \<and>
     reasoningRepeats (after_events evs) = snd (feed (deltas_of StreamReasoning evs) new_detector)"
proof (induction evs rule: rev_induct)
  case (snoc ev evs)
  then have "\<not> degenerate evs" by (auto simp: degenerate_def feed_append split: prod.splits if_splits)
  note ih = snoc.IH [OF this]
  show ?case using snoc.prems ih
    by (cases "se_Type ev") (auto simp: degenerate_def read_event_unfold feed_append split: prod.splits if_splits)
qed (simp add: new_collecting_def)

lemma not_stops: "\<not> stops evs \<Longrightarrow> \<not> degenerate evs"
  by (cases evs) (auto simp: stops_def degenerate_def)

lemma read_event_goes_on:
  assumes "\<not> stops evs"
  shows "fst (read_event ev (after_events evs)) \<longleftrightarrow> \<not> stops (evs @ [ev])"
  using not_stops [OF assms] after_events_detectors [OF not_stops [OF assms]]
  by (cases "se_Type ev") (auto simp: stops_def degenerate_def read_event_unfold feed_append split: prod.splits)

text \<open>What the end of the context does to the state.\<close>

definition with_context :: "string option \<Rightarrow> collecting \<Rightarrow> collecting" where
  "with_context err s = (case err of None \<Rightarrow> s | Some e \<Rightarrow> s\<lparr>cl_result := (cl_result s)\<lparr>Error := e\<rparr>\<rparr>)"

lemma read_stream_until:
  "\<not> stops evs \<Longrightarrow>
     read_stream rs (after_events evs) = with_context (context_error evs rs) (after_events (read_until evs rs))"
proof (induction evs rs rule: read_until.induct)
  case (3 evs ev rs)
  show ?case
  proof (cases "stops (evs @ [ev])")
    case True
    then show ?thesis using read_event_goes_on [OF 3(2), of ev]
      by (cases "read_event ev (after_events evs)") (simp add: with_context_def)
  next
    case False
    then show ?thesis using read_event_goes_on [OF 3(2), of ev] 3(1)
      by (cases "read_event ev (after_events evs)") simp
  qed
qed (simp_all add: with_context_def)

lemma stops_Nil: "\<not> stops []"
  by (simp add: stops_def)

lemma CollectStream_until:
  "CollectStreamWithOptions rs = flush_calls (with_context (context_error [] rs) (after_events (read_until [] rs)))"
  using read_stream_until [OF stops_Nil, of rs] by (simp add: CollectStreamWithOptions_def)

lemma after_events_collects:
  "\<forall>ev \<in> set evs. se_Type ev \<in> {StreamToolCallStart, StreamToolCallDelta, StreamToolCallEnd} \<longrightarrow> se_ToolCallID ev \<noteq> [] \<Longrightarrow>
     collects evs (cl_collector (after_events evs))"
proof (induction evs rule: rev_induct)
  case Nil
  then show ?case by (simp add: collects_def new_collecting_def newToolCallCollector_def)
next
  case (snoc ev evs)
  then have ih: "collects evs (cl_collector (after_events evs))" by simp
  show ?case using snoc.prems ih
    by (cases "se_Type ev")
       (auto simp: read_event_unfold collects_end split: prod.split intro: collects_start collects_delta collects_other collects_text)
qed

lemma after_events_degenerate:
  "\<not> degenerate evs \<Longrightarrow> \<not> Degenerate (cl_result (after_events evs))"
  "\<not> degenerate evs \<Longrightarrow> Degenerate (cl_result (after_events (evs @ [ev]))) \<longleftrightarrow> degenerate (evs @ [ev])"
proof -
  have step: "Degenerate (cl_result (after_events (evs @ [ev]))) \<longleftrightarrow> degenerate (evs @ [ev])"
    if "\<not> degenerate evs" "\<not> Degenerate (cl_result (after_events evs))" for evs ev
    using that after_events_detectors [OF that(1)]
    by (cases "se_Type ev") (auto simp: degenerate_def read_event_unfold feed_append split: prod.splits)
  have none: "\<not> degenerate evs \<Longrightarrow> \<not> Degenerate (cl_result (after_events evs))" for evs
  proof (induction evs rule: rev_induct)
    case (snoc ev evs)
    then have "\<not> degenerate evs" by (auto simp: degenerate_def feed_append split: prod.splits if_splits)
    with snoc step [of evs ev] show ?case by blast
  qed (simp add: new_collecting_def no_stream_def)
  show "\<not> degenerate evs \<Longrightarrow> \<not> Degenerate (cl_result (after_events evs))" by (rule none)
  show "\<not> degenerate evs \<Longrightarrow> Degenerate (cl_result (after_events (evs @ [ev]))) \<longleftrightarrow> degenerate (evs @ [ev])"
    using step none by blast
qed

lemma read_until_stop: "\<not> stops evs \<Longrightarrow> \<not> stops (butlast (read_until evs rs)) \<or> read_until evs rs = evs"
  by (induction evs rs rule: read_until.induct) auto

lemma after_read_degenerate: "Degenerate (cl_result (after_events (read_until [] rs))) \<longleftrightarrow> degenerate (read_until [] rs)"
proof (cases "read_until [] rs" rule: rev_cases)
  case Nil
  then show ?thesis by (simp add: degenerate_def new_collecting_def no_stream_def)
next
  case (snoc evs ev)
  with read_until_stop [OF stops_Nil, of rs] have "\<not> stops evs" by auto
  then show ?thesis using after_events_degenerate(2) [OF not_stops, of evs ev] snoc by simp
qed

text \<open>The calls of a flushed state.\<close>

lemma flush_collected:
  assumes "collects evs (cl_collector s)"
  shows "ToolCalls (cl_result (flush_calls s)) = ToolCalls (cl_result s) @ filter (\<lambda>call. call_Name call \<noteq> []) (calls_of evs)"
    "DroppedToolCalls (cl_result (flush_calls s)) =
       DroppedToolCalls (cl_result s) + length (filter (\<lambda>call. call_Name call = []) (calls_of evs))"
proof -
  have "map_option id (tc_calls (cl_collector s) i) = Some (call_of evs i)" if "i \<in> set (tc_order (cl_collector s))" for i
    using assms that by (auto simp: collects_def)
  then have "List.map_filter (tc_calls (cl_collector s)) (tc_order (cl_collector s)) = calls_of evs"
    using assms by (auto simp: collects_def calls_of_def List.map_filter_def filter_id_conv cong: map_cong)
  then show "ToolCalls (cl_result (flush_calls s)) = ToolCalls (cl_result s) @ filter (\<lambda>call. call_Name call \<noteq> []) (calls_of evs)"
    "DroppedToolCalls (cl_result (flush_calls s)) =
       DroppedToolCalls (cl_result s) + length (filter (\<lambda>call. call_Name call = []) (calls_of evs))"
    by (simp_all add: flush_calls_def Let_def)
qed

lemma read_until_errors:
  "\<not> stops evs \<Longrightarrow> \<forall>ev \<in> set evs. se_Type ev \<noteq> StreamError \<Longrightarrow>
     \<forall>ev \<in> set (butlast (read_until evs rs)). se_Type ev \<noteq> StreamError"
  by (induction evs rs rule: read_until.induct) (auto simp: stops_def dest: in_set_butlastD)

lemma after_events_error:
  "\<forall>ev \<in> set evs. se_Type ev \<noteq> StreamError \<Longrightarrow> Error (cl_result (after_events evs)) = []"
  by (induction evs rule: rev_induct) (simp_all add: read_event_fields new_collecting_def no_stream_def)

lemma after_read_error:
  "Error (cl_result (after_events (read_until [] rs))) =
     (if read_until [] rs \<noteq> [] \<and> se_Type (last (read_until [] rs)) = StreamError
      then se_Error (last (read_until [] rs)) else [])"
proof (cases "read_until [] rs" rule: rev_cases)
  case Nil
  then show ?thesis by (simp add: new_collecting_def no_stream_def)
next
  case (snoc evs ev)
  with read_until_errors [OF stops_Nil, of rs] have "Error (cl_result (after_events evs)) = []"
    by (intro after_events_error) simp
  then show ?thesis using snoc by (simp add: read_event_fields)
qed

lemma collects_with_context: "cl_collector (with_context err s) = cl_collector s"
  by (simp add: with_context_def split: option.split)

lemma with_context_fields:
  "Text (cl_result (with_context err s)) = Text (cl_result s)" "ToolCalls (cl_result (with_context err s)) = ToolCalls (cl_result s)"
  "FinishReason (cl_result (with_context err s)) = FinishReason (cl_result s)"
  "ReasoningBlocks (cl_result (with_context err s)) = ReasoningBlocks (cl_result s)"
  "DroppedToolCalls (cl_result (with_context err s)) = DroppedToolCalls (cl_result s)"
  "TokenUsage (cl_result (with_context err s)) = TokenUsage (cl_result s)"
  "Degenerate (cl_result (with_context err s)) = Degenerate (cl_result s)"
  "Error (cl_result (with_context err s)) = (case err of None \<Rightarrow> Error (cl_result s) | Some e \<Rightarrow> e)"
  by (simp_all add: with_context_def split: option.split)

lemma flush_fields:
  "Text (cl_result (flush_calls s)) = collected_text (cl_collector s)"
  "FinishReason (cl_result (flush_calls s)) = FinishReason (cl_result s)"
  "ReasoningBlocks (cl_result (flush_calls s)) = ReasoningBlocks (cl_result s)"
  "TokenUsage (cl_result (flush_calls s)) = TokenUsage (cl_result s)"
  "Degenerate (cl_result (flush_calls s)) = Degenerate (cl_result s)" "Error (cl_result (flush_calls s)) = Error (cl_result s)"
  by (simp_all add: flush_calls_def Let_def)

end
