(* ===== verification/Provider_Retry.thy ===== *)
theory Provider_Retry
  imports Stream_Collect Context_Tail
begin

text \<open>
  Failures of the provider and what is retried (\<open>internal/errhint/errhint.go\<close>,
  \<open>internal/agent/reconnect.go\<close>, \<open>stream_heartbeat.go\<close>, and the error classes of \<open>compaction.go\<close> and
  \<open>loop.go\<close>).  An error is its message.  What the provider answers to the \<open>n\<close>-th request of a run is
  a parameter, as are the points at which the context of the run is found to be done.
\<close>

section \<open>Classes of errors\<close>

datatype Category = Unknown | Auth | RateLimit | Connectivity | ModelNotFound | ContextOverflow

definition providerMarkers :: "string list" where
  "providerMarkers = [''auth error:'', ''rate limit error:'', ''provider error:'', ''provider request error:'',
     ''provider stream error:'']"

text \<open>The search for a code that no digit precedes or follows; \<open>before\<close> says that a digit comes before \<open>hay\<close>.\<close>

fun standalone :: "bool \<Rightarrow> string \<Rightarrow> string \<Rightarrow> bool" where
  "standalone before code [] = (code = [] \<and> \<not> before)"
| "standalone before code (c # cs) =
     (has_prefix (c # cs) code \<and> \<not> before \<and>
        (length (c # cs) \<le> length code \<or> \<not> is_digit ((c # cs) ! length code)) \<or>
      standalone (is_digit c) code cs)"

definition HasStatusCode :: "string \<Rightarrow> string list \<Rightarrow> bool" where
  "HasStatusCode haystack codes = list_ex (\<lambda>code. standalone False code haystack) codes"

definition ClassifyError :: "string \<Rightarrow> Category" where
  "ClassifyError err =
     (let m = to_lower err
      in if \<not> contains_any m providerMarkers then Unknown
         else if contains_any m [''auth error:'', ''unauthorized'', ''api key'', ''api_key'', ''invalid_api_key'',
             ''authentication'', ''permission denied'', ''forbidden''] \<or> HasStatusCode m [''401'', ''403''] then Auth
         else if contains_any m [''rate limit'', ''rate_limit'', ''too many requests'', ''quota'',
             ''resource_exhausted'', ''overloaded''] \<or> HasStatusCode m [''429'', ''529''] then RateLimit
         else if contains_any m [''context length'', ''context window'', ''maximum context'', ''context_length_exceeded'',
             ''too many tokens'', ''prompt is too long'', ''reduce the length'', ''maximum context length''] then ContextOverflow
         else if contains_any m [''model not found'', ''model_not_found'', ''does not exist'', ''unknown model'',
             ''no such model'', ''unsupported model'', ''invalid model'', ''model is not''] then ModelNotFound
         else if contains_any m [''dial tcp'', ''no such host'', ''connection refused'', ''network is unreachable'',
             ''i/o timeout'', ''context deadline exceeded'', ''tls handshake'', ''connection reset'',
             ''unexpected eof'', ''lookup '', ''timeout''] then Connectivity
         else Unknown)"

definition TUIHint :: "string \<Rightarrow> string" where
  "TUIHint err =
     (case ClassifyError err of
        Auth \<Rightarrow> ''API key rejected '' @ em_dash @ '' run /provider to re-check your credentials''
      | RateLimit \<Rightarrow> ''Rate limited '' @ em_dash @ '' wait a moment, or switch model with /model''
      | Connectivity \<Rightarrow> ''Can'' @ [quote1] @ ''t reach the provider '' @ em_dash @ '' run /doctor --connectivity''
      | ModelNotFound \<Rightarrow> ''Model unavailable '' @ em_dash @ '' pick another with /model''
      | ContextOverflow \<Rightarrow> ''Context window full '' @ em_dash @ '' run /compact to free space''
      | Unknown \<Rightarrow> [])"

definition CLIHint :: "string \<Rightarrow> string" where
  "CLIHint err =
     (let tick = [backtick]
      in case ClassifyError err of
        Auth \<Rightarrow> ''API key rejected '' @ em_dash @ '' run '' @ tick @ ''kajicode setup'' @ tick @ '', '' @ tick @
          ''kajicode auth openrouter'' @ tick @ '' for OpenRouter, or set the provider'' @ [quote1] @ ''s API key''
      | RateLimit \<Rightarrow> ''Rate limited '' @ em_dash @ '' wait a moment, or switch model with --model''
      | Connectivity \<Rightarrow> ''Can'' @ [quote1] @ ''t reach the provider '' @ em_dash @ '' run '' @ tick @ ''kajicode doctor'' @ tick
      | ModelNotFound \<Rightarrow> ''Model unavailable '' @ em_dash @ '' run '' @ tick @ ''kajicode doctor'' @ tick @
          '' or pick another with --model''
      | ContextOverflow \<Rightarrow> ''Context window full '' @ em_dash @ '' shorten the prompt or start a fresh session''
      | Unknown \<Rightarrow> [])"

definition isContextLimitError :: "string \<Rightarrow> bool" where
  "isContextLimitError message = contains_any (to_lower (trim_space message))
     [''context length'', ''context window'', ''context_length_exceeded'', ''maximum context'', ''context limit'',
      ''prompt is too long'', ''too many tokens'', ''reduce the length of the messages'', ''exceeds the maximum'',
      ''input is too long'']"

definition isStreamTimeoutError :: "string \<Rightarrow> bool" where
  "isStreamTimeoutError message = contains_any (to_lower (trim_space message))
     [''idle timeout after'', ''no output for'', ''stream stalled'', ''no first token within'']"

definition isImageRejectionError :: "string \<Rightarrow> bool" where
  "isImageRejectionError message =
     (let msg = to_lower message
      in contains msg ''400'' \<and>
         contains_any msg [''image'', ''vision'', ''multimodal'', ''unsupported content type'', ''does not support''])"

definition firstTokenHint :: "string \<Rightarrow> string" where
  "firstTokenHint message =
     (if \<not> contains (to_lower message) ''no first token within'' then []
      else '' '' @ em_dash @ '' if this model is slow to start on long conversations, raise KAJICODE_FIRST_TOKEN_TIMEOUT (for example 300) or use a faster model'')"

section \<open>Reconnection\<close>

definition maxStreamReconnects :: nat where "maxStreamReconnects = 15"
definition streamReconnectMax :: nat where "streamReconnectMax = 8000"
definition streamReconnectBase :: nat where "streamReconnectBase = 500"

definition transient_codes :: "string list" where
  "transient_codes = [''408'', ''409'', ''425'', ''429'', ''500'', ''502'', ''503'', ''504'', ''529'']"

definition transient_needles :: "string list" where
  "transient_needles = [''eof'', ''connection reset'', ''connection refused'', ''broken pipe'', ''connection closed'',
     ''timeout'', ''timed out'', ''temporarily unavailable'', ''i/o timeout'', ''server closed'', ''unexpected end'',
     ''rate limit'', ''rate_limit'', ''too many requests'', ''quota'', ''resource_exhausted'', ''overloaded'',
     ''service unavailable'', ''bad gateway'', ''gateway timeout'', ''internal server error'']"

definition shouldReconnect :: "bool \<Rightarrow> string \<Rightarrow> bool" where
  "shouldReconnect ctx_done err =
     (if ctx_done then False
      else (let msg = to_lower err
            in if isContextLimitError msg \<or> isImageRejectionError err then False
               else if HasStatusCode msg transient_codes then True
               else if ClassifyError err \<in> {RateLimit, Connectivity} then True
               else contains_any msg transient_needles))"

definition shouldRetryPreContentStreamError :: "bool \<Rightarrow> collected \<Rightarrow> bool \<Rightarrow> bool" where
  "shouldRetryPreContentStreamError ctx_done c forwardedVisibleText \<longleftrightarrow>
     \<not> forwardedVisibleText \<and> trim_space (Text c) = [] \<and> shouldReconnect ctx_done (Error c)"

text \<open>Delays in milliseconds; the jitter is drawn from \<open>0 .. base div 2\<close>.\<close>

fun doubled_delay :: "nat \<Rightarrow> nat \<Rightarrow> nat" where
  "doubled_delay 0 d = min d streamReconnectMax"
| "doubled_delay (Suc k) d = (if streamReconnectMax \<le> d then streamReconnectMax else doubled_delay k (d * 2))"

definition backoffFor :: "nat \<Rightarrow> nat" where
  "backoffFor attempt = doubled_delay (attempt - 1) streamReconnectBase"

definition jitteredBackoff :: "nat \<Rightarrow> nat \<Rightarrow> nat" where
  "jitteredBackoff jitter attempt = backoffFor attempt + jitter mod (backoffFor attempt div 2 + 1)"

text \<open>
  \<open>answer n messages\<close> is what the provider makes of the \<open>n\<close>-th request, an error or a stream;
  \<open>ctx_done n\<close> says that after \<open>n\<close> requests the context is done, \<open>wait_done n\<close> that it ends during the
  wait that follows them.
\<close>

record provider =
  answer :: "nat \<Rightarrow> Message list \<Rightarrow> string + received list"
  ctx_done :: "nat \<Rightarrow> bool"
  wait_done :: "nat \<Rightarrow> bool"

text \<open>Retrying with \<open>k\<close> attempts left after the error \<open>err\<close>.  The number of requests made is threaded through.\<close>

fun reconnect_loop :: "provider \<Rightarrow> Message list \<Rightarrow> nat \<Rightarrow> string \<Rightarrow> nat \<Rightarrow> (string + received list) \<times> nat" where
  "reconnect_loop p messages 0 err n = (Inl err, n)"
| "reconnect_loop p messages (Suc k) err n =
     (if \<not> shouldReconnect (ctx_done p n) err \<or> wait_done p n then (Inl err, n)
      else (case answer p n messages of
              Inr stream \<Rightarrow> (Inr stream, Suc n)
            | Inl err \<Rightarrow> reconnect_loop p messages k err (Suc n)))"

definition streamWithReconnect :: "provider \<Rightarrow> Message list \<Rightarrow> nat \<Rightarrow> (string + received list) \<times> nat" where
  "streamWithReconnect p messages n =
     (case answer p n messages of
        Inr stream \<Rightarrow> (Inr stream, Suc n)
      | Inl err \<Rightarrow> reconnect_loop p messages maxStreamReconnects err (Suc n))"

text \<open>Times in milliseconds; \<open>None\<close> is the zero time.\<close>

definition turnSilentBudgetMultiplier :: int where "turnSilentBudgetMultiplier = 3"

definition turnSilentBudgetRemaining :: "bool \<Rightarrow> int \<Rightarrow> int option \<Rightarrow> bool" where
  "turnSilentBudgetRemaining ctx_done' idle elapsed =
     (if ctx_done' then False
      else (case elapsed of
              None \<Rightarrow> True
            | Some e \<Rightarrow> if idle \<le> 0 then True else e < idle * turnSilentBudgetMultiplier))"

section \<open>Facts\<close>

lemma standalone_iff:
  "code \<noteq> [] \<Longrightarrow> standalone before code hay \<longleftrightarrow>
     (\<exists>a b. hay = a @ code @ b \<and> (a = [] \<longrightarrow> \<not> before) \<and> (a \<noteq> [] \<longrightarrow> \<not> is_digit (last a)) \<and>
        (b \<noteq> [] \<longrightarrow> \<not> is_digit (hd b)))"
proof (induction hay arbitrary: before)
  case (Cons c cs)
  let ?here = "has_prefix (c # cs) code \<and> \<not> before \<and> (length (c # cs) \<le> length code \<or> \<not> is_digit ((c # cs) ! length code))"
  have here: "?here \<longleftrightarrow> (\<exists>b. c # cs = code @ b \<and> \<not> before \<and> (b \<noteq> [] \<longrightarrow> \<not> is_digit (hd b)))"
  proof
    assume h: ?here
    then obtain b where b: "c # cs = code @ b" by (auto simp: has_prefix_iff)
    with h have "b \<noteq> [] \<longrightarrow> \<not> is_digit (hd b)" by (cases b) (auto simp: nth_append)
    with b h show "\<exists>b. c # cs = code @ b \<and> \<not> before \<and> (b \<noteq> [] \<longrightarrow> \<not> is_digit (hd b))" by blast
  next
    assume "\<exists>b. c # cs = code @ b \<and> \<not> before \<and> (b \<noteq> [] \<longrightarrow> \<not> is_digit (hd b))"
    then obtain b where b: "c # cs = code @ b" "\<not> before" "b \<noteq> [] \<longrightarrow> \<not> is_digit (hd b)" by blast
    then show ?here by (cases b) (auto simp: has_prefix_iff nth_append)
  qed
  have "standalone before code (c # cs) \<longleftrightarrow> ?here \<or> standalone (is_digit c) code cs" by simp
  also have "\<dots> \<longleftrightarrow> (\<exists>a b. c # cs = a @ code @ b \<and> (a = [] \<longrightarrow> \<not> before) \<and> (a \<noteq> [] \<longrightarrow> \<not> is_digit (last a)) \<and>
        (b \<noteq> [] \<longrightarrow> \<not> is_digit (hd b)))" (is "_ \<longleftrightarrow> (\<exists>a b. ?P a b)")
  proof
    assume "?here \<or> standalone (is_digit c) code cs"
    then show "\<exists>a b. ?P a b"
    proof
      assume ?here
      then obtain b where "c # cs = code @ b" "\<not> before" "b \<noteq> [] \<longrightarrow> \<not> is_digit (hd b)" using here by blast
      then have "?P [] b" by simp
      then show ?thesis by blast
    next
      assume "standalone (is_digit c) code cs"
      then obtain a b where "cs = a @ code @ b" "a = [] \<longrightarrow> \<not> is_digit c" "a \<noteq> [] \<longrightarrow> \<not> is_digit (last a)"
          "b \<noteq> [] \<longrightarrow> \<not> is_digit (hd b)" using Cons.IH [OF Cons.prems] by blast
      then have "?P (c # a) b" by simp
      then show ?thesis by blast
    qed
  next
    assume "\<exists>a b. ?P a b"
    then obtain a b where p: "?P a b" by blast
    show "?here \<or> standalone (is_digit c) code cs"
    proof (cases a)
      case Nil
      with p here show ?thesis by auto
    next
      case (Cons d a')
      with p have "cs = a' @ code @ b \<and> (a' = [] \<longrightarrow> \<not> is_digit c) \<and> (a' \<noteq> [] \<longrightarrow> \<not> is_digit (last a')) \<and>
        (b \<noteq> [] \<longrightarrow> \<not> is_digit (hd b))" by auto
      then show ?thesis using Cons.IH [OF Cons.prems] by blast
    qed
  qed
  finally show ?case .
qed simp

lemma doubled_delay_min: "doubled_delay k d = min (d * 2 ^ k) streamReconnectMax"
proof (induction k arbitrary: d)
  case (Suc k)
  have "d \<le> d * 2 ^ Suc k" using mult_le_mono2 [of 1 "2 ^ Suc k" d] by (simp del: power_Suc)
  then have le: "streamReconnectMax \<le> d \<Longrightarrow> streamReconnectMax \<le> d * 2 ^ Suc k" by (rule order.trans [rotated])
  show ?case
  proof (cases "streamReconnectMax \<le> d")
    case True
    then show ?thesis using le [OF True] by (simp add: min_def)
  next
    case False
    then show ?thesis using Suc [of "d * 2"] by (simp add: mult.assoc)
  qed
qed simp

lemma reconnect_loop_requests:
  "n \<le> snd (reconnect_loop p messages k err n) \<and> snd (reconnect_loop p messages k err n) \<le> n + k"
proof (induction k arbitrary: err n)
  case (Suc k)
  show ?case
  proof (cases "\<not> shouldReconnect (ctx_done p n) err \<or> wait_done p n")
    case False
    then show ?thesis using Suc [of "Suc n"] by (cases "answer p n messages") (auto simp: Suc_leD)
  qed simp
qed simp

lemma streamWithReconnect_requests:
  "n < snd (streamWithReconnect p messages n) \<and> snd (streamWithReconnect p messages n) \<le> n + 1 + maxStreamReconnects"
  using reconnect_loop_requests [of "Suc n" p messages maxStreamReconnects]
  by (cases "answer p n messages") (auto simp: streamWithReconnect_def Suc_le_eq)

text \<open>The result is the answer to the last request, and every answer before it was a transient error.\<close>

lemma reconnect_loop_result:
  "reconnect_loop p messages k err n = (r, n') \<Longrightarrow>
     (if n' = n then r = Inl err
      else r = answer p (n' - 1) messages \<and> shouldReconnect (ctx_done p n) err \<and>
        (\<forall>i. n \<le> i \<and> Suc i < n' \<longrightarrow> (\<exists>e. answer p i messages = Inl e \<and> shouldReconnect (ctx_done p (Suc i)) e)))"
proof (induction k arbitrary: err n)
  case (Suc k)
  show ?case
  proof (cases "\<not> shouldReconnect (ctx_done p n) err \<or> wait_done p n")
    case False
    show ?thesis
    proof (cases "answer p n messages")
      case (Inl e)
      with False Suc.prems have l: "reconnect_loop p messages k e (Suc n) = (r, n')" by simp
      have le: "Suc n \<le> n'" using reconnect_loop_requests [of "Suc n" p messages k e] l by simp
      from Suc.IH [OF l] Inl False le show ?thesis
        by (cases "n' = Suc n") (auto simp: le_Suc_eq dest!: le_imp_less_or_eq)
    next
      case (Inr s)
      with False Suc.prems show ?thesis by auto
    qed
  qed (use Suc.prems in auto)
qed simp

end
