(* ===== verification/Go_Regexp.thy ===== *)
theory Go_Regexp
  imports Prelude
begin

text \<open>
  The fragment of Go's package \<open>regexp\<close> the program uses: \<open>MatchString\<close> on patterns built
  from character classes, sequences, alternatives, repetition, word boundaries and the text
  anchors.  A state is the byte before the position (if any) and the remaining text, so that
  \<open>\<b>\<close> and \<open>^\<close> can be decided locally.  \<open>ends r st\<close> lists the states in which a match of
  \<open>r\<close> starting in \<open>st\<close> can end; it is proved sound and complete for the relation \<open>matches\<close>.
\<close>

datatype regexp =
    Empty
  | Class "char \<Rightarrow> bool"
  | Seq regexp regexp
  | Alt regexp regexp
  | Star regexp
  | Word_Boundary
  | Bol
  | Eol

type_synonym rstate = "char option \<times> string"

text \<open>RE2's ASCII classes \<open>\w\<close>, \<open>\s\<close>, \<open>\d\<close>.\<close>

definition word_char :: "char \<Rightarrow> bool" where
  "word_char c \<longleftrightarrow> is_digit c \<or> is_upper c \<or> is_lower c \<or> c = CHR ''_''"

definition re_space :: "char \<Rightarrow> bool" where
  "re_space c \<longleftrightarrow> c = CHR '' '' \<or> c = CHR 0x09 \<or> c = CHR 0x0A \<or> c = CHR 0x0C \<or> c = CHR 0x0D"

definition letter :: "char \<Rightarrow> bool" where
  "letter c \<longleftrightarrow> is_upper c \<or> is_lower c"

definition at_boundary :: "rstate \<Rightarrow> bool" where
  "at_boundary st =
     ((case fst st of None \<Rightarrow> False | Some c \<Rightarrow> word_char c) \<noteq>
      (case snd st of [] \<Rightarrow> False | c # _ \<Rightarrow> word_char c))"

inductive matches :: "regexp \<Rightarrow> rstate \<Rightarrow> rstate \<Rightarrow> bool" where
  Empty: "matches Empty st st"
| Class: "P c \<Longrightarrow> matches (Class P) (p, c # s) (Some c, s)"
| Seq: "matches r st st' \<Longrightarrow> matches q st' st'' \<Longrightarrow> matches (Seq r q) st st''"
| AltL: "matches r st st' \<Longrightarrow> matches (Alt r q) st st'"
| AltR: "matches q st st' \<Longrightarrow> matches (Alt r q) st st'"
| Star0: "matches (Star r) st st"
| StarS: "matches r st st' \<Longrightarrow> matches (Star r) st' st'' \<Longrightarrow> matches (Star r) st st''"
| Word_Boundary: "at_boundary st \<Longrightarrow> matches Word_Boundary st st"
| Bol: "fst st = None \<Longrightarrow> matches Bol st st"
| Eol: "snd st = [] \<Longrightarrow> matches Eol st st"

inductive_cases matches_Empty [elim!]: "matches Empty st st'"
inductive_cases matches_Class [elim!]: "matches (Class P) st st'"
inductive_cases matches_Seq [elim!]: "matches (Seq r q) st st'"
inductive_cases matches_Alt [elim!]: "matches (Alt r q) st st'"
inductive_cases matches_Word_Boundary [elim!]: "matches Word_Boundary st st'"
inductive_cases matches_Bol [elim!]: "matches Bol st st'"
inductive_cases matches_Eol [elim!]: "matches Eol st st'"

lemma matches_shrinks: "matches r st st' \<Longrightarrow> length (snd st') \<le> length (snd st)"
  by (induction rule: matches.induct) auto

lemma matches_no_progress: "matches r st st' \<Longrightarrow> length (snd st') = length (snd st) \<Longrightarrow> st' = st"
proof (induction rule: matches.induct)
  case (Seq r st st' q st'')
  then show ?case using matches_shrinks by (metis le_antisym)
next
  case (StarS r st st' st'')
  then show ?case using matches_shrinks by (metis le_antisym)
qed auto

text \<open>The executable matcher: the recursion under a star is on shorter text only.\<close>

function ends :: "regexp \<Rightarrow> rstate \<Rightarrow> rstate list" where
  "ends Empty st = [st]"
| "ends (Class P) st = (case snd st of [] \<Rightarrow> [] | c # s \<Rightarrow> if P c then [(Some c, s)] else [])"
| "ends (Seq r q) st =
     remdups (concat (map (\<lambda>st'. if length (snd st') \<le> length (snd st) then ends q st' else [])
       (ends r st)))"
| "ends (Alt r q) st = remdups (ends r st @ ends q st)"
| "ends (Star r) st =
     remdups (st # concat (map (\<lambda>st'. if length (snd st') < length (snd st) then ends (Star r) st' else [])
       (ends r st)))"
| "ends Word_Boundary st = (if at_boundary st then [st] else [])"
| "ends Bol st = (if fst st = None then [st] else [])"
| "ends Eol st = (if snd st = [] then [st] else [])"
  by pat_completeness auto
termination
  by (relation "measures [\<lambda>(r, st). length (snd st), \<lambda>(r, st). size r]") auto

declare ends.simps(5) [simp del]

lemma mem_ends_Star:
  "x \<in> set (ends (Star r) st) \<longleftrightarrow>
     x = st \<or> (\<exists>u \<in> set (ends r st). length (snd u) < length (snd st) \<and> x \<in> set (ends (Star r) u))"
  by (subst ends.simps(5)) auto

lemma ends_sound: "st' \<in> set (ends r st) \<Longrightarrow> matches r st st'"
proof (induction r st arbitrary: st' rule: ends.induct)
  case (2 P st)
  then show ?case by (cases st) (auto split: list.splits if_splits intro: matches.intros)
next
  case (3 r q st)
  then obtain u where "u \<in> set (ends r st)" "length (snd u) \<le> length (snd st)" "st' \<in> set (ends q u)"
    by (auto split: if_splits)
  then show ?case using "3.IH" by (blast intro: matches.Seq)
next
  case (5 r st)
  from "5.prems" consider "st' = st"
    | u where "u \<in> set (ends r st)" "length (snd u) < length (snd st)" "st' \<in> set (ends (Star r) u)"
    using mem_ends_Star [of st' r st] by blast
  then show ?case
    by cases (auto intro: matches.Star0 matches.StarS dest: "5.IH")
qed (auto split: if_splits intro: matches.intros)

lemma ends_complete: "matches r st st' \<Longrightarrow> st' \<in> set (ends r st)"
proof (induction rule: matches.induct)
  case (Seq r st st' q st'')
  then show ?case using matches_shrinks [of r st st'] by auto
next
  case (Star0 r st)
  show ?case using mem_ends_Star [of st r st] by simp
next
  case (StarS r st st' st'')
  show ?case
  proof (cases "length (snd st') < length (snd st)")
    case True
    with StarS show ?thesis using mem_ends_Star [of st'' r st] by blast
  next
    case False
    then have "st' = st"
      using StarS.hyps matches_shrinks matches_no_progress by (metis le_neq_implies_less)
    with StarS show ?thesis by simp
  qed
qed auto

theorem ends_iff_matches: "st' \<in> set (ends r st) \<longleftrightarrow> matches r st st'"
  using ends_sound ends_complete by blast

text \<open>\<open>MatchString\<close>: some position of the text starts a match.\<close>

fun match_from :: "regexp \<Rightarrow> char option \<Rightarrow> string \<Rightarrow> bool" where
  "match_from r p [] = (ends r (p, []) \<noteq> [])"
| "match_from r p (c # s) = (ends r (p, c # s) \<noteq> [] \<or> match_from r (Some c) s)"

definition match_string :: "regexp \<Rightarrow> string \<Rightarrow> bool" where
  "match_string r s = match_from r None s"

definition last_char :: "char option \<Rightarrow> string \<Rightarrow> char option" where
  "last_char p a = (if a = [] then p else Some (last a))"

lemma match_from_iff:
  "match_from r p s \<longleftrightarrow> (\<exists>a b st'. s = a @ b \<and> matches r (last_char p a, b) st')"
proof (induction s arbitrary: p)
  case Nil
  have "ends r (p, []) \<noteq> [] \<longleftrightarrow> (\<exists>st'. st' \<in> set (ends r (p, [])))"
    by (cases "ends r (p, [])") auto
  then show ?case by (simp add: ends_iff_matches last_char_def)
next
  case (Cons c s)
  have here: "ends r (p, c # s) \<noteq> [] \<longleftrightarrow> (\<exists>st'. matches r (p, c # s) st')"
    using ends_iff_matches by (metis ex_in_conv set_empty)
  have split: "(\<exists>a b st'. c # s = a @ b \<and> matches r (last_char p a, b) st') \<longleftrightarrow>
     (\<exists>st'. matches r (p, c # s) st') \<or>
     (\<exists>a b st'. s = a @ b \<and> matches r (last_char (Some c) a, b) st')" (is "?L \<longleftrightarrow> ?R1 \<or> ?R2")
  proof
    assume ?L
    then obtain a b st' where ab: "c # s = a @ b" "matches r (last_char p a, b) st'" by blast
    show "?R1 \<or> ?R2"
    proof (cases a)
      case Nil
      with ab have "matches r (p, c # s) st'" by (simp add: last_char_def)
      then show ?thesis by blast
    next
      case (Cons d a')
      with ab have "s = a' @ b" "matches r (last_char (Some c) a', b) st'"
        by (auto simp: last_char_def split: if_splits)
      then show ?thesis by blast
    qed
  next
    assume "?R1 \<or> ?R2"
    then show ?L
    proof
      assume ?R1
      then show ?thesis by (metis append_Nil last_char_def)
    next
      assume ?R2
      then obtain a b st' where ab: "s = a @ b" "matches r (last_char (Some c) a, b) st'" by blast
      then have "matches r (last_char p (c # a), b) st'" by (cases "a = []") (simp_all add: last_char_def)
      with ab(1) show ?thesis by (metis append_Cons)
    qed
  qed
  show ?case using Cons.IH here split by simp
qed

theorem match_string_iff:
  "match_string r s \<longleftrightarrow> (\<exists>a b st'. s = a @ b \<and> matches r (last_char None a, b) st')"
  by (simp add: match_string_def match_from_iff)

text \<open>Abbreviations of the pattern syntax; the \<open>(?i)\<close> forms fold ASCII case.\<close>

fun seqs :: "regexp list \<Rightarrow> regexp" where
  "seqs [] = Empty"
| "seqs [r] = r"
| "seqs (r # q # rs) = Seq r (seqs (q # rs))"

fun alts :: "regexp list \<Rightarrow> regexp" where
  "alts [] = Class (\<lambda>_. False)"
| "alts [r] = r"
| "alts (r # q # rs) = Alt r (alts (q # rs))"

definition opt :: "regexp \<Rightarrow> regexp" where "opt r = Alt r Empty"
definition plus :: "regexp \<Rightarrow> regexp" where "plus r = Seq r (Star r)"
definition chr :: "char \<Rightarrow> regexp" where "chr c = Class (\<lambda>x. x = c)"
definition chr_fold :: "char \<Rightarrow> regexp" where "chr_fold c = Class (\<lambda>x. lower_char x = lower_char c)"
definition one_of :: "string \<Rightarrow> regexp" where "one_of cs = Class (\<lambda>x. x \<in> set cs)"
definition lit :: "string \<Rightarrow> regexp" where "lit s = seqs (map chr s)"
definition lit_fold :: "string \<Rightarrow> regexp" where "lit_fold s = seqs (map chr_fold s)"
definition words_fold :: "string list \<Rightarrow> regexp" where "words_fold ws = alts (map lit_fold ws)"
definition ws :: regexp where "ws = Class re_space"
definition nws :: regexp where "nws = Class (\<lambda>c. \<not> re_space c)"

end
