(* ===== verification/Safe_Command.thy ===== *)
theory Safe_Command
  imports Prelude
begin

text \<open>
  \<open>internal/sandbox/safe_command.go\<close>: detection of shell commands that would wait for a
  terminal.  The data tables are transcribed; \<open>splitShellSegments\<close> is the quote-aware
  scanner, \<open>firstProgram\<close> and \<open>commandBody\<close> skip assignments and wrapper prefixes, and
  \<open>DetectInteractiveCommand\<close> ties them together, recursing into \<open>sh -c\<close> payloads.  The
  recursion is shown to stop because a payload is always shorter than its command.
\<close>

section \<open>Tables\<close>

datatype interactiveProgram =
  Interactive_Program (ip_reason: string) (ip_suggestion: string)
    (ip_windowsSuggestion: string) (ip_windowsOnly: bool)

datatype interactiveSegment =
  Interactive_Segment (is_match: string) (is_command: string) (is_reason: string)
    (is_suggestion: string) (is_windowsSuggestion: string)

record InteractiveCommandResult =
  Interactive :: bool
  icr_command :: string
  icr_reason :: string
  icr_suggestion :: string

definition no_interactive :: InteractiveCommandResult where
  "no_interactive = \<lparr>Interactive = False, icr_command = [], icr_reason = [], icr_suggestion = []\<rparr>"

definition interactivePrograms :: "(string \<times> interactiveProgram) list" where
  "interactivePrograms = [
    (''vim'', Interactive_Program
      ''vim is a full-screen editor that waits for keystrokes''
      ''Use a non-interactive edit (the edit_file/write_file tools) or `sed -i`/`printf` to modify files.''
      '''' False),
    (''vi'', Interactive_Program
      ''vi is a full-screen editor that waits for keystrokes''
      ''Use a non-interactive edit (the edit_file/write_file tools) or `sed -i` to modify files.''
      '''' False),
    (''nvim'', Interactive_Program
      ''nvim is a full-screen editor that waits for keystrokes''
      ''Use a non-interactive edit (the edit_file/write_file tools) or `sed -i` to modify files.''
      '''' False),
    (''nano'', Interactive_Program
      ''nano is a full-screen editor that waits for keystrokes''
      ''Use a non-interactive edit (the edit_file/write_file tools) or `sed -i` to modify files.''
      '''' False),
    (''emacs'', Interactive_Program
      ''emacs opens an interactive session''
      ''Use `emacs --batch` for scripting, or the edit_file/write_file tools.''
      '''' False),
    (''pico'', Interactive_Program
      ''pico is a full-screen editor that waits for keystrokes''
      ''Use the edit_file/write_file tools or `sed -i`.''
      '''' False),
    (''less'', Interactive_Program
      ''less is a pager that waits for navigation keys''
      ''Use `cat`, `head`, or `tail -n N` to print file contents non-interactively.''
      ''Use `type` to print file contents non-interactively, or the read_file tool with offset/limit for a partial view.'' False),
    (''more'', Interactive_Program
      ''more is a pager that waits for navigation keys''
      ''Use `cat`, `head`, or `tail -n N` to print file contents non-interactively.''
      ''Use `type` to print file contents non-interactively, or the read_file tool with offset/limit for a partial view.'' False),
    (''most'', Interactive_Program
      ''most is a pager that waits for navigation keys''
      ''Use `cat`, `head`, or `tail -n N` to print file contents non-interactively.''
      ''Use `type` to print file contents non-interactively, or the read_file tool with offset/limit for a partial view.'' False),
    (''top'', Interactive_Program
      ''top runs a live full-screen dashboard until you quit it''
      ''Use `ps aux` (optionally `| head`) for a one-shot snapshot.''
      ''Use `tasklist` for a one-shot process snapshot.'' False),
    (''htop'', Interactive_Program
      ''htop runs a live full-screen dashboard until you quit it''
      ''Use `ps aux` (optionally `| head`) for a one-shot snapshot.''
      ''Use `tasklist` for a one-shot process snapshot.'' False),
    (''btop'', Interactive_Program
      ''btop runs a live full-screen dashboard until you quit it''
      ''Use `ps aux` (optionally `| head`) for a one-shot snapshot.''
      ''Use `tasklist` for a one-shot process snapshot.'' False),
    (''btm'', Interactive_Program
      ''btm runs a live full-screen dashboard until you quit it''
      ''Use `ps aux` for a one-shot snapshot.''
      ''Use `tasklist` for a one-shot process snapshot.'' False),
    (''watch'', Interactive_Program
      ''watch re-runs a command on a loop until interrupted''
      ''Run the underlying command once instead of wrapping it in `watch`.''
      '''' False),
    (''python'', Interactive_Program
      ''python with no script drops into an interactive REPL''
      ''Run `python script.py` or `python -c '<code>'`.''
      '''' False),
    (''python3'', Interactive_Program
      ''python3 with no script drops into an interactive REPL''
      ''Run `python3 script.py` or `python3 -c '<code>'`.''
      '''' False),
    (''node'', Interactive_Program
      ''node with no script drops into an interactive REPL''
      ''Run `node script.js` or `node -e '<code>'`.''
      '''' False),
    (''irb'', Interactive_Program
      ''irb is the interactive Ruby REPL''
      ''Run `ruby script.rb` or `ruby -e '<code>'`.''
      '''' False),
    (''ruby'', Interactive_Program
      ''ruby with no script may drop into an interactive session''
      ''Run `ruby script.rb` or `ruby -e '<code>'`.''
      '''' False),
    (''pry'', Interactive_Program
      ''pry is an interactive Ruby REPL''
      ''Run `ruby script.rb` instead.''
      '''' False),
    (''php'', Interactive_Program
      ''php with no script (-a) opens an interactive shell''
      ''Run `php script.php` or `php -r '<code>'`.''
      '''' False),
    (''ghci'', Interactive_Program
      ''ghci is the interactive Haskell REPL''
      ''Use `runghc script.hs` instead.''
      '''' False),
    (''psql'', Interactive_Program
      ''psql opens an interactive SQL prompt''
      ''Pass a query with `psql -c '<sql>'` or a file with `psql -f file.sql`.''
      '''' False),
    (''mysql'', Interactive_Program
      ''mysql opens an interactive SQL prompt''
      ''Pass a query with `mysql -e '<sql>'` or a file with `mysql < file.sql`.''
      '''' False),
    (''sqlite3'', Interactive_Program
      ''sqlite3 with no SQL opens an interactive prompt''
      ''Pass SQL inline: `sqlite3 db.sqlite '<sql>'`.''
      '''' False),
    (''redis-cli'', Interactive_Program
      ''redis-cli with no command opens an interactive prompt''
      ''Pass the command inline: `redis-cli GET key`.''
      '''' False),
    (''mongo'', Interactive_Program
      ''mongo opens an interactive shell''
      ''Pass `--eval '<js>'` or a script file.''
      '''' False),
    (''mongosh'', Interactive_Program
      ''mongosh opens an interactive shell''
      ''Pass `--eval '<js>'` or a script file.''
      '''' False),
    (''ssh'', Interactive_Program
      ''ssh with no remote command opens an interactive login shell''
      ''Append the command to run remotely: `ssh host 'command'`.''
      '''' False),
    (''telnet'', Interactive_Program
      ''telnet opens an interactive session''
      ''Use `curl`/`nc` with piped input for scripted access.''
      '''' False),
    (''ftp'', Interactive_Program
      ''ftp opens an interactive session''
      ''Use `curl`/`wget` for scripted transfers.''
      '''' False),
    (''sftp'', Interactive_Program
      ''sftp opens an interactive session''
      ''Use `scp` for scripted transfers.''
      '''' False),
    (''gdb'', Interactive_Program
      ''gdb opens an interactive debugger prompt''
      ''Use `gdb -batch -ex '<cmd>'` for scripted debugging.''
      '''' False),
    (''lldb'', Interactive_Program
      ''lldb opens an interactive debugger prompt''
      ''Use `lldb --batch -o '<cmd>'` for scripted debugging.''
      '''' False),
    (''fzf'', Interactive_Program
      ''fzf is an interactive fuzzy finder''
      ''Use `grep`/`rg` to filter non-interactively.''
      '''' False),
    (''peco'', Interactive_Program
      ''peco is an interactive selector''
      ''Use `grep`/`rg` to filter non-interactively.''
      '''' False),
    (''notepad'', Interactive_Program
      ''notepad opens a GUI editor''
      ''Use the edit_file/write_file tools instead.''
      '''' True)
  ]"

definition nonInteractiveREPLFlags :: "(string \<times> string list) list" where
  "nonInteractiveREPLFlags = [
    (''python'', [''-c'', ''-m'']),
    (''python3'', [''-c'', ''-m'']),
    (''node'', [''-e'', ''--eval'', ''-p'', ''--print'', ''-v'', ''--check'', ''-h'']),
    (''ruby'', [''-e'']),
    (''php'', [''-r'', ''-f'']),
    (''psql'', [''-c'', ''--command'', ''-f'', ''--file'', ''-l'', ''--list'']),
    (''mysql'', [''-e'', ''--execute'']),
    (''mongo'', [''--eval'', ''-f'', ''--file'']),
    (''mongosh'', [''--eval'', ''-f'', ''--file''])
  ]"

definition interactiveSegments :: "interactiveSegment list" where
  "interactiveSegments = [
    Interactive_Segment ''git rebase -i'' ''git rebase -i''
      ''interactive rebase opens an editor for the todo list''
      ''Use a non-interactive rebase (`git rebase <base>`) or scripted `git rebase --onto`, and resolve via `git rebase --continue`.''
      '''',
    Interactive_Segment ''git rebase --interactive'' ''git rebase -i''
      ''interactive rebase opens an editor for the todo list''
      ''Use a non-interactive rebase (`git rebase <base>`).''
      '''',
    Interactive_Segment ''git add -i'' ''git add -i''
      ''interactive add opens a selection prompt''
      ''Stage paths explicitly: `git add <path>`.''
      '''',
    Interactive_Segment ''git add -p'' ''git add -p''
      ''interactive patch staging opens a prompt''
      ''Stage paths explicitly: `git add <path>`.''
      '''',
    Interactive_Segment ''git commit -p'' ''git commit -p''
      ''interactive patch commit opens a prompt''
      ''Stage with `git add <path>` then `git commit -m`.''
      '''',
    Interactive_Segment ''tail -f'' ''tail -f''
      ''tail -f follows a file forever''
      ''Use `tail -n N <file>` for a bounded read.''
      ''Read the file with the read_file tool (offset/limit), or `type <file>` for the whole file.'',
    Interactive_Segment ''tail --follow'' ''tail -f''
      ''tail --follow follows a file forever''
      ''Use `tail -n N <file>` for a bounded read.''
      ''Read the file with the read_file tool (offset/limit), or `type <file>` for the whole file.'',
    Interactive_Segment ''journalctl -f'' ''journalctl -f''
      ''journalctl -f streams logs forever''
      ''Use `journalctl -n N` for a bounded read.''
      '''',
    Interactive_Segment ''kubectl logs -f'' ''kubectl logs -f''
      ''kubectl logs -f streams logs forever''
      ''Drop -f and use `kubectl logs --tail=N`.''
      '''',
    Interactive_Segment ''docker logs -f'' ''docker logs -f''
      ''docker logs -f streams logs forever''
      ''Drop -f and use `docker logs --tail N`.''
      '''',
    Interactive_Segment ''docker attach'' ''docker attach''
      ''docker attach joins an interactive container session''
      ''Use `docker exec <id> <command>` for one-shot execution.''
      ''''
  ]"

definition wrapperPrograms :: "string list" where
  "wrapperPrograms = [''sudo'', ''command'', ''env'', ''nohup'', ''time'', ''exec'', ''doas'', ''nice'', ''timeout'', ''stdbuf'', ''setsid'', ''ionice'', ''xargs'']"

definition wrapperValueOptionsByProg :: "(string \<times> string list) list" where
  "wrapperValueOptionsByProg = [
    (''sudo'', [''-u'', ''--user'', ''-g'', ''--group'', ''-p'', ''--prompt'', ''-C'', ''--close-from'', ''-r'', ''--role'', ''-T'', ''--command-timeout'', ''-U'', ''--other-user'', ''-h'', ''--host'', ''-D'', ''--chdir'', ''-R'', ''--chroot'']),
    (''doas'', [''-u'', ''-C'']),
    (''env'', [''-u'', ''--unset'', ''-S'', ''--split-string'', ''-C'', ''--chdir'']),
    (''timeout'', [''-s'', ''--signal'', ''-k'', ''--kill-after'']),
    (''nice'', [''-n'', ''--adjustment'']),
    (''ionice'', [''-c'', ''--class'', ''-n'', ''--classdata'', ''-p'', ''--pid'']),
    (''stdbuf'', [''-i'', ''--input'', ''-o'', ''--output'', ''-e'', ''--error'']),
    (''xargs'', [''-a'', ''--arg-file'', ''-d'', ''--delimiter'', ''-E'', ''-I'', ''--replace'', ''-L'', ''--max-lines'', ''-n'', ''--max-args'', ''-P'', ''--max-procs'', ''-s'', ''--max-chars''])
  ]"

definition infoExitFlags :: "string list" where
  "infoExitFlags = [''--version'', ''--help'']"

section \<open>Tokens\<close>

definition wrapperConsumesValue :: "string \<Rightarrow> string \<Rightarrow> bool" where
  "wrapperConsumesValue wrapper option =
     (if contains option ''='' then False
      else (case map_of wrapperValueOptionsByProg wrapper of
              None \<Rightarrow> False
            | Some opts \<Rightarrow> option \<in> set opts))"

definition isNumericToken :: "string \<Rightarrow> bool" where
  "isNumericToken field \<longleftrightarrow> field \<noteq> [] \<and> list_all is_digit field"

definition stripChars :: "string \<Rightarrow> string \<Rightarrow> string" where
  "stripChars s cutset = filter (\<lambda>c. c \<notin> set cutset) s"

definition basename :: "string \<Rightarrow> string" where
  "basename token = (case last_index_of token ''/'' of Some i \<Rightarrow> drop (Suc i) token | None \<Rightarrow> token)"

definition normalizeProgramToken :: "string \<Rightarrow> string" where
  "normalizeProgramToken field =
     (let t = trim_space field;
          t = trim_left_by (\<lambda>c. c = CHR ''$'' \<or> c = CHR ''('') t;
          t = trim_right_by (\<lambda>c. c = CHR '')'') t;
          t = stripChars t [quote2, quote1, backtick, backslash]
      in to_lower (basename t))"

definition is_assignment :: "string \<Rightarrow> bool" where
  "is_assignment field \<longleftrightarrow> contains field ''='' \<and> \<not> has_prefix field ''=''"

text \<open>The loops of \<open>firstProgram\<close> and \<open>commandBody\<close> with their \<open>wrapper\<close> variable.\<close>

function firstProgram_from :: "string \<Rightarrow> string list \<Rightarrow> string" where
  "firstProgram_from wrapper [] = []"
| "firstProgram_from wrapper (field # fs) =
     (if is_assignment field then firstProgram_from wrapper fs
      else if has_prefix field ''-'' then
        (if wrapperConsumesValue wrapper field \<and> fs \<noteq> []
         then firstProgram_from wrapper (tl fs)
         else firstProgram_from wrapper fs)
      else if isNumericToken field then firstProgram_from wrapper fs
      else (let token = normalizeProgramToken field
            in if token \<in> set wrapperPrograms then firstProgram_from token fs else token))"
  by pat_completeness auto
termination by (relation "measure (\<lambda>(_, fs). length fs)") auto

definition firstProgram :: "string list \<Rightarrow> string" where
  "firstProgram fs = firstProgram_from [] fs"

function commandBody_from :: "string \<Rightarrow> string list \<Rightarrow> string" where
  "commandBody_from wrapper [] = []"
| "commandBody_from wrapper (field # fs) =
     (if is_assignment field then commandBody_from wrapper fs
      else if has_prefix field ''-'' then
        (if wrapperConsumesValue wrapper field \<and> fs \<noteq> []
         then commandBody_from wrapper (tl fs)
         else commandBody_from wrapper fs)
      else if isNumericToken field then commandBody_from wrapper fs
      else (let token = normalizeProgramToken field
            in if token \<in> set wrapperPrograms then commandBody_from token fs
               else join '' '' (field # fs)))"
  by pat_completeness auto
termination by (relation "measure (\<lambda>(_, fs). length fs)") auto

definition commandBody :: "string list \<Rightarrow> string" where
  "commandBody fs = commandBody_from [] fs"

text \<open>\<open>programIndex\<close>, with \<open>None\<close> for -1; \<open>args_after\<close> is \<open>fields[start+1:]\<close>.\<close>

fun programIndex :: "string \<Rightarrow> string list \<Rightarrow> nat option" where
  "programIndex program [] = None"
| "programIndex program (field # fs) =
     (if normalizeProgramToken field = program then Some 0
      else map_option Suc (programIndex program fs))"

fun payload_after_c :: "string list \<Rightarrow> string" where
  "payload_after_c [] = []"
| "payload_after_c (arg # args) =
     (if arg = ''-c'' \<or> arg = ''--command'' then join '' '' args else payload_after_c args)"

definition shellDashCPayload :: "string \<Rightarrow> string list \<Rightarrow> string" where
  "shellDashCPayload program fs =
     (if program \<notin> {''sh'', ''bash'', ''zsh'', ''ksh'', ''dash''} then []
      else (case programIndex program fs of
              None \<Rightarrow> []
            | Some start \<Rightarrow> payload_after_c (drop (Suc start) fs)))"

definition positionals :: "string list \<Rightarrow> string list" where
  "positionals args = filter (\<lambda>arg. \<not> has_prefix arg ''-'') args"

definition hasTrailingCommand :: "string \<Rightarrow> string list \<Rightarrow> bool" where
  "hasTrailingCommand program fs =
     (case programIndex program fs of
        None \<Rightarrow> False
      | Some start \<Rightarrow>
          (let args = drop (Suc start) fs
           in if program = ''ssh'' \<or> program = ''sqlite3'' then 2 \<le> length (positionals args)
              else if program = ''redis-cli'' then positionals args \<noteq> []
              else False))"

definition before_equals :: "string \<Rightarrow> string" where
  "before_equals arg = takeWhile (\<lambda>c. c \<noteq> CHR ''='') arg"

definition hasNonInteractiveFlag :: "string \<Rightarrow> string list \<Rightarrow> bool" where
  "hasNonInteractiveFlag program fs =
     (case map_of nonInteractiveREPLFlags program of
        None \<Rightarrow> hasTrailingCommand program fs
      | Some flags \<Rightarrow>
          (case programIndex program fs of
             None \<Rightarrow> False
           | Some start \<Rightarrow>
               list_ex (\<lambda>arg. before_equals arg \<in> set infoExitFlags
                   \<or> list_ex (\<lambda>flag. arg = flag \<or> has_prefix arg (flag @ ''='')) flags
                   \<or> \<not> has_prefix arg ''-'')
                 (drop (Suc start) fs)))"

section \<open>The segment scanner\<close>

text \<open>A saved quoting context: in single quotes, in double quotes, opened by a backtick.\<close>

record substFrame =
  sf_single :: bool
  sf_double :: bool
  sf_backtick :: bool

record scanner =
  segments :: "string list"
  current :: string
  inSingle :: bool
  inDouble :: bool
  substStack :: "substFrame list"

definition scanner_init :: scanner where
  "scanner_init = \<lparr>segments = [], current = [], inSingle = False, inDouble = False, substStack = []\<rparr>"

definition flush :: "scanner \<Rightarrow> scanner" where
  "flush s =
     (let seg = trim_space (current s)
      in s\<lparr>segments := (if seg \<noteq> [] then segments s @ [seg] else segments s), current := []\<rparr>)"

definition emit :: "string \<Rightarrow> scanner \<Rightarrow> scanner" where
  "emit cs s = s\<lparr>current := current s @ cs\<rparr>"

definition open_subst :: "bool \<Rightarrow> scanner \<Rightarrow> scanner" where
  "open_subst bt s =
     (let s = flush s
      in s\<lparr>substStack := \<lparr>sf_single = inSingle s, sf_double = inDouble s, sf_backtick = bt\<rparr> # substStack s,
           inSingle := False, inDouble := False\<rparr>)"

definition close_subst :: "scanner \<Rightarrow> scanner" where
  "close_subst s =
     (case substStack s of
        [] \<Rightarrow> s
      | f # fs \<Rightarrow> flush (s\<lparr>substStack := fs, inSingle := sf_single f, inDouble := sf_double f\<rparr>))"

definition top_is :: "bool \<Rightarrow> scanner \<Rightarrow> bool" where
  "top_is bt s = (case substStack s of [] \<Rightarrow> False | f # _ \<Rightarrow> sf_backtick f = bt)"

text \<open>
  One round of the loop at byte \<open>c\<close> with \<open>rest\<close> still to read: the new state and how many
  further bytes the round consumed (the code's extra \<open>i++\<close>).
\<close>

definition scan_step :: "scanner \<Rightarrow> char \<Rightarrow> string \<Rightarrow> scanner \<times> nat" where
  "scan_step s c rest =
     (if inSingle s then ((emit [c] s)\<lparr>inSingle := c \<noteq> quote1\<rparr>, 0)
      else if c = backslash \<and> rest \<noteq> [] then (emit [c, hd rest] s, 1)
      else if c = quote1 \<and> \<not> inDouble s then ((emit [c] s)\<lparr>inSingle := True\<rparr>, 0)
      else if c = quote2 then ((emit [c] s)\<lparr>inDouble := \<not> inDouble s\<rparr>, 0)
      else if c = backtick then (if top_is True s then close_subst s else open_subst True s, 0)
      else if c = CHR ''$'' \<and> rest \<noteq> [] \<and> hd rest = CHR ''('' then (open_subst False s, 1)
      else if c = CHR '')'' \<and> top_is False s \<and> \<not> inSingle s \<and> \<not> inDouble s then (close_subst s, 0)
      else if \<not> inDouble s \<and> (c = CHR '';'' \<or> c = CHR ''|'') then (flush s, 0)
      else if \<not> inDouble s \<and> c = CHR ''&'' \<and> rest \<noteq> [] \<and> hd rest = CHR ''&'' then (flush s, 1)
      else (emit [c] s, 0))"

function scan :: "scanner \<Rightarrow> string \<Rightarrow> scanner" where
  "scan s [] = flush s"
| "scan s (c # rest) = scan (fst (scan_step s c rest)) (drop (snd (scan_step s c rest)) rest)"
  by pat_completeness auto
termination by (relation "measure (\<lambda>(_, s). length s)") auto

definition splitShellSegments :: "string \<Rightarrow> string list" where
  "splitShellSegments command = segments (scan scanner_init command)"

lemmas scan_ops = flush_def emit_def open_subst_def close_subst_def top_is_def Let_def

text \<open>Invariant of the scanner: nothing is invented, and every segment is trimmed text.\<close>

definition scanned :: "scanner \<Rightarrow> nat" where
  "scanned s = sum_list (map length (segments s)) + length (current s)"

definition segments_ok :: "scanner \<Rightarrow> bool" where
  "segments_ok s \<longleftrightarrow> (\<forall>x \<in> set (segments s). x \<noteq> [] \<and> trim_space x = x)"

lemma scanned_ops [simp]:
  "scanned (flush s) \<le> scanned s"
  "scanned (emit cs s) = scanned s + length cs"
  "scanned (open_subst b s) \<le> scanned s"
  "scanned (close_subst s) \<le> scanned s"
  "scanned (s\<lparr>inSingle := x\<rparr>) = scanned s" "scanned (s\<lparr>inDouble := x\<rparr>) = scanned s"
  using trim_space_length [of "current s"]
  by (auto simp: scanned_def scan_ops split: list.splits)

lemma segments_ok_ops [simp]:
  "segments_ok s \<Longrightarrow> segments_ok (flush s)"
  "segments_ok (emit cs s) = segments_ok s"
  "segments_ok s \<Longrightarrow> segments_ok (open_subst b s)"
  "segments_ok s \<Longrightarrow> segments_ok (close_subst s)"
  "segments_ok (s\<lparr>inSingle := x\<rparr>) = segments_ok s" "segments_ok (s\<lparr>inDouble := x\<rparr>) = segments_ok s"
  by (auto simp: segments_ok_def scan_ops split: list.splits)

lemma scan_step_consumes: "snd (scan_step s c rest) \<le> length rest"
  by (cases rest) (auto simp: scan_step_def)

lemma scan_step_scanned: "scanned (fst (scan_step s c rest)) \<le> scanned s + Suc (snd (scan_step s c rest))"
proof -
  have "scanned (flush s) \<le> scanned s" "scanned (open_subst b s) \<le> scanned s"
    "scanned (close_subst s) \<le> scanned s" for b by simp_all
  then show ?thesis unfolding scan_step_def
    by (simp add: le_SucI)
qed

lemma scan_step_ok: "segments_ok s \<Longrightarrow> segments_ok (fst (scan_step s c rest))"
  unfolding scan_step_def by simp

lemma scanned_scan: "scanned (scan s cs) \<le> scanned s + length cs"
proof (induction s cs rule: scan.induct)
  case (2 s c rest)
  then show ?case
    using scan_step_scanned [of s c rest] scan_step_consumes [of s c rest] by simp
qed simp

lemma segments_ok_scan: "segments_ok s \<Longrightarrow> segments_ok (scan s cs)"
  by (induction s cs rule: scan.induct) (simp_all add: scan_step_ok)

lemma splitShellSegments_ok:
  "x \<in> set (splitShellSegments s) \<Longrightarrow> x \<noteq> [] \<and> trim_space x = x"
  using segments_ok_scan [of scanner_init s]
  by (simp add: splitShellSegments_def segments_ok_def scanner_init_def)

lemma splitShellSegments_total: "sum_list (map length (splitShellSegments s)) \<le> length s"
  using scanned_scan [of scanner_init s]
  by (simp add: splitShellSegments_def scanned_def scanner_init_def)

lemma splitShellSegments_length: "x \<in> set (splitShellSegments s) \<Longrightarrow> length x \<le> length s"
  using splitShellSegments_total [of s] member_le_sum_list [of "length x" "map length (splitShellSegments s)"]
  by simp

section \<open>Payloads are shorter than their command\<close>

lemma payload_after_c_bound:
  "payload_after_c args \<noteq> [] \<Longrightarrow> length (payload_after_c args) + 3 \<le> fields_cost args"
proof (induction args)
  case (Cons arg args)
  show ?case
  proof (cases "arg = ''-c'' \<or> arg = ''--command''")
    case True
    then have "2 \<le> length arg" by auto
    moreover have "args \<noteq> []" using True Cons.prems by auto
    then have "1 \<le> fields_cost args" by (cases args) auto
    ultimately show ?thesis using True length_join_space [of "CHR '' ''" args] by auto
  next
    case False
    then show ?thesis using Cons by simp
  qed
qed simp

lemma fields_cost_drop: "fields_cost (drop n xs) \<le> fields_cost xs"
  by (induction xs arbitrary: n) (auto simp: drop_Cons split: nat.splits intro: le_SucI trans_le_add2)

lemma shellDashCPayload_shorter:
  assumes "shellDashCPayload p (str_fields seg) \<noteq> []"
  shows "length (shellDashCPayload p (str_fields seg)) < length seg"
proof -
  from assms obtain n where
    p: "shellDashCPayload p (str_fields seg) = payload_after_c (drop n (str_fields seg))"
    unfolding shellDashCPayload_def by (auto split: option.splits if_splits)
  with assms have "length (shellDashCPayload p (str_fields seg)) + 3 \<le> fields_cost (drop n (str_fields seg))"
    using payload_after_c_bound by simp
  also have "\<dots> \<le> Suc (length seg)"
    using fields_cost_drop fields_cost_le by (rule le_trans)
  finally show ?thesis by simp
qed

section \<open>DetectInteractiveCommand\<close>

text \<open>The first segment that answers, as the code's loops return.\<close>

fun first_some :: "('a \<Rightarrow> 'b option) \<Rightarrow> 'a list \<Rightarrow> 'b option" where
  "first_some f [] = None"
| "first_some f (x # xs) = (case f x of Some y \<Rightarrow> Some y | None \<Rightarrow> first_some f xs)"

lemma first_some_cong [fundef_cong]:
  "xs = ys \<Longrightarrow> (\<And>x. x \<in> set ys \<Longrightarrow> f x = g x) \<Longrightarrow> first_some f xs = first_some g ys"
  by (induction xs arbitrary: ys) (auto split: option.splits)

lemma first_some_None: "first_some f xs = None \<longleftrightarrow> (\<forall>x \<in> set xs. f x = None)"
  by (induction xs) (auto split: option.splits)

lemma first_some_Some: "first_some f xs = Some y \<Longrightarrow> \<exists>x \<in> set xs. f x = Some y"
  by (induction xs) (auto split: option.splits)

definition interactive_segment :: "string \<Rightarrow> string \<Rightarrow> InteractiveCommandResult option" where
  "interactive_segment goos segment =
     (let body = to_lower (commandBody (str_fields segment))
      in first_some (\<lambda>seg.
           if body = is_match seg \<or> has_prefix body (is_match seg @ '' '') then
             Some \<lparr>Interactive = True, icr_command = is_command seg, icr_reason = is_reason seg,
                   icr_suggestion = (if goos = ''windows'' \<and> is_windowsSuggestion seg \<noteq> []
                                     then is_windowsSuggestion seg else is_suggestion seg)\<rparr>
           else None) interactiveSegments)"

definition interactive_program :: "string \<Rightarrow> string \<Rightarrow> string list \<Rightarrow> InteractiveCommandResult option" where
  "interactive_program goos first fs =
     (case map_of interactivePrograms first of
        None \<Rightarrow> None
      | Some program \<Rightarrow>
          if ip_windowsOnly program \<and> goos \<noteq> ''windows'' then None
          else if hasNonInteractiveFlag first fs then None
          else Some \<lparr>Interactive = True, icr_command = first, icr_reason = ip_reason program,
                     icr_suggestion = (if goos = ''windows'' \<and> ip_windowsSuggestion program \<noteq> []
                                       then ip_windowsSuggestion program else ip_suggestion program)\<rparr>)"

function DetectInteractiveCommand :: "string \<Rightarrow> string \<Rightarrow> InteractiveCommandResult" where
  "DetectInteractiveCommand goos command =
     (let command = trim_space command
      in if command = [] then no_interactive
         else (let segs = splitShellSegments (normalize_whitespace command)
               in (case first_some (interactive_segment goos) segs of
                     Some r \<Rightarrow> r
                   | None \<Rightarrow>
                       (case first_some (\<lambda>segment.
                           (let fs = str_fields segment; first = firstProgram fs
                            in if first = [] then None
                               else (let payload = shellDashCPayload first fs
                                     in if payload \<noteq> [] then
                                          (let inner = DetectInteractiveCommand goos payload
                                           in if Interactive inner then Some inner else None)
                                        else interactive_program goos first fs))) segs of
                          Some r \<Rightarrow> r
                        | None \<Rightarrow> no_interactive))))"
  by pat_completeness auto
termination
proof (relation "measure (\<lambda>(_, command). length command)")
  fix goos command c segs seg fs first payload
  assume a: "(c::string) = trim_space command" "c \<noteq> []" "segs = splitShellSegments (normalize_whitespace c)"
    "seg \<in> set segs" "fs = str_fields seg" "payload = shellDashCPayload first fs" "payload \<noteq> []"
  have "length payload < length seg" using a(5-7) shellDashCPayload_shorter by simp
  also have "\<dots> \<le> length (normalize_whitespace c)" using a(3,4) splitShellSegments_length by simp
  also have "\<dots> \<le> length command"
    unfolding a(1) normalize_whitespace_def by (meson le_trans length_join_fields trim_space_length)
  finally show "((goos, payload), goos, command) \<in> measure (\<lambda>(_, command). length command)" by simp
qed simp

declare DetectInteractiveCommand.simps [simp del]

end
