(* ===== verification/Analyzer.thy ===== *)
theory Analyzer
  imports Safe_Command
begin

text \<open>
  The tree-based command analysis: \<open>internal/sandbox/analyzer.go\<close>.  The shell parser
  (\<open>mvdan.cc/sh\<close>) is not part of the repository: it is the parameter \<open>parse\<close>, which gives the
  argument lists of the call expressions of a script in the order \<open>syntax.Walk\<close> visits them, or
  \<open>None\<close> for a script it rejects.  The nesting bound of \<open>sh -c\<close> payloads is the source's own.
\<close>

section \<open>Words\<close>

datatype word_part =
  Lit string
| SglQuoted string
| DblQuoted "string option list"
| Expansion

type_synonym shell_word = "word_part list"
type_synonym shell_parser = "string \<Rightarrow> shell_word list list option"

text \<open>Inside double quotes a literal is \<open>Some\<close> text, an expansion is \<open>None\<close>.\<close>

fun part_text :: "word_part \<Rightarrow> string" where
  "part_text (Lit s) = s"
| "part_text (SglQuoted s) = s"
| "part_text (DblQuoted inner) = List.concat (List.map_filter id inner)"
| "part_text Expansion = []"

definition wordText :: "shell_word \<Rightarrow> string" where
  "wordText word = List.concat (List.map part_text word)"

definition literalWordTexts :: "shell_word list \<Rightarrow> string list" where
  "literalWordTexts args = List.map (\<lambda>arg. to_lower (trim_space (wordText arg))) args"

section \<open>Programs and flags\<close>

definition destructivePrograms :: "string list" where
  "destructivePrograms = [''mkfs'', ''fdisk'', ''shred'', ''dd'', ''parted'']"

definition networkPrograms :: "string list" where
  "networkPrograms = [''curl'', ''wget'', ''ssh'', ''scp'', ''sftp'', ''rsync'', ''nc'', ''ncat'',
     ''netcat'', ''telnet'', ''ftp'']"

definition localServerPrograms :: "string list" where
  "localServerPrograms = [''http-server'', ''serve'', ''vite'', ''next'', ''nuxt'', ''astro'']"

definition shellPrograms :: "string list" where
  "shellPrograms = [''sh'', ''bash'', ''zsh'', ''ksh'', ''dash'']"

definition maxAnalyzerDepth :: nat where
  "maxAnalyzerDepth = 4"

text \<open>The program behind its wrappers; \<open>None\<close> is the empty program name.\<close>

function effectiveProgram_from :: "string \<Rightarrow> shell_word list \<Rightarrow> (string \<times> shell_word list) option" where
  "effectiveProgram_from wrapper [] = None"
| "effectiveProgram_from wrapper (arg # args) =
     (let text = wordText arg
      in if text = [] then (if wrapper = [] then None else effectiveProgram_from wrapper args)
         else if contains text ''='' \<and> \<not> has_prefix text ''='' then effectiveProgram_from wrapper args
         else if has_prefix text ''-'' then
           (if wrapperConsumesValue wrapper text \<and> args \<noteq> []
            then effectiveProgram_from wrapper (tl args) else effectiveProgram_from wrapper args)
         else if isNumericToken text then effectiveProgram_from wrapper args
         else (let token = normalizeProgramToken text
               in if token \<in> set wrapperPrograms then effectiveProgram_from token args
                  else if token = [] then None else Some (token, args)))"
  by pat_completeness auto
termination by (relation "measure (\<lambda>(w, args). length args)") auto

definition effectiveProgram :: "shell_word list \<Rightarrow> (string \<times> shell_word list) option" where
  "effectiveProgram args = effectiveProgram_from [] args"

fun dashCPayload :: "shell_word list \<Rightarrow> string" where
  "dashCPayload [] = []"
| "dashCPayload (arg # args) =
     (if wordText arg = ''-c'' \<and> args \<noteq> [] then wordText (hd args) else dashCPayload args)"

fun repl_suppressed_by :: "string list \<Rightarrow> shell_word list \<Rightarrow> bool" where
  "repl_suppressed_by flags [] = False"
| "repl_suppressed_by flags (arg # args) =
     (let text = wordText arg
      in if text = [] then repl_suppressed_by flags args
         else if list_ex (\<lambda>flag. text = flag \<or> has_prefix text (flag @ ''='')) flags then True
         else if \<not> has_prefix text ''-'' then True
         else repl_suppressed_by flags args)"

definition replSuppressed :: "string \<Rightarrow> shell_word list \<Rightarrow> bool" where
  "replSuppressed prog args =
     (case map_of nonInteractiveREPLFlags prog of
        None \<Rightarrow> False
      | Some flags \<Rightarrow> repl_suppressed_by flags args)"

fun recursive_force_from :: "bool \<Rightarrow> bool \<Rightarrow> shell_word list \<Rightarrow> bool" where
  "recursive_force_from recursive force [] = (recursive \<and> force)"
| "recursive_force_from recursive force (arg # args) =
     (let text = wordText arg
      in if text = ''--'' then recursive \<and> force
         else if text = ''--recursive'' then recursive_force_from True force args
         else if text = ''--force'' then recursive_force_from recursive True args
         else if has_prefix text ''--'' then recursive_force_from recursive force args
         else if has_prefix text ''-'' then
           recursive_force_from (recursive \<or> list_ex (\<lambda>c. c = CHR ''r'' \<or> c = CHR ''R'') (tl text))
             (force \<or> list_ex (\<lambda>c. c = CHR ''f'') (tl text)) args
         else recursive_force_from recursive force args)"

definition hasRecursiveForce :: "shell_word list \<Rightarrow> bool" where
  "hasRecursiveForce args = recursive_force_from False False args"

definition hasFindDelete :: "shell_word list \<Rightarrow> bool" where
  "hasFindDelete args = list_ex (\<lambda>arg. wordText arg = ''-delete'') args"

section \<open>Network subcommands\<close>

fun firstSubcommand :: "(string \<times> string) list \<Rightarrow> string list \<Rightarrow> string" where
  "firstSubcommand aliases [] = []"
| "firstSubcommand aliases (w # ws) =
     (if w = [] \<or> has_prefix w ''-'' \<or> isNumericToken w then firstSubcommand aliases ws
      else (case map_of aliases w of Some alias \<Rightarrow> alias | None \<Rightarrow> w))"

fun secondSubcommand_from :: "bool \<Rightarrow> string list \<Rightarrow> string" where
  "secondSubcommand_from firstSeen [] = []"
| "secondSubcommand_from firstSeen (w # ws) =
     (if w = [] \<or> has_prefix w ''-'' then secondSubcommand_from firstSeen ws
      else if \<not> firstSeen then secondSubcommand_from True ws
      else w)"

definition secondSubcommand :: "string list \<Rightarrow> string" where
  "secondSubcommand ws = secondSubcommand_from False ws"

fun exec_target :: "string list \<Rightarrow> bool" where
  "exec_target [] = False"
| "exec_target (w # ws) =
     (if w = [] \<or> has_prefix w ''-'' \<or> isNumericToken w then exec_target ws
      else if w \<in> {''exec'', ''x'', ''dlx''} then exec_target ws
      else w \<in> set localServerPrograms)"

definition packageManagerUsesNetwork :: "(string \<times> string) list \<Rightarrow> string list \<Rightarrow> bool" where
  "packageManagerUsesNetwork aliases ws =
     (let first = firstSubcommand aliases ws
      in if first \<in> {''install'', ''add'', ''publish'', ''login''} then True
         else if first \<in> {''start'', ''serve'', ''dev'', ''preview''} then True
         else if first = ''run'' then secondSubcommand ws \<in> {''start'', ''serve'', ''dev'', ''preview''}
         else if first = ''exec'' then exec_target ws
         else False)"

definition npxUsesNetwork :: "string list \<Rightarrow> bool" where
  "npxUsesNetwork ws = True"

fun pythonModuleUsesNetwork :: "string list \<Rightarrow> bool" where
  "pythonModuleUsesNetwork [] = False"
| "pythonModuleUsesNetwork (w # ws) =
     (if w \<noteq> ''-m'' \<or> ws = [] then pythonModuleUsesNetwork ws
      else if hd ws = ''http.server'' then True
      else if hd ws = ''pip'' \<and> firstSubcommand [] (tl ws) = ''install'' then True
      else pythonModuleUsesNetwork ws)"

definition ghUsesNetwork :: "string list \<Rightarrow> bool" where
  "ghUsesNetwork ws =
     (let first = firstSubcommand [] ws
      in if first = ''api'' then True
         else (let second = secondSubcommand ws
               in (first = ''release'' \<and> second = ''download'') \<or> (first = ''repo'' \<and> second = ''clone'')))"

definition commandUsesNetwork :: "string \<Rightarrow> shell_word list \<Rightarrow> bool" where
  "commandUsesNetwork prog args =
     (if prog \<in> set networkPrograms then True
      else (let ws = literalWordTexts args
            in if prog \<in> set localServerPrograms then True
               else if prog \<in> {''python'', ''python2'', ''python3'', ''py''} then pythonModuleUsesNetwork ws
               else if prog = ''npm''
                 then packageManagerUsesNetwork [(''run'', ''run''), (''exec'', ''exec''), (''x'', ''exec'')] ws
               else if prog = ''pnpm''
                 then packageManagerUsesNetwork [(''run'', ''run''), (''exec'', ''exec''), (''dlx'', ''exec'')] ws
               else if prog = ''yarn''
                 then packageManagerUsesNetwork [(''run'', ''run''), (''exec'', ''exec''), (''dlx'', ''exec'')] ws
               else if prog = ''bun''
                 then packageManagerUsesNetwork [(''run'', ''run''), (''x'', ''exec'')] ws
               else if prog = ''npx'' then npxUsesNetwork ws
               else if prog \<in> {''pip'', ''pip2'', ''pip3''} then firstSubcommand [] ws = ''install''
               else if prog = ''go'' then firstSubcommand [] ws = ''get''
               else if prog = ''git'' then firstSubcommand [] ws = ''clone''
               else if prog = ''gh'' then ghUsesNetwork ws
               else False))"

section \<open>The walk\<close>

record AnalysisResult =
  ar_interactive :: bool
  ar_destructive :: bool
  ar_network :: bool
  TooComplex :: bool
  Programs :: "string list"

definition no_analysis :: AnalysisResult where
  "no_analysis = \<lparr>ar_interactive = False, ar_destructive = False, ar_network = False,
     TooComplex = False, Programs = []\<rparr>"

text \<open>What one call sets, by itself.\<close>

definition call_interactive :: "string \<Rightarrow> shell_word list \<Rightarrow> bool" where
  "call_interactive prog rest \<longleftrightarrow> map_of interactivePrograms prog \<noteq> None \<and> \<not> replSuppressed prog rest"

definition call_destructive :: "string \<Rightarrow> shell_word list \<Rightarrow> bool" where
  "call_destructive prog rest \<longleftrightarrow> prog \<in> set destructivePrograms \<or>
     (prog = ''rm'' \<and> hasRecursiveForce rest) \<or> (prog = ''find'' \<and> hasFindDelete rest)"

text \<open>
  The callback of the walk.  The program list and the \<open>seen\<close> map always hold the same names.
  \<open>recurse\<close> is the analysis of a payload, or does nothing at the depth bound.
\<close>

definition analyze_call ::
    "(string \<Rightarrow> AnalysisResult \<Rightarrow> AnalysisResult) \<Rightarrow> shell_word list \<Rightarrow> AnalysisResult \<Rightarrow> AnalysisResult" where
  "analyze_call recurse args result =
     (if args = [] then result
      else (case effectiveProgram args of
              None \<Rightarrow> result
            | Some (prog, rest) \<Rightarrow>
                (let result = (if prog \<in> set (Programs result) then result
                               else result\<lparr>Programs := Programs result @ [prog]\<rparr>);
                     payload = dashCPayload rest;
                     result = (if prog \<in> set shellPrograms \<and> payload \<noteq> [] then recurse payload result
                               else result);
                     result = (if call_interactive prog rest then result\<lparr>ar_interactive := True\<rparr> else result);
                     result = (if commandUsesNetwork prog rest then result\<lparr>ar_network := True\<rparr> else result)
                 in if call_destructive prog rest then result\<lparr>ar_destructive := True\<rparr> else result)))"

definition analyze_script ::
    "shell_parser \<Rightarrow> (string \<Rightarrow> AnalysisResult \<Rightarrow> AnalysisResult) \<Rightarrow> string \<Rightarrow> AnalysisResult \<Rightarrow> AnalysisResult" where
  "analyze_script parse recurse script result =
     (case parse script of
        None \<Rightarrow> result\<lparr>TooComplex := True\<rparr>
      | Some calls \<Rightarrow> foldl (\<lambda>r args. analyze_call recurse args r) result calls)"

text \<open>The first argument counts the remaining depth, \<open>maxAnalyzerDepth - depth\<close>.\<close>

primrec analyzeInto :: "nat \<Rightarrow> shell_parser \<Rightarrow> string \<Rightarrow> AnalysisResult \<Rightarrow> AnalysisResult" where
  "analyzeInto 0 parse = analyze_script parse (\<lambda>payload result. result)"
| "analyzeInto (Suc left) parse = analyze_script parse (analyzeInto left parse)"

definition AnalyzeCommand :: "shell_parser \<Rightarrow> string \<Rightarrow> AnalysisResult" where
  "AnalyzeCommand parse script =
     (if trim_space script = [] then no_analysis
      else analyzeInto maxAnalyzerDepth parse script no_analysis)"

section \<open>What the analysis reports\<close>

text \<open>The scripts the analysis looks into: the script and its \<open>sh -c\<close> payloads, to the bound.\<close>

inductive payload_at :: "shell_parser \<Rightarrow> string \<Rightarrow> nat \<Rightarrow> string \<Rightarrow> bool" for parse where
  here: "payload_at parse script left script"
| nested: "parse script = Some calls \<Longrightarrow> args \<in> set calls \<Longrightarrow>
    effectiveProgram args = Some (prog, rest) \<Longrightarrow> prog \<in> set shellPrograms \<Longrightarrow>
    dashCPayload rest \<noteq> [] \<Longrightarrow> payload_at parse (dashCPayload rest) left inner \<Longrightarrow>
    payload_at parse script (Suc left) inner"

text \<open>The calls it looks at: a program and its arguments.\<close>

definition runs :: "shell_parser \<Rightarrow> nat \<Rightarrow> string \<Rightarrow> string \<Rightarrow> shell_word list \<Rightarrow> bool" where
  "runs parse left script prog rest \<longleftrightarrow>
     (\<exists>inner calls args. payload_at parse script left inner \<and> parse inner = Some calls \<and>
        args \<in> set calls \<and> effectiveProgram args = Some (prog, rest))"

lemma effectiveProgram_Nil [simp]: "effectiveProgram [] = None"
  by (simp add: effectiveProgram_def)

inductive_simps payload_at_0: "payload_at parse script 0 inner"
inductive_simps payload_at_Suc: "payload_at parse script (Suc left) inner"

definition sub_payload :: "shell_word list \<Rightarrow> string option" where
  "sub_payload args =
     (case effectiveProgram args of
        None \<Rightarrow> None
      | Some (prog, rest) \<Rightarrow>
          if prog \<in> set shellPrograms \<and> dashCPayload rest \<noteq> [] then Some (dashCPayload rest) else None)"

lemma sub_payload_Some: "sub_payload args = Some p \<longleftrightarrow>
    (\<exists>prog rest. effectiveProgram args = Some (prog, rest) \<and> prog \<in> set shellPrograms \<and>
       dashCPayload rest \<noteq> [] \<and> p = dashCPayload rest)"
  by (auto simp: sub_payload_def split: option.splits if_splits prod.splits)

lemma payload_at_Suc_iff: "payload_at parse script (Suc left) inner \<longleftrightarrow> inner = script \<or>
    (\<exists>calls args p. parse script = Some calls \<and> args \<in> set calls \<and> sub_payload args = Some p \<and>
       payload_at parse p left inner)"
  unfolding payload_at_Suc sub_payload_Some by blast

lemma runs_0: "runs parse 0 script prog rest \<longleftrightarrow>
    (\<exists>calls args. parse script = Some calls \<and> args \<in> set calls \<and> effectiveProgram args = Some (prog, rest))"
  by (auto simp: runs_def payload_at_0)

lemma runs_Suc: "runs parse (Suc left) script prog rest \<longleftrightarrow>
    (\<exists>calls args. parse script = Some calls \<and> args \<in> set calls \<and>
       (effectiveProgram args = Some (prog, rest) \<or>
        (\<exists>p. sub_payload args = Some p \<and> runs parse left p prog rest)))"
  unfolding runs_def payload_at_Suc_iff by blast

definition fails :: "shell_parser \<Rightarrow> nat \<Rightarrow> string \<Rightarrow> bool" where
  "fails parse left script \<longleftrightarrow> (\<exists>inner. payload_at parse script left inner \<and> parse inner = None)"

lemma fails_0: "fails parse 0 script \<longleftrightarrow> parse script = None"
  by (auto simp: fails_def payload_at_0)

lemma fails_Suc: "fails parse (Suc left) script \<longleftrightarrow> parse script = None \<or>
    (\<exists>calls args p. parse script = Some calls \<and> args \<in> set calls \<and> sub_payload args = Some p \<and>
       fails parse left p)"
  unfolding fails_def payload_at_Suc_iff by blast

text \<open>
  A flag of the result: each call sets it by its own predicate \<open>P\<close>, a rejected script sets it
  when \<open>F\<close>.
\<close>

locale analysis_flag =
  fixes sel :: "AnalysisResult \<Rightarrow> bool" and P :: "string \<Rightarrow> shell_word list \<Rightarrow> bool" and F :: bool
  assumes call: "(\<And>p r. sel (recurse p r) = (sel r \<or> Q p)) \<Longrightarrow>
      effectiveProgram args = Some (prog, rest) \<Longrightarrow>
      sel (analyze_call recurse args r) = (sel r \<or> P prog rest \<or>
        (\<exists>p. sub_payload args = Some p \<and> Q p))"
    and rejected: "sel (r\<lparr>TooComplex := True\<rparr>) = (sel r \<or> F)"
begin

definition call_flag :: "(string \<Rightarrow> bool) \<Rightarrow> shell_word list \<Rightarrow> bool" where
  "call_flag Q args \<longleftrightarrow> (\<exists>prog rest. effectiveProgram args = Some (prog, rest) \<and> P prog rest) \<or>
     (\<exists>p. sub_payload args = Some p \<and> Q p)"

lemma sub_None: "effectiveProgram args = None \<Longrightarrow> sub_payload args = None"
  by (simp add: sub_payload_def)

lemma call_None: "effectiveProgram args = None \<Longrightarrow> analyze_call recurse args r = r"
  by (simp add: analyze_call_def)

lemma call_iff:
  assumes "\<And>p r. sel (recurse p r) = (sel r \<or> Q p)"
  shows "sel (analyze_call recurse args r) = (sel r \<or> call_flag Q args)"
  using call [OF assms] by (cases "effectiveProgram args") (auto simp: call_None sub_None call_flag_def)

lemma calls_iff:
  assumes "\<And>p r. sel (recurse p r) = (sel r \<or> Q p)"
  shows "sel (foldl (\<lambda>r args. analyze_call recurse args r) r calls) \<longleftrightarrow>
    sel r \<or> (\<exists>args \<in> set calls. call_flag Q args)"
  by (induction calls arbitrary: r) (auto simp: call_iff [OF assms])

definition reported :: "shell_parser \<Rightarrow> nat \<Rightarrow> string \<Rightarrow> bool" where
  "reported parse left script \<longleftrightarrow>
     (\<exists>prog rest. runs parse left script prog rest \<and> P prog rest) \<or>
     (F \<and> fails parse left script)"

lemma reported_0: "reported parse 0 script \<longleftrightarrow>
    (case parse script of None \<Rightarrow> F | Some calls \<Rightarrow> \<exists>args \<in> set calls. call_flag (\<lambda>_. False) args)"
  unfolding reported_def runs_0 fails_0 call_flag_def by (cases "parse script") (simp_all, blast)

lemma reported_Suc: "reported parse (Suc left) script \<longleftrightarrow>
    (case parse script of None \<Rightarrow> F | Some calls \<Rightarrow> \<exists>args \<in> set calls. call_flag (reported parse left) args)"
  unfolding reported_def runs_Suc fails_Suc call_flag_def
  by (cases "parse script") (simp_all, blast)

theorem analyzeInto_iff: "sel (analyzeInto left parse script r) \<longleftrightarrow> sel r \<or> reported parse left script"
proof (induction left arbitrary: script r)
  case 0
  have "sel (foldl (\<lambda>r args. analyze_call (\<lambda>p r. r) args r) r calls) \<longleftrightarrow>
      sel r \<or> (\<exists>args \<in> set calls. call_flag (\<lambda>_. False) args)" for r calls
    by (rule calls_iff) simp
  then show ?case by (simp add: analyze_script_def reported_0 rejected split: option.split)
next
  case (Suc left)
  have "sel (foldl (\<lambda>r args. analyze_call (analyzeInto left parse) args r) r calls) \<longleftrightarrow>
      sel r \<or> (\<exists>args \<in> set calls. call_flag (reported parse left) args)" for r calls
    by (rule calls_iff) (rule Suc)
  then show ?case by (simp add: analyze_script_def reported_Suc rejected split: option.split)
qed

end

interpretation interactive: analysis_flag ar_interactive call_interactive False
  by unfold_locales (auto simp: analyze_call_def sub_payload_def Let_def split: if_splits)

interpretation destructive: analysis_flag ar_destructive call_destructive False
  by unfold_locales (auto simp: analyze_call_def sub_payload_def Let_def split: if_splits)

interpretation network: analysis_flag ar_network commandUsesNetwork False
  by unfold_locales (auto simp: analyze_call_def sub_payload_def Let_def split: if_splits)

interpretation too_complex: analysis_flag TooComplex "\<lambda>_ _. False" True
  by unfold_locales (auto simp: analyze_call_def sub_payload_def Let_def split: if_splits)

lemmas analysis_iff = interactive.analyzeInto_iff destructive.analyzeInto_iff
  network.analyzeInto_iff too_complex.analyzeInto_iff

text \<open>The verdict of \<open>rm\<close> does not depend on how its flags are bundled or ordered.\<close>

definition rm_flag :: "char list \<Rightarrow> shell_word \<Rightarrow> bool" where
  "rm_flag cs w \<longleftrightarrow> \<not> has_prefix (wordText w) ''--'' \<and> has_prefix (wordText w) ''-'' \<and>
     list_ex (\<lambda>c. c \<in> set cs) (tl (wordText w))"

lemma recursive_force_from_iff:
  "''--'' \<notin> set (List.map wordText args) \<Longrightarrow>
   recursive_force_from r f args \<longleftrightarrow>
     (r \<or> (\<exists>w \<in> set args. wordText w = ''--recursive'' \<or> rm_flag ''rR'' w)) \<and>
     (f \<or> (\<exists>w \<in> set args. wordText w = ''--force'' \<or> rm_flag ''f'' w))"
  by (induction r f args rule: recursive_force_from.induct)
    (auto simp: Let_def rm_flag_def list_ex_iff)

text \<open>The arguments after the options end are file names.\<close>

lemma recursive_force_from_end:
  "recursive_force_from r f (as @ [Lit ''--''] # bs) = recursive_force_from r f (as @ [[Lit ''--'']])"
  by (induction r f as rule: recursive_force_from.induct)
    (auto simp: Let_def wordText_def)

end
