(* ===== verification/Go_Path.thy ===== *)
theory Go_Path
  imports Prelude
begin

text \<open>
  Go's package \<open>path/filepath\<close> on a POSIX system (separator \<open>/\<close>, no volume names), on byte
  strings, and its meaning on lists of path components.  \<open>path_of\<close> and \<open>comps\<close> go between
  clean absolute paths and component lists; the lemmas reduce \<open>Rel\<close> and the workspace test
  built on it to a prefix test on components.
\<close>

abbreviation (input) slash :: char where "slash \<equiv> CHR ''/''"

section \<open>Operations\<close>

text \<open>The component loop of \<open>filepath.Clean\<close>, with the output as a stack.\<close>

fun clean_comps :: "bool \<Rightarrow> string list \<Rightarrow> string list \<Rightarrow> string list" where
  "clean_comps rooted st [] = rev st"
| "clean_comps rooted st (c # cs) =
     (if c = [] \<or> c = ''.'' then clean_comps rooted st cs
      else if c = ''..'' then
        (if st \<noteq> [] \<and> hd st \<noteq> ''..'' then clean_comps rooted (tl st) cs
         else if rooted then clean_comps rooted st cs
         else clean_comps rooted (''..'' # st) cs)
      else clean_comps rooted (c # st) cs)"

definition is_abs :: "string \<Rightarrow> bool" where
  "is_abs p = has_prefix p ''/''"

definition path_of :: "string list \<Rightarrow> string" where
  "path_of cs = slash # join ''/'' cs"

definition comps :: "string \<Rightarrow> string list" where
  "comps p = clean_comps True [] (split_on slash p)"

definition clean :: "string \<Rightarrow> string" where
  "clean p =
     (if p = [] then ''.''
      else if is_abs p then path_of (comps p)
      else (let cs = clean_comps False [] (split_on slash p)
            in if cs = [] then ''.'' else join ''/'' cs))"

definition join_path :: "string list \<Rightarrow> string" where
  "join_path es = (let r = dropWhile (\<lambda>e. e = []) es in if r = [] then [] else clean (join ''/'' r))"

definition dir_of :: "string \<Rightarrow> string" where
  "dir_of p = clean (rev (dropWhile (\<lambda>c. c \<noteq> slash) (rev p)))"

definition abs_path :: "string \<Rightarrow> string \<Rightarrow> string" where
  "abs_path cwd p = (if is_abs p then clean p else join_path [cwd, p])"

fun strip_common :: "'a list \<Rightarrow> 'a list \<Rightarrow> 'a list \<times> 'a list" where
  "strip_common (x # xs) (y # ys) = (if x = y then strip_common xs ys else (x # xs, y # ys))"
| "strip_common xs ys = (xs, ys)"

definition path_elements :: "string \<Rightarrow> string list" where
  "path_elements p = (if p = [] then [] else if p = ''/'' then [[]] else split_on slash p)"

text \<open>\<open>filepath.Rel\<close>; \<open>None\<close> is its error.\<close>

definition rel :: "string \<Rightarrow> string \<Rightarrow> string option" where
  "rel base targ =
     (let b = clean base; t = clean targ
      in if b = t then Some ''.''
         else let b' = (if b = ''.'' then [] else b)
              in if is_abs b' \<noteq> is_abs t then None
                 else let (bs, ts) = strip_common (path_elements b') (path_elements t)
                      in if bs \<noteq> [] \<and> ts \<noteq> [] \<and> hd bs = ''..'' then None
                         else Some (join ''/'' (replicate (length bs) ''..'' @ ts)))"

section \<open>Clean components\<close>

definition good_comp :: "string \<Rightarrow> bool" where
  "good_comp c \<longleftrightarrow> c \<noteq> [] \<and> c \<noteq> ''.'' \<and> c \<noteq> ''..'' \<and> slash \<notin> set c"

lemma good_comps_clean: "list_all good_comp cs \<Longrightarrow> clean_comps r st cs = rev st @ cs"
  by (induction cs arbitrary: st) (auto simp: good_comp_def)

lemma clean_comps_good:
  "list_all good_comp st \<Longrightarrow> \<forall>c \<in> set cs. slash \<notin> set c \<Longrightarrow> list_all good_comp (clean_comps True st cs)"
proof (induction cs arbitrary: st)
  case Nil
  then show ?case by (simp add: list_all_iff)
next
  case (Cons c cs)
  have "list_all good_comp (tl st)" using Cons.prems(1) by (cases st) auto
  with Cons show ?case by (simp add: good_comp_def [of c])
qed

lemma comps_good [simp]: "list_all good_comp (comps p)"
  by (simp add: comps_def clean_comps_good split_on_parts)

lemma split_on_path_of:
  "list_all good_comp cs \<Longrightarrow> split_on slash (path_of cs) = [] # (if cs = [] then [[]] else cs)"
  by (auto simp: path_of_def list_all_iff good_comp_def intro: split_on_join)

lemma comps_path_of [simp]: "list_all good_comp cs \<Longrightarrow> comps (path_of cs) = cs"
  by (simp add: comps_def split_on_path_of good_comps_clean)

lemma is_abs_path_of [simp]: "is_abs (path_of cs)"
  by (simp add: is_abs_def path_of_def)

lemma clean_abs: "is_abs p \<Longrightarrow> clean p = path_of (comps p)"
  by (auto simp: clean_def is_abs_def)

lemma clean_path_of [simp]: "list_all good_comp cs \<Longrightarrow> clean (path_of cs) = path_of cs"
  by (simp add: clean_abs)

lemma path_of_inject: "list_all good_comp a \<Longrightarrow> list_all good_comp b \<Longrightarrow> path_of a = path_of b \<longleftrightarrow> a = b"
  by (metis comps_path_of)

lemma clean_comps_append:
  "clean_comps True st (as @ bs) = clean_comps True (rev (clean_comps True st as)) bs"
  by (induction as arbitrary: st) auto

lemma split_on_append: "split_on c (a @ c # b) = split_on c a @ split_on c b"
  by (induction a) (auto split: list.splits)

text \<open>Joining onto an absolute path walks on from its components.\<close>

lemma comps_append: "comps (a @ slash # b) = clean_comps True (rev (comps a)) (split_on slash b)"
  by (simp add: comps_def split_on_append clean_comps_append)

lemma is_abs_append: "is_abs a \<Longrightarrow> is_abs (a @ b)"
  by (cases a) (auto simp: is_abs_def)

lemma join_path_abs:
  assumes "is_abs a"
  shows "join_path [a, b] = path_of (clean_comps True (rev (comps a)) (split_on slash b))"
proof -
  have "a \<noteq> []" using assms by (auto simp: is_abs_def)
  then have "join_path [a, b] = clean (a @ slash # b)"
    by (simp add: join_path_def)
  also have "\<dots> = path_of (comps (a @ slash # b))"
    by (rule clean_abs) (rule is_abs_append [OF assms])
  finally show ?thesis by (simp add: comps_append)
qed

lemma join_path_comp:
  assumes "list_all good_comp cs" "good_comp c"
  shows "join_path [path_of cs, c] = path_of (cs @ [c])"
  using assms by (simp add: join_path_abs split_on_no_sep good_comp_def)

lemma join_path_is_abs: "is_abs a \<Longrightarrow> is_abs (join_path [a, b])"
  by (simp add: join_path_abs)

lemma abs_path_is_abs: "is_abs cwd \<Longrightarrow> is_abs (abs_path cwd p)"
  by (simp add: abs_path_def clean_abs join_path_is_abs)

lemma comps_abs_path:
  "is_abs cwd \<Longrightarrow> comps (abs_path cwd p) =
     (if is_abs p then comps p else clean_comps True (rev (comps cwd)) (split_on slash p))"
proof -
  assume cwd: "is_abs cwd"
  have "list_all good_comp (clean_comps True (rev (comps cwd)) (split_on slash p))"
    by (rule clean_comps_good) (auto simp: list_all_iff dest: split_on_parts comps_good [unfolded list_all_iff, rule_format])
  with cwd show ?thesis by (simp add: abs_path_def clean_abs join_path_abs)
qed

section \<open>Rel as a prefix test\<close>

lemma strip_common_append [simp]: "strip_common (xs @ as) (xs @ bs) = strip_common as bs"
  by (induction xs) auto

lemma strip_common_prefix: "fst (strip_common xs ys) = [] \<longleftrightarrow> has_prefix ys xs"
  by (induction xs ys rule: strip_common.induct) auto

lemma strip_common_rest: "has_prefix ys xs \<Longrightarrow> strip_common xs ys = ([], drop (length xs) ys)"
  by (induction xs ys rule: strip_common.induct) auto

lemma join_nonempty: "cs \<noteq> [] \<Longrightarrow> hd cs \<noteq> [] \<Longrightarrow> join sep cs \<noteq> []"
  by (cases cs rule: list.exhaust [case_names Nil Cons]) (auto simp: neq_Nil_conv join_Cons_head)

lemma path_elements_path_of: "list_all good_comp cs \<Longrightarrow> path_elements (path_of cs) = [] # cs"
proof (cases "cs = []")
  case True
  then show ?thesis by (simp add: path_elements_def path_of_def)
next
  case False
  assume good: "list_all good_comp cs"
  with False have "hd cs \<noteq> []" by (cases cs) (auto simp: good_comp_def)
  with False have "path_of cs \<noteq> ''/''" by (simp add: path_of_def join_nonempty)
  moreover have "path_of cs \<noteq> []" by (simp add: path_of_def)
  ultimately show ?thesis using good False by (simp add: path_elements_def split_on_path_of)
qed

lemma strip_common_set:
  "set (fst (strip_common xs ys)) \<subseteq> set xs \<and> set (snd (strip_common xs ys)) \<subseteq> set ys"
  by (induction xs ys rule: strip_common.induct) auto

lemma rel_path_of:
  assumes "list_all good_comp bs" "list_all good_comp ts"
  shows "rel (path_of bs) (path_of ts) =
    (if bs = ts then Some ''.''
     else Some (join ''/'' (replicate (length (fst (strip_common bs ts))) ''..'' @ snd (strip_common bs ts))))"
proof (cases "bs = ts")
  case True
  with assms show ?thesis by (simp add: rel_def)
next
  case False
  obtain as cs where sc: "strip_common bs ts = (as, cs)" by fastforce
  have "set as \<subseteq> set bs" using strip_common_set [of bs ts] sc by simp
  then have "as = [] \<or> hd as \<noteq> ''..''"
    using assms(1) by (metis good_comp_def hd_in_set in_mono list_all_iff)
  moreover have "path_of bs \<noteq> ''.''" by (simp add: path_of_def)
  ultimately show ?thesis
    using assms False sc by (auto simp: rel_def path_of_inject path_elements_path_of)
qed

text \<open>The escape test the program writes after each \<open>Rel\<close>.\<close>

definition rel_escapes :: "string \<Rightarrow> bool" where
  "rel_escapes r \<longleftrightarrow> r = ''..'' \<or> has_prefix r ''../'' \<or> is_abs r"

lemma split_on_join_head:
  assumes "slash \<notin> set c"
  shows "hd (split_on slash (join ''/'' (c # ds))) = c"
  using assms by (cases ds) (simp_all add: split_on_no_sep split_on_append_sep)

lemma join_slash_head:
  assumes "cs \<noteq> []" "good_comp (hd cs)"
  shows "\<not> rel_escapes (join ''/'' cs)" "join ''/'' cs \<noteq> ''.''"
proof -
  obtain c ds where cs: "cs = c # ds" using assms(1) by (cases cs) auto
  let ?j = "join ''/'' cs"
  have hd: "hd (split_on slash ?j) = c"
    using assms(2) cs by (simp add: split_on_join_head good_comp_def)
  have c: "c \<noteq> []" "c \<noteq> ''.''" "c \<noteq> ''..''" using assms(2) cs by (simp_all add: good_comp_def)
  have "?j \<noteq> ''..''"
  proof
    assume j: "?j = ''..''"
    have "c = hd (split_on slash ?j)" using hd by simp
    also have "\<dots> = ''..''" by (subst j) simp
    finally show False using c by simp
  qed
  moreover have "?j \<noteq> ''.''"
  proof
    assume j: "?j = ''.''"
    have "c = hd (split_on slash ?j)" using hd by simp
    also have "\<dots> = ''.''" by (subst j) simp
    finally show False using c by simp
  qed
  moreover have "\<not> has_prefix ?j ''../''"
  proof
    assume "has_prefix ?j ''../''"
    then obtain t where j: "?j = ''..'' @ slash # t" by (auto simp: has_prefix_iff)
    have "c = hd (split_on slash ?j)" using hd by simp
    also have "\<dots> = ''..''" by (subst j, subst split_on_append_sep) simp_all
    finally show False using c by simp
  qed
  moreover have "\<not> is_abs ?j"
  proof
    assume "is_abs ?j"
    then obtain t where "?j = slash # t" by (auto simp: is_abs_def has_prefix_iff)
    with hd c show False by simp
  qed
  ultimately show "\<not> rel_escapes ?j" "?j \<noteq> ''.''" by (simp_all add: rel_escapes_def)
qed

lemma join_dotdot: "n \<noteq> 0 \<Longrightarrow> rel_escapes (join ''/'' (replicate n ''..'' @ cs))"
  by (cases n; cases "replicate (n - 1) ''..'' @ cs") (auto simp: rel_escapes_def)

lemma rel_inside:
  assumes "list_all good_comp bs" "list_all good_comp ts"
  shows "(\<exists>r. rel (path_of bs) (path_of ts) = Some r \<and> \<not> rel_escapes r) \<longleftrightarrow> has_prefix ts bs"
proof (cases "bs = ts")
  case True
  with assms show ?thesis by (simp add: rel_path_of rel_escapes_def is_abs_def)
next
  case False
  show ?thesis
  proof (cases "has_prefix ts bs")
    case True
    then have sc: "strip_common bs ts = ([], drop (length bs) ts)" by (rule strip_common_rest)
    obtain ds where ds: "ts = bs @ ds" using True by (auto simp: has_prefix_iff)
    then have "ds \<noteq> []" "good_comp (hd ds)" using False assms by (auto simp: neq_Nil_conv)
    then show ?thesis
      using assms False True sc ds by (simp add: rel_path_of join_slash_head)
  next
    case nf: False
    then have "length (fst (strip_common bs ts)) \<noteq> 0" using strip_common_prefix by auto
    then show ?thesis using assms False nf join_dotdot by (simp add: rel_path_of)
  qed
qed

lemma rel_inside_value:
  assumes "list_all good_comp bs" "list_all good_comp ds"
  shows "rel (path_of bs) (path_of (bs @ ds)) = Some (if ds = [] then ''.'' else join ''/'' ds)"
  using assms by (simp add: rel_path_of strip_common_rest)

section \<open>pathWithinRoot\<close>

definition path_within_root :: "string \<Rightarrow> string \<Rightarrow> bool" where
  "path_within_root root candidate =
     (if root = [] then False
      else (case rel root candidate of
              None \<Rightarrow> False
            | Some r \<Rightarrow> r = ''.'' \<or> (r \<noteq> ''..'' \<and> \<not> has_prefix r ''../'' \<and> \<not> is_abs r)))"

lemma rel_clean: "rel base targ = rel (clean base) (clean targ)" if "is_abs base" "is_abs targ"
  using that by (simp add: rel_def clean_abs)

theorem path_within_root_iff:
  assumes "is_abs root" "is_abs p"
  shows "path_within_root root p \<longleftrightarrow> has_prefix (comps p) (comps root)"
proof -
  have "root \<noteq> []" using assms(1) by (auto simp: is_abs_def)
  have dot: "\<not> rel_escapes ''.''" by (simp add: rel_escapes_def is_abs_def)
  have "rel root p = rel (path_of (comps root)) (path_of (comps p))"
    using assms rel_clean [OF assms] by (simp add: clean_abs)
  then have "path_within_root root p \<longleftrightarrow>
      (\<exists>r. rel (path_of (comps root)) (path_of (comps p)) = Some r \<and> \<not> rel_escapes r)"
    using \<open>root \<noteq> []\<close> dot
    by (auto simp: path_within_root_def rel_escapes_def split: option.splits)
  then show ?thesis by (simp add: rel_inside)
qed

lemma path_within_root_refl: "is_abs p \<Longrightarrow> path_within_root p p"
  by (simp add: path_within_root_iff)

lemma path_within_root_trans:
  "is_abs a \<Longrightarrow> is_abs b \<Longrightarrow> is_abs c \<Longrightarrow> path_within_root a b \<Longrightarrow> path_within_root b c
    \<Longrightarrow> path_within_root a c"
  by (auto simp: path_within_root_iff intro: has_prefix_trans)

text \<open>A lexical \<open>..\<close> never leads an absolute path above the root.\<close>

lemma clean_abs_no_dotdot: "is_abs p \<Longrightarrow> ''..'' \<notin> set (comps (clean p))"
  using comps_good [of p] by (auto simp: clean_abs list_all_iff good_comp_def)

lemma clean_abs_idem: "is_abs p \<Longrightarrow> clean (clean p) = clean p"
  by (simp add: clean_abs)

end
