(* ===== verification/Go_FS.thy ===== *)
theory Go_FS
  imports Go_Path
begin

text \<open>
  The operating system as the sandbox sees it: \<open>os.Lstat\<close>, \<open>os.Stat\<close>,
  \<open>filepath.EvalSymlinks\<close> and \<open>filepath.Abs\<close> over a file system given as a map from
  component lists to directories, files and symbolic links.  \<open>walk\<close> is path resolution with
  a bound on the number of links followed (40 in the kernel, 255 in \<open>EvalSymlinks\<close>).
  Permissions and name-length limits are not modelled.
\<close>

datatype node = Directory | Regular | Link string
datatype fs_error = ENOENT | ENOTDIR | ELOOP

type_synonym fsys = "string list \<Rightarrow> node option"

record os =
  files :: fsys
  cwd :: string
  home :: "string option"
  env :: "string \<Rightarrow> string"

function walk :: "fsys \<Rightarrow> nat \<Rightarrow> string list \<Rightarrow> string list \<Rightarrow> fs_error + string list" where
  "walk fs n cur [] = Inr cur"
| "walk fs n cur (c # cs) =
     (if c = [] \<or> c = ''.'' then walk fs n cur cs
      else if c = ''..'' then walk fs n (butlast cur) cs
      else (case fs (cur @ [c]) of
              None \<Rightarrow> Inl ENOENT
            | Some Directory \<Rightarrow> walk fs n (cur @ [c]) cs
            | Some Regular \<Rightarrow> if cs = [] then Inr (cur @ [c]) else Inl ENOTDIR
            | Some (Link t) \<Rightarrow>
                (case n of
                   0 \<Rightarrow> Inl ELOOP
                 | Suc m \<Rightarrow> walk fs m (if is_abs t then [] else cur) (split_on slash t @ cs))))"
  by pat_completeness auto
termination by (relation "measures [\<lambda>(fs, n, cur, cs). n, \<lambda>(fs, n, cur, cs). length cs]") auto

declare walk.simps(2) [simp del]

definition kernel_links :: nat where "kernel_links = 40"
definition go_links :: nat where "go_links = 255"

definition node_at :: "fsys \<Rightarrow> string list \<Rightarrow> node option" where
  "node_at fs d = (if d = [] then Some Directory else fs d)"

text \<open>\<open>os.Lstat\<close> follows every link but the last component's.\<close>

definition lstat :: "os \<Rightarrow> string \<Rightarrow> fs_error + node" where
  "lstat os p =
     (let cs = comps p
      in if cs = [] then Inr Directory
         else (case walk (files os) kernel_links [] (butlast cs) of
                 Inl e \<Rightarrow> Inl e
               | Inr d \<Rightarrow> if node_at (files os) d \<noteq> Some Directory then Inl ENOTDIR
                         else (case files os (d @ [last cs]) of None \<Rightarrow> Inl ENOENT | Some nd \<Rightarrow> Inr nd)))"

definition eval_symlinks :: "os \<Rightarrow> string \<Rightarrow> fs_error + string" where
  "eval_symlinks os p = map_sum id path_of (walk (files os) go_links [] (comps p))"

definition stat_is_dir :: "os \<Rightarrow> string \<Rightarrow> fs_error + bool" where
  "stat_is_dir os p =
     map_sum id (\<lambda>d. node_at (files os) d = Some Directory) (walk (files os) kernel_links [] (comps p))"

definition abs_of :: "os \<Rightarrow> string \<Rightarrow> string" where
  "abs_of os p = abs_path (cwd os) p"

section \<open>Facts about resolution\<close>

lemma walk_step:
  "c = [] \<or> c = ''.'' \<Longrightarrow> walk fs n cur (c # cs) = walk fs n cur cs"
  "c = ''..'' \<Longrightarrow> walk fs n cur (c # cs) = walk fs n (butlast cur) cs"
  "c \<notin> {[], ''.'', ''..''} \<Longrightarrow> fs (cur @ [c]) = None \<Longrightarrow> walk fs n cur (c # cs) = Inl ENOENT"
  "c \<notin> {[], ''.'', ''..''} \<Longrightarrow> fs (cur @ [c]) = Some Directory \<Longrightarrow>
     walk fs n cur (c # cs) = walk fs n (cur @ [c]) cs"
  "c \<notin> {[], ''.'', ''..''} \<Longrightarrow> fs (cur @ [c]) = Some Regular \<Longrightarrow>
     walk fs n cur (c # cs) = (if cs = [] then Inr (cur @ [c]) else Inl ENOTDIR)"
  "c \<notin> {[], ''.'', ''..''} \<Longrightarrow> fs (cur @ [c]) = Some (Link t) \<Longrightarrow> walk fs 0 cur (c # cs) = Inl ELOOP"
  "c \<notin> {[], ''.'', ''..''} \<Longrightarrow> fs (cur @ [c]) = Some (Link t) \<Longrightarrow>
     walk fs (Suc m) cur (c # cs) = walk fs m (if is_abs t then [] else cur) (split_on slash t @ cs)"
  by (simp_all add: walk.simps(2))

text \<open>Computation induction with one case per outcome of a step.\<close>

lemma walk_induct [case_names Nil skip up missing dir reg loop link]:
  assumes "\<And>n cur. P n cur []"
    and "\<And>n cur c cs. c = [] \<or> c = ''.'' \<Longrightarrow> P n cur cs \<Longrightarrow> P n cur (c # cs)"
    and "\<And>n cur c cs. c = ''..'' \<Longrightarrow> P n (butlast cur) cs \<Longrightarrow> P n cur (c # cs)"
    and "\<And>n cur c cs. c \<notin> {[], ''.'', ''..''} \<Longrightarrow> fs (cur @ [c]) = None \<Longrightarrow> P n cur (c # cs)"
    and "\<And>n cur c cs. c \<notin> {[], ''.'', ''..''} \<Longrightarrow> fs (cur @ [c]) = Some Directory \<Longrightarrow>
           P n (cur @ [c]) cs \<Longrightarrow> P n cur (c # cs)"
    and "\<And>n cur c cs. c \<notin> {[], ''.'', ''..''} \<Longrightarrow> fs (cur @ [c]) = Some Regular \<Longrightarrow> P n cur (c # cs)"
    and "\<And>cur c cs t. c \<notin> {[], ''.'', ''..''} \<Longrightarrow> fs (cur @ [c]) = Some (Link t) \<Longrightarrow> P 0 cur (c # cs)"
    and "\<And>m cur c cs t. c \<notin> {[], ''.'', ''..''} \<Longrightarrow> fs (cur @ [c]) = Some (Link t) \<Longrightarrow>
           P m (if is_abs t then [] else cur) (split_on slash t @ cs) \<Longrightarrow> P (Suc m) cur (c # cs)"
  shows "P n cur cs"
proof -
  have "fs' = fs \<longrightarrow> P n cur cs" for fs'
  proof (induction fs' n cur cs rule: walk.induct)
    case (1 fs' n cur)
    then show ?case using assms(1) by simp
  next
    case (2 fs' n cur c cs)
    note Cons = 2
    show ?case
    proof
      assume fs': "fs' = fs"
      consider "c = [] \<or> c = ''.''" | "c = ''..''" | "c \<notin> {[], ''.'', ''..''}" by blast
      then show "P n cur (c # cs)"
      proof cases
        case 1
        then show ?thesis using assms(2) Cons(1) fs' by simp
      next
        case 2
        then show ?thesis using assms(3) Cons(2) fs' by simp
      next
        case 3
        show ?thesis
        proof (cases "fs (cur @ [c])")
          case None
          with 3 show ?thesis by (rule assms(4))
        next
          case (Some nd)
          show ?thesis
          proof (cases nd)
            case Directory
            then show ?thesis using 3 Some Cons(3) [of nd] fs' assms(5) by simp
          next
            case Regular
            then show ?thesis using 3 Some assms(6) by simp
          next
            case (Link t)
            show ?thesis
            proof (cases n)
              case 0
              then show ?thesis using 3 Some Link assms(7) by simp
            next
              case (Suc m)
              then show ?thesis using 3 Some Link Cons(4) [of nd t m] fs' assms(8) by simp
            qed
          qed
        qed
      qed
    qed
  qed
  then show ?thesis by simp
qed

lemma walk_more_links: "walk fs n cur cs = r \<Longrightarrow> r \<noteq> Inl ELOOP \<Longrightarrow> n \<le> n' \<Longrightarrow> walk fs n' cur cs = r"
proof (induction n cur cs arbitrary: n' rule: walk_induct [where fs = fs])
  case (loop cur c cs t)
  then show ?case by (simp add: walk_step)
next
  case (link m cur c cs t)
  then obtain m' where "n' = Suc m'" "m \<le> m'" by (cases n') auto
  with link show ?case by (simp add: walk_step)
qed (simp_all add: walk_step)

lemma walk_agree:
  assumes "walk fs n cur cs = Inr d" "walk fs m cur cs = Inr e"
  shows "d = e"
proof (cases "n \<le> m")
  case True
  then show ?thesis using walk_more_links [OF assms(1) _ True] assms(2) by simp
next
  case False
  then show ?thesis using walk_more_links [OF assms(2), of n] assms(1) by simp
qed

lemma walk_agree_error:
  assumes "walk fs n cur cs = Inr d" "walk fs m cur cs = Inl e"
  shows "e = ELOOP"
proof (rule ccontr)
  assume e: "e \<noteq> ELOOP"
  then show False
    using walk_more_links [OF assms(1), of m] walk_more_links [OF assms(2), of n] assms
    by (cases "n \<le> m") auto
qed

text \<open>Resolution of a concatenation stops over after the first part.\<close>

lemma walk_append:
  "walk fs n cur (as @ bs) = Inr d \<Longrightarrow>
     \<exists>m u. walk fs n cur as = Inr u \<and> walk fs m u bs = Inr d \<and> m \<le> n"
proof (induction n cur as arbitrary: d rule: walk_induct [where fs = fs])
  case (link m cur c cs t)
  then have "walk fs m (if is_abs t then [] else cur) ((split_on slash t @ cs) @ bs) = Inr d"
    by (simp add: walk_step)
  then obtain k u where "walk fs m (if is_abs t then [] else cur) (split_on slash t @ cs) = Inr u"
    "walk fs k u bs = Inr d" "k \<le> m"
    using link.IH by blast
  with link show ?case by (auto simp: walk_step intro!: exI [of _ k])
next
  case (reg n cur c cs)
  then show ?case by (auto simp: walk_step split: if_splits)
qed (auto simp: walk_step)

text \<open>The converse: a resolved directory prefix can be replaced by its real name.\<close>

definition real_dir :: "fsys \<Rightarrow> string list \<Rightarrow> bool" where
  "real_dir fs d \<longleftrightarrow> list_all good_comp d \<and> (\<forall>k < length d. fs (take (Suc k) d) = Some Directory)"

definition real_path :: "fsys \<Rightarrow> string list \<Rightarrow> bool" where
  "real_path fs d \<longleftrightarrow> real_dir fs d \<or>
     (d \<noteq> [] \<and> real_dir fs (butlast d) \<and> good_comp (last d) \<and> fs d = Some Regular)"

lemma real_dir_Nil [simp]: "real_dir fs []"
  by (simp add: real_dir_def)

lemma real_dir_snoc: "real_dir fs (d @ [c]) \<longleftrightarrow> real_dir fs d \<and> good_comp c \<and> fs (d @ [c]) = Some Directory"
  by (auto simp: real_dir_def less_Suc_eq)

lemma real_dir_butlast: "real_dir fs d \<Longrightarrow> real_dir fs (butlast d)"
  by (cases d rule: rev_cases) (auto simp: real_dir_snoc)

lemma real_path_good: "real_path fs d \<Longrightarrow> list_all good_comp d"
  by (cases d rule: rev_cases) (auto simp: real_path_def real_dir_def)

lemma node_at_real_dir: "real_dir fs d \<Longrightarrow> node_at fs d = Some Directory"
  by (cases d rule: rev_cases) (auto simp: real_dir_snoc node_at_def)

lemma walk_real_dir: "real_dir fs (cur @ d) \<Longrightarrow> walk fs n cur (d @ cs) = walk fs n (cur @ d) cs"
proof (induction d arbitrary: cur)
  case (Cons c d)
  then have all: "real_dir fs ((cur @ [c]) @ d)" by simp
  have "good_comp c" using all by (auto simp: real_dir_def)
  moreover have "\<forall>k < length ((cur @ [c]) @ d). fs (take (Suc k) ((cur @ [c]) @ d)) = Some Directory"
    using all unfolding real_dir_def by blast
  then have "fs (cur @ [c]) = Some Directory"
    by (auto dest!: spec [of _ "length cur"])
  ultimately have "walk fs n cur ((c # d) @ cs) = walk fs n (cur @ [c]) (d @ cs)"
    by (simp add: walk.simps(2) good_comp_def)
  with Cons.IH [OF all] show ?case by simp
qed simp

lemma walk_real_path: "real_path fs d \<Longrightarrow> walk fs n [] d = Inr d"
proof -
  assume rp: "real_path fs d"
  show ?thesis
  proof (cases "real_dir fs d")
    case True
    then show ?thesis using walk_real_dir [of fs "[]" d n "[]"] by simp
  next
    case False
    then obtain b c where d: "d = b @ [c]" "real_dir fs b" "good_comp c" "fs d = Some Regular"
      using rp by (cases d rule: rev_cases) (auto simp: real_path_def)
    then have "walk fs n [] (b @ [c]) = walk fs n b [c]"
      using walk_real_dir [of fs "[]" b n "[c]"] by simp
    with d show ?thesis by (simp add: walk.simps(2) good_comp_def)
  qed
qed

text \<open>What resolution returns is real: no component of it is a link.\<close>

lemma walk_real:
  "walk fs n cur cs = Inr d \<Longrightarrow> real_dir fs cur \<Longrightarrow> \<forall>c \<in> set cs. slash \<notin> set c \<Longrightarrow> real_path fs d"
proof (induction n cur cs rule: walk_induct [where fs = fs])
  case (link m cur c cs t)
  then have "\<forall>c \<in> set (split_on slash t @ cs). slash \<notin> set c"
    using link.prems(3) split_on_parts [of _ slash t] by auto
  moreover have "real_dir fs (if is_abs t then [] else cur)" using link.prems(2) by simp
  ultimately show ?case using link by (simp add: walk_step)
next
  case (dir n cur c cs)
  then show ?case by (simp add: walk_step real_dir_snoc good_comp_def)
next
  case (reg n cur c cs)
  then show ?case by (auto simp: walk_step real_path_def good_comp_def split: if_splits)
qed (auto simp: walk_step real_path_def real_dir_butlast)

lemma walk_comps_real: "walk fs n [] (comps p) = Inr d \<Longrightarrow> real_path fs d"
  by (rule walk_real [of fs n "[]" "comps p"])
    (auto simp: good_comp_def dest: comps_good [unfolded list_all_iff, rule_format])

text \<open>A file system whose entries hang off directories.\<close>

definition wf_fs :: "fsys \<Rightarrow> bool" where
  "wf_fs fs \<longleftrightarrow> (\<forall>b x. fs (b @ [x]) \<noteq> None \<longrightarrow> node_at fs b = Some Directory)"

text \<open>A resolution that goes on from \<open>u\<close> found a directory there.\<close>

lemma walk_step_dir:
  assumes "wf_fs fs" "real_path fs u" "good_comp c" "walk fs m u (c # bs) = Inr d"
  shows "real_dir fs u"
proof -
  have "fs (u @ [c]) \<noteq> None"
    using assms(3,4) by (auto simp: walk.simps(2) good_comp_def split: option.splits)
  then have "node_at fs u = Some Directory" using assms(1) by (auto simp: wf_fs_def)
  then show ?thesis using assms(2) by (auto simp: real_path_def node_at_def)
qed

lemma eval_symlinks_Inr:
  "eval_symlinks os p = Inr q \<longleftrightarrow> (\<exists>d. walk (files os) go_links [] (comps p) = Inr d \<and> q = path_of d)"
  by (cases "walk (files os) go_links [] (comps p)") (auto simp: eval_symlinks_def)

lemma eval_symlinks_real:
  "eval_symlinks os p = Inr q \<Longrightarrow> \<exists>d. real_path (files os) d \<and> q = path_of d \<and> comps q = d"
  using walk_comps_real real_path_good by (fastforce simp: eval_symlinks_Inr)

lemma eval_symlinks_abs: "eval_symlinks os p = Inr q \<Longrightarrow> is_abs q"
  by (auto simp: eval_symlinks_Inr)

text \<open>\<open>EvalSymlinks\<close> is idempotent.\<close>

lemma eval_symlinks_idem: "eval_symlinks os p = Inr q \<Longrightarrow> eval_symlinks os q = Inr q"
  using eval_symlinks_real walk_real_path by (fastforce simp: eval_symlinks_Inr)

text \<open>Building a finite file system from a list.\<close>

definition fs_of :: "(string \<times> node) list \<Rightarrow> fsys" where
  "fs_of xs = map_of (map (\<lambda>(p, nd). (comps p, nd)) xs)"

end
