(* ===== verification/Sandbox_Types.thy ===== *)
theory Sandbox_Types
  imports Prelude
begin

text \<open>
  The vocabulary of \<open>internal/sandbox\<close> (\<open>types.go\<close>, \<open>normalize.go\<close>): the string-typed
  enumerations as datatypes with their strings, the normalisation of what a caller supplies,
  and the policy, request, risk, block and decision structures.
\<close>

section \<open>Enumerations\<close>

datatype SideEffect =
    SideEffectRead | SideEffectWrite | SideEffectShell | SideEffectNetwork
  | SideEffectLocalControl | SideEffectLocalBrowser | SideEffectLocalDesktop
  | SideEffectLocalTerminal | SideEffectOutOfWorkspace | SideEffectNone

fun SideEffect_string :: "SideEffect \<Rightarrow> string" where
  "SideEffect_string SideEffectRead = ''read''"
| "SideEffect_string SideEffectWrite = ''write''"
| "SideEffect_string SideEffectShell = ''shell''"
| "SideEffect_string SideEffectNetwork = ''network''"
| "SideEffect_string SideEffectLocalControl = ''local_control''"
| "SideEffect_string SideEffectLocalBrowser = ''local_browser''"
| "SideEffect_string SideEffectLocalDesktop = ''local_desktop''"
| "SideEffect_string SideEffectLocalTerminal = ''local_terminal''"
| "SideEffect_string SideEffectOutOfWorkspace = ''out_of_workspace''"
| "SideEffect_string SideEffectNone = ''none''"

datatype Permission = PermissionAllow | PermissionPrompt | PermissionDeny

fun Permission_string :: "Permission \<Rightarrow> string" where
  "Permission_string PermissionAllow = ''allow''"
| "Permission_string PermissionPrompt = ''prompt''"
| "Permission_string PermissionDeny = ''deny''"

datatype PermissionMode =
    PermissionModeAuto | PermissionModeAsk | PermissionUnsafe | PermissionModeAskAll
  | PermissionModeReadOnly | PermissionModeReadWrite | PermissionModeBypassAll

fun PermissionMode_string :: "PermissionMode \<Rightarrow> string" where
  "PermissionMode_string PermissionModeAuto = ''auto''"
| "PermissionMode_string PermissionModeAsk = ''ask''"
| "PermissionMode_string PermissionUnsafe = ''unsafe''"
| "PermissionMode_string PermissionModeAskAll = ''ask-all''"
| "PermissionMode_string PermissionModeReadOnly = ''read-only''"
| "PermissionMode_string PermissionModeReadWrite = ''read-write''"
| "PermissionMode_string PermissionModeBypassAll = ''bypass-all''"

text \<open>\<open>ModeUnset\<close> is the empty string of a zero \<open>Policy\<close>; any other string enforces.\<close>

datatype PolicyMode = ModeUnset | ModeDisabled | ModeEnforce

datatype NetworkMode = NetworkDeny | NetworkAllow

fun NetworkMode_string :: "NetworkMode \<Rightarrow> string" where
  "NetworkMode_string NetworkDeny = ''deny''"
| "NetworkMode_string NetworkAllow = ''allow''"

datatype Action = ActionAllow | ActionPrompt | ActionDeny

datatype RiskLevel = RiskLow | RiskMedium | RiskHigh | RiskCritical

fun RiskLevel_string :: "RiskLevel \<Rightarrow> string" where
  "RiskLevel_string RiskLow = ''low''"
| "RiskLevel_string RiskMedium = ''medium''"
| "RiskLevel_string RiskHigh = ''high''"
| "RiskLevel_string RiskCritical = ''critical''"

datatype BlockCode =
    BlockContextCanceled | BlockDeniedPermission | BlockOutsideWorkspace | BlockSymlinkTraversal
  | BlockNetwork | BlockDestructiveCommand | BlockPersistentDeny | BlockDenied

fun BlockCode_string :: "BlockCode \<Rightarrow> string" where
  "BlockCode_string BlockContextCanceled = ''context_canceled''"
| "BlockCode_string BlockDeniedPermission = ''denied_permission''"
| "BlockCode_string BlockOutsideWorkspace = ''outside_workspace''"
| "BlockCode_string BlockSymlinkTraversal = ''symlink_traversal''"
| "BlockCode_string BlockNetwork = ''network''"
| "BlockCode_string BlockDestructiveCommand = ''destructive_command''"
| "BlockCode_string BlockPersistentDeny = ''persistent_deny''"
| "BlockCode_string BlockDenied = ''denied''"

datatype GrantDecision = GrantAllow | GrantDeny

fun GrantDecision_string :: "GrantDecision \<Rightarrow> string" where
  "GrantDecision_string GrantAllow = ''allow''"
| "GrantDecision_string GrantDeny = ''deny''"

datatype ScopeKind = ScopeToolWide | ScopeFile | ScopeDir | ScopeHost

fun ScopeKind_string :: "ScopeKind \<Rightarrow> string" where
  "ScopeKind_string ScopeToolWide = ''''"
| "ScopeKind_string ScopeFile = ''file''"
| "ScopeKind_string ScopeDir = ''dir''"
| "ScopeKind_string ScopeHost = ''host''"

definition ReasonNetworkBlocked :: string where
  "ReasonNetworkBlocked = ''network access requires approval''"

definition ReasonEscalatedSandboxRequired :: string where
  "ReasonEscalatedSandboxRequired = ''unsandboxed shell command requires approval''"

section \<open>Normalisation (normalize.go)\<close>

definition NormalizePermissionMode :: "string \<Rightarrow> PermissionMode" where
  "NormalizePermissionMode value =
     (let n = to_lower (trim_space value)
      in if n = ''auto'' then PermissionModeAuto
         else if n = ''ask'' then PermissionModeAsk
         else if n = ''unsafe'' then PermissionUnsafe
         else if n = ''ask-all'' then PermissionModeAskAll
         else if n = ''read-only'' then PermissionModeReadOnly
         else if n = ''read-write'' then PermissionModeReadWrite
         else if n = ''bypass-all'' then PermissionModeBypassAll
         else PermissionModeAuto)"

definition NormalizePermission :: "string \<Rightarrow> Permission" where
  "NormalizePermission value =
     (let n = to_lower (trim_space value)
      in if n = ''allow'' then PermissionAllow
         else if n = ''deny'' then PermissionDeny
         else PermissionPrompt)"

definition NormalizeSideEffect :: "string \<Rightarrow> SideEffect" where
  "NormalizeSideEffect value =
     (let n = to_lower (trim_space value)
      in if n = ''read'' then SideEffectRead
         else if n = ''write'' then SideEffectWrite
         else if n = ''shell'' then SideEffectShell
         else if n = ''network'' then SideEffectNetwork
         else if n = ''local_control'' then SideEffectLocalControl
         else if n = ''local_browser'' then SideEffectLocalBrowser
         else if n = ''local_desktop'' then SideEffectLocalDesktop
         else if n = ''local_terminal'' then SideEffectLocalTerminal
         else if n = ''none'' then SideEffectNone
         else SideEffectOutOfWorkspace)"

definition NormalizeNetworkMode :: "string \<Rightarrow> NetworkMode" where
  "NormalizeNetworkMode value =
     (if to_lower (trim_space value) = ''allow'' then NetworkAllow else NetworkDeny)"

text \<open>The error of the code carries the offending value.\<close>

definition NormalizeGrantDecision :: "string \<Rightarrow> string + GrantDecision" where
  "NormalizeGrantDecision value =
     (let n = to_lower (trim_space value)
      in if n = ''allow'' then Inr GrantAllow
         else if n = ''deny'' then Inr GrantDeny
         else Inl (''invalid sandbox grant decision '' @ go_quote value @ ''. Expected allow or deny''))"

definition normalizeScopeKind :: "string \<Rightarrow> string + ScopeKind" where
  "normalizeScopeKind kind =
     (let n = to_lower (trim_space kind)
      in if n = '''' then Inr ScopeToolWide
         else if n = ''file'' then Inr ScopeFile
         else if n = ''dir'' then Inr ScopeDir
         else if n = ''host'' then Inr ScopeHost
         else Inl (''invalid sandbox scope kind '' @ go_quote kind @ ''. Expected file, dir, host, or empty''))"

interpretation perm_mode: enumeration NormalizePermissionMode PermissionMode_string
proof
  fix e show "NormalizePermissionMode (PermissionMode_string e) = e" by (cases e; hypsubst; code_simp)
qed (simp add: NormalizePermissionMode_def to_lower_trim_space)

interpretation perm: enumeration NormalizePermission Permission_string
proof
  fix e show "NormalizePermission (Permission_string e) = e" by (cases e; hypsubst; code_simp)
qed (simp add: NormalizePermission_def to_lower_trim_space)

interpretation side_eff: enumeration NormalizeSideEffect SideEffect_string
proof
  fix e show "NormalizeSideEffect (SideEffect_string e) = e" by (cases e; hypsubst; code_simp)
qed (simp add: NormalizeSideEffect_def to_lower_trim_space)

interpretation net_mode: enumeration NormalizeNetworkMode NetworkMode_string
proof
  fix e show "NormalizeNetworkMode (NetworkMode_string e) = e" by (cases e; hypsubst; code_simp)
qed (simp add: NormalizeNetworkMode_def to_lower_trim_space)

lemma NormalizeGrantDecision_string: "NormalizeGrantDecision (GrantDecision_string d) = Inr d"
  by (cases d; hypsubst; code_simp)

lemma normalizeScopeKind_string: "normalizeScopeKind (ScopeKind_string k) = Inr k"
  by (cases k; hypsubst; code_simp)

text \<open>Only an explicit, recognised spelling selects a mode that widens authority.\<close>

lemma NormalizePermissionMode_bypass:
  "NormalizePermissionMode s = PermissionModeBypassAll \<longleftrightarrow> to_lower (trim_space s) = ''bypass-all''"
  by (auto simp: NormalizePermissionMode_def Let_def)

lemma NormalizePermissionMode_unsafe:
  "NormalizePermissionMode s = PermissionUnsafe \<longleftrightarrow> to_lower (trim_space s) = ''unsafe''"
  by (auto simp: NormalizePermissionMode_def Let_def)

section \<open>Risk levels are ordered\<close>

fun riskRank :: "RiskLevel \<Rightarrow> nat" where
  "riskRank RiskLow = 0"
| "riskRank RiskMedium = 1"
| "riskRank RiskHigh = 2"
| "riskRank RiskCritical = 3"

lemma riskRank_inj [simp]: "riskRank a = riskRank b \<longleftrightarrow> a = b"
  by (cases a; cases b) auto

instantiation RiskLevel :: linorder
begin

definition less_eq_RiskLevel :: "RiskLevel \<Rightarrow> RiskLevel \<Rightarrow> bool" where
  "less_eq_RiskLevel a b \<longleftrightarrow> riskRank a \<le> riskRank b"

definition less_RiskLevel :: "RiskLevel \<Rightarrow> RiskLevel \<Rightarrow> bool" where
  "less_RiskLevel a b \<longleftrightarrow> riskRank a < riskRank b"

instance
  by standard (auto simp: less_eq_RiskLevel_def less_RiskLevel_def)

end

lemma RiskCritical_top [simp]: "l \<le> RiskCritical"
  by (cases l) (simp_all add: less_eq_RiskLevel_def)

section \<open>Structures\<close>

record Policy =
  pol_mode :: PolicyMode
  pol_network :: string
  EnforceWorkspace :: bool
  BlockUnixSockets :: bool
  MonitorDenials :: bool
  AllowRead :: "string list"
  DenyRead :: "string list"
  AllowWrite :: "string list"
  DenyWrite :: "string list"

definition DefaultPolicy :: Policy where
  "DefaultPolicy = \<lparr>pol_mode = ModeEnforce, pol_network = ''deny'', EnforceWorkspace = True,
     BlockUnixSockets = False, MonitorDenials = False,
     AllowRead = [], DenyRead = [], AllowWrite = [], DenyWrite = []\<rparr>"

text \<open>
  An argument value (\<open>any\<close>): a string, nil, or another value given by its \<open>fmt.Sprint\<close>
  rendering.
\<close>

datatype arg_value = ArgString string | ArgNil | ArgOther string

type_synonym args = "string \<Rightarrow> arg_value option"

text \<open>A request as the caller sends it, and after the engine normalised its enumerations.\<close>

record RawRequest =
  raw_workspace_root :: string
  raw_tool_name :: string
  raw_side_effect :: string
  raw_permission :: string
  raw_permission_granted :: bool
  raw_permission_mode :: string
  raw_args :: args
  raw_reason :: string

record Request =
  WorkspaceRoot :: string
  ToolName :: string
  req_side_effect :: SideEffect
  req_permission :: Permission
  PermissionGranted :: bool
  req_mode :: PermissionMode
  Args :: args
  Reason :: string

record Risk =
  Level :: RiskLevel
  Categories :: "string list"
  risk_reason :: string

record Block =
  Code :: BlockCode
  block_tool :: string
  block_action :: Action
  block_risk :: Risk
  Path :: string
  block_reason :: string
  Recoverable :: bool

record Grant =
  grant_tool :: string
  Scope :: string
  grant_kind :: ScopeKind
  grant_decision :: GrantDecision
  ApprovedAt :: string
  grant_reason :: string
  Session :: bool

record Decision =
  dec_action :: Action
  dec_reason :: string
  dec_risk :: Risk
  GrantMatched :: bool
  dec_grant :: "Grant option"
  dec_block :: "Block option"
  AutoAllowed :: bool

definition Block_Error :: "Block \<Rightarrow> string" where
  "Block_Error b =
     (if Path b \<noteq> [] then
        ''Sandbox block ['' @ BlockCode_string (Code b) @ ''] for '' @ block_tool b @ '' at ''
          @ Path b @ '': '' @ block_reason b
      else ''Sandbox block ['' @ BlockCode_string (Code b) @ ''] for '' @ block_tool b @ '': ''
          @ block_reason b)"

definition Decision_ErrorString :: "Decision \<Rightarrow> string" where
  "Decision_ErrorString d =
     (case dec_block d of
        Some b \<Rightarrow> Block_Error b
      | None \<Rightarrow> if dec_reason d \<noteq> [] then ''Sandbox decision: '' @ dec_reason d
               else ''Sandbox decision denied.'')"

text \<open>A block found while validating one path (\<open>paths.go\<close>).\<close>

record pathBlock =
  pb_code :: BlockCode
  pb_path :: string
  pb_reason :: string

definition firstNonEmpty :: "string list \<Rightarrow> string" where
  "firstNonEmpty values =
     (case find (\<lambda>v. trim_space v \<noteq> []) values of Some v \<Rightarrow> trim_space v | None \<Rightarrow> [])"

end
