(* ===== verification/Path_Guard.thy ===== *)
theory Path_Guard
  imports Go_FS Sandbox_Types
begin

text \<open>
  The path guard of the sandbox: \<open>internal/sandbox/paths.go\<close> and \<open>scope.go\<close>.  A scope is
  the workspace root, the extra write roots and the read-only roots; its operations return
  the changed scope.  The central lemma is that a path the guard accepts for a root can only
  resolve, through whatever symbolic links, to a place inside that root.
\<close>

section \<open>paths.go\<close>

text \<open>The texts of operating-system errors are schematic.\<close>

fun fs_error_text :: "fs_error \<Rightarrow> string \<Rightarrow> string" where
  "fs_error_text ENOENT p = ''lstat '' @ p @ '': no such file or directory''"
| "fs_error_text ENOTDIR p = ''lstat '' @ p @ '': not a directory''"
| "fs_error_text ELOOP p = ''lstat '' @ p @ '': too many levels of symbolic links''"

definition outside_block :: "string \<Rightarrow> string \<Rightarrow> pathBlock" where
  "outside_block p reason = \<lparr>pb_code = BlockOutsideWorkspace, pb_path = p, pb_reason = reason\<rparr>"

definition symlink_block :: "string \<Rightarrow> string \<Rightarrow> pathBlock" where
  "symlink_block p reason = \<lparr>pb_code = BlockSymlinkTraversal, pb_path = p, pb_reason = reason\<rparr>"

text \<open>The segment loop of \<open>validateWorkspacePath\<close>.\<close>

fun check_segments :: "os \<Rightarrow> string \<Rightarrow> string \<Rightarrow> string \<Rightarrow> string list \<Rightarrow> pathBlock option" where
  "check_segments os root requested current [] = None"
| "check_segments os root requested current (segment # segs) =
     (if segment = ''.'' \<or> segment = [] then check_segments os root requested current segs
      else (let current = join_path [current, segment]
            in (case lstat os current of
                  Inl e \<Rightarrow> if e = ENOENT then None
                           else Some (outside_block requested (fs_error_text e current))
                | Inr (Link _) \<Rightarrow>
                    (case eval_symlinks os current of
                       Inl e \<Rightarrow> Some (symlink_block requested (fs_error_text e current))
                     | Inr resolved \<Rightarrow>
                         (case rel root resolved of
                            None \<Rightarrow> Some (symlink_block requested
                                      (requested @ '' must not traverse symlink '' @ clean segment))
                          | Some r \<Rightarrow>
                              if rel_escapes r
                              then Some (symlink_block requested
                                      (requested @ '' must not traverse symlink '' @ clean segment))
                              else check_segments os root requested current segs))
                | Inr _ \<Rightarrow> check_segments os root requested current segs)))"

definition validateWorkspacePath :: "os \<Rightarrow> string \<Rightarrow> string \<Rightarrow> pathBlock option" where
  "validateWorkspacePath os workspaceRoot requestedPath =
     (case eval_symlinks os (abs_of os workspaceRoot) of
        Inl e \<Rightarrow> Some (outside_block requestedPath (fs_error_text e (abs_of os workspaceRoot)))
      | Inr root \<Rightarrow>
          (let target = abs_of os (if is_abs requestedPath then requestedPath
                                   else join_path [root, requestedPath])
           in (case rel root target of
                 None \<Rightarrow> Some (outside_block requestedPath (requestedPath @ '' is outside the workspace''))
               | Some relative \<Rightarrow>
                   if rel_escapes relative
                   then Some (outside_block requestedPath (requestedPath @ '' is outside the workspace''))
                   else if relative = ''.'' then None
                   else check_segments os root requestedPath root (split_on slash (clean relative)))))"

section \<open>scope.go\<close>

record SandboxScope =
  workspaceRoot :: string
  readRoots :: "string list"
  extraRoots :: "string list"

definition Scope_Roots :: "SandboxScope \<Rightarrow> string list" where
  "Scope_Roots s = workspaceRoot s # extraRoots s"

fun dedupe_from :: "string list \<Rightarrow> string list \<Rightarrow> string list" where
  "dedupe_from seen [] = []"
| "dedupe_from seen (x # xs) =
     (if x \<in> set seen then dedupe_from seen xs else x # dedupe_from (x # seen) xs)"

definition dedupeScopeRoots :: "string list \<Rightarrow> string list" where
  "dedupeScopeRoots roots = dedupe_from [[]] roots"

definition dedupeStrings :: "string list \<Rightarrow> string list" where
  "dedupeStrings xs = (if length xs \<le> 1 then xs else dedupe_from [] xs)"

definition removeScopeRoot :: "string list \<Rightarrow> string \<Rightarrow> string list" where
  "removeScopeRoot roots root = filter (\<lambda>existing. existing \<noteq> root) roots"

definition Scope_ReadRoots :: "SandboxScope \<Rightarrow> string list" where
  "Scope_ReadRoots s = dedupeScopeRoots (workspaceRoot s # extraRoots s @ readRoots s)"

text \<open>\<open>~\<close> expansion shared by scope roots and policy paths.\<close>

definition expand_home :: "os \<Rightarrow> string \<Rightarrow> string option" where
  "expand_home os trimmed =
     (if trimmed = ''~'' \<or> has_prefix trimmed ''~/'' then
        map_option (\<lambda>h. join_path [h, trim_prefix (trim_prefix (tl trimmed) ''/'') ''/'']) (home os)
      else Some trimmed)"

definition normalizeWorkspaceRootBestEffort :: "os \<Rightarrow> string \<Rightarrow> string" where
  "normalizeWorkspaceRootBestEffort os root =
     (let trimmed = trim_space root
      in if trimmed = [] then []
         else (case eval_symlinks os (abs_of os trimmed) of
                 Inr resolved \<Rightarrow> resolved
               | Inl _ \<Rightarrow> clean (abs_of os trimmed)))"

definition normalizeScopeRoot :: "os \<Rightarrow> string \<Rightarrow> string + string" where
  "normalizeScopeRoot os path =
     (let trimmed = trim_space path
      in if trimmed = [] then Inl ''write root path is empty''
         else (case expand_home os trimmed of
                 None \<Rightarrow> Inl ''expand ~: home directory unknown''
               | Some trimmed \<Rightarrow>
                   (case eval_symlinks os (abs_of os trimmed) of
                      Inl e \<Rightarrow> Inl (''write root must exist: '' @ fs_error_text e (abs_of os trimmed))
                    | Inr resolved \<Rightarrow>
                        (case stat_is_dir os resolved of
                           Inl e \<Rightarrow> Inl (fs_error_text e resolved)
                         | Inr False \<Rightarrow> Inl (''write root '' @ resolved @ '' is not a directory'')
                         | Inr True \<Rightarrow>
                             if dir_of resolved = resolved
                             then Inl (''refusing filesystem root '' @ resolved @ '' as a write root'')
                             else Inr resolved))))"

definition covered_by :: "string list \<Rightarrow> string \<Rightarrow> bool" where
  "covered_by roots root = list_ex (\<lambda>existing. path_within_root existing root) roots"

definition Scope_Add :: "os \<Rightarrow> string \<Rightarrow> SandboxScope \<Rightarrow> string + string \<times> SandboxScope" where
  "Scope_Add os path s =
     (case normalizeScopeRoot os path of
        Inl e \<Rightarrow> Inl e
      | Inr root \<Rightarrow>
          if covered_by (workspaceRoot s # extraRoots s) root then Inr (root, s)
          else Inr (root, s\<lparr>extraRoots := extraRoots s @ [root]\<rparr>))"

definition writeRootCovers :: "SandboxScope \<Rightarrow> string \<Rightarrow> bool" where
  "writeRootCovers s root = covered_by (workspaceRoot s # extraRoots s) root"

definition Scope_AddRead :: "os \<Rightarrow> string \<Rightarrow> SandboxScope \<Rightarrow> string + string \<times> SandboxScope" where
  "Scope_AddRead os path s =
     (case normalizeScopeRoot os path of
        Inl e \<Rightarrow> Inl e
      | Inr root \<Rightarrow>
          if writeRootCovers s root then Inr (root, s)
          else if covered_by (readRoots s) root then Inr (root, s)
          else Inr (root, s\<lparr>readRoots := readRoots s @ [root]\<rparr>))"

text \<open>The undo closures of the temporary grants, as data.\<close>

datatype undo = NoUndo | RemoveReadRoot string | RemoveWriteRoot string

fun run_undo :: "undo \<Rightarrow> SandboxScope \<Rightarrow> SandboxScope" where
  "run_undo NoUndo s = s"
| "run_undo (RemoveReadRoot root) s = s\<lparr>readRoots := removeScopeRoot (readRoots s) root\<rparr>"
| "run_undo (RemoveWriteRoot root) s = s\<lparr>extraRoots := removeScopeRoot (extraRoots s) root\<rparr>"

definition Scope_AddTemporaryRead :: "os \<Rightarrow> string \<Rightarrow> SandboxScope \<Rightarrow> string + string \<times> undo \<times> SandboxScope" where
  "Scope_AddTemporaryRead os path s =
     (case normalizeScopeRoot os path of
        Inl e \<Rightarrow> Inl e
      | Inr root \<Rightarrow>
          if writeRootCovers s root then Inr (root, NoUndo, s)
          else if covered_by (readRoots s) root then Inr (root, NoUndo, s)
          else Inr (root, RemoveReadRoot root, s\<lparr>readRoots := readRoots s @ [root]\<rparr>))"

definition Scope_AddTemporaryWrite :: "os \<Rightarrow> string \<Rightarrow> SandboxScope \<Rightarrow> string + string \<times> undo \<times> SandboxScope" where
  "Scope_AddTemporaryWrite os path s =
     (case normalizeScopeRoot os path of
        Inl e \<Rightarrow> Inl e
      | Inr root \<Rightarrow>
          if writeRootCovers s root then Inr (root, NoUndo, s)
          else Inr (root, RemoveWriteRoot root, s\<lparr>extraRoots := extraRoots s @ [root]\<rparr>))"

fun add_all :: "os \<Rightarrow> string list \<Rightarrow> SandboxScope \<Rightarrow> string + SandboxScope" where
  "add_all os [] s = Inr s"
| "add_all os (extra # extras) s =
     (case Scope_Add os extra s of
        Inl e \<Rightarrow> Inl (''write root '' @ extra @ '': '' @ e)
      | Inr (_, s') \<Rightarrow> add_all os extras s')"

definition add_ignoring :: "os \<Rightarrow> string list \<Rightarrow> SandboxScope \<Rightarrow> SandboxScope" where
  "add_ignoring os roots s =
     foldl (\<lambda>s r. case Scope_Add os r s of Inl _ \<Rightarrow> s | Inr (_, s') \<Rightarrow> s') s roots"

text \<open>The default temporary roots on a POSIX host.\<close>

definition defaultTempWriteRootCandidates :: "os \<Rightarrow> string list" where
  "defaultTempWriteRootCandidates os =
     ''/tmp'' # (let tmpdir = trim_space (env os ''TMPDIR'') in if tmpdir \<noteq> [] then [tmpdir] else [])"

definition NewScope :: "os \<Rightarrow> string \<Rightarrow> string list \<Rightarrow> string + SandboxScope" where
  "NewScope os root extras =
     (case add_all os extras \<lparr>workspaceRoot = normalizeWorkspaceRootBestEffort os root,
                              readRoots = [], extraRoots = []\<rparr> of
        Inl e \<Rightarrow> Inl e
      | Inr s \<Rightarrow> Inr (if workspaceRoot s \<noteq> [] then add_ignoring os (defaultTempWriteRootCandidates os) s
                      else s))"

definition newScopeBestEffort :: "os \<Rightarrow> string \<Rightarrow> SandboxScope" where
  "newScopeBestEffort os root =
     (case NewScope os root [] of
        Inr s \<Rightarrow> s
      | Inl _ \<Rightarrow> \<lparr>workspaceRoot = normalizeWorkspaceRootBestEffort os root, readRoots = [], extraRoots = []\<rparr>)"

text \<open>The component walk of \<open>NormalizePrefixForRoot\<close>.\<close>

fun normalize_prefix_loop :: "os \<Rightarrow> string \<Rightarrow> string \<Rightarrow> string list \<Rightarrow> string" where
  "normalize_prefix_loop os resolvedRoot current [] = current"
| "normalize_prefix_loop os resolvedRoot current (part # parts) =
     (if part = [] then normalize_prefix_loop os resolvedRoot current parts
      else if current = resolvedRoot then join_path (current # part # parts)
      else (let next = join_path [current, part]
            in (case lstat os next of
                  Inl _ \<Rightarrow> join_path (current # part # parts)
                | Inr (Link _) \<Rightarrow>
                    if path_within_root resolvedRoot current then join_path (current # part # parts)
                    else (case eval_symlinks os next of
                            Inl _ \<Rightarrow> join_path (current # part # parts)
                          | Inr resolved \<Rightarrow> normalize_prefix_loop os resolvedRoot resolved parts)
                | Inr _ \<Rightarrow>
                    (case eval_symlinks os next of
                       Inl _ \<Rightarrow> normalize_prefix_loop os resolvedRoot next parts
                     | Inr resolved \<Rightarrow> normalize_prefix_loop os resolvedRoot resolved parts))))"

definition NormalizePrefixForRoot :: "os \<Rightarrow> string \<Rightarrow> string \<Rightarrow> string" where
  "NormalizePrefixForRoot os absPath resolvedRoot =
     normalize_prefix_loop os resolvedRoot ''/'' (split_on slash (trim_prefix (clean absPath) ''/''))"

text \<open>The root loop with the first block of each kind.\<close>

fun validate_roots :: "os \<Rightarrow> string \<Rightarrow> string list \<Rightarrow> pathBlock option \<Rightarrow> pathBlock option \<Rightarrow> pathBlock option" where
  "validate_roots os requestedPath [] outsideBlock traversalBlock =
     (case traversalBlock of
        Some b \<Rightarrow> Some (symlink_block requestedPath (pb_reason b))
      | None \<Rightarrow> Some (outside_block requestedPath
          (requestedPath @ '' is outside the workspace (use /add-dir or --add-dir to allow writes there)'')))"
| "validate_roots os requestedPath (root # roots) outsideBlock traversalBlock =
     (case validateWorkspacePath os root (NormalizePrefixForRoot os requestedPath root) of
        None \<Rightarrow> None
      | Some block \<Rightarrow>
          if pb_code block = BlockSymlinkTraversal
          then validate_roots os requestedPath roots outsideBlock
                 (case traversalBlock of None \<Rightarrow> Some block | Some b \<Rightarrow> Some b)
          else validate_roots os requestedPath roots
                 (case outsideBlock of None \<Rightarrow> Some block | Some b \<Rightarrow> Some b) traversalBlock)"

definition validateAgainstRoots :: "os \<Rightarrow> string \<Rightarrow> string list \<Rightarrow> pathBlock option" where
  "validateAgainstRoots os requestedPath roots =
     (case roots of
        [] \<Rightarrow> Some (outside_block requestedPath (requestedPath @ '' is outside the workspace''))
      | root # _ \<Rightarrow>
          if \<not> is_abs requestedPath then validateWorkspacePath os root requestedPath
          else validate_roots os requestedPath roots None None)"

definition Scope_validate :: "os \<Rightarrow> SandboxScope \<Rightarrow> string \<Rightarrow> pathBlock option" where
  "Scope_validate os s requestedPath = validateAgainstRoots os requestedPath (Scope_Roots s)"

definition Scope_validateRead :: "os \<Rightarrow> SandboxScope \<Rightarrow> string \<Rightarrow> pathBlock option" where
  "Scope_validateRead os s requestedPath = validateAgainstRoots os requestedPath (Scope_ReadRoots s)"

section \<open>The guard is sound\<close>

lemma lstat_path_of:
  assumes "list_all good_comp C" "good_comp c"
  shows "lstat os (path_of (C @ [c])) =
    (case walk (files os) kernel_links [] C of
       Inl e \<Rightarrow> Inl e
     | Inr d \<Rightarrow> if node_at (files os) d \<noteq> Some Directory then Inl ENOTDIR
               else (case files os (d @ [c]) of None \<Rightarrow> Inl ENOENT | Some nd \<Rightarrow> Inr nd))"
  using assms by (simp add: lstat_def split: sum.split)

text \<open>
  Where an operation that may create what is missing ends up: path resolution in which a missing
  component is a directory or file to be made, as by opening with \<open>O_CREATE\<close> after
  \<open>os.MkdirAll\<close>.  It agrees with \<open>walk\<close> wherever the path exists.
\<close>

function create_walk :: "fsys \<Rightarrow> nat \<Rightarrow> string list \<Rightarrow> string list \<Rightarrow> fs_error + string list" where
  "create_walk fs n cur [] = Inr cur"
| "create_walk fs n cur (c # cs) =
     (if c = [] \<or> c = ''.'' then create_walk fs n cur cs
      else if c = ''..'' then create_walk fs n (butlast cur) cs
      else (case fs (cur @ [c]) of
              None \<Rightarrow> create_walk fs n (cur @ [c]) cs
            | Some Directory \<Rightarrow> create_walk fs n (cur @ [c]) cs
            | Some Regular \<Rightarrow> if cs = [] then Inr (cur @ [c]) else Inl ENOTDIR
            | Some (Link t) \<Rightarrow>
                (case n of
                   0 \<Rightarrow> Inl ELOOP
                 | Suc m \<Rightarrow> create_walk fs m (if is_abs t then [] else cur) (split_on slash t @ cs))))"
  by pat_completeness auto
termination by (relation "measures [\<lambda>(fs, n, cur, cs). n, \<lambda>(fs, n, cur, cs). length cs]") auto

declare create_walk.simps(2) [simp del]

lemma create_walk_step:
  "c = [] \<or> c = ''.'' \<Longrightarrow> create_walk fs n cur (c # cs) = create_walk fs n cur cs"
  "c = ''..'' \<Longrightarrow> create_walk fs n cur (c # cs) = create_walk fs n (butlast cur) cs"
  "c \<notin> {[], ''.'', ''..''} \<Longrightarrow> fs (cur @ [c]) = None \<Longrightarrow>
     create_walk fs n cur (c # cs) = create_walk fs n (cur @ [c]) cs"
  "c \<notin> {[], ''.'', ''..''} \<Longrightarrow> fs (cur @ [c]) = Some Directory \<Longrightarrow>
     create_walk fs n cur (c # cs) = create_walk fs n (cur @ [c]) cs"
  "c \<notin> {[], ''.'', ''..''} \<Longrightarrow> fs (cur @ [c]) = Some Regular \<Longrightarrow>
     create_walk fs n cur (c # cs) = (if cs = [] then Inr (cur @ [c]) else Inl ENOTDIR)"
  "c \<notin> {[], ''.'', ''..''} \<Longrightarrow> fs (cur @ [c]) = Some (Link t) \<Longrightarrow> create_walk fs 0 cur (c # cs) = Inl ELOOP"
  "c \<notin> {[], ''.'', ''..''} \<Longrightarrow> fs (cur @ [c]) = Some (Link t) \<Longrightarrow>
     create_walk fs (Suc m) cur (c # cs) = create_walk fs m (if is_abs t then [] else cur) (split_on slash t @ cs)"
  by (simp_all add: create_walk.simps(2))

lemma walk_creates: "walk fs n cur cs = Inr d \<Longrightarrow> create_walk fs n cur cs = Inr d"
  by (induction n cur cs rule: walk_induct [where fs = fs])
    (auto simp: walk_step create_walk_step split: if_splits)

text \<open>A creating resolution passes through the place its existing prefix resolves to.\<close>

lemma create_walk_via:
  "walk fs n cur cs = Inr e \<Longrightarrow> create_walk fs k cur (cs @ ds) = Inr d \<Longrightarrow>
     \<exists>m. create_walk fs m e ds = Inr d"
proof (induction n cur cs arbitrary: k rule: walk_induct [where fs = fs])
  case (reg n cur c cs)
  then show ?case
    by (auto simp: walk_step create_walk_step split: if_splits intro!: exI [of _ k])
next
  case (link m cur c cs t)
  then obtain k' where "k = Suc k'" by (cases k) (auto simp: create_walk_step)
  with link show ?case by (simp add: walk_step create_walk_step)
qed (auto simp: walk_step create_walk_step)

text \<open>Below a place where nothing exists a clean path is made as it stands.\<close>

lemma wf_fs_below: "wf_fs fs \<Longrightarrow> b \<noteq> [] \<Longrightarrow> fs b = None \<Longrightarrow> fs (b @ [x]) = None"
  unfolding wf_fs_def node_at_def by (metis option.distinct(1))

lemma create_walk_missing:
  "wf_fs fs \<Longrightarrow> cur \<noteq> [] \<Longrightarrow> fs cur = None \<Longrightarrow> list_all good_comp cs \<Longrightarrow> create_walk fs n cur cs = Inr (cur @ cs)"
  by (induction cs arbitrary: cur) (simp_all add: create_walk_step wf_fs_below good_comp_def)

text \<open>Without links below it, a path is made below the place it starts from.\<close>

lemma create_walk_below:
  assumes "\<forall>s t. fs (r @ s) \<noteq> Some (Link t)"
  shows "list_all good_comp cs \<Longrightarrow> create_walk fs n (r @ s) cs = Inr d \<Longrightarrow> has_prefix d r"
proof (induction cs arbitrary: s)
  case (Cons c cs)
  have c: "c \<notin> {[], ''.'', ''..''}" using Cons.prems(1) by (simp add: good_comp_def)
  have IH: "create_walk fs n (r @ s @ [c]) cs = Inr d \<Longrightarrow> has_prefix d r"
    using Cons.IH [of "s @ [c]"] Cons.prems(1) by simp
  show ?case
  proof (cases "fs (r @ s @ [c])")
    case None
    then show ?thesis using IH Cons.prems(2) c by (simp add: create_walk_step)
  next
    case (Some nd)
    then show ?thesis using IH Cons.prems(2) c assms
      by (cases nd) (auto simp: create_walk_step has_prefix_iff split: if_splits)
  qed
qed (auto simp: has_prefix_iff)

text \<open>A directory a path resolves to, extended by one component found there.\<close>

lemma walk_extend:
  assumes "walk fs n [] C = Inr u" "node_at fs u = Some Directory" "good_comp c"
    "fs (u @ [c]) = Some Directory \<or> fs (u @ [c]) = Some Regular"
  shows "walk fs n [] (C @ [c]) = Inr (u @ [c])"
proof -
  have "walk fs n cur cs = Inr u \<Longrightarrow> walk fs n cur (cs @ [c]) = Inr (u @ [c])" for n cur cs
  proof (induction n cur cs rule: walk_induct [where fs = fs])
    case (Nil n cur)
    then show ?case using assms(3,4) by (auto simp: walk.simps(2) good_comp_def)
  next
    case (reg n cur c' cs)
    then show ?case using assms(2) by (auto simp: walk_step node_at_def split: if_splits)
  qed (auto simp: walk_step)
  then show ?thesis using assms(1) .
qed

lemma lstat_found:
  assumes C: "list_all good_comp C" "good_comp c" and w: "walk (files os) n [] C = Inr u"
    and l: "lstat os (path_of (C @ [c])) = r" "r \<noteq> Inl ELOOP" "r \<noteq> Inl ENOTDIR"
  shows "node_at (files os) u = Some Directory"
    "r = (case files os (u @ [c]) of None \<Rightarrow> Inl ENOENT | Some nd \<Rightarrow> Inr nd)"
proof -
  have "walk (files os) kernel_links [] C = Inr u"
    using walk_agree_error [OF w] walk_agree [OF w] l(1,2) C
    by (cases "walk (files os) kernel_links [] C") (auto simp: lstat_path_of)
  then show "node_at (files os) u = Some Directory"
    "r = (case files os (u @ [c]) of None \<Rightarrow> Inl ENOENT | Some nd \<Rightarrow> Inr nd)"
    using l C by (auto simp: lstat_path_of split: if_splits)
qed

lemma check_segments_sound:
  assumes wf: "wf_fs (files os)" and R: "list_all good_comp R"
  shows "check_segments os (path_of R) requested (path_of C) segs = None \<Longrightarrow>
     list_all good_comp C \<Longrightarrow> list_all good_comp segs \<Longrightarrow>
     walk (files os) n [] C = Inr u \<Longrightarrow> has_prefix u R \<Longrightarrow>
     create_walk (files os) m u segs = Inr d \<Longrightarrow> has_prefix d R"
proof (induction segs arbitrary: C n u m)
  case Nil
  then show ?case by auto
next
  case (Cons c segs)
  let ?C = "C @ [c]" and ?p = "path_of (C @ [c])"
  have good: "good_comp c" "list_all good_comp ?C" "list_all good_comp segs"
    using Cons.prems(2,3) by simp_all
  then have dots: "c \<notin> {[], ''.'', ''..''}" by (simp add: good_comp_def)
  have cur: "join_path [path_of C, c] = ?p"
    using Cons.prems(2) good(1) by (rule join_path_comp)
  have chk: "check_segments os (path_of R) requested (path_of C) (c # segs) = None" by fact
  have goes: "lstat os ?p \<noteq> Inl ELOOP" "lstat os ?p \<noteq> Inl ENOTDIR"
    using chk cur good(1) by (auto simp: good_comp_def)
  note found = lstat_found [OF Cons.prems(2) good(1) Cons.prems(4) refl goes]
  have pre: "has_prefix (u @ xs) R" for xs using Cons.prems(5) by (auto simp: has_prefix_iff)
  show ?case
  proof (cases "files os (u @ [c])")
    case None
    then have "d = (u @ [c]) @ segs"
      using Cons.prems(6) None dots create_walk_missing [OF wf _ None good(3)] by (simp add: create_walk_step)
    then show ?thesis using pre by simp
  next
    case (Some nd)
    then have l: "lstat os ?p = Inr nd" using found(2) by simp
    show ?thesis
    proof (cases "nd = Directory \<or> nd = Regular")
      case True
      then have "check_segments os (path_of R) requested ?p segs = None"
        using chk cur good(1) l by (auto simp: good_comp_def)
      moreover have "walk (files os) n [] ?C = Inr (u @ [c])"
        using walk_extend [OF Cons.prems(4) found(1) good(1)] Some True by auto
      moreover have "create_walk (files os) m (u @ [c]) segs = Inr d"
        using Cons.prems(6) Some True dots by (auto simp: create_walk_step split: if_splits)
      ultimately show ?thesis using Cons.IH good pre by blast
    next
      case False
      then obtain t where t: "nd = Link t" by (cases nd) auto
      obtain q where q: "eval_symlinks os ?p = Inr q"
        using chk cur good(1) l t by (cases "eval_symlinks os ?p") (auto simp: good_comp_def)
      then obtain e where e: "walk (files os) go_links [] ?C = Inr e" "q = path_of e"
        using good(2) by (auto simp: eval_symlinks_Inr)
      have c: "c \<noteq> ''.''" "c \<noteq> []" using good(1) by (simp_all add: good_comp_def)
      have "case rel (path_of R) q of None \<Rightarrow> False
          | Some r \<Rightarrow> \<not> rel_escapes r \<and> check_segments os (path_of R) requested ?p segs = None"
        using chk c t by (simp only: check_segments.simps Let_def cur l q if_False simp_thms
            sum.case node.case split: option.splits if_splits) simp_all
      then obtain r where r: "rel (path_of R) q = Some r" "\<not> rel_escapes r"
        "check_segments os (path_of R) requested ?p segs = None"
        by (cases "rel (path_of R) q") auto
      have "real_path (files os) e"
        using walk_comps_real [of "files os" go_links ?p e] e(1) good(2) by simp
      then have "list_all good_comp e" by (rule real_path_good)
      then have inside: "has_prefix e R" using rel_inside [OF R] r e(2) by blast
      obtain k v where v: "walk (files os) go_links [] C = Inr v" "walk (files os) k v [c] = Inr e"
        using walk_append [OF e(1)] by blast
      have "v = u" using v(1) Cons.prems(4) by (rule walk_agree)
      then obtain m' where "create_walk (files os) m' e segs = Inr d"
        using create_walk_via [OF v(2), of m segs d] Cons.prems(6) by auto
      then show ?thesis using Cons.IH r(3) good e(1) inside by blast
    qed
  qed
qed

text \<open>The path an accepted request is opened at, relative to a root that resolved.\<close>

definition target_of :: "os \<Rightarrow> string \<Rightarrow> string \<Rightarrow> string" where
  "target_of os root requested =
     abs_of os (if is_abs requested then requested else join_path [root, requested])"

lemma list_all_drop: "list_all P xs \<Longrightarrow> list_all P (drop n xs)"
  by (auto simp: list_all_iff dest: in_set_dropD)

lemma target_of_abs: "is_abs root \<Longrightarrow> is_abs (target_of os root p) \<and> target_of os root p = clean (target_of os root p)"
  by (auto simp: target_of_def abs_of_def abs_path_def join_path_is_abs clean_abs)

lemma validateWorkspacePath_inside:
  assumes "validateWorkspacePath os workspace requested = None"
  obtains R where "eval_symlinks os (abs_of os workspace) = Inr (path_of R)" "real_path (files os) R"
    "has_prefix (comps (target_of os (path_of R) requested)) R"
    "comps (target_of os (path_of R) requested) = R \<or>
     check_segments os (path_of R) requested (path_of R)
       (drop (length R) (comps (target_of os (path_of R) requested))) = None"
proof -
  obtain root where root: "eval_symlinks os (abs_of os workspace) = Inr root"
    using assms by (auto simp: validateWorkspacePath_def split: sum.splits)
  then obtain R where R: "root = path_of R" "real_path (files os) R"
    using eval_symlinks_real by blast
  then have goodR: "list_all good_comp R" by (simp add: real_path_good)
  let ?t = "target_of os root requested"
  define T where "T = comps ?t"
  have t: "?t = path_of T" and goodT: "list_all good_comp T"
    using target_of_abs [of root os requested] R by (auto simp: T_def clean_abs)
  have "\<exists>r. rel root ?t = Some r \<and> \<not> rel_escapes r"
    using assms root by (auto simp: validateWorkspacePath_def target_of_def Let_def split: option.splits if_splits)
  then have pre: "has_prefix T R" using rel_inside [OF goodR goodT] R t by simp
  then obtain D where D: "T = R @ D" by (auto simp: has_prefix_iff)
  have goodD: "list_all good_comp D" using goodT D by simp
  have r: "rel root ?t = Some (if D = [] then ''.'' else join ''/'' D)"
    using rel_inside_value [OF goodR goodD] R t D by simp
  have "T = R \<or> check_segments os root requested root D = None"
  proof (cases "D = []")
    case True
    then show ?thesis using D by simp
  next
    case False
    have hd: "good_comp (hd D)" using goodD False by (cases D) auto
    have ne: "join ''/'' D \<noteq> ''.''" "\<not> rel_escapes (join ''/'' D)"
      using join_slash_head [OF False hd] by auto
    have split: "split_on slash (join ''/'' D) = D"
      using False goodD by (intro split_on_join) (auto simp: list_all_iff good_comp_def)
    have jne: "join ''/'' D \<noteq> []"
      using False hd by (intro join_nonempty) (auto simp: good_comp_def)
    have notabs: "\<not> is_abs (join ''/'' D)" using ne(2) by (simp add: rel_escapes_def)
    have "clean (join ''/'' D) = join ''/'' D"
      using jne notabs split False by (simp add: clean_def good_comps_clean goodD)
    then show ?thesis
      using assms root r ne False split
      by (simp add: validateWorkspacePath_def target_of_def [symmetric])
  qed
  moreover have "comps (target_of os (path_of R) requested) = T" by (simp add: T_def R(1))
  ultimately show thesis using that [of R] root R pre D by simp
qed

lemma validateWorkspacePath_sound:
  assumes wf: "wf_fs (files os)" and ok: "validateWorkspacePath os workspace requested = None"
    and root: "eval_symlinks os (abs_of os workspace) = Inr (path_of R)" "list_all good_comp R"
    and w: "create_walk (files os) n [] (comps (target_of os (path_of R) requested)) = Inr d"
  shows "has_prefix d R"
proof -
  obtain R' where R': "eval_symlinks os (abs_of os workspace) = Inr (path_of R')" "real_path (files os) R'"
    "has_prefix (comps (target_of os (path_of R') requested)) R'"
    "comps (target_of os (path_of R') requested) = R' \<or>
     check_segments os (path_of R') requested (path_of R')
       (drop (length R') (comps (target_of os (path_of R') requested))) = None"
    by (rule validateWorkspacePath_inside [OF ok])
  then have "R' = R" using root real_path_good [OF R'(2)] path_of_inject by simp
  note R = R' [unfolded this]
  let ?T = "comps (target_of os (path_of R) requested)"
  have T: "?T = R @ drop (length R) ?T"
    using R(3) by (auto simp: has_prefix_iff)
  have self: "walk (files os) 0 [] R = Inr R" using R(2) by (rule walk_real_path)
  from R(4) show ?thesis
  proof
    assume "?T = R"
    then show ?thesis using w create_walk_via [OF self, of n "[]" d] by (auto simp: has_prefix_iff)
  next
    assume chk: "check_segments os (path_of R) requested (path_of R) (drop (length R) ?T) = None"
    have good: "list_all good_comp (drop (length R) ?T)" by (intro list_all_drop) simp
    obtain m where "create_walk (files os) m R (drop (length R) ?T) = Inr d"
      using create_walk_via [OF self, of n "drop (length R) ?T" d] w T by auto
    then show ?thesis
      using check_segments_sound [OF wf root(2) chk root(2) good self] by (simp add: has_prefix_iff)
  qed
qed

section \<open>Absolute paths and the root loop\<close>

lemma join_path_list:
  assumes "list_all good_comp C" "list_all good_comp xs" "xs \<noteq> []"
  shows "join_path (path_of C # xs) = path_of (C @ xs)"
proof -
  have pne: "path_of C \<noteq> []" by (simp add: path_of_def)
  have "join_path (path_of C # xs) = clean (path_of C @ slash # join ''/'' xs)"
    using pne assms(3) by (simp add: join_path_def join_Cons)
  also have "\<dots> = path_of (comps (path_of C @ slash # join ''/'' xs))"
    by (intro clean_abs is_abs_append) simp
  also have "comps (path_of C @ slash # join ''/'' xs) = C @ xs"
  proof -
    have "split_on slash (join ''/'' xs) = xs"
      using assms(2,3) by (intro split_on_join) (auto simp: list_all_iff good_comp_def)
    with assms(1,2) show ?thesis by (simp add: comps_append good_comps_clean)
  qed
  finally show ?thesis .
qed

lemma walk_from_real:
  assumes "wf_fs (files os)" "real_path (files os) e" "list_all good_comp parts"
    "walk (files os) k e parts = Inr d"
  shows "walk (files os) k [] (e @ parts) = Inr d"
proof (cases parts)
  case Nil
  then show ?thesis using assms walk_real_path by simp
next
  case (Cons c cs)
  with assms have "good_comp c" "walk (files os) k e (c # cs) = Inr d" by simp_all
  then have "real_dir (files os) e" using walk_step_dir [OF assms(1,2)] by blast
  then show ?thesis using walk_real_dir [of "files os" "[]" e k parts] assms(4) by simp
qed

lemma create_walk_real_path:
  "real_dir fs d \<Longrightarrow> create_walk fs n [] (d @ cs) = create_walk fs n d cs"
proof (induction d arbitrary: cs rule: rev_induct)
  case (snoc c d)
  then show ?case by (auto simp: real_dir_snoc create_walk.simps(2) good_comp_def)
qed simp

text \<open>A creating resolution can start at the real name of an existing prefix.\<close>

lemma create_walk_real:
  assumes wf: "wf_fs (files os)" and w: "walk (files os) n [] C = Inr e" and e: "real_path (files os) e"
    and good: "list_all good_comp C" "list_all good_comp ds"
    and c: "create_walk (files os) k [] (C @ ds) = Inr d"
  shows "\<exists>m. create_walk (files os) m [] (e @ ds) = Inr d"
proof (cases "real_dir (files os) e")
  case True
  then show ?thesis using create_walk_via [OF w c] by (simp add: create_walk_real_path)
next
  case False
  then have reg: "files os e = Some Regular" "e \<noteq> []" using e by (auto simp: real_path_def)
  have "walk fs n cur cs = Inr e \<Longrightarrow> create_walk fs k cur (cs @ ds) = Inr d \<Longrightarrow> fs e = Some Regular \<Longrightarrow>
      real_dir fs cur \<Longrightarrow> \<forall>c \<in> set cs. slash \<notin> set c \<Longrightarrow> ds = []" for fs n cur cs
  proof (induction n cur cs arbitrary: k rule: walk_induct [where fs = fs])
    case (Nil n cur)
    then show ?case using node_at_real_dir [of fs cur] reg(2) by (simp add: node_at_def)
  next
    case (reg n cur c cs)
    then show ?case by (auto simp: walk_step create_walk_step split: if_splits)
  next
    case (dir n cur c cs)
    then show ?case by (simp add: walk_step create_walk_step real_dir_snoc good_comp_def)
  next
    case (link m cur c cs t)
    then obtain k' where "k = Suc k'" by (cases k) (auto simp: create_walk_step)
    moreover have "\<forall>c \<in> set (split_on slash t @ cs). slash \<notin> set c"
      using link.prems(5) split_on_parts [of _ slash t] by auto
    moreover have "real_dir fs (if is_abs t then [] else cur)" using link.prems(4) by simp
    ultimately show ?case using link by (simp add: walk_step create_walk_step)
  qed (simp_all add: walk_step create_walk_step real_dir_butlast)
  moreover have "\<forall>c \<in> set C. slash \<notin> set c" using good(1) by (auto simp: list_all_iff good_comp_def)
  ultimately have "ds = []" using w c reg by simp
  then show ?thesis
    using create_walk_via [OF w c] walk_creates [OF walk_real_path [OF e]] by auto
qed

lemma normalize_prefix_loop_resolves:
  assumes wf: "wf_fs (files os)"
  shows "list_all good_comp C \<Longrightarrow> list_all good_comp parts \<Longrightarrow> create_walk (files os) n [] (C @ parts) = Inr d \<Longrightarrow>
    \<exists>m D. normalize_prefix_loop os root (path_of C) parts = path_of D \<and> list_all good_comp D
      \<and> create_walk (files os) m [] D = Inr d"
proof (induction parts arbitrary: C n)
  case Nil
  then show ?case by auto
next
  case (Cons c parts)
  let ?p = "path_of (C @ [c])"
  have c: "c \<noteq> []" "good_comp c" "list_all good_comp (C @ [c])" "list_all good_comp parts"
    "list_all good_comp (C @ c # parts)"
    using Cons.prems by (simp_all add: good_comp_def [of c])
  have stop: "join_path (path_of C # c # parts) = path_of (C @ c # parts)"
    using Cons.prems by (intro join_path_list) auto
  have stopped: ?case if "normalize_prefix_loop os root (path_of C) (c # parts) = path_of (C @ c # parts)"
    using that c(5) Cons.prems(3) by blast
  have cur: "join_path [path_of C, c] = ?p" using Cons.prems c by (simp add: join_path_comp)
  have w: "create_walk (files os) n [] ((C @ [c]) @ parts) = Inr d" using Cons.prems(3) by simp
  have kept: ?case if "normalize_prefix_loop os root (path_of C) (c # parts) = normalize_prefix_loop os root ?p parts"
    using that Cons.IH [OF c(3,4) w] by simp
  have resolved: ?case if "normalize_prefix_loop os root (path_of C) (c # parts) = normalize_prefix_loop os root q parts"
    and q: "eval_symlinks os ?p = Inr q" for q
  proof -
    obtain e where e: "walk (files os) go_links [] (C @ [c]) = Inr e" "q = path_of e"
      using q c(3) by (auto simp: eval_symlinks_Inr)
    have rp: "real_path (files os) e"
      using walk_comps_real [of "files os" go_links ?p e] e(1) c(3) by simp
    obtain k where "create_walk (files os) k [] (e @ parts) = Inr d"
      using create_walk_real [OF wf e(1) rp c(3,4) w] by blast
    then show ?thesis using that(1) Cons.IH [OF real_path_good [OF rp] c(4)] e(2) by simp
  qed
  show ?case
  proof (cases "path_of C = root")
    case True
    then show ?thesis using stopped stop c(1) by simp
  next
    case nroot: False
    show ?thesis
    proof (cases "lstat os ?p")
      case (Inl err)
      then show ?thesis using stopped stop c(1) nroot cur by simp
    next
      case (Inr nd)
      show ?thesis
      proof (cases "eval_symlinks os ?p")
        case ev: (Inl err)
        then show ?thesis using stopped kept stop c(1) nroot cur Inr by (cases nd) auto
      next
        case ev: (Inr q)
        then show ?thesis using stopped resolved [OF _ ev] stop c(1) nroot cur Inr
          by (cases nd) auto
      qed
    qed
  qed
qed

lemma root_parts: "is_abs p \<Longrightarrow>
    split_on slash (trim_prefix (clean p) ''/'') = (if comps p = [] then [[]] else comps p)"
proof -
  assume "is_abs p"
  then have "trim_prefix (clean p) ''/'' = join ''/'' (comps p)"
    by (simp add: clean_abs path_of_def trim_prefix_def)
  moreover have "\<forall>x \<in> set (comps p). slash \<notin> set x"
    using comps_good [of p] by (auto simp: list_all_iff good_comp_def)
  ultimately show ?thesis by (simp add: split_on_join)
qed

lemma NormalizePrefixForRoot_resolves:
  assumes "wf_fs (files os)" "is_abs p" "create_walk (files os) n [] (comps p) = Inr d"
  shows "\<exists>m D. NormalizePrefixForRoot os p root = path_of D \<and> list_all good_comp D
     \<and> create_walk (files os) m [] D = Inr d"
proof (cases "comps p = []")
  case True
  then have "NormalizePrefixForRoot os p root = path_of []"
    using assms(2) by (simp add: NormalizePrefixForRoot_def root_parts path_of_def)
  then show ?thesis using assms(3) True by (auto intro!: exI [of _ "[]"])
next
  case False
  obtain m D where "normalize_prefix_loop os root (path_of []) (comps p) = path_of D"
    "list_all good_comp D" "create_walk (files os) m [] D = Inr d"
    using normalize_prefix_loop_resolves [OF assms(1), of "[]" "comps p" n d root] assms(3) by auto
  with False show ?thesis
    using assms(2) by (auto simp: NormalizePrefixForRoot_def root_parts path_of_def [of "[]"])
qed

text \<open>A place in the file system lies inside a root once the root's own links are resolved.\<close>

definition located_in :: "os \<Rightarrow> string \<Rightarrow> string list \<Rightarrow> bool" where
  "located_in os root d \<longleftrightarrow>
     (case eval_symlinks os (abs_of os root) of Inl _ \<Rightarrow> False | Inr r \<Rightarrow> has_prefix d (comps r))"

text \<open>The path an accepted request names; relative requests start at the real workspace root.\<close>

definition open_target :: "os \<Rightarrow> SandboxScope \<Rightarrow> string \<Rightarrow> string" where
  "open_target os s p =
     (if is_abs p then clean p
      else (case eval_symlinks os (abs_of os (workspaceRoot s)) of
              Inr root \<Rightarrow> join_path [root, p]
            | Inl _ \<Rightarrow> p))"

lemma validateWorkspacePath_located:
  assumes "wf_fs (files os)" "validateWorkspacePath os root p = None"
    "eval_symlinks os (abs_of os root) = Inr r"
    "create_walk (files os) n [] (comps (target_of os r p)) = Inr d"
  shows "located_in os root d"
proof -
  obtain R where R: "real_path (files os) R" "r = path_of R" "comps r = R"
    using eval_symlinks_real [OF assms(3)] by blast
  then have "has_prefix d R"
    using validateWorkspacePath_sound [OF assms(1,2)] assms(3,4) real_path_good by blast
  then show ?thesis using assms(3) R(3) by (simp add: located_in_def)
qed

lemma validate_roots_None:
  "validate_roots os p roots ob tb = None \<Longrightarrow>
     \<exists>root \<in> set roots. validateWorkspacePath os root (NormalizePrefixForRoot os p root) = None"
  by (induction os p roots ob tb rule: validate_roots.induct)
    (auto split: option.splits if_splits)

lemma validateWorkspacePath_root:
  "validateWorkspacePath os root p = None \<Longrightarrow> \<exists>r. eval_symlinks os (abs_of os root) = Inr r"
  by (auto simp: validateWorkspacePath_def split: sum.splits)

lemma comps_clean: "is_abs p \<Longrightarrow> comps (clean p) = comps p"
  by (simp add: clean_abs)

theorem validateAgainstRoots_sound:
  assumes wf: "wf_fs (files os)" and ok: "validateAgainstRoots os p roots = None"
    and hd: "roots \<noteq> []" "hd roots = workspaceRoot s"
    and w: "create_walk (files os) n [] (comps (open_target os s p)) = Inr d"
  shows "\<exists>root \<in> set roots. located_in os root d"
proof (cases "is_abs p")
  case True
  then have "validate_roots os p roots None None = None"
    using ok hd(1) by (simp add: validateAgainstRoots_def split: list.splits)
  then obtain root where root: "root \<in> set roots"
    "validateWorkspacePath os root (NormalizePrefixForRoot os p root) = None"
    using validate_roots_None by blast
  let ?q = "NormalizePrefixForRoot os p root"
  obtain r where r: "eval_symlinks os (abs_of os root) = Inr r"
    using validateWorkspacePath_root root(2) by blast
  have "create_walk (files os) n [] (comps p) = Inr d"
    using w True by (simp add: open_target_def comps_clean)
  then obtain m D where "?q = path_of D" "list_all good_comp D" "create_walk (files os) m [] D = Inr d"
    using NormalizePrefixForRoot_resolves [OF wf True] by blast
  then have m: "create_walk (files os) m [] (comps ?q) = Inr d" "is_abs ?q" by simp_all
  then have "create_walk (files os) m [] (comps (target_of os r ?q)) = Inr d"
    by (simp add: target_of_def abs_of_def abs_path_def comps_clean)
  then show ?thesis using validateWorkspacePath_located [OF wf root(2) r] root(1) by blast
next
  case False
  then have ok: "validateWorkspacePath os (workspaceRoot s) p = None"
    using ok hd by (auto simp: validateAgainstRoots_def neq_Nil_conv)
  then obtain r where r: "eval_symlinks os (abs_of os (workspaceRoot s)) = Inr r"
    using validateWorkspacePath_root by blast
  have "is_abs r" using r by (rule eval_symlinks_abs)
  then have "comps (target_of os r p) = comps (open_target os s p)"
    using False r by (simp add: target_of_def open_target_def abs_of_def abs_path_def
        join_path_is_abs comps_clean)
  then have "located_in os (workspaceRoot s) d"
    using validateWorkspacePath_located [OF wf ok r] w by simp
  then show ?thesis using hd by (metis hd_in_set)
qed

section \<open>The scope as a state machine\<close>

text \<open>
  One step per operation that changes a scope: the permanent grants, the temporary grants
  with the undo they hand out, and running an undo.
\<close>

definition usable_root :: "os \<Rightarrow> string \<Rightarrow> bool" where
  "usable_root os r \<longleftrightarrow>
     eval_symlinks os r = Inr r \<and> stat_is_dir os r = Inr True \<and> dir_of r \<noteq> r"

text \<open>
  \<open>H\<close> collects the hosts the steps saw: the file system may change between two of them.  A root
  was a usable directory on the host it was granted on.
\<close>

definition scope_inv :: "os set \<Rightarrow> SandboxScope \<Rightarrow> bool" where
  "scope_inv H s \<longleftrightarrow>
     (\<forall>r \<in> set (extraRoots s @ readRoots s). \<exists>os \<in> H. usable_root os r)
     \<and> distinct (Scope_Roots s) \<and> distinct (readRoots s)"

inductive scope_step :: "os \<Rightarrow> SandboxScope \<Rightarrow> SandboxScope \<Rightarrow> bool" for os where
  Add: "Scope_Add os p s = Inr (r, s') \<Longrightarrow> scope_step os s s'"
| AddRead: "Scope_AddRead os p s = Inr (r, s') \<Longrightarrow> scope_step os s s'"
| AddTemporaryRead: "Scope_AddTemporaryRead os p s = Inr (r, u, s') \<Longrightarrow> scope_step os s s'"
| AddTemporaryWrite: "Scope_AddTemporaryWrite os p s = Inr (r, u, s') \<Longrightarrow> scope_step os s s'"
| Undo: "scope_step os s (run_undo u s)"

inductive scope_reachable :: "os set \<Rightarrow> SandboxScope \<Rightarrow> SandboxScope \<Rightarrow> bool" for H s where
  start: "scope_reachable H s s"
| step: "scope_reachable H s t \<Longrightarrow> os \<in> H \<Longrightarrow> scope_step os t u \<Longrightarrow> scope_reachable H s u"

inductive_cases scope_stepE: "scope_step os s s'"

lemma path_within_root_self: "r \<noteq> [] \<Longrightarrow> path_within_root r r"
  by (simp add: path_within_root_def rel_def)

lemma covered_by_member: "r \<in> set roots \<Longrightarrow> r \<noteq> [] \<Longrightarrow> covered_by roots r"
  by (auto simp: covered_by_def list_ex_iff intro: path_within_root_self)

lemma normalizeScopeRoot_usable:
  assumes "normalizeScopeRoot os p = Inr r"
  shows "usable_root os r" "is_abs r"
proof -
  obtain q where q: "eval_symlinks os q = Inr r" "stat_is_dir os r = Inr True" "dir_of r \<noteq> r"
    using assms
    by (auto simp: normalizeScopeRoot_def Let_def split: if_splits option.splits sum.splits bool.splits)
  then show "usable_root os r" "is_abs r"
    using eval_symlinks_idem eval_symlinks_abs by (auto simp: usable_root_def)
qed

lemma normalizeScopeRoot_nonempty: "normalizeScopeRoot os p = Inr r \<Longrightarrow> r \<noteq> []"
  by (drule normalizeScopeRoot_usable(2)) (auto simp: is_abs_def)

lemma Scope_Add_cases:
  assumes "Scope_Add os p s = Inr (r, s')"
  shows "normalizeScopeRoot os p = Inr r \<and>
    (s' = s \<or> s' = s\<lparr>extraRoots := extraRoots s @ [r]\<rparr> \<and> r \<notin> set (Scope_Roots s))"
  using assms normalizeScopeRoot_nonempty [of os p r] covered_by_member
  by (fastforce simp: Scope_Add_def Scope_Roots_def split: sum.splits if_splits)

lemma Scope_AddRead_cases:
  assumes "Scope_AddRead os p s = Inr (r, s')"
  shows "normalizeScopeRoot os p = Inr r \<and>
    (s' = s \<or> s' = s\<lparr>readRoots := readRoots s @ [r]\<rparr> \<and> r \<notin> set (readRoots s))"
  using assms normalizeScopeRoot_nonempty [of os p r] covered_by_member
  by (fastforce simp: Scope_AddRead_def split: sum.splits if_splits)

lemma Scope_AddTemporaryRead_cases:
  assumes "Scope_AddTemporaryRead os p s = Inr (r, u, s')"
  shows "normalizeScopeRoot os p = Inr r \<and>
    (s' = s \<and> u = NoUndo \<or>
     s' = s\<lparr>readRoots := readRoots s @ [r]\<rparr> \<and> r \<notin> set (readRoots s) \<and> u = RemoveReadRoot r)"
  using assms normalizeScopeRoot_nonempty [of os p r] covered_by_member
  by (fastforce simp: Scope_AddTemporaryRead_def split: sum.splits if_splits)

lemma Scope_AddTemporaryWrite_cases:
  assumes "Scope_AddTemporaryWrite os p s = Inr (r, u, s')"
  shows "normalizeScopeRoot os p = Inr r \<and>
    (s' = s \<and> u = NoUndo \<or>
     s' = s\<lparr>extraRoots := extraRoots s @ [r]\<rparr> \<and> r \<notin> set (Scope_Roots s) \<and> u = RemoveWriteRoot r)"
  using assms normalizeScopeRoot_nonempty [of os p r] covered_by_member
  by (fastforce simp: Scope_AddTemporaryWrite_def writeRootCovers_def Scope_Roots_def split: sum.splits if_splits)

lemmas scope_op_cases = Scope_Add_cases Scope_AddRead_cases Scope_AddTemporaryRead_cases
  Scope_AddTemporaryWrite_cases

lemma scope_inv_undo: "scope_inv H s \<Longrightarrow> scope_inv H (run_undo u s)"
  by (cases u) (auto simp: scope_inv_def removeScopeRoot_def Scope_Roots_def)

lemma scope_inv_grow:
  assumes "scope_inv H s" "os \<in> H" "normalizeScopeRoot os p = Inr r"
  shows "r \<notin> set (Scope_Roots s) \<Longrightarrow> scope_inv H (s\<lparr>extraRoots := extraRoots s @ [r]\<rparr>)"
    "r \<notin> set (readRoots s) \<Longrightarrow> scope_inv H (s\<lparr>readRoots := readRoots s @ [r]\<rparr>)"
  using assms normalizeScopeRoot_usable(1) [OF assms(3)] by (auto simp: scope_inv_def Scope_Roots_def)

lemma scope_step_inv: "scope_step os s s' \<Longrightarrow> os \<in> H \<Longrightarrow> scope_inv H s \<Longrightarrow> scope_inv H s'"
  by (erule scope_stepE; (simp add: scope_inv_undo)?; (drule scope_op_cases); auto simp: scope_inv_grow)

lemma scope_step_workspace: "scope_step os s s' \<Longrightarrow> workspaceRoot s' = workspaceRoot s"
proof (induction rule: scope_step.induct)
  case (Undo s u)
  then show ?case by (cases u) auto
qed (auto dest!: scope_op_cases)

lemma scope_reachable_inv: "scope_reachable H s t \<Longrightarrow> scope_inv H s \<Longrightarrow> scope_inv H t"
  by (induction rule: scope_reachable.induct) (auto intro: scope_step_inv)

lemma scope_reachable_workspace: "scope_reachable H s t \<Longrightarrow> workspaceRoot t = workspaceRoot s"
  by (induction rule: scope_reachable.induct) (auto dest: scope_step_workspace)

text \<open>A fresh scope is built by the same operation, from a scope with no roots but the workspace.\<close>

lemma add_reachable:
  "Scope_Add os p s = Inr (r, s') \<Longrightarrow> os \<in> H \<Longrightarrow> scope_reachable H u s \<Longrightarrow> scope_reachable H u s'"
  by (auto intro: scope_reachable.step scope_step.Add)

lemma add_all_reachable: "add_all os extras s = Inr t \<Longrightarrow> os \<in> H \<Longrightarrow> scope_reachable H u s \<Longrightarrow> scope_reachable H u t"
  by (induction extras arbitrary: s)
    (auto split: sum.splits dest: add_reachable)

lemma add_ignoring_reachable: "os \<in> H \<Longrightarrow> scope_reachable H u s \<Longrightarrow> scope_reachable H u (add_ignoring os roots s)"
  by (induction roots arbitrary: s)
    (auto simp: add_ignoring_def split: sum.splits dest: add_reachable)

abbreviation empty_scope :: "string \<Rightarrow> SandboxScope" where
  "empty_scope ws \<equiv> \<lparr>workspaceRoot = ws, readRoots = [], extraRoots = []\<rparr>"

lemma NewScope_reachable:
  assumes "NewScope os root extras = Inr s" "os \<in> H"
  shows "scope_reachable H (empty_scope (normalizeWorkspaceRootBestEffort os root)) s"
  using assms add_all_reachable [OF _ assms(2) scope_reachable.start]
  by (auto simp: NewScope_def add_ignoring_reachable split: sum.splits if_splits)

lemma scope_reachable_trans: "scope_reachable H t u \<Longrightarrow> scope_reachable H s t \<Longrightarrow> scope_reachable H s u"
  by (induction rule: scope_reachable.induct) (auto intro: scope_reachable.step)

lemma scope_inv_empty: "scope_inv H (empty_scope ws)"
  by (simp add: scope_inv_def Scope_Roots_def)

lemma normalizeWorkspaceRootBestEffort_cases:
  "normalizeWorkspaceRootBestEffort os root = [] \<and> trim_space root = [] \<or>
   eval_symlinks os (abs_of os (trim_space root)) = Inr (normalizeWorkspaceRootBestEffort os root) \<and>
     eval_symlinks os (normalizeWorkspaceRootBestEffort os root) = Inr (normalizeWorkspaceRootBestEffort os root) \<or>
   isl (eval_symlinks os (abs_of os (trim_space root))) \<and>
     normalizeWorkspaceRootBestEffort os root = clean (abs_of os (trim_space root))"
  using eval_symlinks_idem [of os "abs_of os (trim_space root)"]
  by (cases "eval_symlinks os (abs_of os (trim_space root))") (auto simp: normalizeWorkspaceRootBestEffort_def Let_def)

lemma removeScopeRoot_snoc: "r \<notin> set rs \<Longrightarrow> removeScopeRoot (rs @ [r]) r = rs"
  by (auto simp: removeScopeRoot_def filter_id_conv)

text \<open>Undoing a temporary grant right away gives the scope back exactly.\<close>

lemma temporary_write_undo:
  "Scope_AddTemporaryWrite os p s = Inr (r, u, s') \<Longrightarrow> run_undo u s' = s"
  by (drule Scope_AddTemporaryWrite_cases) (auto simp: removeScopeRoot_snoc Scope_Roots_def)

lemma temporary_read_undo:
  "Scope_AddTemporaryRead os p s = Inr (r, u, s') \<Longrightarrow> run_undo u s' = s"
  by (drule Scope_AddTemporaryRead_cases) (auto simp: removeScopeRoot_snoc)

text \<open>A permanent grant covers what it was asked for.\<close>

lemma Scope_Add_covers: "Scope_Add os p s = Inr (r, s') \<Longrightarrow> covered_by (Scope_Roots s') r"
  using normalizeScopeRoot_nonempty [of os p r]
  by (auto simp: Scope_Add_def Scope_Roots_def covered_by_def intro: path_within_root_self
      split: sum.splits if_splits)

text \<open>
  A permanent grant issued while a temporary grant of the same directory is active stores
  nothing, so the later undo of the temporary grant removes the directory again.
\<close>

lemma session_grant_lost:
  assumes "Scope_AddTemporaryWrite os p s = Inr (r, RemoveWriteRoot r, s1)"
  shows "\<exists>s2. Scope_Add os p s1 = Inr (r, s2) \<and> run_undo (RemoveWriteRoot r) s2 = s"
proof -
  have n: "normalizeScopeRoot os p = Inr r" and s1: "s1 = s\<lparr>extraRoots := extraRoots s @ [r]\<rparr>"
    and nin: "r \<notin> set (extraRoots s)"
    using Scope_AddTemporaryWrite_cases [OF assms] by (auto simp: Scope_Roots_def)
  have "covered_by (workspaceRoot s1 # extraRoots s1) r"
    using s1 normalizeScopeRoot_nonempty [OF n] by (intro covered_by_member) auto
  then have "Scope_Add os p s1 = Inr (r, s1)" using n by (simp add: Scope_Add_def)
  with s1 nin show ?thesis by (simp add: removeScopeRoot_snoc)
qed

end
