(* ===== verification/Risk.thy ===== *)
theory Risk
  imports Go_Regexp Analyzer Path_Guard "HOL-Library.Char_ord" "HOL-Library.List_Lexorder"
begin

text \<open>
  The risk classification of a request: \<open>internal/sandbox/risk.go\<close>.  The patterns of the
  source are written with the combinators of \<open>Go_Regexp\<close>; the shell parser is a parameter, as
  in \<open>Analyzer\<close>.
\<close>

section \<open>Patterns\<close>

abbreviation wb :: regexp where "wb \<equiv> Word_Boundary"
abbreviation ws1 :: regexp where "ws1 \<equiv> plus ws"
abbreviation wss :: regexp where "wss \<equiv> Star ws"
abbreviation letters :: regexp where "letters \<equiv> Star (Class letter)"
abbreviation digit :: regexp where "digit \<equiv> Class is_digit"
abbreviation quotes :: regexp where "quotes \<equiv> one_of [quote2, quote1]"

text \<open>\<open>$HOME\<close> with optional braces.\<close>

definition home_var :: regexp where
  "home_var = seqs [chr (CHR ''$''), opt (chr (CHR ''{'')), lit_fold ''HOME'', opt (chr (CHR ''}''))]"

definition option_word :: regexp where
  "option_word = seqs [chr (CHR ''-''), plus nws, ws1]"

text \<open>An option word holding the given letter in either case.\<close>

definition flag_word :: "char \<Rightarrow> regexp" where
  "flag_word c = seqs [chr (CHR ''-''), letters, chr_fold c, letters]"

definition system_dirs :: "string list" where
  "system_dirs = [''etc'', ''usr'', ''bin'', ''sbin'', ''lib'', ''lib64'', ''var'', ''boot'', ''opt'',
     ''root'', ''sys'', ''proc'', ''dev'']"

definition destructiveCommandPattern :: regexp where
  "destructiveCommandPattern = alts [
     seqs [wb, lit_fold ''rm'', ws1,
       alts [seqs [chr (CHR ''-''), letters, chr_fold (CHR ''r''), letters, chr_fold (CHR ''f'')],
             lit_fold ''-rf'', lit_fold ''-fr''],
       ws1, opt (seqs [lit ''--'', ws1]), opt quotes,
       alts [home_var, lit ''/'', lit ''~'', lit ''*''], opt quotes],
     seqs [wb, lit_fold ''mkfs'', wb],
     seqs [wb, lit_fold ''dd'', ws1, lit_fold ''if='' ],
     seqs [wb, lit_fold ''chmod'', ws1, plus (seqs [flag_word (CHR ''r''), ws1]),
       opt (lit ''0''), lit ''777'', wb],
     seqs [wb, lit_fold ''chmod'', ws1, Star option_word, opt (lit ''0''), lit ''777'', ws1,
       flag_word (CHR ''r''), wb],
     seqs [wb, lit_fold ''chmod'', ws1, Star option_word, opt (lit ''0''), lit ''777'', ws1,
       opt quotes, lit ''/'', alts [ws, Eol, quotes, seqs [words_fold system_dirs, wb]]],
     seqs [wb, lit_fold ''chown'', ws1, lit_fold ''-R'', wb]]"

definition pipedInstallerPattern :: regexp where
  "pipedInstallerPattern = seqs [wb, words_fold [''curl'', ''wget'', ''fetch'', ''aria2c''], wb,
     Star (Class (\<lambda>c. c \<noteq> CHR ''|'')), lit ''|'', wss,
     opt (words_fold [''ba'', ''z'', ''k'', ''da'']), lit_fold ''sh'', wb]"

definition unparseableNetworkPattern :: regexp where
  "unparseableNetworkPattern = alts [
     seqs [wb, words_fold [''curl'', ''wget'', ''fetch'', ''aria2c'', ''ssh'', ''scp'', ''sftp'', ''rsync'',
       ''nc'', ''ncat'', ''netcat'', ''telnet'', ''ftp'', ''npx'', ''http-server'', ''vite'', ''next'', ''nuxt'',
       ''astro''], wb],
     seqs [wb, words_fold [''npm'', ''pnpm'', ''yarn'', ''bun'', ''pip'', ''pip2'', ''pip3''], ws1,
       alts [words_fold [''install'', ''add'', ''publish'', ''login'', ''start'', ''serve'', ''dev'', ''preview''],
         seqs [lit_fold ''run'', ws1, words_fold [''start'', ''serve'', ''dev'', ''preview'']],
         words_fold [''exec'', ''x'', ''dlx'']], wb],
     seqs [wb, lit_fold ''go'', ws1, lit_fold ''get'', wb],
     seqs [wb, lit_fold ''git'', ws1, lit_fold ''clone'', wb],
     seqs [wb, lit_fold ''python'', opt (alts [lit ''2'', lit ''3'']), ws1, lit_fold ''-m'', ws1,
       alts [lit_fold ''http.server'', seqs [lit_fold ''pip'', ws1, lit_fold ''install'']], wb],
     seqs [wb, lit_fold ''gh'', ws1,
       alts [lit_fold ''api'', seqs [lit_fold ''repo'', ws1, lit_fold ''clone''],
             seqs [lit_fold ''release'', ws1, lit_fold ''download'']], wb]]"

definition block_device :: regexp where
  "block_device = seqs [lit_fold ''/dev/'', alts [
     seqs [lit_fold ''sd'', plus (Class letter), Star digit],
     seqs [lit_fold ''nvme'', plus digit, lit_fold ''n'', plus digit, opt (seqs [lit_fold ''p'', plus digit])],
     seqs [lit_fold ''hd'', plus (Class letter), Star digit],
     seqs [lit_fold ''xvd'', plus (Class letter), Star digit],
     seqs [lit_fold ''mmcblk'', plus digit]]]"

definition destructiveExtraPatterns :: "regexp list" where
  "destructiveExtraPatterns = [
     seqs [lit '':'', wss, lit ''('', wss, lit '')'', wss, lit ''{'', wss, lit '':'', wss, lit ''|'', wss,
       lit '':'', wss, lit ''&'', wss, lit ''}'', wss, lit '';'', wss, lit '':'' ],
     seqs [lit ''>'', wss, block_device],
     seqs [wb, lit_fold ''of='', block_device],
     seqs [wb, lit_fold ''rm'', ws1,
       Star (seqs [lit ''-'', opt (lit ''-''), plus nws, ws1]),
       opt (seqs [lit ''--'', ws1]), opt quotes,
       alts [seqs [lit ''/'', opt (lit ''*'')], lit ''~'', home_var, lit ''*''], opt quotes, alts [ws, Eol]],
     seqs [wb, lit_fold ''mkfs'', lit ''.'', plus (Class (\<lambda>c. letter c \<or> is_digit c)), wb]]"

definition matchesDestructive :: "string \<Rightarrow> bool" where
  "matchesDestructive command \<longleftrightarrow>
     match_string destructiveCommandPattern command \<or>
     list_ex (\<lambda>pattern. match_string pattern command) destructiveExtraPatterns"

definition matchesUnparseableNetwork :: "string \<Rightarrow> bool" where
  "matchesUnparseableNetwork command = match_string unparseableNetworkPattern command"

section \<open>Arguments\<close>

definition argString :: "args \<Rightarrow> string \<Rightarrow> string" where
  "argString as key =
     (case as key of
        None \<Rightarrow> []
      | Some ArgNil \<Rightarrow> []
      | Some (ArgString s) \<Rightarrow> trim_space s
      | Some (ArgOther s) \<Rightarrow> trim_space s)"

fun firstArgString :: "args \<Rightarrow> string list \<Rightarrow> string" where
  "firstArgString as [] = []"
| "firstArgString as (key # keys) =
     (let v = argString as key in if v \<noteq> [] then v else firstArgString as keys)"

section \<open>Paths named by a patch\<close>

definition stripPatchPrefix :: "string \<Rightarrow> string" where
  "stripPatchPrefix path =
     (let p = trim_space path
      in if has_prefix p ''a/'' \<or> has_prefix p ''b/'' then drop 2 p else p)"

definition patchHunkCount :: "string \<Rightarrow> int" where
  "patchHunkCount spec =
     (let (_, count, ok) = cut spec '',''
      in if ok then (case atoi count of Some n \<Rightarrow> n | None \<Rightarrow> 0) else 1)"

fun hunk_counts :: "string list \<Rightarrow> int \<Rightarrow> int \<Rightarrow> int \<times> int" where
  "hunk_counts [] old new = (old, new)"
| "hunk_counts (field # fs) old new =
     (if has_prefix field ''-'' then hunk_counts fs (patchHunkCount (tl field)) new
      else if has_prefix field ''+'' then hunk_counts fs old (patchHunkCount (tl field))
      else hunk_counts fs old new)"

definition parsePatchHunkCounts :: "string \<Rightarrow> int \<times> int" where
  "parsePatchHunkCounts line =
     (let (_, rest, ok) = cut line ''@@''
      in if \<not> ok then (0, 0)
         else (let (before, _, ok) = cut rest ''@@''
               in hunk_counts (str_fields (if ok then before else rest)) 0 0))"

text \<open>The line loop with its state: inside a hunk, and the old and new lines left in it.\<close>

fun patch_lines :: "string list \<Rightarrow> bool \<Rightarrow> int \<Rightarrow> int \<Rightarrow> string list" where
  "patch_lines [] inHunk old new = []"
| "patch_lines (line # lines) inHunk old new =
     (if inHunk \<and> (0 < old \<or> 0 < new) then
        (if has_prefix line ''-'' then patch_lines lines inHunk (old - 1) new
         else if has_prefix line ''+'' then patch_lines lines inHunk old (new - 1)
         else if has_prefix line [backslash] then patch_lines lines inHunk old new
         else patch_lines lines inHunk (old - 1) (new - 1))
      else if has_prefix line ''diff --git '' then
        (let fs = str_fields line
         in if 4 \<le> length fs
            then stripPatchPrefix (fs ! 2) # stripPatchPrefix (fs ! 3) # patch_lines lines False old new
            else patch_lines lines False old new)
      else if has_prefix line ''@@'' then
        (let (old, new) = parsePatchHunkCounts line
         in patch_lines lines (0 < old \<or> 0 < new) old new)
      else if has_prefix line ''--- '' \<or> has_prefix line ''+++ '' then
        (let fs = str_fields line
         in if 2 \<le> length fs then stripPatchPrefix (fs ! 1) # patch_lines lines False old new
            else patch_lines lines False old new)
      else patch_lines lines False old new)"

definition patchHeaderPaths :: "string \<Rightarrow> string list" where
  "patchHeaderPaths patch = patch_lines (split_on newline (replace_all patch [cr, newline] [newline])) False 0 0"

definition applyPatchRequestPaths :: "args \<Rightarrow> string list" where
  "applyPatchRequestPaths as =
     (let patch = firstArgString as [''patch'', ''diff'']; cwd = firstArgString as [''cwd'']
      in if patch = [] then []
         else List.map (\<lambda>path. if cwd \<noteq> [] \<and> clean cwd \<noteq> ''.'' \<and> \<not> is_abs path
                               then join_path [cwd, path] else path)
                (filter (\<lambda>path. path \<noteq> [] \<and> path \<noteq> ''/dev/null'') (patchHeaderPaths patch)))"

definition path_arg_keys :: "string list" where
  "path_arg_keys = [''path'', ''file'', ''file_path'', ''filepath'', ''filename'', ''cwd'', ''workdir'', ''dir'',
     ''directory'']"

definition requestPaths :: "Request \<Rightarrow> string list" where
  "requestPaths request =
     filter (\<lambda>v. v \<noteq> []) (List.map (argString (Args request)) path_arg_keys) @
     (if ToolName request = ''apply_patch'' then applyPatchRequestPaths (Args request) else [])"

definition applyPatchPathBlock :: "Request \<Rightarrow> pathBlock option" where
  "applyPatchPathBlock request =
     (if ToolName request \<noteq> ''apply_patch'' then None
      else (let patch = firstArgString (Args request) [''patch'', ''diff'']
            in if patch = [] then None
               else map_option (\<lambda>path. outside_block path
                        (''patch path '' @ go_quote path @ '' must stay inside the workspace''))
                      (find (\<lambda>path. path \<noteq> [] \<and> path \<noteq> ''/dev/null'' \<and>
                         (is_abs path \<or> path = ''..'' \<or> has_prefix path ''../'')) (patchHeaderPaths patch))))"

section \<open>Classification\<close>

text \<open>The calls of \<open>add\<close> in order, as pairs of a category and a level.\<close>

fun side_effect_risks :: "SideEffect \<Rightarrow> (string \<times> RiskLevel) list" where
  "side_effect_risks SideEffectRead = [(''read'', RiskLow)]"
| "side_effect_risks SideEffectWrite = [(''write'', RiskMedium)]"
| "side_effect_risks SideEffectShell = [(''shell'', RiskHigh)]"
| "side_effect_risks SideEffectNetwork = [(''network'', RiskHigh)]"
| "side_effect_risks SideEffectLocalControl = [(''local_control'', RiskHigh)]"
| "side_effect_risks SideEffectLocalBrowser = [(''local_browser'', RiskHigh)]"
| "side_effect_risks SideEffectLocalDesktop = [(''local_desktop'', RiskHigh)]"
| "side_effect_risks SideEffectLocalTerminal = [(''local_terminal'', RiskHigh)]"
| "side_effect_risks SideEffectOutOfWorkspace = [(''out_of_workspace'', RiskCritical)]"
| "side_effect_risks SideEffectNone = []"

definition command_risks :: "shell_parser \<Rightarrow> string \<Rightarrow> (string \<times> RiskLevel) list" where
  "command_risks parse command =
     (if command = [] then []
      else (let analysis = AnalyzeCommand parse command
            in (if matchesDestructive command then [(''destructive'', RiskCritical)] else [])
             @ (if match_string pipedInstallerPattern command then [(''piped_installer'', RiskCritical)] else [])
             @ (if ar_network analysis then [(''network'', RiskCritical)] else [])
             @ (if TooComplex analysis \<and> matchesUnparseableNetwork command
                then [(''network'', RiskCritical)] else [])
             @ (if ar_destructive analysis then [(''destructive'', RiskCritical)] else [])
             @ (if TooComplex analysis then [(''unparseable_command'', RiskHigh)] else [])))"

definition path_risks :: "os \<Rightarrow> SandboxScope option \<Rightarrow> string \<Rightarrow> string \<Rightarrow> (string \<times> RiskLevel) list" where
  "path_risks os s workspace path =
     (if is_abs path then [(''absolute_path'', RiskMedium)] else [])
     @ (if path = ''..'' \<or> has_prefix (clean path) ''../'' then [(''path_escape'', RiskCritical)] else [])
     @ (if workspace = [] then []
        else (case (case s of Some s \<Rightarrow> Scope_validate os s path
                            | None \<Rightarrow> validateWorkspacePath os workspace path) of
                None \<Rightarrow> []
              | Some block \<Rightarrow>
                  if pb_code block = BlockSymlinkTraversal then [(''symlink_traversal'', RiskCritical)]
                  else [(''out_of_workspace'', RiskCritical)]))"

definition command_arg_keys :: "string list" where
  "command_arg_keys = [''command'', ''cmd'', ''script'', ''shell'']"

definition request_command :: "Request \<Rightarrow> string" where
  "request_command request = firstArgString (Args request) command_arg_keys"

definition request_risks ::
    "os \<Rightarrow> shell_parser \<Rightarrow> SandboxScope option \<Rightarrow> Request \<Rightarrow> (string \<times> RiskLevel) list" where
  "request_risks os parse s request =
     side_effect_risks (req_side_effect request)
     @ command_risks parse (request_command request)
     @ List.concat (List.map (path_risks os s (WorkspaceRoot request)) (requestPaths request))"

text \<open>\<open>add\<close>: the level is raised, the category joins the set.\<close>

definition risk_add :: "string \<times> RiskLevel \<Rightarrow> string set \<times> RiskLevel \<Rightarrow> string set \<times> RiskLevel" where
  "risk_add e st = (insert (fst e) (fst st),
     if riskRank (snd st) < riskRank (snd e) then snd e else snd st)"

definition riskReason :: "RiskLevel \<Rightarrow> string list \<Rightarrow> string" where
  "riskReason level categories =
     (if categories = [] then RiskLevel_string level
      else RiskLevel_string level @ '' risk: '' @ join '', '' categories)"

definition classifyWithScope :: "os \<Rightarrow> shell_parser \<Rightarrow> SandboxScope option \<Rightarrow> Request \<Rightarrow> Risk" where
  "classifyWithScope os parse s request =
     (let (categories, level) = foldl (\<lambda>st e. risk_add e st) ({}, RiskLow) (request_risks os parse s request);
          names = sorted_list_of_set categories
      in \<lparr>Level = level, Categories = names, risk_reason = riskReason level names\<rparr>)"

definition Classify :: "os \<Rightarrow> shell_parser \<Rightarrow> Request \<Rightarrow> Risk" where
  "Classify os parse request = classifyWithScope os parse None request"

definition HasRiskCategory :: "Risk \<Rightarrow> string \<Rightarrow> bool" where
  "HasRiskCategory risk category = list_ex (\<lambda>candidate. candidate = category) (Categories risk)"

section \<open>The classification\<close>

lemma risk_add_snd: "snd (risk_add e st) = max (snd st) (snd e)"
  by (simp add: risk_add_def max_def less_eq_RiskLevel_def)

lemma foldl_risk_add_fst: "fst (foldl (\<lambda>st e. risk_add e st) st es) = fst st \<union> fst ` set es"
  by (induction es arbitrary: st) (auto simp: risk_add_def)

lemma foldl_risk_add_snd: "snd (foldl (\<lambda>st e. risk_add e st) st es) = Max (insert (snd st) (snd ` set es))"
proof (induction es arbitrary: st)
  case Nil
  then show ?case by simp
next
  case (Cons e es)
  have "Max (insert (max (snd st) (snd e)) (snd ` set es)) = Max (insert (snd st) (insert (snd e) (snd ` set es)))"
  proof (cases "es = []")
    case True
    then show ?thesis by simp
  next
    case False
    then show ?thesis by (simp add: max.assoc)
  qed
  then show ?case using Cons.IH by (simp add: risk_add_snd)
qed

lemma classify_Level:
  "Level (classifyWithScope os parse s request) = Max (insert RiskLow (snd ` set (request_risks os parse s request)))"
  using foldl_risk_add_snd [of "({}, RiskLow)" "request_risks os parse s request"]
  by (cases "foldl (\<lambda>st e. risk_add e st) ({}, RiskLow) (request_risks os parse s request)")
    (simp add: classifyWithScope_def Let_def)

lemma classify_Categories:
  "Categories (classifyWithScope os parse s request) = sorted_list_of_set (fst ` set (request_risks os parse s request))"
  using foldl_risk_add_fst [of "({}, RiskLow)" "request_risks os parse s request"]
  by (cases "foldl (\<lambda>st e. risk_add e st) ({}, RiskLow) (request_risks os parse s request)")
    (simp add: classifyWithScope_def Let_def)

lemma HasRiskCategory_iff:
  "HasRiskCategory (classifyWithScope os parse s request) c \<longleftrightarrow>
     (\<exists>l. (c, l) \<in> set (request_risks os parse s request))"
  by (force simp: HasRiskCategory_def classify_Categories list_ex_iff)

lemma risk_level_at_least:
  "(c, l) \<in> set (request_risks os parse s request) \<Longrightarrow> l \<le> Level (classifyWithScope os parse s request)"
  unfolding classify_Level by (rule Max_ge) force+

lemmas request_risks_simps = request_risks_def command_risks_def path_risks_def Let_def

lemma side_effect_risks_no_destructive [simp]:
  "(''destructive'', l) \<notin> set (side_effect_risks e)"
  "(''symlink_traversal'', l) \<notin> set (side_effect_risks e)"
  "(''path_escape'', l) \<notin> set (side_effect_risks e)"
  "(''piped_installer'', l) \<notin> set (side_effect_risks e)"
  "(''unparseable_command'', l) \<notin> set (side_effect_risks e)"
  by (cases e; simp)+

lemma path_risks_categories:
  "(c, l) \<in> set (path_risks os s workspace p) \<Longrightarrow>
    c \<in> {''absolute_path'', ''path_escape'', ''symlink_traversal'', ''out_of_workspace''}"
  by (auto simp: path_risks_def split: if_splits option.splits)

lemma request_risks_destructive:
  "(''destructive'', l) \<in> set (request_risks os parse s request) \<longleftrightarrow>
     (''destructive'', l) \<in> set (command_risks parse (request_command request))"
  by (auto simp: request_risks_def dest: path_risks_categories)

lemma command_risks_destructive:
  "(\<exists>l. (''destructive'', l) \<in> set (command_risks parse command)) \<longleftrightarrow>
     command \<noteq> [] \<and> (matchesDestructive command \<or> ar_destructive (AnalyzeCommand parse command))"
  by (auto simp: command_risks_def Let_def)

text \<open>The analysis of a whole command.\<close>

lemma AnalyzeCommand_destructive:
  "ar_destructive (AnalyzeCommand parse command) \<longleftrightarrow> trim_space command \<noteq> [] \<and>
     (\<exists>prog rest. runs parse maxAnalyzerDepth command prog rest \<and> call_destructive prog rest)"
  by (simp add: AnalyzeCommand_def destructive.analyzeInto_iff destructive.reported_def no_analysis_def)

lemma AnalyzeCommand_network:
  "ar_network (AnalyzeCommand parse command) \<longleftrightarrow> trim_space command \<noteq> [] \<and>
     (\<exists>prog rest. runs parse maxAnalyzerDepth command prog rest \<and> commandUsesNetwork prog rest)"
  by (simp add: AnalyzeCommand_def network.analyzeInto_iff network.reported_def no_analysis_def)

lemma AnalyzeCommand_TooComplex:
  "TooComplex (AnalyzeCommand parse command) \<longleftrightarrow> trim_space command \<noteq> [] \<and> fails parse maxAnalyzerDepth command"
  by (simp add: AnalyzeCommand_def too_complex.analyzeInto_iff too_complex.reported_def no_analysis_def)

lemma AnalyzeCommand_interactive:
  "ar_interactive (AnalyzeCommand parse command) \<longleftrightarrow> trim_space command \<noteq> [] \<and>
     (\<exists>prog rest. runs parse maxAnalyzerDepth command prog rest \<and> call_interactive prog rest)"
  by (simp add: AnalyzeCommand_def interactive.analyzeInto_iff interactive.reported_def no_analysis_def)

lemma argString_trimmed: "trim_space (argString as key) = argString as key"
  by (auto simp: argString_def split: option.splits arg_value.splits)

lemma firstArgString_trimmed: "trim_space (firstArgString as keys) = firstArgString as keys"
proof (induction keys)
  case Nil
  then show ?case by (simp add: trim_space_def trim_by_def trim_left_by_def trim_right_by_def)
next
  case (Cons key keys)
  then show ?case by (simp add: Let_def argString_trimmed)
qed

lemma request_command_trimmed: "trim_space (request_command request) = request_command request"
  by (simp add: request_command_def firstArgString_trimmed)

lemma destructive_iff:
  "HasRiskCategory (classifyWithScope os parse s request) ''destructive'' \<longleftrightarrow>
     request_command request \<noteq> [] \<and>
     (matchesDestructive (request_command request) \<or>
      (\<exists>prog rest. runs parse maxAnalyzerDepth (request_command request) prog rest \<and> call_destructive prog rest))"
proof -
  have "HasRiskCategory (classifyWithScope os parse s request) ''destructive'' \<longleftrightarrow>
      request_command request \<noteq> [] \<and> (matchesDestructive (request_command request) \<or>
        ar_destructive (AnalyzeCommand parse (request_command request)))"
    by (simp only: HasRiskCategory_iff request_risks_destructive command_risks_destructive)
  then show ?thesis using request_command_trimmed [of request] by (auto simp: AnalyzeCommand_destructive)
qed

text \<open>A request without an escape category names only paths the guard accepts.\<close>

lemma no_escape_category:
  assumes "\<not> HasRiskCategory (classifyWithScope os parse (Some s) request) ''out_of_workspace''"
    "\<not> HasRiskCategory (classifyWithScope os parse (Some s) request) ''symlink_traversal''"
    "WorkspaceRoot request \<noteq> []" "p \<in> set (requestPaths request)"
  shows "Scope_validate os s p = None"
proof (rule ccontr)
  assume "Scope_validate os s p \<noteq> None"
  then obtain b where "Scope_validate os s p = Some b" by blast
  then have "(''symlink_traversal'', RiskCritical) \<in> set (path_risks os (Some s) (WorkspaceRoot request) p) \<or>
      (''out_of_workspace'', RiskCritical) \<in> set (path_risks os (Some s) (WorkspaceRoot request) p)"
    using assms(3) by (simp add: path_risks_def)
  then have "\<exists>l c. c \<in> {''symlink_traversal'', ''out_of_workspace''} \<and>
      (c, l) \<in> set (request_risks os parse (Some s) request)"
    using assms(4) unfolding request_risks_def by force
  then show False using assms(1,2) by (auto simp: HasRiskCategory_iff)
qed

section \<open>Patch headers\<close>

text \<open>A unified diff as structured data, and its text.\<close>

datatype hunk_line = Context string | Removed string | Added string | No_Newline

fun hunk_line_text :: "hunk_line \<Rightarrow> string" where
  "hunk_line_text (Context s) = CHR '' '' # s"
| "hunk_line_text (Removed s) = CHR ''-'' # s"
| "hunk_line_text (Added s) = CHR ''+'' # s"
| "hunk_line_text No_Newline = backslash # '' No newline at end of file''"

definition old_count :: "hunk_line list \<Rightarrow> nat" where
  "old_count ls = length (filter (\<lambda>l. case l of Context _ \<Rightarrow> True | Removed _ \<Rightarrow> True | _ \<Rightarrow> False) ls)"

definition new_count :: "hunk_line list \<Rightarrow> nat" where
  "new_count ls = length (filter (\<lambda>l. case l of Context _ \<Rightarrow> True | Added _ \<Rightarrow> True | _ \<Rightarrow> False) ls)"

datatype hunk = Hunk (old_start: nat) (new_start: nat) (body: "hunk_line list")

definition hunk_header :: "hunk \<Rightarrow> string" where
  "hunk_header h = ''@@ -'' @ itoa (old_start h) @ '','' @ itoa (old_count (body h)) @ '' +'' @
     itoa (new_start h) @ '','' @ itoa (new_count (body h)) @ '' @@''"

definition hunk_text :: "hunk \<Rightarrow> string list" where
  "hunk_text h = hunk_header h # List.map hunk_line_text (body h)"

datatype file_patch = File_Patch (old_path: string) (new_path: string) (hunks: "hunk list")

definition file_patch_text :: "file_patch \<Rightarrow> string list" where
  "file_patch_text f = (''--- a/'' @ old_path f) # (''+++ b/'' @ new_path f) #
     List.concat (List.map hunk_text (hunks f))"

definition patch_text :: "file_patch list \<Rightarrow> string" where
  "patch_text fs = join [newline] (List.concat (List.map file_patch_text fs))"


lemma patch_lines_outside: "patch_lines ls False o1 n1 = patch_lines ls False 0 0"
proof (induction ls arbitrary: o1 n1)
  case (Cons l ls)
  define X where "X = patch_lines ls False 0 0"
  have X: "patch_lines ls False a b = X" for a b unfolding X_def by (rule Cons.IH)
  show ?case by (simp only: patch_lines.simps Let_def simp_thms if_False X)
qed simp

lemma patch_lines_done: "patch_lines ls i 0 0 = patch_lines ls False 0 0"
  by (cases ls) (simp_all add: Let_def)

lemma count_simps [simp]:
  "old_count [] = 0" "new_count [] = 0"
  "old_count (Context s # b) = Suc (old_count b)" "new_count (Context s # b) = Suc (new_count b)"
  "old_count (Removed s # b) = Suc (old_count b)" "new_count (Removed s # b) = new_count b"
  "old_count (Added s # b) = old_count b" "new_count (Added s # b) = Suc (new_count b)"
  "old_count (No_Newline # b) = old_count b" "new_count (No_Newline # b) = new_count b"
  by (simp_all add: old_count_def new_count_def)

lemma patch_lines_body:
  "i \<or> (old_count b = 0 \<and> new_count b = 0) \<Longrightarrow>
   patch_lines (List.map hunk_line_text b @ rest) i (int (old_count b)) (int (new_count b)) =
   patch_lines rest False 0 0"
proof (induction b arbitrary: i)
  case Nil
  then show ?case using patch_lines_done [of rest i] by simp
next
  case (Cons l b)
  then show ?case
  proof (cases l)
    case No_Newline
    show ?thesis
    proof (cases "old_count b = 0 \<and> new_count b = 0")
      case True
      then have "patch_lines (List.map hunk_line_text b @ rest) False 0 0 = patch_lines rest False 0 0"
        using Cons.IH [of False] by simp
      then show ?thesis using True No_Newline by simp
    next
      case False
      then show ?thesis using Cons No_Newline by auto
    qed
  qed auto
qed

lemma itoa_no_space: "x \<in> set (itoa n) \<Longrightarrow> is_digit x"
  using itoa_digits [of n] by (auto simp: list_all_iff)

lemma itoa_fresh [simp]: "CHR '','' \<notin> set (itoa n)" "CHR ''@'' \<notin> set (itoa n)" "\<forall>x \<in> set (itoa n). \<not> is_space x"
  "itoa n \<noteq> []"
  using itoa_digits [of n] by (auto simp: is_digit_def is_space_def dest!: itoa_no_space)

lemma patchHunkCount_itoa: "int n < 2 ^ 63 \<Longrightarrow> patchHunkCount (itoa a @ CHR '','' # itoa n) = int n"
  using cut_append [of "CHR '',''" "itoa a" "[]" "itoa n"] by (simp add: patchHunkCount_def atoi_itoa)

lemma parsePatchHunkCounts_header:
  assumes "int (old_count (body h)) < 2 ^ 63" "int (new_count (body h)) < 2 ^ 63"
  shows "parsePatchHunkCounts (hunk_header h) = (int (old_count (body h)), int (new_count (body h)))"
proof -
  let ?o = "CHR ''-'' # itoa (old_start h) @ CHR '','' # itoa (old_count (body h))"
  let ?n = "CHR ''+'' # itoa (new_start h) @ CHR '','' # itoa (new_count (body h))"
  let ?mid = "CHR '' '' # ?o @ CHR '' '' # ?n @ '' ''"
  have h: "hunk_header h = [] @ CHR ''@'' # ''@'' @ ?mid @ CHR ''@'' # ''@'' @ []"
    by (simp add: hunk_header_def)
  have c1: "cut (hunk_header h) ''@@'' = ([], ?mid @ CHR ''@'' # ''@'' @ [], True)"
    unfolding h by (rule cut_append) simp
  have c2: "cut (?mid @ CHR ''@'' # ''@'' @ []) ''@@'' = (?mid, [], True)"
    by (rule cut_append) simp
  have sp: "is_space (CHR '' '')" "\<not> is_space (CHR '','')" "\<not> is_space (CHR ''-'')" "\<not> is_space (CHR ''+'')"
    by (simp_all add: is_space_def)
  have no: "\<forall>x \<in> set ?o. \<not> is_space x" "\<forall>x \<in> set ?n. \<not> is_space x" using sp by auto
  have "str_fields ?mid = str_fields (?o @ CHR '' '' # ?n @ '' '')" using sp(1) by simp
  also have "\<dots> = ?o # str_fields (?n @ CHR '' '' # [])" by (rule str_fields_Cons_word) (use no sp in auto)
  also have "str_fields (?n @ CHR '' '' # []) = ?n # str_fields []"
    by (rule str_fields_Cons_word) (use no sp in auto)
  finally have f: "str_fields ?mid = [?o, ?n]" by simp
  show ?thesis
    by (simp only: parsePatchHunkCounts_def c1 c2 Let_def prod.case if_True simp_thms f)
      (simp add: patchHunkCount_itoa [OF assms(1)] patchHunkCount_itoa [OF assms(2)])
qed

definition good_hunk :: "hunk \<Rightarrow> bool" where
  "good_hunk h \<longleftrightarrow> int (length (body h)) < 2 ^ 63"

lemma counts_le: "old_count b \<le> length b" "new_count b \<le> length b"
  by (simp_all add: old_count_def new_count_def)

lemma patch_lines_hunk:
  assumes "good_hunk h"
  shows "patch_lines (hunk_text h @ rest) False 0 0 = patch_lines rest False 0 0"
proof -
  let ?o = "int (old_count (body h))" and ?n = "int (new_count (body h))"
  have "?o < 2 ^ 63" "?n < 2 ^ 63"
    using assms counts_le [of "body h"] unfolding good_hunk_def by linarith+
  then have c: "parsePatchHunkCounts (hunk_header h) = (?o, ?n)"
    by (rule parsePatchHunkCounts_header)
  have hd: "has_prefix (hunk_header h) ''@@''" "\<not> has_prefix (hunk_header h) ''diff --git ''"
    by (simp_all add: hunk_header_def)
  have "patch_lines (hunk_text h @ rest) False 0 0 =
      patch_lines (List.map hunk_line_text (body h) @ rest) (0 < ?o \<or> 0 < ?n) ?o ?n"
    by (simp add: hunk_text_def hd c)
  also have "\<dots> = patch_lines rest False 0 0" by (rule patch_lines_body) auto
  finally show ?thesis .
qed

lemma patch_lines_hunks:
  "list_all good_hunk hs \<Longrightarrow>
   patch_lines (List.concat (List.map hunk_text hs) @ rest) False 0 0 = patch_lines rest False 0 0"
  by (induction hs) (simp_all add: patch_lines_hunk)

definition good_file_patch :: "file_patch \<Rightarrow> bool" where
  "good_file_patch f \<longleftrightarrow> list_all good_hunk (hunks f) \<and>
     (\<forall>x \<in> set (old_path f) \<union> set (new_path f). \<not> is_space x)"

lemma header_path:
  assumes "\<forall>x \<in> set p. \<not> is_space x" "c \<in> {CHR ''a'', CHR ''b''}" "d \<in> {''---'', ''+++''}"
  shows "str_fields (d @ CHR '' '' # c # CHR ''/'' # p) = [d, c # CHR ''/'' # p]"
    "stripPatchPrefix (c # CHR ''/'' # p) = p"
proof -
  have d: "\<forall>x \<in> set d. \<not> is_space x" "d \<noteq> []" using assms(3) by (auto simp: is_space_def)
  have w: "\<forall>x \<in> set (c # CHR ''/'' # p). \<not> is_space x" using assms(1,2) by (auto simp: is_space_def)
  have "str_fields (d @ CHR '' '' # c # CHR ''/'' # p) = d # str_fields (c # CHR ''/'' # p)"
    using d by (intro str_fields_Cons_word) (auto simp: is_space_def)
  then show "str_fields (d @ CHR '' '' # c # CHR ''/'' # p) = [d, c # CHR ''/'' # p]"
    using str_fields_word [OF _ w] by simp
  show "stripPatchPrefix (c # CHR ''/'' # p) = p"
    using assms(2) by (auto simp: stripPatchPrefix_def trim_space_word [OF w])
qed

lemma patch_lines_file:
  assumes "good_file_patch f"
  shows "patch_lines (file_patch_text f @ rest) False 0 0 =
    old_path f # new_path f # patch_lines rest False 0 0"
proof -
  have sp: "\<forall>x \<in> set (old_path f). \<not> is_space x" "\<forall>x \<in> set (new_path f). \<not> is_space x"
    and h: "list_all good_hunk (hunks f)"
    using assms by (auto simp: good_file_patch_def)
  have f: "str_fields (''--- a/'' @ old_path f) = [''---'', ''a/'' @ old_path f]"
    "str_fields (''+++ b/'' @ new_path f) = [''+++'', ''b/'' @ new_path f]"
    using header_path(1) [OF sp(1), of "CHR ''a''" "''---''"] header_path(1) [OF sp(2), of "CHR ''b''" "''+++''"]
    by simp_all
  have s: "stripPatchPrefix (''a/'' @ old_path f) = old_path f" "stripPatchPrefix (''b/'' @ new_path f) = new_path f"
    using header_path(2) [OF sp(1), of "CHR ''a''" "''---''"] header_path(2) [OF sp(2), of "CHR ''b''" "''+++''"]
    by simp_all
  have step: "patch_lines ((''--- a/'' @ old_path f) # ls) False 0 0 = old_path f # patch_lines ls False 0 0"
    "patch_lines ((''+++ b/'' @ new_path f) # ls) False 0 0 = new_path f # patch_lines ls False 0 0" for ls
    using f s by simp_all
  have "file_patch_text f @ rest = (''--- a/'' @ old_path f) # (''+++ b/'' @ new_path f) #
      (List.concat (List.map hunk_text (hunks f)) @ rest)"
    by (simp add: file_patch_text_def)
  then show ?thesis by (simp only: step patch_lines_hunks [OF h])
qed

lemma patch_lines_files:
  "list_all good_file_patch fs \<Longrightarrow>
   patch_lines (List.concat (List.map file_patch_text fs)) False 0 0 =
     List.concat (List.map (\<lambda>f. [old_path f, new_path f]) fs)"
  by (induction fs) (simp_all add: patch_lines_file)

theorem patchHeaderPaths_text:
  assumes "list_all good_file_patch fs"
    and "\<forall>l \<in> set (List.concat (List.map file_patch_text fs)). newline \<notin> set l \<and> cr \<notin> set l"
  shows "patchHeaderPaths (patch_text fs) = List.concat (List.map (\<lambda>f. [old_path f, new_path f]) fs)"
proof (cases "fs = []")
  case True
  then show ?thesis by (simp add: patchHeaderPaths_def patch_text_def)
next
  case False
  let ?ls = "List.concat (List.map file_patch_text fs)"
  have ne: "?ls \<noteq> []" using False by (cases fs) (auto simp: file_patch_text_def)
  have "cr \<notin> set (join [newline] xs)" if "\<forall>l \<in> set xs. cr \<notin> set l" for xs
    using that by (induction "[newline]" xs rule: join.induct) auto
  then have "cr \<notin> set (patch_text fs)" using assms(2) unfolding patch_text_def by blast
  then have "patchHeaderPaths (patch_text fs) = patch_lines (split_on newline (patch_text fs)) False 0 0"
    by (simp add: patchHeaderPaths_def replace_all_absent)
  also have "split_on newline (patch_text fs) = ?ls"
    unfolding patch_text_def using ne assms(2) by (intro split_on_join) auto
  finally show ?thesis using patch_lines_files [OF assms(1)] by simp
qed

lemma side_effect_risks_network:
  "(''network'', l) \<in> set (side_effect_risks e) \<longleftrightarrow> e = SideEffectNetwork \<and> l = RiskHigh"
  by (cases e) auto

lemma network_iff:
  "HasRiskCategory (classifyWithScope os parse s request) ''network'' \<longleftrightarrow>
     req_side_effect request = SideEffectNetwork \<or>
     (request_command request \<noteq> [] \<and>
      ((\<exists>prog rest. runs parse maxAnalyzerDepth (request_command request) prog rest \<and> commandUsesNetwork prog rest) \<or>
       (fails parse maxAnalyzerDepth (request_command request) \<and>
        matchesUnparseableNetwork (request_command request))))"
proof -
  let ?c = "request_command request"
  have path: "(''network'', l) \<notin> set (path_risks os s ws p)" for l ws p
    by (auto dest: path_risks_categories)
  have cmd: "(\<exists>l. (''network'', l) \<in> set (command_risks parse ?c)) \<longleftrightarrow> ?c \<noteq> [] \<and>
      (ar_network (AnalyzeCommand parse ?c) \<or>
       (TooComplex (AnalyzeCommand parse ?c) \<and> matchesUnparseableNetwork ?c))"
    by (auto simp: command_risks_def Let_def)
  have "HasRiskCategory (classifyWithScope os parse s request) ''network'' \<longleftrightarrow>
      req_side_effect request = SideEffectNetwork \<or> (\<exists>l. (''network'', l) \<in> set (command_risks parse ?c))"
    unfolding HasRiskCategory_iff request_risks_def using path by (auto simp: side_effect_risks_network)
  then show ?thesis unfolding cmd
    using request_command_trimmed [of request] by (auto simp: AnalyzeCommand_network AnalyzeCommand_TooComplex)
qed

end
