(* ===== verification/Go_URL.thy ===== *)
theory Go_URL
  imports Prelude
begin

text \<open>
  What the program uses of Go's packages \<open>net/url\<close> and \<open>net\<close> on ASCII text: \<open>url.Parse\<close> down to
  its scheme and host with every error it can report as \<open>None\<close> (as in Go 1.26, the version of
  \<open>go.mod\<close>: a bracketed host is an IPv6 address, another host holds one colon at most),
  \<open>URL.Hostname\<close>, \<open>net.SplitHostPort\<close> and \<open>net.ParseIP\<close>.
\<close>

section \<open>Escapes\<close>

definition is_hex :: "char \<Rightarrow> bool" where
  "is_hex c \<longleftrightarrow> is_digit c \<or> (97 \<le> (of_char c :: nat) \<and> (of_char c :: nat) \<le> 102)
     \<or> (65 \<le> (of_char c :: nat) \<and> (of_char c :: nat) \<le> 70)"

definition unhex :: "char \<Rightarrow> nat" where
  "unhex c = (if is_digit c then of_char c - 48
     else if 97 \<le> (of_char c :: nat) then of_char c - 87 else of_char c - 55)"

definition alnum :: "char \<Rightarrow> bool" where
  "alnum c \<longleftrightarrow> is_digit c \<or> is_upper c \<or> is_lower c"

text \<open>Characters a host may hold unescaped.\<close>

definition host_char :: "char \<Rightarrow> bool" where
  "host_char c \<longleftrightarrow> alnum c \<or> c \<in> set (quote1 # quote2 # ''!$&()*+,;=:[]<>-_.~'')"

datatype escape_mode = Encode_Host | Encode_Zone | Encode_Other

definition escape_ok :: "escape_mode \<Rightarrow> char \<Rightarrow> char \<Rightarrow> bool" where
  "escape_ok mode a b =
     (case mode of
        Encode_Host \<Rightarrow> 8 \<le> unhex a \<or> [a, b] = ''25''
      | Encode_Zone \<Rightarrow> [a, b] = ''25'' \<or> [a, b] = ''20'' \<or> host_char (char_of (16 * unhex a + unhex b))
      | Encode_Other \<Rightarrow> True)"

fun unescape :: "escape_mode \<Rightarrow> string \<Rightarrow> string option" where
  "unescape mode [] = Some []"
| "unescape mode (c # cs) =
     (if c = CHR ''%'' then
        (case cs of
           a # b # rest \<Rightarrow>
             if is_hex a \<and> is_hex b \<and> escape_ok mode a b
             then map_option ((#) (char_of (16 * unhex a + unhex b))) (unescape mode rest)
             else None
         | _ \<Rightarrow> None)
      else if mode \<noteq> Encode_Other \<and> (of_char c :: nat) < 128 \<and> \<not> host_char c then None
      else map_option ((#) c) (unescape mode cs))"

section \<open>IP addresses\<close>

text \<open>A dotted IPv4 address: four decimal octets without leading zeros.\<close>

definition ipv4_octet :: "string \<Rightarrow> bool" where
  "ipv4_octet s \<longleftrightarrow> s \<noteq> [] \<and> list_all is_digit s \<and> length s \<le> 3 \<and> (hd s = CHR ''0'' \<longrightarrow> s = ''0'')
     \<and> digits_val 0 s \<le> 255"

definition parse_ipv4 :: "string \<Rightarrow> bool" where
  "parse_ipv4 s \<longleftrightarrow> length (split_on CHR ''.'' s) = 4 \<and> list_all ipv4_octet (split_on CHR ''.'' s)"

text \<open>
  The groups of an IPv6 address; the first argument counts the groups that may follow, and
  \<open>ellipsis\<close> says that \<open>::\<close> has been read.
\<close>

fun ipv6_groups :: "nat \<Rightarrow> bool \<Rightarrow> string \<Rightarrow> bool" where
  "ipv6_groups 0 ellipsis s = False"
| "ipv6_groups (Suc left) ellipsis s =
     (let group = takeWhile is_hex s; rest = dropWhile is_hex s
      in if group = [] \<or> 4 < length group then False
         else (case rest of
                 [] \<Rightarrow> if left = 0 then \<not> ellipsis else ellipsis
               | c # rest \<Rightarrow>
                   if c = CHR ''.'' then
                     parse_ipv4 s \<and> (if left = 1 then \<not> ellipsis else 1 < left \<and> ellipsis)
                   else if c \<noteq> CHR '':'' \<or> rest = [] then False
                   else if hd rest = CHR '':'' then
                     (if ellipsis then False
                      else if tl rest = [] then left \<noteq> 0
                      else ipv6_groups left True (tl rest))
                   else ipv6_groups left ellipsis rest))"

definition parse_ipv6 :: "string \<Rightarrow> bool" where
  "parse_ipv6 s \<longleftrightarrow>
     (if has_prefix s ''::'' then drop 2 s = [] \<or> ipv6_groups 8 True (drop 2 s)
      else ipv6_groups 8 False s)"

text \<open>An IPv6 address, with a non-empty zone or none (\<open>netip.ParseAddr\<close> and not \<open>Is4\<close>).\<close>

definition addr_ipv6 :: "string \<Rightarrow> bool" where
  "addr_ipv6 s \<longleftrightarrow>
     (let special = dropWhile (\<lambda>c. c \<notin> set ''.:%'') s; (addr, zone, zoned) = cut s ''%''
      in special \<noteq> [] \<and> hd special = CHR '':'' \<and> (zoned \<longrightarrow> zone \<noteq> []) \<and> parse_ipv6 addr)"

text \<open>\<open>net.ParseIP\<close> finds an address (without a zone).\<close>

definition parse_ip :: "string \<Rightarrow> bool" where
  "parse_ip s \<longleftrightarrow> parse_ipv4 s \<or> (addr_ipv6 s \<and> CHR ''%'' \<notin> set s)"

section \<open>Parsing\<close>

record url =
  url_scheme :: string
  url_host :: string

text \<open>\<open>getScheme\<close>: the scheme and the rest; \<open>None\<close> is a missing protocol scheme.\<close>

fun get_scheme_from :: "string \<Rightarrow> string \<Rightarrow> string \<Rightarrow> (string \<times> string) option" where
  "get_scheme_from raw done [] = Some ([], raw)"
| "get_scheme_from raw done (c # cs) =
     (if is_upper c \<or> is_lower c then get_scheme_from raw (done @ [c]) cs
      else if is_digit c \<or> c \<in> set ''+-.'' then
        (if done = [] then Some ([], raw) else get_scheme_from raw (done @ [c]) cs)
      else if c = CHR '':'' then (if done = [] then None else Some (done, cs))
      else Some ([], raw))"

definition get_scheme :: "string \<Rightarrow> (string \<times> string) option" where
  "get_scheme raw = get_scheme_from raw [] raw"

definition valid_optional_port :: "string \<Rightarrow> bool" where
  "valid_optional_port port \<longleftrightarrow> port = [] \<or> (hd port = CHR '':'' \<and> list_all is_digit (tl port))"

definition unescape_zoned :: "string \<Rightarrow> string option" where
  "unescape_zoned name =
     (case index_of name ''%25'' of
        None \<Rightarrow> unescape Encode_Host name
      | Some zone \<Rightarrow>
          (case (unescape Encode_Host (take zone name), unescape Encode_Zone (drop zone name)) of
             (Some h, Some z) \<Rightarrow> Some (h @ z)
           | _ \<Rightarrow> None))"

definition parse_host :: "string \<Rightarrow> string option" where
  "parse_host host =
     (case last_index_of host ''['' of
        Some (Suc n) \<Rightarrow> None
      | Some 0 \<Rightarrow>
          (case last_index_of host '']'' of
             None \<Rightarrow> None
           | Some i \<Rightarrow>
               if \<not> valid_optional_port (drop (Suc i) host) then None
               else (case unescape_zoned (tl (take i host)) of
                       None \<Rightarrow> None
                     | Some name \<Rightarrow> if addr_ipv6 name then Some (''['' @ name @ '']'' @ drop (Suc i) host)
                                    else None))
      | None \<Rightarrow>
          (case index_of host '':'' of
             Some i \<Rightarrow> if valid_optional_port (drop i host) then unescape Encode_Host host else None
           | None \<Rightarrow> unescape Encode_Host host))"

definition valid_userinfo :: "string \<Rightarrow> bool" where
  "valid_userinfo s = list_all (\<lambda>c. alnum c \<or> c \<in> set (quote1 # ''-._:~!$&()*+,;=%@'')) s"

definition parse_authority :: "string \<Rightarrow> string option" where
  "parse_authority authority =
     (case last_index_of authority ''@'' of
        None \<Rightarrow> parse_host authority
      | Some i \<Rightarrow>
          (case parse_host (drop (Suc i) authority) of
             None \<Rightarrow> None
           | Some host \<Rightarrow>
               if valid_userinfo (take i authority)
                  \<and> list_all (\<lambda>part. unescape Encode_Other part \<noteq> None) (split_on CHR '':'' (take i authority))
               then Some host else None))"

definition before_query :: "string \<Rightarrow> string" where
  "before_query rest = takeWhile (\<lambda>c. c \<noteq> CHR ''?'') rest"

definition parse_rest :: "string \<Rightarrow> string \<Rightarrow> url option" where
  "parse_rest scheme rest =
     (let rest = before_query rest
      in if \<not> has_prefix rest ''/'' \<and> scheme \<noteq> [] then Some \<lparr>url_scheme = scheme, url_host = []\<rparr>
         else if \<not> has_prefix rest ''/'' \<and> CHR '':'' \<in> set (takeWhile (\<lambda>c. c \<noteq> CHR ''/'') rest) then None
         else if (scheme \<noteq> [] \<or> \<not> has_prefix rest ''///'') \<and> has_prefix rest ''//'' then
           (let authority = takeWhile (\<lambda>c. c \<noteq> CHR ''/'') (drop 2 rest);
                path = dropWhile (\<lambda>c. c \<noteq> CHR ''/'') (drop 2 rest)
            in case parse_authority authority of
                 None \<Rightarrow> None
               | Some host \<Rightarrow> if unescape Encode_Other path = None then None
                              else Some \<lparr>url_scheme = scheme, url_host = host\<rparr>)
         else if unescape Encode_Other rest = None then None
         else Some \<lparr>url_scheme = scheme, url_host = []\<rparr>)"

definition url_parse :: "string \<Rightarrow> url option" where
  "url_parse raw =
     (let (u, frag, _) = cut raw ''#''
      in if list_ex (\<lambda>c. (of_char c :: nat) < 32 \<or> (of_char c :: nat) = 127) u then None
         else if u = ''*'' then
           (if unescape Encode_Other frag = None then None else Some \<lparr>url_scheme = [], url_host = []\<rparr>)
         else (case get_scheme u of
                 None \<Rightarrow> None
               | Some (scheme, rest) \<Rightarrow>
                   (case parse_rest (to_lower scheme) rest of
                      None \<Rightarrow> None
                    | Some v \<Rightarrow> if unescape Encode_Other frag = None then None else Some v)))"

text \<open>\<open>URL.Hostname\<close>: without the port and the brackets.\<close>

definition url_hostname :: "url \<Rightarrow> string" where
  "url_hostname u =
     (let h = url_host u;
          h = (case last_index_of h '':'' of
                 Some i \<Rightarrow> if valid_optional_port (drop i h) then take i h else h
               | None \<Rightarrow> h)
      in if has_prefix h ''['' \<and> has_suffix h '']'' then butlast (tl h) else h)"

section \<open>Package net\<close>

text \<open>\<open>SplitHostPort\<close>; the port is not used by the program.\<close>

definition split_host_port :: "string \<Rightarrow> string option" where
  "split_host_port hostport =
     (case last_index_of hostport '':'' of
        None \<Rightarrow> None
      | Some i \<Rightarrow>
          if has_prefix hostport ''['' then
            (case index_of hostport '']'' of
               None \<Rightarrow> None
             | Some e \<Rightarrow>
                 if Suc e \<noteq> i then None
                 else if CHR ''['' \<in> set (tl hostport) \<or> CHR '']'' \<in> set (drop (Suc e) hostport) then None
                 else Some (take (e - 1) (tl hostport)))
          else if CHR '':'' \<in> set (take i hostport) then None
          else if CHR ''['' \<in> set hostport \<or> CHR '']'' \<in> set hostport then None
          else Some (take i hostport))"

end
