(* ===== verification/Command_Prefix.thy ===== *)
theory Command_Prefix
  imports Prelude
begin

text \<open>
  \<open>internal/sandbox/command_prefix.go\<close>: which argv prefixes may be approved, and the set of
  prefixes approved for a session.  The set is an instance of the \<open>approval_set\<close> interface:
  approving is monotone, and a match is always by an approved, safe prefix.
\<close>

section \<open>Safe prefixes\<close>

definition bannedCommandPrefixSuggestions :: "string list list" where
  "bannedCommandPrefixSuggestions = [
    [''python3''], [''python3'', ''-''], [''python3'', ''-c''], [''python''],
    [''python'', ''-''], [''python'', ''-c''], [''py''], [''py'', ''-3''],
    [''pythonw''], [''pyw''], [''pypy''], [''pypy3''],
    [''git''], [''bash''], [''bash'', ''-lc''], [''sh''],
    [''sh'', ''-c''], [''sh'', ''-lc''], [''zsh''], [''zsh'', ''-lc''],
    [''/bin/zsh''], [''/bin/zsh'', ''-lc''], [''/bin/bash''], [''/bin/bash'', ''-lc''],
    [''pwsh''], [''pwsh'', ''-Command''], [''pwsh'', ''-c''], [''powershell''],
    [''powershell'', ''-Command''], [''powershell'', ''-c''], [''powershell.exe''], [''powershell.exe'', ''-Command''],
    [''powershell.exe'', ''-c''], [''env''], [''sudo''], [''node''],
    [''node'', ''-e''], [''perl''], [''perl'', ''-e''], [''ruby''],
    [''ruby'', ''-e''], [''php''], [''php'', ''-r''], [''lua''],
    [''lua'', ''-e''], [''osascript'']
  ]"

definition launcherPrograms :: "string list" where
  "launcherPrograms = [
    ''bash'', ''sh'', ''zsh'', ''/bin/bash'', ''/bin/zsh'', ''pwsh'', ''powershell'', ''powershell.exe'',
    ''env'', ''sudo'', ''doas'', ''su'', ''run0'', ''osascript'', ''command'', ''eval'',
    ''exec'', ''time'', ''find'', ''xargs'', ''timeout'', ''nice'', ''nohup'', ''watch'',
    ''setsid'', ''stdbuf'', ''ionice'', ''ssh'', ''make'', ''npm'', ''npx'', ''python'',
    ''python3'', ''py'', ''pythonw'', ''pyw'', ''pypy'', ''pypy3'', ''node'', ''perl'',
    ''ruby'', ''php'', ''lua'', ''deno'', ''bun''
  ]"

record CommandPrefixGrant =
  cp_tool :: string
  Prefix :: "string list"
  cp_approvedAt :: string
  cp_reason :: string
  cp_session :: bool

record CommandPrefixInput =
  cpi_tool :: string
  cpi_prefix :: "string list"
  cpi_reason :: string

definition sameStringSlice :: "string list \<Rightarrow> string list \<Rightarrow> bool" where
  "sameStringSlice left right \<longleftrightarrow>
     length left = length right \<and> list_all (\<lambda>(l, r). l = r) (zip left right)"

definition hasStringPrefix :: "string list \<Rightarrow> string list \<Rightarrow> bool" where
  "hasStringPrefix values prefix =
     (if prefix = [] \<or> length values < length prefix then False
      else list_all (\<lambda>(v, p). v = p) (zip values prefix))"

definition containsAny :: "string \<Rightarrow> string \<Rightarrow> bool" where
  "containsAny s chars = list_ex (\<lambda>c. c \<in> set chars) s"

definition unsafeCommandPrefixPart :: "string \<Rightarrow> bool" where
  "unsafeCommandPrefixPart part =
     (let part = trim_space part
      in part = [] \<or> containsAny part (CHR 0x00 # cr # newline # ''*?[]{}'')
         \<or> contains part ''$('' \<or> contains part [backtick])"

definition unsafeCommandPrefixLauncher :: "string \<Rightarrow> bool" where
  "unsafeCommandPrefixLauncher program =
     (let program = to_lower (trim_space program)
      in if containsAny program [CHR ''/'', backslash] then True
         else program \<in> set launcherPrograms)"

definition unsafeCommandPrefix :: "string list \<Rightarrow> bool" where
  "unsafeCommandPrefix prefix =
     (if prefix = [] then True
      else if list_ex unsafeCommandPrefixPart prefix then True
      else if list_ex (sameStringSlice prefix) bannedCommandPrefixSuggestions then True
      else unsafeCommandPrefixLauncher (hd prefix))"

definition NormalizeCommandPrefix :: "string list \<Rightarrow> string list option" where
  "NormalizeCommandPrefix prefix =
     (let cleaned = map trim_space prefix
      in if list_ex (\<lambda>p. p = []) cleaned then None
         else if unsafeCommandPrefix cleaned then None
         else Some cleaned)"

definition ValidCommandPrefix :: "string list \<Rightarrow> bool" where
  "ValidCommandPrefix prefix = (NormalizeCommandPrefix prefix \<noteq> None)"

lemma zip_all_eq: "length xs = length ys \<Longrightarrow> list_all (\<lambda>(x, y). x = y) (zip xs ys) \<longleftrightarrow> xs = ys"
  by (induction xs ys rule: list_induct2) auto

lemma sameStringSlice_iff [simp]: "sameStringSlice a b \<longleftrightarrow> a = b"
  unfolding sameStringSlice_def using zip_all_eq by auto

lemma zip_all_prefix:
  "length p \<le> length v \<Longrightarrow> list_all (\<lambda>(x, y). x = y) (zip v p) \<longleftrightarrow> has_prefix v p"
  by (induction v p rule: has_prefix.induct) auto

lemma hasStringPrefix_iff: "hasStringPrefix vs prefix \<longleftrightarrow> prefix \<noteq> [] \<and> has_prefix vs prefix"
  using has_prefix_length [of vs prefix] zip_all_prefix [of prefix vs]
  by (auto simp: hasStringPrefix_def not_less)

lemma NormalizeCommandPrefix_Some:
  "NormalizeCommandPrefix prefix = Some p \<longleftrightarrow>
     p = map trim_space prefix \<and> [] \<notin> set p \<and> \<not> unsafeCommandPrefix p"
  by (auto simp: NormalizeCommandPrefix_def Let_def list_ex_iff)

lemma NormalizeCommandPrefix_idem:
  "NormalizeCommandPrefix prefix = Some p \<Longrightarrow> NormalizeCommandPrefix p = Some p"
  by (auto simp: NormalizeCommandPrefix_Some)

lemma NormalizeCommandPrefix_nonempty: "NormalizeCommandPrefix prefix = Some p \<Longrightarrow> p \<noteq> []"
  by (auto simp: NormalizeCommandPrefix_Some unsafeCommandPrefix_def)

text \<open>What an approvable prefix can never contain.\<close>

definition shell_meta :: "char \<Rightarrow> bool" where
  "shell_meta c \<longleftrightarrow> c \<in> set (CHR 0x00 # cr # newline # backtick # ''*?[]{}'')"

lemma safe_prefix_no_meta:
  assumes "NormalizeCommandPrefix prefix = Some p" "x \<in> set p"
  shows "x \<noteq> [] \<and> \<not> contains x ''$('' \<and> (\<forall>c \<in> set x. \<not> shell_meta c)"
proof -
  from assms have "\<not> unsafeCommandPrefixPart x" and t: "trim_space x = x"
    by (auto simp: NormalizeCommandPrefix_Some unsafeCommandPrefix_def list_ex_iff split: if_splits)
  then have u: "x \<noteq> []" "\<not> containsAny x (CHR 0x00 # cr # newline # ''*?[]{}'')"
    "\<not> contains x ''$(''" "\<not> contains x [backtick]"
    by (simp_all add: unsafeCommandPrefixPart_def)
  have "backtick \<notin> set x"
  proof
    assume "backtick \<in> set x"
    then obtain a b where "x = a @ backtick # b" by (auto simp: in_set_conv_decomp)
    then have "contains x [backtick]" by (auto simp: contains_iff)
    with u show False by simp
  qed
  with u show ?thesis by (auto simp: shell_meta_def containsAny_def list_ex_iff)
qed

lemma safe_prefix_no_launcher:
  "NormalizeCommandPrefix prefix = Some p \<Longrightarrow> \<not> unsafeCommandPrefixLauncher (hd p)"
  by (auto simp: NormalizeCommandPrefix_Some unsafeCommandPrefix_def split: if_splits)

section \<open>The session's set of approved prefixes\<close>

text \<open>
  The interface a session approval set offers the engine: adding, and matching an argv.
  A provider promises that adding keeps what was there, that what was added matches, and
  that a match is by a member.
\<close>

locale approval_set =
  fixes add :: "'s \<Rightarrow> 'g \<Rightarrow> 's" and match :: "'s \<Rightarrow> 'q \<Rightarrow> 'g option"
    and members :: "'s \<Rightarrow> 'g set" and covers :: "'g \<Rightarrow> 'q \<Rightarrow> bool" and valid :: "'g \<Rightarrow> bool"
  assumes add_keeps: "members s \<subseteq> members (add s g)"
    and add_only: "members (add s g) \<subseteq> insert g (members s)"
    and add_valid: "valid g \<Longrightarrow> \<exists>h \<in> members (add s g). \<forall>q. covers h q = covers g q"
    and match_sound: "match s q = Some g \<Longrightarrow> g \<in> members s \<and> covers g q"
    and match_complete: "g \<in> members s \<Longrightarrow> covers g q \<Longrightarrow> match s q \<noteq> None"
begin

lemma match_after_add: "valid g \<Longrightarrow> covers g q \<Longrightarrow> match (add s g) q \<noteq> None"
  using add_valid [of g s] match_complete by blast

lemma match_monotone: "match s q \<noteq> None \<Longrightarrow> match (add s g) q \<noteq> None"
  using add_keeps match_complete match_sound by (metis not_None_eq subsetD)

lemma match_needs_approval:
  "match (foldl add s gs) q \<noteq> None \<Longrightarrow> \<exists>g \<in> members s \<union> set gs. covers g q"
proof -
  assume m: "match (foldl add s gs) q \<noteq> None"
  have "members (foldl add s gs) \<subseteq> members s \<union> set gs"
  proof (induction gs arbitrary: s)
    case (Cons g gs)
    then show ?case using add_only by fastforce
  qed simp
  with m match_sound show ?thesis by (metis not_None_eq subsetD)
qed

lemma approvals_persist: "match s q \<noteq> None \<Longrightarrow> match (foldl add s gs) q \<noteq> None"
proof (induction gs arbitrary: s)
  case (Cons g gs)
  then have "match (add s g) q \<noteq> None" using match_monotone by blast
  then show ?case using Cons.IH by simp
qed simp

end

definition commandPrefixGrantSet_add ::
    "CommandPrefixGrant list \<Rightarrow> CommandPrefixGrant \<Rightarrow> CommandPrefixGrant list" where
  "commandPrefixGrantSet_add grants grant =
     (if cp_tool grant = [] \<or> Prefix grant = [] then grants
      else if list_ex (\<lambda>e. cp_tool e = cp_tool grant \<and> sameStringSlice (Prefix e) (Prefix grant)) grants
      then grants
      else grants @ [grant])"

definition commandPrefixGrantSet_match ::
    "CommandPrefixGrant list \<Rightarrow> string \<times> string list \<Rightarrow> CommandPrefixGrant option" where
  "commandPrefixGrantSet_match grants q =
     (case q of (toolName, command) \<Rightarrow>
        if toolName = [] \<or> command = [] then None
        else find (\<lambda>g. cp_tool g = toolName \<and> hasStringPrefix command (Prefix g)) grants)"

definition prefix_covers :: "CommandPrefixGrant \<Rightarrow> string \<times> string list \<Rightarrow> bool" where
  "prefix_covers g q \<longleftrightarrow> fst q \<noteq> [] \<and> cp_tool g = fst q \<and> hasStringPrefix (snd q) (Prefix g)"

lemma find_Some_member: "find P xs = Some x \<Longrightarrow> x \<in> set xs \<and> P x"
  by (auto simp: find_Some_iff)

interpretation prefix_session: approval_set
  commandPrefixGrantSet_add commandPrefixGrantSet_match set prefix_covers
  "\<lambda>g. cp_tool g \<noteq> [] \<and> Prefix g \<noteq> []"
proof
  fix s g show "set s \<subseteq> set (commandPrefixGrantSet_add s g)"
    by (auto simp: commandPrefixGrantSet_add_def)
next
  fix s g show "set (commandPrefixGrantSet_add s g) \<subseteq> insert g (set s)"
    by (auto simp: commandPrefixGrantSet_add_def)
next
  fix g :: CommandPrefixGrant and s
  assume g: "cp_tool g \<noteq> [] \<and> Prefix g \<noteq> []"
  have "\<exists>h \<in> set (commandPrefixGrantSet_add s g). cp_tool h = cp_tool g \<and> Prefix h = Prefix g"
    using g by (auto simp: commandPrefixGrantSet_add_def list_ex_iff)
  then obtain h where h: "h \<in> set (commandPrefixGrantSet_add s g)"
    "cp_tool h = cp_tool g" "Prefix h = Prefix g" by blast
  then have "\<forall>q. prefix_covers h q = prefix_covers g q" by (simp add: prefix_covers_def)
  with h(1) show "\<exists>h \<in> set (commandPrefixGrantSet_add s g). \<forall>q. prefix_covers h q = prefix_covers g q"
    by blast
next
  fix s q g assume "commandPrefixGrantSet_match s q = Some g"
  then show "g \<in> set s \<and> prefix_covers g q"
    by (auto simp: commandPrefixGrantSet_match_def prefix_covers_def split: prod.splits if_splits
        dest!: find_Some_member)
next
  fix g s q assume "g \<in> set s" "prefix_covers g q"
  then show "commandPrefixGrantSet_match s q \<noteq> None"
    by (cases q) (auto simp: commandPrefixGrantSet_match_def prefix_covers_def find_None_iff
        hasStringPrefix_iff simp del: not_None_eq)
qed

end
