(* ===== verification/Grants.thy ===== *)
theory Grants
  imports Go_URL Command_Prefix Path_Guard
    "HOL-Library.AList" "HOL-Library.Char_ord" "HOL-Library.List_Lexorder" "HOL-Library.Product_Lexorder"
begin

text \<open>
  Approvals and their scopes: \<open>internal/sandbox/grant_scope.go\<close>, \<open>grants.go\<close> and the in-memory set
  of \<open>request_permissions.go\<close>.  The grants file is the decoded JSON document (or the reason it
  has none); an operation of the store returns its result and the file it leaves.  The clock,
  the redaction of reasons and the outcome of writing the file are arguments.
\<close>

section \<open>grant_scope.go\<close>

definition normalizeHostScope :: "string \<Rightarrow> string" where
  "normalizeHostScope raw =
     (let trimmed = trim_space raw
      in if trimmed = [] then []
         else (let host = (case url_parse trimmed of
                             Some u \<Rightarrow> if url_host u \<noteq> [] then url_hostname u
                                       else (case split_host_port trimmed of Some h \<Rightarrow> h | None \<Rightarrow> trimmed)
                           | None \<Rightarrow> (case split_host_port trimmed of Some h \<Rightarrow> h | None \<Rightarrow> trimmed));
                   host = trim_by (\<lambda>c. c = CHR ''['' \<or> c = CHR '']'') host;
                   host = trim_suffix host ''.''
               in to_lower (trim_space host)))"

definition isDecimalPort :: "string \<Rightarrow> bool" where
  "isDecimalPort raw \<longleftrightarrow> raw \<noteq> [] \<and> list_all is_digit raw"

definition host_like :: "string \<Rightarrow> bool" where
  "host_like host =
     (let host = trim_space host
      in host \<noteq> [] \<and> (host = ''localhost'' \<or> contains host ''.'' \<or> parse_ip host))"

definition browserURLLooksLikeBareHost :: "string \<Rightarrow> bool" where
  "browserURLLooksLikeBareHost raw =
     (if raw = [] \<or> has_prefix raw ''//'' then False
      else (let authority = takeWhile (\<lambda>c. c \<notin> set ''/?#'') raw
            in if authority = [] \<or> contains authority ''@'' then False
               else if has_prefix authority ''['' then
                 (case index_of authority '']'' of
                    None \<Rightarrow> False
                  | Some e \<Rightarrow>
                      if e \<le> 1 then False
                      else (let rest = drop (Suc e) authority
                            in if rest \<noteq> [] \<and> (\<not> has_prefix rest '':'' \<or> \<not> isDecimalPort (tl rest)) then False
                               else host_like (tl (take e authority))))
               else if contains authority '':'' then
                 (let (before, after, _) = cut authority '':''
                  in if before = [] \<or> \<not> isDecimalPort after then False else host_like before)
               else host_like authority))"

text \<open>An argument that is a string.\<close>

definition arg_text :: "args \<Rightarrow> string \<Rightarrow> string option" where
  "arg_text as key = (case as key of Some (ArgString s) \<Rightarrow> Some s | _ \<Rightarrow> None)"

definition deriveHostScope :: "string option \<Rightarrow> string option" where
  "deriveHostScope value =
     (case value of
        None \<Rightarrow> None
      | Some raw \<Rightarrow>
          (case url_parse (trim_space raw) of
             None \<Rightarrow> None
           | Some u \<Rightarrow>
               if url_host u = [] then None
               else (let host = normalizeHostScope (url_hostname u)
                     in if host = [] then None else Some host)))"

definition deriveBrowserHostScope :: "string option \<Rightarrow> string option" where
  "deriveBrowserHostScope value =
     (case value of
        None \<Rightarrow> None
      | Some raw \<Rightarrow>
          (let trimmed = trim_space raw
           in if trimmed \<noteq> [] \<and> \<not> contains trimmed ''://'' then
                (if \<not> browserURLLooksLikeBareHost trimmed then None
                 else deriveHostScope (Some (''https://'' @ trimmed)))
              else deriveHostScope (Some trimmed)))"

definition scopeArgKeys :: "(string \<times> ScopeKind) list" where
  "scopeArgKeys = [(''path'', ScopeFile), (''file'', ScopeFile), (''directory'', ScopeDir), (''dir'', ScopeDir),
     (''cwd'', ScopeDir), (''workdir'', ScopeDir)]"

fun derive_path_scope :: "args \<Rightarrow> (string \<times> ScopeKind) list \<Rightarrow> string \<times> ScopeKind" where
  "derive_path_scope as [] = ([], ScopeToolWide)"
| "derive_path_scope as ((key, kind) # keys) =
     (case arg_text as key of
        None \<Rightarrow> derive_path_scope as keys
      | Some value \<Rightarrow>
          (let trimmed = trim_space value
           in if trimmed = [] \<or> clean trimmed = ''.'' then derive_path_scope as keys
              else (trimmed, kind)))"

definition DeriveScope :: "string \<Rightarrow> args \<Rightarrow> string \<times> ScopeKind" where
  "DeriveScope toolName as =
     (case (if toolName = ''browser_open'' then deriveBrowserHostScope (arg_text as ''url'') else None) of
        Some host \<Rightarrow> (host, ScopeHost)
      | None \<Rightarrow>
          (case (if toolName = ''web_fetch'' then deriveHostScope (arg_text as ''url'') else None) of
             Some host \<Rightarrow> (host, ScopeHost)
           | None \<Rightarrow> derive_path_scope as scopeArgKeys))"

definition resolveScopeAbs :: "os \<Rightarrow> string \<Rightarrow> string \<Rightarrow> string" where
  "resolveScopeAbs os raw workspace =
     (let trimmed = trim_space raw
      in if trimmed = [] then []
         else if is_abs trimmed then clean trimmed
         else (let root = trim_space workspace
               in if root \<noteq> [] then clean (join_path [root, trimmed])
                  else abs_of os trimmed))"

definition reconcileScope :: "string \<Rightarrow> ScopeKind \<Rightarrow> string \<times> ScopeKind" where
  "reconcileScope scope kind =
     (if kind = ScopeToolWide \<or> scope = [] then ([], ScopeToolWide)
      else if kind = ScopeHost then
        (let host = normalizeHostScope scope
         in if host = [] then ([], ScopeToolWide) else (host, ScopeHost))
      else (scope, kind))"

definition resolveScopeForKind :: "os \<Rightarrow> string \<Rightarrow> ScopeKind \<Rightarrow> string \<Rightarrow> string" where
  "resolveScopeForKind os raw kind workspace =
     (let (scope, kind) = reconcileScope (trim_space raw) kind
      in (case kind of
            ScopeFile \<Rightarrow> resolveScopeAbs os scope workspace
          | ScopeDir \<Rightarrow> resolveScopeAbs os scope workspace
          | ScopeHost \<Rightarrow> normalizeHostScope scope
          | ScopeToolWide \<Rightarrow> []))"

definition scopePathEqual :: "string \<Rightarrow> string \<Rightarrow> bool" where
  "scopePathEqual a b \<longleftrightarrow> rel a b = Some ''.''"

definition grantCovers :: "Grant \<Rightarrow> string \<Rightarrow> bool" where
  "grantCovers grant reqScope =
     (case grant_kind grant of
        ScopeToolWide \<Rightarrow> True
      | ScopeFile \<Rightarrow> reqScope \<noteq> [] \<and> scopePathEqual (Scope grant) reqScope
      | ScopeDir \<Rightarrow> if reqScope = [] \<or> Scope grant = [] then False
                    else path_within_root (Scope grant) reqScope
      | ScopeHost \<Rightarrow> reqScope \<noteq> [] \<and> normalizeHostScope reqScope = normalizeHostScope (Scope grant))"

fun scopeSpecificity :: "ScopeKind \<Rightarrow> nat" where
  "scopeSpecificity ScopeFile = 2"
| "scopeSpecificity ScopeHost = 2"
| "scopeSpecificity ScopeDir = 1"
| "scopeSpecificity ScopeToolWide = 0"

definition moreSpecific :: "Grant \<Rightarrow> Grant \<Rightarrow> bool" where
  "moreSpecific a b =
     (let sa = scopeSpecificity (grant_kind a); sb = scopeSpecificity (grant_kind b)
      in if sa \<noteq> sb then sb < sa
         else if length (Scope a) \<noteq> length (Scope b) then length (Scope b) < length (Scope a)
         else ApprovedAt b < ApprovedAt a)"

section \<open>Buckets\<close>

text \<open>The loop of \<open>lookupGrantBucket\<close> with its best allow so far; \<open>None\<close> is no match.\<close>

fun lookup_from :: "string \<Rightarrow> Grant option \<Rightarrow> Grant list \<Rightarrow> Grant option" where
  "lookup_from reqScope bestAllow [] = bestAllow"
| "lookup_from reqScope bestAllow (grant # bucket) =
     (if \<not> grantCovers grant reqScope then lookup_from reqScope bestAllow bucket
      else if grant_decision grant = GrantDeny then Some grant
      else (case bestAllow of
              None \<Rightarrow> lookup_from reqScope (Some grant) bucket
            | Some best \<Rightarrow> if moreSpecific grant best then lookup_from reqScope (Some grant) bucket
                           else lookup_from reqScope (Some best) bucket))"

definition lookupGrantBucket :: "Grant list \<Rightarrow> string \<Rightarrow> Grant option" where
  "lookupGrantBucket bucket reqScope = lookup_from reqScope None bucket"

definition same_scope :: "Grant \<Rightarrow> Grant \<Rightarrow> bool" where
  "same_scope a b \<longleftrightarrow> Scope a = Scope b \<and> grant_kind a = grant_kind b"

text \<open>Replace the first element the test finds, else append.\<close>

fun replace_or_append :: "('a \<Rightarrow> bool) \<Rightarrow> 'a \<Rightarrow> 'a list \<Rightarrow> 'a list" where
  "replace_or_append same g [] = [g]"
| "replace_or_append same g (b # bs) = (if same b then g # bs else b # replace_or_append same g bs)"

definition bucket_of :: "(string \<times> 'a list) list \<Rightarrow> string \<Rightarrow> 'a list" where
  "bucket_of m key = (case map_of m key of None \<Rightarrow> [] | Some b \<Rightarrow> b)"

text \<open>\<open>memoryGrantSet\<close>.\<close>

type_synonym memoryGrantSet = "(string \<times> Grant list) list"

definition memoryGrantSet_add :: "memoryGrantSet \<Rightarrow> Grant \<Rightarrow> memoryGrantSet" where
  "memoryGrantSet_add grants grant =
     AList.update (grant_tool grant)
       (replace_or_append (\<lambda>b. same_scope b grant) grant (bucket_of grants (grant_tool grant))) grants"

definition memoryGrantSet_lookup :: "memoryGrantSet \<Rightarrow> string \<Rightarrow> string \<Rightarrow> Grant option" where
  "memoryGrantSet_lookup grants toolName reqScope =
     lookupGrantBucket (bucket_of grants (trim_space toolName)) reqScope"

section \<open>The store\<close>

record GrantInput =
  gi_tool :: string
  gi_decision :: string
  gi_reason :: string
  gi_scope :: string
  gi_kind :: string

text \<open>A grant as the file holds it, its enumerations unchecked.\<close>

record RawGrant =
  rg_tool :: string
  rg_scope :: string
  rg_kind :: string
  rg_decision :: string
  rg_approvedAt :: string
  rg_reason :: string
  rg_session :: bool

datatype grants_file =
    Missing
  | Unreadable string
  | Malformed string
  | Version1 "(string \<times> RawGrant) list"
  | Version2 "(string \<times> RawGrant list) list" "(string \<times> CommandPrefixGrant list) list"
  | Other_Version

record grantFile =
  Grants :: "(string \<times> Grant list) list"
  CommandPrefixes :: "(string \<times> CommandPrefixGrant list) list"

definition emptyGrantState :: grantFile where
  "emptyGrantState = \<lparr>Grants = [], CommandPrefixes = []\<rparr>"

definition tool_name_char :: "char \<Rightarrow> bool" where
  "tool_name_char c \<longleftrightarrow> is_upper c \<or> is_lower c \<or> is_digit c \<or> c \<in> set ''._-''"

text \<open>\<open>ValidateToolName\<close>: the anchored pattern \<open>[A-Za-z0-9._-]+\<close> on the trimmed name.\<close>

definition ValidateToolName :: "string \<Rightarrow> string option" where
  "ValidateToolName name =
     (let trimmed = trim_space name
      in if trimmed \<noteq> [] \<and> list_all tool_name_char trimmed then None
         else Some (''invalid sandbox tool name '' @ go_quote name @
                ''. Use letters, numbers, dots, dashes, or underscores''))"

definition createGrant :: "(string \<Rightarrow> string) \<Rightarrow> string \<Rightarrow> GrantInput \<Rightarrow> string + Grant" where
  "createGrant redact now input =
     (let toolName = trim_space (gi_tool input)
      in case ValidateToolName toolName of
           Some e \<Rightarrow> Inl e
         | None \<Rightarrow>
             (case NormalizeGrantDecision (gi_decision input) of
                Inl e \<Rightarrow> Inl e
              | Inr decision \<Rightarrow>
                  (case normalizeScopeKind (gi_kind input) of
                     Inl e \<Rightarrow> Inl e
                   | Inr kind \<Rightarrow>
                       (let (scope, kind) = reconcileScope (trim_space (gi_scope input)) kind
                        in Inr \<lparr>grant_tool = toolName, Scope = scope, grant_kind = kind,
                             grant_decision = decision, ApprovedAt = now,
                             grant_reason = redact (trim_space (gi_reason input)), Session = False\<rparr>))))"

definition createCommandPrefixGrant ::
    "(string \<Rightarrow> string) \<Rightarrow> string \<Rightarrow> CommandPrefixInput \<Rightarrow> string + CommandPrefixGrant" where
  "createCommandPrefixGrant redact now input =
     (let toolName = trim_space (cpi_tool input)
      in case ValidateToolName toolName of
           Some e \<Rightarrow> Inl e
         | None \<Rightarrow>
             (case NormalizeCommandPrefix (cpi_prefix input) of
                None \<Rightarrow> Inl ''invalid command prefix''
              | Some prefix \<Rightarrow>
                  Inr \<lparr>cp_tool = toolName, Prefix = prefix, cp_approvedAt = now,
                    cp_reason = redact (trim_space (cpi_reason input)), cp_session = False\<rparr>))"

definition normalizeStoredGrant :: "(string \<Rightarrow> string) \<Rightarrow> string \<Rightarrow> RawGrant \<Rightarrow> string + Grant" where
  "normalizeStoredGrant redact name grant =
     (let tool = (if trim_space (rg_tool grant) = [] then name else rg_tool grant)
      in if trim_space tool \<noteq> name then
           Inl (''grant key '' @ go_quote name @ '' does not match toolName '' @ go_quote tool)
         else if trim_space (rg_approvedAt grant) = [] then
           Inl (''grant '' @ name @ '' approvedAt is required'')
         else (case NormalizeGrantDecision (rg_decision grant) of
                 Inl e \<Rightarrow> Inl e
               | Inr decision \<Rightarrow>
                   (case normalizeScopeKind (rg_kind grant) of
                      Inl e \<Rightarrow> Inl e
                    | Inr kind \<Rightarrow>
                        (let (scope, kind) = reconcileScope (trim_space (rg_scope grant)) kind
                         in Inr \<lparr>grant_tool = name, Scope = scope, grant_kind = kind,
                              grant_decision = decision, ApprovedAt = trim_space (rg_approvedAt grant),
                              grant_reason = redact (trim_space (rg_reason grant)),
                              Session = rg_session grant\<rparr>))))"

definition normalizeStoredCommandPrefixGrant ::
    "(string \<Rightarrow> string) \<Rightarrow> string \<Rightarrow> CommandPrefixGrant \<Rightarrow> string + CommandPrefixGrant" where
  "normalizeStoredCommandPrefixGrant redact name grant =
     (let tool = (if trim_space (cp_tool grant) = [] then name else cp_tool grant)
      in if trim_space tool \<noteq> name then
           Inl (''command prefix key '' @ go_quote name @ '' does not match toolName '' @ go_quote tool)
         else if trim_space (cp_approvedAt grant) = [] then
           Inl (''command prefix grant '' @ name @ '' approvedAt is required'')
         else (case NormalizeCommandPrefix (Prefix grant) of
                 None \<Rightarrow> Inl (''invalid command prefix for '' @ name)
               | Some prefix \<Rightarrow>
                   Inr (grant\<lparr>cp_tool := name, Prefix := prefix,
                     cp_approvedAt := trim_space (cp_approvedAt grant),
                     cp_reason := redact (trim_space (cp_reason grant))\<rparr>)))"

text \<open>
  The two normalisation loops of \<open>readState\<close>, which differ in the element they normalise.  The
  buckets come in the iteration order of the map.
\<close>

fun load_bucket :: "('r \<Rightarrow> string + 'g) \<Rightarrow> string \<Rightarrow> 'r list \<Rightarrow> (string \<times> 'g list) list
    \<Rightarrow> string + (string \<times> 'g list) list" where
  "load_bucket norm key [] acc = Inr acc"
| "load_bucket norm key (r # rs) acc =
     (case norm r of
        Inl e \<Rightarrow> Inl e
      | Inr g \<Rightarrow> load_bucket norm key rs (AList.update key (bucket_of acc key @ [g]) acc))"

fun load_buckets :: "(string \<Rightarrow> 'r \<Rightarrow> string + 'g) \<Rightarrow> (string \<times> 'r list) list \<Rightarrow> (string \<times> 'g list) list
    \<Rightarrow> string + (string \<times> 'g list) list" where
  "load_buckets norm [] acc = Inr acc"
| "load_buckets norm ((name, bucket) # buckets) acc =
     (let key = trim_space name
      in case ValidateToolName key of
           Some e \<Rightarrow> Inl e
         | None \<Rightarrow> (case load_bucket (norm key) key bucket acc of
                      Inl e \<Rightarrow> Inl e
                    | Inr acc \<Rightarrow> load_buckets norm buckets acc))"

definition invalidGrantFile :: "string \<Rightarrow> string" where
  "invalidGrantFile err = ''invalid sandbox grants file: '' @ err"

definition load_state :: "(string \<Rightarrow> string) \<Rightarrow> (string \<times> RawGrant list) list
    \<Rightarrow> (string \<times> CommandPrefixGrant list) list \<Rightarrow> string + grantFile" where
  "load_state redact buckets prefixes =
     (case load_buckets (normalizeStoredGrant redact) buckets [] of
        Inl e \<Rightarrow> Inl (invalidGrantFile e)
      | Inr grants \<Rightarrow>
          (case load_buckets (normalizeStoredCommandPrefixGrant redact) prefixes [] of
             Inl e \<Rightarrow> Inl (invalidGrantFile e)
           | Inr prefixes \<Rightarrow> Inr \<lparr>Grants = grants, CommandPrefixes = prefixes\<rparr>))"

fun readState :: "(string \<Rightarrow> string) \<Rightarrow> grants_file \<Rightarrow> string + grantFile" where
  "readState redact Missing = Inr emptyGrantState"
| "readState redact (Unreadable e) = Inl e"
| "readState redact (Malformed e) = Inl (invalidGrantFile e)"
| "readState redact (Version1 legacy) =
     load_state redact (List.map (\<lambda>(name, grant). (name, [grant])) legacy) []"
| "readState redact (Version2 buckets prefixes) = load_state redact buckets prefixes"
| "readState redact Other_Version = Inl ''invalid sandbox grants file: unsupported schemaVersion''"

definition raw_grant :: "Grant \<Rightarrow> RawGrant" where
  "raw_grant g = \<lparr>rg_tool = grant_tool g, rg_scope = Scope g, rg_kind = ScopeKind_string (grant_kind g),
     rg_decision = GrantDecision_string (grant_decision g), rg_approvedAt = ApprovedAt g,
     rg_reason = grant_reason g, rg_session = Session g\<rparr>"

text \<open>\<open>writeState\<close>: the rename is atomic, so a failure leaves the file as it was.\<close>

definition writeState :: "string option \<Rightarrow> grantFile \<Rightarrow> grants_file \<Rightarrow> string option \<times> grants_file" where
  "writeState io st file =
     (case io of
        Some e \<Rightarrow> (Some e, file)
      | None \<Rightarrow> (None, Version2 (List.map (\<lambda>(k, b). (k, List.map raw_grant b)) (Grants st)) (CommandPrefixes st)))"

type_synonym 'a outcome = "(string + 'a) \<times> grants_file"

definition write_result :: "string option \<Rightarrow> grantFile \<Rightarrow> grants_file \<Rightarrow> 'a \<Rightarrow> 'a outcome" where
  "write_result io st file v =
     (case writeState io st file of (Some e, file) \<Rightarrow> (Inl e, file) | (None, file) \<Rightarrow> (Inr v, file))"

definition put_grant :: "Grant \<Rightarrow> grantFile \<Rightarrow> grantFile" where
  "put_grant grant st = st\<lparr>Grants := AList.update (grant_tool grant)
     (replace_or_append (\<lambda>b. same_scope b grant) grant (bucket_of (Grants st) (grant_tool grant))) (Grants st)\<rparr>"

definition GrantStore_Grant ::
    "(string \<Rightarrow> string) \<Rightarrow> string \<Rightarrow> string option \<Rightarrow> GrantInput \<Rightarrow> grants_file \<Rightarrow> Grant outcome" where
  "GrantStore_Grant redact now io input file =
     (case createGrant redact now input of
        Inl e \<Rightarrow> (Inl e, file)
      | Inr grant \<Rightarrow>
          (case readState redact file of
             Inl e \<Rightarrow> (Inl e, file)
           | Inr st \<Rightarrow> write_result io (put_grant grant st) file grant))"

definition put_prefix :: "CommandPrefixGrant \<Rightarrow> grantFile \<Rightarrow> grantFile" where
  "put_prefix grant st = st\<lparr>CommandPrefixes := AList.update (cp_tool grant)
     (replace_or_append (\<lambda>b. sameStringSlice (Prefix b) (Prefix grant)) grant
        (bucket_of (CommandPrefixes st) (cp_tool grant))) (CommandPrefixes st)\<rparr>"

definition GrantStore_GrantCommandPrefix ::
    "(string \<Rightarrow> string) \<Rightarrow> string \<Rightarrow> string option \<Rightarrow> CommandPrefixInput \<Rightarrow> grants_file
      \<Rightarrow> CommandPrefixGrant outcome" where
  "GrantStore_GrantCommandPrefix redact now io input file =
     (case createCommandPrefixGrant redact now input of
        Inl e \<Rightarrow> (Inl e, file)
      | Inr grant \<Rightarrow>
          (case readState redact file of
             Inl e \<Rightarrow> (Inl e, file)
           | Inr st \<Rightarrow> write_result io (put_prefix grant st) file grant))"

definition GrantStore_Lookup ::
    "(string \<Rightarrow> string) \<Rightarrow> string \<Rightarrow> string \<Rightarrow> grants_file \<Rightarrow> string + Grant option" where
  "GrantStore_Lookup redact toolName reqScope file =
     (case ValidateToolName toolName of
        Some e \<Rightarrow> Inl e
      | None \<Rightarrow>
          (case readState redact file of
             Inl e \<Rightarrow> Inl e
           | Inr st \<Rightarrow> Inr (lookupGrantBucket (bucket_of (Grants st) (trim_space toolName)) reqScope)))"

definition GrantStore_LookupCommandPrefix ::
    "(string \<Rightarrow> string) \<Rightarrow> string \<Rightarrow> string list \<Rightarrow> grants_file \<Rightarrow> string + CommandPrefixGrant option" where
  "GrantStore_LookupCommandPrefix redact toolName command file =
     (case ValidateToolName toolName of
        Some e \<Rightarrow> Inl e
      | None \<Rightarrow>
          if NormalizeCommandPrefix command = None then Inr None
          else (case readState redact file of
                  Inl e \<Rightarrow> Inl e
                | Inr st \<Rightarrow> Inr (find (\<lambda>grant. hasStringPrefix command (Prefix grant))
                              (bucket_of (CommandPrefixes st) (trim_space toolName)))))"

text \<open>\<open>sort.Slice\<close> on the keys the source compares.\<close>

definition GrantStore_List :: "(string \<Rightarrow> string) \<Rightarrow> grants_file \<Rightarrow> string + Grant list" where
  "GrantStore_List redact file =
     (case readState redact file of
        Inl e \<Rightarrow> Inl e
      | Inr st \<Rightarrow> Inr (List.concat (List.map
          (\<lambda>name. sort_key (\<lambda>g. (Scope g, ScopeKind_string (grant_kind g))) (bucket_of (Grants st) name))
          (sort (List.map fst (Grants st))))))"

definition GrantStore_ListCommandPrefixes ::
    "(string \<Rightarrow> string) \<Rightarrow> grants_file \<Rightarrow> string + CommandPrefixGrant list" where
  "GrantStore_ListCommandPrefixes redact file =
     (case readState redact file of
        Inl e \<Rightarrow> Inl e
      | Inr st \<Rightarrow> Inr (List.concat (List.map
          (\<lambda>name. sort_key (\<lambda>g. join [CHR 0x00] (Prefix g)) (bucket_of (CommandPrefixes st) name))
          (sort (List.map fst (CommandPrefixes st))))))"

definition GrantStore_Revoke ::
    "(string \<Rightarrow> string) \<Rightarrow> string option \<Rightarrow> string \<Rightarrow> grants_file \<Rightarrow> nat outcome" where
  "GrantStore_Revoke redact io toolName file =
     (case ValidateToolName toolName of
        Some e \<Rightarrow> (Inl e, file)
      | None \<Rightarrow>
          (case readState redact file of
             Inl e \<Rightarrow> (Inl e, file)
           | Inr st \<Rightarrow>
               (let key = trim_space toolName;
                    bucket = bucket_of (Grants st) key;
                    prefixes = bucket_of (CommandPrefixes st) key
                in if bucket = [] \<and> prefixes = [] then (Inr 0, file)
                   else write_result io \<lparr>Grants = AList.delete key (Grants st),
                          CommandPrefixes = AList.delete key (CommandPrefixes st)\<rparr> file
                          (length bucket + length prefixes))))"

definition GrantStore_RevokePath ::
    "(string \<Rightarrow> string) \<Rightarrow> os \<Rightarrow> string option \<Rightarrow> string \<Rightarrow> string \<Rightarrow> grants_file \<Rightarrow> nat outcome" where
  "GrantStore_RevokePath redact os io toolName scopePath file =
     (case ValidateToolName toolName of
        Some e \<Rightarrow> (Inl e, file)
      | None \<Rightarrow>
          (let target = resolveScopeAbs os scopePath []
           in if target = [] then (Inl ''a non-empty --path is required to revoke a single grant'', file)
              else (case readState redact file of
                      Inl e \<Rightarrow> (Inl e, file)
                    | Inr st \<Rightarrow>
                        (let key = trim_space toolName;
                             bucket = bucket_of (Grants st) key;
                             kept = filter (\<lambda>grant. Scope grant \<noteq> target) bucket;
                             removed = length (filter (\<lambda>grant. Scope grant = target) bucket)
                         in if removed = 0 then (Inr 0, file)
                            else write_result io (st\<lparr>Grants :=
                                   (if kept = [] then AList.delete key (Grants st)
                                    else AList.update key kept (Grants st))\<rparr>) file removed))))"

definition bucket_count :: "(string \<times> 'a list) list \<Rightarrow> nat" where
  "bucket_count m = sum_list (List.map (\<lambda>(_, b). length b) m)"

definition GrantStore_Clear :: "(string \<Rightarrow> string) \<Rightarrow> string option \<Rightarrow> grants_file \<Rightarrow> nat outcome" where
  "GrantStore_Clear redact io file =
     (case readState redact file of
        Inl e \<Rightarrow> (Inl e, file)
      | Inr st \<Rightarrow>
          (let count = bucket_count (Grants st) + bucket_count (CommandPrefixes st)
           in if count = 0 then (Inr 0, file) else write_result io emptyGrantState file count))"

section \<open>Listings\<close>

definition reason_suffix :: "(string \<Rightarrow> string) \<Rightarrow> string \<Rightarrow> string" where
  "reason_suffix redact reason = (if reason \<noteq> [] then '' - '' @ redact reason else [])"

definition FormatGrantListWithCommandPrefixes ::
    "(string \<Rightarrow> string) \<Rightarrow> Grant list \<Rightarrow> CommandPrefixGrant list \<Rightarrow> string" where
  "FormatGrantListWithCommandPrefixes redact grants prefixes =
     (if grants = [] \<and> prefixes = [] then ''No persistent sandbox grants.''
      else join [newline] (''Sandbox Grants:'' #
        List.map (\<lambda>g. ''  '' @ grant_tool g @ '' ('' @ (if Scope g = [] then ''*'' else Scope g) @ '') ['' @
            GrantDecision_string (grant_decision g) @ ''] approved '' @ ApprovedAt g @
            reason_suffix redact (grant_reason g)) grants @
        List.map (\<lambda>g. ''  '' @ cp_tool g @ '' ('' @ backtick # join '' '' (Prefix g) @ backtick #
            '') [command-prefix] approved '' @ cp_approvedAt g @ reason_suffix redact (cp_reason g)) prefixes))"

definition FormatGrantList :: "(string \<Rightarrow> string) \<Rightarrow> Grant list \<Rightarrow> string" where
  "FormatGrantList redact grants = FormatGrantListWithCommandPrefixes redact grants []"

section \<open>Which grant governs a request\<close>

definition specificity :: "Grant \<Rightarrow> nat \<times> nat \<times> string" where
  "specificity g = (scopeSpecificity (grant_kind g), length (Scope g), ApprovedAt g)"

lemma moreSpecific_iff: "moreSpecific a b \<longleftrightarrow> specificity b < specificity a"
  by (auto simp: moreSpecific_def specificity_def Let_def less_prod_def)

lemma lookup_from_deny:
  "\<exists>g \<in> set bucket. grantCovers g q \<and> grant_decision g = GrantDeny \<Longrightarrow>
   \<exists>g \<in> set bucket. lookup_from q best bucket = Some g \<and> grantCovers g q \<and> grant_decision g = GrantDeny"
  by (induction q best bucket rule: lookup_from.induct) (auto split: option.split)

lemma lookup_from_allow:
  "\<forall>g \<in> set bucket. grantCovers g q \<longrightarrow> grant_decision g \<noteq> GrantDeny \<Longrightarrow>
   (case lookup_from q best bucket of
      None \<Rightarrow> best = None \<and> (\<forall>g \<in> set bucket. \<not> grantCovers g q)
    | Some r \<Rightarrow> (best = Some r \<or> (r \<in> set bucket \<and> grantCovers r q)) \<and>
        (\<forall>g \<in> set_option best \<union> {g \<in> set bucket. grantCovers g q}. specificity g \<le> specificity r))"
proof (induction q best bucket rule: lookup_from.induct)
  case (1 q best)
  then show ?case by (cases best) auto
next
  case (2 q best g bucket)
  show ?case
  proof (cases "grantCovers g q")
    case False
    with 2 have "case lookup_from q best bucket of
        None \<Rightarrow> best = None \<and> (\<forall>g \<in> set bucket. \<not> grantCovers g q)
      | Some r \<Rightarrow> (best = Some r \<or> (r \<in> set bucket \<and> grantCovers r q)) \<and>
          (\<forall>g \<in> set_option best \<union> {g \<in> set bucket. grantCovers g q}. specificity g \<le> specificity r)"
      by auto
    with False show ?thesis by (auto split: option.splits)
  next
    case True
    then have nd: "grant_decision g \<noteq> GrantDeny" using 2(5) by simp
    define best' where "best' = (case best of None \<Rightarrow> g | Some b \<Rightarrow> if moreSpecific g b then g else b)"
    have best': "lookup_from q best (g # bucket) = lookup_from q (Some best') bucket"
      and ge: "specificity g \<le> specificity best'" "\<forall>b \<in> set_option best. specificity b \<le> specificity best'"
      and src: "best' = g \<or> best = Some best'"
      using True nd by (auto simp: best'_def moreSpecific_iff split: option.split)
    have "case lookup_from q (Some best') bucket of
        None \<Rightarrow> Some best' = None \<and> (\<forall>g \<in> set bucket. \<not> grantCovers g q)
      | Some r \<Rightarrow> (Some best' = Some r \<or> (r \<in> set bucket \<and> grantCovers r q)) \<and>
          (\<forall>g \<in> set_option (Some best') \<union> {g \<in> set bucket. grantCovers g q}. specificity g \<le> specificity r)"
    proof (cases best)
      case None
      then have b: "best' = g" by (simp add: best'_def)
      show ?thesis unfolding b using 2(2) 2(5) True nd None by simp
    next
      case (Some c)
      show ?thesis
      proof (cases "moreSpecific g c")
        case m: True
        then have b: "best' = g" using Some by (simp add: best'_def)
        show ?thesis unfolding b using 2(3) 2(5) True nd Some m by simp
      next
        case m: False
        then have b: "best' = c" using Some by (simp add: best'_def)
        show ?thesis unfolding b using 2(4) 2(5) True nd Some m by simp
      qed
    qed
    then show ?thesis
      using True best' ge src by (fastforce split: option.splits)
  qed
qed

text \<open>The three cases of a lookup.\<close>

lemma lookup_bucket_deny:
  "\<exists>g \<in> set bucket. grantCovers g q \<and> grant_decision g = GrantDeny \<Longrightarrow>
   \<exists>g \<in> set bucket. lookupGrantBucket bucket q = Some g \<and> grantCovers g q \<and> grant_decision g = GrantDeny"
  unfolding lookupGrantBucket_def by (rule lookup_from_deny)

lemma lookup_bucket_member:
  "lookupGrantBucket bucket q = Some g \<Longrightarrow> g \<in> set bucket \<and> grantCovers g q"
  using lookup_bucket_deny [of bucket q] lookup_from_allow [of bucket q None]
  by (cases "\<exists>g \<in> set bucket. grantCovers g q \<and> grant_decision g = GrantDeny")
    (auto simp: lookupGrantBucket_def)

lemma lookup_bucket_None: "lookupGrantBucket bucket q = None \<longleftrightarrow> (\<forall>g \<in> set bucket. \<not> grantCovers g q)"
proof (cases "\<exists>g \<in> set bucket. grantCovers g q \<and> grant_decision g = GrantDeny")
  case True
  then show ?thesis using lookup_bucket_deny [OF True] by auto
next
  case False
  then have "\<forall>g \<in> set bucket. grantCovers g q \<longrightarrow> grant_decision g \<noteq> GrantDeny" by blast
  from lookup_from_allow [OF this, of None] show ?thesis
    by (auto simp: lookupGrantBucket_def split: option.splits)
qed

lemma lookup_bucket_best:
  assumes "lookupGrantBucket bucket q = Some g" "grant_decision g = GrantAllow"
    "h \<in> set bucket" "grantCovers h q"
  shows "grant_decision h = GrantAllow" "\<not> moreSpecific h g"
proof -
  have nd: "\<forall>g \<in> set bucket. grantCovers g q \<longrightarrow> grant_decision g \<noteq> GrantDeny"
    using lookup_bucket_deny [of bucket q] assms(1,2) by fastforce
  then show "grant_decision h = GrantAllow" using assms(3,4) by (cases "grant_decision h") auto
  from lookup_from_allow [OF nd, of None] assms show "\<not> moreSpecific h g"
    by (auto simp: lookupGrantBucket_def moreSpecific_iff not_less)
qed

section \<open>Sets of grants\<close>

lemma replace_or_append_set:
  "g \<in> set (replace_or_append same g bs)" "h \<in> set bs \<Longrightarrow> \<not> same h \<Longrightarrow> h \<in> set (replace_or_append same g bs)"
  "set (replace_or_append same g bs) \<subseteq> insert g (set bs)"
  by (induction bs) auto

lemma replace_or_append_other:
  "\<forall>b \<in> set bs. \<not> same b \<Longrightarrow> replace_or_append same g bs = bs @ [g]"
  by (induction bs) auto

text \<open>At most one grant per scope.\<close>

definition scope_key :: "Grant \<Rightarrow> string \<times> ScopeKind" where
  "scope_key g = (Scope g, grant_kind g)"

lemma same_scope_key: "same_scope a b \<longleftrightarrow> scope_key a = scope_key b"
  by (auto simp: same_scope_def scope_key_def)

lemma replace_or_append_keys:
  "List.map scope_key (replace_or_append (\<lambda>b. same_scope b g) g bs) =
     (if scope_key g \<in> scope_key ` set bs then List.map scope_key bs else List.map scope_key bs @ [scope_key g])"
  by (induction bs) (auto simp: same_scope_key)

lemma bucket_of_update: "bucket_of (AList.update k v m) t = (if t = k then v else bucket_of m t)"
  by (simp add: bucket_of_def update_conv')

lemma bucket_of_delete: "bucket_of (AList.delete k m) t = (if t = k then [] else bucket_of m t)"
  by (simp add: bucket_of_def delete_conv')

text \<open>
  What a set of grants promises its client, the engine: a grant put in is the one the set
  holds for its scope, and nothing else changes.
\<close>

locale grant_book =
  fixes put :: "'s \<Rightarrow> Grant \<Rightarrow> 's" and bucket :: "'s \<Rightarrow> string \<Rightarrow> Grant list"
  assumes bucket_put: "bucket (put s g) t =
    (if t = grant_tool g then replace_or_append (\<lambda>b. same_scope b g) g (bucket s t) else bucket s t)"
begin

definition look :: "'s \<Rightarrow> string \<Rightarrow> string \<Rightarrow> Grant option" where
  "look s t q = lookupGrantBucket (bucket s t) q"

lemma put_other_tool: "t \<noteq> grant_tool g \<Longrightarrow> look (put s g) t q = look s t q"
  by (simp add: look_def bucket_put)

lemma put_visible: "grantCovers g q \<Longrightarrow> look (put s g) (grant_tool g) q \<noteq> None"
  unfolding look_def lookup_bucket_None using replace_or_append_set(1) by (fastforce simp: bucket_put)

lemma denied: "h \<in> set (bucket s t) \<Longrightarrow> grantCovers h q \<Longrightarrow> grant_decision h = GrantDeny \<Longrightarrow>
    \<exists>g. look s t q = Some g \<and> grant_decision g = GrantDeny"
  using lookup_bucket_deny [of "bucket s t" q] by (auto simp: look_def)

lemma put_deny: "grantCovers g q \<Longrightarrow> grant_decision g = GrantDeny \<Longrightarrow>
    \<exists>h. look (put s g) (grant_tool g) q = Some h \<and> grant_decision h = GrantDeny"
  by (rule denied [of g]) (simp_all add: bucket_put replace_or_append_set)

text \<open>A later grant for another scope cannot lift a deny.\<close>

lemma deny_survives:
  assumes "h \<in> set (bucket s t)" "grantCovers h q" "grant_decision h = GrantDeny" "\<not> same_scope h g"
  shows "\<exists>r. look (put s g) t q = Some r \<and> grant_decision r = GrantDeny"
  using assms replace_or_append_set(2) [of h "bucket s t" "\<lambda>b. same_scope b g" g]
  by (intro denied [of h]) (auto simp: bucket_put)

lemma put_scopes_distinct:
  "(\<And>t. distinct (List.map scope_key (bucket s t))) \<Longrightarrow> distinct (List.map scope_key (bucket (put s g) t))"
  by (simp add: bucket_put replace_or_append_keys)

lemma puts_scopes_distinct:
  "(\<And>t. distinct (List.map scope_key (bucket s t))) \<Longrightarrow> distinct (List.map scope_key (bucket (foldl put s gs) t))"
  by (induction gs arbitrary: s) (simp_all add: put_scopes_distinct)

lemma look_approved:
  "look (foldl put s gs) t q = Some r \<Longrightarrow> r \<in> set (bucket s t) \<union> set gs \<and> grantCovers r q"
proof -
  have "set (bucket (foldl put s gs) t) \<subseteq> set (bucket s t) \<union> set gs"
  proof (induction gs arbitrary: s)
    case (Cons g gs)
    have "set (bucket (put s g) t) \<subseteq> insert g (set (bucket s t))"
      using replace_or_append_set(3) [of "\<lambda>b. same_scope b g" g "bucket s t"] by (auto simp: bucket_put)
    then show ?case using Cons.IH [of "put s g"] by auto
  qed simp
  moreover assume "look (foldl put s gs) t q = Some r"
  ultimately show ?thesis using lookup_bucket_member by (auto simp: look_def)
qed

end

interpretation session_book: grant_book memoryGrantSet_add bucket_of
  by unfold_locales (simp add: memoryGrantSet_add_def bucket_of_update)

interpretation store_book: grant_book "\<lambda>st g. put_grant g st" "\<lambda>st. bucket_of (Grants st)"
  by unfold_locales (simp add: put_grant_def bucket_of_update)

section \<open>The store keeps what it is given\<close>

text \<open>
  A state that reading gives back: trimmed, validated keys, non-empty buckets and grants whose
  scope is in normal form.  Reading passes every reason through the redaction again.
\<close>

definition stable_grant :: "string \<Rightarrow> Grant \<Rightarrow> bool" where
  "stable_grant k g \<longleftrightarrow> grant_tool g = k \<and> ApprovedAt g \<noteq> [] \<and> trim_space (ApprovedAt g) = ApprovedAt g \<and>
     reconcileScope (trim_space (Scope g)) (grant_kind g) = (Scope g, grant_kind g)"

definition stable_prefix :: "string \<Rightarrow> CommandPrefixGrant \<Rightarrow> bool" where
  "stable_prefix k p \<longleftrightarrow> cp_tool p = k \<and> cp_approvedAt p \<noteq> [] \<and>
     trim_space (cp_approvedAt p) = cp_approvedAt p \<and> NormalizeCommandPrefix (Prefix p) = Some (Prefix p)"

definition valid_key :: "string \<Rightarrow> bool" where
  "valid_key k \<longleftrightarrow> ValidateToolName k = None \<and> trim_space k = k"

definition stable_buckets :: "(string \<Rightarrow> 'g \<Rightarrow> bool) \<Rightarrow> (string \<times> 'g list) list \<Rightarrow> bool" where
  "stable_buckets ok m \<longleftrightarrow> distinct (List.map fst m) \<and>
     (\<forall>(k, b) \<in> set m. valid_key k \<and> b \<noteq> [] \<and> list_all (ok k) b)"

definition stable_state :: "grantFile \<Rightarrow> bool" where
  "stable_state st \<longleftrightarrow> stable_buckets stable_grant (Grants st) \<and> stable_buckets stable_prefix (CommandPrefixes st)"

definition reread :: "(string \<Rightarrow> string) \<Rightarrow> Grant \<Rightarrow> Grant" where
  "reread redact g = g\<lparr>grant_reason := redact (trim_space (grant_reason g))\<rparr>"

definition reread_prefix :: "(string \<Rightarrow> string) \<Rightarrow> CommandPrefixGrant \<Rightarrow> CommandPrefixGrant" where
  "reread_prefix redact g = g\<lparr>cp_reason := redact (trim_space (cp_reason g))\<rparr>"

definition reread_state :: "(string \<Rightarrow> string) \<Rightarrow> grantFile \<Rightarrow> grantFile" where
  "reread_state redact st =
     \<lparr>Grants = List.map (\<lambda>(k, b). (k, List.map (reread redact) b)) (Grants st),
      CommandPrefixes = List.map (\<lambda>(k, b). (k, List.map (reread_prefix redact) b)) (CommandPrefixes st)\<rparr>"

lemma valid_key_nonempty: "valid_key k \<Longrightarrow> k \<noteq> []"
  by (auto simp: valid_key_def ValidateToolName_def)

lemma normalizeStoredGrant_raw:
  "stable_grant k g \<Longrightarrow> valid_key k \<Longrightarrow> normalizeStoredGrant redact k (raw_grant g) = Inr (reread redact g)"
  using valid_key_nonempty [of k]
  by (simp add: normalizeStoredGrant_def raw_grant_def stable_grant_def valid_key_def Let_def reread_def
      NormalizeGrantDecision_string normalizeScopeKind_string)

lemma normalizeStoredCommandPrefixGrant_stable:
  "stable_prefix k p \<Longrightarrow> valid_key k \<Longrightarrow>
   normalizeStoredCommandPrefixGrant redact k p = Inr (reread_prefix redact p)"
  using valid_key_nonempty [of k]
  by (simp add: normalizeStoredCommandPrefixGrant_def stable_prefix_def valid_key_def Let_def reread_prefix_def)

lemma update_absent: "k \<notin> fst ` set m \<Longrightarrow> AList.update k v m = m @ [(k, v)]"
  by (induction m) auto

lemma update_last: "k \<notin> fst ` set m \<Longrightarrow> AList.update k v (m @ [(k, w)]) = m @ [(k, v)]"
  by (induction m) auto

lemma bucket_of_last: "k \<notin> fst ` set m \<Longrightarrow> bucket_of (m @ [(k, w)]) k = w"
  by (induction m) (auto simp: bucket_of_def)

lemma bucket_of_absent: "k \<notin> fst ` set m \<Longrightarrow> bucket_of m k = []"
  by (simp add: bucket_of_def map_of_eq_None_iff split: option.split)
    (metis map_of_eq_None_iff option.distinct(1))

lemma load_bucket_on:
  assumes "\<forall>r \<in> set rs. norm r = Inr (f r)" "k \<notin> fst ` set acc"
  shows "load_bucket norm k rs (acc @ [(k, gs)]) = Inr (acc @ [(k, gs @ List.map f rs)])"
  using assms
proof (induction rs arbitrary: gs)
  case (Cons r rs)
  then show ?case by (simp add: bucket_of_last update_last)
qed simp

lemma load_bucket_fresh:
  assumes "\<forall>r \<in> set rs. norm r = Inr (f r)" "k \<notin> fst ` set acc" "rs \<noteq> []"
  shows "load_bucket norm k rs acc = Inr (acc @ [(k, List.map f rs)])"
proof -
  obtain r rs' where rs: "rs = r # rs'" using assms(3) by (cases rs) auto
  then show ?thesis using assms load_bucket_on [of rs' norm f k acc "[f r]"]
    by (simp add: bucket_of_absent update_absent)
qed

lemma load_buckets_stable:
  assumes "\<And>k b. (k, b) \<in> set m \<Longrightarrow> valid_key k \<and> b \<noteq> [] \<and> (\<forall>g \<in> set b. norm k (raw g) = Inr (f g))"
    "distinct (List.map fst m)" "fst ` set acc \<inter> fst ` set m = {}"
  shows "load_buckets norm (List.map (\<lambda>(k, b). (k, List.map raw b)) m) acc =
    Inr (acc @ List.map (\<lambda>(k, b). (k, List.map f b)) m)"
  using assms
proof (induction m arbitrary: acc)
  case Nil
  then show ?case by simp
next
  case (Cons e m)
  obtain k b where e: "e = (k, b)" by (cases e)
  have kb: "valid_key k" "b \<noteq> []" "\<forall>g \<in> set b. norm k (raw g) = Inr (f g)"
    using Cons.prems(1) [of k b] e by auto
  have fresh: "k \<notin> fst ` set acc" using Cons.prems(3) e by auto
  have "load_bucket (norm k) k (List.map raw b) acc = Inr (acc @ [(k, List.map f b)])"
  proof -
    obtain g b' where b: "b = g # b'" using kb(2) by (cases b) auto
    have "load_bucket (norm k) k (List.map raw b') (acc @ [(k, gs)]) = Inr (acc @ [(k, gs @ List.map f b')])" for gs
      using kb(3) b
    proof (induction b' arbitrary: gs b)
      case (Cons g' b'')
      then show ?case using fresh by (simp add: bucket_of_last update_last)
    qed simp
    then show ?thesis using kb(3) b fresh by (simp add: bucket_of_absent update_absent)
  qed
  moreover have "fst ` set (acc @ [(k, List.map f b)]) \<inter> fst ` set m = {}"
    using Cons.prems(2,3) e by auto
  moreover from this have "load_buckets norm (List.map (\<lambda>(k, b). (k, List.map raw b)) m) (acc @ [(k, List.map f b)]) =
      Inr ((acc @ [(k, List.map f b)]) @ List.map (\<lambda>(k, b). (k, List.map f b)) m)"
    using Cons.prems(1,2) by (intro Cons.IH) auto
  ultimately show ?case using kb(1) e by (simp add: valid_key_def)
qed

theorem readState_writeState:
  assumes "stable_state st"
  shows "readState redact (snd (writeState None st fl)) = Inr (reread_state redact st)"
proof -
  have g: "load_buckets (normalizeStoredGrant redact)
      (List.map (\<lambda>(k, b). (k, List.map raw_grant b)) (Grants st)) [] =
      Inr ([] @ List.map (\<lambda>(k, b). (k, List.map (reread redact) b)) (Grants st))"
    using assms
    by (intro load_buckets_stable)
      (auto simp: stable_state_def stable_buckets_def list_all_iff normalizeStoredGrant_raw)
  have p: "load_buckets (normalizeStoredCommandPrefixGrant redact)
      (List.map (\<lambda>(k, b). (k, List.map (\<lambda>g. g) b)) (CommandPrefixes st)) [] =
      Inr ([] @ List.map (\<lambda>(k, b). (k, List.map (reread_prefix redact) b)) (CommandPrefixes st))"
    using assms
    by (intro load_buckets_stable)
      (auto simp: stable_state_def stable_buckets_def list_all_iff normalizeStoredCommandPrefixGrant_stable)
  show ?thesis using g p by (simp add: writeState_def load_state_def reread_state_def)
qed

section \<open>Operations of the store\<close>

lemma update_set: "set (AList.update k v m) \<subseteq> insert (k, v) (set m)"
  by (induction m) auto

lemma stable_buckets_update:
  "stable_buckets ok m \<Longrightarrow> valid_key k \<Longrightarrow> b \<noteq> [] \<Longrightarrow> list_all (ok k) b \<Longrightarrow> stable_buckets ok (AList.update k b m)"
  using update_set [of k b m] by (auto simp: stable_buckets_def AList.distinct_update)

text \<open>
  What was read from a file is in normal form, host scopes apart, whose normal form may change when
  it is taken again.
\<close>

definition no_hosts :: "grantFile \<Rightarrow> bool" where
  "no_hosts st \<longleftrightarrow> list_all (\<lambda>(k, b). list_all (\<lambda>g. grant_kind g \<noteq> ScopeHost) b) (Grants st)"

lemma normalizeStoredGrant_stable:
  "normalizeStoredGrant redact k r = Inr g \<Longrightarrow> grant_kind g \<noteq> ScopeHost \<longrightarrow> stable_grant k g"
  by (auto simp: normalizeStoredGrant_def stable_grant_def reconcileScope_def Let_def split: if_splits sum.splits)

lemma normalizeStoredCommandPrefixGrant_normal:
  "normalizeStoredCommandPrefixGrant redact k r = Inr p \<Longrightarrow> stable_prefix k p"
  by (auto simp: normalizeStoredCommandPrefixGrant_def stable_prefix_def Let_def NormalizeCommandPrefix_idem
      split: if_splits option.splits)

lemma load_bucket_stable:
  assumes "\<And>r g. norm r = Inr g \<Longrightarrow> ok key g" "valid_key key"
  shows "load_bucket norm key rs acc = Inr acc' \<Longrightarrow> stable_buckets ok acc \<Longrightarrow> stable_buckets ok acc'"
proof (induction rs arbitrary: acc)
  case (Cons r rs)
  then obtain g where g: "norm r = Inr g" "load_bucket norm key rs (AList.update key (bucket_of acc key @ [g]) acc) = Inr acc'"
    by (auto split: sum.splits)
  have "list_all (ok key) (bucket_of acc key)"
    using Cons.prems(2) by (auto simp: bucket_of_def stable_buckets_def dest!: map_of_SomeD split: option.splits)
  then have "stable_buckets ok (AList.update key (bucket_of acc key @ [g]) acc)"
    using Cons.prems(2) assms g(1) by (intro stable_buckets_update) simp_all
  then show ?case using Cons.IH g(2) by blast
qed simp

lemma load_buckets_normal:
  assumes "\<And>k r g. norm k r = Inr g \<Longrightarrow> ok k g"
  shows "load_buckets norm m acc = Inr acc' \<Longrightarrow> stable_buckets ok acc \<Longrightarrow> stable_buckets ok acc'"
proof (induction m arbitrary: acc)
  case (Cons e m)
  obtain name bucket where e: "e = (name, bucket)" by (cases e)
  then obtain acc1 where a: "ValidateToolName (trim_space name) = None"
    "load_bucket (norm (trim_space name)) (trim_space name) bucket acc = Inr acc1" "load_buckets norm m acc1 = Inr acc'"
    using Cons.prems(1) by (auto simp: Let_def split: option.splits sum.splits)
  have key: "valid_key (trim_space name)" using a(1) by (simp add: valid_key_def)
  have "stable_buckets ok acc1" by (rule load_bucket_stable [OF assms key a(2) Cons.prems(2)])
  then show ?case using Cons.IH [OF a(3)] by blast
qed simp

lemma readState_stable:
  assumes "readState redact fl = Inr st" "no_hosts st"
  shows "stable_state st"
proof -
  have empty: "stable_buckets ok []" for ok :: "string \<Rightarrow> 'g \<Rightarrow> bool" by (simp add: stable_buckets_def)
  have "stable_state st" if l: "load_state redact m p = Inr st" for m p
  proof -
    have b: "load_buckets (normalizeStoredGrant redact) m [] = Inr (Grants st)"
      "load_buckets (normalizeStoredCommandPrefixGrant redact) p [] = Inr (CommandPrefixes st)"
      using l by (auto simp: load_state_def split: sum.splits)
    have "stable_buckets (\<lambda>k g. grant_kind g \<noteq> ScopeHost \<longrightarrow> stable_grant k g) (Grants st)"
      by (rule load_buckets_normal [OF _ b(1) empty]) (rule normalizeStoredGrant_stable)
    moreover have "stable_buckets stable_prefix (CommandPrefixes st)"
      by (rule load_buckets_normal [OF _ b(2) empty]) (rule normalizeStoredCommandPrefixGrant_normal)
    ultimately show ?thesis using assms(2) by (fastforce simp: stable_state_def stable_buckets_def no_hosts_def list_all_iff)
  qed
  moreover have "stable_state emptyGrantState" by (simp add: stable_state_def stable_buckets_def emptyGrantState_def)
  ultimately show ?thesis using assms(1) by (cases fl) auto
qed

lemma delete_set: "set (AList.delete k m) \<subseteq> set m"
  by (auto simp: AList.delete_eq)

lemma stable_buckets_delete: "stable_buckets ok m \<Longrightarrow> stable_buckets ok (AList.delete k m)"
  using delete_set [of k m] by (auto simp: stable_buckets_def AList.distinct_delete)

lemma stable_bucket_of: "stable_buckets ok m \<Longrightarrow> list_all (ok k) (bucket_of m k)"
  by (auto simp: stable_buckets_def bucket_of_def split: option.split dest!: map_of_SomeD)

lemma replace_or_append_ok: "list_all P bs \<Longrightarrow> P g \<Longrightarrow> list_all P (replace_or_append same g bs)"
  by (induction bs) auto

lemma replace_or_append_nonempty: "replace_or_append same g bs \<noteq> []"
  by (cases bs) auto

lemma put_grant_stable:
  "stable_state st \<Longrightarrow> stable_grant (grant_tool g) g \<Longrightarrow> valid_key (grant_tool g) \<Longrightarrow> stable_state (put_grant g st)"
  by (simp add: stable_state_def put_grant_def stable_buckets_update replace_or_append_nonempty
      replace_or_append_ok stable_bucket_of)

lemma put_prefix_stable:
  "stable_state st \<Longrightarrow> stable_prefix (cp_tool g) g \<Longrightarrow> valid_key (cp_tool g) \<Longrightarrow> stable_state (put_prefix g st)"
  by (simp add: stable_state_def put_prefix_def stable_buckets_update replace_or_append_nonempty
      replace_or_append_ok stable_bucket_of)

lemma bucket_of_map: "bucket_of (List.map (\<lambda>(k, b). (k, List.map f b)) m) t = List.map f (bucket_of m t)"
  by (induction m) (auto simp: bucket_of_def)

lemma lookup_from_reread:
  "lookup_from q (map_option (reread redact) best) (List.map (reread redact) b) =
   map_option (reread redact) (lookup_from q best b)"
proof (induction q best b rule: lookup_from.induct)
  case (2 q best g b)
  have "grantCovers (reread redact g) q = grantCovers g q" "grant_decision (reread redact g) = grant_decision g"
    "moreSpecific (reread redact g) (reread redact h) = moreSpecific g h" for h
    by (cases "grant_kind g"; simp add: grantCovers_def reread_def moreSpecific_def)+
  with 2 show ?case by (cases best) simp_all
qed simp

lemma lookup_reread:
  "lookupGrantBucket (List.map (reread redact) b) q = map_option (reread redact) (lookupGrantBucket b q)"
  using lookup_from_reread [of q redact None b] by (simp add: lookupGrantBucket_def)

lemma Lookup_written:
  assumes "stable_state st" "valid_key t"
  shows "GrantStore_Lookup redact t q (snd (writeState None st fl)) =
    Inr (map_option (reread redact) (lookupGrantBucket (bucket_of (Grants st) t) q))"
  using assms readState_writeState [OF assms(1), of redact fl]
  by (simp add: GrantStore_Lookup_def valid_key_def reread_state_def bucket_of_map lookup_reread)

lemma createGrant_valid: "createGrant redact now input = Inr g \<Longrightarrow> valid_key (grant_tool g)"
  by (auto simp: createGrant_def Let_def valid_key_def ValidateToolName_def
      split: option.splits sum.splits prod.splits if_splits)

lemma Lookup_after_Grant:
  assumes grant: "GrantStore_Grant redact now None input file = (Inr g, file')"
    and st: "readState redact file = Inr st" "stable_state st" and g: "stable_grant (grant_tool g) g"
    and cov: "grantCovers g q"
  shows "\<exists>h. GrantStore_Lookup redact (grant_tool g) q file' = Inr (Some h) \<and>
    (grant_decision g = GrantDeny \<longrightarrow> grant_decision h = GrantDeny)"
proof -
  have c: "createGrant redact now input = Inr g" and f: "file' = snd (writeState None (put_grant g st) file)"
    using grant st(1)
    by (auto simp: GrantStore_Grant_def write_result_def writeState_def split: sum.splits)
  have v: "valid_key (grant_tool g)" using c by (rule createGrant_valid)
  let ?r = "lookupGrantBucket (bucket_of (Grants (put_grant g st)) (grant_tool g)) q"
  have "?r \<noteq> None" using store_book.put_visible [OF cov, of st] by (simp add: store_book.look_def)
  then obtain r where r: "?r = Some r" by blast
  have "grant_decision g = GrantDeny \<longrightarrow> grant_decision r = GrantDeny"
    using store_book.put_deny [OF cov, of st] r by (auto simp: store_book.look_def)
  moreover have "GrantStore_Lookup redact (grant_tool g) q file' = Inr (Some (reread redact r))"
    using Lookup_written [OF put_grant_stable [OF st(2) g v] v, of redact q "file"] r f by simp
  ultimately show ?thesis by (auto simp: reread_def)
qed

text \<open>Revoking removes everything a tool was granted, and only that.\<close>

lemma bucket_reread_Nil: "bucket_of (Grants (reread_state redact st)) t = List.map (reread redact) (bucket_of (Grants st) t)"
  by (simp add: reread_state_def bucket_of_map)

lemma Revoke_effect:
  assumes rv: "GrantStore_Revoke redact None t file = (Inr n, file')"
    and st: "readState redact file = Inr st" "stable_state st"
  shows "\<exists>st'. readState redact file' = Inr st' \<and> bucket_of (Grants st') (trim_space t) = [] \<and>
    bucket_of (CommandPrefixes st') (trim_space t) = [] \<and>
    n = length (bucket_of (Grants st) (trim_space t)) + length (bucket_of (CommandPrefixes st) (trim_space t))"
proof (cases "bucket_of (Grants st) (trim_space t) = [] \<and> bucket_of (CommandPrefixes st) (trim_space t) = []")
  case True
  then show ?thesis using rv st(1) by (auto simp: GrantStore_Revoke_def Let_def split: option.splits)
next
  case False
  let ?st = "\<lparr>Grants = AList.delete (trim_space t) (Grants st),
    CommandPrefixes = AList.delete (trim_space t) (CommandPrefixes st)\<rparr>"
  have f: "file' = snd (writeState None ?st file)"
    "n = length (bucket_of (Grants st) (trim_space t)) + length (bucket_of (CommandPrefixes st) (trim_space t))"
    using rv st(1) False
    by (auto simp: GrantStore_Revoke_def Let_def write_result_def writeState_def split: option.splits)
  have "stable_state ?st" using st(2) by (simp add: stable_state_def stable_buckets_delete)
  then have "readState redact file' = Inr (reread_state redact ?st)"
    using readState_writeState f(1) by simp
  then show ?thesis using f(2) by (simp add: reread_state_def bucket_of_map bucket_of_delete)
qed

text \<open>A failed operation leaves the file alone.\<close>

lemma write_result_error: "write_result io st file v = (Inl e, file') \<Longrightarrow> file' = file"
  by (auto simp: write_result_def writeState_def split: option.splits prod.splits)

lemma store_error_keeps_file:
  "GrantStore_Grant redact now io input file = (Inl e, file') \<Longrightarrow> file' = file"
  "GrantStore_GrantCommandPrefix redact now io cpi file = (Inl e, file') \<Longrightarrow> file' = file"
  "GrantStore_Revoke redact io t file = (Inl e, file') \<Longrightarrow> file' = file"
  "GrantStore_RevokePath redact os io t p file = (Inl e, file') \<Longrightarrow> file' = file"
  "GrantStore_Clear redact io file = (Inl e, file') \<Longrightarrow> file' = file"
  by (auto simp: GrantStore_Grant_def GrantStore_GrantCommandPrefix_def GrantStore_Revoke_def
      GrantStore_RevokePath_def GrantStore_Clear_def Let_def
      split: sum.splits option.splits if_splits dest: write_result_error)

text \<open>
  Reading a host scope back can change it: normalising a bracketed non-address leaves a text
  that the next normalisation cuts at its colon.
\<close>

lemma normalizeHostScope_not_idempotent:
  "normalizeHostScope ''[a:1]'' = ''a:1''" "normalizeHostScope ''a:1'' = ''a''"
  by code_simp+

end
