(* ===== verification/Path_Lists.thy ===== *)
theory Path_Lists
  imports Path_Guard
begin

text \<open>
  The fine-grained read and write lists of a policy: \<open>internal/sandbox/pathlists.go\<close>.  Every
  entry is resolved through the file system before it is compared, a denied path wins over
  everything, a nested \<open>AllowRead\<close> entry re-includes a subtree, and \<open>AllowWrite\<close> only adds roots
  to the guard of \<open>Path_Guard\<close>.
\<close>

section \<open>Resolved lists\<close>

definition resolvePolicyPath :: "os \<Rightarrow> string \<Rightarrow> string option" where
  "resolvePolicyPath os entry =
     (let trimmed = trim_space entry
      in if trimmed = [] then None
         else (case expand_home os trimmed of
                 None \<Rightarrow> None
               | Some trimmed \<Rightarrow>
                   (case eval_symlinks os (abs_of os trimmed) of
                      Inl _ \<Rightarrow> None
                    | Inr resolved \<Rightarrow> Some resolved)))"

definition resolvePolicyPaths :: "os \<Rightarrow> string list \<Rightarrow> string list" where
  "resolvePolicyPaths os entries = dedupe_from [] (List.map_filter (resolvePolicyPath os) entries)"

definition resolveWriteRootPaths :: "os \<Rightarrow> string list \<Rightarrow> string list" where
  "resolveWriteRootPaths os entries =
     filter (\<lambda>path. stat_is_dir os path = Inr True \<and> dir_of path \<noteq> path) (resolvePolicyPaths os entries)"

definition pathUnderPolicyRoot :: "os \<Rightarrow> string \<Rightarrow> string \<Rightarrow> string \<Rightarrow> bool" where
  "pathUnderPolicyRoot os requestedPath root workspace =
     (if root = [] then False
      else if \<not> is_abs requestedPath then
        (if workspace = [] then False
         else path_within_root root (NormalizePrefixForRoot os (join_path [workspace, requestedPath]) root))
      else path_within_root root (NormalizePrefixForRoot os requestedPath root))"

section \<open>Reads\<close>

definition readDeniedResolved :: "os \<Rightarrow> string \<Rightarrow> string list \<Rightarrow> string list \<Rightarrow> string \<Rightarrow> bool" where
  "readDeniedResolved os workspace denyRoots allowRoots path =
     list_ex (\<lambda>deny. pathUnderPolicyRoot os path deny workspace \<and>
        \<not> list_ex (\<lambda>allow. path_within_root deny allow \<and> pathUnderPolicyRoot os path allow workspace)
            allowRoots) denyRoots"

definition readDenied :: "os \<Rightarrow> Policy \<Rightarrow> string \<Rightarrow> string \<Rightarrow> bool" where
  "readDenied os policy workspace path =
     readDeniedResolved os workspace (resolvePolicyPaths os (DenyRead policy))
       (resolvePolicyPaths os (AllowRead policy)) path"

text \<open>The exclusions a search walk resolves once; a nil pointer is \<open>None\<close>.\<close>

record ReadExclusions =
  rx_workspaceRoot :: string
  rx_denyRoots :: "string list"
  rx_allowRoots :: "string list"

definition ReadExclusions_Active :: "ReadExclusions option \<Rightarrow> bool" where
  "ReadExclusions_Active rx = (case rx of None \<Rightarrow> False | Some r \<Rightarrow> 0 < length (rx_denyRoots r))"

definition ReadExclusions_PathExcluded :: "os \<Rightarrow> ReadExclusions option \<Rightarrow> string \<Rightarrow> bool" where
  "ReadExclusions_PathExcluded os rx path =
     (case rx of
        None \<Rightarrow> False
      | Some r \<Rightarrow> ReadExclusions_Active rx \<and>
          readDeniedResolved os (rx_workspaceRoot r) (rx_denyRoots r) (rx_allowRoots r) path)"

definition hasNestedAllowReadResolved :: "string list \<Rightarrow> string \<Rightarrow> bool" where
  "hasNestedAllowReadResolved allowRoots dir =
     list_ex (\<lambda>allow. allow \<noteq> dir \<and> path_within_root dir allow) allowRoots"

definition ReadExclusions_DirExcluded :: "os \<Rightarrow> ReadExclusions option \<Rightarrow> string \<Rightarrow> bool" where
  "ReadExclusions_DirExcluded os rx path =
     (case rx of
        None \<Rightarrow> False
      | Some r \<Rightarrow>
          if \<not> ReadExclusions_Active rx then False
          else if \<not> readDeniedResolved os (rx_workspaceRoot r) (rx_denyRoots r) (rx_allowRoots r) path
          then False
          else (let abs = (if \<not> is_abs path \<and> rx_workspaceRoot r \<noteq> []
                           then join_path [rx_workspaceRoot r, path] else path);
                    abs = (case eval_symlinks os (if is_abs abs then abs else abs_of os abs) of
                             Inr resolved \<Rightarrow> resolved | Inl _ \<Rightarrow> abs)
                in \<not> hasNestedAllowReadResolved (rx_allowRoots r) abs))"

section \<open>Writes\<close>

definition allowWriteScope :: "os \<Rightarrow> Policy \<Rightarrow> SandboxScope option" where
  "allowWriteScope os policy =
     (case resolveWriteRootPaths os (AllowWrite policy) of
        [] \<Rightarrow> None
      | root # roots \<Rightarrow> Some \<lparr>workspaceRoot = root, readRoots = [], extraRoots = roots\<rparr>)"

definition denied_block :: "string \<Rightarrow> string \<Rightarrow> pathBlock" where
  "denied_block p reason = \<lparr>pb_code = BlockDenied, pb_path = p, pb_reason = reason\<rparr>"

definition validateWritePath :: "os \<Rightarrow> SandboxScope \<Rightarrow> Policy \<Rightarrow> bool \<Rightarrow> string \<Rightarrow> string \<Rightarrow> pathBlock option" where
  "validateWritePath os s policy enforceWorkspace workspace path =
     (if list_ex (\<lambda>deny. pathUnderPolicyRoot os path deny workspace)
           (resolvePolicyPaths os (DenyWrite policy))
      then Some (denied_block path (path @ '' is excluded by the sandbox DenyWrite policy''))
      else if \<not> enforceWorkspace then None
      else (case Scope_validate os s path of
              None \<Rightarrow> None
            | Some base \<Rightarrow>
                if is_abs path \<and>
                   (case allowWriteScope os policy of
                      None \<Rightarrow> False
                    | Some allow \<Rightarrow> Scope_validate os allow path = None)
                then None else Some base))"

definition policyHasPathLists :: "os \<Rightarrow> Policy \<Rightarrow> bool" where
  "policyHasPathLists os policy \<longleftrightarrow>
     0 < length (resolvePolicyPaths os (DenyRead policy)) \<or>
     0 < length (resolvePolicyPaths os (AllowRead policy)) \<or>
     0 < length (resolvePolicyPaths os (DenyWrite policy)) \<or>
     0 < length (resolveWriteRootPaths os (AllowWrite policy))"

definition validatePathWithPolicy ::
    "os \<Rightarrow> SandboxScope \<Rightarrow> Policy \<Rightarrow> SideEffect \<Rightarrow> bool \<Rightarrow> string \<Rightarrow> string \<Rightarrow> pathBlock option" where
  "validatePathWithPolicy os s policy sideEffect enforceWorkspace workspace path =
     (if workspace = [] \<and> \<not> is_abs path then
        (if enforceWorkspace \<or> policyHasPathLists os policy
         then Some (outside_block path (path @ '' cannot be validated without a workspace root''))
         else None)
      else (case sideEffect of
              SideEffectRead \<Rightarrow>
                if readDenied os policy workspace path
                then Some (denied_block path (path @ '' is excluded by the sandbox DenyRead policy''))
                else if enforceWorkspace then Scope_validateRead os s path else None
            | SideEffectWrite \<Rightarrow> validateWritePath os s policy enforceWorkspace workspace path
            | SideEffectOutOfWorkspace \<Rightarrow> validateWritePath os s policy enforceWorkspace workspace path
            | _ \<Rightarrow> if enforceWorkspace then Scope_validate os s path else None))"

section \<open>The exclusion globs of a search\<close>

definition workspaceRelGlob :: "string \<Rightarrow> string \<Rightarrow> string option" where
  "workspaceRelGlob workspace target =
     (case rel workspace target of
        None \<Rightarrow> None
      | Some r \<Rightarrow> if r = ''.'' \<or> r = ''..'' \<or> has_prefix r ''../'' \<or> is_abs r then None else Some r)"

definition ReadExclusionGlobs :: "os \<Rightarrow> Policy \<Rightarrow> SandboxScope option \<Rightarrow> string list" where
  "ReadExclusionGlobs os policy s =
     (case s of
        None \<Rightarrow> []
      | Some s \<Rightarrow>
          if resolvePolicyPaths os (DenyRead policy) = [] \<or> workspaceRoot s = [] then []
          else List.concat (List.map (\<lambda>deny.
                 case workspaceRelGlob (workspaceRoot s) deny of
                   None \<Rightarrow> []
                 | Some r \<Rightarrow> [''--glob'', CHR ''!'' # r, ''--glob'', CHR ''!'' # r @ ''/**''])
               (resolvePolicyPaths os (DenyRead policy))))"

section \<open>Denied paths are recognised through symbolic links\<close>

lemma normalize_prefix_loop_inside:
  assumes wf: "wf_fs (files os)" and R: "list_all good_comp R"
  shows "real_path (files os) C \<Longrightarrow> list_all good_comp parts \<Longrightarrow> n \<le> go_links \<Longrightarrow>
    walk (files os) n [] (C @ parts) = Inr d \<Longrightarrow> has_prefix d R \<Longrightarrow>
    \<exists>D. normalize_prefix_loop os (path_of R) (path_of C) parts = path_of D \<and> list_all good_comp D
      \<and> has_prefix D R"
proof (induction parts arbitrary: C n)
  case Nil
  then show ?case using walk_real_path [of "files os" C n] real_path_good by auto
next
  case (Cons c parts)
  let ?p = "path_of (C @ [c])"
  have goodC: "list_all good_comp C" using Cons.prems(1) by (rule real_path_good)
  have c: "c \<noteq> []" "good_comp c" "list_all good_comp (C @ [c])" "list_all good_comp parts"
    "list_all good_comp (C @ c # parts)"
    using Cons.prems goodC by (simp_all add: good_comp_def [of c])
  have stop: "join_path (path_of C # c # parts) = path_of (C @ c # parts)"
    using Cons.prems goodC by (intro join_path_list) auto
  have inside: ?case if "has_prefix C R"
    "normalize_prefix_loop os (path_of R) (path_of C) (c # parts) = path_of (C @ c # parts)"
  proof -
    have "has_prefix (C @ c # parts) R" using that(1) by (auto simp: has_prefix_iff)
    then show ?thesis using that(2) c(5) by blast
  qed
  have cur: "join_path [path_of C, c] = ?p" using goodC c by (simp add: join_path_comp)
  obtain v k where v: "walk (files os) n [] (C @ [c]) = Inr v" "walk (files os) k v parts = Inr d" "k \<le> n"
    using walk_append [of "files os" n "[]" "C @ [c]" parts d] Cons.prems(4) by auto
  have "walk (files os) go_links [] (C @ [c]) = Inr v"
    using walk_more_links [OF v(1) _ Cons.prems(3)] by simp
  then have ev: "eval_symlinks os ?p = Inr (path_of v)" using c(3) by (simp add: eval_symlinks_Inr)
  have rv: "real_path (files os) v"
    using walk_comps_real [of "files os" n ?p v] v(1) c(3) by simp
  have wv: "walk (files os) k [] (v @ parts) = Inr d"
    using walk_from_real [OF wf rv c(4) v(2)] .
  have resolved: ?case if "normalize_prefix_loop os (path_of R) (path_of C) (c # parts)
      = normalize_prefix_loop os (path_of R) (path_of v) parts"
    using Cons.IH [OF rv c(4) _ wv Cons.prems(5)] v(3) Cons.prems(3) that by simp
  show ?case
  proof (cases "path_of C = path_of R")
    case True
    then have "C = R" using path_of_inject [OF goodC R] by simp
    then show ?thesis using inside True stop c(1) by (simp add: has_prefix_iff)
  next
    case nroot: False
    obtain u m where s: "walk (files os) n [] C = Inr u" "walk (files os) m u [c] = Inr v"
      using walk_append [OF v(1)] by blast
    have "u = C" using s(1) walk_real_path [OF Cons.prems(1)] by simp
    with s(2) have s: "walk (files os) m C [c] = Inr v" by simp
    then obtain nd where nd: "files os (C @ [c]) = Some nd"
      using c(2) by (auto simp: walk.simps(2) good_comp_def split: option.splits)
    have "real_dir (files os) C" using walk_step_dir [OF wf Cons.prems(1) c(2) s] .
    then have "node_at (files os) C = Some Directory" by (rule node_at_real_dir)
    then have l: "lstat os ?p = Inr nd"
      using lstat_path_of [OF goodC c(2)] walk_real_path [OF Cons.prems(1)] nd by simp
    have "path_within_root (path_of R) (path_of C) \<longleftrightarrow> has_prefix C R"
      using path_within_root_iff [of "path_of R" "path_of C"] R goodC by simp
    then show ?thesis
      using inside resolved nroot stop c(1) cur l ev by (cases nd) (auto split: if_splits)
  qed
qed

definition policy_target :: "string \<Rightarrow> string \<Rightarrow> string" where
  "policy_target workspace p = (if is_abs p then p else join_path [workspace, p])"

text \<open>A path the kernel resolves into a resolved root is recognised as lying under it.\<close>

lemma pathUnderPolicyRoot_complete:
  assumes wf: "wf_fs (files os)" and ws: "is_abs workspace"
    and R: "list_all good_comp R"
    and w: "walk (files os) kernel_links [] (comps (policy_target workspace p)) = Inr d"
    and d: "has_prefix d R"
  shows "pathUnderPolicyRoot os p (path_of R) workspace"
proof -
  let ?t = "policy_target workspace p"
  have abs: "is_abs ?t" using ws by (auto simp: policy_target_def join_path_is_abs)
  have "workspace \<noteq> []" using ws by (auto simp: is_abs_def)
  then have eq: "pathUnderPolicyRoot os p (path_of R) workspace
      = path_within_root (path_of R) (NormalizePrefixForRoot os ?t (path_of R))"
    by (simp add: pathUnderPolicyRoot_def policy_target_def path_of_def)
  have "\<exists>D. NormalizePrefixForRoot os ?t (path_of R) = path_of D \<and> list_all good_comp D \<and> has_prefix D R"
  proof (cases "comps ?t = []")
    case True
    then have "d = []" using w by simp
    then have "R = []" using d by (simp add: has_prefix_iff)
    then show ?thesis
      using True abs by (simp add: NormalizePrefixForRoot_def root_parts path_of_def exI [of _ "[]"])
  next
    case False
    have "real_path (files os) []" by (simp add: real_path_def)
    then obtain D where "normalize_prefix_loop os (path_of R) (path_of []) (comps ?t) = path_of D"
      "list_all good_comp D" "has_prefix D R"
      using normalize_prefix_loop_inside [OF wf R, of "[]" "comps ?t" kernel_links d] w d
      by (auto simp: kernel_links_def go_links_def)
    then show ?thesis
      using False abs by (auto simp: NormalizePrefixForRoot_def root_parts path_of_def [of "[]"])
  qed
  then show ?thesis using eq R by (auto simp: path_within_root_iff)
qed

text \<open>Conversely, what is recognised as lying under a resolved root without links in it does lie there.\<close>

lemma pathUnderPolicyRoot_sound:
  assumes wf: "wf_fs (files os)" and ws: "is_abs workspace"
    and R: "list_all good_comp R" "\<forall>s t. files os (R @ s) \<noteq> Some (Link t)"
    and under: "pathUnderPolicyRoot os p (path_of R) workspace"
    and c: "create_walk (files os) n [] (comps (policy_target workspace p)) = Inr d"
    and real: "real_path (files os) R"
  shows "has_prefix d R"
proof -
  let ?t = "policy_target workspace p"
  have abs: "is_abs ?t" using ws by (auto simp: policy_target_def join_path_is_abs)
  obtain m D where D: "NormalizePrefixForRoot os ?t (path_of R) = path_of D" "list_all good_comp D"
    "create_walk (files os) m [] D = Inr d"
    using NormalizePrefixForRoot_resolves [OF wf abs c] by blast
  have "workspace \<noteq> []" using ws by (auto simp: is_abs_def)
  then have "path_within_root (path_of R) (path_of D)"
    using under D(1) by (simp add: pathUnderPolicyRoot_def policy_target_def split: if_splits)
  then obtain E where E: "D = R @ E" using R(1) D(2) by (auto simp: path_within_root_iff has_prefix_iff)
  have "walk (files os) 0 [] R = Inr R" using real by (rule walk_real_path)
  then obtain k where "create_walk (files os) k R E = Inr d"
    using create_walk_via D(3) E by blast
  then show ?thesis using create_walk_below [OF R(2), of E k "[]" d] D(2) E by simp
qed

lemma dedupe_from_set: "set (dedupe_from seen xs) = set xs - set seen"
  by (induction seen xs rule: dedupe_from.induct) auto

lemma dedupe_from_distinct: "distinct (dedupe_from seen xs)"
  by (induction seen xs rule: dedupe_from.induct) (auto simp: dedupe_from_set)

lemma map_filter_set: "y \<in> set (List.map_filter f xs) \<longleftrightarrow> (\<exists>x \<in> set xs. f x = Some y)"
  by (force simp: List.map_filter_def)

lemma resolvePolicyPaths_iff:
  "r \<in> set (resolvePolicyPaths os entries) \<longleftrightarrow> (\<exists>e \<in> set entries. resolvePolicyPath os e = Some r)"
  by (simp add: resolvePolicyPaths_def dedupe_from_set map_filter_set)

lemma resolvePolicyPath_real:
  assumes "resolvePolicyPath os e = Some r"
  obtains R where "r = path_of R" "real_path (files os) R" "list_all good_comp R"
    "eval_symlinks os r = Inr r"
proof -
  obtain q where q: "eval_symlinks os q = Inr r"
    using assms by (auto simp: resolvePolicyPath_def Let_def split: if_splits option.splits sum.splits)
  then show thesis using that eval_symlinks_real [OF q] eval_symlinks_idem [OF q] real_path_good by blast
qed

text \<open>
  An \<open>AllowRead\<close> entry inside the denied directory re-includes what lies under it, and, as long as
  no link leads out of it, nothing else.
\<close>

lemma readDenied_complete:
  assumes wf: "wf_fs (files os)" and ws: "is_abs workspace"
    and entry: "entry \<in> set (DenyRead policy)" "resolvePolicyPath os entry = Some deny"
    and w: "walk (files os) kernel_links [] (comps (policy_target workspace p)) = Inr d"
    and inside: "has_prefix d (comps deny)"
    and allow: "\<forall>r \<in> set (resolvePolicyPaths os (AllowRead policy)). path_within_root deny r \<longrightarrow>
        \<not> has_prefix d (comps r) \<and> (\<forall>s t. files os (comps r @ s) \<noteq> Some (Link t))"
  shows "readDenied os policy workspace p"
proof -
  obtain R where R: "deny = path_of R" "list_all good_comp R" by (rule resolvePolicyPath_real [OF entry(2)])
  have "pathUnderPolicyRoot os p deny workspace"
    using pathUnderPolicyRoot_complete [OF wf ws R(2) w] inside R by simp
  moreover have "deny \<in> set (resolvePolicyPaths os (DenyRead policy))"
    using entry resolvePolicyPaths_iff by blast
  moreover have "\<not> pathUnderPolicyRoot os p r workspace"
    if r: "r \<in> set (resolvePolicyPaths os (AllowRead policy))" "path_within_root deny r" for r
  proof
    assume under: "pathUnderPolicyRoot os p r workspace"
    obtain e where "resolvePolicyPath os e = Some r" using r(1) resolvePolicyPaths_iff by blast
    then obtain A where A: "r = path_of A" "real_path (files os) A" "list_all good_comp A"
      by (rule resolvePolicyPath_real)
    then have a: "\<not> has_prefix d A" "\<forall>s t. files os (A @ s) \<noteq> Some (Link t)"
      using allow r by (auto simp: comps_path_of)
    then show False
      using pathUnderPolicyRoot_sound [OF wf ws A(3) a(2) _ walk_creates [OF w] A(2)] under A(1) by simp
  qed
  ultimately show ?thesis
    unfolding readDenied_def readDeniedResolved_def list_ex_iff by blast
qed

lemma validateWritePath_denied:
  assumes "wf_fs (files os)" "is_abs workspace"
    "entry \<in> set (DenyWrite policy)" "resolvePolicyPath os entry = Some deny"
    "walk (files os) kernel_links [] (comps (policy_target workspace p)) = Inr d"
    "has_prefix d (comps deny)"
  shows "validateWritePath os s policy enforce workspace p =
    Some (denied_block p (p @ '' is excluded by the sandbox DenyWrite policy''))"
proof -
  obtain R where R: "deny = path_of R" "list_all good_comp R" by (rule resolvePolicyPath_real [OF assms(4)])
  have "pathUnderPolicyRoot os p deny workspace"
    using pathUnderPolicyRoot_complete [OF assms(1,2) R(2) assms(5)] assms(6) R by simp
  then have "list_ex (\<lambda>deny. pathUnderPolicyRoot os p deny workspace) (resolvePolicyPaths os (DenyWrite policy))"
    using assms(3,4) resolvePolicyPaths_iff unfolding list_ex_iff by blast
  then show ?thesis by (simp add: validateWritePath_def)
qed

text \<open>An accepted write ends, creating what is missing, inside a root of the scope or of \<open>AllowWrite\<close>.\<close>

definition write_roots :: "os \<Rightarrow> SandboxScope \<Rightarrow> Policy \<Rightarrow> string list" where
  "write_roots os s policy = Scope_Roots s @ resolveWriteRootPaths os (AllowWrite policy)"

lemma Scope_validate_sound:
  assumes "wf_fs (files os)" "Scope_validate os s p = None"
    "create_walk (files os) n [] (comps (open_target os s p)) = Inr d"
  shows "\<exists>root \<in> set (Scope_Roots s). located_in os root d"
  using validateAgainstRoots_sound [OF assms(1) _ _ _ assms(3), of "Scope_Roots s"] assms(2)
  by (simp add: Scope_validate_def Scope_Roots_def)

lemma validateWritePath_sound:
  assumes wf: "wf_fs (files os)" and ok: "validateWritePath os s policy True workspace p = None"
    and w: "create_walk (files os) n [] (comps (open_target os s p)) = Inr d"
  shows "\<exists>root \<in> set (write_roots os s policy). located_in os root d"
proof (cases "Scope_validate os s p")
  case None
  then show ?thesis using Scope_validate_sound [OF wf _ w] by (auto simp: write_roots_def)
next
  case (Some b)
  then obtain allow where a: "is_abs p" "allowWriteScope os policy = Some allow" "Scope_validate os allow p = None"
    using ok by (auto simp: validateWritePath_def split: if_splits option.splits)
  then have "create_walk (files os) n [] (comps (open_target os allow p)) = Inr d"
    using w by (simp add: open_target_def)
  then obtain root where "root \<in> set (Scope_Roots allow)" "located_in os root d"
    using Scope_validate_sound [OF wf a(3)] by blast
  moreover have "Scope_Roots allow = resolveWriteRootPaths os (AllowWrite policy)"
    using a(2) by (auto simp: allowWriteScope_def Scope_Roots_def split: list.splits)
  ultimately show ?thesis by (auto simp: write_roots_def)
qed

end
