(* ===== verification/Profile.thy ===== *)
theory Profile
  imports Path_Lists
begin

text \<open>
  The permission profile a policy hands to the platform sandbox: \<open>internal/sandbox/profile.go\<close>
  on a POSIX host.  The main lemma says that the operating-system profile grants writes to
  exactly the roots the in-process guard accepts.
\<close>

datatype FileSystemPolicyKind = FileSystemRestricted | FileSystemUnrestricted | FileSystemExternal

record WritableRoot =
  Root :: string
  ReadOnlySubpaths :: "string list"
  ProtectedMetadataNames :: "string list"

record FileSystemPolicy =
  fsp_kind :: FileSystemPolicyKind
  fsp_readRoots :: "string list"
  fsp_writeRoots :: "WritableRoot list"
  fsp_denyRead :: "string list"
  fsp_denyWrite :: "string list"
  IncludePlatformRoots :: bool
  AllowTemp :: bool

record PermissionProfile =
  FileSystem :: FileSystemPolicy
  profile_network :: NetworkMode

definition protectedMetadataNames :: "string list" where
  "protectedMetadataNames = [''.git'', ''.kajicode'', ''.agents'']"

definition sandboxFullyProtectedMetadataNames :: "string list" where
  "sandboxFullyProtectedMetadataNames = [''.kajicode'', ''.agents'']"

definition gitMetadataWriteCarveouts :: "string \<Rightarrow> string list" where
  "gitMetadataWriteCarveouts root =
     [join_path [root, ''.git'', ''hooks''], join_path [root, ''.git'', ''config'']]"

definition normalizeProfilePath :: "os \<Rightarrow> string \<Rightarrow> string" where
  "normalizeProfilePath os entry =
     (let trimmed = trim_space entry
      in if trimmed = [] then []
         else (case expand_home os trimmed of
                 None \<Rightarrow> []
               | Some trimmed \<Rightarrow>
                   (case eval_symlinks os (abs_of os trimmed) of
                      Inr resolved \<Rightarrow> resolved
                    | Inl _ \<Rightarrow> clean (abs_of os trimmed))))"

definition normalizeProfilePaths :: "os \<Rightarrow> string list \<Rightarrow> string list" where
  "normalizeProfilePaths os entries =
     dedupe_from [] (filter (\<lambda>p. p \<noteq> []) (List.map (normalizeProfilePath os) entries))"

definition normalizeProfileDirs :: "os \<Rightarrow> string list \<Rightarrow> string list" where
  "normalizeProfileDirs os entries =
     filter (\<lambda>path. stat_is_dir os path = Inr True \<and> dir_of path \<noteq> path) (normalizeProfilePaths os entries)"

definition defaultTempWriteRoots :: "os \<Rightarrow> string list" where
  "defaultTempWriteRoots os = normalizeProfileDirs os (defaultTempWriteRootCandidates os)"

definition profileRootPath :: string where
  "profileRootPath = clean ''/''"

definition permissionProfileRoots :: "os \<Rightarrow> string \<Rightarrow> SandboxScope option \<Rightarrow> string list" where
  "permissionProfileRoots os workspace s =
     (case s of
        Some s \<Rightarrow> Scope_Roots s
      | None \<Rightarrow> dedupeStrings
          ((let root = normalizeProfilePath os workspace in if root \<noteq> [] then [root] else [])
           @ defaultTempWriteRoots os))"

definition permissionProfileReadRoots ::
    "os \<Rightarrow> string \<Rightarrow> Policy \<Rightarrow> SandboxScope option \<Rightarrow> string list \<Rightarrow> string list" where
  "permissionProfileReadRoots os workspace policy s writeRoots =
     (let readRoots = profileRootPath # writeRoots;
          root = normalizeProfilePath os workspace;
          readRoots = (case s of
             Some s \<Rightarrow> dedupeStrings (readRoots @ Scope_ReadRoots s)
           | None \<Rightarrow> if root \<noteq> [] then dedupeStrings (readRoots @ [root]) else readRoots);
          extra = normalizeProfileDirs os (AllowRead policy);
          readRoots = (if extra \<noteq> [] then dedupeStrings (readRoots @ extra) else readRoots)
      in dedupeStrings readRoots)"

text \<open>Whether \<open>os.Stat\<close> succeeds.\<close>

definition exists_path :: "os \<Rightarrow> string \<Rightarrow> bool" where
  "exists_path os p = (case stat_is_dir os p of Inl _ \<Rightarrow> False | Inr _ \<Rightarrow> True)"

definition credentialDenyReadPathsIn :: "os \<Rightarrow> string \<Rightarrow> string \<Rightarrow> string list \<Rightarrow> string list" where
  "credentialDenyReadPathsIn os homeDir googleCredentials allowRead =
     (let homeDir = trim_space homeDir;
          target = trim_space googleCredentials;
          candidates = (if homeDir \<noteq> [] then [join_path [homeDir, ''.aws''],
              join_path [homeDir, ''.config'', ''gcloud''], join_path [homeDir, ''.azure'']] else [])
            @ (if target \<noteq> [] then [target] else []);
          allowRoots = normalizeProfilePaths os allowRead
      in filter (\<lambda>path. exists_path os path \<and> \<not> list_ex (\<lambda>allow. path_within_root allow path) allowRoots)
           (normalizeProfilePaths os candidates))"

definition credentialDenyReadPaths :: "os \<Rightarrow> Policy \<Rightarrow> string list" where
  "credentialDenyReadPaths os policy =
     credentialDenyReadPathsIn os (case home os of Some h \<Rightarrow> h | None \<Rightarrow> [])
       (env os ''GOOGLE_APPLICATION_CREDENTIALS'') (AllowRead policy)"

definition PermissionProfileFromPolicy :: "os \<Rightarrow> string \<Rightarrow> Policy \<Rightarrow> SandboxScope option \<Rightarrow> PermissionProfile" where
  "PermissionProfileFromPolicy os workspace policy s =
     (let policy = (if pol_mode policy = ModeUnset then DefaultPolicy else policy)
      in if pol_mode policy = ModeDisabled then
           \<lparr>FileSystem = \<lparr>fsp_kind = FileSystemUnrestricted, fsp_readRoots = [], fsp_writeRoots = [],
                fsp_denyRead = [], fsp_denyWrite = [], IncludePlatformRoots = True, AllowTemp = True\<rparr>,
            profile_network = NetworkAllow\<rparr>
         else
           (let roots = permissionProfileRoots os workspace s;
                extra = normalizeProfileDirs os (AllowWrite policy);
                roots = (if extra \<noteq> [] then dedupeStrings (roots @ extra) else roots)
            in \<lparr>FileSystem = \<lparr>fsp_kind = FileSystemRestricted,
                  fsp_readRoots = permissionProfileReadRoots os workspace policy s roots,
                  fsp_writeRoots = List.map (\<lambda>root. \<lparr>Root = root,
                      ReadOnlySubpaths = gitMetadataWriteCarveouts root,
                      ProtectedMetadataNames = sandboxFullyProtectedMetadataNames\<rparr>) roots,
                  fsp_denyRead = dedupeStrings (normalizeProfilePaths os (DenyRead policy)
                      @ credentialDenyReadPaths os policy),
                  fsp_denyWrite = normalizeProfilePaths os (DenyWrite policy),
                  IncludePlatformRoots = True, AllowTemp = True\<rparr>,
                profile_network = NormalizeNetworkMode (pol_network policy)\<rparr>))"

definition DefaultPermissionProfile :: "os \<Rightarrow> string \<Rightarrow> PermissionProfile" where
  "DefaultPermissionProfile os workspace = PermissionProfileFromPolicy os workspace DefaultPolicy None"

definition RequiresPlatformSandbox :: "PermissionProfile \<Rightarrow> bool" where
  "RequiresPlatformSandbox profile \<longleftrightarrow>
     (if fsp_kind (FileSystem profile) = FileSystemRestricted then True
      else profile_network profile = NetworkDeny)"

section \<open>The platform profile and the in-process guard agree\<close>

lemma filter_dedupe_from: "filter P (dedupe_from seen xs) = dedupe_from seen (filter P xs)"
proof -
  have ext: "dedupe_from a ys = dedupe_from b ys" if "\<forall>y \<in> set ys. y \<in> set a \<longleftrightarrow> y \<in> set b" for a b ys
    using that by (induction ys arbitrary: a b) auto
  show ?thesis
  proof (induction seen xs rule: dedupe_from.induct)
    case (2 seen x xs)
    have "dedupe_from (x # seen) (filter P xs) = dedupe_from seen (filter P xs)" if "\<not> P x"
      using that by (intro ext) auto
    with 2 show ?case by auto
  qed simp
qed

lemma profile_path_resolved:
  assumes "stat_is_dir os (normalizeProfilePath os e) = Inr True" "is_abs (cwd os)"
  shows "normalizeProfilePath os e = [] \<or> resolvePolicyPath os e = Some (normalizeProfilePath os e)"
proof (rule disjCI)
  assume n: "resolvePolicyPath os e \<noteq> Some (normalizeProfilePath os e)"
  show "normalizeProfilePath os e = []"
  proof (rule ccontr)
    assume ne: "normalizeProfilePath os e \<noteq> []"
    then obtain t err where t: "trim_space e \<noteq> []" "expand_home os (trim_space e) = Some t"
      "eval_symlinks os (abs_of os t) = Inl err" "normalizeProfilePath os e = clean (abs_of os t)"
      using n by (auto simp: normalizeProfilePath_def resolvePolicyPath_def Let_def
          split: if_splits option.splits sum.splits)
    obtain d where "walk (files os) kernel_links [] (comps (clean (abs_of os t))) = Inr d"
      using assms t(4) by (auto simp: stat_is_dir_def map_sum_def split: sum.splits)
    moreover have "comps (clean (abs_of os t)) = comps (abs_of os t)"
      using assms(2) by (intro comps_clean) (simp add: abs_of_def abs_path_is_abs)
    ultimately have w: "walk (files os) kernel_links [] (comps (abs_of os t)) = Inr d" by simp
    have "walk (files os) go_links [] (comps (abs_of os t)) = Inr d"
      by (rule walk_more_links [OF w]) (simp_all add: kernel_links_def go_links_def)
    then show False using t(3) by (simp add: eval_symlinks_def)
  qed
qed

lemma policy_path_normalized:
  "resolvePolicyPath os e = Some r \<Longrightarrow> normalizeProfilePath os e = r \<and> r \<noteq> []"
  by (auto simp: normalizeProfilePath_def resolvePolicyPath_def Let_def is_abs_def
      split: if_splits option.splits sum.splits dest: eval_symlinks_abs)

theorem profile_dirs_are_write_roots:
  assumes "is_abs (cwd os)"
  shows "normalizeProfileDirs os entries = resolveWriteRootPaths os entries"
proof -
  let ?D = "\<lambda>path. stat_is_dir os path = Inr True \<and> dir_of path \<noteq> path"
  have "filter ?D (filter (\<lambda>p. p \<noteq> []) (List.map (normalizeProfilePath os) entries)) =
      filter ?D (List.map_filter (resolvePolicyPath os) entries)"
  proof (induction entries)
    case Nil
    then show ?case by (simp add: List.map_filter_def)
  next
    case (Cons e es)
    show ?case
    proof (cases "resolvePolicyPath os e")
      case None
      then have "normalizeProfilePath os e = [] \<or> \<not> ?D (normalizeProfilePath os e)"
        using profile_path_resolved [OF _ assms, of e] by auto
      then show ?thesis using Cons None by (auto simp: List.map_filter_def)
    next
      case (Some r)
      then show ?thesis using Cons policy_path_normalized [OF Some] by (simp add: List.map_filter_def)
    qed
  qed
  then show ?thesis
    by (simp only: normalizeProfileDirs_def resolveWriteRootPaths_def normalizeProfilePaths_def
        resolvePolicyPaths_def filter_dedupe_from)
qed

lemma dedupeStrings_set: "set (dedupeStrings xs) = set xs"
  by (simp add: dedupeStrings_def dedupe_from_set)

lemma profile_write_roots:
  assumes "is_abs (cwd os)" "pol_mode policy = ModeEnforce"
  shows "Root ` set (fsp_writeRoots (FileSystem (PermissionProfileFromPolicy os workspace policy (Some s)))) =
    set (write_roots os s policy)"
proof -
  have "set (if xs \<noteq> [] then dedupeStrings (rs @ xs) else rs) = set rs \<union> set xs" for rs xs
    by (simp add: dedupeStrings_set)
  then show ?thesis
    using assms(2) unfolding profile_dirs_are_write_roots [OF assms(1), symmetric] write_roots_def
    by (simp add: PermissionProfileFromPolicy_def permissionProfileRoots_def Let_def image_image
        profile_dirs_are_write_roots [OF assms(1), symmetric])
qed

end
