(* ===== verification/Request_Permissions.thy ===== *)
theory Request_Permissions
  imports Grants Profile
begin

text \<open>
  Requested permission profiles: \<open>internal/sandbox/request_permissions.go\<close>.  A profile is
  normalised, reduced to directory roots, and granted for a turn (with an undo) or for the
  session; the policy in force is the configured one widened by the active profiles.
\<close>

section \<open>Profiles\<close>

record FileSystemPath =
  path_kind :: string
  path_type :: string
  path_path :: string
  path_pattern :: string

datatype FileSystemAccessMode = FileSystemAccessRead | FileSystemAccessWrite | FileSystemAccessDeny

record FileSystemSandboxEntry =
  entry_path :: FileSystemPath
  entry_access :: string

record FileSystemPermissions =
  fs_read :: "string list"
  fs_write :: "string list"
  fs_denyRead :: "string list"
  fs_globScanMaxDepth :: "int option"
  fs_entries :: "FileSystemSandboxEntry list"

text \<open>A nil pointer is \<open>None\<close>; the network pointer leads to a pointer to the flag.\<close>

record RequestPermissionProfile =
  rpp_network :: "bool option option"
  rpp_fileSystem :: "FileSystemPermissions option"

definition network_enabled :: "RequestPermissionProfile \<Rightarrow> bool" where
  "network_enabled profile \<longleftrightarrow> rpp_network profile = Some (Some True)"

definition RequestPermissionProfile_Empty :: "RequestPermissionProfile \<Rightarrow> bool" where
  "RequestPermissionProfile_Empty profile \<longleftrightarrow>
     \<not> network_enabled profile \<and>
     (case rpp_fileSystem profile of
        None \<Rightarrow> True
      | Some fs \<Rightarrow> fs_read fs = [] \<and> fs_write fs = [] \<and> fs_denyRead fs = [] \<and> fs_entries fs = [])"

definition no_permissions :: FileSystemPermissions where
  "no_permissions = \<lparr>fs_read = [], fs_write = [], fs_denyRead = [], fs_globScanMaxDepth = None, fs_entries = []\<rparr>"

definition pathString :: "FileSystemPath \<Rightarrow> string option" where
  "pathString path =
     (let kind = trim_space (firstNonEmpty [path_type path, path_kind path])
      in if kind = [] \<or> kind = ''path'' then
           (let v = trim_space (path_path path) in if v \<noteq> [] then Some v else None)
         else None)"

definition normalizeFileSystemAccess :: "string \<Rightarrow> FileSystemAccessMode option" where
  "normalizeFileSystemAccess access =
     (let a = to_lower (trim_space access)
      in if a = ''read'' then Some FileSystemAccessRead
         else if a = ''write'' then Some FileSystemAccessWrite
         else if a = ''deny'' \<or> a = ''none'' then Some FileSystemAccessDeny
         else None)"

text \<open>The working directory is always known in the model, so no path fails to normalise.\<close>

definition normalizePermissionPath :: "os \<Rightarrow> string \<Rightarrow> string \<Rightarrow> string" where
  "normalizePermissionPath os path basePath =
     (let trimmed = trim_space path
      in if trimmed = [] then []
         else (let trimmed = (if is_abs trimmed then trimmed
                              else (let base = trim_space basePath
                                    in join_path [if base = [] then cwd os else base, trimmed]));
                   absolute = abs_of os trimmed
               in (case eval_symlinks os absolute of
                     Inr resolved \<Rightarrow> clean resolved
                   | Inl _ \<Rightarrow> clean absolute)))"

definition normalizePermissionPaths :: "os \<Rightarrow> string list \<Rightarrow> string \<Rightarrow> string list" where
  "normalizePermissionPaths os paths basePath =
     dedupeStrings (filter (\<lambda>p. p \<noteq> []) (List.map (\<lambda>p. normalizePermissionPath os p basePath) paths))"

fun add_entries :: "os \<Rightarrow> string \<Rightarrow> FileSystemSandboxEntry list \<Rightarrow> FileSystemPermissions \<Rightarrow> FileSystemPermissions" where
  "add_entries os basePath [] out = out"
| "add_entries os basePath (entry # entries) out =
     (case pathString (entry_path entry) of
        None \<Rightarrow> add_entries os basePath entries out
      | Some path \<Rightarrow>
          (let normalized = normalizePermissionPath os path basePath
           in add_entries os basePath entries
                (case normalizeFileSystemAccess (entry_access entry) of
                   Some FileSystemAccessRead \<Rightarrow> out\<lparr>fs_read := fs_read out @ [normalized]\<rparr>
                 | Some FileSystemAccessWrite \<Rightarrow> out\<lparr>fs_write := fs_write out @ [normalized]\<rparr>
                 | Some FileSystemAccessDeny \<Rightarrow> out\<lparr>fs_denyRead := fs_denyRead out @ [normalized]\<rparr>
                 | None \<Rightarrow> out)))"

definition normalizeFileSystemPermissions :: "os \<Rightarrow> FileSystemPermissions \<Rightarrow> string \<Rightarrow> FileSystemPermissions" where
  "normalizeFileSystemPermissions os fs basePath =
     (let out = add_entries os basePath (fs_entries fs)
          (no_permissions\<lparr>fs_read := normalizePermissionPaths os (fs_read fs) basePath,
             fs_write := normalizePermissionPaths os (fs_write fs) basePath,
             fs_denyRead := normalizePermissionPaths os (fs_denyRead fs) basePath\<rparr>)
      in out\<lparr>fs_read := dedupeStrings (fs_read out), fs_write := dedupeStrings (fs_write out),
             fs_denyRead := dedupeStrings (fs_denyRead out)\<rparr>)"

definition some_permissions :: "FileSystemPermissions \<Rightarrow> FileSystemPermissions option" where
  "some_permissions fs =
     (if fs_read fs \<noteq> [] \<or> fs_write fs \<noteq> [] \<or> fs_denyRead fs \<noteq> [] then Some fs else None)"

definition NormalizeRequestPermissionProfile ::
    "os \<Rightarrow> RequestPermissionProfile \<Rightarrow> string \<Rightarrow> RequestPermissionProfile" where
  "NormalizeRequestPermissionProfile os profile basePath =
     \<lparr>rpp_network = (if network_enabled profile then Some (Some True) else None),
      rpp_fileSystem = (case rpp_fileSystem profile of
          None \<Rightarrow> None
        | Some fs \<Rightarrow> some_permissions (normalizeFileSystemPermissions os fs basePath))\<rparr>"

definition permissionRoot :: "os \<Rightarrow> string \<Rightarrow> string" where
  "permissionRoot os path =
     (let c = clean path
      in if stat_is_dir os (abs_of os c) = Inr True then c else dir_of c)"

fun permission_roots :: "os \<Rightarrow> string list \<Rightarrow> string + string list" where
  "permission_roots os [] = Inr []"
| "permission_roots os (path # paths) =
     (if trim_space path = [] then permission_roots os paths
      else (case normalizeScopeRoot os (permissionRoot os path) of
              Inl e \<Rightarrow> Inl e
            | Inr root \<Rightarrow> map_sum id ((#) root) (permission_roots os paths)))"

definition grantPermissionRoots :: "os \<Rightarrow> string list \<Rightarrow> string + string list" where
  "grantPermissionRoots os paths = map_sum id dedupeStrings (permission_roots os paths)"

definition RequestPermissionGrantProfile ::
    "os \<Rightarrow> RequestPermissionProfile \<Rightarrow> string + RequestPermissionProfile" where
  "RequestPermissionGrantProfile os profile =
     (let network = (if network_enabled profile then Some (Some True) else None)
      in case rpp_fileSystem profile of
           None \<Rightarrow> Inr \<lparr>rpp_network = network, rpp_fileSystem = None\<rparr>
         | Some fs \<Rightarrow>
             (case grantPermissionRoots os (fs_read fs) of
                Inl e \<Rightarrow> Inl e
              | Inr rd \<Rightarrow>
                  (case grantPermissionRoots os (fs_write fs) of
                     Inl e \<Rightarrow> Inl e
                   | Inr wr \<Rightarrow>
                       Inr \<lparr>rpp_network = network,
                         rpp_fileSystem = some_permissions (no_permissions\<lparr>fs_read := rd, fs_write := wr,
                           fs_denyRead := fs_denyRead fs\<rparr>)\<rparr>)))"

definition applyRequestPermissionProfile :: "Policy \<Rightarrow> RequestPermissionProfile \<Rightarrow> Policy" where
  "applyRequestPermissionProfile policy profile =
     (let policy = (if network_enabled profile then policy\<lparr>pol_network := ''allow''\<rparr> else policy)
      in case rpp_fileSystem profile of
           None \<Rightarrow> policy
         | Some fs \<Rightarrow> policy\<lparr>AllowRead := dedupeStrings (AllowRead policy @ fs_read fs),
                              AllowWrite := dedupeStrings (AllowWrite policy @ fs_write fs),
                              DenyRead := dedupeStrings (DenyRead policy @ fs_denyRead fs)\<rparr>)"

section \<open>The set of active profiles\<close>

record permissionProfileGrantSet =
  nextID :: nat
  profiles :: "(nat \<times> RequestPermissionProfile) list"

definition newPermissionProfileGrantSet :: permissionProfileGrantSet where
  "newPermissionProfileGrantSet = \<lparr>nextID = 0, profiles = []\<rparr>"

text \<open>Adding returns the key its undo deletes.\<close>

definition profileSet_add :: "permissionProfileGrantSet \<Rightarrow> RequestPermissionProfile
    \<Rightarrow> nat \<times> permissionProfileGrantSet" where
  "profileSet_add ps profile =
     (let i = Suc (nextID ps)
      in (i, \<lparr>nextID = i, profiles = AList.update i profile (profiles ps)\<rparr>))"

definition profileSet_delete :: "nat \<Rightarrow> permissionProfileGrantSet \<Rightarrow> permissionProfileGrantSet" where
  "profileSet_delete i ps = ps\<lparr>profiles := AList.delete i (profiles ps)\<rparr>"

definition profileSet_list :: "permissionProfileGrantSet \<Rightarrow> RequestPermissionProfile list" where
  "profileSet_list ps = List.map snd (profiles ps)"

section \<open>Facts about profiles\<close>

definition profileSet_inv :: "permissionProfileGrantSet \<Rightarrow> bool" where
  "profileSet_inv ps \<longleftrightarrow> distinct (List.map fst (profiles ps)) \<and> (\<forall>i \<in> fst ` set (profiles ps). i \<le> nextID ps)"

lemma profileSet_add_inv: "profileSet_inv ps \<Longrightarrow> profileSet_inv (snd (profileSet_add ps p))"
  using update_set [of "Suc (nextID ps)" p "profiles ps"]
  by (fastforce simp: profileSet_inv_def profileSet_add_def Let_def AList.distinct_update)

lemma profileSet_delete_inv: "profileSet_inv ps \<Longrightarrow> profileSet_inv (profileSet_delete i ps)"
  using delete_set [of i "profiles ps"]
  by (fastforce simp: profileSet_inv_def profileSet_delete_def AList.distinct_delete)

lemma profileSet_add_fresh:
  "profileSet_inv ps \<Longrightarrow> profiles (snd (profileSet_add ps p)) = profiles ps @ [(Suc (nextID ps), p)]"
  by (simp add: profileSet_add_def Let_def, rule update_absent) (fastforce simp: profileSet_inv_def)

lemma profileSet_add_delete:
  assumes "profileSet_inv ps" "profileSet_add ps p = (i, ps')"
  shows "profiles (profileSet_delete i ps') = profiles ps"
proof -
  have i: "i = Suc (nextID ps)" "profiles ps' = profiles ps @ [(i, p)]"
    using profileSet_add_fresh [OF assms(1), of p] assms(2) by (auto simp: profileSet_add_def Let_def)
  have "i \<notin> fst ` set (profiles ps)" using assms(1) i(1) by (fastforce simp: profileSet_inv_def)
  then have "filter (\<lambda>(k', _). i \<noteq> k') (profiles ps) = profiles ps"
    by (intro filter_True) force
  then show ?thesis using i(2) by (simp add: profileSet_delete_def AList.delete_eq)
qed

text \<open>A profile only adds to the policy, and never touches what may not be written.\<close>

lemma applyRequestPermissionProfile_widens:
  "set (AllowRead policy) \<subseteq> set (AllowRead (applyRequestPermissionProfile policy p))"
  "set (AllowWrite policy) \<subseteq> set (AllowWrite (applyRequestPermissionProfile policy p))"
  "set (DenyRead policy) \<subseteq> set (DenyRead (applyRequestPermissionProfile policy p))"
  "DenyWrite (applyRequestPermissionProfile policy p) = DenyWrite policy"
  "pol_mode (applyRequestPermissionProfile policy p) = pol_mode policy"
  "EnforceWorkspace (applyRequestPermissionProfile policy p) = EnforceWorkspace policy"
  by (auto simp: applyRequestPermissionProfile_def Let_def dedupeStrings_set split: option.split)

lemma applyRequestPermissionProfile_network:
  "NormalizeNetworkMode (pol_network (applyRequestPermissionProfile policy p)) = NetworkAllow \<longleftrightarrow>
     NormalizeNetworkMode (pol_network policy) = NetworkAllow \<or> network_enabled p"
proof -
  have "NormalizeNetworkMode ''allow'' = NetworkAllow" by code_simp
  then show ?thesis by (auto simp: applyRequestPermissionProfile_def Let_def split: option.split)
qed

text \<open>Every granted root is a usable directory.\<close>

lemma permission_roots_usable: "permission_roots os paths = Inr rs \<Longrightarrow> list_all (usable_root os) rs"
  by (induction paths arbitrary: rs)
    (auto simp: map_sum_def normalizeScopeRoot_usable split: if_splits sum.splits)

lemma grantPermissionRoots_usable:
  assumes "grantPermissionRoots os paths = Inr rs"
  shows "list_all (usable_root os) rs \<and> distinct rs"
proof -
  obtain qs where q: "permission_roots os paths = Inr qs" "rs = dedupeStrings qs"
    using assms by (auto simp: grantPermissionRoots_def map_sum_def split: sum.splits)
  have "distinct rs" using q(2) dedupe_from_distinct [of "[]" qs]
    by (cases qs rule: list.exhaust) (auto simp: dedupeStrings_def split: if_splits)
  then show ?thesis using permission_roots_usable [OF q(1)] q(2) by (auto simp: list_all_iff dedupeStrings_set)
qed

end
