(* ===== verification/Engine.thy ===== *)
theory Engine
  imports Risk Request_Permissions
begin

text \<open>
  The policy engine: \<open>internal/sandbox/engine.go\<close> and the engine operations of
  \<open>request_permissions.go\<close>.  \<open>Evaluate\<close> decides one tool request; the other operations add
  approvals.  A nil engine is \<open>None\<close>; the grant store is its file, when there is one.  The
  environment-variable list of the engine only concerns the command runner and is left out.
\<close>

section \<open>The engine and its surroundings\<close>

record Backend =
  be_available :: bool
  be_platform :: string
  be_commandWrapping :: bool
  be_nativeIsolation :: bool
  be_executable :: string

record Engine =
  eng_workspaceRoot :: string
  eng_policy :: Policy
  eng_store :: "grants_file option"
  eng_backend :: Backend
  eng_scope :: "SandboxScope option"
  eng_sessionGrants :: memoryGrantSet
  eng_sessionProfiles :: permissionProfileGrantSet
  eng_turnProfiles :: permissionProfileGrantSet
  eng_commandPrefixes :: "CommandPrefixGrant list"

text \<open>
  The host: the file system, the shell parser, the redaction of reasons, the time of day in
  RFC 3339, the outcome of writing the grants file, and the Windows setup marker.
\<close>

record world =
  w_os :: os
  w_parse :: shell_parser
  w_redact :: "string \<Rightarrow> string"
  w_now :: string
  w_write :: "string option"
  w_windowsInitialized :: bool

definition NewEngine ::
    "os \<Rightarrow> string \<Rightarrow> Policy \<Rightarrow> grants_file option \<Rightarrow> Backend \<Rightarrow> SandboxScope option \<Rightarrow> Engine" where
  "NewEngine os workspace policy store backend s =
     (let policy = (if pol_mode policy = ModeUnset then DefaultPolicy else policy);
          root = trim_space workspace;
          root = (case s of Some s \<Rightarrow> if root = [] then hd (Scope_Roots s) else root | None \<Rightarrow> root);
          s = (case s of Some s \<Rightarrow> Some s
               | None \<Rightarrow> if root \<noteq> [] then Some (newScopeBestEffort os root) else None)
      in \<lparr>eng_workspaceRoot = root, eng_policy = policy, eng_store = store, eng_backend = backend,
          eng_scope = s, eng_sessionGrants = [], eng_sessionProfiles = newPermissionProfileGrantSet,
          eng_turnProfiles = newPermissionProfileGrantSet, eng_commandPrefixes = []\<rparr>)"

definition CanPersistGrants :: "Engine option \<Rightarrow> bool" where
  "CanPersistGrants engine \<longleftrightarrow> (case engine of None \<Rightarrow> False | Some e \<Rightarrow> eng_store e \<noteq> None)"

definition effectivePolicy :: "Engine \<Rightarrow> Policy" where
  "effectivePolicy e =
     foldl applyRequestPermissionProfile
       (foldl applyRequestPermissionProfile (eng_policy e) (profileSet_list (eng_sessionProfiles e)))
       (profileSet_list (eng_turnProfiles e))"

definition scopeFor :: "os \<Rightarrow> Engine \<Rightarrow> string \<Rightarrow> SandboxScope" where
  "scopeFor os e requestRoot =
     (case eng_scope e of
        Some s \<Rightarrow> if requestRoot = eng_workspaceRoot e then s else newScopeBestEffort os requestRoot
      | None \<Rightarrow> newScopeBestEffort os requestRoot)"

definition Engine_ReadExclusions :: "os \<Rightarrow> Engine option \<Rightarrow> ReadExclusions option" where
  "Engine_ReadExclusions os engine =
     (case engine of
        None \<Rightarrow> None
      | Some e \<Rightarrow>
          (let policy = effectivePolicy e
           in if pol_mode policy = ModeDisabled then None
              else Some \<lparr>rx_workspaceRoot = eng_workspaceRoot e,
                     rx_denyRoots = resolvePolicyPaths os (DenyRead policy),
                     rx_allowRoots = resolvePolicyPaths os (AllowRead policy)\<rparr>))"

definition Engine_ReadExclusionGlobs :: "os \<Rightarrow> Engine option \<Rightarrow> string list" where
  "Engine_ReadExclusionGlobs os engine =
     (case engine of
        None \<Rightarrow> []
      | Some e \<Rightarrow>
          (let policy = effectivePolicy e
           in if pol_mode policy = ModeDisabled then [] else ReadExclusionGlobs os policy (eng_scope e)))"

definition effectiveNetworkMode :: "Policy \<Rightarrow> NetworkMode" where
  "effectiveNetworkMode policy = NormalizeNetworkMode (pol_network policy)"

definition UnsandboxedExecutionAllowed :: "os \<Rightarrow> Engine option \<Rightarrow> bool" where
  "UnsandboxedExecutionAllowed os engine =
     (case engine of
        None \<Rightarrow> True
      | Some e \<Rightarrow>
          (let policy = effectivePolicy e
           in if pol_mode policy = ModeDisabled then True
              else normalizeProfilePaths os (DenyRead policy) = []))"

definition shellSandboxActive :: "bool \<Rightarrow> Engine \<Rightarrow> Policy \<Rightarrow> bool" where
  "shellSandboxActive windowsInitialized e policy =
     (let b = eng_backend e
      in if pol_mode policy = ModeDisabled then False
         else if \<not> (be_available b \<and> be_executable b \<noteq> [] \<and> be_commandWrapping b \<and> be_nativeIsolation b)
         then False
         else if be_platform b = ''windows'' \<and> \<not> windowsInitialized then False
         else True)"

section \<open>Predicates of a request\<close>

definition toolNetworkExempt :: "Request \<Rightarrow> bool" where
  "toolNetworkExempt request \<longleftrightarrow> req_side_effect request = SideEffectNetwork"

definition requestRequiresEscalatedSandbox :: "Request \<Rightarrow> bool" where
  "requestRequiresEscalatedSandbox request \<longleftrightarrow>
     trim_space (firstArgString (Args request) [''sandbox_permissions'']) = ''require_escalated''"

definition isExplicitPermissionProfile :: "PermissionMode \<Rightarrow> bool" where
  "isExplicitPermissionProfile mode \<longleftrightarrow>
     mode \<in> {PermissionModeAskAll, PermissionModeReadOnly, PermissionModeReadWrite, PermissionModeBypassAll}"

definition permissionReason :: "Request \<Rightarrow> string" where
  "permissionReason request =
     (if Reason request \<noteq> [] then Reason request
      else (case req_permission request of
              PermissionAllow \<Rightarrow> ''tool safety allows execution''
            | PermissionDeny \<Rightarrow> ''tool safety denies execution''
            | PermissionPrompt \<Rightarrow> ''tool requires approval before execution''))"

definition promptablePathBlock :: "Request \<Rightarrow> pathBlock \<Rightarrow> bool" where
  "promptablePathBlock request block =
     (if pb_code block \<noteq> BlockOutsideWorkspace then False
      else if req_mode request = PermissionUnsafe then False
      else if ToolName request = ''apply_patch'' then False
      else if req_side_effect request \<notin> {SideEffectRead, SideEffectWrite, SideEffectOutOfWorkspace} then False
      else (let path = trim_space (pb_path block)
            in if path = [] then False
               else if \<not> is_abs path \<and> trim_space (WorkspaceRoot request) = [] then False
               else \<not> contains (pb_reason block) ''cannot be validated without a workspace root''))"

definition relativePathTouchesProtectedMetadata :: "string \<Rightarrow> bool" where
  "relativePathTouchesProtectedMetadata path =
     (let cleaned = clean (trim_space path)
      in if cleaned = ''.'' \<or> cleaned = ''..'' \<or> has_prefix cleaned ''../'' \<or> is_abs cleaned then False
         else takeWhile (\<lambda>c. c \<noteq> slash) cleaned \<in> set protectedMetadataNames)"

definition pathTouchesProtectedMetadata :: "os \<Rightarrow> SandboxScope \<Rightarrow> string \<Rightarrow> bool" where
  "pathTouchesProtectedMetadata os s path =
     (let path = trim_space path
      in if path = [] then False
         else if \<not> is_abs path then relativePathTouchesProtectedMetadata path
         else list_ex (\<lambda>root.
                let root = normalizeWorkspaceRootBestEffort os root
                in if root = [] then False
                   else (case rel root (NormalizePrefixForRoot os (clean path) root) of
                           None \<Rightarrow> False
                         | Some relative \<Rightarrow>
                             if relative = ''..'' \<or> has_prefix relative ''../'' \<or> is_abs relative then False
                             else relativePathTouchesProtectedMetadata relative))
              (Scope_Roots s))"

definition requestPathsTouchProtectedMetadata :: "os \<Rightarrow> SandboxScope \<Rightarrow> string list \<Rightarrow> bool" where
  "requestPathsTouchProtectedMetadata os s paths = list_ex (pathTouchesProtectedMetadata os s) paths"

definition workspaceWriteAutoAllowed :: "os \<Rightarrow> Policy \<Rightarrow> Request \<Rightarrow> SandboxScope \<Rightarrow> bool" where
  "workspaceWriteAutoAllowed os policy request s =
     (if isExplicitPermissionProfile (req_mode request) \<or> \<not> EnforceWorkspace policy
         \<or> WorkspaceRoot request = [] \<or> req_side_effect request \<noteq> SideEffectWrite then False
      else if requestPaths request = [] \<or> requestPathsTouchProtectedMetadata os s (requestPaths request) then False
      else ToolName request \<in> {''write_file'', ''edit_file'', ''apply_patch''})"

section \<open>Decisions\<close>

definition plain_decision :: "Action \<Rightarrow> Risk \<Rightarrow> string \<Rightarrow> Decision" where
  "plain_decision action risk reason =
     \<lparr>dec_action = action, dec_reason = reason, dec_risk = risk, GrantMatched = False, dec_grant = None,
      dec_block = None, AutoAllowed = False\<rparr>"

definition auto_allowed :: "Risk \<Rightarrow> string \<Rightarrow> Decision" where
  "auto_allowed risk reason = (plain_decision ActionAllow risk reason)\<lparr>AutoAllowed := True\<rparr>"

definition grant_decision_allow :: "Risk \<Rightarrow> string \<Rightarrow> Grant \<Rightarrow> Decision" where
  "grant_decision_allow risk reason grant =
     (plain_decision ActionAllow risk reason)\<lparr>GrantMatched := True, dec_grant := Some grant\<rparr>"

definition deny :: "Request \<Rightarrow> Risk \<Rightarrow> BlockCode \<Rightarrow> string \<Rightarrow> string \<Rightarrow> bool \<Rightarrow> Decision" where
  "deny request risk code path reason recoverable =
     (plain_decision ActionDeny risk reason)\<lparr>dec_block := Some \<lparr>Code = code, block_tool = ToolName request,
        block_action = ActionDeny, block_risk = risk, Path = path, block_reason = reason,
        Recoverable = recoverable\<rparr>\<rparr>"

definition promptPathBlock :: "Request \<Rightarrow> Risk \<Rightarrow> pathBlock \<Rightarrow> Decision" where
  "promptPathBlock request risk block =
     (plain_decision ActionPrompt risk (pb_reason block))\<lparr>dec_block := Some \<lparr>Code = pb_code block,
        block_tool = ToolName request, block_action = ActionPrompt, block_risk = risk,
        Path = pb_path block, block_reason = pb_reason block, Recoverable = True\<rparr>\<rparr>"

text \<open>The loop over the request's paths: a hard block, or the first promptable one.\<close>

fun path_loop :: "Request \<Rightarrow> (string \<Rightarrow> pathBlock option) \<Rightarrow> string list \<Rightarrow> pathBlock option
    \<Rightarrow> pathBlock + pathBlock option" where
  "path_loop request validate [] promptable = Inr promptable"
| "path_loop request validate (path # paths) promptable =
     (case validate path of
        None \<Rightarrow> path_loop request validate paths promptable
      | Some block \<Rightarrow>
          if promptablePathBlock request block
          then path_loop request validate paths (case promptable of None \<Rightarrow> Some block | Some b \<Rightarrow> Some b)
          else Inl block)"

definition network_gate :: "Policy \<Rightarrow> Request \<Rightarrow> Risk \<Rightarrow> Decision option" where
  "network_gate policy request risk =
     (if effectiveNetworkMode policy = NetworkDeny \<and> HasRiskCategory risk ''network'' \<and> \<not> toolNetworkExempt request
      then (if req_side_effect request = SideEffectShell \<and> req_mode request \<noteq> PermissionUnsafe
            then Some (plain_decision ActionPrompt risk ReasonNetworkBlocked)
            else Some (deny request risk BlockNetwork [] ReasonNetworkBlocked False))
      else None)"

definition destructive_gate :: "Request \<Rightarrow> Risk \<Rightarrow> Decision option" where
  "destructive_gate request risk =
     (if HasRiskCategory risk ''destructive'' \<and> req_side_effect request = SideEffectShell
         \<and> \<not> PermissionGranted request
      then (if req_mode request \<noteq> PermissionUnsafe
            then Some (plain_decision ActionPrompt risk ''destructive shell command requires approval'')
            else Some (deny request risk BlockDestructiveCommand []
                         ''destructive shell command requires approval'' False))
      else None)"

definition escalation_gate :: "Request \<Rightarrow> Risk \<Rightarrow> Decision option" where
  "escalation_gate request risk =
     (if req_side_effect request = SideEffectShell \<and> requestRequiresEscalatedSandbox request
         \<and> \<not> PermissionGranted request
      then (if req_mode request \<noteq> PermissionUnsafe
            then Some (plain_decision ActionPrompt risk ReasonEscalatedSandboxRequired)
            else Some (deny request risk BlockDeniedPermission [] ReasonEscalatedSandboxRequired False))
      else None)"

definition request_enforces_workspace :: "Policy \<Rightarrow> Request \<Rightarrow> bool" where
  "request_enforces_workspace policy request =
     (let enforce = EnforceWorkspace policy \<and> WorkspaceRoot request \<noteq> []
      in case req_mode request of
           PermissionModeReadOnly \<Rightarrow> if req_side_effect request = SideEffectRead then False else enforce
         | PermissionModeReadWrite \<Rightarrow>
             if req_side_effect request \<in> {SideEffectRead, SideEffectWrite, SideEffectOutOfWorkspace}
             then False else enforce
         | _ \<Rightarrow> enforce)"

section \<open>Evaluate\<close>

definition as_request :: "string \<Rightarrow> RawRequest \<Rightarrow> Request" where
  "as_request workspace raw =
     \<lparr>WorkspaceRoot = workspace, ToolName = raw_tool_name raw,
      req_side_effect = NormalizeSideEffect (raw_side_effect raw),
      req_permission = NormalizePermission (raw_permission raw),
      PermissionGranted = raw_permission_granted raw,
      req_mode = NormalizePermissionMode (raw_permission_mode raw),
      Args = raw_args raw, Reason = raw_reason raw\<rparr>"

text \<open>A grant store that cannot be read answers an error, which counts as no match.\<close>

definition store_match :: "world \<Rightarrow> Engine \<Rightarrow> string \<Rightarrow> string \<Rightarrow> Grant option" where
  "store_match w e toolName reqScope =
     (case eng_store e of
        None \<Rightarrow> None
      | Some file \<Rightarrow> (case GrantStore_Lookup (w_redact w) toolName reqScope file of
                       Inl _ \<Rightarrow> None
                     | Inr match \<Rightarrow> match))"

definition lookupSessionGrant :: "Engine \<Rightarrow> string \<Rightarrow> string \<Rightarrow> Grant option" where
  "lookupSessionGrant e toolName reqScope = memoryGrantSet_lookup (eng_sessionGrants e) toolName reqScope"

text \<open>The decision once every gate has been passed.\<close>

definition final_decision ::
    "world \<Rightarrow> Engine \<Rightarrow> Policy \<Rightarrow> SandboxScope \<Rightarrow> Request \<Rightarrow> Risk \<Rightarrow> Grant option \<Rightarrow> Grant option
      \<Rightarrow> pathBlock option \<Rightarrow> Decision" where
  "final_decision w e policy s request risk persistentAllow sessionAllow promptableBlock =
     (case persistentAllow of
        Some g \<Rightarrow> grant_decision_allow risk ''persistent sandbox allow grant matched'' g
      | None \<Rightarrow>
     (case sessionAllow of
        Some g \<Rightarrow> grant_decision_allow risk ''session sandbox allow grant matched'' g
      | None \<Rightarrow>
     (case promptableBlock of
        Some b \<Rightarrow> promptPathBlock request risk b
      | None \<Rightarrow>
          if req_permission request = PermissionAllow then plain_decision ActionAllow risk (permissionReason request)
          else if workspaceWriteAutoAllowed (w_os w) policy request s then
            auto_allowed risk ''workspace write is allowed''
          else if req_side_effect request = SideEffectShell \<and> \<not> isExplicitPermissionProfile (req_mode request)
               \<and> shellSandboxActive (w_windowsInitialized w) e policy then
            auto_allowed risk ''auto-allowed: sandbox is active for this shell command''
          else if PermissionGranted request \<or> req_mode request = PermissionUnsafe then
            plain_decision ActionAllow risk (permissionReason request)
          else plain_decision ActionPrompt risk (permissionReason request))))"

text \<open>From the path checks on.\<close>

definition evaluate_paths ::
    "world \<Rightarrow> Engine \<Rightarrow> Policy \<Rightarrow> SandboxScope \<Rightarrow> Request \<Rightarrow> Risk \<Rightarrow> Grant option \<Rightarrow> Grant option \<Rightarrow> Decision" where
  "evaluate_paths w e policy s request risk persistentAllow sessionAllow =
     (case applyPatchPathBlock request of
        Some block \<Rightarrow> deny request risk (pb_code block) (pb_path block) (pb_reason block) False
      | None \<Rightarrow>
     (case path_loop request (validatePathWithPolicy (w_os w) s policy (req_side_effect request)
             (request_enforces_workspace policy request) (WorkspaceRoot request)) (requestPaths request) None of
        Inl block \<Rightarrow> deny request risk (pb_code block) (pb_path block) (pb_reason block) False
      | Inr promptableBlock \<Rightarrow>
     (case network_gate policy request risk of
        Some d \<Rightarrow> d
      | None \<Rightarrow>
     (case destructive_gate request risk of
        Some d \<Rightarrow> d
      | None \<Rightarrow>
     (case escalation_gate request risk of
        Some d \<Rightarrow> d
      | None \<Rightarrow> final_decision w e policy s request risk persistentAllow sessionAllow promptableBlock)))))"

text \<open>The scope a grant must cover to govern the request.\<close>

definition request_scope :: "os \<Rightarrow> Request \<Rightarrow> string" where
  "request_scope os request =
     (let (raw, kind) = DeriveScope (ToolName request) (Args request)
      in resolveScopeForKind os raw kind (WorkspaceRoot request))"

definition evaluate_enforced ::
    "world \<Rightarrow> Engine \<Rightarrow> Policy \<Rightarrow> SandboxScope \<Rightarrow> Request \<Rightarrow> Risk \<Rightarrow> Decision" where
  "evaluate_enforced w e policy s request risk =
     (if req_permission request = PermissionDeny then
        deny request risk BlockDeniedPermission [] (permissionReason request) False
      else
        (let reqScope = request_scope (w_os w) request;
             persistent = store_match w e (ToolName request) reqScope;
             sessionAllow = lookupSessionGrant e (ToolName request) reqScope
         in case persistent of
              Some grant \<Rightarrow>
                if grant_decision grant = GrantDeny then
                  (deny request risk BlockPersistentDeny [] ''persistent sandbox deny grant matched'' True)
                    \<lparr>GrantMatched := True, dec_grant := Some grant\<rparr>
                else evaluate_paths w e policy s request risk (Some grant) sessionAllow
            | None \<Rightarrow> evaluate_paths w e policy s request risk None sessionAllow))"

definition request_policy :: "Engine \<Rightarrow> Request \<Rightarrow> Policy" where
  "request_policy e request =
     (let policy = effectivePolicy e;
          policy = (if pol_mode policy = ModeUnset then DefaultPolicy else policy)
      in if req_mode request = PermissionModeBypassAll then policy\<lparr>pol_mode := ModeDisabled\<rparr> else policy)"

text \<open>
  A cancelled or a nil engine classifies the request before its fields are normalised;
  \<open>classifyWithScope\<close> reads the side effect through \<open>NormalizeSideEffect\<close> and no other field that
  normalisation changes, so the risk is that of the request as normalised here.
\<close>

definition Evaluate :: "world \<Rightarrow> string option \<Rightarrow> Engine option \<Rightarrow> RawRequest \<Rightarrow> Decision" where
  "Evaluate w cancelled engine raw =
     (let request = as_request (raw_workspace_root raw) raw
      in case cancelled of
           Some err \<Rightarrow> deny request (Classify (w_os w) (w_parse w) request) BlockContextCanceled []
                         (''sandbox evaluation cancelled: '' @ err) False
         | None \<Rightarrow>
        (case engine of
           None \<Rightarrow> plain_decision ActionAllow (Classify (w_os w) (w_parse w) request) ''sandbox disabled''
         | Some e \<Rightarrow>
             (let request = as_request (firstNonEmpty [raw_workspace_root raw, eng_workspaceRoot e]) raw;
                  policy = request_policy e request;
                  s = scopeFor (w_os w) e (WorkspaceRoot request);
                  risk = classifyWithScope (w_os w) (w_parse w) (Some s) request
              in if pol_mode policy = ModeDisabled then plain_decision ActionAllow risk ''sandbox disabled''
                 else evaluate_enforced w e policy s request risk)))"

definition blocksFromDecision :: "Decision \<Rightarrow> Block list" where
  "blocksFromDecision decision =
     (if dec_action decision \<noteq> ActionDeny then []
      else (case dec_block decision of
              Some b \<Rightarrow> [b]
            | None \<Rightarrow> [\<lparr>Code = BlockDenied, block_tool = [], block_action = ActionDeny,
                         block_risk = dec_risk decision, Path = [],
                         block_reason = Decision_ErrorString decision, Recoverable = False\<rparr>]))"

definition Precheck :: "world \<Rightarrow> string option \<Rightarrow> Engine option \<Rightarrow> RawRequest \<Rightarrow> Block list" where
  "Precheck w cancelled engine raw =
     (case engine of None \<Rightarrow> [] | Some _ \<Rightarrow> blocksFromDecision (Evaluate w cancelled engine raw))"

section \<open>Approvals\<close>

definition normalizeGrantInput :: "os \<Rightarrow> Engine \<Rightarrow> GrantInput \<Rightarrow> string + GrantInput" where
  "normalizeGrantInput os e input =
     (case normalizeScopeKind (gi_kind input) of
        Inl err \<Rightarrow> Inl err
      | Inr kind \<Rightarrow>
          (let (scope, kind) = reconcileScope (trim_space (gi_scope input)) kind;
               scope = (if kind \<noteq> ScopeToolWide
                        then resolveScopeForKind os scope kind (eng_workspaceRoot e) else scope)
           in Inr (input\<lparr>gi_scope := scope, gi_kind := ScopeKind_string kind\<rparr>)))"

definition Engine_Grant :: "world \<Rightarrow> GrantInput \<Rightarrow> Engine option \<Rightarrow> (string + Grant) \<times> Engine option" where
  "Engine_Grant w input engine =
     (case engine of
        None \<Rightarrow> (Inl ''sandbox grant store is not configured'', engine)
      | Some e \<Rightarrow>
          (case eng_store e of
             None \<Rightarrow> (Inl ''sandbox grant store is not configured'', engine)
           | Some file \<Rightarrow>
               (case normalizeGrantInput (w_os w) e input of
                  Inl err \<Rightarrow> (Inl err, engine)
                | Inr input \<Rightarrow>
                    (let (r, file) = GrantStore_Grant (w_redact w) (w_now w) (w_write w) input file
                     in (r, Some (e\<lparr>eng_store := Some file\<rparr>))))))"

definition Engine_GrantForSession :: "world \<Rightarrow> GrantInput \<Rightarrow> Engine option \<Rightarrow> (string + Grant) \<times> Engine option" where
  "Engine_GrantForSession w input engine =
     (case engine of
        None \<Rightarrow> (Inl ''sandbox engine is not configured'', engine)
      | Some e \<Rightarrow>
          (case normalizeGrantInput (w_os w) e input of
             Inl err \<Rightarrow> (Inl err, engine)
           | Inr input \<Rightarrow>
               (case createGrant (w_redact w) (w_now w) input of
                  Inl err \<Rightarrow> (Inl err, engine)
                | Inr grant \<Rightarrow>
                    (let grant = grant\<lparr>Session := True\<rparr>
                     in (Inr grant,
                         Some (e\<lparr>eng_sessionGrants := memoryGrantSet_add (eng_sessionGrants e) grant\<rparr>))))))"

definition Engine_GrantCommandPrefixForSession :: "string \<Rightarrow> string list \<Rightarrow> Engine option \<Rightarrow> Engine option" where
  "Engine_GrantCommandPrefixForSession toolName prefix engine =
     (case engine of
        None \<Rightarrow> None
      | Some e \<Rightarrow>
          if prefix = [] then engine
          else (case NormalizeCommandPrefix prefix of
                  None \<Rightarrow> engine
                | Some prefix \<Rightarrow> Some (e\<lparr>eng_commandPrefixes := commandPrefixGrantSet_add (eng_commandPrefixes e)
                    \<lparr>cp_tool = toolName, Prefix = prefix, cp_approvedAt = [], cp_reason = [], cp_session = True\<rparr>\<rparr>)))"

definition Engine_GrantCommandPrefix ::
    "world \<Rightarrow> CommandPrefixInput \<Rightarrow> Engine option \<Rightarrow> (string + CommandPrefixGrant) \<times> Engine option" where
  "Engine_GrantCommandPrefix w input engine =
     (case engine of
        None \<Rightarrow> (Inl ''sandbox grant store is not configured'', engine)
      | Some e \<Rightarrow>
          (case eng_store e of
             None \<Rightarrow> (Inl ''sandbox grant store is not configured'', engine)
           | Some file \<Rightarrow>
               (let (r, file) = GrantStore_GrantCommandPrefix (w_redact w) (w_now w) (w_write w) input file
                in (r, Some (e\<lparr>eng_store := Some file\<rparr>)))))"

definition Engine_LookupCommandPrefix ::
    "world \<Rightarrow> Engine option \<Rightarrow> string \<Rightarrow> string list \<Rightarrow> CommandPrefixGrant option" where
  "Engine_LookupCommandPrefix w engine toolName command =
     (case engine of
        None \<Rightarrow> None
      | Some e \<Rightarrow>
          (case eng_store e of
             None \<Rightarrow> None
           | Some file \<Rightarrow>
               if command = [] then None
               else (case GrantStore_LookupCommandPrefix (w_redact w) toolName command file of
                       Inl _ \<Rightarrow> None
                     | Inr g \<Rightarrow> g)))"

definition Engine_LookupCommandPrefixForSession ::
    "Engine option \<Rightarrow> string \<Rightarrow> string list \<Rightarrow> CommandPrefixGrant option" where
  "Engine_LookupCommandPrefixForSession engine toolName command =
     (case engine of
        None \<Rightarrow> None
      | Some e \<Rightarrow> if command = [] then None
                  else commandPrefixGrantSet_match (eng_commandPrefixes e) (toolName, command))"

definition ApprovedCommandPrefixes :: "world \<Rightarrow> Engine option \<Rightarrow> CommandPrefixGrant list" where
  "ApprovedCommandPrefixes w engine =
     (case engine of
        None \<Rightarrow> []
      | Some e \<Rightarrow>
          (case eng_store e of
             None \<Rightarrow> []
           | Some file \<Rightarrow> (case GrantStore_ListCommandPrefixes (w_redact w) file of
                            Inl _ \<Rightarrow> []
                          | Inr gs \<Rightarrow> gs)))"

section \<open>Granting requested permissions\<close>

datatype PermissionGrantScope = GrantScopeTurn | GrantScopeSession | GrantScopeOther string

text \<open>What a cleanup runs, last first: scope undos, and the removal of a turn profile.\<close>

datatype cleanup = Scope_Undo undo | Remove_Turn_Profile nat

fun run_cleanup :: "cleanup \<Rightarrow> Engine \<Rightarrow> Engine" where
  "run_cleanup (Scope_Undo u) e = e\<lparr>eng_scope := map_option (run_undo u) (eng_scope e)\<rparr>"
| "run_cleanup (Remove_Turn_Profile i) e = e\<lparr>eng_turnProfiles := profileSet_delete i (eng_turnProfiles e)\<rparr>"

definition run_cleanups :: "cleanup list \<Rightarrow> Engine \<Rightarrow> Engine" where
  "run_cleanups cs e = foldr run_cleanup cs e"

text \<open>
  The loop over the read or the write paths; \<open>add\<close> is the session operation of the scope,
  \<open>addTemp\<close> the temporary one.  On an error the undos so far are run.
\<close>

fun grant_roots ::
    "os \<Rightarrow> string \<Rightarrow> (string \<Rightarrow> SandboxScope \<Rightarrow> string + string \<times> SandboxScope)
      \<Rightarrow> (string \<Rightarrow> SandboxScope \<Rightarrow> string + string \<times> undo \<times> SandboxScope)
      \<Rightarrow> PermissionGrantScope \<Rightarrow> string list \<Rightarrow> cleanup list \<Rightarrow> SandboxScope
      \<Rightarrow> (string \<times> cleanup list + cleanup list) \<times> SandboxScope" where
  "grant_roots os what add addTemp scope [] cs s = (Inr cs, s)"
| "grant_roots os what add addTemp scope (path # paths) cs s =
     (let root = permissionRoot os path
      in if scope = GrantScopeSession then
           (case add root s of
              Inl e \<Rightarrow> (Inl (''grant '' @ what @ '' permission '' @ path @ '': '' @ e, cs), s)
            | Inr (_, s) \<Rightarrow> grant_roots os what add addTemp scope paths cs s)
         else
           (case addTemp root s of
              Inl e \<Rightarrow> (Inl (''grant '' @ what @ '' permission '' @ path @ '': '' @ e, cs), s)
            | Inr (_, u, s) \<Rightarrow> grant_roots os what add addTemp scope paths (cs @ [Scope_Undo u]) s))"

definition grant_scope_roots ::
    "os \<Rightarrow> PermissionGrantScope \<Rightarrow> RequestPermissionProfile \<Rightarrow> Engine
      \<Rightarrow> (string \<times> cleanup list + cleanup list) \<times> Engine" where
  "grant_scope_roots os scope profile e =
     (case (eng_scope e, rpp_fileSystem profile) of
        (Some s, Some fs) \<Rightarrow>
          (case grant_roots os ''read'' (Scope_AddRead os) (Scope_AddTemporaryRead os) scope (fs_read fs) [] s of
             (Inl err, s) \<Rightarrow> (Inl err, e\<lparr>eng_scope := Some s\<rparr>)
           | (Inr cs, s) \<Rightarrow>
               (case grant_roots os ''write'' (Scope_Add os) (Scope_AddTemporaryWrite os) scope (fs_write fs) cs s of
                  (Inl err, s) \<Rightarrow> (Inl err, e\<lparr>eng_scope := Some s\<rparr>)
                | (Inr cs, s) \<Rightarrow> (Inr cs, e\<lparr>eng_scope := Some s\<rparr>)))
      | _ \<Rightarrow> (Inr [], e))"

definition GrantRequestPermissions ::
    "os \<Rightarrow> RequestPermissionProfile \<Rightarrow> PermissionGrantScope \<Rightarrow> Engine option
      \<Rightarrow> (string + cleanup list) \<times> Engine option" where
  "GrantRequestPermissions os profile scope engine =
     (case engine of
        None \<Rightarrow> (Inl ''sandbox engine is not configured'', None)
      | Some e \<Rightarrow>
          (let scope = (if scope = GrantScopeOther [] then GrantScopeTurn else scope)
           in case grant_scope_roots os scope profile e of
                (Inl (err, cs), e) \<Rightarrow> (Inl err, Some (run_cleanups cs e))
              | (Inr cs, e) \<Rightarrow>
                  (case scope of
                     GrantScopeSession \<Rightarrow>
                       (Inr [], Some (e\<lparr>eng_sessionProfiles := snd (profileSet_add (eng_sessionProfiles e) profile)\<rparr>))
                   | GrantScopeTurn \<Rightarrow>
                       (let (i, ps) = profileSet_add (eng_turnProfiles e) profile
                        in (Inr (cs @ [Remove_Turn_Profile i]), Some (e\<lparr>eng_turnProfiles := ps\<rparr>)))
                   | GrantScopeOther s \<Rightarrow>
                       (Inl (''unsupported permission grant scope '' @ go_quote s), Some (run_cleanups cs e)))))"

section \<open>What a decision means\<close>

text \<open>The request, policy, scope and risk \<open>Evaluate\<close> works with for an engine.\<close>

definition the_request :: "Engine \<Rightarrow> RawRequest \<Rightarrow> Request" where
  "the_request e raw = as_request (firstNonEmpty [raw_workspace_root raw, eng_workspaceRoot e]) raw"

definition the_policy :: "Engine \<Rightarrow> RawRequest \<Rightarrow> Policy" where
  "the_policy e raw = request_policy e (the_request e raw)"

definition the_scope :: "world \<Rightarrow> Engine \<Rightarrow> RawRequest \<Rightarrow> SandboxScope" where
  "the_scope w e raw = scopeFor (w_os w) e (WorkspaceRoot (the_request e raw))"

definition the_risk :: "world \<Rightarrow> Engine \<Rightarrow> RawRequest \<Rightarrow> Risk" where
  "the_risk w e raw = classifyWithScope (w_os w) (w_parse w) (Some (the_scope w e raw)) (the_request e raw)"

text \<open>The engine enforces: neither the policy nor the mode of the request switches it off.\<close>

definition enforcing :: "Engine \<Rightarrow> RawRequest \<Rightarrow> bool" where
  "enforcing e raw \<longleftrightarrow> pol_mode (the_policy e raw) \<noteq> ModeDisabled"

lemmas the_defs = the_request_def the_policy_def the_scope_def the_risk_def

lemma Evaluate_engine:
  "Evaluate w None (Some e) raw =
     (if \<not> enforcing e raw then plain_decision ActionAllow (the_risk w e raw) ''sandbox disabled''
      else evaluate_enforced w e (the_policy e raw) (the_scope w e raw) (the_request e raw) (the_risk w e raw))"
  by (simp add: Evaluate_def enforcing_def the_defs Let_def)

lemma enforcing_iff:
  "enforcing e raw \<longleftrightarrow> pol_mode (effectivePolicy e) \<noteq> ModeDisabled \<and>
     NormalizePermissionMode (raw_permission_mode raw) \<noteq> PermissionModeBypassAll"
  by (auto simp: enforcing_def the_policy_def the_request_def request_policy_def as_request_def Let_def
      DefaultPolicy_def)

lemma decision_simps [simp]:
  "dec_action (plain_decision a r s) = a" "dec_block (plain_decision a r s) = None"
  "AutoAllowed (plain_decision a r s) = False"
  "dec_action (auto_allowed r s) = ActionAllow" "AutoAllowed (auto_allowed r s) = True"
  "dec_action (grant_decision_allow r s g) = ActionAllow" "AutoAllowed (grant_decision_allow r s g) = False"
  "dec_action (deny q r c p s b) = ActionDeny" "AutoAllowed (deny q r c p s b) = False"
  "dec_action (promptPathBlock q r k) = ActionPrompt" "AutoAllowed (promptPathBlock q r k) = False"
  by (simp_all add: plain_decision_def auto_allowed_def grant_decision_allow_def deny_def promptPathBlock_def)

text \<open>An allow has passed every gate.\<close>

lemma evaluate_paths_allow:
  assumes "dec_action (evaluate_paths w e policy s request risk pa sa) = ActionAllow"
  shows "applyPatchPathBlock request = None"
    "\<exists>pb. path_loop request (validatePathWithPolicy (w_os w) s policy (req_side_effect request)
        (request_enforces_workspace policy request) (WorkspaceRoot request)) (requestPaths request) None = Inr pb"
    "network_gate policy request risk = None" "destructive_gate request risk = None"
    "escalation_gate request risk = None"
  using assms
  by (auto simp: evaluate_paths_def network_gate_def destructive_gate_def escalation_gate_def
      split: option.splits sum.splits if_splits)

lemma Evaluate_allow_enforced:
  assumes a: "dec_action (Evaluate w None (Some e) raw) = ActionAllow" and en: "enforcing e raw"
  obtains pa sa where
    "Evaluate w None (Some e) raw =
       evaluate_paths w e (the_policy e raw) (the_scope w e raw) (the_request e raw) (the_risk w e raw) pa sa"
    "req_permission (the_request e raw) \<noteq> PermissionDeny"
    "pa = store_match w e (ToolName (the_request e raw)) (request_scope (w_os w) (the_request e raw))"
    "\<forall>g. pa = Some g \<longrightarrow> grant_decision g \<noteq> GrantDeny"
  using a en
  by (auto simp: Evaluate_engine evaluate_enforced_def Let_def split: if_splits option.splits)

lemma Evaluate_allow_gates:
  assumes "dec_action (Evaluate w None (Some e) raw) = ActionAllow" "enforcing e raw"
  shows "network_gate (the_policy e raw) (the_request e raw) (the_risk w e raw) = None"
    "destructive_gate (the_request e raw) (the_risk w e raw) = None"
    "escalation_gate (the_request e raw) (the_risk w e raw) = None"
proof -
  obtain pa sa where ev: "Evaluate w None (Some e) raw =
      evaluate_paths w e (the_policy e raw) (the_scope w e raw) (the_request e raw) (the_risk w e raw) pa sa"
    using Evaluate_allow_enforced [OF assms] by blast
  then have "dec_action (evaluate_paths w e (the_policy e raw) (the_scope w e raw) (the_request e raw)
      (the_risk w e raw) pa sa) = ActionAllow" using assms(1) by simp
  then show "network_gate (the_policy e raw) (the_request e raw) (the_risk w e raw) = None"
    "destructive_gate (the_request e raw) (the_risk w e raw) = None"
    "escalation_gate (the_request e raw) (the_risk w e raw) = None"
    by (rule evaluate_paths_allow)+
qed

lemma the_request_simps [simp]:
  "PermissionGranted (the_request e raw) = raw_permission_granted raw"
  "Args (the_request e raw) = raw_args raw"
  "ToolName (the_request e raw) = raw_tool_name raw"
  "req_side_effect (the_request e raw) = NormalizeSideEffect (raw_side_effect raw)"
  "req_permission (the_request e raw) = NormalizePermission (raw_permission raw)"
  "req_mode (the_request e raw) = NormalizePermissionMode (raw_permission_mode raw)"
  by (simp_all add: the_request_def as_request_def)

text \<open>The path loop.\<close>

lemma path_loop_Inr:
  "path_loop request validate paths pb = Inr r \<Longrightarrow>
     \<forall>p \<in> set paths. case validate p of None \<Rightarrow> True | Some b \<Rightarrow> promptablePathBlock request b \<and> r \<noteq> None"
proof (induction paths arbitrary: pb)
  case (Cons p paths)
  have keep: "path_loop request validate ps (Some b) = Inr r \<Longrightarrow> r \<noteq> None" for ps b
    by (induction ps arbitrary: b) (auto split: option.splits if_splits)
  show ?case
  proof (cases "validate p")
    case None
    then show ?thesis using Cons by simp
  next
    case (Some b)
    then have "promptablePathBlock request b"
      "path_loop request validate paths (case pb of None \<Rightarrow> Some b | Some b \<Rightarrow> Some b) = Inr r"
      using Cons.prems by (simp_all split: if_splits)
    then show ?thesis using Some Cons.IH keep by (cases pb) auto
  qed
qed simp

lemma path_loop_Inl_not_allowed:
  assumes "p \<in> set (requestPaths request)"
    "validatePathWithPolicy (w_os w) s policy (req_side_effect request)
       (request_enforces_workspace policy request) (WorkspaceRoot request) p = Some b"
    "pb_code b \<noteq> BlockOutsideWorkspace"
  shows "dec_action (evaluate_paths w e policy s request risk pa sa) = ActionDeny"
proof -
  let ?v = "validatePathWithPolicy (w_os w) s policy (req_side_effect request)
      (request_enforces_workspace policy request) (WorkspaceRoot request)"
  have "path_loop request ?v (requestPaths request) None \<noteq> Inr r" for r
    using path_loop_Inr [of request ?v "requestPaths request" None r] assms
    by (fastforce simp: promptablePathBlock_def split: option.splits)
  then show ?thesis
    by (cases "path_loop request ?v (requestPaths request) None")
      (auto simp: evaluate_paths_def split: option.split)
qed

lemma hard_block_denies:
  assumes "enforcing e raw" "p \<in> set (requestPaths (the_request e raw))"
    "validatePathWithPolicy (w_os w) (the_scope w e raw) (the_policy e raw)
       (req_side_effect (the_request e raw)) (request_enforces_workspace (the_policy e raw) (the_request e raw))
       (WorkspaceRoot (the_request e raw)) p = Some b"
    "pb_code b \<noteq> BlockOutsideWorkspace"
  shows "dec_action (Evaluate w None (Some e) raw) = ActionDeny"
  using path_loop_Inl_not_allowed [OF assms(2,3,4)] assms(1)
  by (auto simp: Evaluate_engine evaluate_enforced_def Let_def split: option.split)

text \<open>Auto-allowed decisions.\<close>

lemma evaluate_paths_auto:
  assumes "AutoAllowed (evaluate_paths w e policy s request risk pa sa)"
  shows "pa = None" "sa = None"
    "path_loop request (validatePathWithPolicy (w_os w) s policy (req_side_effect request)
        (request_enforces_workspace policy request) (WorkspaceRoot request)) (requestPaths request) None = Inr None"
    "workspaceWriteAutoAllowed (w_os w) policy request s \<or>
      (req_side_effect request = SideEffectShell \<and> shellSandboxActive (w_windowsInitialized w) e policy)"
  using assms
  by (auto simp: evaluate_paths_def final_decision_def network_gate_def destructive_gate_def escalation_gate_def
      split: option.splits sum.splits if_splits)

lemma workspaceWrite_enforces:
  "workspaceWriteAutoAllowed os policy request s \<Longrightarrow> request_enforces_workspace policy request"
  by (auto simp: workspaceWriteAutoAllowed_def request_enforces_workspace_def isExplicitPermissionProfile_def
      Let_def split: if_splits PermissionMode.splits)

lemma auto_write_paths:
  assumes auto: "AutoAllowed (evaluate_paths w e policy s request risk pa sa)"
    and wr: "req_side_effect request = SideEffectWrite"
    and p: "p \<in> set (requestPaths request)"
  shows "validateWritePath (w_os w) s policy True (WorkspaceRoot request) p = None"
    "\<not> pathTouchesProtectedMetadata (w_os w) s p"
proof -
  have ww: "workspaceWriteAutoAllowed (w_os w) policy request s"
    using evaluate_paths_auto(4) [OF auto] wr by simp
  then have en: "request_enforces_workspace policy request" "WorkspaceRoot request \<noteq> []"
    using workspaceWrite_enforces by (auto simp: workspaceWriteAutoAllowed_def split: if_splits)
  have "validatePathWithPolicy (w_os w) s policy SideEffectWrite True (WorkspaceRoot request) p = None"
    using path_loop_Inr [OF evaluate_paths_auto(3) [OF auto]] p wr en(1) by (auto split: option.splits)
  then show "validateWritePath (w_os w) s policy True (WorkspaceRoot request) p = None"
    using en(2) by (simp add: validatePathWithPolicy_def)
  show "\<not> pathTouchesProtectedMetadata (w_os w) s p"
    using ww p by (auto simp: workspaceWriteAutoAllowed_def requestPathsTouchProtectedMetadata_def
        list_ex_iff split: if_splits)
qed

section \<open>Granting permissions and taking them back\<close>

definition cleanups_of :: "string \<times> cleanup list + cleanup list \<Rightarrow> cleanup list" where
  "cleanups_of r = (case r of Inl (_, cs) \<Rightarrow> cs | Inr cs \<Rightarrow> cs)"

lemma cleanups_of_simps [simp]: "cleanups_of (Inl (e, cs)) = cs" "cleanups_of (Inr cs) = cs"
  by (simp_all add: cleanups_of_def)

text \<open>An operation of the scope that hands out an undo: running it right away restores the scope.\<close>

locale undoable =
  fixes addTemp :: "string \<Rightarrow> SandboxScope \<Rightarrow> string + string \<times> undo \<times> SandboxScope"
  assumes undo: "addTemp p s = Inr (r, u, s') \<Longrightarrow> run_undo u s' = s"
begin

lemma grant_roots_undo:
  assumes "scope \<noteq> GrantScopeSession"
  shows "\<exists>us. cleanups_of (fst (grant_roots os what add addTemp scope paths cs s)) = cs @ List.map Scope_Undo us \<and>
     foldr run_undo us (snd (grant_roots os what add addTemp scope paths cs s)) = s"
proof (induction paths arbitrary: cs s)
  case Nil
  then show ?case by (intro exI [of _ "[]"]) simp
next
  case (Cons p paths)
  show ?case
  proof (cases "addTemp (permissionRoot os p) s")
    case (Inl e)
    then show ?thesis using assms by (intro exI [of _ "[]"]) simp
  next
    case (Inr v)
    obtain r u s1 where v: "v = (r, u, s1)" by (cases v)
    have restored: "run_undo u s1 = s" using undo Inr v by simp
    let ?g = "grant_roots os what add addTemp scope paths (cs @ [Scope_Undo u]) s1"
    obtain us where "cleanups_of (fst ?g) = (cs @ [Scope_Undo u]) @ List.map Scope_Undo us"
      "foldr run_undo us (snd ?g) = s1"
      using Cons.IH by blast
    moreover have "grant_roots os what add addTemp scope (p # paths) cs s = ?g"
      using assms Inr v by simp
    ultimately show ?thesis using restored by (intro exI [of _ "u # us"]) simp
  qed
qed

end

interpretation temporary_read: undoable "Scope_AddTemporaryRead os"
  by unfold_locales (rule temporary_read_undo)

interpretation temporary_write: undoable "Scope_AddTemporaryWrite os"
  by unfold_locales (rule temporary_write_undo)

lemma run_cleanups_scope:
  "run_cleanups (List.map Scope_Undo us) e = e\<lparr>eng_scope := map_option (foldr run_undo us) (eng_scope e)\<rparr>"
proof (induction us)
  case Nil
  then show ?case by (simp add: run_cleanups_def option.map_ident)
next
  case (Cons u us)
  then show ?case by (simp add: run_cleanups_def option.map_comp comp_def)
qed

lemma run_cleanups_append: "run_cleanups (as @ bs) e = run_cleanups as (run_cleanups bs e)"
  by (simp add: run_cleanups_def)

text \<open>The scope part of a turn grant, undone.\<close>

lemma grant_scope_roots_undo:
  assumes "scope \<noteq> GrantScopeSession"
  shows "\<exists>us s'. cleanups_of (fst (grant_scope_roots os scope profile e)) = List.map Scope_Undo us \<and>
    snd (grant_scope_roots os scope profile e) = e\<lparr>eng_scope := s'\<rparr> \<and>
    map_option (foldr run_undo us) s' = eng_scope e"
proof (cases "eng_scope e = None \<or> rpp_fileSystem profile = None")
  case True
  then show ?thesis
    by (intro exI [of _ "[]"] exI [of _ "eng_scope e"])
      (auto simp: grant_scope_roots_def option.map_ident split: option.split)
next
  case False
  then obtain s fs where s: "eng_scope e = Some s" and fs: "rpp_fileSystem profile = Some fs" by auto
  define g1 where "g1 = grant_roots os ''read'' (Scope_AddRead os) (Scope_AddTemporaryRead os) scope (fs_read fs) [] s"
  obtain us where us: "cleanups_of (fst g1) = List.map Scope_Undo us" "foldr run_undo us (snd g1) = s"
    using temporary_read.grant_roots_undo [OF assms, where paths = "fs_read fs" and cs = "[]" and s = s]
    unfolding g1_def append_Nil by blast
  show ?thesis
  proof (cases "fst g1")
    case (Inl v)
    then have "grant_scope_roots os scope profile e = (Inl v, e\<lparr>eng_scope := Some (snd g1)\<rparr>)"
      using s fs by (cases g1) (simp add: grant_scope_roots_def g1_def [symmetric])
    then show ?thesis using us s Inl by (intro exI [of _ us] exI [of _ "Some (snd g1)"]) simp
  next
    case (Inr cs1)
    then have cs1: "cs1 = List.map Scope_Undo us" using us(1) by simp
    define g2 where "g2 = grant_roots os ''write'' (Scope_Add os) (Scope_AddTemporaryWrite os) scope (fs_write fs)
      cs1 (snd g1)"
    obtain vs where vs: "cleanups_of (fst g2) = cs1 @ List.map Scope_Undo vs" "foldr run_undo vs (snd g2) = snd g1"
      using temporary_write.grant_roots_undo [OF assms, where paths = "fs_write fs" and cs = cs1 and s = "snd g1"]
      unfolding g2_def by blast
    have "grant_scope_roots os scope profile e = (fst g2, e\<lparr>eng_scope := Some (snd g2)\<rparr>)"
    proof -
      obtain t where g1: "g1 = (Inr cs1, t)" using Inr by (cases g1) simp
      have "grant_roots os ''write'' (Scope_Add os) (Scope_AddTemporaryWrite os) scope (fs_write fs) cs1 t = g2"
        by (simp add: g2_def g1)
      then show ?thesis using s fs g1_def [symmetric] g1
        by (cases g2) (simp add: grant_scope_roots_def split: sum.split)
    qed
    then show ?thesis using us vs cs1 s
      by (intro exI [of _ "us @ vs"] exI [of _ "Some (snd g2)"]) simp
  qed
qed

definition engine_inv :: "Engine \<Rightarrow> bool" where
  "engine_inv e \<longleftrightarrow> profileSet_inv (eng_sessionProfiles e) \<and> profileSet_inv (eng_turnProfiles e)"

text \<open>
  A turn grant followed by its cleanup leaves the engine as it was, but for the counter that
  names the next profile; a failed grant for a turn changes nothing at all.
\<close>

lemma turn_grant_cleanup_state:
  assumes inv: "engine_inv e"
    and g: "GrantRequestPermissions os profile GrantScopeTurn (Some e) = (Inr cs, Some e')"
  shows "engine_inv e' \<and> (\<exists>ps. run_cleanups cs e' = e\<lparr>eng_turnProfiles := ps\<rparr>
    \<and> profiles ps = profiles (eng_turnProfiles e))"
proof -
  obtain us s' where u: "cleanups_of (fst (grant_scope_roots os GrantScopeTurn profile e)) = List.map Scope_Undo us"
    "snd (grant_scope_roots os GrantScopeTurn profile e) = e\<lparr>eng_scope := s'\<rparr>"
    "map_option (foldr run_undo us) s' = eng_scope e"
    using grant_scope_roots_undo [of GrantScopeTurn os profile e] by auto
  obtain cs1 where s: "grant_scope_roots os GrantScopeTurn profile e = (Inr cs1, e\<lparr>eng_scope := s'\<rparr>)"
    using g u(2) by (auto simp: GrantRequestPermissions_def Let_def split: prod.splits sum.splits)
  obtain i ps where p: "profileSet_add (eng_turnProfiles e) profile = (i, ps)" by fastforce
  have r: "cs = List.map Scope_Undo us @ [Remove_Turn_Profile i]"
    "e' = e\<lparr>eng_scope := s', eng_turnProfiles := ps\<rparr>"
    using g s p u(1) by (auto simp: GrantRequestPermissions_def Let_def)
  let ?ps = "profileSet_delete i ps"
  have "run_cleanups cs e' = run_cleanups (List.map Scope_Undo us) (e\<lparr>eng_scope := s', eng_turnProfiles := ?ps\<rparr>)"
    unfolding r run_cleanups_append by (simp add: run_cleanups_def)
  also have "\<dots> = e\<lparr>eng_turnProfiles := ?ps\<rparr>"
    unfolding run_cleanups_scope using u(3) by simp
  finally have e: "run_cleanups cs e' = e\<lparr>eng_turnProfiles := ?ps\<rparr>" .
  have "profiles ?ps = profiles (eng_turnProfiles e)"
    using inv p by (intro profileSet_add_delete) (simp add: engine_inv_def)
  moreover have "engine_inv e'"
    using inv p by (auto simp: r engine_inv_def dest: profileSet_add_inv [of _ profile])
  ultimately show ?thesis using e by blast
qed

lemma turn_grant_cleanup:
  assumes "engine_inv e"
    and "GrantRequestPermissions os profile GrantScopeTurn (Some e) = (Inr cs, Some e')"
  shows "(run_cleanups cs e')\<lparr>eng_turnProfiles := eng_turnProfiles e\<rparr> = e \<and>
    effectivePolicy (run_cleanups cs e') = effectivePolicy e"
  using turn_grant_cleanup_state [OF assms]
  by (auto simp: effectivePolicy_def profileSet_list_def)

lemma failed_turn_grant:
  assumes "GrantRequestPermissions os profile scope (Some e) = (Inl err, e')" "scope \<noteq> GrantScopeSession"
  shows "e' = Some e"
proof -
  let ?scope = "if scope = GrantScopeOther [] then GrantScopeTurn else scope"
  have ne: "?scope \<noteq> GrantScopeSession" using assms(2) by simp
  obtain us s' where u: "cleanups_of (fst (grant_scope_roots os ?scope profile e)) = List.map Scope_Undo us"
    "snd (grant_scope_roots os ?scope profile e) = e\<lparr>eng_scope := s'\<rparr>"
    "map_option (foldr run_undo us) s' = eng_scope e"
    using grant_scope_roots_undo [OF ne, of os profile e] by auto
  have restored: "run_cleanups (List.map Scope_Undo us) (e\<lparr>eng_scope := s'\<rparr>) = e"
    unfolding run_cleanups_scope using u(3) by simp
  obtain r where s: "grant_scope_roots os ?scope profile e = (r, e\<lparr>eng_scope := s'\<rparr>)"
    using u(2) by (metis prod.collapse)
  have cs: "cleanups_of r = List.map Scope_Undo us" using s u(1) by simp
  show ?thesis
  proof (cases r)
    case (Inl v)
    obtain err' cs' where "v = (err', cs')" by (cases v)
    then show ?thesis using assms(1) s cs restored Inl by (simp add: GrantRequestPermissions_def Let_def)
  next
    case (Inr cs')
    then show ?thesis using assms(1) s cs restored ne
      by (cases ?scope) (auto simp: GrantRequestPermissions_def Let_def split: prod.splits)
  qed
qed

text \<open>
  A session grant that fails half-way keeps the roots it had already added: the second path
  does not resolve, yet the first one stays writable.
\<close>

definition half_os :: os where
  "half_os = \<lparr>files = fs_of [(''/w'', Directory), (''/a'', Directory), (''/b'', Directory)],
     cwd = ''/w'', home = None, env = (\<lambda>_. [])\<rparr>"

definition half_profile :: RequestPermissionProfile where
  "half_profile = \<lparr>rpp_network = None,
     rpp_fileSystem = Some (no_permissions\<lparr>fs_write := [''/a'', ''/missing/b/c'']\<rparr>)\<rparr>"

definition half_engine :: Engine where
  "half_engine = NewEngine half_os ''/w'' DefaultPolicy None
     \<lparr>be_available = False, be_platform = [], be_commandWrapping = False, be_nativeIsolation = False,
      be_executable = []\<rparr> (Some \<lparr>workspaceRoot = ''/w'', readRoots = [], extraRoots = []\<rparr>)"

lemma failed_session_grant_keeps_roots:
  "isl (fst (GrantRequestPermissions half_os half_profile GrantScopeSession (Some half_engine))) \<and>
   map_option (\<lambda>e. map_option extraRoots (eng_scope e))
     (snd (GrantRequestPermissions half_os half_profile GrantScopeSession (Some half_engine)))
     = Some (Some [''/a''])"
  by code_simp

end
