(* ===== verification/Command_Approval.thy ===== *)
theory Command_Approval
  imports Engine
begin

text \<open>
  The approval of shell commands by prefix: \<open>internal/agent/command_prefix.go\<close>.  A command is cut
  into the simple commands (segs) of its syntax tree; it runs without a prompt when each
  segment has an approved prefix or is known to be read-only.  The shell parser is not part of
  the repository: it is the parameter \<open>parse\<close>, which gives the statements of a script, or \<open>None\<close>
  for a script it rejects.  Of the tree the code reads the flags and the number of redirections
  of a statement, the operator of a binary command, and the assignments and the words of a call.
\<close>

section \<open>The tree of a script\<close>

datatype binary_op = AndStmt | OrStmt | Pipe | PipeAll

datatype shell_stmt =
  Stmt (Negated: bool) (Background: bool) (Coprocess: bool) (Disown: bool) (Redirs: nat) shell_command
and shell_command =
  CallExpr nat "shell_word list"
| BinaryCmd binary_op shell_stmt shell_stmt
| OtherCommand

type_synonym stmt_parser = "string \<Rightarrow> shell_stmt list option"

definition literalCallTokens :: "nat \<Rightarrow> shell_word list \<Rightarrow> string list option" where
  "literalCallTokens assigns args =
     (if assigns > 0 \<or> args = [] then None
      else those (List.map (\<lambda>word. case word of
             [Lit s] \<Rightarrow> if containsAny s ''*?[]{}'' then None else Some s
           | _ \<Rightarrow> None) args))"

fun collectSafeShellStatement :: "shell_stmt \<Rightarrow> string list list \<Rightarrow> string list list option"
and collectSafeShellCommand :: "shell_command \<Rightarrow> string list list \<Rightarrow> string list list option" where
  "collectSafeShellStatement (Stmt neg background coproc disown redirs cmd) segs =
     (if neg \<or> background \<or> coproc \<or> disown \<or> redirs > 0 then None
      else collectSafeShellCommand cmd segs)"
| "collectSafeShellCommand (CallExpr assigns args) segs =
     (case literalCallTokens assigns args of
        None \<Rightarrow> None
      | Some tokens \<Rightarrow> Some (segs @ [tokens]))"
| "collectSafeShellCommand (BinaryCmd binop x y) segs =
     (if binop \<notin> {AndStmt, OrStmt, Pipe} then None
      else (case collectSafeShellStatement x segs of
              None \<Rightarrow> None
            | Some segs \<Rightarrow> collectSafeShellStatement y segs))"
| "collectSafeShellCommand OtherCommand segs = None"

fun collect_all :: "shell_stmt list \<Rightarrow> string list list \<Rightarrow> string list list option" where
  "collect_all [] segs = Some segs"
| "collect_all (stmt # stmts) segs =
     (case collectSafeShellStatement stmt segs of
        None \<Rightarrow> None
      | Some segs \<Rightarrow> collect_all stmts segs)"

definition safeShellCommandSegments :: "stmt_parser \<Rightarrow> string \<Rightarrow> string list list option" where
  "safeShellCommandSegments parse command =
     (let command = trim_space command
      in if command = [] then None
         else (case parse command of
                 None \<Rightarrow> None
               | Some stmts \<Rightarrow>
                   if stmts = [] then None
                   else (case collect_all stmts [] of
                           None \<Rightarrow> None
                         | Some segs \<Rightarrow> if segs = [] then None else Some segs)))"

section \<open>Commands known to be read-only\<close>

definition command_base :: "string \<Rightarrow> string" where
  "command_base name = rev (takeWhile (\<lambda>c. c \<notin> {CHR ''/'', backslash}) (rev name))"

definition approval_name :: "string \<Rightarrow> string" where
  "approval_name raw =
     (let name = to_lower (command_base (trim_space raw))
      in case find (has_suffix name) [''.exe'', ''.cmd'', ''.bat'', ''.com''] of
           Some suffix \<Rightarrow> trim_suffix name suffix
         | None \<Rightarrow> name)"

definition MsysProneCommandName :: "string \<Rightarrow> bool" where
  "MsysProneCommandName name =
     (to_lower (trim_space name) \<in> set [
        ''cat'', ''cut'', ''expr'', ''grep'', ''head'', ''id'', ''ls'', ''nl'', ''paste'', ''rev'',
        ''seq'', ''stat'', ''tail'', ''tr'', ''uname'', ''uniq'', ''wc'', ''which'', ''awk'', ''sed'',
        ''xargs'', ''bash'', ''sh''])"

definition safeBase64Command :: "string list \<Rightarrow> bool" where
  "safeBase64Command args = (\<not> list_ex (\<lambda>arg.
     arg = ''-o'' \<or> arg = ''--output'' \<or> has_prefix arg ''--output='' \<or> has_prefix arg ''-o'' \<and> arg \<noteq> ''-o'') args)"

definition safeFindCommand :: "string list \<Rightarrow> bool" where
  "safeFindCommand args = (\<not> list_ex (\<lambda>arg. arg \<in> set [
     ''-exec'', ''-execdir'', ''-ok'', ''-okdir'', ''-delete'', ''-fls'', ''-fprint'', ''-fprint0'', ''-fprintf'']) args)"

definition safeRipgrepCommand :: "string list \<Rightarrow> bool" where
  "safeRipgrepCommand args = (\<not> list_ex (\<lambda>arg.
     arg \<in> set [''--search-zip'', ''-z'', ''--pre'', ''--hostname-bin'']
     \<or> has_prefix arg ''--pre='' \<or> has_prefix arg ''--hostname-bin='') args)"

definition validSedPrintArg :: "string \<Rightarrow> bool" where
  "validSedPrintArg arg =
     (if \<not> has_suffix arg ''p'' then False
      else (let body = trim_suffix arg ''p''
            in if body = [] then False
               else list_all (\<lambda>part. part \<noteq> [] \<and> list_all is_digit part) (split_on (CHR '','') body)))"

definition safeSedCommand :: "string list \<Rightarrow> bool" where
  "safeSedCommand args =
     (if length args < 2 \<or> length args > 3 \<or> args ! 0 \<noteq> ''-n'' then False
      else validSedPrintArg (args ! 1))"

definition gitOptionConsumesValue :: "string \<Rightarrow> bool" where
  "gitOptionConsumesValue arg = (arg \<in> set [
     ''-C'', ''-c'', ''--config-env'', ''--exec-path'', ''--git-dir'', ''--namespace'', ''--super-prefix'', ''--work-tree''])"

definition gitOptionHasInlineValue :: "string \<Rightarrow> bool" where
  "gitOptionHasInlineValue arg =
     (list_ex (has_prefix arg) [''--config-env='', ''--exec-path='', ''--git-dir='', ''--namespace='',
        ''--super-prefix='', ''--work-tree='']
      \<or> (has_prefix arg ''-C'' \<or> has_prefix arg ''-c'') \<and> length arg > 2)"

text \<open>
  \<open>gitSubcommand\<close> on the arguments after the program: the index of the subcommand in the whole
  command (the program is at 0) and its name.
\<close>

fun git_scan :: "string list \<Rightarrow> nat \<Rightarrow> (nat \<times> string) option" where
  "git_scan [] index = None"
| "git_scan (arg # args) index =
     (if gitOptionConsumesValue arg then git_scan (drop 1 args) (index + 2)
      else if gitOptionHasInlineValue arg \<or> arg = ''--'' \<or> has_prefix arg ''-'' then git_scan args (index + 1)
      else if arg \<in> set [''status'', ''log'', ''diff'', ''show'', ''branch''] then Some (index, arg)
      else None)"

definition gitSubcommand :: "string list \<Rightarrow> (nat \<times> string) option" where
  "gitSubcommand command = git_scan (drop 1 command) 1"

fun gitHasUnsafeGlobalOption :: "string list \<Rightarrow> bool" where
  "gitHasUnsafeGlobalOption [] = False"
| "gitHasUnsafeGlobalOption (arg # args) =
     (if has_prefix arg ''--upload-pack'' then True
      else if arg = ''-C'' \<or> has_prefix arg ''-C'' then True
      else if gitOptionConsumesValue arg then gitHasUnsafeGlobalOption (drop 1 args)
      else gitHasUnsafeGlobalOption args)"

definition gitArgsReadOnly :: "string list \<Rightarrow> bool" where
  "gitArgsReadOnly args = (\<not> list_ex (\<lambda>arg.
     has_prefix arg ''--output='' \<or> has_prefix arg ''--exec='' \<or> arg = ''--output'' \<or> arg = ''--exec'') args)"

definition gitBranchReadOnly :: "string list \<Rightarrow> bool" where
  "gitBranchReadOnly args = list_all (\<lambda>arg.
     has_prefix arg ''--format=''
     \<or> arg \<in> set [''--list'', ''-l'', ''--show-current'', ''-a'', ''--all'', ''-r'', ''--remotes'', ''-v'', ''-vv'', ''--verbose'']) args"

definition safeGitCommand :: "string list \<Rightarrow> bool" where
  "safeGitCommand command =
     (case gitSubcommand command of
        None \<Rightarrow> False
      | Some (subIndex, subcommand) \<Rightarrow>
          if gitHasUnsafeGlobalOption (drop 1 (take subIndex command)) then False
          else (let args = drop (subIndex + 1) command
                in if subcommand \<in> set [''status'', ''log'', ''diff'', ''show''] then gitArgsReadOnly args
                   else if subcommand = ''branch'' then gitArgsReadOnly args \<and> gitBranchReadOnly args
                   else False))"

definition readOnlyPrograms :: "string list" where
  "readOnlyPrograms = [''cat'', ''cd'', ''cut'', ''echo'', ''expr'', ''false'', ''grep'', ''head'', ''id'',
     ''ls'', ''nl'', ''paste'', ''pwd'', ''rev'', ''seq'', ''stat'', ''tail'', ''tr'',
     ''true'', ''uname'', ''uniq'', ''wc'', ''which'', ''whoami'']"

text \<open>\<open>windows\<close> is \<open>runtime.GOOS == "windows"\<close>.\<close>

definition knownSafeCommandSegment :: "bool \<Rightarrow> string list \<Rightarrow> bool" where
  "knownSafeCommandSegment windows command =
     (case command of
        [] \<Rightarrow> False
      | program # args \<Rightarrow>
          (let name = approval_name program
           in if windows \<and> MsysProneCommandName name then False
              else if name \<in> set readOnlyPrograms then True
              else if name = ''base64'' then safeBase64Command args
              else if name = ''find'' then safeFindCommand args
              else if name = ''rg'' then safeRipgrepCommand args
              else if name = ''sed'' then safeSedCommand args
              else if name = ''git'' then safeGitCommand command
              else False))"

section \<open>Proposing and matching a prefix\<close>

definition isShellCommandTool :: "string \<Rightarrow> bool" where
  "isShellCommandTool toolName = (toolName = ''bash'' \<or> toolName = ''exec_command'')"

fun firstStringArg :: "args \<Rightarrow> string list \<Rightarrow> string option" where
  "firstStringArg as [] = None"
| "firstStringArg as (name # names) =
     (case as name of
        Some (ArgString raw) \<Rightarrow>
          (let value = trim_space raw in if value \<noteq> [] then Some value else firstStringArg as names)
      | _ \<Rightarrow> firstStringArg as names)"

definition shell_command_keys :: "string list" where
  "shell_command_keys = [''command'', ''cmd'', ''script'', ''shell'']"

text \<open>
  The argument \<open>prefix_rule\<close> keeps its type here: a \<open>[]string\<close>, a \<open>[]any\<close> whose items are strings
  or not, or another value.
\<close>

datatype prefix_rule = Rule_Strings "string list" | Rule_Any "string option list" | Rule_Other

definition cleanPrefixRule :: "string list \<Rightarrow> string list" where
  "cleanPrefixRule prefix =
     (let cleaned = List.map trim_space prefix
      in if list_ex (\<lambda>p. p = []) cleaned then [] else cleaned)"

definition requestedPrefixRule :: "prefix_rule option \<Rightarrow> string list option" where
  "requestedPrefixRule rule =
     (case rule of
        None \<Rightarrow> None
      | Some (Rule_Strings value) \<Rightarrow> Some (cleanPrefixRule value)
      | Some (Rule_Any value) \<Rightarrow>
          (case those value of None \<Rightarrow> Some [] | Some parts \<Rightarrow> Some (cleanPrefixRule parts))
      | Some Rule_Other \<Rightarrow> Some [])"

fun requested_loop :: "bool \<Rightarrow> string list \<Rightarrow> string list list \<Rightarrow> bool \<Rightarrow> bool" where
  "requested_loop windows prefix [] matched = matched"
| "requested_loop windows prefix (command # segs) matched =
     (if length prefix > length command then
        if knownSafeCommandSegment windows command then requested_loop windows prefix segs matched
        else False
      else if hasStringPrefix command prefix then requested_loop windows prefix segs True
      else if knownSafeCommandSegment windows command then requested_loop windows prefix segs matched
      else False)"

definition safeRequestedPrefixForSegments :: "bool \<Rightarrow> string list \<Rightarrow> string list list \<Rightarrow> bool" where
  "safeRequestedPrefixForSegments windows prefix segs =
     (if prefix = [] \<or> \<not> ValidCommandPrefix prefix then False
      else requested_loop windows prefix segs False)"

definition otherSegmentsKnownSafe :: "bool \<Rightarrow> string list list \<Rightarrow> nat \<Rightarrow> bool" where
  "otherSegmentsKnownSafe windows segs skip =
     list_all (\<lambda>(index, tokens). index = skip \<or> knownSafeCommandSegment windows tokens)
       (zip [0..<length segs] segs)"

text \<open>The loop of \<open>proposedCommandPrefix\<close> over the segs from \<open>index\<close> on; \<open>None\<close> falls out of it.\<close>

fun proposed_loop :: "bool \<Rightarrow> string list list \<Rightarrow> nat \<Rightarrow> string list list \<Rightarrow> string list option" where
  "proposed_loop windows segs index [] = None"
| "proposed_loop windows segs index (tokens # rest) =
     (if knownSafeCommandSegment windows tokens then proposed_loop windows segs (index + 1) rest
      else if \<not> ValidCommandPrefix tokens \<or> \<not> otherSegmentsKnownSafe windows segs index then Some []
      else Some tokens)"

text \<open>A \<open>nil\<close> proposal is the empty list.\<close>

definition proposedCommandPrefix ::
    "bool \<Rightarrow> stmt_parser \<Rightarrow> string \<Rightarrow> args \<Rightarrow> prefix_rule option \<Rightarrow> string list" where
  "proposedCommandPrefix windows parse toolName as rule =
     (if \<not> isShellCommandTool toolName then []
      else (case firstStringArg as shell_command_keys of
        None \<Rightarrow> []
      | Some command \<Rightarrow>
          (case safeShellCommandSegments parse command of
             None \<Rightarrow> []
           | Some segs \<Rightarrow>
               (case requestedPrefixRule rule of
                  Some requested \<Rightarrow>
                    if safeRequestedPrefixForSegments windows requested segs then requested else []
                | None \<Rightarrow>
                    (case proposed_loop windows segs 0 segs of
                       Some p \<Rightarrow> p
                     | None \<Rightarrow>
                         if segs = [] \<or> \<not> ValidCommandPrefix (segs ! 0) then []
                         else segs ! 0)))))"

definition shellCommandAdditionalPermissionsRequested :: "args \<Rightarrow> bool" where
  "shellCommandAdditionalPermissionsRequested as =
     (case as ''sandbox_permissions'' of
        None \<Rightarrow> False
      | Some ArgNil \<Rightarrow> False
      | Some (ArgString value) \<Rightarrow> trim_space value = ''with_additional_permissions''
      | Some (ArgOther value) \<Rightarrow> trim_space value = ''with_additional_permissions'')"

definition shellCommandRequiresEscalated :: "args \<Rightarrow> bool" where
  "shellCommandRequiresEscalated as =
     (case as ''sandbox_permissions'' of
        None \<Rightarrow> False
      | Some ArgNil \<Rightarrow> False
      | Some (ArgString value) \<Rightarrow> trim_space value = ''require_escalated''
      | Some (ArgOther value) \<Rightarrow> trim_space value = ''require_escalated'')"

text \<open>The state of the loop of \<open>matchCommandPrefix\<close>: the first grant, if any, and the session flag.\<close>

fun match_loop ::
    "world \<Rightarrow> bool \<Rightarrow> Engine option \<Rightarrow> string \<Rightarrow> string list list
      \<Rightarrow> CommandPrefixGrant option \<times> bool \<Rightarrow> (CommandPrefixGrant option \<times> bool) option" where
  "match_loop w windows engine toolName [] st = Some st"
| "match_loop w windows engine toolName (tokens # segs) (matched, session) =
     (case Engine_LookupCommandPrefix w engine toolName tokens of
        Some grant \<Rightarrow>
          match_loop w windows engine toolName segs
            (if matched = None then Some grant else matched, session)
      | None \<Rightarrow>
          (case Engine_LookupCommandPrefixForSession engine toolName tokens of
             Some grant \<Rightarrow>
               match_loop w windows engine toolName segs
                 (if matched = None then Some grant else matched, True)
           | None \<Rightarrow>
               if knownSafeCommandSegment windows tokens
               then match_loop w windows engine toolName segs (matched, session)
               else None))"

text \<open>\<open>Some (grant, session)\<close> for a match, \<open>None\<close> otherwise.\<close>

definition matchCommandPrefix ::
    "world \<Rightarrow> bool \<Rightarrow> stmt_parser \<Rightarrow> string \<Rightarrow> args \<Rightarrow> Engine option \<Rightarrow> (CommandPrefixGrant \<times> bool) option" where
  "matchCommandPrefix w windows parse toolName as engine =
     (if \<not> isShellCommandTool toolName \<or> engine = None then None
      else if shellCommandAdditionalPermissionsRequested as then None
      else (case firstStringArg as shell_command_keys of
        None \<Rightarrow> None
      | Some command \<Rightarrow>
          (case safeShellCommandSegments parse command of
             None \<Rightarrow> None
           | Some segs \<Rightarrow>
               (case match_loop w windows engine toolName segs (None, False) of
                  None \<Rightarrow> None
                | Some (None, session) \<Rightarrow> None
                | Some (Some grant, session) \<Rightarrow> Some (grant, session)))))"

section \<open>The arguments a shell call runs with\<close>

datatype PermissionDecisionAction =
  DecisionAllow | DecisionAllowStrict | DecisionAllowForSession | DecisionAllowPrefix
| DecisionAlwaysAllowPrefix | DecisionDeny | DecisionAlwaysAllow | DecisionCancel | DecisionOther string

definition shellPrefixApprovalBypassesSandbox :: "PermissionDecisionAction \<Rightarrow> bool" where
  "shellPrefixApprovalBypassesSandbox action =
     (action = DecisionAllowPrefix \<or> action = DecisionAlwaysAllowPrefix)"

definition shellExecutionArgsForApproval ::
    "os \<Rightarrow> string \<Rightarrow> args \<Rightarrow> PermissionDecisionAction \<Rightarrow> Engine option \<Rightarrow> args" where
  "shellExecutionArgsForApproval os toolName as action engine =
     (if \<not> isShellCommandTool toolName \<or> \<not> shellPrefixApprovalBypassesSandbox action then as
      else if engine = None \<or> \<not> UnsandboxedExecutionAllowed os engine then as
      else if shellCommandAdditionalPermissionsRequested as \<or> shellCommandRequiresEscalated as then as
      else as(''sandbox_permissions'' \<mapsto> ArgString ''require_escalated''))"

section \<open>The segments of a plain script\<close>

text \<open>The simple commands of a tree in source order, and the trees made of plain ones only.\<close>

fun stmt_calls :: "shell_stmt \<Rightarrow> (nat \<times> shell_word list) list"
and command_calls :: "shell_command \<Rightarrow> (nat \<times> shell_word list) list" where
  "stmt_calls (Stmt n b c d r cmd) = command_calls cmd"
| "command_calls (CallExpr assigns args) = [(assigns, args)]"
| "command_calls (BinaryCmd binop x y) = stmt_calls x @ stmt_calls y"
| "command_calls OtherCommand = []"

fun plain_stmt :: "shell_stmt \<Rightarrow> bool" and plain_command :: "shell_command \<Rightarrow> bool" where
  "plain_stmt (Stmt n b c d r cmd) = (\<not> n \<and> \<not> b \<and> \<not> c \<and> \<not> d \<and> r = 0 \<and> plain_command cmd)"
| "plain_command (CallExpr assigns args) = True"
| "plain_command (BinaryCmd binop x y) = (binop \<noteq> PipeAll \<and> plain_stmt x \<and> plain_stmt y)"
| "plain_command OtherCommand = False"

abbreviation call_tokens_of :: "(nat \<times> shell_word list) list \<Rightarrow> string list list option" where
  "call_tokens_of calls \<equiv> those (List.map (\<lambda>(assigns, args). literalCallTokens assigns args) calls)"

lemma prepend_option [simp]:
  "map_option ((@) a) (map_option ((@) b) x) = map_option ((@) (a @ b)) x"
  "map_option ((@) []) x = x" "map_option (\<lambda>y. c # a @ y) x = map_option ((@) (c # a)) x"
  by (cases x; simp)+

lemma those_append: "those (xs @ ys) =
    (case those xs of None \<Rightarrow> None | Some a \<Rightarrow> map_option (\<lambda>b. a @ b) (those ys))"
  by (induction xs) (auto split: option.splits simp: option.map_comp o_def)

lemma collect_spec:
  "collectSafeShellStatement s segs =
     (if plain_stmt s then map_option (\<lambda>ts. segs @ ts) (call_tokens_of (stmt_calls s)) else None)"
  "collectSafeShellCommand c segs =
     (if plain_command c then map_option (\<lambda>ts. segs @ ts) (call_tokens_of (command_calls c)) else None)"
proof (induction s segs and c segs rule: collectSafeShellStatement_collectSafeShellCommand.induct)
  case (3 binop x y segs)
  then show ?case
    by (cases binop) (auto simp: those_append split: option.splits)
qed (auto split: option.splits)

lemma collect_all_spec:
  "collect_all stmts segs =
     (if list_all plain_stmt stmts
      then map_option (\<lambda>ts. segs @ ts) (call_tokens_of (List.concat (List.map stmt_calls stmts))) else None)"
  by (induction stmts arbitrary: segs) (auto simp: collect_spec those_append split: option.splits)

lemma plain_calls_nonempty:
  "plain_stmt s \<Longrightarrow> stmt_calls s \<noteq> []" "plain_command c \<Longrightarrow> command_calls c \<noteq> []"
  by (induction s and c) auto

lemma those_length: "those xs = Some ys \<Longrightarrow> length ys = length xs"
  by (induction xs arbitrary: ys) (auto split: option.splits)

lemma safeShellCommandSegments_iff:
  "safeShellCommandSegments parse command = Some segs \<longleftrightarrow>
     trim_space command \<noteq> [] \<and>
     (\<exists>stmts. parse (trim_space command) = Some stmts \<and> stmts \<noteq> [] \<and> list_all plain_stmt stmts \<and>
        call_tokens_of (List.concat (List.map stmt_calls stmts)) = Some segs)"
proof -
  have "ts \<noteq> []" if stmts: "stmts \<noteq> []" and "list_all plain_stmt stmts"
    "call_tokens_of (List.concat (List.map stmt_calls stmts)) = Some ts" for stmts ts
  proof -
    obtain s rest where "stmts = s # rest" using stmts by (cases stmts) auto
    with that(2) have "List.concat (List.map stmt_calls stmts) \<noteq> []"
      using plain_calls_nonempty(1) [of s] by auto
    with those_length [OF that(3)] show ?thesis by (metis length_0_conv length_map)
  qed
  then show ?thesis
    by (auto simp: safeShellCommandSegments_def Let_def collect_all_spec split: option.splits)
qed

lemma literalCallTokens_iff:
  "literalCallTokens assigns args = Some ts \<longleftrightarrow>
     assigns = 0 \<and> args \<noteq> [] \<and> args = List.map (\<lambda>t. [Lit t]) ts \<and> (\<forall>t \<in> set ts. \<not> containsAny t ''*?[]{}'')"
proof -
  have "those (List.map (\<lambda>word. case word of
             [Lit s] \<Rightarrow> if containsAny s ''*?[]{}'' then None else Some s | _ \<Rightarrow> None) args) = Some ts
     \<longleftrightarrow> args = List.map (\<lambda>t. [Lit t]) ts \<and> (\<forall>t \<in> set ts. \<not> containsAny t ''*?[]{}'')"
    by (induction args arbitrary: ts)
      (auto split: option.splits list.splits word_part.splits simp: Cons_eq_map_conv)
  then show ?thesis by (auto simp: literalCallTokens_def)
qed

section \<open>Matching\<close>

text \<open>The approval of one segment: the stored grants come before those of the session.\<close>

definition approval_of ::
    "world \<Rightarrow> Engine option \<Rightarrow> string \<Rightarrow> string list \<Rightarrow> (CommandPrefixGrant \<times> bool) option" where
  "approval_of w engine toolName tokens =
     (case Engine_LookupCommandPrefix w engine toolName tokens of
        Some g \<Rightarrow> Some (g, False)
      | None \<Rightarrow> map_option (\<lambda>g. (g, True)) (Engine_LookupCommandPrefixForSession engine toolName tokens))"

definition reviewed ::
    "world \<Rightarrow> bool \<Rightarrow> Engine option \<Rightarrow> string \<Rightarrow> string list \<Rightarrow> bool" where
  "reviewed w windows engine toolName tokens \<longleftrightarrow>
     approval_of w engine toolName tokens \<noteq> None \<or> knownSafeCommandSegment windows tokens"

abbreviation approvals ::
    "world \<Rightarrow> Engine option \<Rightarrow> string \<Rightarrow> string list list \<Rightarrow> (CommandPrefixGrant \<times> bool) list" where
  "approvals w engine toolName segs \<equiv> List.map_filter (approval_of w engine toolName) segs"

lemma match_loop_spec:
  "match_loop w windows engine toolName segs (m, s) =
     (if list_all (reviewed w windows engine toolName) segs
      then Some (if m \<noteq> None \<or> approvals w engine toolName segs = [] then m
                 else Some (fst (hd (approvals w engine toolName segs))),
                 s \<or> list_ex snd (approvals w engine toolName segs))
      else None)"
  by (induction segs arbitrary: m s)
    (auto simp: reviewed_def approval_of_def map_filter_simps split: option.splits)

lemma matchCommandPrefix_iff:
  "matchCommandPrefix w windows parse toolName as engine = Some (g, session) \<longleftrightarrow>
     isShellCommandTool toolName \<and> engine \<noteq> None \<and> \<not> shellCommandAdditionalPermissionsRequested as \<and>
     (\<exists>command segs. firstStringArg as shell_command_keys = Some command
        \<and> safeShellCommandSegments parse command = Some segs
        \<and> list_all (reviewed w windows engine toolName) segs
        \<and> (\<exists>rest. List.map fst (approvals w engine toolName segs) = g # rest)
        \<and> session = list_ex snd (approvals w engine toolName segs))"
  by (auto simp: matchCommandPrefix_def match_loop_spec split: option.splits if_splits;
      cases "approvals w engine toolName (the (safeShellCommandSegments parse
        (the (firstStringArg as shell_command_keys))))"; auto)

section \<open>Proposals\<close>

lemma requested_loop_spec:
  assumes "prefix \<noteq> []"
  shows "requested_loop windows prefix segs m \<longleftrightarrow>
     (m \<or> list_ex (\<lambda>c. hasStringPrefix c prefix) segs) \<and>
     list_all (\<lambda>c. hasStringPrefix c prefix \<or> knownSafeCommandSegment windows c) segs"
  using assms by (induction segs arbitrary: m) (auto simp: hasStringPrefix_def)

lemma otherSegmentsKnownSafe_iff:
  "otherSegmentsKnownSafe windows segs skip \<longleftrightarrow>
     (\<forall>i < length segs. i \<noteq> skip \<longrightarrow> knownSafeCommandSegment windows (segs ! i))"
  by (auto simp: otherSegmentsKnownSafe_def list_all_length)

lemma proposed_loop_Some:
  assumes "proposed_loop windows segs i rest = Some p" "p \<noteq> []" "rest = drop i segs"
  obtains j where "j < length segs" "p = segs ! j" "ValidCommandPrefix p" "otherSegmentsKnownSafe windows segs j"
proof -
  have "\<exists>j < length segs. p = segs ! j \<and> ValidCommandPrefix p \<and> otherSegmentsKnownSafe windows segs j"
    using assms
  proof (induction windows segs i rest rule: proposed_loop.induct)
    case (2 windows segs i tokens rest)
    from 2(4) have d: "rest = drop (i + 1) segs" "i < length segs" "segs ! i = tokens"
      by (metis drop_Suc Suc_eq_plus1 list.sel(3) tl_drop, metis drop_all leI list.distinct(1),
          metis hd_drop_conv_nth drop_all leI list.distinct(1) list.sel(1))
    with 2 show ?case by (auto split: if_splits)
  qed simp
  with that show thesis by blast
qed

lemma proposed_loop_None:
  "proposed_loop windows segs i rest = None \<Longrightarrow> list_all (knownSafeCommandSegment windows) rest"
  by (induction windows segs i rest rule: proposed_loop.induct) (auto split: if_splits)

text \<open>A proposal is a valid prefix of one segment, and the other segments have it too or are safe.\<close>

lemma proposedCommandPrefix_covers:
  assumes "proposedCommandPrefix windows parse toolName as rule = p" "p \<noteq> []"
  obtains command segs where
    "isShellCommandTool toolName" "firstStringArg as shell_command_keys = Some command"
    "safeShellCommandSegments parse command = Some segs" "ValidCommandPrefix p"
    "list_ex (\<lambda>c. hasStringPrefix c p) segs"
    "list_all (\<lambda>c. hasStringPrefix c p \<or> knownSafeCommandSegment windows c) segs"
proof -
  from assms obtain command segs where c: "isShellCommandTool toolName"
      "firstStringArg as shell_command_keys = Some command"
      "safeShellCommandSegments parse command = Some segs"
    by (auto simp: proposedCommandPrefix_def split: if_splits option.splits)
  have segment: "ValidCommandPrefix p \<and> list_ex (\<lambda>c. hasStringPrefix c p) segs
      \<and> list_all (\<lambda>c. hasStringPrefix c p \<or> knownSafeCommandSegment windows c) segs"
    if "j < length segs" "p = segs ! j" "ValidCommandPrefix p" "otherSegmentsKnownSafe windows segs j" for j
  proof -
    have "hasStringPrefix (segs ! j) p" using assms(2) that(2) by (simp add: hasStringPrefix_iff)
    with that show ?thesis
      by (auto simp: otherSegmentsKnownSafe_iff list_ex_length list_all_length)
  qed
  have "ValidCommandPrefix p \<and> list_ex (\<lambda>c. hasStringPrefix c p) segs
      \<and> list_all (\<lambda>c. hasStringPrefix c p \<or> knownSafeCommandSegment windows c) segs"
  proof (cases "requestedPrefixRule rule")
    case (Some requested)
    with c assms show ?thesis
      by (auto simp: proposedCommandPrefix_def safeRequestedPrefixForSegments_def requested_loop_spec
          split: if_splits)
  next
    case rule: None
    show ?thesis
    proof (cases "proposed_loop windows segs 0 segs")
      case (Some q)
      with c rule assms have "proposed_loop windows segs 0 segs = Some p"
        by (simp add: proposedCommandPrefix_def)
      from proposed_loop_Some [OF this assms(2)] segment show ?thesis by auto
    next
      case None
      then have "list_all (knownSafeCommandSegment windows) segs" by (rule proposed_loop_None)
      moreover from c rule assms None have "segs \<noteq> []" "p = segs ! 0" "ValidCommandPrefix p"
        by (auto simp: proposedCommandPrefix_def split: if_splits)
      ultimately show ?thesis using segment [of 0]
        by (simp add: otherSegmentsKnownSafe_iff list_all_length)
    qed
  qed
  with c that show thesis by blast
qed

lemma session_prefix_found:
  assumes "ValidCommandPrefix p" "List.map trim_space p = p" "toolName \<noteq> []" "hasStringPrefix tokens p"
  shows "Engine_LookupCommandPrefixForSession (Engine_GrantCommandPrefixForSession toolName p (Some e)) toolName tokens
    \<noteq> None"
proof -
  define g where "g = \<lparr>cp_tool = toolName, Prefix = p, cp_approvedAt = [], cp_reason = [], cp_session = True\<rparr>"
  have p: "NormalizeCommandPrefix p = Some p" "p \<noteq> []"
    using assms(1,2,4)
    by (auto simp: ValidCommandPrefix_def NormalizeCommandPrefix_Some hasStringPrefix_iff)
  have "tokens \<noteq> []" using assms(4) by (auto simp: hasStringPrefix_iff)
  moreover have "commandPrefixGrantSet_match (commandPrefixGrantSet_add (eng_commandPrefixes e) g) (toolName, tokens) \<noteq> None"
    using assms p by (intro prefix_session.match_after_add) (auto simp: g_def prefix_covers_def)
  ultimately show ?thesis
    using p by (simp add: Engine_LookupCommandPrefixForSession_def Engine_GrantCommandPrefixForSession_def g_def)
qed

end
