(* ===== verification/Shell_Tools.thy ===== *)
theory Shell_Tools
  imports Command_Approval
begin

text \<open>
  What the two shell tools run: the readers of their arguments (\<open>internal/tools/argtolerance.go\<close>,
  \<open>internal/tools/args.go\<close>) and the checks of \<open>bashTool.run\<close> (\<open>internal/tools/bash.go\<close>) and
  \<open>execCommandTool.run\<close> (\<open>internal/tools/exec_command.go\<close>) before a command is started, on a host
  that is not Windows (where \<open>detectShellCommandIssue\<close> finds nothing).  The result is the text
  given to the shell and the engine it is wrapped by, \<open>None\<close> for a command outside the sandbox.
  The numeric arguments are not interpreted: \<open>numeric\<close> is the error of reading them, if any.
\<close>

section \<open>Reading arguments\<close>

fun aliased_scan :: "args \<Rightarrow> string \<Rightarrow> bool \<Rightarrow> string list \<Rightarrow> bool \<Rightarrow> (string + string) + bool" where
  "aliased_scan as primary allowEmpty [] sawPresentKey = Inr sawPresentKey"
| "aliased_scan as primary allowEmpty (key # keys) sawPresentKey =
     (case as key of
        None \<Rightarrow> aliased_scan as primary allowEmpty keys sawPresentKey
      | Some ArgNil \<Rightarrow> aliased_scan as primary allowEmpty keys sawPresentKey
      | Some (ArgOther _) \<Rightarrow> Inl (Inl (primary @ '' must be a string''))
      | Some (ArgString txt) \<Rightarrow>
          if txt = [] then
            (if \<not> allowEmpty then Inl (Inl (primary @ '' must be a non-empty string''))
             else aliased_scan as primary allowEmpty keys True)
          else Inl (Inr txt))"

definition aliasedStringArg :: "args \<Rightarrow> string list \<Rightarrow> string \<Rightarrow> bool \<Rightarrow> bool \<Rightarrow> string + string" where
  "aliasedStringArg as keys fallback required allowEmpty =
     (let primary = (case keys of [] \<Rightarrow> [] | key # _ \<Rightarrow> key)
      in case aliased_scan as primary allowEmpty keys False of
           Inl result \<Rightarrow> result
         | Inr sawPresentKey \<Rightarrow>
             if sawPresentKey then Inr []
             else if required then Inl (primary @ '' is required'')
             else Inr fallback)"

definition stringArgWithEmpty :: "args \<Rightarrow> string \<Rightarrow> string \<Rightarrow> bool \<Rightarrow> bool \<Rightarrow> string + string" where
  "stringArgWithEmpty as key fallback required allowEmpty =
     (case as key of
        Some (ArgString txt) \<Rightarrow>
          if \<not> allowEmpty \<and> txt = [] then Inl (key @ '' must be a non-empty string'') else Inr txt
      | Some (ArgOther _) \<Rightarrow> Inl (key @ '' must be a string'')
      | _ \<Rightarrow> if required then Inl (key @ '' is required'') else Inr fallback)"

definition stringArg :: "args \<Rightarrow> string \<Rightarrow> string \<Rightarrow> bool \<Rightarrow> string + string" where
  "stringArg as key fallback required = stringArgWithEmpty as key fallback required False"

definition bashCommandArg :: "args \<Rightarrow> string + string" where
  "bashCommandArg as = aliasedStringArg as [''command'', ''cmd'', ''script'', ''shell''] [] True False"

definition execCommandArg :: "args \<Rightarrow> string + string" where
  "execCommandArg as = aliasedStringArg as [''cmd'', ''command'', ''script'', ''shell''] [] True False"

datatype SandboxPermissionOverride =
  SandboxPermissionsUseDefault | SandboxPermissionsWithAdditionalPermissions | SandboxPermissionsRequireEscalated

definition sandboxPermissionsArg :: "args \<Rightarrow> string + SandboxPermissionOverride" where
  "sandboxPermissionsArg as =
     (case stringArgWithEmpty as ''sandbox_permissions'' ''use_default'' False False of
        Inl e \<Rightarrow> Inl e
      | Inr raw \<Rightarrow>
          (let value = trim_space raw
           in if value = [] \<or> value = ''use_default'' then Inr SandboxPermissionsUseDefault
              else if value = ''with_additional_permissions'' then Inr SandboxPermissionsWithAdditionalPermissions
              else if value = ''require_escalated'' then Inr SandboxPermissionsRequireEscalated
              else Inl ''sandbox_permissions must be \"use_default\", \"with_additional_permissions\", or \"require_escalated\"''))"

definition commandEngineForSandboxPermissions ::
    "os \<Rightarrow> Engine option \<Rightarrow> SandboxPermissionOverride \<Rightarrow> Engine option" where
  "commandEngineForSandboxPermissions os engine sandboxPermissions =
     (if sandboxPermissions = SandboxPermissionsRequireEscalated
         \<and> (engine = None \<or> UnsandboxedExecutionAllowed os engine)
      then None else engine)"

section \<open>Up to the launch\<close>

datatype launch_error = Invalid_Arguments string | Interactive_Blocked InteractiveCommandResult

definition bash_launch ::
    "os \<Rightarrow> string option \<Rightarrow> args \<Rightarrow> Engine option \<Rightarrow> launch_error + string \<times> Engine option" where
  "bash_launch os numeric as engine =
     (case bashCommandArg as of
        Inl e \<Rightarrow> Inl (Invalid_Arguments e)
      | Inr commandText \<Rightarrow>
     (case stringArg as ''cwd'' ''.'' False of
        Inl e \<Rightarrow> Inl (Invalid_Arguments e)
      | Inr dir \<Rightarrow>
     (case numeric of
        Some e \<Rightarrow> Inl (Invalid_Arguments e)
      | None \<Rightarrow>
     (case sandboxPermissionsArg as of
        Inl e \<Rightarrow> Inl (Invalid_Arguments e)
      | Inr sandboxPermissions \<Rightarrow>
          (let commandEngine = commandEngineForSandboxPermissions os engine sandboxPermissions;
               interactive = DetectInteractiveCommand ''linux'' commandText
           in if Interactive interactive then Inl (Interactive_Blocked interactive)
              else Inr (commandText, commandEngine))))))"

definition exec_launch ::
    "os \<Rightarrow> string option \<Rightarrow> args \<Rightarrow> Engine option \<Rightarrow> launch_error + string \<times> Engine option" where
  "exec_launch os numeric as engine =
     (case execCommandArg as of
        Inl e \<Rightarrow> Inl (Invalid_Arguments e)
      | Inr commandText \<Rightarrow>
     (case aliasedStringArg as [''workdir'', ''cwd'', ''dir'', ''directory''] ''.'' False True of
        Inl e \<Rightarrow> Inl (Invalid_Arguments e)
      | Inr workdir \<Rightarrow>
     (case numeric of
        Some e \<Rightarrow> Inl (Invalid_Arguments e)
      | None \<Rightarrow>
     (case sandboxPermissionsArg as of
        Inl e \<Rightarrow> Inl (Invalid_Arguments e)
      | Inr sandboxPermissions \<Rightarrow>
          (let commandEngine = commandEngineForSandboxPermissions os engine sandboxPermissions;
               interactive = DetectInteractiveCommand ''linux'' commandText
           in if Interactive interactive then Inl (Interactive_Blocked interactive)
              else Inr (commandText, commandEngine))))))"

definition shell_launch ::
    "os \<Rightarrow> string option \<Rightarrow> string \<Rightarrow> args \<Rightarrow> Engine option \<Rightarrow> launch_error + string \<times> Engine option" where
  "shell_launch os numeric toolName as engine =
     (if toolName = ''bash'' then bash_launch os numeric as engine else exec_launch os numeric as engine)"


section \<open>The command that is run is the command that was looked at\<close>

lemma aliased_scan_found:
  assumes "aliased_scan as primary False keys seen = Inl (Inr c)"
  shows "c \<noteq> [] \<and> (trim_space c \<noteq> [] \<longrightarrow>
    firstStringArg as keys = Some (trim_space c) \<and> firstArgString as keys = trim_space c)"
  using assms
proof (induction keys arbitrary: seen)
  case (Cons key keys)
  then show ?case
    by (cases "as key") (auto simp: argString_def Let_def split: arg_value.splits if_splits)
qed simp

lemma bashCommandArg_reviewed:
  assumes "bashCommandArg as = Inr c" "trim_space c \<noteq> []"
  shows "firstStringArg as shell_command_keys = Some (trim_space c) \<and> firstArgString as command_arg_keys = trim_space c"
proof -
  have "aliased_scan as ''command'' False shell_command_keys False = Inl (Inr c)"
    using assms by (auto simp: bashCommandArg_def aliasedStringArg_def shell_command_keys_def Let_def
        split: sum.splits if_splits)
  with assms(2) aliased_scan_found show ?thesis
    by (fastforce simp: shell_command_keys_def command_arg_keys_def)
qed

text \<open>A command leaves the sandbox only when the call asks for it and the policy lets it.\<close>

lemma sandboxPermissionsArg_escalated:
  assumes "sandboxPermissionsArg as = Inr SandboxPermissionsRequireEscalated"
  shows "shellCommandRequiresEscalated as"
proof -
  obtain raw where "stringArgWithEmpty as ''sandbox_permissions'' ''use_default'' False False = Inr raw"
    and raw: "trim_space raw = ''require_escalated''"
    using assms by (auto simp: sandboxPermissionsArg_def Let_def split: sum.splits if_splits)
  moreover have "trim_space ''use_default'' \<noteq> ''require_escalated''" by code_simp
  ultimately show ?thesis
    by (auto simp: stringArgWithEmpty_def shellCommandRequiresEscalated_def split: option.splits arg_value.splits if_splits)
qed

lemma commandEngine_None:
  "commandEngineForSandboxPermissions os (Some e) sp = None \<Longrightarrow>
     sp = SandboxPermissionsRequireEscalated \<and> UnsandboxedExecutionAllowed os (Some e)"
  by (simp add: commandEngineForSandboxPermissions_def split: if_splits)

lemma launch_unsandboxed:
  assumes "shell_launch os numeric toolName as (Some e) = Inr (c, None)"
  shows "shellCommandRequiresEscalated as \<and> UnsandboxedExecutionAllowed os (Some e)"
proof -
  obtain sp where "sandboxPermissionsArg as = Inr sp"
    "commandEngineForSandboxPermissions os (Some e) sp = None"
    using assms unfolding shell_launch_def bash_launch_def exec_launch_def Let_def
    by (force split: if_splits sum.splits option.splits)
  then show ?thesis using sandboxPermissionsArg_escalated commandEngine_None by blast
qed

lemma bash_launch_command: "bash_launch os numeric as engine = Inr (c, eng) \<Longrightarrow> bashCommandArg as = Inr c"
  unfolding bash_launch_def Let_def by (force split: if_splits sum.splits option.splits)

end
