(* ===== verification/Tool_Types.thy ===== *)
theory Tool_Types
  imports Shell_Tools Guardrails
begin

text \<open>
  Tools as the agent sees them (\<open>internal/tools/types.go\<close>, \<open>internal/tools/capabilities.go\<close>): their
  safety, the optional interfaces the loop asks them for, the effect they declare, and what a run
  of one returns.  What a tool does is a function of its arguments and of the engine it is given.
\<close>

section \<open>Effects and capabilities\<close>

datatype EffectClass =
  EffectUnknown | EffectReadOnly | EffectProcessRead | EffectWorkspaceWrite | EffectExternalWrite
| EffectInteractive | EffectInvalid int

record ToolCapabilities =
  Effect :: EffectClass
  ThreadSafe :: bool
  ResourceKeys :: "(args \<Rightarrow> string list) option"

definition EffectClass_Valid :: "EffectClass \<Rightarrow> bool" where
  "EffectClass_Valid e = (case e of EffectInvalid _ \<Rightarrow> False | _ \<Rightarrow> True)"

definition UnknownCapabilities :: ToolCapabilities where
  "UnknownCapabilities = \<lparr>Effect = EffectUnknown, ThreadSafe = False, ResourceKeys = None\<rparr>"

definition normalizeCapabilities :: "ToolCapabilities \<Rightarrow> ToolCapabilities" where
  "normalizeCapabilities caps =
     (if \<not> EffectClass_Valid (Effect caps) \<or> Effect caps \<noteq> EffectReadOnly
      then caps\<lparr>ThreadSafe := False\<rparr> else caps)"

section \<open>Tools\<close>

datatype Status = StatusOK | StatusError

record Result =
  res_status :: Status
  res_output :: string
  res_meta :: "string \<Rightarrow> string option"
  res_changed :: "string list"
  res_images :: "string list"
  SandboxDecision :: "Decision option"

text \<open>The optional interfaces of a tool are \<open>None\<close> for a tool that does not implement them.\<close>

record Tool =
  safety_sideEffect :: SideEffect
  safety_permission :: Permission
  safety_reason :: string
  PermissionForArgs :: "(args \<Rightarrow> Permission) option"
  RejectBeforePermission :: "(args \<Rightarrow> Result option) option"
  Capabilities :: "ToolCapabilities option"
  CapabilitiesForArgs :: "(args \<Rightarrow> ToolCapabilities) option"
  tool_run :: "args \<Rightarrow> Engine option \<Rightarrow> Result"

type_synonym registry = "string \<Rightarrow> Tool option"

definition CapabilitiesOf :: "Tool option \<Rightarrow> ToolCapabilities" where
  "CapabilitiesOf tool =
     (case tool of
        None \<Rightarrow> UnknownCapabilities
      | Some t \<Rightarrow> (case Capabilities t of
          Some caps \<Rightarrow> normalizeCapabilities caps
        | None \<Rightarrow> UnknownCapabilities))"

definition CapabilitiesForArgsOf :: "Tool option \<Rightarrow> args \<Rightarrow> ToolCapabilities" where
  "CapabilitiesForArgsOf tool as =
     (case tool of
        None \<Rightarrow> UnknownCapabilities
      | Some t \<Rightarrow> (case CapabilitiesForArgs t of
          Some provider \<Rightarrow> normalizeCapabilities (provider as)
        | None \<Rightarrow> CapabilitiesOf (Some t)))"

definition errorResult :: "string \<Rightarrow> Result" where
  "errorResult message =
     \<lparr>res_status = StatusError, res_output = message, res_meta = (\<lambda>_. None), res_changed = [], res_images = [], SandboxDecision = None\<rparr>"

definition effectivePermission :: "Tool \<Rightarrow> args \<Rightarrow> Permission" where
  "effectivePermission tool as =
     (case PermissionForArgs tool of Some f \<Rightarrow> f as | None \<Rightarrow> safety_permission tool)"

lemma thread_safe_reads_only:
  "ThreadSafe (CapabilitiesForArgsOf tool as) \<Longrightarrow> Effect (CapabilitiesForArgsOf tool as) = EffectReadOnly"
  by (auto simp: CapabilitiesForArgsOf_def CapabilitiesOf_def normalizeCapabilities_def UnknownCapabilities_def
      split: option.splits if_splits)

end
