(* ===== verification/Permission_Rules.thy ===== *)
theory Permission_Rules
  imports Tool_Types
begin

text \<open>
  The rules, profiles and modes that decide about a tool call before the user is asked:
  the harness rules of the configuration and how user and project rules are merged
  (\<open>internal/config/harness.go\<close>), their evaluation (\<open>internal/agent/permission_rules.go\<close>), the
  permission profiles (\<open>internal/agent/permission_profiles.go\<close>), plan mode
  (\<open>internal/agent/plan_mode.go\<close>) and the tool filters (\<open>internal/agent/loop.go\<close>).
\<close>

section \<open>Rules\<close>

record HarnessPermissionRule =
  ID :: string
  Match :: string
  rule_Action :: string
  rule_SideEffect :: string
  MinRisk :: string
  CommandContains :: "string list"
  rule_Reason :: string
  Enabled :: "bool option"

definition IsEnabled :: "HarnessPermissionRule \<Rightarrow> bool" where
  "IsEnabled rule = (Enabled rule = None \<or> Enabled rule = Some True)"

definition normalizeHarnessRuleAction :: "string \<Rightarrow> string" where
  "normalizeHarnessRuleAction action =
     (if to_lower (trim_space action) = ''prompt'' then ''ask'' else to_lower (trim_space action))"

definition normalizeStringList :: "string list \<Rightarrow> string list" where
  "normalizeStringList values = filter (\<lambda>v. v \<noteq> []) (List.map trim_space values)"

text \<open>The rule that has the id of \<open>rule\<close> is replaced, the first one only.\<close>

fun put_rule :: "HarnessPermissionRule \<Rightarrow> HarnessPermissionRule list \<Rightarrow> HarnessPermissionRule list" where
  "put_rule rule [] = [rule]"
| "put_rule rule (r # rules) =
     (if equal_fold (trim_space (ID r)) (ID rule) then rule # rules else r # put_rule rule rules)"

definition normalize_rule :: "HarnessPermissionRule \<Rightarrow> HarnessPermissionRule" where
  "normalize_rule rule =
     rule\<lparr>ID := trim_space (ID rule), Match := trim_space (Match rule),
       rule_Action := normalizeHarnessRuleAction (rule_Action rule),
       rule_SideEffect := trim_space (rule_SideEffect rule), MinRisk := trim_space (MinRisk rule),
       rule_Reason := trim_space (rule_Reason rule),
       CommandContains := normalizeStringList (CommandContains rule)\<rparr>"

definition mergePermissionRule ::
    "HarnessPermissionRule list \<Rightarrow> HarnessPermissionRule \<Rightarrow> HarnessPermissionRule list" where
  "mergePermissionRule dst rule =
     (let rule = normalize_rule rule
      in if ID rule = [] then dst @ [rule] else put_rule rule dst)"

definition mergeHarnessConfig ::
    "HarnessPermissionRule list \<Rightarrow> HarnessPermissionRule list \<Rightarrow> HarnessPermissionRule list" where
  "mergeHarnessConfig dst src = foldl mergePermissionRule dst src"

text \<open>The error names the id of the first rule that allows.\<close>

definition mergeProjectHarnessConfig ::
    "HarnessPermissionRule list \<Rightarrow> HarnessPermissionRule list \<Rightarrow> string + HarnessPermissionRule list" where
  "mergeProjectHarnessConfig dst src =
     (case find (\<lambda>rule. normalizeHarnessRuleAction (rule_Action rule) = ''allow'') src of
        Some rule \<Rightarrow> Inl (trim_space (ID rule))
      | None \<Rightarrow> Inr (mergeHarnessConfig dst src))"

section \<open>Patterns (path.Match)\<close>

text \<open>
  The documented patterns of Go's \<open>path.Match\<close>: \<open>*\<close> is any text without a slash, \<open>?\<close> one character
  other than a slash, \<open>[...]\<close> a class of characters and ranges, \<open>\\\<close> an escape.  A malformed
  pattern is \<open>None\<close>; it matches nothing.
\<close>

datatype glob_item = Glob_Star | Glob_Any | Glob_Class bool "(char \<times> char) list" | Glob_Char char

text \<open>One character of a class, and the class up to its bracket.\<close>

definition class_char :: "string \<Rightarrow> (char \<times> string) option" where
  "class_char s =
     (case s of
        [] \<Rightarrow> None
      | c # cs \<Rightarrow>
          if c = CHR ''-'' \<or> c = CHR '']'' then None
          else if c = backslash then (case cs of [] \<Rightarrow> None | d # ds \<Rightarrow> if ds = [] then None else Some (d, ds))
          else if cs = [] then None else Some (c, cs))"

lemma class_char_shorter: "class_char s = Some (c, t) \<Longrightarrow> length t < length s"
  by (auto simp: class_char_def split: list.splits if_splits)

function class_items :: "string \<Rightarrow> (char \<times> char) list \<Rightarrow> ((char \<times> char) list \<times> string) option" where
  "class_items s acc =
     (if s \<noteq> [] \<and> hd s = CHR '']'' \<and> acc \<noteq> [] then Some (acc, tl s)
      else (case class_char s of
              None \<Rightarrow> None
            | Some (lo, t) \<Rightarrow>
                if t \<noteq> [] \<and> hd t = CHR ''-'' then
                  (case class_char (tl t) of
                     None \<Rightarrow> None
                   | Some (hi, u) \<Rightarrow> class_items u (acc @ [(lo, hi)]))
                else class_items t (acc @ [(lo, lo)])))"
  by pat_completeness auto
termination
  by (relation "measure (\<lambda>(s, acc). length s)")
    (auto dest!: class_char_shorter simp: neq_Nil_conv)

declare class_items.simps [simp del]

lemma class_items_shorter: "class_items s acc = Some (is, t) \<Longrightarrow> length t < length s"
proof (induction s acc rule: class_items.induct)
  case (1 s acc)
  show ?case
  proof (cases "s \<noteq> [] \<and> hd s = CHR '']'' \<and> acc \<noteq> []")
    case True
    with "1.prems" have "tl s = t" by (simp add: class_items.simps [of s])
    with True show ?thesis by (cases s) auto
  next
    case False
    note stop = this
    with "1.prems" obtain lo u where lo: "class_char s = Some (lo, u)"
      by (auto simp: class_items.simps [of s] split: option.splits)
    note u = class_char_shorter [OF lo]
    show ?thesis
    proof (cases "u \<noteq> [] \<and> hd u = CHR ''-''")
      case True
      with "1.prems" stop lo obtain hi v where hi: "class_char (tl u) = Some (hi, v)"
        by (auto simp: class_items.simps [of s] split: option.splits)
      have "class_items v (acc @ [(lo, hi)]) = Some (is, t)"
        using "1.prems" stop lo hi True by (simp add: class_items.simps [of s])
      then have "length t < length v" using "1.IH" (1) [OF stop lo refl True hi refl] by simp
      with class_char_shorter [OF hi] u show ?thesis by simp
    next
      case False
      then have "class_items u (acc @ [(lo, lo)]) = Some (is, t)"
        using "1.prems" stop lo by (auto simp: class_items.simps [of s] split: if_splits)
      then have "length t < length u" using "1.IH" (2) [OF stop lo refl False] by simp
      with u show ?thesis by simp
    qed
  qed
qed

function parse_glob :: "string \<Rightarrow> glob_item list option" where
  "parse_glob [] = Some []"
| "parse_glob (c # cs) =
     (if c = CHR ''*'' then map_option ((#) Glob_Star) (parse_glob cs)
      else if c = CHR ''?'' then map_option ((#) Glob_Any) (parse_glob cs)
      else if c = CHR ''['' then
        (let neg = (cs \<noteq> [] \<and> hd cs = CHR ''^''); ds = (if neg then tl cs else cs)
         in case class_items ds [] of
              None \<Rightarrow> None
            | Some (items, rest) \<Rightarrow> map_option ((#) (Glob_Class neg items)) (parse_glob rest))
      else if c = backslash then
        (case cs of [] \<Rightarrow> None | d # ds \<Rightarrow> map_option ((#) (Glob_Char d)) (parse_glob ds))
      else map_option ((#) (Glob_Char c)) (parse_glob cs))"
  by pat_completeness auto
termination
proof (relation "measure length")
  fix c :: char and cs neg ds r items rest
  assume "neg = (cs \<noteq> [] \<and> hd cs = CHR ''^'')" "ds = (if neg then tl cs else cs)"
    "class_items ds [] = Some r" "(items, rest) = r"
  then have "length rest < length ds" "length ds \<le> length cs"
    using class_items_shorter [of ds "[]" items rest] by (auto split: if_splits)
  then show "(rest, c # cs) \<in> measure length" by simp
qed auto

fun item_matches :: "glob_item \<Rightarrow> char \<Rightarrow> bool" where
  "item_matches Glob_Star c = (c \<noteq> CHR ''/'')"
| "item_matches Glob_Any c = (c \<noteq> CHR ''/'')"
| "item_matches (Glob_Class neg items) c = (list_ex (\<lambda>(lo, hi). lo \<le> c \<and> c \<le> hi) items \<noteq> neg)"
| "item_matches (Glob_Char d) c = (c = d)"

fun glob_matches :: "glob_item list \<Rightarrow> string \<Rightarrow> bool" where
  "glob_matches [] s = (s = [])"
| "glob_matches (Glob_Star # items) [] = glob_matches items []"
| "glob_matches (Glob_Star # items) (c # s) =
     (glob_matches items (c # s) \<or> c \<noteq> CHR ''/'' \<and> glob_matches (Glob_Star # items) s)"
| "glob_matches (item # items) [] = False"
| "glob_matches (item # items) (c # s) = (item_matches item c \<and> glob_matches items s)"

definition path_Match :: "string \<Rightarrow> string \<Rightarrow> bool option" where
  "path_Match pattern name = map_option (\<lambda>items. glob_matches items name) (parse_glob pattern)"

section \<open>Evaluating the rules\<close>

definition wildcardMatch :: "string \<Rightarrow> string \<Rightarrow> bool" where
  "wildcardMatch pattern value =
     (let pattern = trim_space pattern
      in if pattern = [] then False
         else if pattern = value \<or> pattern = ''*'' then True
         else (case path_Match pattern value of Some ok \<Rightarrow> ok | None \<Rightarrow> False))"

definition permissionRuleAction :: "string \<Rightarrow> Action option" where
  "permissionRuleAction action =
     (let a = to_lower (trim_space action)
      in if a = ''allow'' then Some ActionAllow
         else if a = ''ask'' \<or> a = ''prompt'' then Some ActionPrompt
         else if a = ''deny'' then Some ActionDeny
         else None)"

text \<open>The rank of a risk level given by its name.\<close>

definition permissionRuleRiskRank :: "string \<Rightarrow> nat" where
  "permissionRuleRiskRank level =
     (if level = ''critical'' then 4 else if level = ''high'' then 3
      else if level = ''medium'' then 2 else if level = ''low'' then 1 else 0)"

definition arg_toString :: "arg_value \<Rightarrow> string" where
  "arg_toString v = (case v of ArgString s \<Rightarrow> s | ArgNil \<Rightarrow> ''<nil>'' | ArgOther s \<Rightarrow> s)"

fun first_present :: "args \<Rightarrow> string list \<Rightarrow> string" where
  "first_present as [] = []"
| "first_present as (key # keys) =
     (case as key of Some v \<Rightarrow> trim_space (arg_toString v) | None \<Rightarrow> first_present as keys)"

definition permissionRuleCommandText :: "args \<Rightarrow> string" where
  "permissionRuleCommandText as = first_present as [''command'', ''cmd'', ''script'', ''shell'']"

definition permissionRuleMatches ::
    "HarnessPermissionRule \<Rightarrow> string \<Rightarrow> string \<Rightarrow> Risk \<Rightarrow> string \<Rightarrow> bool" where
  "permissionRuleMatches rule toolName sideEffect risk command =
     (if \<not> wildcardMatch (trim_space (Match rule)) toolName then False
      else if trim_space (rule_SideEffect rule) \<noteq> [] \<and> \<not> equal_fold (trim_space (rule_SideEffect rule)) sideEffect
      then False
      else (let minRisk = to_lower (trim_space (MinRisk rule))
            in if minRisk \<noteq> []
                  \<and> permissionRuleRiskRank (RiskLevel_string (Level risk)) < permissionRuleRiskRank minRisk
               then False
               else list_all (\<lambda>needle. let n = trim_space needle in n = [] \<or> contains command n)
                      (CommandContains rule)))"

definition enabledPermissionRules :: "HarnessPermissionRule list \<Rightarrow> HarnessPermissionRule list" where
  "enabledPermissionRules rules =
     filter (\<lambda>rule. IsEnabled rule \<and> trim_space (Match rule) \<noteq> [] \<and> trim_space (rule_Action rule) \<noteq> []) rules"

definition rule_reason :: "HarnessPermissionRule \<Rightarrow> string" where
  "rule_reason rule =
     (let reason = trim_space (rule_Reason rule); id = trim_space (ID rule)
      in if reason \<noteq> [] then reason
         else ''harness permission rule matched'' @ (if id \<noteq> [] then '': '' @ id else []))"

section \<open>Profiles and modes\<close>

definition profilePermission :: "PermissionMode \<Rightarrow> Tool \<Rightarrow> args \<Rightarrow> Permission" where
  "profilePermission mode tool as =
     (if mode = PermissionModeBypassAll then PermissionAllow
      else (let permission = effectivePermission tool as; sideEffect = safety_sideEffect tool
            in if permission = PermissionDeny then permission
               else if sideEffect = SideEffectNone then PermissionAllow
               else (case mode of
                 PermissionModeAskAll \<Rightarrow> PermissionPrompt
               | PermissionModeReadOnly \<Rightarrow>
                   if sideEffect = SideEffectRead then PermissionAllow else PermissionPrompt
               | PermissionModeReadWrite \<Rightarrow>
                   if sideEffect = SideEffectRead \<or> sideEffect = SideEffectWrite then PermissionAllow
                   else PermissionPrompt
               | PermissionModeBypassAll \<Rightarrow> PermissionAllow
               | _ \<Rightarrow> permission)))"

definition sandboxRequest :: "string \<Rightarrow> Tool \<Rightarrow> args \<Rightarrow> bool \<Rightarrow> PermissionMode \<Rightarrow> RawRequest" where
  "sandboxRequest toolName tool as permissionGranted permissionMode =
     \<lparr>raw_workspace_root = [], raw_tool_name = toolName,
      raw_side_effect = SideEffect_string (safety_sideEffect tool),
      raw_permission = Permission_string (profilePermission permissionMode tool as),
      raw_permission_granted = permissionGranted,
      raw_permission_mode = PermissionMode_string permissionMode,
      raw_args = as, raw_reason = safety_reason tool\<rparr>"

text \<open>\<open>sandbox.Classify\<close> on a request as the agent builds it.\<close>

definition classify_raw :: "world \<Rightarrow> RawRequest \<Rightarrow> Risk" where
  "classify_raw w raw = Classify (w_os w) (w_parse w) (as_request (raw_workspace_root raw) raw)"

text \<open>The newest rule that matches and has an action decides.\<close>

definition evaluatePermissionRules ::
    "world \<Rightarrow> HarnessPermissionRule list \<Rightarrow> string \<Rightarrow> Tool \<Rightarrow> args \<Rightarrow> PermissionMode \<Rightarrow> (Action \<times> string) option" where
  "evaluatePermissionRules w rules toolName tool as permissionMode =
     (let risk = classify_raw w (sandboxRequest toolName tool as False permissionMode);
          sideEffect = SideEffect_string (safety_sideEffect tool);
          command = permissionRuleCommandText as
      in case find (\<lambda>rule. permissionRuleMatches rule toolName sideEffect risk command
                      \<and> permissionRuleAction (rule_Action rule) \<noteq> None)
                (rev (enabledPermissionRules rules)) of
           None \<Rightarrow> None
         | Some rule \<Rightarrow> map_option (\<lambda>action. (action, rule_reason rule)) (permissionRuleAction (rule_Action rule)))"

definition planModeAllowedTools :: "string list" where
  "planModeAllowedTools = [''todo_write'', ''ask_user'', ''request_permissions'', ''escalate_model'', ''exit_plan_mode'']"

definition planModeBlockedDispatchers :: "string list" where
  "planModeBlockedDispatchers = [''batch'', ''recipe_run'']"

definition planModeDenied :: "string \<Rightarrow> Tool option \<Rightarrow> bool" where
  "planModeDenied name tool =
     (if name \<in> set planModeAllowedTools then False
      else if name \<in> set planModeBlockedDispatchers then True
      else if tool = None then True
      else Effect (CapabilitiesOf tool) \<noteq> EffectReadOnly)"

definition containsToolName :: "string list \<Rightarrow> string \<Rightarrow> bool" where
  "containsToolName names name = list_ex (\<lambda>candidate. candidate = name) names"

definition ToolAllowedByFilters :: "string \<Rightarrow> string list \<Rightarrow> string list \<Rightarrow> bool" where
  "ToolAllowedByFilters name enabledTools disabledTools =
     (if enabledTools \<noteq> [] \<and> \<not> containsToolName enabledTools name then False
      else if containsToolName disabledTools name then False
      else True)"

end
