(* ===== verification/Permission_Prompt.thy ===== *)
theory Permission_Prompt
  imports Permission_Rules
begin

text \<open>
  The permission prompt of \<open>internal/agent/loop.go\<close>: the event that describes a call, the decisions
  offered with it, and what the user's decision grants.  Of an event the fields are kept that the
  loop reads again; an absent action is \<open>None\<close>, as is the zero value of a risk.
\<close>

section \<open>Events\<close>

record PermissionEvent =
  ev_tool :: string
  ev_action :: "Action option"
  ev_permission :: string
  ev_granted :: bool
  ev_sideEffect :: string
  ev_reason :: string
  ev_scope :: string
  ev_risk :: "Risk option"
  ev_block :: "Block option"
  ev_grantMatched :: bool
  ev_grant :: "Grant option"
  ev_prefix :: "string list"

record PermissionRequest =
  pr_event :: PermissionEvent
  pr_args :: args
  AvailableDecisions :: "PermissionDecisionAction list"

record PermissionDecision =
  pd_action :: PermissionDecisionAction
  pd_reason :: string

text \<open>
  What a run is configured with.  \<open>OnPermissionRequest\<close> is \<open>None\<close> for a run nobody watches; it
  answers an error or a decision.  What goes through \<open>encoding/json\<close> is a function: \<open>decode_args\<close> reads
  the arguments of a call, \<open>decode_profile\<close>, \<open>decode_prefix\<close> and \<open>decode_request\<close> the typed value behind
  an argument or all of them, \<open>render_response\<close> writes a response.  \<open>parse_stmts\<close> is the shell parser,
  \<open>BeforeTool\<close> the hooks that may veto a call; the questions of \<open>ask_user\<close> and their answers are
  read and written by \<open>parse_questions\<close> and \<open>format_answers\<close> (\<open>internal/tools/ask_user.go\<close>).
\<close>

datatype ask_reply = Ask_Cancelled string | Ask_Unavailable string | Ask_Answers "string list"

record RequestPermissionsResponse =
  Permissions :: RequestPermissionProfile
  resp_scope :: PermissionGrantScope
  StrictAutoReview :: bool

record Options =
  EnabledTools :: "string list"
  DisabledTools :: "string list"
  PlanMode :: bool
  PermissionRules :: "HarnessPermissionRule list"
  Cwd :: string
  OnPermissionRequest :: "(PermissionRequest \<Rightarrow> string + PermissionDecision) option"
  OnAskUser :: "(string list \<Rightarrow> ask_reply) option"
  BeforeTool :: "string \<Rightarrow> args \<Rightarrow> string option"
  decode_args :: "string \<Rightarrow> string + args"
  decode_request :: "args \<Rightarrow> string + string \<times> RequestPermissionProfile"
  render_response :: "RequestPermissionsResponse \<Rightarrow> string"
  parse_questions :: "args \<Rightarrow> string + string list"
  format_answers :: "string list \<Rightarrow> string list \<Rightarrow> string"
  decode_profile :: "arg_value \<Rightarrow> string + RequestPermissionProfile"
  decode_prefix :: "arg_value \<Rightarrow> prefix_rule"
  parse_stmts :: stmt_parser
  onWindows :: bool

definition proposed_prefix :: "Options \<Rightarrow> string \<Rightarrow> args \<Rightarrow> string list" where
  "proposed_prefix opts toolName as =
     proposedCommandPrefix (onWindows opts) (parse_stmts opts) toolName as
       (map_option (decode_prefix opts) (as ''prefix_rule''))"

section \<open>Additional permissions of a shell command\<close>

text \<open>The flag says that additional permissions were asked for; \<open>Inl\<close> is the error.\<close>

definition inlineAdditionalPermissionsProfile ::
    "os \<Rightarrow> Options \<Rightarrow> args \<Rightarrow> string + RequestPermissionProfile option" where
  "inlineAdditionalPermissionsProfile os opts as =
     (if \<not> shellCommandAdditionalPermissionsRequested as then
        (if as ''additional_permissions'' \<noteq> None
         then Inl ''additional_permissions requires sandbox_permissions set to \"with_additional_permissions\"''
         else Inr None)
      else (case as ''additional_permissions'' of
        None \<Rightarrow> Inl ''no additional_permissions object was provided''
      | Some ArgNil \<Rightarrow> Inl ''no additional_permissions object was provided''
      | Some raw \<Rightarrow>
          (case decode_profile opts raw of
             Inl e \<Rightarrow> Inl e
           | Inr profile \<Rightarrow>
               (let normalized = NormalizeRequestPermissionProfile os profile (Cwd opts)
                in if RequestPermissionProfile_Empty normalized
                   then Inl ''additional_permissions must include at least one of network or file_system''
                   else map_sum id Some (RequestPermissionGrantProfile os normalized)))))"

definition requestPermissionsScope :: "RequestPermissionProfile \<Rightarrow> string" where
  "requestPermissionsScope profile =
     join '', ''
       ((if network_enabled profile then [''network all outbound access''] else [])
        @ (case rpp_fileSystem profile of
             None \<Rightarrow> []
           | Some fs \<Rightarrow> List.map (\<lambda>p. ''read '' @ p) (fs_read fs) @ List.map (\<lambda>p. ''write '' @ p) (fs_write fs)
                @ List.map (\<lambda>p. ''deny read '' @ p) (fs_denyRead fs)))"

section \<open>Building an event\<close>

text \<open>The ellipsis is the UTF-8 text of the code.\<close>

definition truncateScope :: "string \<Rightarrow> string" where
  "truncateScope value =
     (if length value \<le> 80 then value
      else take 79 value @ [CHR 0xE2, CHR 0x80, CHR 0xA6])"

definition permissionScope :: "string \<Rightarrow> args \<Rightarrow> string" where
  "permissionScope toolName as =
     (let (raw, kind) = DeriveScope toolName as in if raw = [] then [] else truncateScope raw)"

definition userFacingPermissionReason :: "string \<Rightarrow> args \<Rightarrow> string \<Rightarrow> string" where
  "userFacingPermissionReason toolName as reason =
     (let reason = trim_space reason
      in if \<not> isShellCommandTool toolName \<or> \<not> shellCommandRequiresEscalated as then reason
         else (case firstStringArg as [''justification''] of
                 Some justification \<Rightarrow> justification
               | None \<Rightarrow> if reason = [] \<or> reason = ReasonEscalatedSandboxRequired
                         then ''This command needs to run outside the sandbox.'' else reason))"

text \<open>The request the event classifies: it carries the tool's own permission.\<close>

definition event_request :: "string \<Rightarrow> Tool \<Rightarrow> args \<Rightarrow> bool \<Rightarrow> PermissionMode \<Rightarrow> RawRequest" where
  "event_request toolName tool as granted mode =
     (sandboxRequest toolName tool as granted mode)
       \<lparr>raw_permission := Permission_string (safety_permission tool)\<rparr>"

text \<open>The action before the additional permissions are looked at; \<open>None\<close> returns no event.\<close>

definition event_action :: "Tool \<Rightarrow> bool \<Rightarrow> Decision option \<Rightarrow> Action option" where
  "event_action tool permissionGranted decision =
     (case decision of
        Some d \<Rightarrow> Some (dec_action d)
      | None \<Rightarrow> (case safety_permission tool of
            PermissionDeny \<Rightarrow> Some ActionDeny
          | PermissionPrompt \<Rightarrow> Some (if permissionGranted then ActionAllow else ActionPrompt)
          | PermissionAllow \<Rightarrow> None))"

definition buildPermissionEvent ::
    "world \<Rightarrow> Options \<Rightarrow> string \<Rightarrow> Tool \<Rightarrow> args \<Rightarrow> bool \<Rightarrow> PermissionMode \<Rightarrow> Decision option \<Rightarrow> PermissionEvent option" where
  "buildPermissionEvent w opts toolName tool as permissionGranted permissionMode decision =
     (case event_action tool permissionGranted decision of
        None \<Rightarrow> None
      | Some action \<Rightarrow>
          (let reason = (case decision of
                 Some d \<Rightarrow> if dec_reason d \<noteq> [] then dec_reason d else safety_reason tool
               | None \<Rightarrow> safety_reason tool);
               risk = (case decision of Some d \<Rightarrow> dec_risk d
                 | None \<Rightarrow> classify_raw w (event_request toolName tool as permissionGranted permissionMode));
               block = (case decision of Some d \<Rightarrow> dec_block d | None \<Rightarrow> None);
               matched = (case decision of Some d \<Rightarrow> GrantMatched d | None \<Rightarrow> False);
               grant = (case decision of Some d \<Rightarrow> dec_grant d | None \<Rightarrow> None);
               action = (if action = ActionAllow \<and> \<not> permissionGranted
                            \<and> shellCommandAdditionalPermissionsRequested as then ActionPrompt else action)
           in if safety_permission tool = PermissionAllow \<and> action = ActionAllow \<and> \<not> matched \<and> block = None
              then None
              else Some \<lparr>ev_tool = toolName, ev_action = Some action,
                     ev_permission = Permission_string (safety_permission tool), ev_granted = permissionGranted,
                     ev_sideEffect = SideEffect_string (safety_sideEffect tool),
                     ev_reason = userFacingPermissionReason toolName as reason,
                     ev_scope = (case inlineAdditionalPermissionsProfile (w_os w) opts as of
                         Inr (Some profile) \<Rightarrow> requestPermissionsScope profile
                       | _ \<Rightarrow> permissionScope toolName as),
                     ev_risk = Some risk, ev_block = block, ev_grantMatched = matched, ev_grant = grant,
                     ev_prefix = proposed_prefix opts toolName as\<rparr>))"

definition zero_event :: PermissionEvent where
  "zero_event = \<lparr>ev_tool = [], ev_action = None, ev_permission = [], ev_granted = False, ev_sideEffect = [],
     ev_reason = [], ev_scope = [], ev_risk = None, ev_block = None, ev_grantMatched = False, ev_grant = None,
     ev_prefix = []\<rparr>"

definition fallbackPermissionEvent ::
    "world \<Rightarrow> Options \<Rightarrow> string \<Rightarrow> Tool \<Rightarrow> args \<Rightarrow> PermissionMode \<Rightarrow> PermissionEvent" where
  "fallbackPermissionEvent w opts toolName tool as permissionMode =
     (case buildPermissionEvent w opts toolName tool as False permissionMode None of
        Some event \<Rightarrow> event | None \<Rightarrow> zero_event)"

definition policyPermissionEvent ::
    "world \<Rightarrow> Options \<Rightarrow> string \<Rightarrow> Tool \<Rightarrow> args \<Rightarrow> PermissionMode \<Rightarrow> Decision option \<Rightarrow> Action \<Rightarrow> string \<Rightarrow> PermissionEvent" where
  "policyPermissionEvent w opts toolName tool as permissionMode decision action reason =
     (let event = (case buildPermissionEvent w opts toolName tool as False permissionMode decision of
              Some event \<Rightarrow> event
            | None \<Rightarrow> \<lparr>ev_tool = toolName, ev_action = None,
                ev_permission = Permission_string (effectivePermission tool as), ev_granted = False,
                ev_sideEffect = SideEffect_string (safety_sideEffect tool), ev_reason = [],
                ev_scope = permissionScope toolName as,
                ev_risk = Some (case decision of Some d \<Rightarrow> dec_risk d
                  | None \<Rightarrow> classify_raw w (sandboxRequest toolName tool as False permissionMode)),
                ev_block = (case decision of Some d \<Rightarrow> dec_block d | None \<Rightarrow> None),
                ev_grantMatched = False, ev_grant = None, ev_prefix = proposed_prefix opts toolName as\<rparr>);
          reason = trim_space reason
      in event\<lparr>ev_action := Some action, ev_granted := False,
           ev_reason := (if reason \<noteq> [] then reason else ev_reason event)\<rparr>)"

section \<open>The decisions offered\<close>

definition event_has_risk :: "PermissionEvent \<Rightarrow> string \<Rightarrow> bool" where
  "event_has_risk event category =
     (case ev_risk event of Some risk \<Rightarrow> HasRiskCategory risk category | None \<Rightarrow> False)"

definition networkSandboxPrompt :: "PermissionEvent \<Rightarrow> bool" where
  "networkSandboxPrompt event \<longleftrightarrow>
     isShellCommandTool (ev_tool event) \<and> ev_reason event = ReasonNetworkBlocked \<and> event_has_risk event ''network''"

definition filesystemSandboxPrompt :: "PermissionEvent \<Rightarrow> bool" where
  "filesystemSandboxPrompt event \<longleftrightarrow>
     (case ev_block event of
        None \<Rightarrow> False
      | Some b \<Rightarrow> Code b = BlockOutsideWorkspace \<and> Recoverable b \<and> trim_space (Path b) \<noteq> [])"

definition permissionSupportsPersistentDecision :: "string \<Rightarrow> bool" where
  "permissionSupportsPersistentDecision toolName = (toolName \<notin> set [
     ''bash'', ''exec_command'', ''write_stdin'', ''apply_patch'',
     ''browser_install'', ''browser_launch'', ''browser_connect'', ''browser_open'', ''browser_snapshot'',
     ''browser_click'', ''browser_type'', ''browser_press'', ''browser_action'', ''desktop_windows'',
     ''desktop_snapshot'', ''desktop_action'', ''terminal_session'', ''capture_artifact''])"

definition availablePermissionDecisions ::
    "PermissionEvent \<Rightarrow> args \<Rightarrow> Engine option \<Rightarrow> PermissionDecisionAction list" where
  "availablePermissionDecisions event as engine =
     (if ev_action event \<noteq> Some ActionPrompt then []
      else (let extra = shellCommandAdditionalPermissionsRequested as
            in [DecisionAllow]
               @ (if engine = None then []
                  else [DecisionAllowForSession]
                    @ (if isShellCommandTool (ev_tool event) \<and> ev_prefix event \<noteq> []
                          \<and> \<not> networkSandboxPrompt event \<and> \<not> extra
                       then [DecisionAllowPrefix]
                         @ (if CanPersistGrants engine then [DecisionAlwaysAllowPrefix] else [])
                       else [])
                    @ (if CanPersistGrants engine \<and> permissionSupportsPersistentDecision (ev_tool event)
                          \<and> \<not> filesystemSandboxPrompt event \<and> \<not> extra
                       then [DecisionAlwaysAllow] else []))
               @ (if isShellCommandTool (ev_tool event) then [DecisionDeny, DecisionCancel]
                  else if ev_tool event = ''apply_patch'' then [DecisionCancel]
                  else [DecisionDeny])))"

definition permissionRequestFromEvent :: "PermissionEvent \<Rightarrow> args \<Rightarrow> Engine option \<Rightarrow> PermissionRequest" where
  "permissionRequestFromEvent event as engine =
     \<lparr>pr_event = event, pr_args = as, AvailableDecisions = availablePermissionDecisions event as engine\<rparr>"

text \<open>Without anybody to ask the answer is a denial.\<close>

definition requestPermission :: "Options \<Rightarrow> PermissionRequest \<Rightarrow> string + PermissionDecision" where
  "requestPermission opts request =
     (case OnPermissionRequest opts of
        None \<Rightarrow> Inr \<lparr>pd_action = DecisionDeny, pd_reason = ev_reason (pr_event request)\<rparr>
      | Some ask \<Rightarrow> ask request)"

definition normalizePermissionDecisionAction :: "PermissionDecisionAction \<Rightarrow> PermissionDecisionAction" where
  "normalizePermissionDecisionAction action =
     (case action of DecisionOther _ \<Rightarrow> DecisionDeny | _ \<Rightarrow> action)"

text \<open>An error of the front end counts as a denial with that reason.\<close>

definition ask_decision :: "Options \<Rightarrow> PermissionRequest \<Rightarrow> PermissionDecision" where
  "ask_decision opts request =
     (let decision = (case requestPermission opts request of
            Inl e \<Rightarrow> \<lparr>pd_action = DecisionDeny, pd_reason = e\<rparr> | Inr d \<Rightarrow> d)
      in decision\<lparr>pd_action := normalizePermissionDecisionAction (pd_action decision)\<rparr>)"

section \<open>Granting what was approved\<close>

type_synonym granting = "Engine option \<Rightarrow> (string + cleanup list) \<times> Engine option"

definition grantNetworkForSandboxPrompt :: "os \<Rightarrow> PermissionEvent \<Rightarrow> PermissionGrantScope \<Rightarrow> granting" where
  "grantNetworkForSandboxPrompt os event scope engine =
     (if \<not> networkSandboxPrompt event \<or> engine = None then (Inr [], engine)
      else GrantRequestPermissions os \<lparr>rpp_network = Some (Some True), rpp_fileSystem = None\<rparr> scope engine)"

definition grantInlineAdditionalPermissions ::
    "os \<Rightarrow> Options \<Rightarrow> args \<Rightarrow> PermissionGrantScope \<Rightarrow> granting" where
  "grantInlineAdditionalPermissions os opts as scope engine =
     (case inlineAdditionalPermissionsProfile os opts as of
        Inl e \<Rightarrow> (Inl e, engine)
      | Inr None \<Rightarrow> (Inr [], engine)
      | Inr (Some profile) \<Rightarrow>
          if engine = None then (Inl ''sandbox engine is not configured'', engine)
          else GrantRequestPermissions os profile scope engine)"

definition grantFilesystemForSandboxPrompt :: "os \<Rightarrow> PermissionEvent \<Rightarrow> PermissionGrantScope \<Rightarrow> granting" where
  "grantFilesystemForSandboxPrompt os event scope engine =
     (if \<not> filesystemSandboxPrompt event \<or> engine = None then (Inr [], engine)
      else (let path = (case ev_block event of Some b \<Rightarrow> Path b | None \<Rightarrow> []);
                grant = (\<lambda>fs. GrantRequestPermissions os \<lparr>rpp_network = None, rpp_fileSystem = Some fs\<rparr> scope engine)
            in if ev_sideEffect event = ''read'' then grant (no_permissions\<lparr>fs_read := [path]\<rparr>)
               else if ev_sideEffect event = ''write'' \<or> ev_sideEffect event = ''out_of_workspace''
               then grant (no_permissions\<lparr>fs_write := [path]\<rparr>)
               else (Inr [], engine)))"

definition derived_grant :: "string \<Rightarrow> args \<Rightarrow> string \<Rightarrow> GrantInput" where
  "derived_grant toolName as reason =
     (let (scope, kind) = DeriveScope toolName as
      in \<lparr>gi_tool = toolName, gi_decision = ''allow'', gi_reason = reason, gi_scope = scope,
          gi_kind = ScopeKind_string kind\<rparr>)"

definition persistPermissionGrant ::
    "world \<Rightarrow> string \<Rightarrow> args \<Rightarrow> string \<Rightarrow> Engine option \<Rightarrow> (string + Grant) \<times> Engine option" where
  "persistPermissionGrant w toolName as reason engine =
     (if engine = None then (Inl ''sandbox engine is not configured'', engine)
      else Engine_Grant w (derived_grant toolName as reason) engine)"

definition persistSessionPermissionGrant ::
    "world \<Rightarrow> string \<Rightarrow> args \<Rightarrow> string \<Rightarrow> Engine option \<Rightarrow> (string + Grant) \<times> Engine option" where
  "persistSessionPermissionGrant w toolName as reason engine =
     (if engine = None then (Inl ''sandbox engine is not configured'', engine)
      else Engine_GrantForSession w (derived_grant toolName as reason) engine)"

definition persistCommandPrefixGrant ::
    "world \<Rightarrow> string \<Rightarrow> string list \<Rightarrow> string \<Rightarrow> Engine option \<Rightarrow> (string + CommandPrefixGrant) \<times> Engine option" where
  "persistCommandPrefixGrant w toolName prefix reason engine =
     (if engine = None then (Inl ''sandbox engine is not configured'', engine)
      else Engine_GrantCommandPrefix w \<lparr>cpi_tool = toolName, cpi_prefix = prefix, cpi_reason = reason\<rparr> engine)"

end
