(* ===== verification/Tool_Gate.thy ===== *)
theory Tool_Gate
  imports Permission_Prompt
begin

text \<open>
  One tool call from the model to the tool: \<open>Registry.RunWithOptions\<close> (\<open>internal/tools/registry.go\<close>)
  and \<open>executeToolCall\<close> with the retries outside the sandbox (\<open>internal/agent/loop.go\<close>).  The state is
  the sandbox engine; every function also returns the runs it made, in order: the arguments a tool
  body was started with, the engine it was given and whether the call carried an approval.  What
  the boundary does to a result afterwards (redaction, output budgets, hook feedback, events to
  the surface) changes no decision and is not in the model.
\<close>

section \<open>The registry\<close>

record tool_start =
  started_args :: args
  started_engine :: "Engine option"
  started_granted :: bool

record RunOptions =
  ro_granted :: bool
  ro_mode :: PermissionMode
  ro_sandbox :: "Engine option"

text \<open>The request the registry evaluates: unlike the loop it takes the permission of the tool.\<close>

definition registry_request :: "string \<Rightarrow> Tool \<Rightarrow> args \<Rightarrow> Permission \<Rightarrow> bool \<Rightarrow> PermissionMode \<Rightarrow> RawRequest" where
  "registry_request name tool as permission granted mode =
     (sandboxRequest name tool as granted mode)\<lparr>raw_permission := Permission_string permission\<rparr>"

text \<open>The gate proper: \<open>None\<close> lets the body run.\<close>

definition registry_refusal ::
    "world \<Rightarrow> string \<Rightarrow> Tool \<Rightarrow> Permission \<Rightarrow> bool \<Rightarrow> Decision option \<Rightarrow> string option" where
  "registry_refusal w name tool permission granted decision =
     (let authorized = (case decision of
            Some d \<Rightarrow> dec_action d = ActionAllow \<and> (GrantMatched d \<or> AutoAllowed d)
          | None \<Rightarrow> False)
      in case decision of
           Some d \<Rightarrow>
             if dec_action d = ActionDeny then Some (Decision_ErrorString d)
             else if dec_action d = ActionPrompt \<and> \<not> granted
             then Some (''Error: Sandbox approval required for '' @ name @ '': '' @ dec_reason d)
             else if permission = PermissionAllow then None
             else if permission = PermissionPrompt then
               (if \<not> granted \<and> \<not> authorized
                then Some (''Error: Permission required for '' @ name @ '': '' @ safety_reason tool
                       @ '' The tool is marked \"prompt\" and was not executed.'')
                else None)
             else Some (''Error: Permission denied for '' @ name @ '': '' @ safety_reason tool)
         | None \<Rightarrow>
             if permission = PermissionAllow then None
             else if permission = PermissionPrompt then
               (if \<not> granted
                then Some (''Error: Permission required for '' @ name @ '': '' @ safety_reason tool
                       @ '' The tool is marked \"prompt\" and was not executed.'')
                else None)
             else Some (''Error: Permission denied for '' @ name @ '': '' @ safety_reason tool))"

definition RunWithOptions ::
    "world \<Rightarrow> registry \<Rightarrow> string \<Rightarrow> args \<Rightarrow> RunOptions \<Rightarrow> Result \<times> tool_start list" where
  "RunWithOptions w registry name as options =
     (case registry name of
        None \<Rightarrow> (errorResult (''Error: Unknown tool \"'' @ name @ ''\".''), [])
      | Some tool \<Rightarrow>
     (case (case RejectBeforePermission tool of None \<Rightarrow> None | Some reject \<Rightarrow> reject as) of
        Some res \<Rightarrow> (res, [])
      | None \<Rightarrow>
          (let bypassAll = (ro_mode options = PermissionModeBypassAll);
               permission = (if bypassAll then PermissionAllow else effectivePermission tool as);
               granted = (bypassAll \<or> ro_granted options);
               sandbox = (if bypassAll then None else ro_sandbox options);
               decision = (case sandbox of
                   None \<Rightarrow> None
                 | Some e \<Rightarrow> Some (Evaluate w None (Some e)
                     (registry_request name tool as permission granted (ro_mode options))))
           in case registry_refusal w name tool permission granted decision of
                Some message \<Rightarrow> ((errorResult message)\<lparr>SandboxDecision := decision\<rparr>, [])
              | None \<Rightarrow> ((tool_run tool as sandbox)\<lparr>SandboxDecision := decision\<rparr>,
                   [\<lparr>started_args = as, started_engine = sandbox, started_granted = granted\<rparr>]))))"

section \<open>Results of a call\<close>

datatype DenialCategory =
  DenialFiltered | DenialPermissionDenied | DenialApprovalCanceled | DenialSandboxBlock | DenialHookBlocked

record ToolResult =
  tr_status :: Status
  tr_output :: string
  tr_denial :: "DenialCategory option"
  tr_meta :: "string \<Rightarrow> string option"
  tr_changed :: "string list"
  tr_images :: "string list"

text \<open>
  What a call leaves: its result, whether the run is aborted, the engine, the tool runs, the
  requests the user was shown, and the cleanups left for the end of the run (\<open>runPermissions\<close>).
\<close>

record call_outcome =
  co_result :: ToolResult
  co_abort :: bool
  co_engine :: "Engine option"
  co_started :: "tool_start list"
  co_asked :: "PermissionRequest list"
  co_cleanups :: "cleanup list"

definition refused :: "string \<Rightarrow> DenialCategory option \<Rightarrow> ToolResult" where
  "refused message denial = \<lparr>tr_status = StatusError, tr_output = message, tr_denial = denial,
     tr_meta = (\<lambda>_. None), tr_changed = [], tr_images = []\<rparr>"

definition replied :: "string \<Rightarrow> ToolResult" where
  "replied output = \<lparr>tr_status = StatusOK, tr_output = output, tr_denial = None,
     tr_meta = (\<lambda>_. None), tr_changed = [], tr_images = []\<rparr>"

definition deniedPermissionResult :: "string \<Rightarrow> string \<Rightarrow> PermissionEvent \<Rightarrow> ToolResult" where
  "deniedPermissionResult name reason event =
     (let reason = trim_space reason;
          reason = (if reason = [] then ev_reason event else reason);
          reason = (if reason = [] then ''tool requires approval before execution'' else reason)
      in (refused (''Error: Permission denied for '' @ name @ '': '' @ reason)
           (Some (if ev_block event \<noteq> None then DenialSandboxBlock else DenialPermissionDenied)))
             \<lparr>tr_meta := [''permission_action'' \<mapsto> ''deny'']\<rparr>)"

definition canceledPermissionResult :: "string \<Rightarrow> string \<Rightarrow> ToolResult" where
  "canceledPermissionResult name reason =
     (let reason = trim_space reason; reason = (if reason = [] then ''cancelled in TUI'' else reason)
      in (refused (''Error: Permission approval cancelled for '' @ name @ '': '' @ reason) (Some DenialApprovalCanceled))
           \<lparr>tr_meta := [''permission_action'' \<mapsto> ''cancel'']\<rparr>)"

definition planModeDeniedResult :: "string \<Rightarrow> ToolResult" where
  "planModeDeniedResult name =
     refused (''Error: tool \"'' @ name @ ''\" is disabled while plan mode is active. Investigate read-only, record the plan with todo_write, then call exit_plan_mode to propose leaving plan mode.'') (Some DenialFiltered)"

definition run_result :: "Result \<Rightarrow> ToolResult" where
  "run_result res = \<lparr>tr_status = res_status res, tr_output = res_output res, tr_denial = None,
     tr_meta = res_meta res, tr_changed = res_changed res, tr_images = res_images res\<rparr>"

definition call_done :: "ToolResult \<Rightarrow> Engine option \<Rightarrow> call_outcome" where
  "call_done result engine = \<lparr>co_result = result, co_abort = False, co_engine = engine, co_started = [],
     co_asked = [], co_cleanups = []\<rparr>"

section \<open>Acting on a decision\<close>

datatype verdict = Approved "string list" | Refused string | Cancelled

text \<open>Grants one after the other; the first that fails refuses the call with its label.\<close>

fun grant_all :: "(string \<times> granting) list \<Rightarrow> string list \<Rightarrow> cleanup list \<Rightarrow> Engine option
    \<Rightarrow> verdict \<times> cleanup list \<times> Engine option" where
  "grant_all [] prefix cs engine = (Approved prefix, cs, engine)"
| "grant_all ((label, grant) # grants) prefix cs engine =
     (case grant engine of
        (Inl e, engine) \<Rightarrow> (Refused (label @ e), cs, engine)
      | (Inr c, engine) \<Rightarrow> grant_all grants prefix (cs @ c) engine)"

definition decide_call ::
    "world \<Rightarrow> Options \<Rightarrow> string \<Rightarrow> args \<Rightarrow> PermissionEvent \<Rightarrow> PermissionDecision \<Rightarrow> Engine option
      \<Rightarrow> verdict \<times> cleanup list \<times> Engine option" where
  "decide_call w opts name as event decision engine =
     (let os = w_os w; reason = trim_space (pd_reason decision);
          network = grantNetworkForSandboxPrompt os event;
          inline = grantInlineAdditionalPermissions os opts as;
          filesystem = grantFilesystemForSandboxPrompt os event
      in case pd_action decision of
        DecisionAllow \<Rightarrow> grant_all
          [(''failed to grant network permission: '', network GrantScopeTurn),
           (''failed to grant additional permissions: '', inline GrantScopeTurn),
           (''failed to grant filesystem permission: '', filesystem GrantScopeTurn)] [] [] engine
      | DecisionAllowStrict \<Rightarrow> grant_all
          [(''failed to grant network permission: '', network GrantScopeTurn),
           (''failed to grant additional permissions: '', inline GrantScopeTurn),
           (''failed to grant filesystem permission: '', filesystem GrantScopeTurn)] [] [] engine
      | DecisionAllowForSession \<Rightarrow>
          (if shellCommandAdditionalPermissionsRequested as then
             grant_all [(''failed to grant session additional permissions: '', inline GrantScopeSession)] [] [] engine
           else if networkSandboxPrompt event then
             grant_all [(''failed to grant session network permission: '', network GrantScopeSession)] [] [] engine
           else if filesystemSandboxPrompt event then
             grant_all [(''failed to grant session filesystem permission: '', filesystem GrantScopeSession)] [] [] engine
           else (Approved [], [], snd (persistSessionPermissionGrant w name as reason engine)))
      | DecisionAllowPrefix \<Rightarrow>
          (if ev_prefix event = [] then (Refused reason, [], engine)
           else grant_all [(''failed to grant network permission: '', network GrantScopeTurn)] (ev_prefix event) []
                  (Engine_GrantCommandPrefixForSession name (ev_prefix event) engine))
      | DecisionAlwaysAllowPrefix \<Rightarrow>
          (if ev_prefix event = [] then (Refused reason, [], engine)
           else (let (r, engine) = persistCommandPrefixGrant w name (ev_prefix event) reason engine;
                     prefix = (case r of Inr grant \<Rightarrow> Prefix grant | Inl _ \<Rightarrow> ev_prefix event)
                 in grant_all [(''failed to grant network permission: '', network GrantScopeTurn)] prefix [] engine))
      | DecisionAlwaysAllow \<Rightarrow> (Approved [], [], snd (persistPermissionGrant w name as reason engine))
      | DecisionCancel \<Rightarrow> (Cancelled, [], engine)
      | _ \<Rightarrow> (Refused reason, [], engine))"

definition shouldRequestPermission :: "Tool \<Rightarrow> args \<Rightarrow> bool \<Rightarrow> Decision option \<Rightarrow> bool \<Rightarrow> bool" where
  "shouldRequestPermission tool as permissionGranted decision forcePrompt =
     (if forcePrompt then True
      else if (case decision of Some d \<Rightarrow> dec_action d = ActionPrompt | None \<Rightarrow> False) then True
      else if \<not> permissionGranted \<and> shellCommandAdditionalPermissionsRequested as then True
      else if (case decision of Some d \<Rightarrow> dec_action d = ActionAllow | None \<Rightarrow> False) then False
      else if safety_permission tool \<noteq> PermissionPrompt then False
      else (case decision of
              Some d \<Rightarrow>
                if dec_action d = ActionPrompt \<and> dec_reason d = ReasonNetworkBlocked then True
                else if permissionGranted then False
                else dec_action d = ActionPrompt
            | None \<Rightarrow> \<not> permissionGranted))"

section \<open>Retries outside the sandbox\<close>

text \<open>Only a string asks for escalation here.\<close>

definition already_escalated :: "args \<Rightarrow> bool" where
  "already_escalated as =
     (case as ''sandbox_permissions'' of
        Some (ArgString value) \<Rightarrow> trim_space value = ''require_escalated'' | _ \<Rightarrow> False)"

definition meta_text :: "Result \<Rightarrow> string \<Rightarrow> string" where
  "meta_text res key = (case res_meta res key of Some v \<Rightarrow> v | None \<Rightarrow> [])"

definition sandboxDeniedNetworkRetryCandidate :: "string \<Rightarrow> args \<Rightarrow> Result \<Rightarrow> Engine option \<Rightarrow> bool" where
  "sandboxDeniedNetworkRetryCandidate name as res engine =
     (if engine = None \<or> \<not> isShellCommandTool name then False
      else if meta_text res ''sandbox_likely_denied'' \<noteq> ''true''
              \<or> meta_text res ''sandbox_denial_kind'' \<noteq> ''network'' then False
      else \<not> already_escalated as)"

definition sandboxDeniedShellResult :: "Result \<Rightarrow> bool" where
  "sandboxDeniedShellResult res =
     (res_status res = StatusError \<and> meta_text res ''sandbox_likely_denied'' = ''true'')"

definition sandboxNamespaceLimitedShellResult :: "Result \<Rightarrow> bool" where
  "sandboxNamespaceLimitedShellResult res =
     (if res_status res \<noteq> StatusOK then False
      else if meta_text res ''sandbox_wrapped'' \<noteq> ''true'' then False
      else if meta_text res ''sandbox_backend'' \<noteq> ''linux-bwrap''
              \<and> meta_text res ''sandbox_target_backend'' \<noteq> ''linux-bwrap'' then False
      else (let output = to_lower (res_output res)
            in contains output ''bwrap '' \<and> contains output ''--unshare-pid'' \<and> contains output ''-- /bin/sh -c''))"

definition sandboxRestrictedShellRetryCandidate :: "os \<Rightarrow> string \<Rightarrow> args \<Rightarrow> Result \<Rightarrow> Engine option \<Rightarrow> bool" where
  "sandboxRestrictedShellRetryCandidate os name as res engine =
     (if engine = None \<or> \<not> isShellCommandTool name then False
      else if \<not> UnsandboxedExecutionAllowed os engine then False
      else if already_escalated as then False
      else sandboxDeniedShellResult res \<or> sandboxNamespaceLimitedShellResult res)"

definition sandboxNamespaceLimitedReason :: string where
  "sandboxNamespaceLimitedReason =
     ''sandbox output is limited to the sandbox PID namespace; host/global state requires approval''"

definition sandboxRestrictionRetryReason :: "Result \<Rightarrow> string" where
  "sandboxRestrictionRetryReason res =
     (if sandboxDeniedShellResult res then
        (let reason = trim_space (meta_text res ''sandbox_denial_reason'')
         in if reason \<noteq> [] then reason else ''sandbox blocked command execution'')
      else if sandboxNamespaceLimitedShellResult res then sandboxNamespaceLimitedReason
      else ''sandbox blocked command execution'')"

definition with_keyword :: "Result \<Rightarrow> string \<Rightarrow> string" where
  "with_keyword res reason =
     (let keyword = trim_space (meta_text res ''sandbox_denial_keyword'')
      in if keyword \<noteq> [] then reason @ '' ('' @ keyword @ '')'' else reason)"

definition ensureRiskCategory :: "Risk \<Rightarrow> string \<Rightarrow> RiskLevel \<Rightarrow> Risk" where
  "ensureRiskCategory risk category level =
     (let names = (if HasRiskCategory risk category then Categories risk else sort (Categories risk @ [category]))
      in \<lparr>Level = level, Categories = names,
          risk_reason = (if names \<noteq> [] then RiskLevel_string level @ '' risk: '' @ join '', '' names
                         else risk_reason risk)\<rparr>)"

text \<open>The event of a retry; the flag tells the network retry from the other one.\<close>

definition retry_event ::
    "world \<Rightarrow> Options \<Rightarrow> string \<Rightarrow> Tool \<Rightarrow> args \<Rightarrow> PermissionMode \<Rightarrow> bool \<Rightarrow> Result \<Rightarrow> PermissionEvent" where
  "retry_event w opts name tool as mode network res =
     (let reason = (if network then ReasonNetworkBlocked else with_keyword res (sandboxRestrictionRetryReason res));
          risk = classify_raw w ((event_request name tool as False mode)\<lparr>raw_reason := reason\<rparr>);
          risk = (if network then ensureRiskCategory risk ''network'' RiskCritical else risk)
      in \<lparr>ev_tool = name, ev_action = Some ActionPrompt, ev_permission = ''prompt'', ev_granted = False,
          ev_sideEffect = ''shell'', ev_reason = reason, ev_scope = permissionScope name as,
          ev_risk = Some risk, ev_block = None, ev_grantMatched = False, ev_grant = None,
          ev_prefix = proposed_prefix opts name as\<rparr>)"

definition unsandboxedRetryArgs :: "args \<Rightarrow> args" where
  "unsandboxedRetryArgs as = as(''sandbox_permissions'' \<mapsto> ArgString ''require_escalated'')"

definition retry_run ::
    "world \<Rightarrow> registry \<Rightarrow> string \<Rightarrow> args \<Rightarrow> PermissionMode \<Rightarrow> Engine option \<Rightarrow> Result \<times> tool_start list" where
  "retry_run w registry name as mode engine =
     RunWithOptions w registry name as \<lparr>ro_granted = True, ro_mode = mode, ro_sandbox = engine\<rparr>"

datatype retry = No_Retry | Retried "Result \<times> tool_start list" | Direct ToolResult bool

abbreviation run_cleanups_opt :: "cleanup list \<Rightarrow> Engine option \<Rightarrow> Engine option" where
  "run_cleanups_opt cs engine \<equiv> map_option (run_cleanups cs) engine"

definition maybeRetryWithNetworkAfterSandboxDenial ::
    "world \<Rightarrow> registry \<Rightarrow> Options \<Rightarrow> string \<Rightarrow> Tool \<Rightarrow> args \<Rightarrow> Result \<Rightarrow> PermissionMode \<Rightarrow> Engine option
      \<Rightarrow> retry \<times> PermissionRequest list \<times> Engine option" where
  "maybeRetryWithNetworkAfterSandboxDenial w registry opts name tool as res mode engine =
     (if \<not> sandboxDeniedNetworkRetryCandidate name as res engine then (No_Retry, [], engine)
      else (let event = retry_event w opts name tool as mode True res;
                request = permissionRequestFromEvent event as engine
            in if mode = PermissionUnsafe then (Retried (retry_run w registry name as mode engine), [], engine)
               else (let decision = ask_decision opts request;
                         reason = trim_space (pd_reason decision);
                         reason = (if reason = [] then ev_reason event else reason);
                         grant = (\<lambda>scope. case grantNetworkForSandboxPrompt (w_os w) event scope engine of
                             (Inl e, engine) \<Rightarrow> (Direct (deniedPermissionResult name
                                 (''failed to grant network permission: '' @ e) event) False, [request], engine)
                           | (Inr cs, engine) \<Rightarrow> (Retried (retry_run w registry name as mode engine), [request],
                                 run_cleanups_opt cs engine))
                     in case pd_action decision of
                          DecisionAllow \<Rightarrow> grant GrantScopeTurn
                        | DecisionAllowStrict \<Rightarrow> grant GrantScopeTurn
                        | DecisionAllowForSession \<Rightarrow> grant GrantScopeSession
                        | DecisionCancel \<Rightarrow> (Direct (canceledPermissionResult name reason) True, [request], engine)
                        | _ \<Rightarrow> (Direct (deniedPermissionResult name reason event) False, [request], engine))))"

definition maybeRetryUnsandboxed ::
    "world \<Rightarrow> registry \<Rightarrow> Options \<Rightarrow> string \<Rightarrow> Tool \<Rightarrow> args \<Rightarrow> Result \<Rightarrow> PermissionMode \<Rightarrow> Engine option
      \<Rightarrow> retry \<times> PermissionRequest list \<times> Engine option" where
  "maybeRetryUnsandboxed w registry opts name tool as res mode engine =
     (case maybeRetryWithNetworkAfterSandboxDenial w registry opts name tool as res mode engine of
        (No_Retry, asked, engine) \<Rightarrow>
          (if \<not> sandboxRestrictedShellRetryCandidate (w_os w) name as res engine then (No_Retry, [], engine)
           else (let event = retry_event w opts name tool as mode False res;
                     request = permissionRequestFromEvent event as engine;
                     again = (\<lambda>asked engine.
                       (Retried (retry_run w registry name (unsandboxedRetryArgs as) mode engine), asked, engine))
                 in if mode = PermissionUnsafe then again [] engine
                    else (let decision = ask_decision opts request;
                              reason = trim_space (pd_reason decision);
                              reason = (if reason = [] then ev_reason event else reason)
                          in case pd_action decision of
                               DecisionAllow \<Rightarrow> again [request] engine
                             | DecisionAllowStrict \<Rightarrow> again [request] engine
                             | DecisionAllowForSession \<Rightarrow> again [request] engine
                             | DecisionAllowPrefix \<Rightarrow>
                                 (if ev_prefix event = [] then (Direct (deniedPermissionResult name reason event) False, [request], engine)
                                  else again [request] (Engine_GrantCommandPrefixForSession name (ev_prefix event) engine))
                             | DecisionAlwaysAllowPrefix \<Rightarrow>
                                 (if ev_prefix event = [] then (Direct (deniedPermissionResult name reason event) False, [request], engine)
                                  else again [request] (snd (persistCommandPrefixGrant w name (ev_prefix event) reason engine)))
                             | DecisionCancel \<Rightarrow> (Direct (canceledPermissionResult name reason) True, [request], engine)
                             | _ \<Rightarrow> (Direct (deniedPermissionResult name reason event) False, [request], engine))))
      | r \<Rightarrow> r)"

section \<open>Calls the loop answers itself\<close>

definition executeAskUser ::
    "world \<Rightarrow> registry \<Rightarrow> Options \<Rightarrow> string \<Rightarrow> args \<Rightarrow> PermissionMode \<Rightarrow> Engine option \<Rightarrow> call_outcome" where
  "executeAskUser w registry opts name as mode engine =
     (let fallback = (case registry name of
            Some _ \<Rightarrow> (let (res, started) = retry_run w registry name as mode engine
                       in (call_done (run_result res) engine)\<lparr>co_started := started\<rparr>)
          | None \<Rightarrow> call_done (replied ''No interactive user is available to answer questions. Proceed with your best assumption, explicitly stating the assumptions you are making.'') engine)
      in case parse_questions opts as of
           Inl e \<Rightarrow> call_done (refused (''Error: Invalid arguments for ask_user: '' @ e) None) engine
         | Inr questions \<Rightarrow>
             (case OnAskUser opts of
                None \<Rightarrow> fallback
              | Some ask \<Rightarrow>
                  (case ask questions of
                     Ask_Cancelled e \<Rightarrow>
                       (call_done (refused (''Error: ask_user canceled: '' @ e) None) engine)\<lparr>co_abort := True\<rparr>
                   | Ask_Unavailable e \<Rightarrow> fallback
                   | Ask_Answers answers \<Rightarrow> call_done
                       (replied (format_answers opts questions answers)) engine)))"

definition planExitResult :: "bool \<Rightarrow> string \<Rightarrow> ToolResult" where
  "planExitResult approved output = (replied output)
     \<lparr>tr_meta := [''plan_exit'' \<mapsto> if approved then ''approved'' else ''declined'']\<rparr>"

definition executeExitPlanMode :: "Options \<Rightarrow> Engine option \<Rightarrow> call_outcome" where
  "executeExitPlanMode opts engine =
     (if \<not> PlanMode opts then
        call_done (replied ''exit_plan_mode has no effect: plan mode is not active.'') engine
      else (case OnAskUser opts of
        None \<Rightarrow> call_done (planExitResult False ''No interactive user is available to approve the plan; keep planning and finish with the plan in your reply.'') engine
      | Some ask \<Rightarrow>
          (case ask [''The plan is ready. Leave plan mode and execute it?''] of
             Ask_Cancelled e \<Rightarrow> (call_done (refused [] None) engine)\<lparr>co_abort := True\<rparr>
           | Ask_Unavailable e \<Rightarrow> (call_done (refused [] None) engine)\<lparr>co_abort := True\<rparr>
           | Ask_Answers answers \<Rightarrow>
               if answers \<noteq> [] \<and> has_prefix (to_lower (trim_space (hd answers))) ''yes''
               then call_done (planExitResult True ''Plan approved. Plan mode ends and execution begins on the next turn; do not attempt edits in this turn.'') engine
               else call_done (planExitResult False ''The user chose to keep planning. Refine the plan and call exit_plan_mode again when it is ready.'') engine)))"

definition requestPermissionsPrompt :: "RequestPermissionProfile \<Rightarrow> string \<Rightarrow> args \<Rightarrow> PermissionRequest" where
  "requestPermissionsPrompt profile reason as =
     \<lparr>pr_event = zero_event\<lparr>ev_tool := ''request_permissions'', ev_action := Some ActionPrompt,
          ev_permission := ''prompt'', ev_sideEffect := ''permissions'',
          ev_reason := (if trim_space reason = [] then ''The agent is requesting additional permissions.''
                        else trim_space reason),
          ev_scope := requestPermissionsScope profile\<rparr>,
      pr_args = as,
      AvailableDecisions = [DecisionAllow, DecisionAllowStrict, DecisionAllowForSession, DecisionDeny]\<rparr>"

definition request_error :: "string \<Rightarrow> Engine option \<Rightarrow> call_outcome" where
  "request_error message engine = call_done (refused message None) engine"

definition no_profile :: RequestPermissionProfile where
  "no_profile = \<lparr>rpp_network = None, rpp_fileSystem = None\<rparr>"

definition permissions_response ::
    "Options \<Rightarrow> RequestPermissionProfile \<Rightarrow> PermissionGrantScope \<Rightarrow> bool \<Rightarrow> ToolResult" where
  "permissions_response opts profile scope strict =
     replied (render_response opts \<lparr>Permissions = profile, resp_scope = scope, StrictAutoReview = strict\<rparr>)"

text \<open>A turn grant is kept to the end of the run, when its cleanup runs.\<close>

definition executeRequestPermissions ::
    "world \<Rightarrow> Options \<Rightarrow> args \<Rightarrow> PermissionMode \<Rightarrow> Engine option \<Rightarrow> call_outcome" where
  "executeRequestPermissions w opts as mode engine =
     (case decode_request opts as of
        Inl e \<Rightarrow> request_error (''Error: Invalid arguments for request_permissions: '' @ e) engine
      | Inr (reason, parsed) \<Rightarrow>
     (let normalized = NormalizeRequestPermissionProfile (w_os w) parsed (Cwd opts)
      in if RequestPermissionProfile_Empty normalized
         then request_error ''Error: request_permissions requires at least one permission.'' engine
         else (case RequestPermissionGrantProfile (w_os w) normalized of
        Inl e \<Rightarrow> request_error (''Error: Invalid permissions for request_permissions: '' @ e) engine
      | Inr grantProfile \<Rightarrow>
          if mode = PermissionModeBypassAll
          then call_done (permissions_response opts grantProfile GrantScopeTurn False) engine
          else if OnPermissionRequest opts = None
          then call_done (permissions_response opts no_profile GrantScopeTurn False) engine
          else (let request = requestPermissionsPrompt grantProfile reason as;
                    decision = ask_decision opts request;
                    answer = (\<lambda>scope strict.
                      if engine = None then request_error
                        ''Error: request_permissions cannot grant permissions because the sandbox engine is not configured.'' engine
                      else (case GrantRequestPermissions (w_os w) grantProfile scope engine of
                          (Inl e, engine) \<Rightarrow>
                            request_error (''Error: Failed to grant requested permissions: '' @ e) engine
                        | (Inr cs, engine) \<Rightarrow>
                            (call_done (permissions_response opts grantProfile scope strict) engine)
                              \<lparr>co_cleanups := (if scope = GrantScopeTurn then cs else [])\<rparr>))
                in (case pd_action decision of
                     DecisionAllow \<Rightarrow> answer GrantScopeTurn False
                   | DecisionAllowStrict \<Rightarrow> answer GrantScopeTurn True
                   | DecisionAllowForSession \<Rightarrow> answer GrantScopeSession False
                   | _ \<Rightarrow> call_done (permissions_response opts no_profile GrantScopeTurn False) engine)
                   \<lparr>co_asked := [request]\<rparr>))))"

section \<open>executeToolCall\<close>

text \<open>What refuses a call before anybody is asked.\<close>

definition early_refusal ::
    "os \<Rightarrow> Options \<Rightarrow> string \<Rightarrow> Tool option \<Rightarrow> args \<Rightarrow> ToolResult option" where
  "early_refusal os opts name tool as =
     (let toolSearchAllowed = (name = ''tool_search'' \<and> \<not> containsToolName (DisabledTools opts) ''tool_search'')
      in if \<not> toolSearchAllowed \<and> \<not> ToolAllowedByFilters name (EnabledTools opts) (DisabledTools opts)
         then Some (refused (''Error: Tool \"'' @ name @ ''\" is not enabled for this run.'') (Some DenialFiltered))
         else if PlanMode opts \<and> (tool = None \<or> planModeDenied name tool)
         then Some (planModeDeniedResult name)
         else (case tool of
            None \<Rightarrow> None
          | Some t \<Rightarrow>
              (case (case RejectBeforePermission t of None \<Rightarrow> None | Some reject \<Rightarrow> reject as) of
                 Some res \<Rightarrow> Some (run_result res)
               | None \<Rightarrow>
                   if isShellCommandTool name then
                     (case inlineAdditionalPermissionsProfile os opts as of
                        Inl e \<Rightarrow> Some (refused (''Error: '' @ e) None)
                      | Inr _ \<Rightarrow> None)
                   else None)))"

text \<open>The approval a call starts with: the mode, its profile, or an approved command prefix.\<close>

definition starting_grant ::
    "world \<Rightarrow> Options \<Rightarrow> string \<Rightarrow> Tool \<Rightarrow> args \<Rightarrow> PermissionMode \<Rightarrow> Engine option
      \<Rightarrow> bool \<times> PermissionDecisionAction" where
  "starting_grant w opts name tool as mode engine =
     (if mode = PermissionUnsafe \<or> mode = PermissionModeBypassAll \<or> profilePermission mode tool as = PermissionAllow
      then (True, DecisionOther [])
      else (case matchCommandPrefix w (onWindows opts) (parse_stmts opts) name as engine of
              Some (grant, session) \<Rightarrow> (True, if session then DecisionAllowPrefix else DecisionAlwaysAllowPrefix)
            | None \<Rightarrow> (False, DecisionOther [])))"

text \<open>From the beforeTool hooks on: the run, the retries, and the cleanups of the call.\<close>

definition run_call ::
    "world \<Rightarrow> registry \<Rightarrow> Options \<Rightarrow> string \<Rightarrow> Tool \<Rightarrow> args \<Rightarrow> PermissionMode \<Rightarrow> bool \<Rightarrow> PermissionDecisionAction
      \<Rightarrow> cleanup list \<Rightarrow> Engine option \<Rightarrow> call_outcome" where
  "run_call w registry opts name tool as mode granted action cs engine =
     (case BeforeTool opts name as of
        Some reason \<Rightarrow> call_done (refused reason (Some DenialHookBlocked)) (run_cleanups_opt cs engine)
      | None \<Rightarrow>
          (let as = shellExecutionArgsForApproval (w_os w) name as action engine;
               (res, started) = RunWithOptions w registry name as
                 \<lparr>ro_granted = granted, ro_mode = mode, ro_sandbox = engine\<rparr>
           in case maybeRetryUnsandboxed w registry opts name tool as res mode engine of
                (No_Retry, asked, engine) \<Rightarrow>
                  (call_done (run_result res) (run_cleanups_opt cs engine))\<lparr>co_started := started, co_asked := asked\<rparr>
              | (Retried (res, again), asked, engine) \<Rightarrow>
                  (call_done (run_result res) (run_cleanups_opt cs engine))
                    \<lparr>co_started := started @ again, co_asked := asked\<rparr>
              | (Direct result abort, asked, engine) \<Rightarrow>
                  (call_done result (run_cleanups_opt cs engine))
                    \<lparr>co_abort := abort, co_started := started, co_asked := asked\<rparr>))"

text \<open>What follows from the answer to the prompt.\<close>

definition answer_call ::
    "world \<Rightarrow> registry \<Rightarrow> Options \<Rightarrow> string \<Rightarrow> Tool \<Rightarrow> args \<Rightarrow> PermissionMode \<Rightarrow> PermissionEvent
      \<Rightarrow> PermissionDecision \<Rightarrow> Engine option \<Rightarrow> call_outcome" where
  "answer_call w registry opts name tool as mode event decision engine =
     (case decide_call w opts name as event decision engine of
        (Approved prefix, cs, engine) \<Rightarrow>
          run_call w registry opts name tool as mode True (pd_action decision) cs engine
      | (Refused reason, cs, engine) \<Rightarrow>
          call_done (deniedPermissionResult name reason event) (run_cleanups_opt cs engine)
      | (Cancelled, cs, engine) \<Rightarrow>
          (call_done (canceledPermissionResult name (trim_space (pd_reason decision)))
             (run_cleanups_opt cs engine))\<lparr>co_abort := True\<rparr>)"

text \<open>The prompt, when one is due.\<close>

definition prompt_call ::
    "world \<Rightarrow> registry \<Rightarrow> Options \<Rightarrow> string \<Rightarrow> Tool \<Rightarrow> args \<Rightarrow> PermissionMode \<Rightarrow> bool \<Rightarrow> PermissionDecisionAction
      \<Rightarrow> string option \<Rightarrow> Engine option \<Rightarrow> call_outcome" where
  "prompt_call w registry opts name tool as mode granted action forced engine =
     (let preflight = (case engine of
            None \<Rightarrow> None
          | Some e \<Rightarrow> Some (Evaluate w None (Some e) (sandboxRequest name tool as granted mode)));
          forced_event = (\<lambda>reason. policyPermissionEvent w opts name tool as mode preflight ActionPrompt reason)
      in if forced \<noteq> None \<and> OnPermissionRequest opts = None then
           (let reason = the forced in call_done (deniedPermissionResult name reason (forced_event reason)) engine)
         else if OnPermissionRequest opts \<noteq> None
                 \<and> shouldRequestPermission tool as granted preflight (forced \<noteq> None) then
           (let event = (case forced of
                  Some reason \<Rightarrow> forced_event reason
                | None \<Rightarrow> (case buildPermissionEvent w opts name tool as granted mode preflight of
                      Some event \<Rightarrow> event
                    | None \<Rightarrow> fallbackPermissionEvent w opts name tool as mode));
                request = permissionRequestFromEvent event as engine;
                decision = ask_decision opts request;
                outcome = answer_call w registry opts name tool as mode event decision engine
            in outcome\<lparr>co_asked := request # co_asked outcome\<rparr>)
         else run_call w registry opts name tool as mode granted action [] engine)"

text \<open>A tool the registry has: its approval, the rules, the prompt and the run.\<close>

definition gate_call ::
    "world \<Rightarrow> registry \<Rightarrow> Options \<Rightarrow> string \<Rightarrow> Tool \<Rightarrow> args \<Rightarrow> PermissionMode \<Rightarrow> Engine option \<Rightarrow> call_outcome" where
  "gate_call w registry opts name tool as mode engine =
     (let (granted, action) = starting_grant w opts name tool as mode engine
      in case evaluatePermissionRules w (PermissionRules opts) name tool as mode of
           Some (ActionDeny, reason) \<Rightarrow>
             call_done (deniedPermissionResult name reason
               (policyPermissionEvent w opts name tool as mode None ActionDeny reason)) engine
         | Some (ActionAllow, reason) \<Rightarrow> prompt_call w registry opts name tool as mode True DecisionAllow None engine
         | Some (ActionPrompt, reason) \<Rightarrow> prompt_call w registry opts name tool as mode False action (Some reason) engine
         | None \<Rightarrow> prompt_call w registry opts name tool as mode granted action None engine)"

definition decodeCallArgs :: "Options \<Rightarrow> ToolCall \<Rightarrow> string + args" where
  "decodeCallArgs opts call =
     (if call_Arguments call = [] then Inr (\<lambda>_. None) else decode_args opts (call_Arguments call))"

definition executeToolCall ::
    "world \<Rightarrow> registry \<Rightarrow> Options \<Rightarrow> ToolCall \<Rightarrow> PermissionMode \<Rightarrow> Engine option \<Rightarrow> call_outcome" where
  "executeToolCall w registry opts call mode engine =
     (let name = call_Name call
      in case decodeCallArgs opts call of
           Inl e \<Rightarrow> call_done (refused (''Error: Failed to parse arguments for '' @ name @ '': '' @ e) None) engine
         | Inr as \<Rightarrow>
             (case early_refusal (w_os w) opts name (registry name) as of
                Some result \<Rightarrow> call_done result engine
              | None \<Rightarrow>
                  if name = ''ask_user'' then executeAskUser w registry opts name as mode engine
                  else if name = ''request_permissions'' then executeRequestPermissions w opts as mode engine
                  else if name = ''exit_plan_mode'' then executeExitPlanMode opts engine
                  else (case registry name of
                          None \<Rightarrow> (let (res, started) = RunWithOptions w registry name as
                              \<lparr>ro_granted = (mode = PermissionUnsafe \<or> mode = PermissionModeBypassAll),
                               ro_mode = mode, ro_sandbox = engine\<rparr>
                             in (call_done (run_result res) engine)\<lparr>co_started := started\<rparr>)
                        | Some tool \<Rightarrow> gate_call w registry opts name tool as mode engine)))"

end
