(* ===== verification/Run_Policies.thy ===== *)
theory Run_Policies
  imports Context_Tail Tool_Gate
begin

text \<open>
  The small policies of a run (\<open>internal/agent\<close>): the record of the task (\<open>task_state.go\<close>), the
  completion gate (\<open>completion_policy.go\<close>), the one-shot escalation of an execution profile
  (\<open>profile_controller.go\<close>), the names a model may use for a tool (\<open>tool_alias.go\<close>), and what the loop
  reads off a tool result (\<open>loop.go\<close>).
\<close>

section \<open>Completion\<close>

definition maxContinueNudges :: nat where "maxContinueNudges = 3"

datatype CompletionDecision = CompletionNone | CompletionUncertain | CompletionComplete | CompletionIncomplete

datatype completionAction = ActionNone | ActionContinue | ActionSemanticCheck

record completionEvaluation =
  eval_Decision :: CompletionDecision
  eval_Action :: completionAction
  eval_Reason :: string

record completionPolicy =
  continueNudges :: nat
  requireSemanticCheck :: bool
  semanticCheckRequested :: bool

record completionContext =
  ctx_Objective :: string
  PlanPending :: bool
  PlanMatchesTranscript :: bool

definition newCompletionPolicy :: "bool \<Rightarrow> completionPolicy" where
  "newCompletionPolicy require =
     \<lparr>continueNudges = 0, requireSemanticCheck = require, semanticCheckRequested = False\<rparr>"

definition mid_step_reason :: string where "mid_step_reason = ''your message ended mid-step''"

definition pending_plan_reason :: string where
  "pending_plan_reason = ''pending plan items remain '' @ em_dash @
     '' finish them, or mark them complete with todo_write if you are done''"

definition evaluate :: "string \<Rightarrow> completionContext \<Rightarrow> completionPolicy \<Rightarrow> completionEvaluation \<times> completionPolicy" where
  "evaluate text' context' policy =
     (let reason = selfReportedIncompletion text'; cue = endsWithContinuationCue text'
      in if reason \<noteq> [] then
           (\<lparr>eval_Decision = CompletionIncomplete, eval_Action = ActionNone, eval_Reason = reason\<rparr>, policy)
         else if (cue \<or> PlanPending context') \<and> continueNudges policy < maxContinueNudges then
           (\<lparr>eval_Decision = CompletionUncertain, eval_Action = ActionContinue,
              eval_Reason = (if cue then mid_step_reason else pending_plan_reason)\<rparr>,
            policy\<lparr>continueNudges := Suc (continueNudges policy)\<rparr>)
         else if (cue \<or> PlanPending context') \<and> cue then
           (\<lparr>eval_Decision = CompletionIncomplete, eval_Action = ActionNone, eval_Reason = mid_step_reason\<rparr>, policy)
         else if requireSemanticCheck policy \<and> \<not> semanticCheckRequested policy then
           (\<lparr>eval_Decision = CompletionUncertain, eval_Action = ActionSemanticCheck, eval_Reason = []\<rparr>,
            policy\<lparr>semanticCheckRequested := True\<rparr>)
         else (\<lparr>eval_Decision = CompletionComplete, eval_Action = ActionNone, eval_Reason = []\<rparr>, policy))"

section \<open>The task record\<close>

datatype taskStatus = TaskActive | TaskComplete | TaskIncomplete

datatype taskPlanParity = ParityUnknown | ParityMatch | ParityMismatch

datatype Outcome = OutcomeDisabled | OutcomePassed | OutcomeCorrecting | OutcomeReported | OutcomeAborted

record taskPlanState =
  plan_Items :: "taskPlanItem list"
  plan_Pending :: nat
  plan_InProgress :: nat
  plan_Completed :: nat
  plan_Failed :: nat

record taskState =
  Revision :: nat
  task_Objective :: string
  task_Status :: taskStatus
  task_Plan :: taskPlanState
  ToolsSucceeded :: nat
  ToolsFailed :: nat
  VerificationPassed :: nat
  VerificationFailed :: nat
  LastOutcome :: "Outcome option"
  ChangedFiles :: "string list"
  task_Decision :: CompletionDecision
  task_Reason :: string
  PlanParity :: taskPlanParity
  planObserved :: bool

text \<open>An event of the run; the last two fields of a tool result are the ones the record reads.\<close>

datatype taskStateEvent =
  TaskPlan string
| TaskToolResult Status "string list"
| TaskVerification Outcome
| TaskCompletion completionEvaluation

definition empty_plan :: taskPlanState where
  "empty_plan = \<lparr>plan_Items = [], plan_Pending = 0, plan_InProgress = 0, plan_Completed = 0, plan_Failed = 0\<rparr>"

definition newTaskState :: "string \<Rightarrow> taskState" where
  "newTaskState objective = \<lparr>Revision = 0, task_Objective = trim_space objective, task_Status = TaskActive,
     task_Plan = empty_plan, ToolsSucceeded = 0, ToolsFailed = 0, VerificationPassed = 0, VerificationFailed = 0,
     LastOutcome = None, ChangedFiles = [], task_Decision = CompletionNone, task_Reason = [],
     PlanParity = ParityUnknown, planObserved = False\<rparr>"

definition count_item :: "taskPlanItem \<Rightarrow> taskPlanState \<Rightarrow> taskPlanState" where
  "count_item it plan =
     (if item_Status it = ''completed'' then plan\<lparr>plan_Completed := Suc (plan_Completed plan)\<rparr>
      else if item_Status it = ''in_progress'' then plan\<lparr>plan_InProgress := Suc (plan_InProgress plan)\<rparr>
      else if item_Status it = ''failed'' then plan\<lparr>plan_Failed := Suc (plan_Failed plan)\<rparr>
      else plan\<lparr>plan_Pending := Suc (plan_Pending plan)\<rparr>)"

definition summarizeTaskPlan :: "taskPlanItem list \<Rightarrow> taskPlanState" where
  "summarizeTaskPlan items = fold count_item items (empty_plan\<lparr>plan_Items := items\<rparr>)"

definition markActive :: "taskState \<Rightarrow> taskState" where
  "markActive state = state\<lparr>task_Status := TaskActive, task_Decision := CompletionNone, task_Reason := []\<rparr>"

text \<open>The set of changed files is kept as the sorted list of its elements, what \<open>sortedKeys\<close> returns.\<close>

definition add_path :: "string \<Rightarrow> string list \<Rightarrow> string list" where
  "add_path path paths =
     (let p = trim_space path in if p = [] \<or> p \<in> set paths then paths else sort (p # paths))"

definition observe_event :: "(string \<Rightarrow> todos_arg) \<Rightarrow> taskStateEvent \<Rightarrow> taskState \<Rightarrow> taskState option" where
  "observe_event decode event state =
     (case event of
        TaskPlan arguments \<Rightarrow>
          map_option (\<lambda>plan. markActive (state\<lparr>task_Plan := summarizeTaskPlan plan, planObserved := True\<rparr>))
            (parseTaskPlan decode arguments)
      | TaskToolResult status changed \<Rightarrow>
          (let s = markActive state;
               s = (if status = StatusOK then s\<lparr>ToolsSucceeded := Suc (ToolsSucceeded s)\<rparr>
                    else s\<lparr>ToolsFailed := Suc (ToolsFailed s)\<rparr>)
           in Some (s\<lparr>ChangedFiles := fold add_path changed (ChangedFiles s)\<rparr>))
      | TaskVerification outcome \<Rightarrow>
          (if outcome = OutcomeDisabled then None
           else (let s = (markActive state)\<lparr>LastOutcome := Some outcome\<rparr>
                 in Some (if outcome = OutcomePassed then s\<lparr>VerificationPassed := Suc (VerificationPassed s)\<rparr>
                          else s\<lparr>VerificationFailed := Suc (VerificationFailed s)\<rparr>)))
      | TaskCompletion evaluation \<Rightarrow>
          Some (state\<lparr>task_Decision := eval_Decision evaluation, task_Reason := eval_Reason evaluation,
            task_Status := (case eval_Decision evaluation of
                CompletionComplete \<Rightarrow> TaskComplete | CompletionIncomplete \<Rightarrow> TaskIncomplete | _ \<Rightarrow> TaskActive)\<rparr>))"

definition observe :: "(string \<Rightarrow> todos_arg) \<Rightarrow> taskStateEvent \<Rightarrow> taskState \<Rightarrow> bool \<times> taskState" where
  "observe decode event state =
     (case observe_event decode event state of
        None \<Rightarrow> (False, state)
      | Some s \<Rightarrow> (True, s\<lparr>Revision := Suc (Revision s)\<rparr>))"

text \<open>The last plan call of the transcript: its plan, \<open>None\<close> when it does not parse; the outer \<open>None\<close> is no call.\<close>

definition latestTaskPlan :: "(string \<Rightarrow> todos_arg) \<Rightarrow> Message list \<Rightarrow> taskPlanItem list option option" where
  "latestTaskPlan decode messages =
     (case find (\<lambda>call. call_Name call = planToolName) (rev (concat (map msg_calls messages))) of
        None \<Rightarrow> None
      | Some call \<Rightarrow> Some (parseTaskPlan decode (call_Arguments call)))"

definition observePlanParity :: "(string \<Rightarrow> todos_arg) \<Rightarrow> Message list \<Rightarrow> taskState \<Rightarrow> taskPlanParity \<times> taskState" where
  "observePlanParity decode messages state =
     (let parity = (case latestTaskPlan decode messages of
             None \<Rightarrow> (if planObserved state then ParityMismatch else ParityMatch)
           | Some None \<Rightarrow> ParityMismatch
           | Some (Some plan) \<Rightarrow>
               (if planObserved state \<and> plan = plan_Items (task_Plan state) then ParityMatch else ParityMismatch))
      in (parity, if PlanParity state \<noteq> parity
                  then state\<lparr>PlanParity := parity, Revision := Suc (Revision state)\<rparr> else state))"

definition completion_context ::
    "(string \<Rightarrow> todos_arg) \<Rightarrow> Message list \<Rightarrow> bool \<Rightarrow> taskState \<Rightarrow> completionContext \<times> taskState" where
  "completion_context decode messages transcriptPlanPending state =
     (let (parity, s) = observePlanParity decode messages state;
          matches = (parity = ParityMatch)
      in (\<lparr>ctx_Objective = task_Objective s,
           PlanPending = (if matches then 0 < plan_Pending (task_Plan s) + plan_InProgress (task_Plan s)
                          else transcriptPlanPending),
           PlanMatchesTranscript = matches\<rparr>, s))"

section \<open>The posture of a run\<close>

text \<open>Levels of risk are ranked by \<open>riskRank\<close>; \<open>None\<close> is a level that is not one of the four.\<close>

record PostureEscalation =
  esc_MaxTurns :: int
  esc_Effort :: string
  RestoreDefaultEffort :: bool
  RestoreCompletionGate :: bool
  OnToolFailureStreak :: int
  OnCompletionUncertain :: int
  OnSelfCorrectFailure :: bool
  OnRiskyMutation :: "RiskLevel option"

record profileController =
  esc_policy :: "PostureEscalation option"
  escalated :: bool
  uncertainSeen :: int
  failureTripped :: bool
  riskTripped :: bool
  scTripped :: bool
  uncertainTrip :: bool

definition newProfileController :: "PostureEscalation option \<Rightarrow> profileController" where
  "newProfileController policy = \<lparr>esc_policy = policy, escalated = False, uncertainSeen = 0,
     failureTripped = False, riskTripped = False, scTripped = False, uncertainTrip = False\<rparr>"

definition posture_rank :: "RiskLevel option \<Rightarrow> nat" where
  "posture_rank level = (case level of None \<Rightarrow> 0 | Some RiskLow \<Rightarrow> 1 | Some RiskMedium \<Rightarrow> 2
     | Some RiskHigh \<Rightarrow> 3 | Some RiskCritical \<Rightarrow> 4)"

definition observeToolOutcome ::
    "tool_outcome \<Rightarrow> DenialCategory option \<Rightarrow> RiskLevel option \<Rightarrow> profileController \<Rightarrow> profileController" where
  "observeToolOutcome outcome denial risk c =
     (case esc_policy c of
        None \<Rightarrow> c
      | Some p \<Rightarrow>
          if escalated c then c
          else (let c = (if 0 < OnToolFailureStreak p \<and> OnToolFailureStreak p \<le> int (Count outcome)
                         then c\<lparr>failureTripped := True\<rparr> else c);
                    threshold = posture_rank (OnRiskyMutation p)
                in if 0 < threshold \<and> denial = None \<and> threshold \<le> posture_rank risk
                   then c\<lparr>riskTripped := True\<rparr> else c))"

definition observeUncertain :: "profileController \<Rightarrow> profileController" where
  "observeUncertain c =
     (case esc_policy c of
        None \<Rightarrow> c
      | Some p \<Rightarrow>
          if escalated c \<or> OnCompletionUncertain p \<le> 0 then c
          else (let c = c\<lparr>uncertainSeen := uncertainSeen c + 1\<rparr>
                in if OnCompletionUncertain p \<le> uncertainSeen c then c\<lparr>uncertainTrip := True\<rparr> else c))"

definition observeSelfCorrect :: "Outcome \<Rightarrow> profileController \<Rightarrow> profileController" where
  "observeSelfCorrect outcome c =
     (case esc_policy c of
        None \<Rightarrow> c
      | Some p \<Rightarrow>
          if escalated c \<or> \<not> OnSelfCorrectFailure p then c
          else if outcome \<in> {OutcomeCorrecting, OutcomeReported, OutcomeAborted}
          then c\<lparr>scTripped := True\<rparr> else c)"

definition maybeEscalate :: "profileController \<Rightarrow> PostureEscalation option \<times> profileController" where
  "maybeEscalate c =
     (case esc_policy c of
        None \<Rightarrow> (None, c)
      | Some p \<Rightarrow>
          if escalated c then (None, c)
          else if \<not> (failureTripped c \<or> riskTripped c \<or> scTripped c \<or> uncertainTrip c) then (None, c)
          else (Some p, c\<lparr>escalated := True\<rparr>))"

section \<open>Names of tools\<close>

definition toolNameAliases :: "(string \<times> string) list" where
  "toolNameAliases =
    [(''cat'', ''read_file''), (''read'', ''read_file''), (''ls'', ''list_directory''),
     (''list_files'', ''list_directory''), (''rg'', ''grep''), (''ripgrep'', ''grep''), (''search'', ''grep''),
     (''find_files'', ''glob''), (''glob_files'', ''glob''), (''shell'', ''exec_command''),
     (''terminal'', ''exec_command''), (''exec'', ''exec_command''), (''patch'', ''apply_patch''),
     (''apply_patch_tool'', ''apply_patch''), (''edit'', ''edit_file''), (''write'', ''write_file'')]"

definition canonicalToolName :: "registry \<Rightarrow> string \<Rightarrow> string \<times> bool" where
  "canonicalToolName registry name =
     (if name = [] then (name, False)
      else if registry name \<noteq> None then (name, True)
      else (case map_of toolNameAliases name of
              None \<Rightarrow> (name, False)
            | Some alias \<Rightarrow> if registry alias = None then (name, False) else (alias, True)))"

definition canonicalizeToolCalls :: "registry \<Rightarrow> ToolCall list \<Rightarrow> ToolCall list" where
  "canonicalizeToolCalls registry calls =
     map (\<lambda>call. case canonicalToolName registry (call_Name call) of
                   (canonical, found) \<Rightarrow> if found then call\<lparr>call_Name := canonical\<rparr> else call) calls"

section \<open>Results of tools\<close>

definition isRetriableToolError :: "ToolResult \<Rightarrow> bool" where
  "isRetriableToolError result \<longleftrightarrow>
     tr_status result = StatusError \<and> tr_denial result = None \<and>
     tr_meta result ''permission_action'' \<noteq> Some ''deny'' \<and>
     \<not> contains_any (tr_output result) [''is not enabled for this run'', ''Permission denied for '',
        ''Permission required for '', ''Sandbox block'', ''Sandbox approval required for '']"

definition meta_value :: "(string \<Rightarrow> string option) \<Rightarrow> string \<Rightarrow> string" where
  "meta_value meta key = (case meta key of None \<Rightarrow> [] | Some v \<Rightarrow> v)"

definition loadedToolsFromResult :: "(string \<Rightarrow> string option) \<Rightarrow> string list" where
  "loadedToolsFromResult meta =
     (let raw = meta_value meta ''load_tools''
      in if trim_space raw = [] then []
         else filter (\<lambda>part. part \<noteq> []) (map trim_space (split_on CHR '','' raw)))"

definition dedupe_strings :: "string list \<Rightarrow> string list" where
  "dedupe_strings strings = rev (remdups (rev strings))"

definition abortedToolResultNotice :: string where
  "abortedToolResultNotice = ''aborted: run halted by the repeated-failure guard''"

definition tool_message :: "string \<Rightarrow> string \<Rightarrow> Message" where
  "tool_message callID content = \<lparr>msg_role = RoleTool, msg_content = content, msg_calls = [],
     msg_callID = callID, msg_images = [], msg_reasoning = []\<rparr>"

definition appendAbortedToolResults :: "Message list \<Rightarrow> ToolCall list \<Rightarrow> Message list" where
  "appendAbortedToolResults messages remaining =
     messages @ map (\<lambda>call. tool_message (call_ID call) abortedToolResultNotice) remaining"

text \<open>
  \<open>recoverable args\<close> is what \<open>encoding/json\<close> makes of trimmed arguments that are not one value: the
  text of the first value when only whole values follow it; \<open>valid_json\<close> is \<open>json.Valid\<close>.
\<close>

definition historySafeToolCalls ::
    "(string \<Rightarrow> bool) \<Rightarrow> (string \<Rightarrow> string option) \<Rightarrow> ToolCall list \<Rightarrow> ToolCall list" where
  "historySafeToolCalls valid_json recoverable calls =
     map (\<lambda>call. let as = trim_space (call_Arguments call)
                  in if as = [] then call\<lparr>call_Arguments := ''{}''\<rparr>
                     else if valid_json as then call
                     else (case recoverable as of
                             Some first \<Rightarrow> call\<lparr>call_Arguments := first\<rparr>
                           | None \<Rightarrow> call\<lparr>call_Arguments := ''{}''\<rparr>)) calls"

section \<open>The completion gate over a run\<close>

text \<open>The evaluations of a run, one for each turn that ends in text.\<close>

fun evaluations :: "(string \<times> completionContext) list \<Rightarrow> completionPolicy \<Rightarrow> completionEvaluation list" where
  "evaluations [] policy = []"
| "evaluations ((text', context') # turns) policy =
     (case evaluate text' context' policy of (ev, policy) \<Rightarrow> ev # evaluations turns policy)"

definition nudges_left :: "completionPolicy \<Rightarrow> nat" where
  "nudges_left policy = maxContinueNudges - continueNudges policy"

definition checks_left :: "completionPolicy \<Rightarrow> nat" where
  "checks_left policy = (if requireSemanticCheck policy \<and> \<not> semanticCheckRequested policy then 1 else 0)"

lemma evaluations_bounded:
  "length (filter (\<lambda>ev. eval_Action ev = ActionContinue) (evaluations turns policy)) \<le> nudges_left policy \<and>
   length (filter (\<lambda>ev. eval_Action ev = ActionSemanticCheck) (evaluations turns policy)) \<le> checks_left policy"
proof (induction turns arbitrary: policy)
  case (Cons turn turns)
  obtain text' context' where t: "turn = (text', context')" by (cases turn)
  obtain ev p where e: "evaluate text' context' policy = (ev, p)" by (cases "evaluate text' context' policy")
  have "(eval_Action ev = ActionContinue \<longrightarrow> Suc (nudges_left p) = nudges_left policy \<and> checks_left p = checks_left policy) \<and>
    (eval_Action ev = ActionSemanticCheck \<longrightarrow> Suc (checks_left p) = checks_left policy \<and> nudges_left p = nudges_left policy) \<and>
    (eval_Action ev = ActionNone \<longrightarrow> p = policy)"
    using e by (auto simp: evaluate_def nudges_left_def checks_left_def Let_def split: if_splits)
  with Cons.IH [of p] show ?case by (cases "eval_Action ev") (auto simp: t e)
qed simp

lemma evaluate_decision:
  "eval_Decision (fst (evaluate text' context' policy)) \<noteq> CompletionNone"
  "eval_Decision (fst (evaluate text' context' policy)) = CompletionUncertain \<longleftrightarrow>
     eval_Action (fst (evaluate text' context' policy)) \<noteq> ActionNone"
  by (auto simp: evaluate_def Let_def)

section \<open>The task record over a run\<close>

definition run_events :: "(string \<Rightarrow> todos_arg) \<Rightarrow> taskStateEvent list \<Rightarrow> taskState \<Rightarrow> taskState" where
  "run_events decode evs state = fold (\<lambda>ev s. snd (observe decode ev s)) evs state"

text \<open>The specification reads the whole list of events.\<close>

fun event_changes :: "taskStateEvent \<Rightarrow> string list" where
  "event_changes (TaskToolResult status changed) = changed"
| "event_changes _ = []"

fun event_counts :: "(string \<Rightarrow> todos_arg) \<Rightarrow> taskStateEvent \<Rightarrow> bool" where
  "event_counts decode (TaskPlan arguments) \<longleftrightarrow> parseTaskPlan decode arguments \<noteq> None"
| "event_counts decode (TaskVerification outcome) \<longleftrightarrow> outcome \<noteq> OutcomeDisabled"
| "event_counts decode _ \<longleftrightarrow> True"

fun event_plan :: "(string \<Rightarrow> todos_arg) \<Rightarrow> taskStateEvent \<Rightarrow> taskPlanItem list option" where
  "event_plan decode (TaskPlan arguments) = parseTaskPlan decode arguments"
| "event_plan decode _ = None"

definition last_plan :: "(string \<Rightarrow> todos_arg) \<Rightarrow> taskStateEvent list \<Rightarrow> taskPlanItem list option" where
  "last_plan decode evs = (case List.map_filter (event_plan decode) (rev evs) of [] \<Rightarrow> None | plan # _ \<Rightarrow> Some plan)"

definition file_paths :: "taskStateEvent list \<Rightarrow> string set" where
  "file_paths evs = {p. p \<noteq> [] \<and> p \<in> trim_space ` set (concat (map event_changes evs))}"

definition counts_of :: "taskPlanItem list \<Rightarrow> taskPlanState \<Rightarrow> bool" where
  "counts_of items plan \<longleftrightarrow> plan_Items plan = items
     \<and> plan_Completed plan = length (filter (\<lambda>it. item_Status it = ''completed'') items)
     \<and> plan_InProgress plan = length (filter (\<lambda>it. item_Status it = ''in_progress'') items)
     \<and> plan_Failed plan = length (filter (\<lambda>it. item_Status it = ''failed'') items)
     \<and> plan_Pending plan + plan_Completed plan + plan_InProgress plan + plan_Failed plan = length items"

lemma count_items:
  "plan_Items (fold count_item its plan) = plan_Items plan"
  "plan_Completed (fold count_item its plan) = plan_Completed plan + length (filter (\<lambda>it. item_Status it = ''completed'') its)"
  "plan_InProgress (fold count_item its plan) = plan_InProgress plan + length (filter (\<lambda>it. item_Status it = ''in_progress'') its)"
  "plan_Failed (fold count_item its plan) = plan_Failed plan + length (filter (\<lambda>it. item_Status it = ''failed'') its)"
  "plan_Pending (fold count_item its plan) + plan_Completed (fold count_item its plan)
     + plan_InProgress (fold count_item its plan) + plan_Failed (fold count_item its plan)
   = plan_Pending plan + plan_Completed plan + plan_InProgress plan + plan_Failed plan + length its"
  by (induction its arbitrary: plan) (auto simp: count_item_def)

lemma summarizeTaskPlan_counts: "counts_of items (summarizeTaskPlan items)"
  using count_items(5) [of items "empty_plan\<lparr>plan_Items := items\<rparr>"]
  by (simp add: counts_of_def summarizeTaskPlan_def count_items(1-4)) (simp add: empty_plan_def)

lemma add_paths:
  assumes "sorted paths" "distinct paths"
  shows "sorted (fold add_path changed paths) \<and> distinct (fold add_path changed paths) \<and>
    set (fold add_path changed paths) = set paths \<union> {p. p \<noteq> [] \<and> p \<in> trim_space ` set changed}"
  using assms
proof (induction changed arbitrary: paths)
  case (Cons c changed)
  have "sorted (add_path c paths)" "distinct (add_path c paths)"
    "set (add_path c paths) = set paths \<union> {p. p \<noteq> [] \<and> p = trim_space c}"
    using Cons.prems by (auto simp: add_path_def Let_def sorted_insort distinct_insort set_insort_key)
  with Cons.IH [of "add_path c paths"] show ?case by auto
qed simp

text \<open>The projection: what the record holds after any events.\<close>

definition projects :: "(string \<Rightarrow> todos_arg) \<Rightarrow> taskStateEvent list \<Rightarrow> taskState \<Rightarrow> bool" where
  "projects decode evs s \<longleftrightarrow>
     Revision s = length (filter (event_counts decode) evs)
     \<and> ToolsSucceeded s = length (filter (\<lambda>ev. case ev of TaskToolResult st _ \<Rightarrow> st = StatusOK | _ \<Rightarrow> False) evs)
     \<and> ToolsFailed s = length (filter (\<lambda>ev. case ev of TaskToolResult st _ \<Rightarrow> st \<noteq> StatusOK | _ \<Rightarrow> False) evs)
     \<and> VerificationPassed s = length (filter (\<lambda>ev. ev = TaskVerification OutcomePassed) evs)
     \<and> VerificationFailed s = length (filter (\<lambda>ev. ev \<in> TaskVerification ` {OutcomeCorrecting, OutcomeReported, OutcomeAborted}) evs)
     \<and> sorted (ChangedFiles s) \<and> distinct (ChangedFiles s) \<and> set (ChangedFiles s) = file_paths evs
     \<and> task_Plan s = (case last_plan decode evs of None \<Rightarrow> empty_plan | Some plan \<Rightarrow> summarizeTaskPlan plan)
     \<and> (planObserved s \<longleftrightarrow> last_plan decode evs \<noteq> None)"

lemma last_plan_simps [simp]: "last_plan decode [] = None"
  "last_plan decode (evs @ [ev]) = (case event_plan decode ev of None \<Rightarrow> last_plan decode evs | Some plan \<Rightarrow> Some plan)"
  by (simp_all add: last_plan_def List.map_filter_simps split: option.split)

lemma file_paths_simps [simp]: "file_paths [] = {}"
  "file_paths (evs @ [ev]) = file_paths evs \<union> {p. p \<noteq> [] \<and> p \<in> trim_space ` set (event_changes ev)}"
  by (auto simp: file_paths_def)

lemma run_events_projects: "projects decode evs (run_events decode evs (newTaskState objective))"
proof (induction evs rule: rev_induct)
  case Nil
  then show ?case by (simp add: projects_def run_events_def newTaskState_def)
next
  case (snoc ev evs)
  define s where "s = run_events decode evs (newTaskState objective)"
  have r: "run_events decode (evs @ [ev]) (newTaskState objective) = snd (observe decode ev s)"
    by (simp add: run_events_def s_def)
  have ih: "projects decode evs s" using snoc by (simp add: s_def)
  have "projects decode (evs @ [ev]) (snd (observe decode ev s))"
  proof (cases ev)
    case (TaskPlan arguments)
    then show ?thesis using ih
      by (cases "parseTaskPlan decode arguments") (simp_all add: projects_def observe_def observe_event_def markActive_def)
  next
    case (TaskToolResult status changed)
    then show ?thesis using ih add_paths [of "ChangedFiles s" changed]
      by (cases status) (simp_all add: projects_def observe_def observe_event_def markActive_def)
  next
    case (TaskVerification outcome)
    then show ?thesis using ih
      by (cases outcome) (simp_all add: projects_def observe_def observe_event_def markActive_def)
  next
    case (TaskCompletion evaluation)
    then show ?thesis using ih by (simp add: projects_def observe_def observe_event_def)
  qed
  then show ?case unfolding r .
qed

section \<open>The posture over a run\<close>

datatype posture_op = Tool_Outcome tool_outcome "DenialCategory option" "RiskLevel option"
  | Uncertain_Turn | Self_Correct Outcome | Maybe_Escalate

fun posture_step :: "posture_op \<Rightarrow> profileController \<Rightarrow> profileController" where
  "posture_step (Tool_Outcome outcome denial risk) c = observeToolOutcome outcome denial risk c"
| "posture_step Uncertain_Turn c = observeUncertain c"
| "posture_step (Self_Correct outcome) c = observeSelfCorrect outcome c"
| "posture_step Maybe_Escalate c = snd (maybeEscalate c)"

lemma posture_keeps:
  "esc_policy (posture_step op c) = esc_policy c"
  "escalated c \<Longrightarrow> escalated (posture_step op c)"
  "escalated c \<Longrightarrow> fst (maybeEscalate c) = None"
  by (cases op; auto simp: observeToolOutcome_def observeUncertain_def observeSelfCorrect_def maybeEscalate_def Let_def
      split: option.splits)+

end
