(* ===== verification/Run_Compaction.thy ===== *)
theory Run_Compaction
  imports Compaction Prune Provider_Retry Run_Policies Complex_Main
begin

text \<open>
  When a run compacts its history (\<open>compactionState\<close> and \<open>summarizeWithFallback\<close> of
  \<open>internal/agent/compaction.go\<close>, \<open>context_plan.go\<close>): before a request that would pass the threshold,
  and once per run after the provider has refused a request as too long.  The calibration ratio is a
  rational number where Go has a \<open>float64\<close>, and the conversion to \<open>int\<close> is the floor of a
  non-negative number.  The call of the model that writes a summary, the relevance judge and the
  blocks added to a summary are parameters.
\<close>

section \<open>Thresholds\<close>

definition defaultOutputReserveTokens :: int where "defaultOutputReserveTokens = 4096"
definition compactionTriggerRatio :: rat where "compactionTriggerRatio = 7 / 10"
definition defaultBudgetedTailMinWindow :: int where "defaultBudgetedTailMinWindow = 32000"
definition defaultCompactionTailTurns :: int where "defaultCompactionTailTurns = -1"

definition compactionThresholdForRatio :: "int \<Rightarrow> rat \<Rightarrow> int" where
  "compactionThresholdForRatio contextWindow ratio =
     (if contextWindow \<le> 0 then 0
      else \<lfloor>of_int contextWindow * (if ratio \<le> 0 then compactionTriggerRatio else ratio)\<rfloor>)"

definition compactionThresholdWithReserve :: "int \<Rightarrow> rat \<Rightarrow> int" where
  "compactionThresholdWithReserve contextWindow ratio =
     (if contextWindow \<le> 0 then 0
      else (let threshold = compactionThresholdForRatio contextWindow ratio;
                window = contextWindow - defaultOutputReserveTokens
            in if threshold \<le> 0 then 0
               else if defaultOutputReserveTokens \<le> window \<and> window < threshold then window
               else threshold))"

definition calibrateTokenEstimate :: "int \<Rightarrow> rat \<Rightarrow> int" where
  "calibrateTokenEstimate raw ratio = (if ratio \<le> 0 then raw else \<lfloor>of_int raw * ratio\<rfloor>)"

record turnContextPlan =
  plan_ToolTokens :: int
  plan_TotalTokens :: int
  ShouldCompact :: bool

text \<open>The tokens of the advertised tools are a number.\<close>

definition planTurnContext :: "Message list \<Rightarrow> int \<Rightarrow> int \<Rightarrow> rat \<Rightarrow> turnContextPlan" where
  "planTurnContext messages toolTokens threshold ratio =
     (let total = calibrateTokenEstimate (estimateTokens messages + toolTokens) ratio
      in \<lparr>plan_ToolTokens = toolTokens, plan_TotalTokens = total, ShouldCompact = (0 < threshold \<and> threshold < total)\<rparr>)"

section \<open>Summaries by a model\<close>

datatype summary_error = Summary_Unusable | Summary_Failed string

definition errUnusableSummary :: string where "errUnusableSummary = ''summarizer returned an unusable summary''"

fun error_text :: "summary_error \<Rightarrow> string" where
  "error_text Summary_Unusable = errUnusableSummary"
| "error_text (Summary_Failed err) = err"

text \<open>
  The answer of the model to one summarizing request, and what \<open>summarizeMessagesOnce\<close> makes of it:
  \<open>Inl\<close> an error before or in the stream, \<open>Inr\<close> the text.
\<close>

definition summarizeMessagesOnce :: "(Message list \<Rightarrow> string + string) \<Rightarrow> Message list \<Rightarrow> summary_error + string" where
  "summarizeMessagesOnce request messages =
     (case request messages of
        Inl err \<Rightarrow> Inl (Summary_Failed err)
      | Inr text' \<Rightarrow> (let summary = trim_space text' in if summary = [] then Inl Summary_Unusable else Inr summary))"

function summarizeWithFallback :: "(Message list \<Rightarrow> string + string) \<Rightarrow> Message list \<Rightarrow> summary_error + string" where
  "summarizeWithFallback request messages =
     (case summarizeMessagesOnce request messages of
        Inr summary \<Rightarrow> Inr summary
      | Inl err \<Rightarrow>
          if length messages < 2 \<or> \<not> isContextLimitError (error_text err) then Inl err
          else (case summarizeWithFallback request (take (length messages div 2) messages) of
              Inl leftErr \<Rightarrow> Inl leftErr
            | Inr left \<Rightarrow>
                (case summarizeWithFallback request (drop (length messages div 2) messages) of
                   Inl rightErr \<Rightarrow> Inl rightErr
                 | Inr right \<Rightarrow>
                     (let combined = trim_space (left @ [newline, newline] @ right)
                      in case summarizeMessagesOnce request [user_message combined] of
                           Inr reduced \<Rightarrow> Inr reduced
                         | Inl reduceErr \<Rightarrow>
                             if isContextLimitError (error_text reduceErr) then Inr combined else Inl reduceErr))))"
  by pat_completeness auto
termination by (relation "measure (\<lambda>(request, messages). length messages)") auto

text \<open>As the summarizer of \<open>CompactMessages\<close>: an unusable summary is reported there for an empty text.\<close>

definition summarizer :: "(Message list \<Rightarrow> string + string) \<Rightarrow> Message list \<Rightarrow> string + string" where
  "summarizer request messages =
     (case summarizeWithFallback request messages of
        Inr summary \<Rightarrow> Inr summary
      | Inl Summary_Unusable \<Rightarrow> Inr []
      | Inl (Summary_Failed err) \<Rightarrow> Inl err)"

section \<open>The state\<close>

type_synonym attach_fn = "nat \<Rightarrow> nat \<Rightarrow> Message list \<Rightarrow> string \<Rightarrow> string"

record compaction_env =
  request_summary :: "nat \<Rightarrow> Message list \<Rightarrow> string + string"
  judge_history :: "Message list \<Rightarrow> Message list \<Rightarrow> (Message list \<times> attach_fn) option"
  attach_state :: "taskState \<Rightarrow> attach_fn \<Rightarrow> attach_fn"

text \<open>\<open>attempts\<close> counts the compactions tried; it only tells the answers of the model apart.\<close>

record compactionState =
  enabled :: bool
  window_size :: int
  threshold :: int
  preserveLast :: int
  tailTurns :: int
  tailBudget :: int
  lowWaterMark :: int
  reactiveAttempted :: bool
  calibrationRatio :: rat
  attempts :: nat

text \<open>The effective ratio and preserve count are those of the options or of the model's profile.\<close>

definition effectiveCompactionPreserveLast :: "int \<Rightarrow> int \<Rightarrow> int" where
  "effectiveCompactionPreserveLast option profile =
     (if 0 < option then option else if 0 < profile then profile else defaultCompactionPreserveLast)"

definition newCompactionState :: "int \<Rightarrow> rat \<Rightarrow> int \<Rightarrow> int \<Rightarrow> compactionState" where
  "newCompactionState contextWindow ratio preserve turns =
     (let turns = (if turns = 0 \<and> defaultBudgetedTailMinWindow \<le> contextWindow then defaultCompactionTailTurns else turns)
      in \<lparr>enabled = (0 < contextWindow), window_size = contextWindow,
          threshold = compactionThresholdWithReserve contextWindow ratio, preserveLast = preserve,
          tailTurns = turns, tailBudget = (if turns \<noteq> 0 then tailTokenBudget contextWindow else 0),
          lowWaterMark = 0, reactiveAttempted = False, calibrationRatio = 0, attempts = 0\<rparr>)"

definition calibrate :: "int \<Rightarrow> int \<Rightarrow> compactionState \<Rightarrow> compactionState" where
  "calibrate rawEstimate actual state =
     (if \<not> enabled state \<or> rawEstimate \<le> 0 \<or> actual \<le> 0 then state
      else (let sample = (of_int actual :: rat) / of_int rawEstimate;
                sample = (if sample < 1 / 2 then 1 / 2 else if 2 < sample then 2 else sample);
                ratio = (if calibrationRatio state \<le> 0 then 1 else calibrationRatio state)
            in state\<lparr>calibrationRatio := ratio * (1 - 3 / 10) + sample * (3 / 10)\<rparr>))"

definition calibratedTokens :: "compactionState \<Rightarrow> int \<Rightarrow> int" where
  "calibratedTokens state raw = calibrateTokenEstimate raw (calibrationRatio state)"

definition compact_options :: "compaction_env \<Rightarrow> compactionState \<Rightarrow> taskState \<Rightarrow> attach_fn \<Rightarrow> int \<Rightarrow> CompactionOptions" where
  "compact_options ce state task artifacts turns =
     \<lparr>PreserveLast = preserveLast state, TailTurns = turns,
      TailTokenBudget = (if turns \<noteq> 0 then tailBudget state else 0), ContextWindow = window_size state,
      Summarize = Some (summarizer (request_summary ce (attempts state))),
      Attach = attach_state ce task artifacts\<rparr>"

definition no_artifacts :: attach_fn where "no_artifacts systemEnd boundary middle content = content"

text \<open>
  Compaction before a request: the messages, whether a summary was injected, the state and the
  task record.  The outer \<open>None\<close> is a slice out of range.
\<close>

definition maybeCompact ::
    "compaction_env \<Rightarrow> (string \<Rightarrow> todos_arg) \<Rightarrow> int \<Rightarrow> Message list \<Rightarrow> compactionState \<Rightarrow> taskState
      \<Rightarrow> (Message list \<times> bool \<times> compactionState \<times> taskState) option" where
  "maybeCompact ce decode toolTokens messages state task =
     (if \<not> enabled state then Some (messages, False, state, task)
      else (let plan = planTurnContext messages toolTokens (threshold state) (calibrationRatio state);
                size = plan_TotalTokens plan
            in if \<not> ShouldCompact plan \<or> (0 < lowWaterMark state \<and> size \<le> lowWaterMark state)
               then Some (messages, False, state, task)
               else (let pruned = fst (pruneStaleToolOutput messages (preserveLast state));
                         (chosen, artifacts) = (case judge_history ce messages pruned of
                              Some judged \<Rightarrow> judged | None \<Rightarrow> (pruned, no_artifacts));
                         reclaimed = estimateTokens messages - estimateTokens chosen;
                         size = (if 0 < reclaimed then calibratedTokens state (estimateTokens chosen + toolTokens) else size)
                     in if 0 < reclaimed \<and> size \<le> threshold state
                        then Some (chosen, False, state\<lparr>lowWaterMark := size\<rparr>, task)
                        else (let task = snd (observePlanParity decode chosen task);
                                  st = state\<lparr>attempts := Suc (attempts state)\<rparr>
                              in case CompactMessages chosen (compact_options ce state task artifacts (tailTurns state)) of
                                   None \<Rightarrow> None
                                 | Some (Inl _) \<Rightarrow> Some (pruned, False,
                                     st\<lparr>lowWaterMark := calibratedTokens state (estimateTokens pruned + toolTokens)\<rparr>, task)
                                 | Some (Inr result) \<Rightarrow>
                                     (let newSize = calibratedTokens state (estimateTokens (Messages result) + toolTokens)
                                      in if size \<le> newSize then Some (chosen, False, st\<lparr>lowWaterMark := size\<rparr>, task)
                                         else Some (Messages result, Compacted result, st\<lparr>lowWaterMark := newSize\<rparr>, task))))))"

definition stripMessageImages :: "Message list \<Rightarrow> Message list" where
  "stripMessageImages messages = map (\<lambda>m. m\<lparr>msg_images := []\<rparr>) messages"

definition compactForRecovery ::
    "compaction_env \<Rightarrow> (string \<Rightarrow> todos_arg) \<Rightarrow> Message list \<Rightarrow> compactionState \<Rightarrow> taskState \<Rightarrow> int
      \<Rightarrow> (compact_error + CompactionResult) option \<times> compactionState \<times> taskState" where
  "compactForRecovery ce decode messages state task turns =
     (let task = snd (observePlanParity decode messages task)
      in (CompactMessages messages (compact_options ce state task no_artifacts turns),
          state\<lparr>attempts := Suc (attempts state)\<rparr>, task))"

text \<open>The images are dropped only where that helps.\<close>

definition strip_if :: "Message list \<Rightarrow> Message list \<Rightarrow> Message list" where
  "strip_if messages candidate =
     (if estimateTokens messages \<le> estimateTokens candidate
         \<and> estimateTokens (stripMessageImages candidate) < estimateTokens messages
      then stripMessageImages candidate else candidate)"

text \<open>The second and third tries for a smaller history; \<open>None\<close> when the slice is out of range.\<close>

definition smaller_history ::
    "compaction_env \<Rightarrow> (string \<Rightarrow> todos_arg) \<Rightarrow> Message list \<Rightarrow> Message list \<Rightarrow> compactionState \<Rightarrow> taskState
      \<Rightarrow> (Message list \<times> compactionState \<times> taskState) option" where
  "smaller_history ce decode messages candidate state task =
     (if estimateTokens candidate < estimateTokens messages then Some (candidate, state, task)
      else if tailTurns state = 0 then Some (strip_if messages candidate, state, task)
      else (case compactForRecovery ce decode messages state task 0 of
          (None, _, _) \<Rightarrow> None
        | (Some (Inl _), state, task) \<Rightarrow> Some (strip_if messages candidate, state, task)
        | (Some (Inr legacy), state, task) \<Rightarrow>
            Some (strip_if messages (if estimateTokens (Messages legacy) < estimateTokens candidate
                                     then Messages legacy else candidate), state, task)))"

datatype recovery = Not_Recovered | Recovery_Failed compact_error | Recovered "Message list"

definition finish_recovery ::
    "int \<Rightarrow> Message list \<Rightarrow> Message list \<Rightarrow> compactionState \<Rightarrow> recovery \<times> compactionState" where
  "finish_recovery toolTokens messages candidate state =
     (if estimateTokens messages \<le> estimateTokens candidate then (Not_Recovered, state)
      else (Recovered candidate, state\<lparr>reactiveAttempted := True,
              lowWaterMark := calibratedTokens state (estimateTokens candidate + toolTokens)\<rparr>))"

definition recover ::
    "compaction_env \<Rightarrow> (string \<Rightarrow> todos_arg) \<Rightarrow> int \<Rightarrow> Message list \<Rightarrow> string \<Rightarrow> compactionState \<Rightarrow> taskState
      \<Rightarrow> (recovery \<times> compactionState \<times> taskState) option" where
  "recover ce decode toolTokens messages errorMessage state task =
     (if \<not> enabled state \<or> reactiveAttempted state \<or> \<not> isContextLimitError errorMessage
      then Some (Not_Recovered, state, task)
      else (let finish = (\<lambda>(candidate, state, task).
                  (case finish_recovery toolTokens messages candidate state of (r, state) \<Rightarrow> (r, state, task)))
            in case compactForRecovery ce decode messages state task (tailTurns state) of
                 (None, _, _) \<Rightarrow> None
               | (Some (Inl Unusable_Summary), state, task) \<Rightarrow>
                   (case pruneStaleToolOutput messages (preserveLast state) of
                      (pruned, reclaimed) \<Rightarrow>
                        if 0 < reclaimed then map_option finish (smaller_history ce decode messages pruned state task)
                        else Some (Not_Recovered, state, task))
               | (Some (Inl err), state, task) \<Rightarrow> Some (Recovery_Failed err, state\<lparr>reactiveAttempted := True\<rparr>, task)
               | (Some (Inr result), state, task) \<Rightarrow>
                   map_option finish (smaller_history ce decode messages (Messages result) state task)))"

section \<open>Facts\<close>

text \<open>
  The transcript a strict provider accepts: the results of the calls of an assistant message follow it
  at once, one for each call and in their order.  The list holds the calls that wait for a result.
\<close>

fun paired :: "string list \<Rightarrow> Message list \<Rightarrow> bool" where
  "paired waiting [] \<longleftrightarrow> waiting = []"
| "paired waiting (m # ms) \<longleftrightarrow>
     (case msg_role m of
        RoleTool \<Rightarrow> waiting \<noteq> [] \<and> msg_callID m = hd waiting \<and> paired (tl waiting) ms
      | RoleAssistant \<Rightarrow> waiting = [] \<and> paired (map call_ID (msg_calls m)) ms
      | _ \<Rightarrow> waiting = [] \<and> paired [] ms)"

lemma paired_replayable: "paired a ms \<Longrightarrow> set a \<subseteq> set b \<Longrightarrow> replayable b ms"
proof (induction ms arbitrary: a b)
  case (Cons m ms)
  show ?case
  proof (cases "msg_role m")
    case RoleTool
    then have "replayable b ms" using Cons.prems by (intro Cons.IH [of "tl a"]) (auto dest: list.set_sel(2))
    with RoleTool Cons.prems show ?thesis by auto
  qed (use Cons.prems Cons.IH in \<open>auto intro: Cons.IH\<close>)
qed simp

lemma paired_suffix: "paired a (xs @ m # ms) \<Longrightarrow> msg_role m \<noteq> RoleTool \<Longrightarrow> paired [] (m # ms)"
proof (induction xs arbitrary: a)
  case Nil
  then show ?case by (auto split: MessageRole.splits)
next
  case (Cons x xs)
  then show ?case by (auto split: MessageRole.splits)
qed

lemma paired_system: "\<forall>x \<in> set xs. msg_role x = RoleSystem \<Longrightarrow> paired [] (xs @ ms) = paired [] ms"
  by (induction xs) simp_all

lemma compact_paired:
  assumes "CompactMessages ms opts = Some (Inr r)" "paired [] ms"
  shows "paired [] (Messages r)"
  using CompactMessages_result [OF assms(1)]
proof (elim disjE exE conjE)
  assume "r = kept_whole ms"
  then show ?thesis using assms(2) by simp
next
  fix boundary b
  assume b: "b = safe_boundary ms boundary" "system_end ms < b" "b \<le> length ms"
    and r: "Messages r = compacted_messages ms (Attach opts (system_end ms) b (slice ms (system_end ms) b)
        (summaryLabel @ newline # SummaryText r)) b"
  have rest: "paired [] (drop b ms)"
  proof (cases "b < length ms")
    case True
    have "paired [] (take b ms @ ms ! b # drop (Suc b) ms)" using assms(2) True by (simp add: id_take_nth_drop [symmetric])
    moreover have "msg_role (ms ! b) \<noteq> RoleTool" using safe_boundary_props(2) [of ms boundary] b True by simp
    ultimately have "paired [] (ms ! b # drop (Suc b) ms)" by (rule paired_suffix)
    then show ?thesis using True by (simp add: Cons_nth_drop_Suc)
  qed simp
  have sys: "\<forall>x \<in> set (take (system_end ms) ms). msg_role x = RoleSystem"
    unfolding take_system by (auto dest: set_takeWhileD)
  have "paired [] (take (system_end ms) ms @ xs) = paired [] xs" for xs
    by (rule paired_system [OF sys])
  then show ?thesis unfolding r compacted_messages_def using rest by (simp add: user_message_def)
qed

text \<open>What the judge rewrites are bodies, arguments and narration: roles and identifiers stay.\<close>

definition same_ids :: "Message \<Rightarrow> Message \<Rightarrow> bool" where
  "same_ids a b \<longleftrightarrow> msg_role a = msg_role b \<and> msg_callID a = msg_callID b
     \<and> map call_ID (msg_calls a) = map call_ID (msg_calls b)"

definition judge_keeps_ids :: "compaction_env \<Rightarrow> bool" where
  "judge_keeps_ids ce \<longleftrightarrow> (\<forall>messages pruned. case judge_history ce messages pruned of
     None \<Rightarrow> True | Some (judged, _) \<Rightarrow> list_all2 same_ids judged messages)"

lemma paired_ids: "list_all2 same_ids xs ys \<Longrightarrow> paired a xs = paired a ys"
  by (induction xs ys arbitrary: a rule: list_all2_induct) (auto simp: same_ids_def split: MessageRole.split)

lemma prune_ids: "list_all2 same_ids (fst (pruneStaleToolOutput ms n)) ms"
proof -
  have "same_ids (fst (pruneStaleToolOutput ms n) ! i) (ms ! i)" if "i < length ms" for i
    using prune_nth [OF that, of n] put_body_frame [of _ i "ms ! i"]
    by (cases "ms ! i"; cases "fst (pruneStaleToolOutput ms n) ! i") (auto simp: same_frame_def same_ids_def put_body_def split: option.splits)
  then show ?thesis by (simp add: list_all2_conv_all_nth prune_length)
qed

lemma paired_prune: "paired a (fst (pruneStaleToolOutput ms n)) = paired a ms"
  by (rule paired_ids [OF prune_ids])

lemma paired_strip: "paired a (stripMessageImages ms) = paired a ms"
  by (rule paired_ids) (simp add: stripMessageImages_def list_all2_map1 list_all2_same same_ids_def)

lemma compact_never_panics:
  assumes "0 \<le> preserveLast state"
  shows "CompactMessages ms (compact_options ce state task artifacts turns) \<noteq> None"
proof (cases "raw_boundary ms (compact_options ce state task artifacts turns)")
  case (Some boundary)
  have "boundary \<le> int (length ms)"
    using Some assms by (auto simp: raw_boundary_def compact_options_def Let_def split: if_splits)
  moreover have "int (safe_boundary ms boundary) \<le> max boundary (int (system_end ms))" by (rule safe_boundary_props(1))
  moreover have "system_end ms \<le> length ms" by (rule system_end_le)
  ultimately have "safe_boundary ms boundary \<le> length ms" by simp
  then show ?thesis using Some by (simp add: CompactMessages_def compact_options_def compact_at_def Let_def split: sum.split)
qed (simp add: CompactMessages_def compact_options_def)

text \<open>What one proactive compaction does: the cases of its result.\<close>

lemma maybeCompact_result:
  assumes "maybeCompact ce decode toolTokens messages state task = Some (messages', did, state', task')"
  obtains (same) "messages' = messages" "\<not> did" "state' = state" "task' = task"
  | (chosen) chosen artifacts where "messages' = chosen" "\<not> did" "preserveLast state' = preserveLast state"
      "chosen = fst (pruneStaleToolOutput messages (preserveLast state)) \<or>
       judge_history ce messages (fst (pruneStaleToolOutput messages (preserveLast state))) = Some (chosen, artifacts)"
  | (summary) chosen artifacts task1 r where "messages' = Messages r" "did = Compacted r" "preserveLast state' = preserveLast state"
      "CompactMessages chosen (compact_options ce state task1 artifacts (tailTurns state)) = Some (Inr r)"
      "chosen = fst (pruneStaleToolOutput messages (preserveLast state)) \<or>
       judge_history ce messages (fst (pruneStaleToolOutput messages (preserveLast state))) = Some (chosen, artifacts)"
      "calibratedTokens state (estimateTokens messages' + toolTokens)
         < calibratedTokens state (estimateTokens (if estimateTokens chosen < estimateTokens messages then chosen else messages) + toolTokens)"
proof -
  let ?pruned = "fst (pruneStaleToolOutput messages (preserveLast state))"
  define plan where "plan = planTurnContext messages toolTokens (threshold state) (calibrationRatio state)"
  obtain chosen artifacts where j: "(case judge_history ce messages ?pruned of Some judged \<Rightarrow> judged | None \<Rightarrow> (?pruned, no_artifacts))
      = (chosen, artifacts)" by fastforce
  then have c: "chosen = ?pruned \<or> judge_history ce messages ?pruned = Some (chosen, artifacts)"
    by (auto split: option.splits)
  define size where "size = (if 0 < estimateTokens messages - estimateTokens chosen
    then calibratedTokens state (estimateTokens chosen + toolTokens) else plan_TotalTokens plan)"
  have total: "plan_TotalTokens plan = calibratedTokens state (estimateTokens messages + toolTokens)"
    by (simp add: plan_def planTurnContext_def calibratedTokens_def Let_def)
  have size: "size = calibratedTokens state (estimateTokens (if estimateTokens chosen < estimateTokens messages then chosen else messages) + toolTokens)"
    by (simp add: size_def total)
  define task1 where "task1 = snd (observePlanParity decode chosen task)"
  define res where "res = CompactMessages chosen (compact_options ce state task1 artifacts (tailTurns state))"
  have eq: "maybeCompact ce decode toolTokens messages state task =
    (if \<not> enabled state then Some (messages, False, state, task)
     else if \<not> ShouldCompact plan \<or> (0 < lowWaterMark state \<and> plan_TotalTokens plan \<le> lowWaterMark state)
     then Some (messages, False, state, task)
     else if 0 < estimateTokens messages - estimateTokens chosen \<and> size \<le> threshold state
     then Some (chosen, False, state\<lparr>lowWaterMark := size\<rparr>, task)
     else (case res of None \<Rightarrow> None
       | Some (Inl _) \<Rightarrow> Some (?pruned, False, state\<lparr>attempts := Suc (attempts state),
           lowWaterMark := calibratedTokens state (estimateTokens ?pruned + toolTokens)\<rparr>, task1)
       | Some (Inr result) \<Rightarrow>
           (let newSize = calibratedTokens state (estimateTokens (Messages result) + toolTokens)
            in if size \<le> newSize then Some (chosen, False, state\<lparr>attempts := Suc (attempts state), lowWaterMark := size\<rparr>, task1)
               else Some (Messages result, Compacted result, state\<lparr>attempts := Suc (attempts state), lowWaterMark := newSize\<rparr>, task1))))"
    unfolding maybeCompact_def Let_def j plan_def [symmetric] prod.case size_def [symmetric] task1_def [symmetric] res_def [symmetric]
    by simp
  show thesis
  proof (cases "\<not> enabled state \<or> \<not> ShouldCompact plan \<or> (0 < lowWaterMark state \<and> plan_TotalTokens plan \<le> lowWaterMark state)")
    case True
    with assms eq same show ?thesis by (auto split: if_splits)
  next
    case go: False
    show ?thesis
    proof (cases "0 < estimateTokens messages - estimateTokens chosen \<and> size \<le> threshold state")
      case True
      with go assms eq c show ?thesis by (intro chosen [of chosen artifacts]) auto
    next
      case False
      with go assms eq have r: "(case res of None \<Rightarrow> None
       | Some (Inl _) \<Rightarrow> Some (?pruned, False, state\<lparr>attempts := Suc (attempts state),
           lowWaterMark := calibratedTokens state (estimateTokens ?pruned + toolTokens)\<rparr>, task1)
       | Some (Inr result) \<Rightarrow>
           (let newSize = calibratedTokens state (estimateTokens (Messages result) + toolTokens)
            in if size \<le> newSize then Some (chosen, False, state\<lparr>attempts := Suc (attempts state), lowWaterMark := size\<rparr>, task1)
               else Some (Messages result, Compacted result, state\<lparr>attempts := Suc (attempts state), lowWaterMark := newSize\<rparr>, task1)))
         = Some (messages', did, state', task')" by auto
      consider (none) "res = None" | (err) e where "res = Some (Inl e)" | (ok) result where "res = Some (Inr result)"
        by (cases res) (auto simp: sum.split_sel, metis sumE)
      then show ?thesis
      proof cases
        case none
        with r show ?thesis by simp
      next
        case err
        with r have "messages' = ?pruned" "\<not> did" "preserveLast state' = preserveLast state" by auto
        then show ?thesis by (intro chosen [of ?pruned]) auto
      next
        case (ok result)
        show ?thesis
        proof (cases "size \<le> calibratedTokens state (estimateTokens (Messages result) + toolTokens)")
          case True
          with r ok c show ?thesis by (intro chosen [of chosen artifacts]) (auto simp: Let_def)
        next
          case False
          with r ok have m: "messages' = Messages result" "did = Compacted result" "preserveLast state' = preserveLast state"
            by (auto simp: Let_def)
          show ?thesis by (rule summary [OF m ok [unfolded res_def] c]) (use False m size in simp)
        qed
      qed
    qed
  qed
qed

lemma judged_paired:
  assumes "judge_keeps_ids ce"
    "chosen = fst (pruneStaleToolOutput messages n) \<or> judge_history ce messages (fst (pruneStaleToolOutput messages n)) = Some (chosen, artifacts)"
  shows "paired a chosen = paired a messages"
  using assms(2)
proof
  assume "judge_history ce messages (fst (pruneStaleToolOutput messages n)) = Some (chosen, artifacts)"
  with assms(1) have "list_all2 same_ids chosen messages"
    unfolding judge_keeps_ids_def by (metis option.simps(5) split_conv)
  then show ?thesis by (rule paired_ids)
qed (simp add: paired_prune)

lemma maybeCompact_paired:
  assumes "maybeCompact ce decode toolTokens messages state task = Some (messages', did, state', task')"
    "judge_keeps_ids ce" "paired [] messages"
  shows "paired [] messages'"
  using assms(1)
proof (cases rule: maybeCompact_result)
  case (summary chosen artifacts task1 r)
  then have "paired [] chosen" using judged_paired [OF assms(2)] assms(3) by blast
  with summary show ?thesis using compact_paired by blast
qed (use judged_paired [OF assms(2)] assms(3) in auto)

lemma maybeCompact_keeps:
  "maybeCompact ce decode toolTokens messages state task = Some (messages', did, state', task') \<Longrightarrow>
     preserveLast state' = preserveLast state"
  by (cases rule: maybeCompact_result) auto

lemma maybeCompact_total:
  assumes "0 \<le> preserveLast state"
  shows "maybeCompact ce decode toolTokens messages state task \<noteq> None"
proof -
  let ?pruned = "fst (pruneStaleToolOutput messages (preserveLast state))"
  obtain chosen artifacts where j: "(case judge_history ce messages ?pruned of Some judged \<Rightarrow> judged | None \<Rightarrow> (?pruned, no_artifacts))
      = (chosen, artifacts)" by fastforce
  obtain res where r: "CompactMessages chosen (compact_options ce state (snd (observePlanParity decode chosen task)) artifacts (tailTurns state))
      = Some res" using compact_never_panics [OF assms] by blast
  show ?thesis
    unfolding maybeCompact_def Let_def j prod.case r option.case by (cases res) auto
qed

lemma calibrate_tokens_mono:
  "calibrateTokenEstimate a ratio < calibrateTokenEstimate b ratio \<Longrightarrow> a < b"
proof (rule ccontr)
  assume lt: "calibrateTokenEstimate a ratio < calibrateTokenEstimate b ratio" and "\<not> a < b"
  show False
  proof (cases "ratio \<le> 0")
    case True
    with lt \<open>\<not> a < b\<close> show False by (simp add: calibrateTokenEstimate_def)
  next
    case False
    then have "of_int b * ratio \<le> of_int a * ratio" using \<open>\<not> a < b\<close> by (intro mult_right_mono) auto
    then have "\<lfloor>of_int b * ratio\<rfloor> \<le> \<lfloor>of_int a * ratio\<rfloor>" by (rule floor_mono)
    with lt False show False by (simp add: calibrateTokenEstimate_def)
  qed
qed

lemma maybeCompact_shrinks:
  assumes "maybeCompact ce decode toolTokens messages state task = Some (messages', True, state', task')"
  shows "estimateTokens messages' < estimateTokens messages"
  using assms
proof (cases rule: maybeCompact_result)
  case (summary chosen artifacts task1 r)
  then have "estimateTokens messages' < estimateTokens (if estimateTokens chosen < estimateTokens messages then chosen else messages)"
    using calibrate_tokens_mono [of "estimateTokens messages' + toolTokens" "calibrationRatio state"] unfolding calibratedTokens_def
    by fastforce
  then show ?thesis by (cases "estimateTokens chosen < estimateTokens messages") simp_all
qed auto

section \<open>Facts about recovery\<close>

lemma compactForRecovery_parts:
  assumes "0 \<le> preserveLast state"
  obtains res st task' where "compactForRecovery ce decode messages state task turns = (Some res, st, task')"
    "preserveLast st = preserveLast state" "reactiveAttempted st = reactiveAttempted state"
    "paired [] messages \<Longrightarrow> (case res of Inl _ \<Rightarrow> True | Inr r \<Rightarrow> paired [] (Messages r))"
proof -
  define task' where "task' = snd (observePlanParity decode messages task)"
  obtain res where r: "CompactMessages messages (compact_options ce state task' no_artifacts turns) = Some res"
    using compact_never_panics [OF assms] by blast
  show thesis
    by (rule that [of res "state\<lparr>attempts := Suc (attempts state)\<rparr>" task'])
       (use r in \<open>auto simp: compactForRecovery_def Let_def task'_def split: sum.split dest: compact_paired\<close>)
qed

lemma strip_if_paired: "paired a (strip_if messages candidate) = paired a candidate"
  by (simp add: strip_if_def paired_strip)

lemma smaller_history_parts:
  assumes "0 \<le> preserveLast state" "paired [] messages" "paired [] candidate"
  obtains m st task' where "smaller_history ce decode messages candidate state task = Some (m, st, task')"
    "preserveLast st = preserveLast state" "reactiveAttempted st = reactiveAttempted state" "paired [] m"
proof (cases "estimateTokens candidate < estimateTokens messages")
  case True
  then show thesis using that [of candidate state task] assms(3) by (simp add: smaller_history_def)
next
  case big: False
  show thesis
  proof (cases "tailTurns state = 0")
    case True
    then show thesis using that [of "strip_if messages candidate" state task] big assms(3)
      by (simp add: smaller_history_def strip_if_paired)
  next
    case False
    obtain res st task' where c: "compactForRecovery ce decode messages state task 0 = (Some res, st, task')"
      "preserveLast st = preserveLast state" "reactiveAttempted st = reactiveAttempted state"
      "paired [] messages \<Longrightarrow> (case res of Inl _ \<Rightarrow> True | Inr r \<Rightarrow> paired [] (Messages r))"
      by (rule compactForRecovery_parts [OF assms(1), of ce decode messages task 0]) (rule that)
    show thesis
    proof (cases res)
      case (Inl e)
      then show thesis using that [of "strip_if messages candidate" st task'] c big False assms(3)
        by (simp add: smaller_history_def strip_if_paired)
    next
      case (Inr r)
      then have "paired [] (if estimateTokens (Messages r) < estimateTokens candidate then Messages r else candidate)"
        using c(4) assms(2,3) by simp
      then show thesis using that [OF _ c(2,3), of "strip_if messages (if estimateTokens (Messages r) < estimateTokens candidate
          then Messages r else candidate)" task'] Inr c(1) big False
        by (simp add: smaller_history_def strip_if_paired)
    qed
  qed
qed

lemma recover_parts:
  assumes "0 \<le> preserveLast state" "paired [] messages"
  obtains r st task' where "recover ce decode toolTokens messages err state task = Some (r, st, task')"
    "preserveLast st = preserveLast state"
    "case r of Not_Recovered \<Rightarrow> reactiveAttempted st = reactiveAttempted state
       | Recovery_Failed _ \<Rightarrow> \<not> reactiveAttempted state \<and> reactiveAttempted st
       | Recovered m \<Rightarrow> \<not> reactiveAttempted state \<and> reactiveAttempted st \<and> paired [] m
           \<and> estimateTokens m < estimateTokens messages"
proof (cases "\<not> enabled state \<or> reactiveAttempted state \<or> \<not> isContextLimitError err")
  case True
  then show thesis using that [of Not_Recovered state task] by (auto simp: recover_def)
next
  case False
  obtain res st task' where c: "compactForRecovery ce decode messages state task (tailTurns state) = (Some res, st, task')"
    "preserveLast st = preserveLast state" "reactiveAttempted st = reactiveAttempted state"
    "paired [] messages \<Longrightarrow> (case res of Inl _ \<Rightarrow> True | Inr r \<Rightarrow> paired [] (Messages r))"
    by (rule compactForRecovery_parts [OF assms(1), of ce decode messages task "tailTurns state"]) (rule that)
  note goal = that
  have go: thesis if rp: "paired [] m"
    and eq: "recover ce decode toolTokens messages err state task = map_option (\<lambda>(candidate, state, task).
       (case finish_recovery toolTokens messages candidate state of (r, state) \<Rightarrow> (r, state, task)))
         (smaller_history ce decode messages m st task')" for m
  proof -
    obtain m' st' task'' where s: "smaller_history ce decode messages m st task' = Some (m', st', task'')"
      "preserveLast st' = preserveLast st" "reactiveAttempted st' = reactiveAttempted st" "paired [] m'"
      by (rule smaller_history_parts [OF _ assms(2) rp, of st ce decode task']) (use assms(1) c(2) in simp, rule that)
    show thesis
    proof (cases "estimateTokens messages \<le> estimateTokens m'")
      case True
      then show thesis using goal [of Not_Recovered st' task''] eq s c(2,3) by (simp add: finish_recovery_def)
    next
      case small: False
      show thesis
        by (rule goal [of "Recovered m'" "st'\<lparr>reactiveAttempted := True,
              lowWaterMark := calibratedTokens st' (estimateTokens m' + toolTokens)\<rparr>" task''])
           (use eq s c(2,3) False small in \<open>simp_all add: finish_recovery_def\<close>)
    qed
  qed
  consider (unusable) "res = Inl Unusable_Summary" | (failed) e where "res = Inl e" "e \<noteq> Unusable_Summary" | (ok) r where "res = Inr r"
    by (cases res) auto
  then show thesis
  proof cases
    case unusable
    obtain pruned reclaimed where p: "pruneStaleToolOutput messages (preserveLast st) = (pruned, reclaimed)" by fastforce
    have rp: "paired [] pruned" using paired_prune [of "[]" messages "preserveLast st"] p assms(2) by simp
    show thesis
    proof (cases "0 < reclaimed")
      case True
      show thesis by (rule go [OF rp]) (use True False c(1) unusable p in \<open>simp add: recover_def Let_def\<close>)
    next
      case np: False
      then show thesis using that [of Not_Recovered st task'] False c unusable p by (auto simp: recover_def Let_def)
    qed
  next
    case failed
    then have "recover ce decode toolTokens messages err state task =
        Some (Recovery_Failed e, st\<lparr>reactiveAttempted := True\<rparr>, task')"
      using False c(1) by (cases e) (auto simp: recover_def Let_def)
    then show thesis by (rule that) (use c False in auto)
  next
    case (ok r)
    then have "paired [] (Messages r)" using c(4) assms(2) by simp
    then show thesis by (rule go) (use False c(1) ok in \<open>simp add: recover_def Let_def\<close>)
  qed
qed

section \<open>Calibration\<close>

lemma calibrate_bounds:
  assumes "calibrationRatio state = 0 \<or> (1 / 2 \<le> calibrationRatio state \<and> calibrationRatio state \<le> 2)"
  shows "calibrationRatio (calibrate raw actual state) = 0 \<or>
     (1 / 2 \<le> calibrationRatio (calibrate raw actual state) \<and> calibrationRatio (calibrate raw actual state) \<le> 2)"
proof (cases "enabled state \<and> 0 < raw \<and> 0 < actual")
  case True
  define sample where "sample = (if of_int actual / of_int raw < (1 / 2 :: rat) then (1 / 2 :: rat)
    else if 2 < (of_int actual / of_int raw :: rat) then 2 else of_int actual / of_int raw)"
  define ratio where "ratio = (if calibrationRatio state \<le> 0 then 1 else calibrationRatio state)"
  have "1 / 2 \<le> sample" "sample \<le> 2" by (auto simp: sample_def)
  moreover have "1 / 2 \<le> ratio" "ratio \<le> 2" using assms by (auto simp: ratio_def)
  moreover have "calibrationRatio (calibrate raw actual state) = ratio * (1 - 3 / 10) + sample * (3 / 10)"
    using True by (simp add: calibrate_def Let_def sample_def ratio_def)
  ultimately show ?thesis by (simp add: field_simps)
next
  case False
  then have "calibrate raw actual state = state" by (auto simp: calibrate_def)
  then show ?thesis using assms by simp
qed

end
