(* ===== verification/Resource_Keys.thy ===== *)
theory Resource_Keys
  imports Tool_Types
begin

text \<open>
  The resource keys of a tool call (\<open>internal/tools/resource_keys.go\<close>), on a host that is not
  Windows: names of files, directories, endpoints, sessions and processes by which two calls of one
  batch are seen to touch the same thing.  \<open>number\<close> is the text of an argument that is a JSON
  number, \<open>None\<close> for any other value that is not a string; \<open>elements\<close> are the strings of an
  argument that is a list.
\<close>

definition ResourceKeyFile :: string where "ResourceKeyFile = ''file:''"
definition ResourceKeyDirectory :: string where "ResourceKeyDirectory = ''directory:''"
definition ResourceKeyProcess :: string where "ResourceKeyProcess = ''process:''"
definition ResourceKeyEndpoint :: string where "ResourceKeyEndpoint = ''endpoint:''"
definition ResourceKeySession :: string where "ResourceKeySession = ''session:''"
definition ResourceKeyWorkspace :: string where "ResourceKeyWorkspace = ''workspace:''"

definition NormalizeResourcePath :: "string \<Rightarrow> string" where
  "NormalizeResourcePath path =
     (let path = trim_space path
      in if path = [] then []
         else if contains path ''://'' then []
         else (let cleaned = clean path in if cleaned = ''.'' then ''.'' else trim_prefix cleaned ''./''))"

fun resource_arg :: "(string \<Rightarrow> string option) \<Rightarrow> args \<Rightarrow> string list \<Rightarrow> string" where
  "resource_arg number as [] = []"
| "resource_arg number as (key # keys) =
     (case as key of
        Some (ArgString typed) \<Rightarrow> typed
      | Some (ArgOther typed) \<Rightarrow>
          (case number typed of Some s \<Rightarrow> s | None \<Rightarrow> resource_arg number as keys)
      | _ \<Rightarrow> resource_arg number as keys)"

definition path_keys :: "string \<Rightarrow> string \<Rightarrow> string list" where
  "path_keys prefix path =
     (let normalized = NormalizeResourcePath path in if normalized = [] then [] else [prefix @ normalized])"

definition fileResourceKeys :: "(string \<Rightarrow> string option) \<Rightarrow> args \<Rightarrow> string list" where
  "fileResourceKeys number as = path_keys ResourceKeyFile
     (resource_arg number as [''path'', ''file'', ''file_path'', ''filepath'', ''filename'', ''target''])"

definition directoryResourceKeys :: "(string \<Rightarrow> string option) \<Rightarrow> args \<Rightarrow> string list" where
  "directoryResourceKeys number as = path_keys ResourceKeyDirectory
     (resource_arg number as [''path'', ''directory'', ''dir'', ''cwd'', ''workdir''])"

text \<open>The authority without user information: what follows the last \<open>@\<close>.\<close>

definition resourceHost :: "string \<Rightarrow> string" where
  "resourceHost raw =
     (let raw = trim_space raw;
          raw = (case index_of raw ''://'' of Some i \<Rightarrow> drop (i + 3) raw | None \<Rightarrow> raw);
          raw = takeWhile (\<lambda>c. c \<notin> {CHR ''/'', CHR ''?'', CHR ''#''}) raw;
          raw = rev (takeWhile (\<lambda>c. c \<noteq> CHR ''@'') (rev raw))
      in to_lower (trim_space raw))"

definition endpointResourceKeys :: "(string \<Rightarrow> string option) \<Rightarrow> args \<Rightarrow> string list" where
  "endpointResourceKeys number as =
     (let raw = trim_space (resource_arg number as [''url'', ''endpoint'', ''uri'']); host = resourceHost raw
      in if raw = [] \<or> host = [] then [] else [ResourceKeyEndpoint @ host])"

definition scopedIDResourceKeys :: "string \<Rightarrow> (string \<Rightarrow> string option) \<Rightarrow> args \<Rightarrow> string list \<Rightarrow> string list" where
  "scopedIDResourceKeys prefix number as keys =
     (let id = trim_space (resource_arg number as keys) in if id = [] then [] else [prefix @ take 128 id])"

definition sessionResourceKeys :: "(string \<Rightarrow> string option) \<Rightarrow> args \<Rightarrow> string list" where
  "sessionResourceKeys number as =
     scopedIDResourceKeys ResourceKeySession number as [''session'', ''session_id'', ''sessionId'']"

definition processResourceKeys :: "(string \<Rightarrow> string option) \<Rightarrow> args \<Rightarrow> string list" where
  "processResourceKeys number as = scopedIDResourceKeys ResourceKeyProcess number as
     [''session'', ''session_id'', ''sessionId'', ''process_id'', ''pid'', ''id'']"

definition workspaceResourceKeys :: "string list" where
  "workspaceResourceKeys = [ResourceKeyWorkspace @ ''root'']"

definition scopedScanResourceKeys :: "(string \<Rightarrow> string option) \<Rightarrow> args \<Rightarrow> string list" where
  "scopedScanResourceKeys number as =
     (let normalized = NormalizeResourcePath (resource_arg number as [''path'', ''cwd'', ''dir'', ''directory''])
      in if normalized = [] \<or> normalized = ''.'' then [] else [ResourceKeyDirectory @ normalized])"

fun uniqueKeys :: "string list \<Rightarrow> string list" where
  "uniqueKeys [] = []"
| "uniqueKeys (k # ks) = (if k = [] then uniqueKeys ks else k # filter (\<lambda>x. x \<noteq> k) (uniqueKeys ks))"

definition multiFileResourceKeys ::
    "(string \<Rightarrow> string option) \<Rightarrow> (arg_value \<Rightarrow> string list) \<Rightarrow> args \<Rightarrow> string list" where
  "multiFileResourceKeys number elements as =
     uniqueKeys (fileResourceKeys number as
       @ (case as ''paths'' of None \<Rightarrow> []
          | Some raw \<Rightarrow> List.concat (List.map (path_keys ResourceKeyFile) (elements raw))))"

definition joinUnderResourceCwd :: "string \<Rightarrow> string \<Rightarrow> string" where
  "joinUnderResourceCwd base relative =
     (let relative = trim_space relative; base = trim_space base
      in if relative = [] then []
         else if is_abs relative then relative
         else if base = [] \<or> base = ''.'' then relative
         else join_path [base, relative])"

definition diff_line_path :: "string \<Rightarrow> string option" where
  "diff_line_path line =
     (let line = trim_space line
      in if has_prefix line ''+++ '' \<or> has_prefix line ''--- '' then
           (let rest = takeWhile (\<lambda>c. c \<noteq> tab) (trim_space (drop 4 line))
            in if rest = ''/dev/null'' \<or> rest = [] then None
               else Some (if 2 < length rest \<and> (rest ! 0 = CHR ''a'' \<or> rest ! 0 = CHR ''b'') \<and> rest ! 1 = CHR ''/''
                          then drop 2 rest else rest))
         else None)"

definition pathsFromUnifiedDiff :: "string \<Rightarrow> string list" where
  "pathsFromUnifiedDiff patch =
     (if trim_space patch = [] then [] else List.map_filter diff_line_path (split_on newline patch))"

definition applyPatchResourceKeys ::
    "(string \<Rightarrow> string option) \<Rightarrow> (arg_value \<Rightarrow> string list) \<Rightarrow> args \<Rightarrow> string list" where
  "applyPatchResourceKeys number elements as =
     (let base = resource_arg number as [''cwd'', ''workdir''];
          patch = resource_arg number as [''patch'', ''diff''];
          keys = uniqueKeys (directoryResourceKeys number as @ multiFileResourceKeys number elements as
            @ List.concat (List.map (\<lambda>p. path_keys ResourceKeyFile (joinUnderResourceCwd base p))
                (pathsFromUnifiedDiff patch)))
      in if keys = [] then workspaceResourceKeys else keys)"

section \<open>Facts\<close>

lemma uniqueKeys_set: "set (uniqueKeys ks) = set ks - {[]}"
  by (induction ks) auto

lemma uniqueKeys_distinct: "distinct (uniqueKeys ks)"
  by (induction ks) (auto simp: uniqueKeys_set)

text \<open>A patch call always has a key, and none of the keys is empty.\<close>

lemma applyPatch_keys: "applyPatchResourceKeys number elements as \<noteq> []"
  "[] \<notin> set (applyPatchResourceKeys number elements as)" "distinct (applyPatchResourceKeys number elements as)"
  by (auto simp: applyPatchResourceKeys_def workspaceResourceKeys_def ResourceKeyWorkspace_def uniqueKeys_set
      uniqueKeys_distinct Let_def)

text \<open>Two spellings of one path have one key.\<close>

lemma same_path_same_key:
  "clean (trim_space p) = clean (trim_space q) \<Longrightarrow> trim_space p \<noteq> [] \<Longrightarrow> trim_space q \<noteq> [] \<Longrightarrow>
     \<not> contains (trim_space p) ''://'' \<Longrightarrow> \<not> contains (trim_space q) ''://'' \<Longrightarrow> path_keys pre p = path_keys pre q"
  by (simp add: path_keys_def NormalizeResourcePath_def Let_def)

text \<open>No part of a URL but its host and port is in a key: neither a password nor a query.\<close>

lemma resourceHost_clean: "CHR ''@'' \<notin> set (resourceHost raw)" "CHR ''?'' \<notin> set (resourceHost raw)" "CHR ''/'' \<notin> set (resourceHost raw)"
proof -
  have drop: "set (dropWhile P xs) \<subseteq> set xs" for P and xs :: string
    by (auto dest: set_dropWhileD)
  have sub: "set (trim_space s) \<subseteq> set s" for s
    using drop [of is_space s] drop [of is_space "rev (dropWhile is_space s)"]
    by (auto simp: trim_space_def trim_by_def trim_left_by_def trim_right_by_def)
  define host where "host = takeWhile (\<lambda>c. c \<notin> {CHR ''/'', CHR ''?'', CHR ''#''})
    (case index_of (trim_space raw) ''://'' of Some i \<Rightarrow> drop (i + 3) (trim_space raw) | None \<Rightarrow> trim_space raw)"
  have r: "resourceHost raw = to_lower (trim_space (rev (takeWhile (\<lambda>c. c \<noteq> CHR ''@'') (rev host))))"
    by (simp add: resourceHost_def host_def Let_def)
  have "c \<noteq> CHR ''@'' \<and> c \<in> set host" if "c \<in> set (rev (takeWhile (\<lambda>c. c \<noteq> CHR ''@'') (rev host)))" for c
    using that by (auto dest: set_takeWhileD)
  moreover have "c \<noteq> CHR ''?'' \<and> c \<noteq> CHR ''/''" if "c \<in> set host" for c
    using that by (auto simp: host_def dest!: set_takeWhileD)
  moreover have low: "c = d" if "lower_char c = d" "(of_char d :: nat) < 97" for c d
  proof (cases "is_upper c")
    case True
    then have "97 \<le> (of_char (lower_char c) :: nat)" by (auto simp: lower_char_def is_upper_def of_char_of)
    with that show ?thesis by simp
  next
    case False
    with that show ?thesis by (simp add: lower_char_def)
  qed
  have kept: "d \<in> set (rev (takeWhile (\<lambda>c. c \<noteq> CHR ''@'') (rev host)))"
    if d: "d \<in> set (resourceHost raw)" "(of_char d :: nat) < 97" for d
  proof -
    obtain c where "c \<in> set (trim_space (rev (takeWhile (\<lambda>c. c \<noteq> CHR ''@'') (rev host))))" "lower_char c = d"
      using d(1) by (auto simp: r to_lower_def)
    then have "c = d" "c \<in> set (rev (takeWhile (\<lambda>c. c \<noteq> CHR ''@'') (rev host)))"
      using low [OF _ d(2), of c] sub by (auto simp del: set_rev)
    then show ?thesis by simp
  qed
  ultimately show "CHR ''@'' \<notin> set (resourceHost raw)" "CHR ''?'' \<notin> set (resourceHost raw)" "CHR ''/'' \<notin> set (resourceHost raw)"
    using kept by fastforce+
qed

end
