(* ===== verification/Parallel_Tools.thy ===== *)
theory Parallel_Tools
  imports Tool_Gate Resource_Keys
begin

text \<open>
  Tool calls that run together (\<open>internal/agent/parallel_tools.go\<close>): which calls may, how far a window
  of them extends, and the batch itself as a step relation over its goroutines and the two
  semaphores, one of eight slots for every call and one of four for sub-agents.
\<close>

definition maxParallelReadTools :: nat where "maxParallelReadTools = 8"
definition maxParallelTaskTools :: nat where "maxParallelTaskTools = 4"

section \<open>Windows\<close>

definition parallelSafeToolCall :: "registry \<Rightarrow> Options \<Rightarrow> ToolCall \<Rightarrow> bool" where
  "parallelSafeToolCall registry opts call =
     (if call_Name call \<in> {''ask_user'', ''request_permissions'', ''tool_search''} then False
      else (case registry (call_Name call) of
        None \<Rightarrow> False
      | Some tool \<Rightarrow>
          (case decodeCallArgs opts call of
             Inl _ \<Rightarrow> False
           | Inr as \<Rightarrow>
               (let caps = CapabilitiesForArgsOf (Some tool) as
                in if Effect caps \<noteq> EffectReadOnly \<or> \<not> ThreadSafe caps then False
                   else effectivePermission tool as = PermissionAllow))))"

definition resourceKeysForCall :: "registry \<Rightarrow> Options \<Rightarrow> ToolCall \<Rightarrow> string list" where
  "resourceKeysForCall registry opts call =
     (case registry (call_Name call) of
        None \<Rightarrow> []
      | Some tool \<Rightarrow>
          (case decodeCallArgs opts call of
             Inl _ \<Rightarrow> []
           | Inr as \<Rightarrow>
               (case ResourceKeys (CapabilitiesForArgsOf (Some tool) as) of
                  None \<Rightarrow> [] | Some keys \<Rightarrow> keys as)))"

definition resourceKeysConflict :: "string list \<Rightarrow> string list \<Rightarrow> bool" where
  "resourceKeysConflict a b =
     (if a = [] \<or> b = [] then False
      else (let seen = filter (\<lambda>key. key \<noteq> []) a in list_ex (\<lambda>key. key \<noteq> [] \<and> key \<in> set seen) b))"

text \<open>The loop of \<open>extendParallelRun\<close>: \<open>calls\<close> are those from \<open>end\<close> on; the number that joins is returned.\<close>

fun extend_loop :: "registry \<Rightarrow> Options \<Rightarrow> string list list \<Rightarrow> ToolCall list \<Rightarrow> nat" where
  "extend_loop registry opts keysWindow [] = 0"
| "extend_loop registry opts keysWindow (call # calls) =
     (if \<not> parallelSafeToolCall registry opts call then 0
      else (let nextKeys = resourceKeysForCall registry opts call
            in if list_ex (\<lambda>prev. resourceKeysConflict prev nextKeys) keysWindow then 0
               else Suc (extend_loop registry opts (keysWindow @ [nextKeys]) calls)))"

definition extendParallelRun :: "registry \<Rightarrow> ToolCall list \<Rightarrow> nat \<Rightarrow> Options \<Rightarrow> nat" where
  "extendParallelRun registry calls start opts =
     (if length calls \<le> start \<or> \<not> parallelSafeToolCall registry opts (calls ! start) then start
      else start + 1 + extend_loop registry opts [resourceKeysForCall registry opts (calls ! start)] (drop (start + 1) calls))"

section \<open>A batch\<close>

text \<open>
  A goroutine waits for a slot, a sub-agent then for a slot of its own, runs its call, stores the
  result and gives the slots back.  \<open>task i\<close> says that call \<open>i\<close> is a sub-agent and \<open>yields i r\<close> that it
  may end with \<open>r\<close>; the channels are the numbers of their tokens.
\<close>

datatype batch_phase = Queued | Slotted | Executing | Finished

record 'r batch =
  phases :: "batch_phase list"
  semaphore :: nat
  taskSemaphore :: nat
  results :: "'r option list"

definition new_batch :: "nat \<Rightarrow> 'r batch" where
  "new_batch n = \<lparr>phases = replicate n Queued, semaphore = 0, taskSemaphore = 0, results = replicate n None\<rparr>"

inductive batch_step :: "(nat \<Rightarrow> bool) \<Rightarrow> (nat \<Rightarrow> 'r \<Rightarrow> bool) \<Rightarrow> 'r batch \<Rightarrow> 'r batch \<Rightarrow> bool"
  for task yields where
  take_slot: "i < length (phases b) \<Longrightarrow> phases b ! i = Queued \<Longrightarrow> semaphore b < maxParallelReadTools \<Longrightarrow>
    batch_step task yields b (b\<lparr>phases := (phases b)[i := if task i then Slotted else Executing],
      semaphore := semaphore b + 1\<rparr>)"
| take_task_slot: "i < length (phases b) \<Longrightarrow> phases b ! i = Slotted \<Longrightarrow> taskSemaphore b < maxParallelTaskTools \<Longrightarrow>
    batch_step task yields b (b\<lparr>phases := (phases b)[i := Executing], taskSemaphore := taskSemaphore b + 1\<rparr>)"
| finish: "i < length (phases b) \<Longrightarrow> phases b ! i = Executing \<Longrightarrow> yields i r \<Longrightarrow>
    batch_step task yields b (b\<lparr>phases := (phases b)[i := Finished], results := (results b)[i := Some r],
      semaphore := semaphore b - 1, taskSemaphore := (if task i then taskSemaphore b - 1 else taskSemaphore b)\<rparr>)"

text \<open>Waiting for the group: every goroutine is done.\<close>

definition batch_done :: "'r batch \<Rightarrow> bool" where
  "batch_done b = list_all (\<lambda>p. p = Finished) (phases b)"

section \<open>Facts about windows\<close>

lemma resourceKeysConflict_iff: "resourceKeysConflict a b \<longleftrightarrow> (\<exists>key. key \<noteq> [] \<and> key \<in> set a \<and> key \<in> set b)"
  by (auto simp: resourceKeysConflict_def list_ex_iff Let_def)

abbreviation keys_of :: "registry \<Rightarrow> Options \<Rightarrow> ToolCall \<Rightarrow> string list" where
  "keys_of \<equiv> resourceKeysForCall"

text \<open>Calls that may form a window.\<close>

definition window :: "registry \<Rightarrow> Options \<Rightarrow> ToolCall list \<Rightarrow> bool" where
  "window registry opts calls \<longleftrightarrow> list_all (parallelSafeToolCall registry opts) calls
     \<and> sorted_wrt (\<lambda>c d. \<not> resourceKeysConflict (keys_of registry opts c) (keys_of registry opts d)) calls"

lemma extend_loop_le: "extend_loop registry opts ks calls \<le> length calls"
  by (induction calls arbitrary: ks) (auto simp: Let_def)

lemma extend_loop_window:
  assumes "window registry opts done" "ks = List.map (keys_of registry opts) done"
  shows "window registry opts (done @ take (extend_loop registry opts ks calls) calls)
    \<and> (extend_loop registry opts ks calls < length calls \<longrightarrow>
         \<not> window registry opts (done @ take (Suc (extend_loop registry opts ks calls)) calls))"
  using assms
proof (induction calls arbitrary: ks "done")
  case (Cons c cs)
  show ?case
  proof (cases "parallelSafeToolCall registry opts c \<and> \<not> list_ex (\<lambda>k. resourceKeysConflict k (keys_of registry opts c)) ks")
    case True
    then have w: "window registry opts (done @ [c])"
      using Cons.prems by (auto simp: window_def sorted_wrt_append list_ex_iff)
    from Cons.IH [OF w] Cons.prems(2) True show ?thesis by (simp add: Let_def)
  next
    case False
    then have "\<not> window registry opts (done @ [c])"
      using Cons.prems by (auto simp: window_def sorted_wrt_append list_ex_iff)
    with False Cons.prems show ?thesis by (auto simp: Let_def)
  qed
qed simp

lemma extendParallelRun_window:
  assumes "start < length calls" "parallelSafeToolCall registry opts (calls ! start)"
  defines "e \<equiv> extendParallelRun registry calls start opts"
  shows "start < e \<and> e \<le> length calls \<and> window registry opts (take (e - start) (drop start calls))
    \<and> (e < length calls \<longrightarrow> \<not> window registry opts (take (Suc (e - start)) (drop start calls)))"
proof -
  define n where "n = extend_loop registry opts [keys_of registry opts (calls ! start)] (drop (start + 1) calls)"
  have e: "e = Suc (start + n)" using assms by (simp add: extendParallelRun_def n_def)
  have n: "n \<le> length calls - Suc start" using extend_loop_le [of registry opts _ "drop (start + 1) calls"] by (simp add: n_def)
  have d: "drop start calls = calls ! start # drop (Suc start) calls" using assms(1) by (simp add: Cons_nth_drop_Suc)
  have w: "window registry opts [calls ! start]" using assms(2) by (simp add: window_def)
  from extend_loop_window [OF w, of "[keys_of registry opts (calls ! start)]" "drop (start + 1) calls"]
  show ?thesis using e n assms(1) by (auto simp: d n_def)
qed

lemma extendParallelRun_alone:
  "\<not> (start < length calls \<and> parallelSafeToolCall registry opts (calls ! start)) \<Longrightarrow>
     extendParallelRun registry calls start opts = start"
  by (auto simp: extendParallelRun_def)

section \<open>Facts about batches\<close>

definition count_phase :: "(nat \<Rightarrow> batch_phase \<Rightarrow> bool) \<Rightarrow> batch_phase list \<Rightarrow> nat" where
  "count_phase P ps = card {i. i < length ps \<and> P i (ps ! i)}"

lemma count_phase_update:
  assumes "i < length ps"
  shows "count_phase P (ps[i := p]) + (if P i (ps ! i) then 1 else 0) = count_phase P ps + (if P i p then 1 else 0)"
proof -
  let ?A = "{j. j < length ps \<and> j \<noteq> i \<and> P j (ps ! j)}"
  have f: "finite ?A" "i \<notin> ?A" by simp_all
  have "{j. j < length (ps[i := p]) \<and> P j (ps[i := p] ! j)} = (if P i p then insert i ?A else ?A)"
    using assms by (auto simp: nth_list_update)
  moreover have "{j. j < length ps \<and> P j (ps ! j)} = (if P i (ps ! i) then insert i ?A else ?A)"
    using assms by auto
  ultimately show ?thesis using f by (simp add: count_phase_def)
qed

definition holds_slot :: "nat \<Rightarrow> batch_phase \<Rightarrow> bool" where
  "holds_slot i p \<longleftrightarrow> p \<in> {Slotted, Executing}"

definition holds_task_slot :: "(nat \<Rightarrow> bool) \<Rightarrow> nat \<Rightarrow> batch_phase \<Rightarrow> bool" where
  "holds_task_slot task i p \<longleftrightarrow> task i \<and> p = Executing"

text \<open>What holds in every state a batch of \<open>n\<close> calls reaches.\<close>

definition batch_inv :: "(nat \<Rightarrow> bool) \<Rightarrow> (nat \<Rightarrow> 'r \<Rightarrow> bool) \<Rightarrow> nat \<Rightarrow> 'r batch \<Rightarrow> bool" where
  "batch_inv task yields n b \<longleftrightarrow>
     length (phases b) = n \<and> length (results b) = n
     \<and> semaphore b = count_phase holds_slot (phases b) \<and> semaphore b \<le> maxParallelReadTools
     \<and> taskSemaphore b = count_phase (holds_task_slot task) (phases b) \<and> taskSemaphore b \<le> maxParallelTaskTools
     \<and> (\<forall>i < n. phases b ! i = Slotted \<longrightarrow> task i)
     \<and> (\<forall>i < n. phases b ! i = Finished \<longleftrightarrow> results b ! i \<noteq> None)
     \<and> (\<forall>i < n. \<forall>r. results b ! i = Some r \<longrightarrow> yields i r)"

lemma count_phase_none: "(\<forall>i < length ps. \<not> P i (ps ! i)) \<Longrightarrow> count_phase P ps = 0"
  by (simp add: count_phase_def)

lemma new_batch_inv: "batch_inv task yields n (new_batch n)"
  by (simp add: batch_inv_def new_batch_def count_phase_none holds_slot_def holds_task_slot_def)

lemma batch_step_inv:
  assumes "batch_step task yields b b'" "batch_inv task yields n b"
  shows "batch_inv task yields n b'"
  using assms(1)
proof cases
  case (take_slot i)
  then show ?thesis using assms(2) count_phase_update [OF take_slot(2), of holds_slot "if task i then Slotted else Executing"]
      count_phase_update [OF take_slot(2), of "holds_task_slot task" "if task i then Slotted else Executing"]
    by (auto simp: batch_inv_def holds_slot_def holds_task_slot_def nth_list_update)
next
  case (take_task_slot i)
  then show ?thesis using assms(2) count_phase_update [OF take_task_slot(2), of holds_slot Executing]
      count_phase_update [OF take_task_slot(2), of "holds_task_slot task" Executing]
    by (auto simp: batch_inv_def holds_slot_def holds_task_slot_def nth_list_update)
next
  case (finish i r)
  then show ?thesis using assms(2) count_phase_update [OF finish(2), of holds_slot Finished]
      count_phase_update [OF finish(2), of "holds_task_slot task" Finished]
    by (auto simp: batch_inv_def holds_slot_def holds_task_slot_def nth_list_update)
qed

lemma batch_reachable_inv:
  "(batch_step task yields)\<^sup>*\<^sup>* (new_batch n) b \<Longrightarrow> batch_inv task yields n b"
  by (induction rule: rtranclp_induct) (auto intro: new_batch_inv batch_step_inv)

text \<open>The work left: every step takes one unit off.\<close>

primrec phase_work :: "batch_phase \<Rightarrow> nat" where
  "phase_work Queued = 3"
| "phase_work Slotted = 2"
| "phase_work Executing = 1"
| "phase_work Finished = 0"

definition batch_work :: "'r batch \<Rightarrow> nat" where
  "batch_work b = sum_list (List.map phase_work (phases b))"

lemma sum_list_update_nat:
  "i < length xs \<Longrightarrow> sum_list (xs[i := x]) + xs ! i = sum_list xs + (x :: nat)"
  by (induction xs arbitrary: i) (auto split: nat.split)

lemma batch_step_work:
  assumes "batch_step task yields b b'"
  shows "batch_work b' < batch_work b"
  using assms
proof cases
  case (take_slot i)
  then show ?thesis
    using sum_list_update_nat [of i "List.map phase_work (phases b)" "phase_work (if task i then Slotted else Executing)"]
    by (simp add: batch_work_def map_update split: if_splits)
next
  case (take_task_slot i)
  then show ?thesis using sum_list_update_nat [of i "List.map phase_work (phases b)" "phase_work Executing"]
    by (simp add: batch_work_def map_update)
next
  case (finish i r)
  then show ?thesis using sum_list_update_nat [of i "List.map phase_work (phases b)" "phase_work Finished"]
    by (simp add: batch_work_def map_update)
qed

text \<open>No state short of the end is stuck: somebody who runs can finish, or a slot is free.\<close>

lemma batch_progress:
  assumes inv: "batch_inv task yields n b" and yields: "\<forall>i < n. \<exists>r. yields i r" and "\<not> batch_done b"
  shows "\<exists>b'. batch_step task yields b b'"
proof -
  have len: "length (phases b) = n" using inv by (simp add: batch_inv_def)
  obtain i where i: "i < n" "phases b ! i \<noteq> Finished"
    using assms(3) len by (auto simp: batch_done_def list_all_length)
  show ?thesis
  proof (cases "\<exists>j < n. phases b ! j = Executing")
    case True
    then obtain j where "j < n" "phases b ! j = Executing" by blast
    with yields len show ?thesis by (auto intro: batch_step.finish)
  next
    case none: False
    then have t: "taskSemaphore b = 0"
      using inv len by (auto simp: batch_inv_def holds_task_slot_def intro!: count_phase_none)
    show ?thesis
    proof (cases "\<exists>j < n. phases b ! j = Slotted")
      case True
      then obtain j where "j < n" "phases b ! j = Slotted" by blast
      with t len batch_step.take_task_slot [of j b task yields] show ?thesis by (auto simp: maxParallelTaskTools_def)
    next
      case False
      with none have "semaphore b = 0"
        using inv len by (auto simp: batch_inv_def holds_slot_def intro!: count_phase_none)
      moreover have "phases b ! i = Queued" using none False i by (cases "phases b ! i") auto
      ultimately show ?thesis using i len batch_step.take_slot [of i b task yields] by (auto simp: maxParallelReadTools_def)
    qed
  qed
qed

lemma batch_steps_work:
  "((batch_step task yields) ^^ k) b b' \<Longrightarrow> batch_work b' + k \<le> batch_work b"
proof (induction k arbitrary: b')
  case (Suc k)
  then obtain c where "((batch_step task yields) ^^ k) b c" "batch_step task yields c b'" by auto
  with Suc.IH [of c] batch_step_work [of task yields c b'] show ?case by simp
qed simp

lemma new_batch_work: "batch_work (new_batch n) = 3 * n"
  by (simp add: batch_work_def new_batch_def sum_list_replicate)

lemma batch_done_results:
  "batch_inv task yields n b \<Longrightarrow> batch_done b \<Longrightarrow> \<exists>rs. results b = List.map Some rs \<and> length rs = n \<and> (\<forall>i < n. yields i (rs ! i))"
proof -
  assume inv: "batch_inv task yields n b" and d: "batch_done b"
  have all: "results b ! i \<noteq> None" if "i < n" for i
    using that inv d by (auto simp: batch_inv_def batch_done_def list_all_length)
  have len: "length (results b) = n" using inv by (simp add: batch_inv_def)
  have "results b = List.map Some (List.map the (results b))"
    using all len by (auto intro!: nth_equalityI)
  moreover have "yields i (List.map the (results b) ! i)" if "i < n" for i
    using all [OF that] that inv len by (auto simp: batch_inv_def)
  ultimately show ?thesis using len by (metis length_map)
qed

end
