(* ===== verification/Turn_Stream.thy ===== *)
theory Turn_Stream
  imports Run_Compaction Parallel_Tools
begin

text \<open>
  The request of one turn (the first half of the loop of \<open>Run\<close>, \<open>internal/agent/loop.go\<close>): connecting,
  reading the stream, and what is done about an error: the recovery from a context limit, the retries
  before any text was seen, the retry of a stalled stream.  The state of the run is a record; what
  the run finds outside is the other record.  \<open>rs_clock\<close> counts the requests and the tool calls made so
  far and tells apart the moments at which something outside is consulted.
\<close>

section \<open>The state of a run\<close>

datatype switch_reply = Switched | Not_Switched | Switch_Failed string

text \<open>
  The world of a run.  \<open>env_world n\<close> is the host at moment \<open>n\<close>; \<open>env_gate\<close> is the relevance gate,
  \<open>env_risk\<close> the risk recorded with a result, \<open>env_priority\<close> orders the calls of a parallel batch.  The
  functions to \<open>env_reasserted\<close> give the blocks the trackers hold at a moment, \<open>env_memory\<close> the notes a
  learning pass has landed, \<open>env_toolTokens\<close> the size of the tools advertised in a turn.
\<close>

record loop_env =
  env_provider :: provider
  env_world :: "nat \<Rightarrow> world"
  env_registry :: registry
  env_options :: Options
  env_mode :: PermissionMode
  env_compaction :: compaction_env
  env_decode :: "string \<Rightarrow> todos_arg"
  env_validJSON :: "string \<Rightarrow> bool"
  env_recoverable :: "string \<Rightarrow> string option"
  env_schema :: "string \<Rightarrow> string"
  env_gate :: "nat \<Rightarrow> Message list \<Rightarrow> ToolCall \<Rightarrow> ToolResult \<Rightarrow> ToolResult"
  env_risk :: "nat \<Rightarrow> ToolCall \<Rightarrow> RiskLevel option"
  env_priority :: "nat \<Rightarrow> nat \<Rightarrow> nat"
  env_diagnostics :: "nat \<Rightarrow> string"
  env_finalDiagnostics :: "nat \<Rightarrow> string"
  env_completions :: "nat \<Rightarrow> string list"
  env_guidelines :: "nat \<Rightarrow> string list"
  env_catalog :: "nat \<Rightarrow> string"
  env_coaching :: "nat \<Rightarrow> string list"
  env_reasserted :: "nat \<Rightarrow> string list"
  env_memory :: "nat \<Rightarrow> string"
  env_toolTokens :: "nat \<Rightarrow> int"
  env_prompt :: string
  env_notes :: string
  env_selfCorrect :: "(nat \<Rightarrow> string list \<Rightarrow> string \<times> Outcome) option"
  env_switch :: "(nat \<Rightarrow> string \<Rightarrow> switch_reply) option"
  env_ctxError :: "nat \<Rightarrow> string"
  env_abortError :: "nat \<Rightarrow> string"
  env_idle :: int
  env_elapsed :: "nat \<Rightarrow> int option"
  env_forwards :: bool

text \<open>
  \<open>rs_turn\<close> is the number of turns begun, \<open>rs_started\<close> and \<open>rs_asked\<close> record the tool bodies started
  and the requests shown to the user during the run.
\<close>

record run_state =
  rs_messages :: "Message list"
  rs_compaction :: compactionState
  rs_task :: taskState
  rs_clock :: nat
  rs_turn :: nat
  rs_maxTurns :: int
  rs_guards :: guardState
  rs_policy :: completionPolicy
  rs_posture :: profileController
  rs_requireCompletion :: bool
  rs_effort :: string
  rs_model :: string
  rs_finish :: string
  rs_loaded :: "string set"
  rs_engine :: "Engine option"
  rs_cleanups :: "cleanup list"
  rs_started :: "(ToolCall \<times> tool_start) list"
  rs_asked :: "PermissionRequest list"

definition say :: "string \<Rightarrow> run_state \<Rightarrow> run_state" where
  "say text' s = s\<lparr>rs_messages := rs_messages s @ [user_message text']\<rparr>"

definition say_all :: "string list \<Rightarrow> run_state \<Rightarrow> run_state" where
  "say_all blocks s = s\<lparr>rs_messages := rs_messages s @ map user_message blocks\<rparr>"

text \<open>A nudge is added only when there is one.\<close>

definition say_some :: "string \<Rightarrow> run_state \<Rightarrow> run_state" where
  "say_some text' s = (if text' = [] then s else say text' s)"

section \<open>What is sent\<close>

definition requestNotesOpen :: string where "requestNotesOpen = ''<notes_from_earlier_sessions>''"
definition requestNotesClose :: string where "requestNotesClose = ''</notes_from_earlier_sessions>''"

text \<open>The notes go to the last user message that is the request; the list is read from its end.\<close>

fun note_first :: "string \<Rightarrow> string \<Rightarrow> Message list \<Rightarrow> Message list" where
  "note_first request block [] = []"
| "note_first request block (m # ms) =
     (if msg_role m = RoleUser \<and> msg_content m = request then m\<lparr>msg_content := msg_content m @ block\<rparr> # ms
      else m # note_first request block ms)"

definition withRequestNotes :: "string \<Rightarrow> string \<Rightarrow> Message list \<Rightarrow> Message list" where
  "withRequestNotes request notes messages =
     (if notes = [] then messages
      else rev (note_first request ([newline, newline] @ requestNotesOpen @ [newline] @ notes @ [newline] @ requestNotesClose)
             (rev messages)))"

section \<open>Steps that may end the run\<close>

text \<open>\<open>None\<close> is a panic, \<open>Inl\<close> the error the run returns.\<close>

type_synonym 'a io = "((string + 'a) \<times> run_state) option"

definition and_then :: "'a io \<Rightarrow> ('a \<Rightarrow> run_state \<Rightarrow> 'b io) \<Rightarrow> 'b io" where
  "and_then m f =
     (case m of
        None \<Rightarrow> None
      | Some (Inl err, s) \<Rightarrow> Some (Inl err, s)
      | Some (Inr a, s) \<Rightarrow> f a s)"

definition connect :: "loop_env \<Rightarrow> run_state \<Rightarrow> (string + received list) \<times> run_state" where
  "connect le s =
     (case streamWithReconnect (env_provider le)
             (withRequestNotes (env_prompt le) (env_notes le) (rs_messages s)) (rs_clock s) of
        (r, n) \<Rightarrow> (r, s\<lparr>rs_clock := n\<rparr>))"

definition applyPostCompactionSafetyNet :: "loop_env \<Rightarrow> run_state \<Rightarrow> run_state" where
  "applyPostCompactionSafetyNet le s =
     say_all (env_reasserted le (rs_clock s)) (s\<lparr>rs_messages := appendCompactionContinuation (rs_messages s)\<rparr>)"

definition image_rejected :: "run_state \<Rightarrow> string \<Rightarrow> string" where
  "image_rejected s err = ''model '' @ rs_model s @ '' rejected the image: '' @ err
     @ ''. The model may not support image input '' @ em_dash
     @ '' try switching to a vision-capable model (claude, gpt-4o, gemini)''"

fun compact_error_text :: "compact_error \<Rightarrow> string" where
  "compact_error_text No_Summarizer = ''compaction requires a Summarize function''"
| "compact_error_text (Summarizer_Error err) = err"
| "compact_error_text Unusable_Summary = errUnusableSummary"

definition try_recover :: "loop_env \<Rightarrow> string \<Rightarrow> run_state \<Rightarrow> (recovery \<times> run_state) option" where
  "try_recover le err s =
     map_option (\<lambda>(r, st, task). (r, s\<lparr>rs_compaction := st, rs_task := task\<rparr>))
       (recover (env_compaction le) (env_decode le) (env_toolTokens le (rs_turn s)) (rs_messages s) err
          (rs_compaction s) (rs_task s))"

text \<open>The first connection of a turn.\<close>

definition first_stream :: "loop_env \<Rightarrow> run_state \<Rightarrow> received list io" where
  "first_stream le s =
     (case connect le s of
        (Inr stream, s) \<Rightarrow> Some (Inr stream, s)
      | (Inl err, s) \<Rightarrow>
          if isImageRejectionError err then Some (Inl (image_rejected s err), s)
          else (case try_recover le err s of
              None \<Rightarrow> None
            | Some (Not_Recovered, s) \<Rightarrow> Some (Inl err, s)
            | Some (Recovery_Failed e, s) \<Rightarrow> Some (Inl (compact_error_text e), applyPostCompactionSafetyNet le s)
            | Some (Recovered messages, s) \<Rightarrow>
                Some (connect le (applyPostCompactionSafetyNet le (s\<lparr>rs_messages := messages\<rparr>)))))"

text \<open>\<open>recoverStreamError\<close>: the stream that is read again forwards nothing to the user.\<close>

definition recoverStreamError :: "loop_env \<Rightarrow> collected \<Rightarrow> run_state \<Rightarrow> collected io" where
  "recoverStreamError le c s =
     (if isImageRejectionError (Error c) then Some (Inl (image_rejected s (Error c)), s)
      else (case try_recover le (Error c) s of
          None \<Rightarrow> None
        | Some (Not_Recovered, s) \<Rightarrow> Some (Inr c, s)
        | Some (Recovery_Failed e, s) \<Rightarrow> Some (Inl (compact_error_text e), s)
        | Some (Recovered messages, s) \<Rightarrow>
            and_then (Some (connect le (applyPostCompactionSafetyNet le (s\<lparr>rs_messages := messages\<rparr>))))
              (\<lambda>stream s. Some (Inr (cl_result (CollectStreamWithOptions stream)), s))))"

text \<open>A collected stream, and whether text of the turn was forwarded to the user.\<close>

definition collect_stream :: "loop_env \<Rightarrow> received list \<Rightarrow> bool \<Rightarrow> collected \<times> bool" where
  "collect_stream le stream forwarded =
     (let cl = CollectStreamWithOptions stream
      in (cl_result cl, forwarded \<or> (env_forwards le \<and> 0 < cl_forwarded cl)))"

definition recover_collected :: "loop_env \<Rightarrow> collected \<times> bool \<Rightarrow> run_state \<Rightarrow> (collected \<times> bool) io" where
  "recover_collected le cf s =
     (case cf of (c, forwarded) \<Rightarrow>
        and_then (if Error c = [] then Some (Inr c, s) else recoverStreamError le c s)
          (\<lambda>c s. if ctx_done (env_provider le) (rs_clock s) then Some (Inl (env_ctxError le (rs_clock s)), s)
                 else Some (Inr (c, forwarded), s)))"

text \<open>The retries before any text was seen, with \<open>k\<close> attempts left.\<close>

fun precontent_loop :: "loop_env \<Rightarrow> nat \<Rightarrow> collected \<times> bool \<Rightarrow> run_state \<Rightarrow> (collected \<times> bool) io" where
  "precontent_loop le 0 cf s = Some (Inr cf, s)"
| "precontent_loop le (Suc k) cf s =
     (if \<not> shouldRetryPreContentStreamError (ctx_done (env_provider le) (rs_clock s)) (fst cf) (snd cf)
      then Some (Inr cf, s)
      else if wait_done (env_provider le) (rs_clock s) then Some (Inl (env_ctxError le (rs_clock s)), s)
      else and_then (Some (connect le s)) (\<lambda>stream s.
           and_then (recover_collected le (collect_stream le stream (snd cf)) s) (\<lambda>cf s.
             precontent_loop le k cf s)))"

definition maxStreamStallRetries :: nat where "maxStreamStallRetries = 1"

text \<open>The retries of a stream that went silent before it had said anything.\<close>

fun stall_loop :: "loop_env \<Rightarrow> nat \<Rightarrow> collected \<times> bool \<Rightarrow> run_state \<Rightarrow> (collected \<times> bool) io" where
  "stall_loop le 0 cf s = Some (Inr cf, s)"
| "stall_loop le (Suc k) cf s =
     (if \<not> (isStreamTimeoutError (Error (fst cf)) \<and> \<not> snd cf \<and> Text (fst cf) = []
            \<and> turnSilentBudgetRemaining (ctx_done (env_provider le) (rs_clock s)) (env_idle le) (env_elapsed le (rs_clock s)))
      then Some (Inr cf, s)
      else if wait_done (env_provider le) (rs_clock s) then Some (Inl (env_ctxError le (rs_clock s)), s)
      else and_then (Some (connect le s)) (\<lambda>stream s.
           stall_loop le k (collect_stream le stream (snd cf)) s))"

definition last_recovery :: "loop_env \<Rightarrow> collected \<times> bool \<Rightarrow> run_state \<Rightarrow> collected io" where
  "last_recovery le cf s =
     (if Error (fst cf) = [] then Some (Inr (fst cf), s)
      else and_then (recoverStreamError le (fst cf) s) (\<lambda>c s.
             if Error c = [] then Some (Inr c, s) else Some (Inl (Error c @ firstTokenHint (Error c)), s)))"

text \<open>The whole: the turn the model took, or the error that ends the run.\<close>

definition turn_stream :: "loop_env \<Rightarrow> run_state \<Rightarrow> collected io" where
  "turn_stream le s =
     and_then (first_stream le s) (\<lambda>stream s.
     and_then (recover_collected le (collect_stream le stream False) s) (\<lambda>cf s.
     and_then (precontent_loop le maxStreamReconnects cf s) (\<lambda>cf s.
     and_then (stall_loop le maxStreamStallRetries cf s) (\<lambda>cf s.
       last_recovery le cf s))))"

section \<open>What a request changes\<close>

definition io_holds :: "(run_state \<Rightarrow> bool) \<Rightarrow> 'a io \<Rightarrow> bool" where
  "io_holds P m \<longleftrightarrow> (case m of None \<Rightarrow> False | Some (_, s) \<Rightarrow> P s)"

lemma io_holds_Some [simp]: "io_holds P (Some (r, s)) \<longleftrightarrow> P s"
  by (simp add: io_holds_def)

lemma io_holds_then: "io_holds P m \<Longrightarrow> (\<And>a s. P s \<Longrightarrow> io_holds P (f a s)) \<Longrightarrow> io_holds P (and_then m f)"
proof (cases m)
  case (Some rs)
  assume a: "io_holds P m" "\<And>a s. P s \<Longrightarrow> io_holds P (f a s)"
  obtain r s where "rs = (r, s)" by (cases rs)
  with a Some show ?thesis by (cases r) (auto simp: and_then_def)
qed (simp add: io_holds_def)

text \<open>The fields a request leaves alone.\<close>

definition same_run :: "run_state \<Rightarrow> run_state \<Rightarrow> bool" where
  "same_run s s' \<longleftrightarrow> s'\<lparr>rs_messages := rs_messages s, rs_compaction := rs_compaction s, rs_task := rs_task s,
     rs_clock := rs_clock s\<rparr> = s"

text \<open>Between the phases of a turn every call has its result.\<close>

definition settled :: "run_state \<Rightarrow> bool" where
  "settled s \<longleftrightarrow> paired [] (rs_messages s) \<and> 0 \<le> preserveLast (rs_compaction s)"

definition kept :: "run_state \<Rightarrow> run_state \<Rightarrow> bool" where
  "kept s s' \<longleftrightarrow> same_run s s' \<and> settled s'"


lemma paired_append: "paired a xs \<Longrightarrow> paired [] ys \<Longrightarrow> paired a (xs @ ys)"
  by (induction a xs rule: paired.induct) (auto split: MessageRole.split)

lemma paired_users [simp]: "paired [] (map user_message blocks)"
  by (induction blocks) (simp_all add: user_message_def)

lemma settled_say_all [simp]: "settled s \<Longrightarrow> settled (say_all blocks s)"
  by (simp add: settled_def say_all_def paired_append)

lemma settled_say [simp]: "settled s \<Longrightarrow> settled (say text' s)"
  using settled_say_all [of s "[text']"] by (simp add: say_all_def say_def)

lemma settled_say_some [simp]: "settled s \<Longrightarrow> settled (say_some text' s)"
  by (simp add: say_some_def)

lemma settled_continuation: "settled s \<Longrightarrow> settled (s\<lparr>rs_messages := appendCompactionContinuation (rs_messages s)\<rparr>)"
  by (simp add: settled_def appendCompactionContinuation_def paired_append user_message_def)

lemma settled_safety_net [simp]: "settled s \<Longrightarrow> settled (applyPostCompactionSafetyNet le s)"
  by (simp add: applyPostCompactionSafetyNet_def settled_continuation)

lemma same_run_refl [simp]: "same_run s s"
  by (simp add: same_run_def)

lemma same_run_trans: "same_run a b \<Longrightarrow> same_run b c \<Longrightarrow> same_run a c"
  by (cases a; cases b; cases c) (simp add: same_run_def)

lemma same_run_fields:
  "same_run s s' \<Longrightarrow> rs_turn s' = rs_turn s \<and> rs_maxTurns s' = rs_maxTurns s \<and> rs_guards s' = rs_guards s
     \<and> rs_policy s' = rs_policy s \<and> rs_posture s' = rs_posture s \<and> rs_engine s' = rs_engine s
     \<and> rs_cleanups s' = rs_cleanups s \<and> rs_started s' = rs_started s \<and> rs_asked s' = rs_asked s
     \<and> rs_requireCompletion s' = rs_requireCompletion s"
  by (cases s; cases s') (simp add: same_run_def)

lemma same_run_net [simp]: "same_run s (applyPostCompactionSafetyNet le s')  \<longleftrightarrow> same_run s s'"
  by (cases s; cases s') (simp add: same_run_def applyPostCompactionSafetyNet_def say_all_def)

lemma same_run_messages [simp]: "same_run s (s'\<lparr>rs_messages := ms\<rparr>) \<longleftrightarrow> same_run s s'"
  by (cases s; cases s') (simp add: same_run_def)

lemma kept_net [simp]: "kept s s' \<Longrightarrow> kept s (applyPostCompactionSafetyNet le s')"
  by (simp add: kept_def)

lemma kept_connect: "kept s s' \<Longrightarrow> kept s (snd (connect le s'))"
  by (cases s; cases s') (simp add: kept_def connect_def same_run_def settled_def split: prod.split)

lemma kept_connect_io: "kept s s' \<Longrightarrow> io_holds (kept s) (Some (connect le s'))"
  using kept_connect [of s s' le] by (cases "connect le s'") simp

lemma try_recover_parts:
  assumes "kept s s'"
  obtains r t where "try_recover le err s' = Some (r, t)" "kept s t"
    "case r of Recovered ms \<Rightarrow> paired [] ms | _ \<Rightarrow> True"
proof -
  have a: "0 \<le> preserveLast (rs_compaction s')" "paired [] (rs_messages s')" using assms by (simp_all add: kept_def settled_def)
  obtain r st task where p: "recover (env_compaction le) (env_decode le) (env_toolTokens le (rs_turn s')) (rs_messages s') err
      (rs_compaction s') (rs_task s') = Some (r, st, task)" "preserveLast st = preserveLast (rs_compaction s')"
    "case r of Not_Recovered \<Rightarrow> reactiveAttempted st = reactiveAttempted (rs_compaction s')
       | Recovery_Failed _ \<Rightarrow> \<not> reactiveAttempted (rs_compaction s') \<and> reactiveAttempted st
       | Recovered m \<Rightarrow> \<not> reactiveAttempted (rs_compaction s') \<and> reactiveAttempted st \<and> paired [] m
           \<and> estimateTokens m < estimateTokens (rs_messages s')"
    by (rule recover_parts [OF a]) (rule that)
  show thesis
  proof (rule that)
    show "try_recover le err s' = Some (r, s'\<lparr>rs_compaction := st, rs_task := task\<rparr>)" by (simp add: try_recover_def p(1))
    show "kept s (s'\<lparr>rs_compaction := st, rs_task := task\<rparr>)"
      using assms p(2) by (cases s; cases s') (simp add: kept_def same_run_def settled_def)
    show "case r of Recovered ms \<Rightarrow> paired [] ms | _ \<Rightarrow> True" using p(3) by (auto split: recovery.splits)
  qed
qed

lemma kept_recovered: "kept s s' \<Longrightarrow> paired [] ms \<Longrightarrow> kept s (s'\<lparr>rs_messages := ms\<rparr>)"
  by (simp add: kept_def settled_def)

lemma first_stream_keeps:
  assumes "kept s s'"
  shows "io_holds (kept s) (first_stream le s')"
proof -
  obtain r t where c: "connect le s' = (r, t)" by (cases "connect le s'")
  have t: "kept s t" using kept_connect [OF assms, of le] c by simp
  show ?thesis
  proof (cases r)
    case (Inl err)
    obtain q u where q: "try_recover le err t = Some (q, u)" "kept s u" "case q of Recovered ms \<Rightarrow> paired [] ms | _ \<Rightarrow> True"
      by (rule try_recover_parts [OF t, of le err]) (rule that)
    show ?thesis
      using q(2,3) t kept_connect_io [OF kept_net [OF kept_recovered [OF q(2)]]]
      by (cases q) (simp_all add: first_stream_def c Inl q(1))
  qed (simp add: first_stream_def c t)
qed

lemma recoverStreamError_keeps:
  assumes "kept s s'"
  shows "io_holds (kept s) (recoverStreamError le c s')"
proof -
  obtain q u where q: "try_recover le (Error c) s' = Some (q, u)" "kept s u" "case q of Recovered ms \<Rightarrow> paired [] ms | _ \<Rightarrow> True"
    by (rule try_recover_parts [OF assms, of le "Error c"]) (rule that)
  show ?thesis
  proof (cases q)
    case (Recovered ms)
    then have k: "kept s (applyPostCompactionSafetyNet le (u\<lparr>rs_messages := ms\<rparr>))" using q kept_recovered by simp
    show ?thesis unfolding recoverStreamError_def q(1) Recovered
      using assms by (auto intro!: io_holds_then kept_connect_io [OF k])
  qed (use q assms in \<open>simp_all add: recoverStreamError_def\<close>)
qed

lemma recover_collected_keeps: "kept s s' \<Longrightarrow> io_holds (kept s) (recover_collected le cf s')"
  unfolding recover_collected_def by (auto intro!: io_holds_then recoverStreamError_keeps split: prod.split)

lemma precontent_loop_keeps: "kept s s' \<Longrightarrow> io_holds (kept s) (precontent_loop le k cf s')"
  by (induction k arbitrary: cf s') (auto intro!: io_holds_then kept_connect_io recover_collected_keeps)

lemma stall_loop_keeps: "kept s s' \<Longrightarrow> io_holds (kept s) (stall_loop le k cf s')"
proof (induction k arbitrary: cf s')
  case (Suc k)
  then show ?case by (cases cf) (auto intro!: io_holds_then kept_connect_io simp: collect_stream_def Let_def)
qed simp

lemma last_recovery_keeps: "kept s s' \<Longrightarrow> io_holds (kept s) (last_recovery le cf s')"
  unfolding last_recovery_def by (auto intro!: io_holds_then recoverStreamError_keeps)

lemma turn_stream_keeps: "kept s s' \<Longrightarrow> io_holds (kept s) (turn_stream le s')"
  unfolding turn_stream_def
  by (intro io_holds_then first_stream_keeps recover_collected_keeps precontent_loop_keeps stall_loop_keeps last_recovery_keeps)

text \<open>A turn that was read has no error.\<close>

lemma turn_stream_no_error: "turn_stream le s = Some (Inr c, s') \<Longrightarrow> Error c = []"
  unfolding turn_stream_def and_then_def last_recovery_def
  by (auto split: option.splits sum.splits prod.splits if_splits)


text \<open>Whatever happens, panics included, the other fields stay.\<close>

definition io_frame :: "run_state \<Rightarrow> 'a io \<Rightarrow> bool" where
  "io_frame s m \<longleftrightarrow> (case m of None \<Rightarrow> True | Some (_, s') \<Rightarrow> same_run s s')"

lemma io_frame_simps [simp]: "io_frame s None" "io_frame s (Some (r, s')) \<longleftrightarrow> same_run s s'"
  by (simp_all add: io_frame_def)

lemma io_frame_then: "io_frame s m \<Longrightarrow> (\<And>a s'. same_run s s' \<Longrightarrow> io_frame s (f a s')) \<Longrightarrow> io_frame s (and_then m f)"
proof (cases m)
  case (Some rs)
  assume a: "io_frame s m" "\<And>a s'. same_run s s' \<Longrightarrow> io_frame s (f a s')"
  obtain r t where "rs = (r, t)" by (cases rs)
  with a Some show ?thesis by (cases r) (auto simp: and_then_def)
qed (simp add: and_then_def)

lemma connect_frame: "same_run s s' \<Longrightarrow> io_frame s (Some (connect le s'))"
proof -
  obtain r n where c: "streamWithReconnect (env_provider le) (withRequestNotes (env_prompt le) (env_notes le) (rs_messages s'))
    (rs_clock s') = (r, n)" by fastforce
  then have "connect le s' = (r, s'\<lparr>rs_clock := n\<rparr>)" by (simp add: connect_def)
  then show "same_run s s' \<Longrightarrow> ?thesis" by (cases s; cases s') (simp add: same_run_def)
qed

lemma try_recover_frame: "same_run s s' \<Longrightarrow> try_recover le err s' = Some (r, t) \<Longrightarrow> same_run s t"
  by (cases s; cases s') (auto simp: try_recover_def same_run_def)

lemma first_stream_frame:
  assumes "same_run s s'"
  shows "io_frame s (first_stream le s')"
proof -
  obtain r t where c: "connect le s' = (r, t)" by (cases "connect le s'")
  have t: "same_run s t" using connect_frame [OF assms, of le] c by simp
  show ?thesis
  proof (cases r)
    case (Inl err)
    have "same_run s u" if "try_recover le err t = Some (q, u)" for q u using try_recover_frame [OF t that] .
    then show ?thesis using t connect_frame
      by (auto simp: first_stream_def c Inl split: option.split recovery.split)
  qed (simp add: first_stream_def c t)
qed

lemma recoverStreamError_frame:
  assumes "same_run s s'"
  shows "io_frame s (recoverStreamError le c s')"
proof -
  have "same_run s u" if "try_recover le (Error c) s' = Some (q, u)" for q u using try_recover_frame [OF assms that] .
  then show ?thesis using assms
    by (auto simp: recoverStreamError_def split: option.split recovery.split intro!: io_frame_then connect_frame)
qed

lemma recover_collected_frame: "same_run s s' \<Longrightarrow> io_frame s (recover_collected le cf s')"
  unfolding recover_collected_def by (auto intro!: io_frame_then recoverStreamError_frame split: prod.split)

lemma precontent_loop_frame: "same_run s s' \<Longrightarrow> io_frame s (precontent_loop le k cf s')"
  by (induction k arbitrary: cf s') (auto intro!: io_frame_then connect_frame recover_collected_frame)

lemma stall_loop_frame: "same_run s s' \<Longrightarrow> io_frame s (stall_loop le k cf s')"
proof (induction k arbitrary: cf s')
  case (Suc k)
  then show ?case by (cases cf) (auto intro!: io_frame_then connect_frame simp: collect_stream_def Let_def)
qed simp

lemma last_recovery_frame: "same_run s s' \<Longrightarrow> io_frame s (last_recovery le cf s')"
  unfolding last_recovery_def by (auto intro!: io_frame_then recoverStreamError_frame)

lemma turn_stream_frame: "same_run s s' \<Longrightarrow> io_frame s (turn_stream le s')"
  unfolding turn_stream_def
  by (intro io_frame_then first_stream_frame recover_collected_frame precontent_loop_frame stall_loop_frame
      last_recovery_frame)

end
