(* ===== verification/Agent_Loop.thy ===== *)
theory Agent_Loop
  imports Turn_Stream
begin

text \<open>
  The agent loop (\<open>Run\<close> of \<open>internal/agent/loop.go\<close>): seeding the transcript, what is added before a
  request, the turn without tool calls with its completion gate, the batch of tool calls with the
  windows that run together, what follows a batch, the escalation of the posture, the end at the
  limit of turns.  Tracing, events to the surface and hooks at the ends of a session are left out.
\<close>

section \<open>Notices\<close>

definition maxTurnsAnswer :: string where
  "maxTurnsAnswer = ''Agent reached maximum number of turns without a final answer.''"

definition maxTurnsFinalAnswerPrompt :: string where
  "maxTurnsFinalAnswerPrompt = ''You have reached the tool-turn limit. Do not call tools. Give a concise final answer now: summarize what you completed, what you found, and any remaining blockers.''"

definition toolImageTurnNotice :: string where
  "toolImageTurnNotice = ''Image(s) read from tool results below:''"

definition droppedToolCallNotice :: string where
  "droppedToolCallNotice = ''Your previous tool call was malformed (it was missing a tool name) and was not executed. Re-issue the tool call with a valid tool name and JSON arguments, or reply with your final answer.''"

definition degenerateTurnNotice :: string where
  "degenerateTurnNotice = ''Your previous response was cut off because it kept repeating the same few phrases, and it was discarded. Do not narrate what you are about to do: call a tool now, or reply with your final answer.''"

definition noOutputNotice :: string where
  "noOutputNotice = ''Your previous response had no visible output and no tool calls. Continue the task by using a tool or reply with your final answer.''"

definition escalationFailedNoticePrefix :: string where
  "escalationFailedNoticePrefix = ''Note: could not switch to the requested model''"

section \<open>Learned notes\<close>

definition learnedMemoryOpen :: string where "learnedMemoryOpen = ''<learned_memory>''"
definition learnedMemoryClose :: string where "learnedMemoryClose = ''</learned_memory>''"

definition learningMemoryBlock :: "string \<Rightarrow> string" where
  "learningMemoryBlock memory =
     (if memory = [] then []
      else learnedMemoryOpen @ [newline] @ ''Standing notes saved from earlier sessions in this project. Follow them unless the current request says otherwise.''
        @ [newline] @ memory @ [newline] @ learnedMemoryClose)"

text \<open>
  A close marker before the open one still counts when it ends at or after the start, as in the code;
  the text before and after is then read with both indices.
\<close>

definition spliceMemoryBlock :: "string \<Rightarrow> string \<Rightarrow> string" where
  "spliceMemoryBlock content replacement =
     (case (index_of content learnedMemoryOpen, index_of content learnedMemoryClose) of
        (Some start, Some close) \<Rightarrow>
          if start \<le> close + length learnedMemoryClose then
            (let before = take start content; after = drop (close + length learnedMemoryClose) content
             in if replacement = [] then trim_space (before @ '' '' @ after)
                else trim_space (before @ replacement @ after))
          else if replacement = [] then content
          else if trim_space content = [] then replacement
          else trim_space content @ [newline, newline] @ replacement
      | _ \<Rightarrow> if replacement = [] then content
          else if trim_space content = [] then replacement
          else trim_space content @ [newline, newline] @ replacement)"

fun on_system :: "(string \<Rightarrow> string) \<Rightarrow> Message list \<Rightarrow> Message list" where
  "on_system f [] = []"
| "on_system f (m # ms) =
     (if msg_role m = RoleSystem then m\<lparr>msg_content := f (msg_content m)\<rparr> # ms else m # on_system f ms)"

definition EnsurePromptHasMemory :: "string \<Rightarrow> Message list \<Rightarrow> Message list" where
  "EnsurePromptHasMemory memory messages =
     (if memory = [] then messages
      else on_system (\<lambda>content. spliceMemoryBlock content (learningMemoryBlock memory)) messages)"

section \<open>The transcript a run starts with\<close>

definition system_message :: "string \<Rightarrow> Message" where
  "system_message text' = (user_message text')\<lparr>msg_role := RoleSystem\<rparr>"

definition SeedMessagesWithImages :: "string \<Rightarrow> string \<Rightarrow> string list \<Rightarrow> Message list" where
  "SeedMessagesWithImages systemPrompt userPrompt images =
     [system_message systemPrompt, (user_message userPrompt)\<lparr>msg_images := images\<rparr>]"

definition emptySeedMessage :: "Message \<Rightarrow> bool" where
  "emptySeedMessage m \<longleftrightarrow> msg_content m = [] \<and> msg_calls m = [] \<and> msg_callID m = [] \<and> msg_images m = []
     \<and> msg_reasoning m = []"

definition seedRunMessages :: "string \<Rightarrow> string \<Rightarrow> string list \<Rightarrow> Message list \<Rightarrow> Message list" where
  "seedRunMessages systemPrompt prompt images initial =
     (if initial = [] then SeedMessagesWithImages systemPrompt prompt images
      else system_message systemPrompt
        # filter (\<lambda>m. \<not> (msg_role m = RoleSystem \<or> emptySeedMessage m)) initial
        @ [(user_message prompt)\<lparr>msg_images := images\<rparr>])"

section \<open>How a run ends\<close>

record agent_result =
  ar_FinalAnswer :: string
  ar_Turns :: nat
  ar_FinishReason :: string
  ar_Incomplete :: bool
  ar_IncompleteReason :: string
  ar_PlanApproved :: bool
  ar_Messages :: "Message list"

text \<open>The result and the error of the run.\<close>

type_synonym run_end = "agent_result \<times> string option"

definition report :: "run_state \<Rightarrow> string \<Rightarrow> agent_result" where
  "report s finalAnswer = \<lparr>ar_FinalAnswer = finalAnswer, ar_Turns = rs_turn s, ar_FinishReason = rs_finish s,
     ar_Incomplete = False, ar_IncompleteReason = [], ar_PlanApproved = False, ar_Messages = rs_messages s\<rparr>"

definition fails_with :: "run_state \<Rightarrow> string \<Rightarrow> run_end" where
  "fails_with s err = (report s [], Some err)"

definition answers :: "run_state \<Rightarrow> string \<Rightarrow> run_end" where
  "answers s finalAnswer = (report s finalAnswer, None)"

section \<open>Before a request\<close>

definition begin_turn :: "loop_env \<Rightarrow> run_state \<Rightarrow> run_state" where
  "begin_turn le s =
     (let n = rs_clock s
      in say_all (env_coaching le n) (say_some (env_catalog le n) (say_all (env_guidelines le n)
           (say_all (env_completions le n) (say_some (env_diagnostics le n) (s\<lparr>rs_turn := Suc (rs_turn s)\<rparr>))))))"

definition compact_turn :: "loop_env \<Rightarrow> run_state \<Rightarrow> run_state option" where
  "compact_turn le s =
     (case maybeCompact (env_compaction le) (env_decode le) (env_toolTokens le (rs_turn s)) (rs_messages s)
             (rs_compaction s) (rs_task s) of
        None \<Rightarrow> None
      | Some (messages, didCompact, st, task) \<Rightarrow>
          (let s = s\<lparr>rs_messages := messages, rs_compaction := st, rs_task := task\<rparr>;
               s = (if didCompact then applyPostCompactionSafetyNet le s else s)
           in Some (s\<lparr>rs_messages := EnsurePromptHasMemory (env_memory le (rs_clock s)) (rs_messages s)\<rparr>)))"

section \<open>The posture\<close>

definition applyPosture :: "run_state \<Rightarrow> run_state" where
  "applyPosture s =
     (case maybeEscalate (rs_posture s) of
        (None, p) \<Rightarrow> s\<lparr>rs_posture := p\<rparr>
      | (Some target, p) \<Rightarrow>
          s\<lparr>rs_posture := p,
            rs_maxTurns := (if rs_maxTurns s < esc_MaxTurns target then esc_MaxTurns target else rs_maxTurns s),
            rs_effort := (if esc_Effort target \<noteq> [] then esc_Effort target
              else if RestoreDefaultEffort target then [] else rs_effort s),
            rs_requireCompletion := (RestoreCompletionGate target \<or> rs_requireCompletion s)\<rparr>)"

section \<open>A turn without tool calls\<close>

definition completed :: completionEvaluation where
  "completed = \<lparr>eval_Decision = CompletionComplete, eval_Action = ActionNone, eval_Reason = []\<rparr>"

text \<open>The last diagnostics before a final answer is given; \<open>None\<close> goes on with the next turn.\<close>

definition final_text :: "loop_env \<Rightarrow> string \<Rightarrow> run_state \<Rightarrow> run_end option \<times> run_state" where
  "final_text le text' s =
     (let nudge = env_finalDiagnostics le (rs_clock s)
      in if nudge \<noteq> [] then (None, say nudge s) else (Some (answers s text'), s))"

definition gate_completion :: "loop_env \<Rightarrow> string \<Rightarrow> run_state \<Rightarrow> run_end option \<times> run_state" where
  "gate_completion le text' s =
     (let (ctx, task) = completion_context (env_decode le) (rs_messages s) (pendingPlanItems (rs_guards s)) (rs_task s);
          (ev, policy) = evaluate text' ctx (rs_policy s);
          s = s\<lparr>rs_task := snd (observe (env_decode le) (TaskCompletion ev) task), rs_policy := policy\<rparr>
      in case eval_Decision ev of
           CompletionIncomplete \<Rightarrow>
             (Some ((report s text')\<lparr>ar_Incomplete := True, ar_IncompleteReason := eval_Reason ev\<rparr>, None), s)
         | CompletionUncertain \<Rightarrow>
             (let s = applyPosture (s\<lparr>rs_posture := observeUncertain (rs_posture s)\<rparr>)
              in case eval_Action ev of
                   ActionContinue \<Rightarrow> (None, say (continueNudge (eval_Reason ev)) s)
                 | ActionSemanticCheck \<Rightarrow> (None, say (acceptanceVerificationNudge (ctx_Objective ctx)) s)
                 | ActionNone \<Rightarrow> (None, s))
         | _ \<Rightarrow> final_text le text' s)"

definition text_turn :: "loop_env \<Rightarrow> collected \<Rightarrow> run_state \<Rightarrow> run_end option \<times> run_state" where
  "text_turn le c s =
     (if 0 < DroppedToolCalls c then
        (let (stop, g) = observeNoActionTurn (rs_guards s); s = s\<lparr>rs_guards := g\<rparr>
         in if stop then (Some (answers s (guardStopAnswer g (rs_turn s))), s)
            else (None, say droppedToolCallNotice s))
      else
        (let (stop, g) = observeTurn (env_decode le) (CollectedStream.truncate c) (rs_guards s); s = s\<lparr>rs_guards := g\<rparr>
         in if stop then (Some (answers s (guardStopAnswer g (rs_turn s))), s)
            else if trim_space (Text c) = [] then
              (let (reminder, g) = noActionReminder g
               in (None, say (if reminder = [] then noOutputNotice else reminder) (s\<lparr>rs_guards := g\<rparr>)))
            else if rs_requireCompletion s then gate_completion le (Text c) s
            else final_text le (Text c) (s\<lparr>rs_task := snd (observe (env_decode le) (TaskCompletion completed) (rs_task s))\<rparr>)))"

section \<open>The tool calls of a turn\<close>

text \<open>A call to the gate, at the moment \<open>rs_clock\<close>.\<close>

definition exec_call :: "loop_env \<Rightarrow> ToolCall \<Rightarrow> run_state \<Rightarrow> call_outcome \<times> run_state" where
  "exec_call le call s =
     (let o' = executeToolCall (env_world le (rs_clock s)) (env_registry le) (env_options le) call (env_mode le) (rs_engine s)
      in (o', s\<lparr>rs_engine := co_engine o', rs_clock := Suc (rs_clock s), rs_cleanups := rs_cleanups s @ co_cleanups o',
            rs_started := rs_started s @ map (Pair call) (co_started o'), rs_asked := rs_asked s @ co_asked o'\<rparr>))"

text \<open>
  A window of calls from \<open>index\<close> to \<open>end'\<close>: the goroutines are taken to reach the gate one after the
  other in some order, and the outcomes are kept by the index of their call.
\<close>

definition window_call ::
    "loop_env \<Rightarrow> ToolCall list \<Rightarrow> nat \<Rightarrow> (nat \<rightharpoonup> call_outcome) \<times> run_state \<Rightarrow> (nat \<rightharpoonup> call_outcome) \<times> run_state" where
  "window_call le calls i st =
     (case exec_call le (calls ! i) (snd st) of (o', s) \<Rightarrow> ((fst st)(i \<mapsto> o'), s))"

definition exec_window ::
    "loop_env \<Rightarrow> ToolCall list \<Rightarrow> nat \<Rightarrow> nat \<Rightarrow> run_state \<Rightarrow> (nat \<rightharpoonup> call_outcome) \<times> run_state" where
  "exec_window le calls index end' s =
     fold (window_call le calls) (sort_key (env_priority le (rs_clock s)) [index..<end']) (Map.empty, s)"

record turn_batch =
  tb_failureHint :: string
  tb_model :: string
  tb_changed :: "string list"
  tb_images :: "string list"
  tb_precomputed :: "nat \<rightharpoonup> call_outcome"
  tb_precomputedEnd :: nat

definition new_turn_batch :: turn_batch where
  "new_turn_batch = \<lparr>tb_failureHint = [], tb_model = [], tb_changed = [], tb_images = [], tb_precomputed = Map.empty,
     tb_precomputedEnd = 0\<rparr>"

definition read_ahead :: "loop_env \<Rightarrow> ToolCall list \<Rightarrow> nat \<Rightarrow> turn_batch \<Rightarrow> run_state \<Rightarrow> turn_batch \<times> run_state" where
  "read_ahead le calls index tb s =
     (if index < tb_precomputedEnd tb then (tb, s)
      else (let runEnd = extendParallelRun (env_registry le) calls index (env_options le)
            in if runEnd < index + 2 then (tb, s)
               else (case exec_window le calls index runEnd s of
                   (ahead, s) \<Rightarrow> (tb\<lparr>tb_precomputed := ahead, tb_precomputedEnd := runEnd\<rparr>, s))))"

definition call_outcome_at ::
    "loop_env \<Rightarrow> ToolCall \<Rightarrow> nat \<Rightarrow> turn_batch \<Rightarrow> run_state \<Rightarrow> call_outcome \<times> run_state" where
  "call_outcome_at le call index tb s =
     (case (if index < tb_precomputedEnd tb then tb_precomputed tb index else None) of
        Some o' \<Rightarrow> (o', s)
      | None \<Rightarrow> exec_call le call s)"

text \<open>The identifier a result carries: \<open>executeExitPlanMode\<close> leaves it empty when the prompt is cancelled.\<close>

definition reply_id :: "ToolCall \<Rightarrow> call_outcome \<Rightarrow> string" where
  "reply_id call o' = (if call_Name call = ''exit_plan_mode'' \<and> co_abort o' then [] else call_ID call)"

definition abort_error :: "loop_env \<Rightarrow> call_outcome \<Rightarrow> run_state \<Rightarrow> string option" where
  "abort_error le o' s =
     (if co_abort o' then Some (env_abortError le (rs_clock s))
      else if ctx_done (env_provider le) (rs_clock s) then Some (env_ctxError le (rs_clock s)) else None)"

definition record_result :: "loop_env \<Rightarrow> ToolCall \<Rightarrow> call_outcome \<Rightarrow> ToolResult \<Rightarrow> run_state \<Rightarrow> run_state" where
  "record_result le call o' res s =
     s\<lparr>rs_task := snd (observe (env_decode le) (TaskToolResult (tr_status res) (tr_changed res)) (rs_task s)),
       rs_loaded := rs_loaded s \<union> set (loadedToolsFromResult (tr_meta res)),
       rs_messages := rs_messages s @ [tool_message (reply_id call o') (tr_output res)]\<rparr>"

definition abandon :: "ToolCall list \<Rightarrow> run_state \<Rightarrow> run_state" where
  "abandon rest s = s\<lparr>rs_messages := appendAbortedToolResults (rs_messages s) rest\<rparr>"

text \<open>After a call was answered: what the batch remembers of its result.\<close>

definition collect_result :: "loop_env \<Rightarrow> ToolCall \<Rightarrow> tool_outcome \<Rightarrow> ToolResult \<Rightarrow> turn_batch \<Rightarrow> turn_batch" where
  "collect_result le call outcome res tb =
     tb\<lparr>tb_failureHint := (if InjectHint outcome \<and> tb_failureHint tb = []
          then toolFailureHint (call_Name call) (env_schema le (call_Name call)) (tr_output res) else tb_failureHint tb),
        tb_changed := (if tr_status res = StatusOK then tb_changed tb @ tr_changed res else tb_changed tb),
        tb_images := tb_images tb @ tr_images res\<rparr>"

definition answer_text :: "loop_env \<Rightarrow> run_state \<Rightarrow> ToolCall \<Rightarrow> call_outcome \<Rightarrow> ToolResult" where
  "answer_text le s call o' = env_gate le (rs_clock s) (rs_messages s) call (co_result o')"

text \<open>The loop over the calls; \<open>Inl\<close> ends the run.\<close>

fun run_calls ::
    "loop_env \<Rightarrow> string \<Rightarrow> ToolCall list \<Rightarrow> nat \<Rightarrow> ToolCall list \<Rightarrow> turn_batch \<Rightarrow> run_state
      \<Rightarrow> (run_end + turn_batch) \<times> run_state" where
  "run_calls le text' calls index [] tb s = (Inr tb, s)"
| "run_calls le text' calls index (call # rest) tb s =
     (let (tb, s) = read_ahead le calls index tb s;
          (o', s) = call_outcome_at le call index tb s;
          res = answer_text le s call o';
          s = record_result le call o' res s;
          model = meta_value (tr_meta res) ''escalate_to_model'';
          tb = tb\<lparr>tb_model := (if tb_model tb = [] then model else tb_model tb)\<rparr>
      in case abort_error le o' s of
           Some err \<Rightarrow> (let s = abandon rest s in (Inl (fails_with s err), s))
         | None \<Rightarrow>
             if tr_meta res ''plan_exit'' = Some ''approved'' then
               (let s = abandon rest s in (Inl ((report s text')\<lparr>ar_PlanApproved := True\<rparr>, None), s))
             else
               (let (outcome, g) = observeToolResult (call_Name call) (isRetriableToolError res) (tr_output res) (rs_guards s);
                    s = s\<lparr>rs_guards := g, rs_posture :=
                      observeToolOutcome outcome (tr_denial res) (env_risk le (rs_clock s) call) (rs_posture s)\<rparr>
                in if Stop outcome then
                     (let s = abandon rest s in (Inl (answers s (toolFailureStopAnswer (call_Name call) (Count outcome))), s))
                   else run_calls le text' calls (Suc index) rest (collect_result le call outcome res tb) s))"

section \<open>After the calls\<close>

definition self_correct :: "loop_env \<Rightarrow> turn_batch \<Rightarrow> run_state \<Rightarrow> run_state" where
  "self_correct le tb s =
     (case env_selfCorrect le of
        None \<Rightarrow> s
      | Some afterEdit \<Rightarrow>
          if tb_changed tb = [] then s
          else (let (feedback, outcome) = afterEdit (rs_clock s) (dedupe_strings (tb_changed tb))
                in say_some feedback (s\<lparr>rs_posture := observeSelfCorrect outcome (rs_posture s),
                     rs_task := snd (observe (env_decode le) (TaskVerification outcome) (rs_task s))\<rparr>)))"

definition switch_model :: "loop_env \<Rightarrow> turn_batch \<Rightarrow> run_state \<Rightarrow> run_state" where
  "switch_model le tb s =
     (case env_switch le of
        None \<Rightarrow> s
      | Some switcher \<Rightarrow>
          if tb_model tb = [] then s
          else (case switcher (rs_clock s) (tb_model tb) of
              Switch_Failed err \<Rightarrow> say (escalationFailedNoticePrefix @ '' ('' @ tb_model tb @ ''): '' @ err
                @ ''. Continuing on '' @ rs_model s @ ''.'') s
            | Switched \<Rightarrow> s\<lparr>rs_model := tb_model tb\<rparr>
            | Not_Switched \<Rightarrow> s))"

definition remind :: "string \<Rightarrow> string \<Rightarrow> run_state \<Rightarrow> run_state" where
  "remind failureHint noOpHint s =
     (if failureHint \<noteq> [] then say failureHint s
      else if noOpHint \<noteq> [] then say noOpHint s
      else (let (reminder, g) = progressReminder (rs_guards s); s = s\<lparr>rs_guards := g\<rparr>
            in if reminder \<noteq> [] then say reminder s
               else (let (reminder, g) = planReminder (rs_turn s) g
                     in say_some reminder (s\<lparr>rs_guards := g\<rparr>))))"

definition after_calls :: "loop_env \<Rightarrow> collected \<Rightarrow> turn_batch \<Rightarrow> run_state \<Rightarrow> run_end option \<times> run_state" where
  "after_calls le c tb s =
     (let (noOp, g) = observeNoOpToolCalls (ToolCalls c) (tb_changed tb) (rs_guards s); s = s\<lparr>rs_guards := g\<rparr>
      in if Stop noOp then (Some (answers s (noOpToolCallStopAnswer (Count noOp))), s)
         else
           (let noOpHint = (if InjectHint noOp then noOpToolCallReminder (Count noOp) else []);
                s = (if tb_images tb = [] then s
                     else s\<lparr>rs_messages := rs_messages s @ [(user_message toolImageTurnNotice)\<lparr>msg_images := tb_images tb\<rparr>]\<rparr>);
                s = switch_model le tb (self_correct le tb s);
                s = (if 0 < DroppedToolCalls c then say droppedToolCallNotice s else s)
            in (None, applyPosture (remind (tb_failureHint tb) noOpHint s))))"

definition calls_turn :: "loop_env \<Rightarrow> collected \<Rightarrow> run_state \<Rightarrow> run_end option \<times> run_state" where
  "calls_turn le c s =
     (let s = s\<lparr>rs_guards := snd (observeTurn (env_decode le) (CollectedStream.truncate c) (rs_guards s)),
                rs_task := fold (\<lambda>call task. if call_Name call = planToolName
                    then snd (observe (env_decode le) (TaskPlan (call_Arguments call)) task) else task)
                  (ToolCalls c) (rs_task s)\<rparr>
      in case run_calls le (Text c) (ToolCalls c) 0 (ToolCalls c) new_turn_batch s of
           (Inl e, s) \<Rightarrow> (Some e, s)
         | (Inr tb, s) \<Rightarrow> after_calls le c tb s)"

section \<open>A turn\<close>

definition assistant_message :: "loop_env \<Rightarrow> collected \<Rightarrow> Message" where
  "assistant_message le c = \<lparr>msg_role = RoleAssistant, msg_content = Text c,
     msg_calls = historySafeToolCalls (env_validJSON le) (env_recoverable le) (ToolCalls c), msg_callID = [],
     msg_images = [], msg_reasoning = ReasoningBlocks c\<rparr>"

text \<open>What is done with the turn the model took.\<close>

definition take_turn :: "loop_env \<Rightarrow> collected \<Rightarrow> run_state \<Rightarrow> run_end option \<times> run_state" where
  "take_turn le c s =
     (let s = s\<lparr>rs_compaction := calibrate (estimateTokens (rs_messages s) + env_toolTokens le (rs_turn s))
                  (InputTokens (TokenUsage c)) (rs_compaction s),
                rs_finish := FinishReason c\<rparr>
      in if Degenerate c then
           (let (stop, g) = observeDegenerateTurn (rs_guards s); s = s\<lparr>rs_guards := g\<rparr>
            in if stop then (Some (answers s (guardStopAnswer g (rs_turn s))), s)
               else (None, say degenerateTurnNotice s))
         else
           (let c = c\<lparr>ToolCalls := canonicalizeToolCalls (env_registry le) (ToolCalls c)\<rparr>;
                s = s\<lparr>rs_messages := rs_messages s @ [assistant_message le c]\<rparr>
            in if ToolCalls c = [] then text_turn le c s else calls_turn le c s))"

text \<open>One turn: the end of the run, or \<open>None\<close>; the outer \<open>None\<close> is a panic.\<close>

definition turn_step :: "loop_env \<Rightarrow> run_state \<Rightarrow> (run_end option \<times> run_state) option" where
  "turn_step le s =
     (case compact_turn le (begin_turn le s) of
        None \<Rightarrow> None
      | Some s \<Rightarrow>
          (case turn_stream le s of
             None \<Rightarrow> None
           | Some (Inl err, s) \<Rightarrow> Some (Some (fails_with s err), s)
           | Some (Inr c, s) \<Rightarrow> Some (take_turn le c s)))"

section \<open>The limit of turns\<close>

text \<open>The answer asked for when the turns are used up: the text, the transcript with it, the finish reason.\<close>

definition finalAnswerAfterMaxTurns ::
    "loop_env \<Rightarrow> run_state \<Rightarrow> (string \<times> Message list \<times> string) \<times> run_state" where
  "finalAnswerAfterMaxTurns le s =
     (let messages = rs_messages s; finalMessages = messages @ [user_message maxTurnsFinalAnswerPrompt]
      in case streamWithReconnect (env_provider le) finalMessages (rs_clock s) of
           (Inl err, n) \<Rightarrow> (([], messages, []), s\<lparr>rs_clock := n\<rparr>)
         | (Inr stream, n) \<Rightarrow>
             (let c = cl_result (CollectStreamWithOptions stream)
              in if ctx_done (env_provider le) n \<or> Error c \<noteq> [] \<or> trim_space (Text c) = []
                 then (([], messages, []), s\<lparr>rs_clock := n\<rparr>)
                 else ((Text c, finalMessages @ [(user_message (Text c))\<lparr>msg_role := RoleAssistant\<rparr>], FinishReason c),
                       s\<lparr>rs_clock := n\<rparr>)))"

definition out_of_turns :: "loop_env \<Rightarrow> run_state \<Rightarrow> run_end \<times> run_state" where
  "out_of_turns le s =
     (if ctx_done (env_provider le) (rs_clock s) then (fails_with s (env_ctxError le (rs_clock s)), s)
      else
        (let n = rs_clock s;
             s = say_all (env_coaching le n) (say_some (env_catalog le n) (say_all (env_guidelines le n)
                   (say_some (env_finalDiagnostics le n) s)));
             ((answer', messages, finish'), s) = finalAnswerAfterMaxTurns le s
         in if trim_space answer' \<noteq> [] then
              (((report s answer')\<lparr>ar_FinishReason := finish', ar_Messages := messages, ar_Incomplete := rs_requireCompletion s,
                  ar_IncompleteReason := (if rs_requireCompletion s then ''reached the max-turns limit without completing'' else [])\<rparr>,
                None), s)
            else
              (((report s maxTurnsAnswer)\<lparr>ar_Incomplete := rs_requireCompletion s,
                  ar_IncompleteReason := (if rs_requireCompletion s then ''reached the max-turns limit without a final answer'' else [])\<rparr>,
                None), s)))"

end
