(* ===== verification/Agent_Run.thy ===== *)
theory Agent_Run
  imports Agent_Loop
begin

text \<open>
  The loop over the turns and the run around it, with what every turn keeps: the course of the run
  (turns and their limit), the pairing of tool calls and results, and the account of what the gate was
  asked to do.
\<close>

section \<open>The course of a run\<close>

definition escalation_target :: "run_state \<Rightarrow> int" where
  "escalation_target s = (case esc_policy (rs_posture s) of None \<Rightarrow> 0 | Some p \<Rightarrow> esc_MaxTurns p)"

definition turn_limit :: "run_state \<Rightarrow> int" where
  "turn_limit s = max (rs_maxTurns s) (escalation_target s)"

definition course :: "run_state \<Rightarrow> nat \<times> PostureEscalation option \<times> int" where
  "course s = (rs_turn s, esc_policy (rs_posture s), turn_limit s)"

text \<open>What the gate did so far.\<close>

definition gate_view :: "run_state \<Rightarrow> Engine option \<times> cleanup list \<times> (ToolCall \<times> tool_start) list \<times> PermissionRequest list" where
  "gate_view s = (rs_engine s, rs_cleanups s, rs_started s, rs_asked s)"

lemmas view_defs = course_def gate_view_def turn_limit_def escalation_target_def

lemma view_say [simp]: "course (say t s) = course s" "gate_view (say t s) = gate_view s"
  "course (say_all bs s) = course s" "gate_view (say_all bs s) = gate_view s"
  "course (say_some t s) = course s" "gate_view (say_some t s) = gate_view s"
  by (simp_all add: view_defs say_def say_all_def say_some_def)

lemma view_update [simp]:
  "course (s\<lparr>rs_messages := ms\<rparr>) = course s" "gate_view (s\<lparr>rs_messages := ms\<rparr>) = gate_view s"
  "course (s\<lparr>rs_guards := g\<rparr>) = course s" "gate_view (s\<lparr>rs_guards := g\<rparr>) = gate_view s"
  "course (s\<lparr>rs_task := t\<rparr>) = course s" "gate_view (s\<lparr>rs_task := t\<rparr>) = gate_view s"
  "course (s\<lparr>rs_policy := p\<rparr>) = course s" "gate_view (s\<lparr>rs_policy := p\<rparr>) = gate_view s"
  "course (s\<lparr>rs_compaction := c\<rparr>) = course s" "gate_view (s\<lparr>rs_compaction := c\<rparr>) = gate_view s"
  "course (s\<lparr>rs_finish := fr\<rparr>) = course s" "gate_view (s\<lparr>rs_finish := fr\<rparr>) = gate_view s"
  "course (s\<lparr>rs_model := m\<rparr>) = course s" "gate_view (s\<lparr>rs_model := m\<rparr>) = gate_view s"
  "course (s\<lparr>rs_loaded := l\<rparr>) = course s" "gate_view (s\<lparr>rs_loaded := l\<rparr>) = gate_view s"
  "course (s\<lparr>rs_clock := n\<rparr>) = course s" "gate_view (s\<lparr>rs_clock := n\<rparr>) = gate_view s"
  by (simp_all add: view_defs)

lemma view_posture [simp]:
  "gate_view (s\<lparr>rs_posture := p\<rparr>) = gate_view s"
  "esc_policy p = esc_policy (rs_posture s) \<Longrightarrow> course (s\<lparr>rs_posture := p\<rparr>) = course s"
  by (simp_all add: view_defs)

lemma same_run_view: "same_run s s' \<Longrightarrow> course s' = course s \<and> gate_view s' = gate_view s"
  using same_run_fields [of s s'] by (simp add: view_defs)

lemma posture_policy [simp]:
  "esc_policy (observeToolOutcome outcome denial risk c) = esc_policy c"
  "esc_policy (observeUncertain c) = esc_policy c"
  "esc_policy (observeSelfCorrect outcome' c) = esc_policy c"
  "esc_policy (snd (maybeEscalate c)) = esc_policy c"
  by (auto simp: observeToolOutcome_def observeUncertain_def observeSelfCorrect_def maybeEscalate_def Let_def
      split: option.split)

lemma maybeEscalate_target: "fst (maybeEscalate c) = Some target \<Longrightarrow> esc_policy c = Some target"
  by (auto simp: maybeEscalate_def split: option.splits if_splits)

lemma view_applyPosture [simp]: "course (applyPosture s) = course s" "gate_view (applyPosture s) = gate_view s"
proof -
  obtain r p where m: "maybeEscalate (rs_posture s) = (r, p)" by (cases "maybeEscalate (rs_posture s)")
  have p: "esc_policy p = esc_policy (rs_posture s)" using posture_policy(4) [of "rs_posture s"] m by simp
  show "course (applyPosture s) = course s"
    using p maybeEscalate_target [of "rs_posture s"] m by (cases r) (auto simp: applyPosture_def view_defs)
  show "gate_view (applyPosture s) = gate_view s"
    by (cases r) (simp_all add: applyPosture_def m view_defs)
qed

lemma messages_applyPosture [simp]: "rs_messages (applyPosture s) = rs_messages s" "rs_compaction (applyPosture s) = rs_compaction s"
  by (auto simp: applyPosture_def split: prod.split option.split)

lemma settled_update [simp]:
  "settled (s\<lparr>rs_guards := g\<rparr>) = settled s" "settled (s\<lparr>rs_task := t\<rparr>) = settled s"
  "settled (s\<lparr>rs_policy := p\<rparr>) = settled s" "settled (s\<lparr>rs_posture := q\<rparr>) = settled s"
  "settled (s\<lparr>rs_finish := fr\<rparr>) = settled s" "settled (s\<lparr>rs_model := m\<rparr>) = settled s"
  "settled (s\<lparr>rs_loaded := l\<rparr>) = settled s" "settled (s\<lparr>rs_clock := n\<rparr>) = settled s"
  "settled (s\<lparr>rs_turn := k\<rparr>) = settled s"
  "settled (applyPosture s) = settled s"
  by (simp_all add: settled_def)

text \<open>Steps that keep the course, leave the gate alone and keep the pairing; phases that end in them.\<close>

definition calm :: "run_state \<Rightarrow> run_state \<Rightarrow> bool" where
  "calm s s' \<longleftrightarrow> course s' = course s \<and> gate_view s' = gate_view s \<and> (settled s \<longrightarrow> settled s')"

definition ends_in :: "run_end option \<Rightarrow> run_state \<Rightarrow> bool" where
  "ends_in r s \<longleftrightarrow> (case r of None \<Rightarrow> True | Some e \<Rightarrow> ar_Messages (fst e) = rs_messages s \<and> ar_Turns (fst e) = rs_turn s)"

definition phase_ok :: "run_state \<Rightarrow> run_end option \<times> run_state \<Rightarrow> bool" where
  "phase_ok s r \<longleftrightarrow> calm s (snd r) \<and> ends_in (fst r) (snd r)"

lemma calm_refl [simp]: "calm s s" by (simp add: calm_def)

lemma calm_trans: "calm a b \<Longrightarrow> calm b c \<Longrightarrow> calm a c" by (simp add: calm_def)

lemma calm_same_run: "same_run s s' \<Longrightarrow> (settled s \<Longrightarrow> settled s') \<Longrightarrow> calm s s'"
  using same_run_view by (simp add: calm_def)

lemma phase_ok_after: "phase_ok b r \<Longrightarrow> calm a b \<Longrightarrow> phase_ok a r"
  using calm_trans by (auto simp: phase_ok_def)

lemma calm_say: "calm s s' \<Longrightarrow> calm s (say t s')" "calm s s' \<Longrightarrow> calm s (say_all bs s')"
  "calm s s' \<Longrightarrow> calm s (say_some t s')" "calm s s' \<Longrightarrow> calm s (applyPosture s')"
  "calm s s' \<Longrightarrow> calm s (s'\<lparr>rs_guards := g\<rparr>)" "calm s s' \<Longrightarrow> calm s (s'\<lparr>rs_task := k\<rparr>)"
  "calm s s' \<Longrightarrow> calm s (s'\<lparr>rs_policy := pol\<rparr>)" "calm s s' \<Longrightarrow> calm s (s'\<lparr>rs_model := m\<rparr>)"
  "calm s s' \<Longrightarrow> calm s (s'\<lparr>rs_finish := m\<rparr>)" "calm s s' \<Longrightarrow> calm s (s'\<lparr>rs_clock := n\<rparr>)"
  "calm s s' \<Longrightarrow> esc_policy p = esc_policy (rs_posture s') \<Longrightarrow> calm s (s'\<lparr>rs_posture := p\<rparr>)"
  by (simp_all add: calm_def)

lemma calm_user: "calm s s' \<Longrightarrow> msg_role m = RoleUser \<Longrightarrow> calm s (s'\<lparr>rs_messages := rs_messages s' @ [m]\<rparr>)"
  by (auto simp: calm_def settled_def paired_append)

lemma ended_simps [simp]:
  "ends_in None s" "ends_in (Some (answers s t)) s" "ends_in (Some (fails_with s err)) s"
  "ends_in (Some (report s t, e)) s"
  "ends_in (Some ((report s t)\<lparr>ar_Incomplete := b, ar_IncompleteReason := w\<rparr>, e)) s"
  "ends_in (Some ((report s t)\<lparr>ar_PlanApproved := b\<rparr>, e)) s"
  by (simp_all add: ends_in_def report_def answers_def fails_with_def)

lemma final_text_ok: "phase_ok s (final_text le t s)"
  by (simp add: phase_ok_def final_text_def Let_def calm_say)

lemma gate_completion_ok: "phase_ok s (gate_completion le t s)"
proof -
  obtain ctx task where c: "completion_context (env_decode le) (rs_messages s) (pendingPlanItems (rs_guards s)) (rs_task s) = (ctx, task)"
    by fastforce
  obtain ev policy where e: "evaluate t ctx (rs_policy s) = (ev, policy)" by fastforce
  let ?s = "s\<lparr>rs_task := snd (observe (env_decode le) (TaskCompletion ev) task), rs_policy := policy\<rparr>"
  have s: "calm s ?s" by (intro calm_say calm_refl)
  show ?thesis
  proof (cases "eval_Decision ev")
    case CompletionUncertain
    have "calm s (applyPosture (?s\<lparr>rs_posture := observeUncertain (rs_posture ?s)\<rparr>))" by (intro calm_say s) simp
    then show ?thesis
      by (cases "eval_Action ev") (simp_all add: gate_completion_def c e Let_def CompletionUncertain phase_ok_def calm_say)
  next
    case CompletionIncomplete
    then show ?thesis using s by (simp add: gate_completion_def c e Let_def phase_ok_def)
  next
    case CompletionNone
    then show ?thesis using phase_ok_after [OF final_text_ok s] by (simp add: gate_completion_def c e Let_def)
  next
    case CompletionComplete
    then show ?thesis using phase_ok_after [OF final_text_ok s] by (simp add: gate_completion_def c e Let_def)
  qed
qed

lemma text_turn_ok: "phase_ok s (text_turn le c s)"
proof (cases "0 < DroppedToolCalls c")
  case True
  then show ?thesis by (simp add: text_turn_def Let_def phase_ok_def calm_say split: prod.split)
next
  case False
  obtain stop g where g: "observeTurn (env_decode le) (CollectedStream.truncate c) (rs_guards s) = (stop, g)" by fastforce
  obtain reminder g' where r: "noActionReminder g = (reminder, g')" by fastforce
  have s: "calm s (s\<lparr>rs_guards := g\<rparr>)" "calm s (s\<lparr>rs_guards := g, rs_task := k\<rparr>)" for k by (simp_all add: calm_say)
  show ?thesis
    using False phase_ok_after [OF gate_completion_ok s(1)] phase_ok_after [OF final_text_ok s(2)]
    by (simp add: text_turn_def g r Let_def phase_ok_def calm_say)
qed

lemma self_correct_calm: "calm s s' \<Longrightarrow> calm s (self_correct le tb s')"
  by (auto simp: self_correct_def Let_def split: option.split prod.split intro!: calm_say)

lemma switch_model_calm: "calm s s' \<Longrightarrow> calm s (switch_model le tb s')"
  by (auto simp: switch_model_def split: option.split switch_reply.split intro!: calm_say)

lemma remind_calm: "calm s s' \<Longrightarrow> calm s (remind a b s')"
  by (auto simp: remind_def Let_def split: prod.split intro!: calm_say)

lemma after_calls_ok: "phase_ok s (after_calls le c tb s)"
proof -
  obtain noOp g where n: "observeNoOpToolCalls (ToolCalls c) (tb_changed tb) (rs_guards s) = (noOp, g)" by fastforce
  have m: "msg_role ((user_message toolImageTurnNotice)\<lparr>msg_images := tb_images tb\<rparr>) = RoleUser" by (simp add: user_message_def)
  have i: "calm s (s\<lparr>rs_guards := g, rs_messages := rs_messages s
      @ [(user_message toolImageTurnNotice)\<lparr>msg_images := tb_images tb\<rparr>]\<rparr>)"
    using calm_user [OF calm_say(5) [OF calm_refl [of s], of g] m] by simp
  show ?thesis
    by (auto simp: after_calls_def n Let_def phase_ok_def intro!: i calm_say remind_calm switch_model_calm self_correct_calm)
qed


section \<open>The calls of a turn\<close>

text \<open>The calls that still wait for a result after a transcript, or that it is out of step.\<close>

fun pending :: "string list \<Rightarrow> Message list \<Rightarrow> string list option" where
  "pending waiting [] = Some waiting"
| "pending waiting (m # ms) =
     (case msg_role m of
        RoleTool \<Rightarrow> (if waiting \<noteq> [] \<and> msg_callID m = hd waiting then pending (tl waiting) ms else None)
      | RoleAssistant \<Rightarrow> (if waiting = [] then pending (map call_ID (msg_calls m)) ms else None)
      | _ \<Rightarrow> (if waiting = [] then pending [] ms else None))"

lemma paired_pending: "paired waiting ms \<longleftrightarrow> pending waiting ms = Some []"
  by (induction waiting ms rule: pending.induct) (auto split: MessageRole.split)

lemma pending_append: "pending waiting xs = Some w \<Longrightarrow> pending waiting (xs @ ys) = pending w ys"
  by (induction waiting xs rule: pending.induct) (auto split: MessageRole.splits if_splits)

definition awaits :: "string list \<Rightarrow> run_state \<Rightarrow> bool" where
  "awaits ids s \<longleftrightarrow> pending [] (rs_messages s) = Some ids \<and> 0 \<le> preserveLast (rs_compaction s)"

lemma settled_awaits: "settled s \<longleftrightarrow> awaits [] s"
  by (simp add: settled_def awaits_def paired_pending)

lemma awaits_abandon: "awaits (map call_ID rest) s \<Longrightarrow> awaits [] (abandon rest s)"
proof -
  have "pending (map call_ID rest) (map (\<lambda>call. tool_message (call_ID call) abortedToolResultNotice) rest) = Some []"
    by (induction rest) (simp_all add: tool_message_def)
  then show "awaits (map call_ID rest) s \<Longrightarrow> awaits [] (abandon rest s)"
    by (simp add: awaits_def abandon_def appendAbortedToolResults_def pending_append)
qed

lemma awaits_record_result:
  "awaits (call_ID call # ids) s \<Longrightarrow> reply_id call o' = call_ID call \<Longrightarrow> awaits ids (record_result le call o' res s)"
  by (simp add: awaits_def record_result_def pending_append tool_message_def)

lemma view_record_result [simp]: "course (record_result le call o' res s) = course s"
  "gate_view (record_result le call o' res s) = gate_view s"
  "course (abandon rest s) = course s" "gate_view (abandon rest s) = gate_view s"
  by (simp_all add: record_result_def abandon_def view_defs)

lemma awaits_update [simp]:
  "awaits ids (s\<lparr>rs_guards := g\<rparr>) = awaits ids s" "awaits ids (s\<lparr>rs_posture := p\<rparr>) = awaits ids s"
  by (simp_all add: awaits_def)

text \<open>
  A promise about every call: what holds of the gate's account before holds after (\<open>account\<close>), and the
  results carry the identifiers of their calls (\<open>reply\<close>), where \<open>good\<close> are the calls of the run.
\<close>

locale call_promise =
  fixes le :: loop_env and I :: "Engine option \<times> cleanup list \<times> (ToolCall \<times> tool_start) list \<times> PermissionRequest list \<Rightarrow> bool"
    and R :: "ToolCall \<Rightarrow> call_outcome \<Rightarrow> bool"
  assumes account: "I (gate_view s) \<Longrightarrow> I (gate_view (snd (exec_call le call s)))"
    and outcome: "R call (fst (exec_call le call s))"
begin

text \<open>What a step over some calls keeps: everything but the account and the clock.\<close>

definition stays :: "run_state \<Rightarrow> run_state \<Rightarrow> bool" where
  "stays s s' \<longleftrightarrow> course s' = course s \<and> rs_messages s' = rs_messages s \<and> rs_compaction s' = rs_compaction s
     \<and> (I (gate_view s) \<longrightarrow> I (gate_view s'))"

lemma stays_refl [simp]: "stays s s" by (simp add: stays_def)

lemma stays_trans: "stays a b \<Longrightarrow> stays b c \<Longrightarrow> stays a c" by (simp add: stays_def)

lemma exec_call_stays: "stays s (snd (exec_call le call s))"
  using account [of s call] by (simp add: stays_def exec_call_def Let_def view_defs)

lemma exec_window_fold:
  assumes "fold (window_call le calls) is (ahead0, s0) = (ahead, s')" "\<forall>i o'. ahead0 i = Some o' \<longrightarrow> R (calls ! i) o'"
  shows "stays s0 s' \<and> (\<forall>i o'. ahead i = Some o' \<longrightarrow> R (calls ! i) o')"
  using assms
proof (induction "is" arbitrary: ahead0 s0)
  case (Cons j js)
  obtain o' s1 where e: "exec_call le (calls ! j) s0 = (o', s1)" by fastforce
  have s1: "stays s0 s1" using exec_call_stays [of s0 "calls ! j"] e by simp
  have "R (calls ! j) o'" using outcome [of "calls ! j" s0] e by simp
  then have r: "\<forall>i p. (ahead0(j \<mapsto> o')) i = Some p \<longrightarrow> R (calls ! i) p" using Cons.prems(2) by simp
  have f: "fold (window_call le calls) js (ahead0(j \<mapsto> o'), s1) = (ahead, s')"
  proof -
    have "window_call le calls j (ahead0, s0) = (ahead0(j \<mapsto> o'), s1)" by (simp add: window_call_def e)
    then show ?thesis using Cons.prems(1) by simp
  qed
  from Cons.IH [OF f r] stays_trans [OF s1] show ?case by blast
qed simp

definition batch_good :: "ToolCall list \<Rightarrow> turn_batch \<Rightarrow> bool" where
  "batch_good calls tb \<longleftrightarrow> (\<forall>i o'. tb_precomputed tb i = Some o' \<longrightarrow> R (calls ! i) o')"

lemma read_ahead_good:
  assumes "batch_good calls tb" "read_ahead le calls index tb s = (tb', s')"
  shows "stays s s' \<and> batch_good calls tb'"
proof (cases "index < tb_precomputedEnd tb \<or> extendParallelRun (env_registry le) calls index (env_options le) < index + 2")
  case True
  then have "tb' = tb" "s' = s" using assms(2) by (auto simp: read_ahead_def Let_def split: if_splits)
  with assms(1) show ?thesis by simp
next
  case False
  let ?e = "extendParallelRun (env_registry le) calls index (env_options le)"
  obtain ahead t where w: "exec_window le calls index ?e s = (ahead, t)" by fastforce
  have "stays s t \<and> (\<forall>i o'. ahead i = Some o' \<longrightarrow> R (calls ! i) o')"
    by (rule exec_window_fold [OF w [unfolded exec_window_def]]) simp
  then show ?thesis using assms(2) False w by (auto simp: read_ahead_def Let_def batch_good_def)
qed

lemma call_outcome_at_good:
  assumes "batch_good calls tb" "call_outcome_at le (calls ! index) index tb s = (o', s')"
  shows "stays s s' \<and> R (calls ! index) o'"
proof (cases "if index < tb_precomputedEnd tb then tb_precomputed tb index else None")
  case None
  then have "exec_call le (calls ! index) s = (o', s')" using assms(2) by (simp add: call_outcome_at_def)
  then show ?thesis using exec_call_stays [of s "calls ! index"] outcome [of "calls ! index" s] by simp
next
  case (Some p)
  then show ?thesis using assms by (auto simp: call_outcome_at_def batch_good_def split: if_splits)
qed

lemma collect_result_good [simp]: "batch_good calls (collect_result le call outcome res tb) = batch_good calls tb"
  "batch_good calls (tb\<lparr>tb_model := m\<rparr>) = batch_good calls tb"
  by (simp_all add: batch_good_def collect_result_def)

text \<open>What the calls of a turn keep; \<open>awaits\<close> says that the calls left are the ones without a result.\<close>

definition answers_ids :: bool where
  "answers_ids \<longleftrightarrow> (\<forall>call o'. R call o' \<longrightarrow> reply_id call o' = call_ID call)"

text \<open>
  A reply loses its identifier only when its call was aborted (\<open>lost_reply\<close>), and then the run ends
  with an error.
\<close>

lemma reply_id_kept: "answers_ids \<or> \<not> co_abort o' \<Longrightarrow> R call o' \<Longrightarrow> reply_id call o' = call_ID call"
  unfolding answers_ids_def by (elim disjE) (blast, simp add: reply_id_def)

definition lost_reply :: "run_end option \<Rightarrow> bool" where
  "lost_reply r \<longleftrightarrow> \<not> answers_ids \<and> (case r of Some e \<Rightarrow> snd e \<noteq> None | None \<Rightarrow> False)"

abbreviation ended :: "run_end + turn_batch \<Rightarrow> run_end option" where
  "ended r \<equiv> (case r of Inl e \<Rightarrow> Some e | Inr _ \<Rightarrow> None)"

definition calls_keep :: "ToolCall list \<Rightarrow> run_state \<Rightarrow> (run_end + turn_batch) \<times> run_state \<Rightarrow> bool" where
  "calls_keep rest s r \<longleftrightarrow> course (snd r) = course s \<and> (I (gate_view s) \<longrightarrow> I (gate_view (snd r)))
     \<and> (awaits (map call_ID rest) s \<longrightarrow> settled (snd r) \<or> lost_reply (ended (fst r)))
     \<and> (case fst r of Inl e \<Rightarrow> ends_in (Some e) (snd r) | Inr _ \<Rightarrow> True)"

lemma calls_keep_end:
  assumes "course s' = course s" "I (gate_view s) \<longrightarrow> I (gate_view s')"
    "awaits (map call_ID (call # rest)) s \<longrightarrow> awaits (map call_ID rest) s' \<or> lost_reply (Some e)"
    "ends_in (Some e) (abandon rest s')"
  shows "calls_keep (call # rest) s (Inl e, abandon rest s')"
  using assms awaits_abandon [of rest s'] by (auto simp: calls_keep_def settled_awaits)

lemma run_calls_keep:
  assumes "batch_good calls tb" "calls = done' @ rest" "index = length done'"
  shows "calls_keep rest s (run_calls le t calls index rest tb s)"
  using assms
proof (induction rest arbitrary: index tb s done')
  case Nil
  then show ?case by (simp add: calls_keep_def settled_awaits)
next
  case (Cons call rest)
  have at: "calls ! index = call" using Cons.prems by simp
  obtain tb1 s1 where r: "read_ahead le calls index tb s = (tb1, s1)" by fastforce
  have s1: "stays s s1" "batch_good calls tb1" using read_ahead_good [OF Cons.prems(1) r] by simp_all
  obtain o' s2 where c: "call_outcome_at le call index tb1 s1 = (o', s2)" by fastforce
  have s2: "stays s s2" "R call o'"
    using call_outcome_at_good [OF s1(2), of index s1 o' s2] c at stays_trans [OF s1(1)] by simp_all
  define res where "res = answer_text le s2 call o'"
  define s3 where "s3 = record_result le call o' res s2"
  define tb2 where "tb2 = tb1\<lparr>tb_model := (if tb_model tb1 = [] then meta_value (tr_meta res) ''escalate_to_model'' else tb_model tb1)\<rparr>"
  have tb2: "batch_good calls tb2" using s1(2) by (simp add: tb2_def)
  obtain outcome g where g: "observeToolResult (call_Name call) (isRetriableToolError res) (tr_output res) (rs_guards s3) = (outcome, g)"
    by fastforce
  define s4 where "s4 = s3\<lparr>rs_guards := g, rs_posture :=
    observeToolOutcome outcome (tr_denial res) (env_risk le (rs_clock s3) call) (rs_posture s3)\<rparr>"
  have s3: "course s3 = course s" "I (gate_view s) \<longrightarrow> I (gate_view s3)"
    using s2(1) by (simp_all add: s3_def stays_def)
  have w3: "awaits (map call_ID (call # rest)) s \<longrightarrow> awaits (map call_ID rest) s3" if "answers_ids \<or> \<not> co_abort o'"
    unfolding s3_def using s2(1) awaits_record_result [of call "map call_ID rest" s2 o' le res] reply_id_kept [OF that s2(2)]
    by (auto simp: stays_def awaits_def)
  have s4: "course s4 = course s" "I (gate_view s) \<longrightarrow> I (gate_view s4)"
    using s3 by (simp_all add: s4_def)
  have eq: "run_calls le t calls index (call # rest) tb s =
     (case abort_error le o' s3 of
        Some err \<Rightarrow> (Inl (fails_with (abandon rest s3) err), abandon rest s3)
      | None \<Rightarrow> if tr_meta res ''plan_exit'' = Some ''approved''
          then (Inl ((report (abandon rest s3) t)\<lparr>ar_PlanApproved := True\<rparr>, None), abandon rest s3)
          else if Stop outcome
          then (Inl (answers (abandon rest s4) (toolFailureStopAnswer (call_Name call) (Count outcome))), abandon rest s4)
          else run_calls le t calls (Suc index) rest (collect_result le call outcome res tb2) s4)"
    by (simp only: run_calls.simps Let_def r c prod.case res_def [symmetric] s3_def [symmetric] tb2_def [symmetric] g
        s4_def [symmetric])
  show ?case
  proof (cases "abort_error le o' s3")
    case None
    then have "\<not> co_abort o'" by (auto simp: abort_error_def split: if_splits)
    with w3 have w: "awaits (map call_ID (call # rest)) s \<longrightarrow> awaits (map call_ID rest) s3" by blast
    have "calls_keep (call # rest) s (run_calls le t calls (Suc index) rest (collect_result le call outcome res tb2) s4)"
      using Cons.IH [of "collect_result le call outcome res tb2" "done' @ [call]" "Suc index" s4] Cons.prems tb2 s4 w
      by (simp add: calls_keep_def s4_def)
    then show ?thesis unfolding eq using None s3 s4 w by (simp add: calls_keep_end s4_def)
  next
    case (Some err)
    have "awaits (map call_ID (call # rest)) s \<longrightarrow>
        awaits (map call_ID rest) s3 \<or> lost_reply (Some (fails_with (abandon rest s3) err))"
      using w3 by (auto simp: lost_reply_def fails_with_def)
    then show ?thesis unfolding eq using Some s3 by (simp add: calls_keep_end)
  qed
qed

text \<open>A phase of a turn in which calls may be made.\<close>

definition turn_keeps :: "run_state \<Rightarrow> run_end option \<times> run_state \<Rightarrow> bool" where
  "turn_keeps s r \<longleftrightarrow> course (snd r) = course s \<and> (I (gate_view s) \<longrightarrow> I (gate_view (snd r)))
     \<and> (settled s \<longrightarrow> settled (snd r) \<or> lost_reply (fst r)) \<and> ends_in (fst r) (snd r)"

lemma phase_turn: "phase_ok s r \<Longrightarrow> turn_keeps s r"
  by (simp add: phase_ok_def turn_keeps_def calm_def)

lemma calls_turn_keeps:
  shows "course (snd (calls_turn le c s)) = course s \<and> (I (gate_view s) \<longrightarrow> I (gate_view (snd (calls_turn le c s))))
     \<and> (awaits (map call_ID (ToolCalls c)) s \<longrightarrow>
          settled (snd (calls_turn le c s)) \<or> lost_reply (fst (calls_turn le c s)))
     \<and> ends_in (fst (calls_turn le c s)) (snd (calls_turn le c s))"
proof -
  let ?s = "s\<lparr>rs_guards := snd (observeTurn (env_decode le) (CollectedStream.truncate c) (rs_guards s)),
              rs_task := fold (\<lambda>call task. if call_Name call = planToolName
                  then snd (observe (env_decode le) (TaskPlan (call_Arguments call)) task) else task)
                (ToolCalls c) (rs_task s)\<rparr>"
  obtain r t where r: "run_calls le (Text c) (ToolCalls c) 0 (ToolCalls c) new_turn_batch ?s = (r, t)" by fastforce
  have eq: "calls_turn le c s = (case r of Inl e \<Rightarrow> (Some e, t) | Inr tb \<Rightarrow> after_calls le c tb t)"
    unfolding calls_turn_def Let_def r by simp
  have "batch_good (ToolCalls c) new_turn_batch" by (simp add: batch_good_def new_turn_batch_def)
  then have k: "calls_keep (ToolCalls c) ?s (r, t)"
    unfolding r [symmetric] by (rule run_calls_keep [where done' = "[]"]) simp_all
  have w: "awaits ids ?s = awaits ids s" for ids by (simp add: awaits_def)
  show ?thesis
  proof (cases r)
    case (Inl e)
    then show ?thesis using k unfolding eq calls_keep_def w by simp
  next
    case (Inr tb)
    have a: "phase_ok t (after_calls le c tb t)" by (rule after_calls_ok)
    show ?thesis using k a unfolding eq Inr calls_keep_def w by (auto simp: phase_ok_def calm_def lost_reply_def [of None])
  qed
qed

lemma history_ids: "map call_ID (historySafeToolCalls v rec calls) = map call_ID calls"
  by (auto simp: historySafeToolCalls_def Let_def split: option.split)

lemma awaits_assistant:
  "settled s \<Longrightarrow> awaits (map call_ID (ToolCalls c)) (s\<lparr>rs_messages := rs_messages s @ [assistant_message le c]\<rparr>)"
  by (simp add: settled_awaits awaits_def pending_append assistant_message_def history_ids)

lemma take_turn_keeps: "turn_keeps s (take_turn le c s)"
proof -
  define s1 where "s1 = s\<lparr>rs_compaction := calibrate (estimateTokens (rs_messages s) + env_toolTokens le (rs_turn s))
      (InputTokens (TokenUsage c)) (rs_compaction s), rs_finish := FinishReason c\<rparr>"
  have p: "preserveLast (calibrate raw actual st) = preserveLast st" for raw actual st
    by (simp add: calibrate_def Let_def)
  have s1: "course s1 = course s" "gate_view s1 = gate_view s" "settled s \<Longrightarrow> settled s1"
    by (simp_all add: s1_def settled_def p)
  have after: "turn_keeps s r" if "turn_keeps s1 r" for r using that s1 by (auto simp: turn_keeps_def)
  show ?thesis
  proof (cases "Degenerate c")
    case True
    have "phase_ok s1 (let (stop, g) = observeDegenerateTurn (rs_guards s1); s = s1\<lparr>rs_guards := g\<rparr>
            in if stop then (Some (answers s (guardStopAnswer g (rs_turn s))), s) else (None, say degenerateTurnNotice s))"
      by (simp add: Let_def phase_ok_def calm_say split: prod.split)
    then show ?thesis using after phase_turn True unfolding take_turn_def s1_def [symmetric] Let_def by simp
  next
    case False
    define c1 where "c1 = c\<lparr>ToolCalls := canonicalizeToolCalls (env_registry le) (ToolCalls c)\<rparr>"
    define s2 where "s2 = s1\<lparr>rs_messages := rs_messages s1 @ [assistant_message le c1]\<rparr>"
    have eq: "take_turn le c s = (if ToolCalls c1 = [] then text_turn le c1 s2 else calls_turn le c1 s2)"
      using False unfolding take_turn_def s1_def [symmetric] c1_def [symmetric] Let_def s2_def [symmetric] by simp
    have s2: "course s2 = course s" "gate_view s2 = gate_view s" "settled s \<Longrightarrow> awaits (map call_ID (ToolCalls c1)) s2"
      using s1 awaits_assistant [of s1 c1] by (simp_all add: s2_def)
    show ?thesis
    proof (cases "ToolCalls c1 = []")
      case True
      then show ?thesis using phase_turn [OF text_turn_ok [of s2 le c1]] s2 unfolding eq
        by (auto simp: turn_keeps_def settled_awaits)
    next
      case nonempty: False
      then show ?thesis using calls_turn_keeps [of c1 s2] s2 unfolding eq by (auto simp: turn_keeps_def)
    qed
  qed
qed

end

section \<open>Turns\<close>

text \<open>Any promise gives the course of a turn.\<close>

interpretation any_call: call_promise le "\<lambda>_. True" "\<lambda>_ _. True" for le
  by unfold_locales simp_all

lemma begin_turn_view: "rs_turn (begin_turn le s) = Suc (rs_turn s)" "turn_limit (begin_turn le s) = turn_limit s"
  "rs_posture (begin_turn le s) = rs_posture s" "gate_view (begin_turn le s) = gate_view s"
  "settled s \<Longrightarrow> settled (begin_turn le s)"
  by (simp_all add: begin_turn_def Let_def say_def say_all_def say_some_def view_defs)
    (simp add: settled_def paired_append user_message_def)

lemma on_system_ids: "list_all2 same_ids (on_system f ms) ms"
proof (induction ms)
  case (Cons m ms)
  have "list_all2 same_ids ms ms" by (simp add: list_all2_same same_ids_def)
  moreover have "same_ids m m" "same_ids (m\<lparr>msg_content := x\<rparr>) m" for x by (simp_all add: same_ids_def)
  ultimately show ?case using Cons by simp
qed simp

lemma memory_paired: "paired a (EnsurePromptHasMemory memory ms) = paired a ms"
  unfolding EnsurePromptHasMemory_def using paired_ids [OF on_system_ids] by simp

lemma compact_turn_view:
  assumes "compact_turn le s = Some s'"
  shows "course s' = course s \<and> gate_view s' = gate_view s"
  using assms by (auto simp: compact_turn_def Let_def applyPostCompactionSafetyNet_def split: option.splits prod.splits)

lemma compact_turn_settled:
  assumes "settled s" "judge_keeps_ids (env_compaction le)"
  shows "\<exists>s'. compact_turn le s = Some s' \<and> settled s'"
proof -
  have "maybeCompact (env_compaction le) (env_decode le) (env_toolTokens le (rs_turn s)) (rs_messages s) (rs_compaction s) (rs_task s) \<noteq> None"
    using assms(1) by (intro maybeCompact_total) (simp add: settled_def)
  then obtain ms did st task where m: "maybeCompact (env_compaction le) (env_decode le) (env_toolTokens le (rs_turn s))
      (rs_messages s) (rs_compaction s) (rs_task s) = Some (ms, did, st, task)" by (metis not_None_eq prod_cases4)
  let ?s = "s\<lparr>rs_messages := ms, rs_compaction := st, rs_task := task\<rparr>"
  have s: "settled ?s" using maybeCompact_paired [OF m assms(2)] maybeCompact_keeps [OF m] assms(1) by (simp add: settled_def)
  then have n: "settled (applyPostCompactionSafetyNet le ?s)" by simp
  show ?thesis using s n unfolding compact_turn_def m by (auto simp: Let_def settled_def memory_paired)
qed

lemma turn_step_course:
  assumes "turn_step le s = Some (r, s')"
  shows "rs_turn s' = Suc (rs_turn s) \<and> turn_limit s' = turn_limit s \<and> ends_in r s'"
proof -
  obtain s1 where c: "compact_turn le (begin_turn le s) = Some s1"
    using assms by (auto simp: turn_step_def split: option.splits)
  have s1: "rs_turn s1 = Suc (rs_turn s)" "turn_limit s1 = turn_limit s"
    using compact_turn_view [OF c] begin_turn_view(1-3) [of le s] by (simp_all add: course_def)
  obtain q s2 where t: "turn_stream le s1 = Some (q, s2)" using assms c by (auto simp: turn_step_def split: option.splits)
  have "course s2 = course s1" using turn_stream_frame [of s1 s1 le] same_run_view t by simp
  then have s2: "rs_turn s2 = Suc (rs_turn s)" "turn_limit s2 = turn_limit s" using s1 by (simp_all add: course_def)
  show ?thesis
  proof (cases q)
    case (Inl err)
    then show ?thesis using assms c t s2 by (auto simp: turn_step_def)
  next
    case (Inr col)
    then show ?thesis using assms c t s2 any_call.take_turn_keeps [where s = s2 and le = le and c = col]
      by (auto simp: turn_step_def any_call.turn_keeps_def course_def)
  qed
qed

section \<open>The loop and the run\<close>

function turn_loop :: "loop_env \<Rightarrow> run_state \<Rightarrow> (run_end \<times> run_state) option" where
  "turn_loop le s =
     (if int (rs_turn s) < rs_maxTurns s then
        (case turn_step le s of
           None \<Rightarrow> None
         | Some (Some e, s') \<Rightarrow> Some (e, s')
         | Some (None, s') \<Rightarrow> turn_loop le s')
      else Some (out_of_turns le s))"
  by pat_completeness auto
termination
proof (relation "measure (\<lambda>(le, s). nat (turn_limit s - int (rs_turn s)))")
  fix le s x a s'
  assume a: "int (rs_turn s) < rs_maxTurns s" "turn_step le s = Some x" "(a, s') = x" "a = None"
  then have "rs_turn s' = Suc (rs_turn s)" "turn_limit s' = turn_limit s" using turn_step_course [of le s] by auto
  moreover have "int (rs_turn s) < turn_limit s" using a(1) by (simp add: turn_limit_def)
  ultimately show "((le, s'), le, s) \<in> measure (\<lambda>(le, s). nat (turn_limit s - int (rs_turn s)))" by simp
qed simp

declare turn_loop.simps [simp del]

text \<open>What the caller gives the run.\<close>

record run_settings =
  st_systemPrompt :: string
  st_images :: "string list"
  st_initial :: "Message list"
  st_maxTurns :: int
  st_compaction :: compactionState
  st_escalation :: "PostureEscalation option"
  st_requireCompletion :: bool
  st_effort :: string
  st_model :: string
  st_engine :: "Engine option"

definition start_run :: "loop_env \<Rightarrow> run_settings \<Rightarrow> run_state" where
  "start_run le st =
     \<lparr>rs_messages = seedRunMessages (st_systemPrompt st) (env_prompt le) (st_images st) (st_initial st),
      rs_compaction = st_compaction st, rs_task = newTaskState (env_prompt le), rs_clock = 0, rs_turn = 0,
      rs_maxTurns = (if st_maxTurns st \<le> 0 then 12 else st_maxTurns st), rs_guards = newGuardState,
      rs_policy = newCompletionPolicy (env_selfCorrect le \<noteq> None), rs_posture = newProfileController (st_escalation st),
      rs_requireCompletion = st_requireCompletion st, rs_effort = st_effort st, rs_model = st_model st, rs_finish = [],
      rs_loaded = {}, rs_engine = st_engine st, rs_cleanups = [], rs_started = [], rs_asked = []\<rparr>"

text \<open>The run with its deferred steps: the cleanups of the permissions and the last look at the plan.\<close>

definition Run :: "loop_env \<Rightarrow> run_settings \<Rightarrow> (run_end \<times> run_state) option" where
  "Run le st =
     (case turn_loop le (start_run le st) of
        None \<Rightarrow> None
      | Some (e, s) \<Rightarrow>
          Some (e, s\<lparr>rs_engine := map_option (run_cleanups (rs_cleanups s)) (rs_engine s),
                     rs_task := snd (observePlanParity (env_decode le) (ar_Messages (fst e)) (rs_task s))\<rparr>))"

section \<open>What a run keeps\<close>

lemma out_of_turns_keeps:
  assumes "settled s" "out_of_turns le s = (e, s')"
  shows "gate_view s' = gate_view s \<and> paired [] (ar_Messages (fst e)) \<and> ar_Turns (fst e) = rs_turn s"
proof (cases "ctx_done (env_provider le) (rs_clock s)")
  case True
  then show ?thesis using assms by (auto simp: out_of_turns_def fails_with_def report_def settled_def)
next
  case False
  let ?n = "rs_clock s"
  define u where "u = say_all (env_coaching le ?n) (say_some (env_catalog le ?n) (say_all (env_guidelines le ?n)
                   (say_some (env_finalDiagnostics le ?n) s)))"
  have u: "settled u" "gate_view u = gate_view s" "rs_turn u = rs_turn s"
    using assms(1) by (simp_all add: u_def) (simp add: say_all_def say_some_def say_def)
  obtain t v where t: "finalAnswerAfterMaxTurns le u = (t, v)" by fastforce
  obtain a ms fin where f: "t = (a, ms, fin)" by (cases t)
  have "(\<exists>n. v = u\<lparr>rs_clock := n\<rparr>) \<and> paired [] ms"
    using t u(1) unfolding f by (auto simp: finalAnswerAfterMaxTurns_def Let_def settled_def paired_append user_message_def
        split: prod.splits sum.splits if_splits)
  then have v: "gate_view v = gate_view s" "rs_turn v = rs_turn s" "rs_messages v = rs_messages u" "paired [] ms"
    using u by auto
  show ?thesis using assms(2) False f u v unfolding out_of_turns_def u_def [symmetric] Let_def t
    by (auto simp: report_def settled_def split: if_splits)
qed

context call_promise
begin

lemma turn_step_keeps:
  assumes "settled s" "judge_keeps_ids (env_compaction le)"
  shows "\<exists>r s'. turn_step le s = Some (r, s') \<and> (I (gate_view s) \<longrightarrow> I (gate_view s')) \<and> (settled s' \<or> lost_reply r)"
proof -
  obtain s1 where c: "compact_turn le (begin_turn le s) = Some s1" "settled s1"
    using compact_turn_settled [OF begin_turn_view(5) [OF assms(1)] assms(2)] by blast
  have g1: "gate_view s1 = gate_view s" using compact_turn_view [OF c(1)] begin_turn_view(4) by simp
  have k: "io_holds (kept s1) (turn_stream le s1)" using c(2) by (intro turn_stream_keeps) (simp add: kept_def)
  then obtain q s2 where t: "turn_stream le s1 = Some (q, s2)" "kept s1 s2" by (auto simp: io_holds_def split: option.splits)
  then have s2: "gate_view s2 = gate_view s" "settled s2" using same_run_view g1 by (auto simp: kept_def)
  show ?thesis
  proof (cases q)
    case (Inl err)
    then show ?thesis using c t s2 by (auto simp: turn_step_def)
  next
    case (Inr col)
    obtain r s3 where "take_turn le col s2 = (r, s3)" by fastforce
    with Inr c t s2 take_turn_keeps [of s2 col] show ?thesis by (simp add: turn_step_def turn_keeps_def)
  qed
qed

text \<open>Every run ends within its turns; only a lost reply can leave its transcript unpaired.\<close>

lemma turn_loop_keeps:
  assumes "settled s" "judge_keeps_ids (env_compaction le)"
  shows "\<exists>e s'. turn_loop le s = Some (e, s') \<and> (I (gate_view s) \<longrightarrow> I (gate_view s'))
    \<and> (paired [] (ar_Messages (fst e)) \<or> lost_reply (Some e))
    \<and> int (ar_Turns (fst e)) \<le> max (int (rs_turn s)) (turn_limit s)"
  using assms(1)
proof (induction "nat (turn_limit s - int (rs_turn s))" arbitrary: s rule: less_induct)
  case less
  show ?case
  proof (cases "int (rs_turn s) < rs_maxTurns s")
    case False
    obtain e s' where o': "out_of_turns le s = (e, s')" by fastforce
    from out_of_turns_keeps [OF less.prems o'] False o' show ?thesis by (simp add: turn_loop.simps [of le s])
  next
    case True
    obtain r s' where t: "turn_step le s = Some (r, s')" "I (gate_view s) \<longrightarrow> I (gate_view s')" "settled s' \<or> lost_reply r"
      using turn_step_keeps [OF less.prems assms(2)] by blast
    have c: "rs_turn s' = Suc (rs_turn s)" "turn_limit s' = turn_limit s" "ends_in r s'" using turn_step_course [OF t(1)] by simp_all
    have lt: "int (rs_turn s) < turn_limit s" using True by (simp add: turn_limit_def)
    show ?thesis
    proof (cases r)
      case (Some e)
      then show ?thesis using t c lt True by (auto simp: turn_loop.simps [of le s] ends_in_def settled_def)
    next
      case None
      have "settled s'" using t(3) None by (simp add: lost_reply_def)
      moreover have "nat (turn_limit s' - int (rs_turn s')) < nat (turn_limit s - int (rs_turn s))" using c lt by simp
      ultimately obtain e u where "turn_loop le s' = Some (e, u)" "I (gate_view s') \<longrightarrow> I (gate_view u)"
        "paired [] (ar_Messages (fst e)) \<or> lost_reply (Some e)" "int (ar_Turns (fst e)) \<le> max (int (rs_turn s')) (turn_limit s')"
        using less.hyps [of s'] by blast
      then show ?thesis using t c lt True None by (simp add: turn_loop.simps [of le s])
    qed
  qed
qed

end

text \<open>The transcript a run starts with.\<close>

lemma seed_filter_paired:
  "paired a ms \<Longrightarrow> [] \<notin> set a \<Longrightarrow> \<forall>m \<in> set ms. [] \<notin> set (map call_ID (msg_calls m)) \<Longrightarrow>
     paired a (filter (\<lambda>m. \<not> (msg_role m = RoleSystem \<or> emptySeedMessage m)) ms)"
proof (induction ms arbitrary: a)
  case (Cons m ms)
  show ?case
  proof (cases "msg_role m")
    case RoleTool
    then have "msg_callID m \<in> set a" "paired (tl a) ms" using Cons.prems(1) by auto
    moreover have "[] \<notin> set (tl a)" using Cons.prems(2) by (cases a) auto
    moreover have "msg_callID m \<noteq> []" using Cons.prems(2) calculation(1) by auto
    ultimately show ?thesis using Cons.IH [of "tl a"] Cons.prems RoleTool by (simp add: emptySeedMessage_def)
  next
    case RoleAssistant
    then have "paired (map call_ID (msg_calls m)) ms" "a = []" using Cons.prems(1) by auto
    then have "paired (map call_ID (msg_calls m)) (filter (\<lambda>m. \<not> (msg_role m = RoleSystem \<or> emptySeedMessage m)) ms)"
      using Cons.prems(3) by (intro Cons.IH) auto
    then show ?thesis using RoleAssistant \<open>a = []\<close> by (auto simp: emptySeedMessage_def)
  qed (use Cons in auto)
qed simp

lemma seed_paired:
  assumes "paired [] (st_initial st)" "\<forall>m \<in> set (st_initial st). [] \<notin> set (map call_ID (msg_calls m))"
    "0 \<le> preserveLast (st_compaction st)"
  shows "settled (start_run le st)"
proof -
  have "paired [] (system_message t # filter (\<lambda>m. \<not> (msg_role m = RoleSystem \<or> emptySeedMessage m)) (st_initial st)
      @ [(user_message p)\<lparr>msg_images := i\<rparr>])" for t p i
    using seed_filter_paired [OF assms(1) _ assms(2)] by (simp add: system_message_def user_message_def paired_append)
  then show ?thesis using assms(3)
    by (simp add: settled_def start_run_def seedRunMessages_def SeedMessagesWithImages_def system_message_def user_message_def)
qed

lemma start_limit:
  "max (int (rs_turn (start_run le st))) (turn_limit (start_run le st)) =
     max (if st_maxTurns st \<le> 0 then 12 else st_maxTurns st)
         (case st_escalation st of None \<Rightarrow> 0 | Some p \<Rightarrow> esc_MaxTurns p)"
  by (simp add: start_run_def turn_limit_def escalation_target_def newProfileController_def)

end
