(* ===== verification/Gate_Facts.thy ===== *)
theory Gate_Facts
  imports Tool_Gate
begin

text \<open>
  What is shared by the properties of the tool gate: when the registry starts a tool, which
  requests and runs a call can make, and what an approval for the turn leaves of the engine.
\<close>

section \<open>Starting a tool\<close>

definition start_decision :: "world \<Rightarrow> string \<Rightarrow> Tool \<Rightarrow> PermissionMode \<Rightarrow> tool_start \<Rightarrow> Decision option" where
  "start_decision w name tool mode s =
     map_option (\<lambda>e. Evaluate w None (Some e)
       (registry_request name tool (started_args s) (effectivePermission tool (started_args s)) (started_granted s) mode))
       (started_engine s)"

text \<open>
  A run the sandbox and the tool allow: the engine did not deny it, a prompt of the engine had an
  approval, and the permission of the tool was given, by itself, by the approval or by the sandbox.
\<close>

definition permitted_start :: "world \<Rightarrow> string \<Rightarrow> Tool \<Rightarrow> PermissionMode \<Rightarrow> tool_start \<Rightarrow> bool" where
  "permitted_start w name tool mode s \<longleftrightarrow>
     (if mode = PermissionModeBypassAll then started_engine s = None
      else (let d = start_decision w name tool mode s; p = effectivePermission tool (started_args s)
            in p \<noteq> PermissionDeny
               \<and> (case d of None \<Rightarrow> True
                  | Some d \<Rightarrow> dec_action d = ActionAllow \<or> dec_action d = ActionPrompt \<and> started_granted s)
               \<and> (p = PermissionAllow \<or> started_granted s
                  \<or> (case d of None \<Rightarrow> False
                     | Some d \<Rightarrow> dec_action d = ActionAllow \<and> (GrantMatched d \<or> AutoAllowed d)))))"

lemma registry_refusal_None:
  "registry_refusal w name tool p granted d = None \<longleftrightarrow>
     p \<noteq> PermissionDeny
     \<and> (case d of None \<Rightarrow> True | Some d \<Rightarrow> dec_action d = ActionAllow \<or> dec_action d = ActionPrompt \<and> granted)
     \<and> (p = PermissionAllow \<or> granted
        \<or> (case d of None \<Rightarrow> False | Some d \<Rightarrow> dec_action d = ActionAllow \<and> (GrantMatched d \<or> AutoAllowed d)))"
proof (cases d)
  case None
  then show ?thesis by (cases p) (auto simp: registry_refusal_def Let_def)
next
  case (Some x)
  then show ?thesis by (cases p; cases "dec_action x") (auto simp: registry_refusal_def Let_def)
qed

lemma RunWithOptions_started:
  assumes "s \<in> set (snd (RunWithOptions w registry name as options))"
  obtains tool where "registry name = Some tool" "started_args s = as"
    "started_granted s \<longleftrightarrow> ro_mode options = PermissionModeBypassAll \<or> ro_granted options"
    "started_engine s = (if ro_mode options = PermissionModeBypassAll then None else ro_sandbox options)"
    "permitted_start w name tool (ro_mode options) s"
proof -
  obtain tool where tool: "registry name = Some tool"
    using assms by (auto simp: RunWithOptions_def split: option.splits)
  show thesis
  proof (cases "ro_mode options = PermissionModeBypassAll")
    case True
    then have "s = \<lparr>started_args = as, started_engine = None, started_granted = True\<rparr>"
      using assms tool by (auto simp: RunWithOptions_def Let_def split: option.splits)
    with True tool that show thesis by (simp add: permitted_start_def)
  next
    case False
    define d where "d = map_option (\<lambda>e. Evaluate w None (Some e)
      (registry_request name tool as (effectivePermission tool as) (ro_granted options) (ro_mode options))) (ro_sandbox options)"
    have s: "s = \<lparr>started_args = as, started_engine = ro_sandbox options, started_granted = ro_granted options\<rparr>"
      and r: "registry_refusal w name tool (effectivePermission tool as) (ro_granted options) d = None"
      using assms tool False by (auto simp: RunWithOptions_def Let_def d_def split: option.splits)
    have "permitted_start w name tool (ro_mode options) s"
      using r False unfolding registry_refusal_None permitted_start_def start_decision_def Let_def s d_def
      by (cases "ro_sandbox options") simp_all
    with s False tool that show thesis by simp
  qed
qed

section \<open>Where an approval comes from\<close>

definition approving :: "PermissionDecisionAction set" where
  "approving = {DecisionAllow, DecisionAllowStrict, DecisionAllowForSession, DecisionAllowPrefix,
     DecisionAlwaysAllowPrefix, DecisionAlwaysAllow}"

definition user_approved :: "Options \<Rightarrow> PermissionRequest list \<Rightarrow> bool" where
  "user_approved opts asked \<longleftrightarrow> (\<exists>request \<in> set asked. pd_action (ask_decision opts request) \<in> approving)"

lemma decide_call_approved:
  "decide_call w opts name as event decision engine = (Approved prefix, cs, engine') \<Longrightarrow>
     pd_action decision \<in> approving"
  by (cases "pd_action decision") (auto simp: decide_call_def approving_def Let_def)

lemma network_retry_started:
  assumes "maybeRetryWithNetworkAfterSandboxDenial w registry opts name tool as res mode engine
      = (Retried again, asked, engine')"
  shows "mode = PermissionUnsafe \<or> user_approved opts asked"
    and "\<exists>engine. again = retry_run w registry name as mode engine"
  using assms
  by (auto simp: maybeRetryWithNetworkAfterSandboxDenial_def Let_def user_approved_def approving_def
      split: if_splits PermissionDecisionAction.splits prod.splits sum.splits)

lemma retry_started:
  assumes "maybeRetryUnsandboxed w registry opts name tool as res mode engine = (Retried again, asked, engine')"
  shows "mode = PermissionUnsafe \<or> user_approved opts asked"
    and "\<exists>engine. again = retry_run w registry name as mode engine
      \<or> again = retry_run w registry name (unsandboxedRetryArgs as) mode engine"
proof -
  obtain r asked1 engine1 where n:
    "maybeRetryWithNetworkAfterSandboxDenial w registry opts name tool as res mode engine = (r, asked1, engine1)"
    by (metis prod_cases3)
  have "(mode = PermissionUnsafe \<or> user_approved opts asked)
    \<and> (\<exists>engine. again = retry_run w registry name as mode engine
      \<or> again = retry_run w registry name (unsandboxedRetryArgs as) mode engine)"
  proof (cases r)
    case No_Retry
    with assms n show ?thesis
      by (auto simp: maybeRetryUnsandboxed_def Let_def user_approved_def approving_def
          split: if_splits PermissionDecisionAction.splits)
  next
    case (Retried x)
    with assms n have "again = x" "asked = asked1" by (auto simp: maybeRetryUnsandboxed_def)
    with network_retry_started [OF n [unfolded Retried]] show ?thesis by auto
  next
    case (Direct x1 x2)
    with assms n show ?thesis by (simp add: maybeRetryUnsandboxed_def)
  qed
  then show "mode = PermissionUnsafe \<or> user_approved opts asked"
    and "\<exists>engine. again = retry_run w registry name as mode engine
      \<or> again = retry_run w registry name (unsandboxedRetryArgs as) mode engine" by auto
qed

text \<open>The arguments a run of the call may have been given.\<close>

definition call_args :: "args \<Rightarrow> args \<Rightarrow> bool" where
  "call_args as as' \<longleftrightarrow> as' = as \<or> as' = unsandboxedRetryArgs as"

lemma shellExecutionArgs_call_args: "call_args as (shellExecutionArgsForApproval os name as action engine)"
  by (simp add: shellExecutionArgsForApproval_def call_args_def unsandboxedRetryArgs_def)

lemma call_args_again: "call_args as as' \<Longrightarrow> call_args as (unsandboxedRetryArgs as')"
  by (auto simp: call_args_def unsandboxedRetryArgs_def)

lemma run_call_started:
  assumes s: "s \<in> set (co_started (run_call w registry opts name tool as mode granted action cs engine))"
    and tool: "registry name = Some tool"
  shows "permitted_start w name tool mode s" "call_args as (started_args s)"
    "started_granted s \<Longrightarrow> granted \<or> mode \<in> {PermissionUnsafe, PermissionModeBypassAll}
       \<or> user_approved opts (co_asked (run_call w registry opts name tool as mode granted action cs engine))"
proof -
  define as' where "as' = shellExecutionArgsForApproval (w_os w) name as action engine"
  define r where "r = RunWithOptions w registry name as' \<lparr>ro_granted = granted, ro_mode = mode, ro_sandbox = engine\<rparr>"
  obtain y asked engine' where y: "maybeRetryUnsandboxed w registry opts name tool as' (fst r) mode engine = (y, asked, engine')"
    by (metis prod_cases3)
  let ?c = "run_call w registry opts name tool as mode granted action cs engine"
  have hook: "BeforeTool opts name as = None"
    using s by (auto simp: run_call_def call_done_def split: option.splits)
  have c: "co_started ?c = snd r @ (case y of Retried again \<Rightarrow> snd again | _ \<Rightarrow> [])" "co_asked ?c = asked"
    using y unfolding run_call_def Let_def as'_def [symmetric] r_def [symmetric] hook
    by (cases r; cases y; simp add: call_done_def split: prod.split)+
  have as': "call_args as as'" unfolding as'_def by (rule shellExecutionArgs_call_args)
  have "permitted_start w name tool mode s \<and> call_args as (started_args s) \<and> (started_granted s \<longrightarrow>
      granted \<or> mode \<in> {PermissionUnsafe, PermissionModeBypassAll} \<or> user_approved opts asked)"
  proof (cases "s \<in> set (snd r)")
    case True
    from RunWithOptions_started [OF this [unfolded r_def]] tool as' show ?thesis by auto
  next
    case False
    then obtain again where a: "y = Retried again" "s \<in> set (snd again)"
      using s c by (auto split: retry.splits)
    then obtain as'' engine'' where rr: "again = retry_run w registry name as'' mode engine''" "call_args as as''"
      using retry_started(2) [OF y [unfolded a]] as' call_args_again by blast
    have "mode = PermissionUnsafe \<or> user_approved opts asked" by (rule retry_started(1) [OF y [unfolded a]])
    moreover have "permitted_start w name tool mode s \<and> started_args s = as''"
      using RunWithOptions_started [OF a(2) [unfolded rr(1) retry_run_def]] tool by auto
    ultimately show ?thesis using rr(2) by auto
  qed
  then show "permitted_start w name tool mode s" "call_args as (started_args s)"
    "started_granted s \<Longrightarrow> granted \<or> mode \<in> {PermissionUnsafe, PermissionModeBypassAll}
       \<or> user_approved opts (co_asked ?c)" by (auto simp: c)
qed

lemma answer_call_started:
  assumes s: "s \<in> set (co_started (answer_call w registry opts name tool as mode event decision engine))"
    and tool: "registry name = Some tool"
  shows "permitted_start w name tool mode s \<and> call_args as (started_args s) \<and> pd_action decision \<in> approving"
proof -
  obtain v cs engine' where d: "decide_call w opts name as event decision engine = (v, cs, engine')"
    by (metis prod_cases3)
  show ?thesis
  proof (cases v)
    case (Approved prefix)
    then have "s \<in> set (co_started (run_call w registry opts name tool as mode True (pd_action decision) cs engine'))"
      using s d by (simp add: answer_call_def)
    from run_call_started(1,2) [OF this tool] decide_call_approved [OF d [unfolded Approved]] show ?thesis by simp
  qed (use s d in \<open>simp_all add: answer_call_def call_done_def\<close>)
qed

lemma shouldRequest_forced: "shouldRequestPermission tool as granted decision True"
  by (simp add: shouldRequestPermission_def)

text \<open>A call is either run, refused for want of somebody to ask, or asked about.\<close>

lemma prompt_call_cases:
  fixes w registry opts name tool as mode granted action forced engine
  defines "c \<equiv> prompt_call w registry opts name tool as mode granted action forced engine"
  obtains (unasked) "forced = None" "c = run_call w registry opts name tool as mode granted action [] engine"
    | (asked) event where "OnPermissionRequest opts \<noteq> None"
        "c = (let request = permissionRequestFromEvent event as engine;
                  outcome = answer_call w registry opts name tool as mode event (ask_decision opts request) engine
              in outcome\<lparr>co_asked := request # co_asked outcome\<rparr>)"
    | (nobody) result where "OnPermissionRequest opts = None" "c = call_done result engine"
proof -
  define preflight where "preflight = (case engine of None \<Rightarrow> None
    | Some e \<Rightarrow> Some (Evaluate w None (Some e) (sandboxRequest name tool as granted mode)))"
  define event where "event = (case forced of
      Some reason \<Rightarrow> policyPermissionEvent w opts name tool as mode preflight ActionPrompt reason
    | None \<Rightarrow> (case buildPermissionEvent w opts name tool as granted mode preflight of
          Some event \<Rightarrow> event
        | None \<Rightarrow> fallbackPermissionEvent w opts name tool as mode))"
  let ?asks = "OnPermissionRequest opts \<noteq> None"
  show thesis
  proof (cases "forced \<noteq> None \<and> \<not> ?asks")
    case True
    then have "\<exists>result. c = call_done result engine" unfolding c_def prompt_call_def Let_def by auto
    with True nobody show thesis by auto
  next
    case running: False
    show thesis
    proof (cases "?asks \<and> shouldRequestPermission tool as granted preflight (forced \<noteq> None)")
      case True
      have "c = (let request = permissionRequestFromEvent event as engine;
                  outcome = answer_call w registry opts name tool as mode event (ask_decision opts request) engine
              in outcome\<lparr>co_asked := request # co_asked outcome\<rparr>)"
        unfolding c_def prompt_call_def Let_def preflight_def [symmetric] event_def
        using running True by (simp only: if_False if_True not_not simp_thms)
      with True asked show thesis by blast
    next
      case False
      have forced: "forced = None" using running False by (cases forced) (auto simp: shouldRequest_forced)
      have "c = run_call w registry opts name tool as mode granted action [] engine"
        unfolding c_def prompt_call_def Let_def preflight_def [symmetric]
        using forced False by (simp only: if_False simp_thms)
      with forced show thesis by (rule unasked)
    qed
  qed
qed

lemma prompt_call_started:
  assumes s: "s \<in> set (co_started (prompt_call w registry opts name tool as mode granted action forced engine))"
    and tool: "registry name = Some tool"
  shows "permitted_start w name tool mode s \<and> call_args as (started_args s) \<and> (started_granted s \<longrightarrow>
    granted \<or> mode \<in> {PermissionUnsafe, PermissionModeBypassAll}
    \<or> user_approved opts (co_asked (prompt_call w registry opts name tool as mode granted action forced engine)))"
proof (cases rule: prompt_call_cases [of forced w registry opts name tool as mode granted action engine])
  case unasked
  from run_call_started [OF s [unfolded unasked(2)] tool] show ?thesis unfolding unasked(2) by blast
next
  case (asked event)
  let ?request = "permissionRequestFromEvent event as engine"
  have "s \<in> set (co_started (answer_call w registry opts name tool as mode event (ask_decision opts ?request) engine))"
    using s asked(2) by (simp add: Let_def)
  from answer_call_started [OF this tool] show ?thesis
    unfolding asked(2) by (auto simp: Let_def user_approved_def)
next
  case (nobody result)
  with s show ?thesis by (simp add: call_done_def)
qed

text \<open>What stands behind an approval: the mode, its profile, an approved prefix, a rule, the user.\<close>

definition approval_source ::
    "world \<Rightarrow> Options \<Rightarrow> string \<Rightarrow> Tool \<Rightarrow> args \<Rightarrow> PermissionMode \<Rightarrow> Engine option \<Rightarrow> PermissionRequest list \<Rightarrow> bool" where
  "approval_source w opts name tool as mode engine asked \<longleftrightarrow>
     mode \<in> {PermissionUnsafe, PermissionModeBypassAll}
     \<or> profilePermission mode tool as = PermissionAllow
     \<or> matchCommandPrefix w (onWindows opts) (parse_stmts opts) name as engine \<noteq> None
     \<or> (\<exists>reason. evaluatePermissionRules w (PermissionRules opts) name tool as mode = Some (ActionAllow, reason))
     \<or> user_approved opts asked"

lemma starting_grant_source:
  "fst (starting_grant w opts name tool as mode engine) \<Longrightarrow> approval_source w opts name tool as mode engine asked"
  by (auto simp: starting_grant_def approval_source_def split: if_splits option.splits)

lemma gate_call_started:
  assumes s: "s \<in> set (co_started (gate_call w registry opts name tool as mode engine))"
    and tool: "registry name = Some tool"
  shows "(\<nexists>reason. evaluatePermissionRules w (PermissionRules opts) name tool as mode = Some (ActionDeny, reason))
    \<and> permitted_start w name tool mode s \<and> call_args as (started_args s)
    \<and> (started_granted s \<longrightarrow> approval_source w opts name tool as mode engine
         (co_asked (gate_call w registry opts name tool as mode engine)))"
proof -
  define c where "c = gate_call w registry opts name tool as mode engine"
  obtain granted action where g: "starting_grant w opts name tool as mode engine = (granted, action)" by fastforce
  let ?rules = "evaluatePermissionRules w (PermissionRules opts) name tool as mode"
  consider (undecided) "?rules = None" "c = prompt_call w registry opts name tool as mode granted action None engine"
    | (allowed) reason where "?rules = Some (ActionAllow, reason)"
        "c = prompt_call w registry opts name tool as mode True DecisionAllow None engine"
    | (prompted) reason where "?rules = Some (ActionPrompt, reason)"
        "c = prompt_call w registry opts name tool as mode False action (Some reason) engine"
    | (denied) "co_started c = []"
    unfolding c_def gate_call_def g
    by (cases ?rules; simp; cases "fst (the ?rules)"; force simp: call_done_def)
  then show ?thesis
  proof cases
    case undecided
    with prompt_call_started [OF s [folded c_def, unfolded undecided(2)] tool]
      g starting_grant_source [of w opts name tool as mode engine "co_asked c"]
    show ?thesis by (auto simp: approval_source_def c_def)
  next
    case (allowed reason)
    with prompt_call_started [OF s [folded c_def, unfolded allowed(2)] tool]
    show ?thesis by (auto simp: approval_source_def)
  next
    case (prompted reason)
    with prompt_call_started [OF s [folded c_def, unfolded prompted(2)] tool]
    show ?thesis by (auto simp: approval_source_def c_def)
  next
    case denied
    with s show ?thesis by (simp add: c_def)
  qed
qed


section \<open>Calls that start a tool\<close>

lemma RunWithOptions_unknown: "registry name = None \<Longrightarrow> snd (RunWithOptions w registry name as options) = []"
  by (simp add: RunWithOptions_def)

lemma executeToolCall_started:
  assumes "s \<in> set (co_started (executeToolCall w registry opts call mode engine))" "call_Name call \<noteq> ''ask_user''"
  obtains tool as where "registry (call_Name call) = Some tool" "decodeCallArgs opts call = Inr as"
    "early_refusal (w_os w) opts (call_Name call) (Some tool) as = None"
    "executeToolCall w registry opts call mode engine = gate_call w registry opts (call_Name call) tool as mode engine"
proof -
  have plan: "co_started (executeExitPlanMode opts engine) = []"
    by (simp add: executeExitPlanMode_def call_done_def split: option.split ask_reply.split)
  have req: "co_started (executeRequestPermissions w opts as mode engine) = []" for as
    by (auto simp: executeRequestPermissions_def request_error_def call_done_def Let_def
        split: sum.split PermissionDecisionAction.split prod.split)
  obtain as where as: "decodeCallArgs opts call = Inr as"
    using assms(1) by (auto simp: executeToolCall_def Let_def call_done_def split: sum.splits)
  have early: "early_refusal (w_os w) opts (call_Name call) (registry (call_Name call)) as = None"
    using assms(1) as by (auto simp: executeToolCall_def Let_def call_done_def split: option.splits)
  have other: "call_Name call \<noteq> ''request_permissions''" "call_Name call \<noteq> ''exit_plan_mode''"
    using assms as early plan req by (auto simp: executeToolCall_def Let_def)
  have "registry (call_Name call) \<noteq> None"
  proof
    assume none: "registry (call_Name call) = None"
    then have "co_started (executeToolCall w registry opts call mode engine) = []"
      using assms(2) as early other RunWithOptions_unknown [of registry "call_Name call" w as, OF none]
      by (simp add: executeToolCall_def Let_def split: prod.split) (metis snd_conv)
    with assms(1) show False by simp
  qed
  then obtain tool where "registry (call_Name call) = Some tool" by blast
  with as early other assms(2) that show thesis by (simp add: executeToolCall_def Let_def)
qed

lemma if_Some_None: "(if b then Some x else y) = None \<longleftrightarrow> \<not> b \<and> y = None"
  by simp

lemma early_refusal_None:
  assumes "early_refusal os opts name (Some tool) as = None"
  shows "\<not> containsToolName (DisabledTools opts) name"
    "name = ''tool_search'' \<or> EnabledTools opts = [] \<or> containsToolName (EnabledTools opts) name"
    "PlanMode opts \<Longrightarrow> \<not> planModeDenied name (Some tool)"
proof -
  have filters: "name = ''tool_search'' \<and> \<not> containsToolName (DisabledTools opts) ''tool_search''
      \<or> ToolAllowedByFilters name (EnabledTools opts) (DisabledTools opts)"
    and plan: "\<not> (PlanMode opts \<and> planModeDenied name (Some tool))"
    using assms unfolding early_refusal_def Let_def if_Some_None by blast+
  from filters show "\<not> containsToolName (DisabledTools opts) name"
    "name = ''tool_search'' \<or> EnabledTools opts = [] \<or> containsToolName (EnabledTools opts) name"
    by (auto simp: ToolAllowedByFilters_def split: if_splits)
  from plan show "PlanMode opts \<Longrightarrow> \<not> planModeDenied name (Some tool)" by blast
qed

end
