(* ===== verification/Gate_Undo.thy ===== *)
theory Gate_Undo
  imports Gate_Facts
begin

text \<open>
  What an approval for the turn leaves of the engine.  The grants the gate makes for a decision are
  instances of one interface: after its cleanup, run on any engine that differs from the granted
  one by a counter only, the engine is the one before, up to the counter that names profiles.
\<close>

section \<open>Engines up to the counter\<close>

definition same_engine :: "Engine \<Rightarrow> Engine \<Rightarrow> bool" where
  "same_engine e e' \<longleftrightarrow> e\<lparr>eng_turnProfiles := eng_turnProfiles e'\<rparr> = e'
     \<and> profiles (eng_turnProfiles e) = profiles (eng_turnProfiles e')"

lemma run_cleanups_Nil [simp]: "run_cleanups [] e = e"
  by (simp add: run_cleanups_def)

lemma same_engine_refl [simp]: "same_engine e e"
  by (simp add: same_engine_def)

lemma same_engine_trans: "same_engine a b \<Longrightarrow> same_engine b c \<Longrightarrow> same_engine a c"
  by (cases a; cases b; cases c) (simp add: same_engine_def)

lemma same_engine_policy: "same_engine e e' \<Longrightarrow> effectivePolicy e = effectivePolicy e'"
  by (cases e; cases e') (simp add: same_engine_def effectivePolicy_def profileSet_list_def)

lemma same_engine_cleanup: "same_engine e e' \<Longrightarrow> same_engine (run_cleanup c e) (run_cleanup c e')"
  by (cases c; cases e; cases e') (simp_all add: same_engine_def profileSet_delete_def)

lemma same_engine_cleanups: "same_engine e e' \<Longrightarrow> same_engine (run_cleanups cs e) (run_cleanups cs e')"
  by (induction cs) (simp_all add: run_cleanups_def same_engine_cleanup)

lemma run_cleanup_inv: "engine_inv e \<Longrightarrow> engine_inv (run_cleanup c e)"
  by (cases c) (simp_all add: engine_inv_def profileSet_delete_inv)

lemma run_cleanups_inv: "engine_inv e \<Longrightarrow> engine_inv (run_cleanups cs e)"
  by (induction cs) (simp_all add: run_cleanups_def run_cleanup_inv)

section \<open>Grants that can be undone\<close>

definition grant_cleanups :: "string + cleanup list \<Rightarrow> cleanup list" where
  "grant_cleanups r = (case r of Inl _ \<Rightarrow> [] | Inr cs \<Rightarrow> cs)"

lemma grant_cleanups_simps [simp]: "grant_cleanups (Inl err) = []" "grant_cleanups (Inr cs) = cs"
  by (simp_all add: grant_cleanups_def)

locale undoable_grant =
  fixes grant :: granting
  assumes undo: "engine_inv e \<Longrightarrow> \<exists>r e'. grant (Some e) = (r, Some e') \<and> engine_inv e'
    \<and> same_engine (run_cleanups (grant_cleanups r) e') e"
begin

lemma undo_around:
  assumes "engine_inv e" "grant (Some e) = (r, engine')"
  obtains e' where "engine' = Some e'" "engine_inv e'"
    "\<And>e''. same_engine e'' e' \<Longrightarrow> same_engine (run_cleanups (grant_cleanups r) e'') e"
proof -
  obtain e' where e': "engine' = Some e'" "engine_inv e'" "same_engine (run_cleanups (grant_cleanups r) e') e"
    using undo [OF assms(1)] assms(2) by auto
  have "same_engine (run_cleanups (grant_cleanups r) e'') e" if "same_engine e'' e'" for e''
    using same_engine_trans [OF same_engine_cleanups [OF that] e'(3)] .
  with e' that show thesis by blast
qed

end

lemma turn_grant_undo:
  assumes inv: "engine_inv e"
  shows "\<exists>r e'. GrantRequestPermissions os profile GrantScopeTurn (Some e) = (r, Some e') \<and> engine_inv e'
    \<and> same_engine (run_cleanups (grant_cleanups r) e') e"
proof -
  obtain r engine' where g: "GrantRequestPermissions os profile GrantScopeTurn (Some e) = (r, engine')" by fastforce
  show ?thesis
  proof (cases r)
    case (Inl err)
    with g failed_turn_grant [of os profile GrantScopeTurn e err engine'] inv show ?thesis
      by (auto simp: grant_cleanups_def run_cleanups_def)
  next
    case (Inr cs)
    obtain e' where e': "engine' = Some e'"
      using g Inr by (auto simp: GrantRequestPermissions_def Let_def split: prod.splits sum.splits)
    with g Inr turn_grant_cleanup_state [OF inv, of os profile cs e'] show ?thesis
      by (auto simp: grant_cleanups_def same_engine_def)
  qed
qed

lemma turn_grant_undoable: "undoable_grant (GrantRequestPermissions os profile GrantScopeTurn)"
  by unfold_locales (rule turn_grant_undo)

interpretation network_grant: undoable_grant "grantNetworkForSandboxPrompt os event GrantScopeTurn"
  using undoable_grant.undo [OF turn_grant_undoable]
  by unfold_locales (simp add: grantNetworkForSandboxPrompt_def)

interpretation inline_grant: undoable_grant "grantInlineAdditionalPermissions os opts as GrantScopeTurn"
  using undoable_grant.undo [OF turn_grant_undoable]
  by unfold_locales (simp add: grantInlineAdditionalPermissions_def split: sum.split option.split)

interpretation filesystem_grant: undoable_grant "grantFilesystemForSandboxPrompt os event GrantScopeTurn"
  using undoable_grant.undo [OF turn_grant_undoable]
  by unfold_locales (simp add: grantFilesystemForSandboxPrompt_def Let_def)

lemma grant_all_undo:
  assumes "list_all (\<lambda>(l, grant). undoable_grant grant) gs" "engine_inv e"
    and "grant_all gs prefix cs (Some e) = (v, cs', engine')"
  obtains e' more where "engine' = Some e'" "engine_inv e'" "cs' = cs @ more"
    "\<And>e''. same_engine e'' e' \<Longrightarrow> same_engine (run_cleanups more e'') e"
  using assms
proof (induction gs arbitrary: cs e thesis)
  case Nil
  then show ?case by (auto simp: run_cleanups_def)
next
  case (Cons g gs)
  obtain label grant where g: "g = (label, grant)" by (cases g)
  obtain r engine1 where gr: "grant (Some e) = (r, engine1)" by fastforce
  have u: "undoable_grant grant" using Cons.prems(2) g by simp
  obtain e1 where e1: "engine1 = Some e1" "engine_inv e1"
    "\<And>e''. same_engine e'' e1 \<Longrightarrow> same_engine (run_cleanups (grant_cleanups r) e'') e"
    using undoable_grant.undo_around [OF u Cons.prems(3) gr] by blast
  show ?case
  proof (cases r)
    case (Inl err)
    with Cons.prems(4) g gr e1(1) have "engine' = Some e1" "cs' = cs @ []" by auto
    with e1 Inl Cons.prems(1) [of e1 "[]"] show ?thesis by (simp add: grant_cleanups_def)
  next
    case (Inr c)
    have "grant_all gs prefix (cs @ c) (Some e1) = (v, cs', engine')"
      using Cons.prems(4) g gr e1(1) Inr by simp
    moreover have "list_all (\<lambda>(l, grant). undoable_grant grant) gs" using Cons.prems(2) by simp
    ultimately obtain e2 more where e2: "engine' = Some e2" "engine_inv e2" "cs' = (cs @ c) @ more"
      "\<And>e''. same_engine e'' e2 \<Longrightarrow> same_engine (run_cleanups more e'') e1"
      using Cons.IH [OF _ _ e1(2)] by blast
    have "same_engine (run_cleanups (c @ more) e'') e" if "same_engine e'' e2" for e''
      using e1(3) [OF e2(4) [OF that]] Inr by (simp add: run_cleanups_append grant_cleanups_def)
    with e2 Cons.prems(1) [of e2 "c @ more"] show ?thesis by simp
  qed
qed

section \<open>Decisions for the turn\<close>

definition turn_decisions :: "PermissionDecisionAction set" where
  "turn_decisions = {DecisionAllow, DecisionAllowStrict, DecisionDeny, DecisionCancel}"

text \<open>The user granted nothing beyond the call at hand.\<close>

definition turn_only :: "Options \<Rightarrow> PermissionRequest list \<Rightarrow> bool" where
  "turn_only opts asked \<longleftrightarrow> (\<forall>request \<in> set asked. pd_action (ask_decision opts request) \<in> turn_decisions)"

lemma decide_call_undo:
  assumes "pd_action decision \<in> turn_decisions" "engine_inv e"
    and "decide_call w opts name as event decision (Some e) = (v, cs, engine')"
  obtains e' where "engine' = Some e'" "engine_inv e'"
    "\<And>e''. same_engine e'' e' \<Longrightarrow> same_engine (run_cleanups cs e'') e"
proof (cases "pd_action decision \<in> {DecisionAllow, DecisionAllowStrict}")
  case True
  let ?gs = "[(''failed to grant network permission: '', grantNetworkForSandboxPrompt (w_os w) event GrantScopeTurn),
    (''failed to grant additional permissions: '', grantInlineAdditionalPermissions (w_os w) opts as GrantScopeTurn),
    (''failed to grant filesystem permission: '', grantFilesystemForSandboxPrompt (w_os w) event GrantScopeTurn)]"
  have gs: "list_all (\<lambda>(l, grant). undoable_grant grant) ?gs"
    by (simp add: network_grant.undoable_grant_axioms inline_grant.undoable_grant_axioms
        filesystem_grant.undoable_grant_axioms)
  have g: "grant_all ?gs [] [] (Some e) = (v, cs, engine')"
    using True assms(3) by (auto simp: decide_call_def Let_def simp del: grant_all.simps)
  obtain e' more where e': "engine' = Some e'" "engine_inv e'" "cs = [] @ more"
    "\<And>e''. same_engine e'' e' \<Longrightarrow> same_engine (run_cleanups more e'') e"
    using grant_all_undo [OF gs assms(2) g] by blast
  have "\<And>e''. same_engine e'' e' \<Longrightarrow> same_engine (run_cleanups cs e'') e" using e'(3,4) by simp
  with e'(1,2) that show thesis by blast
next
  case False
  then have "engine' = Some e" "cs = []"
    using assms(1,3) by (auto simp: decide_call_def turn_decisions_def Let_def)
  with assms(2) that [of e] show thesis by (simp add: run_cleanups_def)
qed

lemma network_retry_undo:
  assumes "turn_only opts asked" "engine_inv e"
    and r: "maybeRetryWithNetworkAfterSandboxDenial w registry opts name tool as res mode (Some e) = (y, asked, engine')"
  shows "\<exists>e'. engine' = Some e' \<and> engine_inv e' \<and> same_engine e' e"
proof -
  let ?event = "retry_event w opts name tool as mode True res"
  let ?action = "pd_action (ask_decision opts (permissionRequestFromEvent ?event as (Some e)))"
  obtain g engine1 where g: "grantNetworkForSandboxPrompt (w_os w) ?event GrantScopeTurn (Some e) = (g, engine1)"
    by fastforce
  obtain e1 where e1: "engine1 = Some e1" "engine_inv e1"
    "\<And>e''. same_engine e'' e1 \<Longrightarrow> same_engine (run_cleanups (grant_cleanups g) e'') e"
    using network_grant.undo_around [OF assms(2) g] by blast
  show ?thesis
  proof (cases "engine' = Some e")
    case True
    with assms(2) show ?thesis by simp
  next
    case False
    then have asked: "asked = [permissionRequestFromEvent ?event as (Some e)]" and a: "?action \<in> approving"
      using r by (auto simp: maybeRetryWithNetworkAfterSandboxDenial_def Let_def approving_def
          split: if_splits PermissionDecisionAction.splits prod.splits sum.splits)
    then have "?action \<in> {DecisionAllow, DecisionAllowStrict}"
      using assms(1) by (auto simp: turn_only_def turn_decisions_def approving_def)
    then have "engine' = run_cleanups_opt (grant_cleanups g) engine1"
      using r g False e1(1)
      by (cases g) (auto simp: maybeRetryWithNetworkAfterSandboxDenial_def Let_def split: if_splits)
    with e1 run_cleanups_inv [OF e1(2)] show ?thesis by simp
  qed
qed

lemma retry_undo:
  assumes turn: "turn_only opts asked" and inv: "engine_inv e"
    and r: "maybeRetryUnsandboxed w registry opts name tool as res mode (Some e) = (y, asked, engine')"
  shows "\<exists>e'. engine' = Some e' \<and> engine_inv e' \<and> same_engine e' e"
proof -
  obtain n asked1 engine1 where n:
    "maybeRetryWithNetworkAfterSandboxDenial w registry opts name tool as res mode (Some e) = (n, asked1, engine1)"
    by (metis prod_cases3)
  show ?thesis
  proof (cases "n = No_Retry")
    case False
    with r n have "asked = asked1" "engine' = engine1"
      by (cases n; simp add: maybeRetryUnsandboxed_def)+
    with network_retry_undo [OF _ inv n] turn show ?thesis by simp
  next
    case True
    then have e: "engine1 = Some e" using n
      by (auto simp: maybeRetryWithNetworkAfterSandboxDenial_def Let_def
          split: if_splits PermissionDecisionAction.splits prod.splits sum.splits)
    let ?request = "permissionRequestFromEvent (retry_event w opts name tool as mode False res) as (Some e)"
    have "engine' = Some e \<or> ?request \<in> set asked \<and>
        pd_action (ask_decision opts ?request) \<in> {DecisionAllowPrefix, DecisionAlwaysAllowPrefix}"
      using r n True e
      by (auto simp: maybeRetryUnsandboxed_def Let_def split: if_splits PermissionDecisionAction.splits)
    with turn inv show ?thesis by (auto simp: turn_only_def turn_decisions_def)
  qed
qed

section \<open>The engine after a call\<close>

lemma run_call_undo:
  assumes turn: "turn_only opts (co_asked (run_call w registry opts name tool as mode granted action cs (Some e)))"
    and inv: "engine_inv e"
  shows "\<exists>e'. co_engine (run_call w registry opts name tool as mode granted action cs (Some e))
    = Some (run_cleanups cs e') \<and> engine_inv e' \<and> same_engine e' e"
proof (cases "BeforeTool opts name as")
  case (Some reason)
  then show ?thesis using inv by (auto simp: run_call_def call_done_def)
next
  case None
  define as' where "as' = shellExecutionArgsForApproval (w_os w) name as action (Some e)"
  define r where "r = RunWithOptions w registry name as' \<lparr>ro_granted = granted, ro_mode = mode, ro_sandbox = Some e\<rparr>"
  let ?c = "run_call w registry opts name tool as mode granted action cs (Some e)"
  obtain y asked engine' where y: "maybeRetryUnsandboxed w registry opts name tool as' (fst r) mode (Some e) = (y, asked, engine')"
    by (metis prod_cases3)
  have c: "co_asked ?c = asked" "co_engine ?c = run_cleanups_opt cs engine'"
    using y unfolding run_call_def Let_def as'_def [symmetric] r_def [symmetric] None
    by (cases r; cases y; simp add: call_done_def split: prod.split)+
  have "\<exists>e'. engine' = Some e' \<and> engine_inv e' \<and> same_engine e' e"
    by (rule retry_undo [OF turn [unfolded c] inv y])
  with c show ?thesis by auto
qed

lemma answer_call_undo:
  assumes turn: "turn_only opts (co_asked (answer_call w registry opts name tool as mode event decision (Some e)))"
    and d: "pd_action decision \<in> turn_decisions" and inv: "engine_inv e"
  shows "\<exists>e'. co_engine (answer_call w registry opts name tool as mode event decision (Some e)) = Some e'
    \<and> engine_inv e' \<and> same_engine e' e"
proof -
  obtain v cs engine' where v: "decide_call w opts name as event decision (Some e) = (v, cs, engine')"
    by (metis prod_cases3)
  obtain e1 where e1: "engine' = Some e1" "engine_inv e1"
    "\<And>e''. same_engine e'' e1 \<Longrightarrow> same_engine (run_cleanups cs e'') e"
    using decide_call_undo [OF d inv v] by blast
  show ?thesis
  proof (cases v)
    case (Approved prefix)
    then have c: "answer_call w registry opts name tool as mode event decision (Some e)
        = run_call w registry opts name tool as mode True (pd_action decision) cs (Some e1)"
      using v e1 by (simp add: answer_call_def)
    from run_call_undo [OF turn [unfolded c] e1(2)] e1(3) show ?thesis unfolding c using run_cleanups_inv by blast
  qed (use v e1 run_cleanups_inv in \<open>simp_all add: answer_call_def call_done_def\<close>)
qed

lemma prompt_call_undo:
  assumes turn: "turn_only opts (co_asked (prompt_call w registry opts name tool as mode granted action forced (Some e)))"
    and inv: "engine_inv e"
  shows "\<exists>e'. co_engine (prompt_call w registry opts name tool as mode granted action forced (Some e)) = Some e'
    \<and> engine_inv e' \<and> same_engine e' e"
proof (cases rule: prompt_call_cases [of forced w registry opts name tool as mode granted action "Some e"])
  case unasked
  from run_call_undo [OF turn [unfolded unasked(2)] inv] show ?thesis unfolding unasked(2) by auto
next
  case (asked event)
  define request where "request = permissionRequestFromEvent event as (Some e)"
  define a where "a = answer_call w registry opts name tool as mode event (ask_decision opts request) (Some e)"
  have c: "prompt_call w registry opts name tool as mode granted action forced (Some e)
      = a\<lparr>co_asked := request # co_asked a\<rparr>"
    using asked(2) unfolding a_def request_def by (simp add: Let_def)
  have "turn_only opts (co_asked a)" "pd_action (ask_decision opts request) \<in> turn_decisions"
    using turn unfolding c by (simp_all add: turn_only_def)
  from answer_call_undo [OF this(1) [unfolded a_def] this(2) inv] show ?thesis unfolding c a_def by simp
next
  case (nobody result)
  then show ?thesis using inv by (simp add: call_done_def)
qed

lemma gate_call_cases:
  obtains (gate) granted action forced where
    "gate_call w registry opts name tool as mode engine = prompt_call w registry opts name tool as mode granted action forced engine"
  | (denied) reason result where
    "evaluatePermissionRules w (PermissionRules opts) name tool as mode = Some (ActionDeny, reason)"
    "gate_call w registry opts name tool as mode engine = call_done result engine"
proof -
  obtain granted action where g: "starting_grant w opts name tool as mode engine = (granted, action)" by fastforce
  show thesis
  proof (cases "evaluatePermissionRules w (PermissionRules opts) name tool as mode")
    case None
    then show thesis using g by (intro gate) (simp add: gate_call_def)
  next
    case (Some x)
    obtain a reason where x: "x = (a, reason)" by (cases x)
    show thesis
    proof (cases a)
      case ActionDeny
      then show thesis using g Some x by (intro denied) (simp_all add: gate_call_def)
    qed (use g Some x in \<open>intro gate; simp add: gate_call_def\<close>)+
  qed
qed

lemma gate_call_undo:
  assumes turn: "turn_only opts (co_asked (gate_call w registry opts name tool as mode (Some e)))"
    and inv: "engine_inv e"
  shows "\<exists>e'. co_engine (gate_call w registry opts name tool as mode (Some e)) = Some e' \<and> engine_inv e' \<and> same_engine e' e"
proof (cases rule: gate_call_cases [of w registry opts name tool as mode "Some e"])
  case (gate granted action forced)
  from prompt_call_undo [OF turn [unfolded gate] inv] show ?thesis unfolding gate .
qed (use inv in \<open>simp add: call_done_def\<close>)

end
