(* ===== verification/Demo_Host.thy ===== *)
theory Demo_Host
  imports Engine
begin

text \<open>
  The small host the properties of the sandbox are applied to: a workspace \<open>/w\<close> holding two files
  and a link that leads out of it, a secret directory, an engine over them and tool requests.
\<close>

definition demo_os :: os where
  "demo_os = \<lparr>files = fs_of [(''/w'', Directory), (''/w/src'', Directory), (''/w/src/a.txt'', Regular), (''/w/src/b.txt'', Regular),
       (''/w/out'', Link ''/secret''), (''/secret'', Directory), (''/secret/key'', Regular), (''/tmp'', Directory)],
     cwd = ''/w'', home = None, env = (\<lambda>_. [])\<rparr>"

definition demo_parse :: shell_parser where
  "demo_parse script = Some [List.map (\<lambda>f. [Lit f]) (str_fields script)]"

definition demo_world :: world where
  "demo_world = \<lparr>w_os = demo_os, w_parse = demo_parse, w_redact = (\<lambda>s. s), w_now = ''2026-01-01T00:00:00Z'',
     w_write = None, w_windowsInitialized = False\<rparr>"

definition demo_backend :: Backend where
  "demo_backend = \<lparr>be_available = True, be_platform = ''linux'', be_commandWrapping = True,
     be_nativeIsolation = True, be_executable = ''/usr/bin/bwrap''\<rparr>"

definition demo_policy :: Policy where
  "demo_policy = DefaultPolicy\<lparr>DenyRead := [''/secret''], DenyWrite := [''/w/src/a.txt'']\<rparr>"

definition demo_scope :: SandboxScope where
  "demo_scope = \<lparr>workspaceRoot = ''/w'', readRoots = [], extraRoots = [''/tmp'']\<rparr>"

definition demo_engine :: "grants_file option \<Rightarrow> Engine" where
  "demo_engine store = NewEngine demo_os ''/w'' demo_policy store demo_backend (Some demo_scope)"

definition demo_request :: "string \<Rightarrow> string \<Rightarrow> (string \<times> string) list \<Rightarrow> RawRequest" where
  "demo_request tool effect as = \<lparr>raw_workspace_root = [], raw_tool_name = tool, raw_side_effect = effect,
     raw_permission = ''prompt'', raw_permission_granted = False, raw_permission_mode = ''auto'',
     raw_args = (\<lambda>k. map_option ArgString (map_of as k)), raw_reason = []\<rparr>"

abbreviation demo_write :: RawRequest where
  "demo_write \<equiv> demo_request ''write_file'' ''write'' [(''path'', ''src/b.txt'')]"

abbreviation demo_read :: RawRequest where
  "demo_read \<equiv> demo_request ''read_file'' ''read'' [(''path'', ''out/key'')]"

text \<open>The entries of a file system built from a list hang off directories.\<close>

lemma fs_of_dom: "fs_of xs d \<noteq> None \<Longrightarrow> d \<in> (\<lambda>e. comps (fst e)) ` set xs"
proof -
  assume "fs_of xs d \<noteq> None"
  then have "d \<in> fst ` set (List.map (\<lambda>(p, nd). (comps p, nd)) xs)"
    unfolding fs_of_def by (simp only: map_of_eq_None_iff not_not simp_thms)
  then show ?thesis by force
qed

lemma wf_fs_of:
  assumes "list_all (\<lambda>e. comps (fst e) = [] \<or> node_at (fs_of xs) (butlast (comps (fst e))) = Some Directory) xs"
  shows "wf_fs (fs_of xs)"
  unfolding wf_fs_def
proof (intro allI impI)
  fix b x assume "fs_of xs (b @ [x]) \<noteq> None"
  then obtain e where "e \<in> set xs" "b @ [x] = comps (fst e)" using fs_of_dom by blast
  then show "node_at (fs_of xs) b = Some Directory"
    using assms by (fastforce simp: list_all_iff dest: arg_cong [of _ _ butlast])
qed

text \<open>No link of a listed file system lies below a directory when none of the list does.\<close>

lemma fs_of_link_free:
  assumes "list_all (\<lambda>e. case snd e of Link _ \<Rightarrow> \<not> has_prefix (comps (fst e)) r | _ \<Rightarrow> True) xs"
  shows "fs_of xs (r @ s) \<noteq> Some (Link t)"
proof
  assume "fs_of xs (r @ s) = Some (Link t)"
  then have "(r @ s, Link t) \<in> set (List.map (\<lambda>(p, nd). (comps p, nd)) xs)"
    unfolding fs_of_def by (rule map_of_SomeD)
  then obtain e where "e \<in> set xs" "comps (fst e) = r @ s" "snd e = Link t" by force
  then show False using assms by (force simp: list_all_iff)
qed

text \<open>
  A second state of the host, in which a directory inside the secret one is shared: an engine there
  re-includes it with \<open>AllowRead\<close>.
\<close>

abbreviation shared_files :: "(string \<times> node) list" where
  "shared_files \<equiv> [(''/w'', Directory), (''/w/src'', Directory), (''/w/src/a.txt'', Regular), (''/w/src/b.txt'', Regular),
     (''/w/out'', Link ''/secret''), (''/secret'', Directory), (''/secret/key'', Regular),
     (''/secret/pub'', Directory), (''/secret/pub/readme'', Regular), (''/tmp'', Directory)]"

definition shared_os :: os where
  "shared_os = demo_os\<lparr>files := fs_of shared_files\<rparr>"

definition shared_world :: world where
  "shared_world = demo_world\<lparr>w_os := shared_os\<rparr>"

definition shared_engine :: Engine where
  "shared_engine = NewEngine shared_os ''/w'' (demo_policy\<lparr>AllowRead := [''/secret/pub'']\<rparr>) None demo_backend
     (Some demo_scope)"

lemma shared_files_eq: "files (w_os shared_world) = fs_of shared_files"
  by (simp add: shared_world_def shared_os_def)

lemma shared_wf: "wf_fs (files (w_os shared_world))"
  unfolding shared_files_eq by (rule wf_fs_of) code_simp

lemma shared_link_free: "files (w_os shared_world) ([''secret'', ''pub''] @ s) \<noteq> Some (Link t)"
  unfolding shared_files_eq by (rule fs_of_link_free) code_simp

lemma demo_wf: "wf_fs (files (w_os demo_world))"
  unfolding demo_world_def demo_os_def os.select_convs world.select_convs by (rule wf_fs_of) code_simp

end
