(* ===== verification/Run_Properties.thy ===== *)
theory Run_Properties
  imports Agent_Run Gate_Undo Demo_Host
begin

text \<open>
  What a whole run of the agent promises, whatever the model answers, the tools return and the user
  decides: it ends, its transcript is one a strict provider accepts, the tools it started were allowed,
  and what was permitted for the turn is gone with the run.  Each rests on a promise about every call,
  an instance of \<open>call_promise\<close>.
\<close>

section \<open>Results carry the identifiers of their calls\<close>





section \<open>Tools that were let through\<close>

text \<open>A tool of the run: registered, passed by the filters and by plan mode.\<close>

definition admitted_tool :: "loop_env \<Rightarrow> ToolCall \<Rightarrow> bool" where
  "admitted_tool le call \<longleftrightarrow> (\<exists>tool. env_registry le (call_Name call) = Some tool
     \<and> \<not> containsToolName (DisabledTools (env_options le)) (call_Name call)
     \<and> (call_Name call = ''tool_search'' \<or> EnabledTools (env_options le) = []
          \<or> containsToolName (EnabledTools (env_options le)) (call_Name call))
     \<and> (PlanMode (env_options le) \<longrightarrow> \<not> planModeDenied (call_Name call) (Some tool)))"

definition started_admitted ::
    "loop_env \<Rightarrow> Engine option \<times> cleanup list \<times> (ToolCall \<times> tool_start) list \<times> PermissionRequest list \<Rightarrow> bool" where
  "started_admitted le account = (\<forall>(call, start) \<in> set (fst (snd (snd account))).
     call_Name call \<noteq> ''ask_user'' \<longrightarrow> admitted_tool le call)"

lemma exec_call_admitted:
  assumes "started_admitted le (gate_view s)"
  shows "started_admitted le (gate_view (snd (exec_call le call s)))"
proof -
  have "admitted_tool le call" if "st \<in> set (co_started (executeToolCall w (env_registry le) (env_options le) call mode engine))"
    "call_Name call \<noteq> ''ask_user''" for st w mode engine
  proof (rule executeToolCall_started [OF that])
    fix tool as
    assume "env_registry le (call_Name call) = Some tool"
      "early_refusal (w_os w) (env_options le) (call_Name call) (Some tool) as = None"
    then show ?thesis using early_refusal_None [of "w_os w" "env_options le" "call_Name call" tool as]
      unfolding admitted_tool_def by blast
  qed
  then show ?thesis using assms by (auto simp: started_admitted_def gate_view_def exec_call_def Let_def)
qed

interpretation admissions: call_promise le "started_admitted le" "\<lambda>_ _. True" for le
  by unfold_locales (simp_all add: exec_call_admitted)

section \<open>Permissions for the turn\<close>

text \<open>While the user grants for the turn only, the cleanups that wait lead back to the engine of the start.\<close>

definition undone_by_cleanup ::
    "Options \<Rightarrow> Engine \<Rightarrow> Engine option \<times> cleanup list \<times> (ToolCall \<times> tool_start) list \<times> PermissionRequest list \<Rightarrow> bool" where
  "undone_by_cleanup opts e0 account =
     (case account of (engine, cleanups, started, asked) \<Rightarrow>
        turn_only opts asked \<longrightarrow> (\<exists>e. engine = Some e \<and> engine_inv e \<and> same_engine (run_cleanups cleanups e) e0))"

lemma request_permissions_undo:
  assumes "turn_only opts (co_asked (executeRequestPermissions w opts as mode (Some e)))" "engine_inv e"
  shows "\<exists>e'. co_engine (executeRequestPermissions w opts as mode (Some e)) = Some e' \<and> engine_inv e'
    \<and> same_engine (run_cleanups (co_cleanups (executeRequestPermissions w opts as mode (Some e))) e') e"
proof -
  let ?c = "executeRequestPermissions w opts as mode (Some e)"
  have same: ?thesis if "co_engine ?c = Some e" "co_cleanups ?c = []" using that assms(2) by simp
  show ?thesis
  proof (cases "co_asked ?c = []")
    case True
    then show ?thesis
      by (intro same; auto simp: executeRequestPermissions_def request_error_def call_done_def Let_def
          split: sum.splits if_splits)
  next
    case False
    then obtain reason parsed profile prompt where d: "decode_request opts as = Inr (reason, parsed)"
      "\<not> RequestPermissionProfile_Empty (NormalizeRequestPermissionProfile (w_os w) parsed (Cwd opts))"
      "RequestPermissionGrantProfile (w_os w) (NormalizeRequestPermissionProfile (w_os w) parsed (Cwd opts)) = Inr profile"
      "mode \<noteq> PermissionModeBypassAll" "OnPermissionRequest opts = Some prompt"
      by (auto simp: executeRequestPermissions_def request_error_def call_done_def Let_def split: sum.splits if_splits prod.splits)
    define decision where "decision = ask_decision opts (requestPermissionsPrompt profile reason as)"
    obtain r e' where g: "GrantRequestPermissions (w_os w) profile GrantScopeTurn (Some e) = (r, Some e')" "engine_inv e'"
      "same_engine (run_cleanups (grant_cleanups r) e') e"
      using turn_grant_undo [OF assms(2)] by blast
    have asked: "co_asked ?c = [requestPermissionsPrompt profile reason as]"
      using d by (simp add: executeRequestPermissions_def Let_def)
    then have "pd_action decision \<in> turn_decisions" using assms(1) by (simp add: turn_only_def decision_def)
    then consider "pd_action decision \<in> {DecisionAllow, DecisionAllowStrict}" | "pd_action decision \<in> {DecisionDeny, DecisionCancel}"
      by (auto simp: turn_decisions_def)
    then show ?thesis
    proof cases
      case 1
      then show ?thesis using d g
        by (cases r) (auto simp: executeRequestPermissions_def Let_def decision_def [symmetric] call_done_def request_error_def)
    next
      case 2
      then show ?thesis using d
        by (intro same) (auto simp: executeRequestPermissions_def Let_def decision_def [symmetric] call_done_def)
    qed
  qed
qed

lemma run_call_cleanups: "co_cleanups (run_call w registry opts name tool as mode granted action cs engine) = []"
  by (auto simp: run_call_def Let_def call_done_def split: option.split prod.split retry.split)

lemma answer_call_cleanups: "co_cleanups (answer_call w registry opts name tool as mode event decision engine) = []"
  by (auto simp: answer_call_def call_done_def run_call_cleanups split: prod.split verdict.split)

lemma prompt_call_cleanups: "co_cleanups (prompt_call w registry opts name tool as mode granted action forced engine) = []"
  by (simp add: prompt_call_def Let_def call_done_def run_call_cleanups answer_call_cleanups)

lemma gate_call_cleanups: "co_cleanups (gate_call w registry opts name tool as mode engine) = []"
  by (cases rule: gate_call_cases [of w registry opts name tool as mode engine])
    (simp_all add: prompt_call_cleanups call_done_def)

lemma executeToolCall_undo:
  assumes "turn_only opts (co_asked (executeToolCall w registry opts call mode (Some e)))" "engine_inv e"
  shows "\<exists>e'. co_engine (executeToolCall w registry opts call mode (Some e)) = Some e' \<and> engine_inv e'
    \<and> same_engine (run_cleanups (co_cleanups (executeToolCall w registry opts call mode (Some e))) e') e"
proof -
  let ?c = "executeToolCall w registry opts call mode (Some e)"
  have plan: "co_engine (executeExitPlanMode opts engine) = engine" "co_cleanups (executeExitPlanMode opts engine) = []" for engine
    by (simp_all add: executeExitPlanMode_def call_done_def split: option.split ask_reply.split)
  have ask: "co_engine (executeAskUser w registry opts name as mode engine) = engine"
    "co_cleanups (executeAskUser w registry opts name as mode engine) = []" for name as engine
    by (simp_all add: executeAskUser_def call_done_def Let_def split: option.split ask_reply.split sum.split prod.split)
  have quiet: "co_engine ?c = Some e \<and> co_cleanups ?c = []" if "decodeCallArgs opts call = Inl err" for err
    using that by (simp add: executeToolCall_def call_done_def)
  have refused_early: "co_engine ?c = Some e \<and> co_cleanups ?c = []"
    if "decodeCallArgs opts call = Inr as" "early_refusal (w_os w) opts (call_Name call) (registry (call_Name call)) as = Some res" for as res
    using that by (simp add: executeToolCall_def call_done_def)
  have unknown: "co_engine (let (res, started) = RunWithOptions w registry name as ro
      in (call_done (run_result res) engine)\<lparr>co_started := started\<rparr>) = engine \<and>
    co_cleanups (let (res, started) = RunWithOptions w registry name as ro
      in (call_done (run_result res) engine)\<lparr>co_started := started\<rparr>) = []" for name as ro engine
    by (simp add: call_done_def split: prod.split)
  consider (gate) as tool where "?c = gate_call w registry opts (call_Name call) tool as mode (Some e)"
    | (request) as where "?c = executeRequestPermissions w opts as mode (Some e)"
    | (same) "co_engine ?c = Some e" "co_cleanups ?c = []"
  proof (cases "decodeCallArgs opts call")
    case (Inr as)
    show thesis
    proof (cases "early_refusal (w_os w) opts (call_Name call) (registry (call_Name call)) as")
      case None
      then have c: "?c = (if call_Name call = ''ask_user'' then executeAskUser w registry opts (call_Name call) as mode (Some e)
          else if call_Name call = ''request_permissions'' then executeRequestPermissions w opts as mode (Some e)
          else if call_Name call = ''exit_plan_mode'' then executeExitPlanMode opts (Some e)
          else (case registry (call_Name call) of
              None \<Rightarrow> (let (res, started) = RunWithOptions w registry (call_Name call) as
                  \<lparr>ro_granted = (mode = PermissionUnsafe \<or> mode = PermissionModeBypassAll), ro_mode = mode, ro_sandbox = Some e\<rparr>
                in (call_done (run_result res) (Some e))\<lparr>co_started := started\<rparr>)
            | Some tool \<Rightarrow> gate_call w registry opts (call_Name call) tool as mode (Some e)))"
        using Inr by (simp add: executeToolCall_def Let_def [of "call_Name call"])
      show thesis
      proof (cases "call_Name call = ''ask_user'' \<or> call_Name call = ''exit_plan_mode''")
        case True
        then show thesis using that(3) c plan ask by auto
      next
        case False
        show thesis
        proof (cases "call_Name call = ''request_permissions''")
          case True
          then show thesis using that(2) [of as] c by simp
        next
          case other: False
          then show thesis using that(1) [of _ as] that(3) c False unknown by (cases "registry (call_Name call)") simp_all
        qed
      qed
    qed (use refused_early Inr that(3) in blast)
  qed (use quiet that(3) in blast)
  then show ?thesis
  proof cases
    case (gate as tool)
    from gate_call_undo [OF assms(1) [unfolded gate] assms(2)] gate_call_cleanups show ?thesis unfolding gate by auto
  next
    case (request as)
    from request_permissions_undo [OF assms(1) [unfolded request] assms(2)] show ?thesis unfolding request .
  next
    case same
    then show ?thesis using assms(2) by simp
  qed
qed


lemma exec_call_undo:
  assumes "undone_by_cleanup (env_options le) e0 (gate_view s)"
  shows "undone_by_cleanup (env_options le) e0 (gate_view (snd (exec_call le call s)))"
proof -
  define c where "c = executeToolCall (env_world le (rs_clock s)) (env_registry le) (env_options le) call (env_mode le) (rs_engine s)"
  have "\<exists>e'. co_engine c = Some e' \<and> engine_inv e' \<and> same_engine (run_cleanups (rs_cleanups s @ co_cleanups c) e') e0"
    if t: "turn_only (env_options le) (rs_asked s @ co_asked c)"
  proof -
    obtain e where e: "rs_engine s = Some e" "engine_inv e" "same_engine (run_cleanups (rs_cleanups s) e) e0"
      using assms t by (auto simp: undone_by_cleanup_def gate_view_def turn_only_def)
    have "turn_only (env_options le) (co_asked c)" using t by (simp add: turn_only_def)
    then obtain e' where e': "co_engine c = Some e'" "engine_inv e'" "same_engine (run_cleanups (co_cleanups c) e') e"
      using executeToolCall_undo [of "env_options le" "env_world le (rs_clock s)" "env_registry le" call "env_mode le" e] e
      unfolding c_def by auto
    have "same_engine (run_cleanups (rs_cleanups s @ co_cleanups c) e') (run_cleanups (rs_cleanups s) e)"
      unfolding run_cleanups_append by (rule same_engine_cleanups [OF e'(3)])
    with e' same_engine_trans [OF _ e(3)] show ?thesis by blast
  qed
  then show ?thesis by (simp add: undone_by_cleanup_def gate_view_def exec_call_def Let_def c_def)
qed

interpretation turn_grants: call_promise le "undone_by_cleanup (env_options le) e0" "\<lambda>_ _. True" for le e0
  by unfold_locales (simp_all add: exec_call_undo)

section \<open>The properties\<close>

text \<open>What is asked of the surroundings: the relevance judge keeps roles and identifiers, and the transcript given to
  the run is paired and names its calls.\<close>

definition sound_surroundings :: "loop_env \<Rightarrow> run_settings \<Rightarrow> bool" where
  "sound_surroundings le st \<longleftrightarrow> judge_keeps_ids (env_compaction le) \<and> paired [] (st_initial st) \<and> list_all (\<lambda>m. list_all (\<lambda>call. call_ID call \<noteq> []) (msg_calls m)) (st_initial st)
     \<and> 0 \<le> preserveLast (st_compaction st)"

lemma surroundings_settled: "sound_surroundings le st \<Longrightarrow> settled (start_run le st)"
  by (rule seed_paired) (fastforce simp: sound_surroundings_def list_all_iff)+


section \<open>A small run\<close>

text \<open>The model calls a tool that lists files and then answers; the tool runs at moment 1, so the second request is number 2.\<close>

definition look_tool :: Tool where
  "look_tool = \<lparr>safety_sideEffect = SideEffectRead, safety_permission = PermissionAllow, safety_reason = ''lists files'',
     PermissionForArgs = None, RejectBeforePermission = None, Capabilities = None, CapabilitiesForArgs = None,
     tool_run = (\<lambda>as engine. \<lparr>res_status = StatusOK, res_output = ''a.txt'', res_meta = (\<lambda>_. None),
       res_changed = [], res_images = [], SandboxDecision = None\<rparr>)\<rparr>"

definition run_opts :: "bool \<Rightarrow> (string list \<Rightarrow> ask_reply) option \<Rightarrow> Options" where
  "run_opts plan ask =
     \<lparr>EnabledTools = [], DisabledTools = [], PlanMode = plan, PermissionRules = [], Cwd = ''/w'',
      OnPermissionRequest = None, OnAskUser = ask, BeforeTool = (\<lambda>_ _. None), decode_args = (\<lambda>txt. Inr (\<lambda>_. None)),
      decode_request = (\<lambda>_. Inl ''not an object''), render_response = (\<lambda>_. []), parse_questions = (\<lambda>_. Inr []),
      format_answers = (\<lambda>_ _. []), decode_profile = (\<lambda>_. Inl ''not an object''), decode_prefix = (\<lambda>_. Rule_Other),
      parse_stmts = (\<lambda>_. None), onWindows = False\<rparr>"

definition heard :: "StreamEventType \<Rightarrow> string \<Rightarrow> string \<Rightarrow> received" where
  "heard ty id' txt = Received \<lparr>se_Type = ty, se_Content = txt, se_ToolCallID = id', se_ToolName = txt, se_Signature = [],
     se_Fragment = [], se_Usage = no_usage, se_Error = [], se_FinishReason = [], se_ReasoningBlocks = []\<rparr>"

definition small_model :: "string \<Rightarrow> provider" where
  "small_model tool = \<lparr>answer = (\<lambda>n messages. Inr (if n = 0 then [heard StreamToolCallStart ''c1'' tool, heard StreamDone [] []]
       else [heard StreamText [] ''One file: a.txt'', heard StreamDone [] []])),
     ctx_done = (\<lambda>n. False), wait_done = (\<lambda>n. False)\<rparr>"

definition small_compaction :: compaction_env where
  "small_compaction = \<lparr>request_summary = (\<lambda>n messages. Inr []), judge_history = (\<lambda>messages pruned. None),
     attach_state = (\<lambda>task artifacts. artifacts)\<rparr>"

definition small_env :: "string \<Rightarrow> Options \<Rightarrow> loop_env" where
  "small_env tool opts =
     \<lparr>env_provider = small_model tool, env_world = (\<lambda>n. demo_world), env_registry = [''look'' \<mapsto> look_tool, ''exit_plan_mode'' \<mapsto> look_tool],
      env_options = opts, env_mode = PermissionModeAuto, env_compaction = small_compaction, env_decode = (\<lambda>_. No_Todos),
      env_validJSON = (\<lambda>_. True), env_recoverable = (\<lambda>_. None), env_schema = (\<lambda>_. []), env_gate = (\<lambda>n messages call res. res),
      env_risk = (\<lambda>n call. None), env_priority = (\<lambda>n i. i), env_diagnostics = (\<lambda>n. []), env_finalDiagnostics = (\<lambda>n. []),
      env_completions = (\<lambda>n. []), env_guidelines = (\<lambda>n. []), env_catalog = (\<lambda>n. []), env_coaching = (\<lambda>n. []),
      env_reasserted = (\<lambda>n. []), env_memory = (\<lambda>n. []), env_toolTokens = (\<lambda>n. 0), env_prompt = ''Which files?'',
      env_notes = [], env_selfCorrect = None, env_switch = None, env_ctxError = (\<lambda>n. ''context canceled''),
      env_abortError = (\<lambda>n. ''context canceled''), env_idle = 0, env_elapsed = (\<lambda>n. None), env_forwards = True\<rparr>"

definition small_run :: run_settings where
  "small_run = \<lparr>st_systemPrompt = ''You are an agent.'', st_images = [], st_initial = [], st_maxTurns = 0,
     st_compaction = newCompactionState 0 0 12 0, st_escalation = None, st_requireCompletion = False, st_effort = [],
     st_model = ''m'', st_engine = Some (demo_engine None)\<rparr>"

lemma small_surroundings: "sound_surroundings (small_env ''look'' (run_opts False None)) small_run"
  by (simp add: sound_surroundings_def small_env_def small_compaction_def judge_keeps_ids_def small_run_def newCompactionState_def)



text \<open>C13: Every tool body a run starts, ask_user apart, belongs to a registered tool that the filters of the run pass;
  in plan mode it is one that plan mode lets through.\<close>

theorem run_starts_admitted_tools:
  assumes "sound_surroundings le st"
  shows "\<exists>e s. Run le st = Some (e, s) \<and>
    list_all (\<lambda>(call, start). call_Name call = ''ask_user'' \<or> admitted_tool le call) (rs_started s)"
proof -
  have j: "judge_keeps_ids (env_compaction le)" using assms by (simp add: sound_surroundings_def)
  have "started_admitted le (gate_view (start_run le st))" by (simp add: started_admitted_def gate_view_def start_run_def)
  with admissions.turn_loop_keeps [OF surroundings_settled [OF assms] j]
  show ?thesis by (fastforce simp: Run_def started_admitted_def gate_view_def list_all_iff)
qed

theorem run_starts_admitted_tools_witness:
  "\<exists>e s. Run (small_env ''look'' (run_opts False None)) small_run = Some (e, s) \<and>
    list_all (\<lambda>(call, start). call_Name call = ''ask_user'' \<or> admitted_tool (small_env ''look'' (run_opts False None)) call)
      (rs_started s)"
  by (rule run_starts_admitted_tools [OF small_surroundings])

text \<open>C14: What the user permits for the turn ends with the run.  When every request of a run was answered for the turn
  only, those of request_permissions included, the engine after the run is the one before it up to the counter that
  names profiles, and so is its policy.\<close>

theorem turn_approvals_end_with_the_run:
  assumes "sound_surroundings le st" "st_engine st = Some e0" "engine_inv e0"
  shows "\<exists>e s. Run le st = Some (e, s) \<and>
    (if turn_only (env_options le) (rs_asked s)
     then \<exists>e1. rs_engine s = Some e1 \<and> e1\<lparr>eng_turnProfiles := eng_turnProfiles e0\<rparr> = e0
       \<and> profiles (eng_turnProfiles e1) = profiles (eng_turnProfiles e0) \<and> effectivePolicy e1 = effectivePolicy e0
     else True)"
proof -
  have j: "judge_keeps_ids (env_compaction le)" using assms(1) by (simp add: sound_surroundings_def)
  have "undone_by_cleanup (env_options le) e0 (gate_view (start_run le st))"
    using assms(2,3) by (simp add: undone_by_cleanup_def gate_view_def start_run_def)
  with turn_grants.turn_loop_keeps [OF surroundings_settled [OF assms(1)] j, of e0]
  obtain e s where r: "turn_loop le (start_run le st) = Some (e, s)" "undone_by_cleanup (env_options le) e0 (gate_view s)" by blast
  define e1 where "e1 = map_option (run_cleanups (rs_cleanups s)) (rs_engine s)"
  have "\<exists>e'. e1 = Some e' \<and> same_engine e' e0" if "turn_only (env_options le) (rs_asked s)"
    using r(2) that by (auto simp: undone_by_cleanup_def gate_view_def e1_def)
  then show ?thesis using r(1) same_engine_policy unfolding Run_def by (fastforce simp: e1_def [symmetric] same_engine_def)
qed


theorem turn_approvals_end_with_the_run_witness:
  "\<exists>e s. Run (small_env ''look'' (run_opts False None)) small_run = Some (e, s) \<and>
    (if turn_only (run_opts False None) (rs_asked s)
     then \<exists>e1. rs_engine s = Some e1 \<and> e1\<lparr>eng_turnProfiles := eng_turnProfiles (demo_engine None)\<rparr> = demo_engine None
       \<and> profiles (eng_turnProfiles e1) = profiles (eng_turnProfiles (demo_engine None))
       \<and> effectivePolicy e1 = effectivePolicy (demo_engine None)
     else True)"
proof -
  have "env_options (small_env ''look'' (run_opts False None)) = run_opts False None" by (simp add: small_env_def)
  moreover have "st_engine small_run = Some (demo_engine None)" by (simp add: small_run_def)
  moreover have "engine_inv (demo_engine None)" by code_simp
  ultimately show ?thesis using turn_approvals_end_with_the_run [OF small_surroundings] by metis
qed

section \<open>Limits of the pairing\<close>

text \<open>
  The prompt to leave plan mode that is cancelled: the result the loop records carries no identifier,
  so the transcript the run returns holds a result that answers no call and a call without a result.
\<close>

theorem cancelled_plan_prompt_unpairs:
  assumes "PlanMode (env_options le)" "OnAskUser (env_options le) = Some ask"
    "ask [''The plan is ready. Leave plan mode and execute it?''] = Ask_Cancelled err"
    "call_Name call = ''exit_plan_mode''" "decodeCallArgs (env_options le) call = Inr as"
    "early_refusal (w_os (env_world le (rs_clock s))) (env_options le) ''exit_plan_mode''
       (env_registry le ''exit_plan_mode'') as = None"
    "call_ID call \<noteq> []" "awaits [call_ID call] s"
  shows "\<exists>e s'. run_calls le t [call] 0 [call] new_turn_batch s = (Inl e, s') \<and> snd e \<noteq> None
    \<and> \<not> paired [] (ar_Messages (fst e))"
proof -
  have x: "executeExitPlanMode (env_options le) (rs_engine s) = (call_done (refused [] None) (rs_engine s))\<lparr>co_abort := True\<rparr>"
    using assms(1-3) by (simp add: executeExitPlanMode_def)
  have "executeToolCall (env_world le (rs_clock s)) (env_registry le) (env_options le) call (env_mode le) (rs_engine s)
      = (call_done (refused [] None) (rs_engine s))\<lparr>co_abort := True\<rparr>"
    using assms(4-6) x by (simp add: executeToolCall_def Let_def [of "call_Name call"])
  then obtain o' s1 where e: "exec_call le call s = (o', s1)" "co_abort o'" "rs_messages s1 = rs_messages s"
    by (simp add: exec_call_def Let_def)
  have "extendParallelRun (env_registry le) [call] 0 (env_options le) < 2"
    by (simp add: extendParallelRun_def)
  then have r: "read_ahead le [call] 0 new_turn_batch s = (new_turn_batch, s)"
    by (simp add: read_ahead_def new_turn_batch_def Let_def)
  have c: "call_outcome_at le call 0 new_turn_batch s = (o', s1)"
    by (simp add: call_outcome_at_def new_turn_batch_def e)
  define res where "res = answer_text le s1 call o'"
  have m: "pending [] (rs_messages s @ [tool_message [] out]) = None" for out
    using assms(7,8) pending_append [of "[]" "rs_messages s" "[call_ID call]" "[tool_message [] out]"]
    by (simp add: awaits_def tool_message_def)
  show ?thesis
    using e m by (simp add: r c Let_def abort_error_def fails_with_def report_def record_result_def abandon_def
        appendAbortedToolResults_def reply_id_def assms(4) paired_pending)
qed

text \<open>
  A result without text for a call without an identifier is dropped from the transcript a run is resumed
  with, because it looks empty: the call it answered is left without a result.
\<close>

theorem empty_result_is_dropped:
  defines "history \<equiv> [user_message ''go'', (user_message [])\<lparr>msg_role := RoleAssistant,
      msg_calls := [\<lparr>call_ID = [], call_Name = ''bash'', call_Arguments = ''{}'', call_Signature = []\<rparr>]\<rparr>, tool_message [] []]"
  shows "paired [] history \<and> \<not> paired [] (seedRunMessages ''system'' ''next'' [] history)"
  by (simp add: history_def seedRunMessages_def system_message_def user_message_def tool_message_def emptySeedMessage_def)

end
