(* ===== verification/Provider_Properties.thy ===== *)
theory Provider_Properties
  imports Turn_Stream
begin

text \<open>
  What the run promises about a provider that fails: a request is retried a bounded number of times,
  with bounded delays and only after transient errors, and a history refused as too long is compacted
  once, into a smaller one that can be sent.
\<close>

section \<open>Reconnection\<close>

text \<open>The \<open>i\<close>-th request failed in a way that is retried.\<close>

definition retried :: "provider \<Rightarrow> Message list \<Rightarrow> nat \<Rightarrow> bool" where
  "retried p messages i = (case answer p i messages of
     Inl err \<Rightarrow> shouldReconnect (ctx_done p (Suc i)) err \<and> \<not> wait_done p (Suc i) | Inr _ \<Rightarrow> False)"

definition last_of_requests :: "provider \<Rightarrow> Message list \<Rightarrow> nat \<Rightarrow> nat \<Rightarrow> (string + received list) \<times> nat \<Rightarrow> bool" where
  "last_of_requests p messages m k r \<longleftrightarrow> m < snd r \<and> snd r \<le> Suc m + k \<and> fst r = answer p (snd r - 1) messages
     \<and> list_all (retried p messages) [m..<snd r - 1]
     \<and> (snd r = Suc m + k \<or> \<not> retried p messages (snd r - 1))"

lemma reconnect_loop_last:
  "answer p m messages = Inl err \<Longrightarrow> last_of_requests p messages m k (reconnect_loop p messages k err (Suc m))"
proof (induction k arbitrary: m err)
  case 0
  then show ?case by (simp add: last_of_requests_def)
next
  case (Suc k)
  show ?case
  proof (cases "retried p messages m")
    case False
    with Suc.prems have "\<not> shouldReconnect (ctx_done p (Suc m)) err \<or> wait_done p (Suc m)" by (simp add: retried_def)
    then have "reconnect_loop p messages (Suc k) err (Suc m) = (Inl err, Suc m)" by auto
    then show ?thesis using False Suc.prems by (simp add: last_of_requests_def)
  next
    case True
    then have go: "shouldReconnect (ctx_done p (Suc m)) err" "\<not> wait_done p (Suc m)" using Suc.prems by (simp_all add: retried_def)
    show ?thesis
    proof (cases "answer p (Suc m) messages")
      case (Inr stream)
      then have "reconnect_loop p messages (Suc k) err (Suc m) = (Inr stream, Suc (Suc m))" using go by simp
      then show ?thesis using Inr True by (simp add: last_of_requests_def retried_def)
    next
      case (Inl e)
      then have eq: "reconnect_loop p messages (Suc k) err (Suc m) = reconnect_loop p messages k e (Suc (Suc m))" using go by simp
      obtain r n where r: "reconnect_loop p messages k e (Suc (Suc m)) = (r, n)" by fastforce
      have i: "last_of_requests p messages (Suc m) k (r, n)" using Suc.IH [OF Inl] r by simp
      then have "[m..<n - 1] = m # [Suc m..<n - 1]" by (intro upt_conv_Cons) (auto simp: last_of_requests_def)
      then show ?thesis using i True unfolding eq r by (simp add: last_of_requests_def)
    qed
  qed
qed

text \<open>C39: A request is retried within bounds.  Connecting makes between one and sixteen requests; the result is the
  answer to the last one, every request before it failed with an error classed as transient while the run was not
  cancelled, and it stops before the sixteenth only with a stream or at an error it may not retry.  The delay before
  the attempt of a given number is 500 ms doubled each time up to 8 s, with a jitter of at most half of it.\<close>

theorem reconnection_bounded:
  "last_of_requests p messages n maxStreamReconnects (streamWithReconnect p messages n) \<and> maxStreamReconnects = 15
   \<and> backoffFor attempt = min (500 * 2 ^ (attempt - 1)) 8000
   \<and> backoffFor attempt \<le> jitteredBackoff jitter attempt \<and> 2 * jitteredBackoff jitter attempt \<le> 3 * backoffFor attempt"
proof -
  have "last_of_requests p messages n maxStreamReconnects (streamWithReconnect p messages n)"
  proof (cases "answer p n messages")
    case (Inl err)
    then show ?thesis using reconnect_loop_last [OF Inl] by (simp add: streamWithReconnect_def)
  next
    case (Inr stream)
    then show ?thesis by (simp add: streamWithReconnect_def last_of_requests_def retried_def)
  qed
  moreover have "backoffFor attempt = min (500 * 2 ^ (attempt - 1)) 8000"
    by (simp add: backoffFor_def doubled_delay_min streamReconnectBase_def streamReconnectMax_def)
  moreover have "2 * jitteredBackoff jitter attempt \<le> 3 * backoffFor attempt"
  proof -
    define h where "h = backoffFor attempt div 2"
    define j where "j = jitter mod (h + 1)"
    have "j < h + 1" unfolding j_def by (rule mod_less_divisor) simp
    moreover have "2 * h \<le> backoffFor attempt" by (simp add: h_def)
    moreover have "jitteredBackoff jitter attempt = backoffFor attempt + j" by (simp add: jitteredBackoff_def j_def h_def)
    ultimately show ?thesis by linarith
  qed
  ultimately show ?thesis by (simp add: jitteredBackoff_def maxStreamReconnects_def)
qed

section \<open>Recovery from a context limit\<close>

text \<open>C40: Recovery does not panic and happens at most once in a run.  From a paired transcript it either changes nothing
  and leaves the budget, or fails, or gives a transcript that is estimated strictly smaller and still paired; in the last
  two cases the budget was unspent before and is spent after, and it acts only on an error of the context limit.  It does
  recover: with the budget unspent, on such an error, a compaction that succeeds with a smaller transcript is what the
  run goes on with.\<close>

theorem recovery_is_sound:
  assumes "0 \<le> preserveLast state" "paired [] messages"
  shows "\<exists>r st task'. recover ce decode toolTokens messages err state task = Some (r, st, task')
    \<and> (case r of
         Not_Recovered \<Rightarrow> reactiveAttempted st = reactiveAttempted state
       | Recovery_Failed _ \<Rightarrow> \<not> reactiveAttempted state \<and> reactiveAttempted st \<and> isContextLimitError err
       | Recovered messages' \<Rightarrow> \<not> reactiveAttempted state \<and> reactiveAttempted st \<and> isContextLimitError err
           \<and> paired [] messages' \<and> estimateTokens messages' < estimateTokens messages)
    \<and> (\<forall>res. enabled state \<and> \<not> reactiveAttempted state \<and> isContextLimitError err
         \<and> CompactMessages messages (compact_options ce state (snd (observePlanParity decode messages task)) no_artifacts
             (tailTurns state)) = Some (Inr res)
         \<and> estimateTokens (Messages res) < estimateTokens messages \<longrightarrow> r = Recovered (Messages res))"
proof (rule recover_parts [OF assms, of ce decode toolTokens err task])
  fix r st task'
  assume r: "recover ce decode toolTokens messages err state task = Some (r, st, task')"
    and c: "case r of Not_Recovered \<Rightarrow> reactiveAttempted st = reactiveAttempted state
       | Recovery_Failed _ \<Rightarrow> \<not> reactiveAttempted state \<and> reactiveAttempted st
       | Recovered m \<Rightarrow> \<not> reactiveAttempted state \<and> reactiveAttempted st \<and> paired [] m
           \<and> estimateTokens m < estimateTokens messages"
  have n: "r = Not_Recovered" if "\<not> isContextLimitError err" using r that by (simp add: recover_def)
  have "r = Recovered (Messages res)"
    if "enabled state" "\<not> reactiveAttempted state" "isContextLimitError err"
      "CompactMessages messages (compact_options ce state (snd (observePlanParity decode messages task)) no_artifacts
         (tailTurns state)) = Some (Inr res)" "estimateTokens (Messages res) < estimateTokens messages" for res
    using r that by (simp add: recover_def compactForRecovery_def smaller_history_def finish_recovery_def Let_def)
  with n r c show ?thesis by (cases r) auto
qed

text \<open>A history of two turns, refused as too long, with a model that writes a usable summary.\<close>

definition long_history :: "Message list" where
  "long_history = [user_message (replicate 200 CHR ''a''), (user_message ''done'')\<lparr>msg_role := RoleAssistant\<rparr>,
     user_message ''and now?'']"

definition brief_summary :: string where
  "brief_summary = ''## Objective'' @ newline # ''- fix it'' @ newline # ''## Next Move'' @ newline # ''- docs''"

definition brief_model :: compaction_env where
  "brief_model = \<lparr>request_summary = (\<lambda>n messages. Inr brief_summary), judge_history = (\<lambda>messages pruned. None),
     attach_state = (\<lambda>task artifacts. artifacts)\<rparr>"

definition brief_history :: "Message list" where
  "brief_history = [user_message (summaryLabel @ newline # brief_summary),
     (user_message ''done'')\<lparr>msg_role := RoleAssistant\<rparr>, user_message ''and now?'']"

theorem recovery_is_sound_witness:
  "\<exists>st task'. recover brief_model (\<lambda>_. No_Todos) 0 long_history ''prompt is too long''
      (newCompactionState 100000 0 1 0) (newTaskState []) = Some (Recovered brief_history, st, task')
    \<and> reactiveAttempted st \<and> paired [] brief_history \<and> estimateTokens brief_history < estimateTokens long_history"
proof -
  have "0 \<le> preserveLast (newCompactionState 100000 0 1 0)" "paired [] long_history"
    by (simp_all add: newCompactionState_def Let_def long_history_def user_message_def)
  note sound = recovery_is_sound [OF this, of brief_model "\<lambda>_. No_Todos" 0 "''prompt is too long''" "newTaskState []"]
  have s: "map_option fst (recover brief_model (\<lambda>_. No_Todos) 0 long_history ''prompt is too long''
      (newCompactionState 100000 0 1 0) (newTaskState [])) = Some (Recovered brief_history)" by code_simp
  from sound show ?thesis
  proof (elim exE conjE)
    fix r st task'
    assume r: "recover brief_model (\<lambda>_. No_Todos) 0 long_history ''prompt is too long''
        (newCompactionState 100000 0 1 0) (newTaskState []) = Some (r, st, task')"
      and c: "case r of
         Not_Recovered \<Rightarrow> reactiveAttempted st = reactiveAttempted (newCompactionState 100000 0 1 0)
       | Recovery_Failed _ \<Rightarrow> \<not> reactiveAttempted (newCompactionState 100000 0 1 0) \<and> reactiveAttempted st \<and>
           isContextLimitError ''prompt is too long''
       | Recovered messages' \<Rightarrow> \<not> reactiveAttempted (newCompactionState 100000 0 1 0) \<and> reactiveAttempted st \<and>
           isContextLimitError ''prompt is too long'' \<and> paired [] messages' \<and>
           estimateTokens messages' < estimateTokens long_history"
    have "r = Recovered brief_history" using s unfolding r by simp
    then show ?thesis using c unfolding r by auto
  qed
qed

section \<open>A stalled stream\<close>

text \<open>
  A stalled stream is meant to be read again once (\<open>maxStreamStallRetries\<close>), within the silent budget of
  the turn.  The message of the idle timeout names a timeout, so it also counts as a transient error:
  the retries before any text, fifteen of them and without a budget, come first.
\<close>

definition idle_timeout :: string where
  "idle_timeout = ''provider stream error: idle timeout after 5m0s (upstream stopped sending data)''"

definition timed_out :: received where
  "timed_out = Received \<lparr>se_Type = StreamError, se_Content = [], se_ToolCallID = [], se_ToolName = [], se_Signature = [],
     se_Fragment = [], se_Usage = no_usage, se_Error = idle_timeout, se_FinishReason = [], se_ReasoningBlocks = []\<rparr>"

definition stalling :: provider where
  "stalling = \<lparr>answer = (\<lambda>n messages. Inr [timed_out]), ctx_done = (\<lambda>n. False), wait_done = (\<lambda>n. False)\<rparr>"

lemma idle_timeout_stalls: "isStreamTimeoutError idle_timeout" by code_simp
lemma idle_timeout_transient: "shouldReconnect False idle_timeout" by code_simp
lemma idle_timeout_no_image: "\<not> isImageRejectionError idle_timeout" by code_simp
lemma idle_timeout_no_limit: "\<not> isContextLimitError idle_timeout" by code_simp

lemmas idle_timeout_classes = idle_timeout_stalls idle_timeout_transient idle_timeout_no_image idle_timeout_no_limit

lemma idle_timeout_some: "idle_timeout \<noteq> []"
  by (simp add: idle_timeout_def)

lemma collect_timed_out: "collect_stream le [timed_out] False = (no_stream\<lparr>Error := idle_timeout\<rparr>, False)"
proof -
  have "cl_result (CollectStreamWithOptions [timed_out]) = no_stream\<lparr>Error := idle_timeout\<rparr>"
    "cl_forwarded (CollectStreamWithOptions [timed_out]) = 0"
    by code_simp+
  then show ?thesis by (simp add: collect_stream_def)
qed

lemma recover_timed_out: "recoverStreamError le (no_stream\<lparr>Error := idle_timeout\<rparr>) s = Some (Inr (no_stream\<lparr>Error := idle_timeout\<rparr>), s)"
proof -
  have "recover ce decode tokens ms idle_timeout st task = Some (Not_Recovered, st, task)" for ce decode tokens ms st task
    by (simp add: recover_def idle_timeout_classes)
  then show ?thesis by (simp add: recoverStreamError_def try_recover_def idle_timeout_classes)
qed

theorem idle_timeout_outlives_the_stall_bound:
  assumes "env_provider le = stalling"
  shows "isStreamTimeoutError idle_timeout \<and> maxStreamStallRetries = 1 \<and>
    precontent_loop le maxStreamReconnects (collect_stream le [timed_out] False) s
      = Some (Inr (collect_stream le [timed_out] False), s\<lparr>rs_clock := rs_clock s + 15\<rparr>)"
proof -
  have "precontent_loop le k (collect_stream le [timed_out] False) s
      = Some (Inr (collect_stream le [timed_out] False), s\<lparr>rs_clock := rs_clock s + k\<rparr>)" for k
  proof (induction k arbitrary: s)
    case (Suc k)
    have "connect le s = (Inr [timed_out], s\<lparr>rs_clock := Suc (rs_clock s)\<rparr>)"
      by (simp add: connect_def assms stalling_def streamWithReconnect_def)
    moreover have "recover_collected le (no_stream\<lparr>Error := idle_timeout\<rparr>, False) u
        = Some (Inr (no_stream\<lparr>Error := idle_timeout\<rparr>, False), u)" for u
      by (simp add: recover_collected_def recover_timed_out and_then_def assms stalling_def idle_timeout_some)
    moreover have "trim_space (Text (no_stream\<lparr>Error := idle_timeout\<rparr>)) = []" by code_simp
    ultimately show ?case using Suc.IH [of "s\<lparr>rs_clock := Suc (rs_clock s)\<rparr>"]
      by (simp add: collect_timed_out shouldRetryPreContentStreamError_def idle_timeout_classes assms stalling_def and_then_def)
  qed simp
  then show ?thesis by (simp add: idle_timeout_classes maxStreamStallRetries_def maxStreamReconnects_def)
qed

end
