(* ===== verification/Loop_Properties.thy ===== *)
theory Loop_Properties
  imports Stream_Collect Parallel_Tools Run_Policies
begin

text \<open>
  What the parts of the agent loop promise: the turn read from a stream, the tool calls that run
  together, and the policies that decide when a run may end.
\<close>

section \<open>Streams\<close>

text \<open>C38: A stream in which no call has an empty identifier gives, of the events read before it stops, the text of
  the deltas in order; one call per identifier, in the order of first mention, with the first name and signature it
  was given and its argument fragments joined however they were interleaved, the nameless ones counted as dropped; the
  last finish reason, all reasoning blocks, the merged usage, and the error of the stream or of the context; it is
  degenerate exactly when one of its two texts repeats itself.\<close>

theorem stream_is_reassembled:
  assumes "\<forall>ev \<in> set (read_until [] rs).
      se_Type ev \<in> {StreamToolCallStart, StreamToolCallDelta, StreamToolCallEnd} \<longrightarrow> se_ToolCallID ev \<noteq> []"
  defines "evs \<equiv> read_until [] rs" and "out \<equiv> cl_result (CollectStreamWithOptions rs)"
  shows "Text out = deltas_of StreamText evs
    \<and> ToolCalls out = filter (\<lambda>call. call_Name call \<noteq> []) (calls_of evs)
    \<and> DroppedToolCalls out = length (filter (\<lambda>ev. se_Type ev = StreamToolCallDropped) evs)
        + length (filter (\<lambda>call. call_Name call = []) (calls_of evs))
    \<and> FinishReason out = first_text (rev (map se_FinishReason evs))
    \<and> ReasoningBlocks out = concat (map se_ReasoningBlocks evs)
    \<and> TokenUsage out = fold (\<lambda>ev u. mergeUsageSnapshot u (se_Usage ev)) (filter (\<lambda>ev. se_Type ev = StreamUsage) evs) no_usage
    \<and> (Degenerate out \<longleftrightarrow> degenerate evs)
    \<and> Error out = (case context_error [] rs of Some err \<Rightarrow> err
        | None \<Rightarrow> if evs \<noteq> [] \<and> se_Type (last evs) = StreamError then se_Error (last evs) else [])"
proof -
  let ?s = "with_context (context_error [] rs) (after_events evs)"
  have out: "out = cl_result (flush_calls ?s)" unfolding out_def evs_def CollectStream_until ..
  have "collects evs (cl_collector ?s)"
    using after_events_collects assms(1) unfolding evs_def collects_with_context by blast
  note calls = flush_collected [OF this]
  show ?thesis unfolding out calls flush_fields with_context_fields collects_with_context after_events_fields
    using after_read_degenerate [of rs] after_read_error [of rs]
    by (simp add: evs_def new_collecting_def no_stream_def split: option.split)
qed

definition event :: "StreamEventType \<Rightarrow> StreamEvent" where
  "event ty = \<lparr>se_Type = ty, se_Content = [], se_ToolCallID = [], se_ToolName = [], se_Signature = [], se_Fragment = [],
     se_Usage = no_usage, se_Error = [], se_FinishReason = [], se_ReasoningBlocks = []\<rparr>"

definition opens :: "string \<Rightarrow> string \<Rightarrow> received" where
  "opens id' name = Received ((event StreamToolCallStart)\<lparr>se_ToolCallID := id', se_ToolName := name\<rparr>)"

definition gives :: "string \<Rightarrow> string \<Rightarrow> received" where
  "gives id' fragment = Received ((event StreamToolCallDelta)\<lparr>se_ToolCallID := id', se_Fragment := fragment\<rparr>)"

definition demo_stream :: "received list" where
  "demo_stream = [Received ((event StreamText)\<lparr>se_Content := ''Reading''\<rparr>), opens ''a'' ''grep'', opens ''b'' ''glob'',
     gives ''b'' ''{\"p'', gives ''a'' ''{\"q\"'', gives ''b'' ''\":1}'', opens ''c'' [], gives ''a'' '':2}'',
     Received (event StreamDone), opens ''d'' ''late'']"

theorem stream_is_reassembled_witness:
  "Text (cl_result (CollectStreamWithOptions demo_stream)) = ''Reading''
   \<and> ToolCalls (cl_result (CollectStreamWithOptions demo_stream)) =
       [\<lparr>call_ID = ''a'', call_Name = ''grep'', call_Arguments = ''{\"q\":2}'', call_Signature = []\<rparr>,
        \<lparr>call_ID = ''b'', call_Name = ''glob'', call_Arguments = ''{\"p\":1}'', call_Signature = []\<rparr>]
   \<and> DroppedToolCalls (cl_result (CollectStreamWithOptions demo_stream)) = 1"
proof -
  have "\<forall>ev \<in> set (read_until [] demo_stream).
      se_Type ev \<in> {StreamToolCallStart, StreamToolCallDelta, StreamToolCallEnd} \<longrightarrow> se_ToolCallID ev \<noteq> []"
    by code_simp
  note facts = stream_is_reassembled [OF this]
  have "deltas_of StreamText (read_until [] demo_stream) = ''Reading''"
    "filter (\<lambda>call. call_Name call \<noteq> []) (calls_of (read_until [] demo_stream)) =
       [\<lparr>call_ID = ''a'', call_Name = ''grep'', call_Arguments = ''{\"q\":2}'', call_Signature = []\<rparr>,
        \<lparr>call_ID = ''b'', call_Name = ''glob'', call_Arguments = ''{\"p\":1}'', call_Signature = []\<rparr>]"
    "length (filter (\<lambda>ev. se_Type ev = StreamToolCallDropped) (read_until [] demo_stream))
        + length (filter (\<lambda>call. call_Name call = []) (calls_of (read_until [] demo_stream))) = 1"
    by code_simp+
  with facts show ?thesis by simp
qed

section \<open>Calls that run together\<close>

text \<open>The calls that run together from an index on are the longest run of calls of which each only reads, may run
  beside others and needs no permission, and no two touch the same resource; a call that is not such runs alone.\<close>

theorem parallel_window_is_longest:
  "(let e = extendParallelRun registry calls start opts;
        starts = start < length calls \<and> parallelSafeToolCall registry opts (calls ! start)
    in if starts
       then start < e \<and> e \<le> length calls \<and> window registry opts (take (e - start) (drop start calls)) \<and>
         (if e < length calls then \<not> window registry opts (take (Suc (e - start)) (drop start calls)) else True)
       else e = start)"
  using extendParallelRun_window [of start calls registry opts] extendParallelRun_alone [of start calls registry opts]
  by (simp add: Let_def)

text \<open>C37: However the goroutines of a batch of \<open>n\<close> calls interleave, at most eight calls and at most four sub-agents
  hold slots, the batch is never stuck as long as every call that runs can end, it takes at most \<open>3 * n\<close> steps, and
  when all are done each call has one result, at its own index, that it yielded.\<close>

theorem parallel_batch_ends:
  assumes "\<forall>i < n. \<exists>r. yields i r" "(batch_step task yields ^^ k) (new_batch n) b"
  shows "k \<le> 3 * n \<and> semaphore b \<le> 8 \<and> taskSemaphore b \<le> 4
    \<and> card {i. i < n \<and> phases b ! i \<in> {Slotted, Executing}} = semaphore b
    \<and> card {i. i < n \<and> task i \<and> phases b ! i = Executing} = taskSemaphore b
    \<and> (if batch_done b
       then \<exists>rs. results b = List.map Some rs \<and> length rs = n \<and> (\<forall>i < n. yields i (rs ! i))
       else \<exists>b'. batch_step task yields b b')"
proof -
  have inv: "batch_inv task yields n b" using assms(2) by (intro batch_reachable_inv) (rule relpowp_imp_rtranclp)
  have "batch_work b + k \<le> 3 * n" using batch_steps_work [OF assms(2)] by (simp add: new_batch_work)
  moreover have "card {i. i < n \<and> phases b ! i \<in> {Slotted, Executing}} = semaphore b"
    "card {i. i < n \<and> task i \<and> phases b ! i = Executing} = taskSemaphore b" "semaphore b \<le> 8" "taskSemaphore b \<le> 4"
    using inv by (auto simp: batch_inv_def count_phase_def holds_slot_def holds_task_slot_def
      maxParallelReadTools_def maxParallelTaskTools_def)
  ultimately show ?thesis using batch_progress [OF inv assms(1)] batch_done_results [OF inv] by auto
qed

definition demo_batch :: "nat batch" where
  "demo_batch = \<lparr>phases = [Executing, Slotted], semaphore = 2, taskSemaphore = 0, results = [None, None]\<rparr>"

theorem parallel_batch_ends_witness:
  "(batch_step (\<lambda>i. i = 1) (\<lambda>i r. r = i) ^^ 2) (new_batch 2) demo_batch \<and> semaphore demo_batch \<le> 8 \<and>
   (\<exists>b'. batch_step (\<lambda>i. i = 1) (\<lambda>i r. r = i) demo_batch b')"
proof -
  let ?step = "batch_step (\<lambda>i. i = (1::nat)) (\<lambda>i r. r = i)"
  define b1 :: "nat batch" where "b1 = \<lparr>phases = [Executing, Queued], semaphore = 1, taskSemaphore = 0, results = [None, None]\<rparr>"
  have "?step (new_batch 2) b1"
    using batch_step.take_slot [of 0 "new_batch 2 :: nat batch" "\<lambda>i. i = 1" "\<lambda>i r. r = i"]
    by (simp add: new_batch_def b1_def maxParallelReadTools_def numeral_2_eq_2)
  moreover have "?step b1 demo_batch"
    using batch_step.take_slot [of 1 b1 "\<lambda>i. i = 1" "\<lambda>i r. r = i"]
    by (simp add: b1_def demo_batch_def maxParallelReadTools_def numeral_2_eq_2)
  ultimately have run: "(?step ^^ 2) (new_batch 2) demo_batch" by (auto simp: numeral_2_eq_2)
  have "\<forall>i < (2::nat). \<exists>r. r = i" by simp
  from parallel_batch_ends [OF this run] have "semaphore demo_batch \<le> 8 \<and>
     (if batch_done demo_batch then \<exists>rs. results demo_batch = List.map Some rs \<and> length rs = 2 \<and> (\<forall>i < 2. rs ! i = i)
      else \<exists>b'. ?step demo_batch b')" by blast
  moreover have "\<not> batch_done demo_batch" by (simp add: batch_done_def demo_batch_def)
  ultimately show ?thesis using run by simp
qed

section \<open>The record of a run\<close>

text \<open>The task record is a projection of the events of a run: whatever their order and however often plans are
  replaced, it counts the events that count, the results by their status and the verifications by their outcome, holds
  the changed files once each in order, and the last plan that parsed with the numbers of its items by status.\<close>

theorem task_record_projects:
  "(let s = run_events decode evs (newTaskState objective)
    in projects decode evs s \<and>
       counts_of (case last_plan decode evs of None \<Rightarrow> [] | Some plan \<Rightarrow> plan) (task_Plan s))"
proof -
  define s where "s = run_events decode evs (newTaskState objective)"
  have p: "projects decode evs s" unfolding s_def by (rule run_events_projects)
  then have "task_Plan s = (case last_plan decode evs of None \<Rightarrow> empty_plan | Some plan \<Rightarrow> summarizeTaskPlan plan)"
    by (simp add: projects_def)
  then have "counts_of (case last_plan decode evs of None \<Rightarrow> [] | Some plan \<Rightarrow> plan) (task_Plan s)"
    by (cases "last_plan decode evs") (simp add: counts_of_def empty_plan_def, simp add: summarizeTaskPlan_counts)
  with p show ?thesis by (simp add: Let_def s_def)
qed

end
