(* ===== verification/Sandbox_Properties.thy ===== *)
theory Sandbox_Properties
  imports Demo_Host
begin

text \<open>
  The properties of the policy engine's decisions: what it allows without asking, what it denies
  whatever was granted, which requests need an approval, and that approvals take effect.
\<close>

section \<open>Decisions of the engine\<close>




text \<open>C2: A path inside a \<open>DenyRead\<close> directory cannot be read: whatever links the kernel follows to get
  there, an enforcing engine denies the request, with no grant or approval helping.  \<open>AllowRead\<close>
  entries nested in the denied directory re-include only what lies under them: the path is denied
  unless it is inside one of them, given that no symbolic link leads out of those entries.\<close>

theorem denied_read_is_denied:
  assumes wf: "wf_fs (files (w_os w))" and ws: "is_abs (WorkspaceRoot (the_request e raw))"
    and en: "enforcing e raw" and rd: "NormalizeSideEffect (raw_side_effect raw) = SideEffectRead"
    and p: "p \<in> set (requestPaths (the_request e raw))"
    and entry: "entry \<in> set (DenyRead (the_policy e raw))" "resolvePolicyPath (w_os w) entry = Some dir"
    and res: "walk (files (w_os w)) kernel_links []
        (comps (policy_target (WorkspaceRoot (the_request e raw)) p)) = Inr d"
    and inside: "has_prefix d (comps dir)"
    and allow: "\<forall>r \<in> set (resolvePolicyPaths (w_os w) (AllowRead (the_policy e raw))). path_within_root dir r \<longrightarrow>
        \<not> has_prefix d (comps r) \<and> (\<forall>s t. files (w_os w) (comps r @ s) \<noteq> Some (Link t))"
  shows "dec_action (Evaluate w None (Some e) raw) = ActionDeny"
proof -
  have "readDenied (w_os w) (the_policy e raw) (WorkspaceRoot (the_request e raw)) p"
    by (rule readDenied_complete [OF wf ws entry res inside allow])
  moreover have "WorkspaceRoot (the_request e raw) \<noteq> []" using ws by (auto simp: is_abs_def)
  ultimately show ?thesis
    using rd by (intro hard_block_denies [OF en p, where b = "denied_block p
          (p @ '' is excluded by the sandbox DenyRead policy'')"])
      (simp_all add: validatePathWithPolicy_def denied_block_def)
qed

text \<open>The key is reached through a link of the workspace, beside a directory that is re-included.\<close>

theorem denied_read_is_denied_witness:
  "dec_action (Evaluate shared_world None (Some shared_engine) demo_read) = ActionDeny \<and>
   resolvePolicyPaths (w_os shared_world) (AllowRead (the_policy shared_engine demo_read)) = [''/secret/pub'']"
proof
  show a: "resolvePolicyPaths (w_os shared_world) (AllowRead (the_policy shared_engine demo_read)) = [''/secret/pub'']"
    by code_simp
  have c: "comps ''/secret/pub'' = [''secret'', ''pub'']" by code_simp
  have n: "\<not> has_prefix [''secret'', ''key''] [''secret'', ''pub'']" by code_simp
  have l: "\<forall>r \<in> set (resolvePolicyPaths (w_os shared_world) (AllowRead (the_policy shared_engine demo_read))).
      path_within_root ''/secret'' r \<longrightarrow> \<not> has_prefix [''secret'', ''key''] (comps r) \<and>
        (\<forall>s t. files (w_os shared_world) (comps r @ s) \<noteq> Some (Link t))"
    unfolding a using c n shared_link_free by simp
  show "dec_action (Evaluate shared_world None (Some shared_engine) demo_read) = ActionDeny"
    by (rule denied_read_is_denied [OF shared_wf, where p = "''out/key''" and entry = "''/secret''"
          and dir = "''/secret''" and d = "[''secret'', ''key'']", OF _ _ _ _ _ _ _ _ l]; code_simp)
qed

text \<open>Likewise a path inside a \<open>DenyWrite\<close> entry cannot be written, not even where a grant, an
  added root or \<open>AllowWrite\<close> would allow it.\<close>

theorem denied_write_is_denied:
  assumes wf: "wf_fs (files (w_os w))" and ws: "is_abs (WorkspaceRoot (the_request e raw))"
    and en: "enforcing e raw"
    and wr: "NormalizeSideEffect (raw_side_effect raw) \<in> {SideEffectWrite, SideEffectOutOfWorkspace}"
    and p: "p \<in> set (requestPaths (the_request e raw))"
    and entry: "entry \<in> set (DenyWrite (the_policy e raw))" "resolvePolicyPath (w_os w) entry = Some dir"
    and res: "walk (files (w_os w)) kernel_links []
        (comps (policy_target (WorkspaceRoot (the_request e raw)) p)) = Inr d"
    and inside: "has_prefix d (comps dir)"
  shows "dec_action (Evaluate w None (Some e) raw) = ActionDeny"
proof -
  have "WorkspaceRoot (the_request e raw) \<noteq> []" using ws by (auto simp: is_abs_def)
  then show ?thesis
    using wr validateWritePath_denied [OF wf ws entry res inside]
    by (intro hard_block_denies [OF en p, where b = "denied_block p
          (p @ '' is excluded by the sandbox DenyWrite policy'')"])
      (auto simp: validatePathWithPolicy_def denied_block_def)
qed

theorem denied_write_is_denied_witness:
  "dec_action (Evaluate demo_world None (Some (demo_engine None))
     (demo_request ''write_file'' ''write'' [(''path'', ''src/a.txt'')])) = ActionDeny"
  by (rule denied_write_is_denied [OF demo_wf, where p = "''src/a.txt''" and entry = "''/w/src/a.txt''"
        and dir = "''/w/src/a.txt''" and d = "[''w'', ''src'', ''a.txt'']"]; code_simp)

text \<open>C3: A persistent deny grant that covers the request is final: while the sandbox enforces, no
  other grant of the store or the session and no approval turns it into anything but a deny.\<close>

theorem persistent_deny_is_final:
  assumes "enforcing e raw" "eng_store e = Some fl" "readState (w_redact w) fl = Inr st"
    and "ValidateToolName (raw_tool_name raw) = None"
    and "g \<in> set (bucket_of (Grants st) (trim_space (raw_tool_name raw)))" "grant_decision g = GrantDeny"
    and "grantCovers g (request_scope (w_os w) (the_request e raw))"
  shows "dec_action (Evaluate w None (Some e) raw) = ActionDeny"
proof -
  obtain h where h: "lookupGrantBucket (bucket_of (Grants st) (trim_space (raw_tool_name raw)))
      (request_scope (w_os w) (the_request e raw)) = Some h" "grant_decision h = GrantDeny"
    using lookup_bucket_deny assms(5,6,7) by blast
  then have "store_match w e (raw_tool_name raw) (request_scope (w_os w) (the_request e raw)) = Some h"
    using assms(2,3,4) by (simp add: store_match_def GrantStore_Lookup_def)
  then show ?thesis
    using assms(1) h(2) by (simp add: Evaluate_engine evaluate_enforced_def Let_def)
qed

definition demo_deny :: RawGrant where
  "demo_deny = \<lparr>rg_tool = ''bash'', rg_scope = [], rg_kind = [], rg_decision = ''deny'',
     rg_approvedAt = ''2026-01-01T00:00:00Z'', rg_reason = [], rg_session = False\<rparr>"

definition demo_denied :: Grant where
  "demo_denied = \<lparr>grant_tool = ''bash'', Scope = [], grant_kind = ScopeToolWide, grant_decision = GrantDeny,
     ApprovedAt = ''2026-01-01T00:00:00Z'', grant_reason = [], Session = False\<rparr>"

theorem persistent_deny_is_final_witness:
  "dec_action (Evaluate demo_world None (Some (demo_engine (Some (Version2 [(''bash'', [demo_deny])] []))))
     (demo_request ''bash'' ''shell'' [(''command'', ''ls'')])) = ActionDeny"
  by (rule persistent_deny_is_final [where fl = "Version2 [(''bash'', [demo_deny])] []" and g = demo_denied
        and st = "\<lparr>Grants = [(''bash'', [demo_denied])], CommandPrefixes = []\<rparr>"]; code_simp)

text \<open>C4: A destructive shell command runs only with an approval of that very request: when an enforcing
  engine allows a shell request that was not granted, neither the patterns nor any program the
  parsed command runs, through wrappers and nested \<open>sh -c\<close> payloads, is destructive.\<close>

theorem destructive_needs_approval:
  assumes "dec_action (Evaluate w None (Some e) raw) = ActionAllow" "enforcing e raw"
    and "NormalizeSideEffect (raw_side_effect raw) = SideEffectShell" "\<not> raw_permission_granted raw"
    and "request_command (the_request e raw) \<noteq> []"
  shows "\<not> matchesDestructive (request_command (the_request e raw)) \<and>
    (\<nexists>prog rest. runs (w_parse w) maxAnalyzerDepth (request_command (the_request e raw)) prog rest \<and>
       call_destructive prog rest)"
proof -
  have "\<not> HasRiskCategory (the_risk w e raw) ''destructive''"
    using Evaluate_allow_gates(2) [OF assms(1,2)] assms(3,4) by (simp add: destructive_gate_def split: if_splits)
  then show ?thesis unfolding the_risk_def destructive_iff using assms(5) by blast
qed

abbreviation demo_ls :: RawRequest where
  "demo_ls \<equiv> demo_request ''bash'' ''shell'' [(''command'', ''ls -l'')]"

theorem destructive_needs_approval_witness:
  "\<not> matchesDestructive (request_command (the_request (demo_engine None) demo_ls)) \<and>
    (\<nexists>prog rest. runs (w_parse demo_world) maxAnalyzerDepth
        (request_command (the_request (demo_engine None) demo_ls)) prog rest \<and> call_destructive prog rest)"
  by (rule destructive_needs_approval [of demo_world]; code_simp)

text \<open>C5: Under a network-denying policy no shell command that reaches the network is allowed, approved or
  not: none of the programs it runs uses the network, and an unparseable command does not look as
  if it did.\<close>

theorem network_stays_denied:
  assumes "dec_action (Evaluate w None (Some e) raw) = ActionAllow" "enforcing e raw"
    and "NormalizeNetworkMode (pol_network (the_policy e raw)) = NetworkDeny"
    and "NormalizeSideEffect (raw_side_effect raw) = SideEffectShell"
    and "request_command (the_request e raw) \<noteq> []"
  shows "(\<nexists>prog rest. runs (w_parse w) maxAnalyzerDepth (request_command (the_request e raw)) prog rest \<and>
       commandUsesNetwork prog rest) \<and>
    \<not> (fails (w_parse w) maxAnalyzerDepth (request_command (the_request e raw)) \<and>
       matchesUnparseableNetwork (request_command (the_request e raw)))"
proof -
  have "\<not> HasRiskCategory (the_risk w e raw) ''network''"
    using Evaluate_allow_gates(1) [OF assms(1,2)] assms(3,4)
    by (simp add: network_gate_def effectiveNetworkMode_def toolNetworkExempt_def split: if_splits)
  then show ?thesis unfolding the_risk_def network_iff using assms(5) by blast
qed

theorem network_stays_denied_witness:
  "(\<nexists>prog rest. runs (w_parse demo_world) maxAnalyzerDepth
        (request_command (the_request (demo_engine None) demo_ls)) prog rest \<and> commandUsesNetwork prog rest) \<and>
    \<not> (fails (w_parse demo_world) maxAnalyzerDepth (request_command (the_request (demo_engine None) demo_ls)) \<and>
       matchesUnparseableNetwork (request_command (the_request (demo_engine None) demo_ls)))"
  by (rule network_stays_denied [of demo_world]; code_simp)

text \<open>C6: An enforcing engine (one that is neither disabled nor asked to bypass everything) allows a shell
  request that asks for the escalated sandbox only when the request carries the approval flag
  \<open>PermissionGranted\<close>: no grant of the store or the session and no permission mode replaces the
  flag.  Who may set the flag is the gate's business: it does so after the user agreed, and by
  itself in unsafe mode.\<close>

theorem escalation_needs_approval:
  assumes "dec_action (Evaluate w None (Some e) raw) = ActionAllow" "enforcing e raw"
    and "NormalizeSideEffect (raw_side_effect raw) = SideEffectShell"
    and "requestRequiresEscalatedSandbox (the_request e raw)"
  shows "raw_permission_granted raw"
  using Evaluate_allow_gates(3) [OF assms(1,2)] assms(3,4) by (simp add: escalation_gate_def split: if_splits)

abbreviation demo_escalated :: RawRequest where
  "demo_escalated \<equiv> (demo_request ''bash'' ''shell''
     [(''command'', ''ls''), (''sandbox_permissions'', ''require_escalated'')])\<lparr>raw_permission_granted := True\<rparr>"

theorem escalation_needs_approval_witness: "raw_permission_granted demo_escalated"
  by (rule escalation_needs_approval [of demo_world "demo_engine None"]; code_simp)

text \<open>In unsafe mode the engine never asks: it allows or denies.\<close>

theorem unsafe_never_prompts:
  assumes "NormalizePermissionMode (raw_permission_mode raw) = PermissionUnsafe"
  shows "dec_action (Evaluate w cancelled engine raw) \<noteq> ActionPrompt"
proof (cases engine)
  case None
  then show ?thesis by (cases cancelled) (simp_all add: Evaluate_def Let_def)
next
  case (Some e)
  have loop: "path_loop (the_request e raw) v paths None = Inr (Some b) \<Longrightarrow> False" for v paths b
    using assms by (induction paths) (auto simp: promptablePathBlock_def split: option.splits if_splits)
  have "dec_action (evaluate_paths w e p s (the_request e raw) r pa sa) \<noteq> ActionPrompt" for p s r pa sa
    using assms loop
    by (auto simp: evaluate_paths_def final_decision_def network_gate_def destructive_gate_def
        escalation_gate_def split: option.splits sum.splits)
  then have "dec_action (Evaluate w None (Some e) raw) \<noteq> ActionPrompt"
    by (simp add: Evaluate_engine evaluate_enforced_def Let_def split: option.split)
  then show ?thesis using Some by (cases cancelled) (simp_all add: Evaluate_def Let_def)
qed

theorem unsafe_never_prompts_witness:
  "dec_action (Evaluate demo_world None (Some (demo_engine None)) (demo_ls\<lparr>raw_permission_mode := '' UNSAFE ''\<rparr>))
     \<noteq> ActionPrompt"
  by (rule unsafe_never_prompts; code_simp)

lemma Evaluate_prompt_paths:
  assumes "dec_action (Evaluate w None (Some e) raw) = ActionPrompt"
  obtains pa sa where "Evaluate w None (Some e) raw =
    evaluate_paths w e (the_policy e raw) (the_scope w e raw) (the_request e raw) (the_risk w e raw) pa sa"
  using assms
  by (auto simp: Evaluate_engine evaluate_enforced_def Let_def split: if_splits option.splits)

text \<open>An approval takes effect: once the user granted the request, an enforcing engine asks again only
  about a path outside the workspace or about network access.\<close>

theorem approval_is_effective:
  assumes "dec_action (Evaluate w None (Some e) raw) = ActionPrompt" "raw_permission_granted raw"
  shows "dec_reason (Evaluate w None (Some e) raw) = ReasonNetworkBlocked \<or>
    (\<exists>b. dec_block (Evaluate w None (Some e) raw) = Some b \<and> Code b = BlockOutsideWorkspace)"
proof -
  have inr: "path_loop q v paths pb = Inr (Some b) \<Longrightarrow> (\<forall>c. pb = Some c \<longrightarrow> pb_code c = BlockOutsideWorkspace) \<Longrightarrow>
      pb_code b = BlockOutsideWorkspace" for q v paths pb b
    by (induction paths arbitrary: pb) (auto simp: promptablePathBlock_def split: option.splits if_splits)
  have paths: "dec_action (evaluate_paths w e p s (the_request e raw) r pa sa) = ActionPrompt \<Longrightarrow>
      dec_reason (evaluate_paths w e p s (the_request e raw) r pa sa) = ReasonNetworkBlocked \<or>
      (\<exists>b. dec_block (evaluate_paths w e p s (the_request e raw) r pa sa) = Some b \<and>
         Code b = BlockOutsideWorkspace)" for p s r pa sa
    using assms(2) inr [of "the_request e raw" _ _ None]
    by (auto simp: evaluate_paths_def final_decision_def network_gate_def destructive_gate_def
        escalation_gate_def plain_decision_def promptPathBlock_def auto_allowed_def grant_decision_allow_def
        deny_def split: option.splits sum.splits if_splits)
  obtain pa sa where "Evaluate w None (Some e) raw =
      evaluate_paths w e (the_policy e raw) (the_scope w e raw) (the_request e raw) (the_risk w e raw) pa sa"
    using assms(1) by (rule Evaluate_prompt_paths)
  then show ?thesis using assms(1) paths by metis
qed

theorem approval_is_effective_witness:
  "dec_reason (Evaluate demo_world None (Some (demo_engine None))
       ((demo_request ''bash'' ''shell'' [(''command'', ''curl x'')])\<lparr>raw_permission_granted := True\<rparr>))
       = ReasonNetworkBlocked \<or>
   (\<exists>b. dec_block (Evaluate demo_world None (Some (demo_engine None))
       ((demo_request ''bash'' ''shell'' [(''command'', ''curl x'')])\<lparr>raw_permission_granted := True\<rparr>)) = Some b \<and>
      Code b = BlockOutsideWorkspace)"
  by (rule approval_is_effective; code_simp)

text \<open>A session approval takes effect at once: after it is recorded, a request it covers is allowed
  unless the request is denied as such, a persistent deny governs it, or one of the hard gates
  (patch paths, hard path blocks, network, destruction, escalation) decides.\<close>

theorem session_grant_is_effective:
  assumes grant: "Engine_GrantForSession w input (Some e) = (Inr g, Some e')"
    and tool: "grant_tool g = trim_space (raw_tool_name raw)"
    and cov: "grantCovers g (request_scope (w_os w) (the_request e raw))"
    and perm: "NormalizePermission (raw_permission raw) \<noteq> PermissionDeny"
    and store: "\<forall>h \<in> set_option (store_match w e (raw_tool_name raw) (request_scope (w_os w) (the_request e raw))).
        grant_decision h \<noteq> GrantDeny"
    and gates: "applyPatchPathBlock (the_request e raw) = None"
      "network_gate (the_policy e raw) (the_request e raw) (the_risk w e raw) = None"
      "destructive_gate (the_request e raw) (the_risk w e raw) = None"
      "escalation_gate (the_request e raw) (the_risk w e raw) = None"
      "\<not> isl (path_loop (the_request e raw) (validatePathWithPolicy (w_os w) (the_scope w e raw) (the_policy e raw)
          (req_side_effect (the_request e raw)) (request_enforces_workspace (the_policy e raw) (the_request e raw))
          (WorkspaceRoot (the_request e raw))) (requestPaths (the_request e raw)) None)"
  shows "dec_action (Evaluate w None (Some e') raw) = ActionAllow"
proof -
  have e': "e' = e\<lparr>eng_sessionGrants := memoryGrantSet_add (eng_sessionGrants e) g\<rparr>"
    using grant by (auto simp: Engine_GrantForSession_def Let_def split: sum.splits)
  have sf: "scopeFor os e' r = scopeFor os e r" for os r
    by (cases "eng_scope e") (simp_all add: scopeFor_def e')
  have same: "the_request e' raw = the_request e raw" "the_policy e' raw = the_policy e raw"
    "the_scope w e' raw = the_scope w e raw" "the_risk w e' raw = the_risk w e raw"
    "enforcing e' raw = enforcing e raw"
    by (simp_all add: the_defs enforcing_def request_policy_def effectivePolicy_def sf) (simp_all add: e')
  let ?q = "request_scope (w_os w) (the_request e raw)"
  have "session_book.look (eng_sessionGrants e') (grant_tool g) ?q \<noteq> None"
    unfolding e' using session_book.put_visible [OF cov, of "eng_sessionGrants e"] by simp
  then obtain h where h: "lookupSessionGrant e' (raw_tool_name raw) ?q = Some h"
    by (auto simp: session_book.look_def lookupSessionGrant_def memoryGrantSet_lookup_def tool)
  have st: "store_match w e' t q = store_match w e t q" for t q by (simp add: e' store_match_def)
  obtain pb where pb: "path_loop (the_request e raw) (validatePathWithPolicy (w_os w) (the_scope w e raw)
      (the_policy e raw) (req_side_effect (the_request e raw))
      (request_enforces_workspace (the_policy e raw) (the_request e raw)) (WorkspaceRoot (the_request e raw)))
      (requestPaths (the_request e raw)) None = Inr pb"
    using gates(5) by (auto simp: isl_def split: sum.splits) (metis sum.exhaust)
  have "dec_action (evaluate_paths w e' (the_policy e raw) (the_scope w e raw) (the_request e raw)
      (the_risk w e raw) pa (Some h)) = ActionAllow" for pa
    using gates(1-4) pb by (cases pa) (simp_all add: evaluate_paths_def final_decision_def)
  then show ?thesis
    using perm store h by (auto simp: Evaluate_engine same evaluate_enforced_def Let_def st split: option.splits)
qed

definition demo_session_input :: GrantInput where
  "demo_session_input = \<lparr>gi_tool = ''read_file'', gi_decision = ''allow'', gi_reason = [], gi_scope = ''/etc'', gi_kind = ''dir''\<rparr>"

definition demo_session_grant :: Grant where
  "demo_session_grant = \<lparr>grant_tool = ''read_file'', Scope = ''/etc'', grant_kind = ScopeDir, grant_decision = GrantAllow,
     ApprovedAt = ''2026-01-01T00:00:00Z'', grant_reason = [], Session = True\<rparr>"

abbreviation demo_outside :: RawRequest where
  "demo_outside \<equiv> demo_request ''read_file'' ''read'' [(''path'', ''/etc/hosts'')]"

theorem session_grant_is_effective_witness:
  "dec_action (Evaluate demo_world None
     (Some ((demo_engine None)\<lparr>eng_sessionGrants := [(''read_file'', [demo_session_grant])]\<rparr>)) demo_outside) = ActionAllow"
  by (rule session_grant_is_effective [where input = demo_session_input and g = demo_session_grant
        and e = "demo_engine None"]; code_simp)

text \<open>C16: The read guard is sound: a path it accepts resolves inside one of the roots that may be read.\<close>

theorem accepted_read_inside:
  assumes "wf_fs (files os)" "Scope_validateRead os s p = None" "workspaceRoot s \<noteq> []"
    and "walk (files os) n [] (comps (open_target os s p)) = Inr d"
  shows "\<exists>root \<in> set (Scope_ReadRoots s). located_in os root d"
proof -
  have "hd (Scope_ReadRoots s) = workspaceRoot s" "Scope_ReadRoots s \<noteq> []"
    using assms(3) by (simp_all add: Scope_ReadRoots_def dedupeScopeRoots_def)
  then show ?thesis
    using validateAgainstRoots_sound [OF assms(1) _ _ _ walk_creates [OF assms(4)], of "Scope_ReadRoots s"] assms(2)
    by (simp add: Scope_validateRead_def)
qed

theorem accepted_read_inside_witness:
  "\<exists>root \<in> set (Scope_ReadRoots demo_scope). located_in (w_os demo_world) root [''w'', ''src'', ''a.txt'']"
  by (rule accepted_read_inside [OF demo_wf, where p = "''src/a.txt''" and n = 40]; code_simp)

text \<open>C17: Whatever sequence of grants and undos a new scope goes through, over however the file system
  changes in between, every added root was a directory that resolved to itself and was not the root
  of the file system on a host the history saw; the write roots, the workspace included, hold no
  repetition, nor do the read roots; and the workspace root stays what \<open>NewScope\<close> made it: empty
  for a blank path, a path that resolves to itself, or, where it could not be resolved, the cleaned
  absolute path.\<close>

theorem scope_history_invariant:
  assumes "NewScope os root extras = Inr s" "os \<in> H" "scope_reachable H s t"
  shows "(\<forall>r \<in> set (extraRoots t @ readRoots t). \<exists>h \<in> H. usable_root h r) \<and>
    distinct (Scope_Roots t) \<and> distinct (readRoots t) \<and> distinct (Scope_ReadRoots t) \<and>
    workspaceRoot t = workspaceRoot s \<and>
    (trim_space root = [] \<and> workspaceRoot t = [] \<or>
     eval_symlinks os (abs_of os (trim_space root)) = Inr (workspaceRoot t) \<and>
       eval_symlinks os (workspaceRoot t) = Inr (workspaceRoot t) \<or>
     isl (eval_symlinks os (abs_of os (trim_space root))) \<and> workspaceRoot t = clean (abs_of os (trim_space root)))"
proof -
  note new = NewScope_reachable [OF assms(1,2)]
  have "scope_inv H t" using scope_reachable_inv [OF scope_reachable_trans [OF assms(3) new] scope_inv_empty] .
  moreover have ws: "workspaceRoot t = normalizeWorkspaceRootBestEffort os root" "workspaceRoot t = workspaceRoot s"
    using scope_reachable_workspace [OF new] scope_reachable_workspace [OF assms(3)] by simp_all
  moreover have "distinct (Scope_ReadRoots t)"
    unfolding Scope_ReadRoots_def dedupeScopeRoots_def by (rule dedupe_from_distinct)
  ultimately show ?thesis
    using normalizeWorkspaceRootBestEffort_cases [of os root] unfolding scope_inv_def ws(1) [symmetric] by blast
qed

text \<open>A directory that appeared after the scope was made is granted for reading.\<close>

theorem scope_history_invariant_witness:
  "(\<exists>h \<in> {demo_os, shared_os}. usable_root h ''/secret/pub'') \<and> \<not> usable_root demo_os ''/secret/pub'' \<and>
   scope_reachable {demo_os, shared_os} demo_scope (demo_scope\<lparr>readRoots := [''/secret/pub'']\<rparr>)"
proof (intro conjI)
  have new: "NewScope demo_os ''/w'' [] = Inr demo_scope" by code_simp
  have "Scope_AddRead shared_os ''/secret/pub'' demo_scope =
      Inr (''/secret/pub'', demo_scope\<lparr>readRoots := [''/secret/pub'']\<rparr>)" by code_simp
  then show r: "scope_reachable {demo_os, shared_os} demo_scope (demo_scope\<lparr>readRoots := [''/secret/pub'']\<rparr>)"
    by (intro scope_reachable.step [OF scope_reachable.start, of shared_os] scope_step.AddRead) simp_all
  from scope_history_invariant [OF new _ r]
  show "\<exists>h \<in> {demo_os, shared_os}. usable_root h ''/secret/pub''" by simp
  show "\<not> usable_root demo_os ''/secret/pub''" by code_simp
qed

end
