(* ===== verification/Seccomp.thy ===== *)
theory Seccomp
  imports Main "HOL-Library.Word"
begin

text \<open>
  \<open>internal/sandbox/seccomp.go\<close> and the installation step of \<open>seccomp_linux.go\<close>: the two
  classic-BPF programs a sandboxed command runs under, built by the same list operations as the
  code.  The kernel that runs them is a parameter; the locale \<open>bpf_machine\<close> states what its
  documentation promises of the three opcodes the programs use.  Inside it both programs are shown
  to compute their verdict, so the relative jumps, eight bits wide, all land where they should.
\<close>

section \<open>Instructions and constants\<close>

record sockFilter =
  Code :: "16 word"
  Jt :: "8 word"
  Jf :: "8 word"
  K :: "32 word"

definition bpfLDWABS :: "16 word" where "bpfLDWABS = 0x20"
definition bpfJEQK :: "16 word" where "bpfJEQK = 0x15"
definition bpfRETK :: "16 word" where "bpfRETK = 0x06"

definition auditArchX86_64 :: "32 word" where "auditArchX86_64 = 0xC000003E"
definition auditArchAARCH64 :: "32 word" where "auditArchAARCH64 = 0xC00000B7"

definition nrSocketX86_64 :: "32 word" where "nrSocketX86_64 = 41"
definition nrSocketAARCH64 :: "32 word" where "nrSocketAARCH64 = 198"
definition nrSocketpairX86_64 :: "32 word" where "nrSocketpairX86_64 = 53"
definition nrSocketpairAARCH64 :: "32 word" where "nrSocketpairAARCH64 = 199"

definition afUnix :: "32 word" where "afUnix = 1"

definition seccompRetAllow :: "32 word" where "seccompRetAllow = 0x7FFF0000"
definition seccompRetErrno :: "32 word" where "seccompRetErrno = 0x00050000"
definition errnoEPERM :: "32 word" where "errnoEPERM = 1"

definition seccompOffsetNr :: "32 word" where "seccompOffsetNr = 0"
definition seccompOffsetArch :: "32 word" where "seccompOffsetArch = 4"
definition seccompOffsetArg0 :: "32 word" where "seccompOffsetArg0 = 16"

definition networkDenySyscallsX86_64 :: "32 word list" where
  "networkDenySyscallsX86_64 =
     [42, 43, 44, 48, 49, 50, 51, 52, 54, 55, 101, 288, 299, 307, 310, 311, 425, 426, 427]"

definition networkDenySyscallsAARCH64 :: "32 word list" where
  "networkDenySyscallsAARCH64 =
     [117, 200, 201, 202, 203, 204, 205, 206, 208, 209, 210, 242, 243, 269, 270, 271, 425, 426, 427]"

text \<open>The composite literals of the source: fields it leaves out are zero.\<close>

definition load :: "32 word \<Rightarrow> sockFilter" where
  "load k = \<lparr>Code = bpfLDWABS, Jt = 0, Jf = 0, K = k\<rparr>"

definition jump_eq :: "32 word \<Rightarrow> 8 word \<Rightarrow> 8 word \<Rightarrow> sockFilter" where
  "jump_eq k jt jf = \<lparr>Code = bpfJEQK, Jt = jt, Jf = jf, K = k\<rparr>"

definition ret :: "32 word \<Rightarrow> sockFilter" where
  "ret k = \<lparr>Code = bpfRETK, Jt = 0, Jf = 0, K = k\<rparr>"

definition eperm :: "32 word" where
  "eperm = or seccompRetErrno errnoEPERM"

section \<open>The programs\<close>

definition unixSocketBlockFilter :: "sockFilter list" where
  "unixSocketBlockFilter =
     [load seccompOffsetArch,
      jump_eq auditArchX86_64 2 0,
      jump_eq auditArchAARCH64 3 0,
      ret seccompRetAllow,
      load seccompOffsetNr,
      jump_eq nrSocketX86_64 2 4,
      load seccompOffsetNr,
      jump_eq nrSocketAARCH64 0 2,
      load seccompOffsetArg0,
      jump_eq afUnix 1 0,
      ret seccompRetAllow,
      ret eperm]"

definition appendNetworkSocketCheck :: "sockFilter list \<Rightarrow> 32 word \<Rightarrow> bool \<Rightarrow> sockFilter list" where
  "appendNetworkSocketCheck section nr reloadSyscallNumber =
     (let section = section @
        [jump_eq nr 0 4,
         load seccompOffsetArg0,
         jump_eq afUnix 1 0,
         ret eperm,
         ret seccompRetAllow]
      in if reloadSyscallNumber then section @ [load seccompOffsetNr] else section)"

definition networkDenySection :: "32 word \<Rightarrow> 32 word \<Rightarrow> 32 word list \<Rightarrow> sockFilter list" where
  "networkDenySection socketNr socketpairNr deniedSyscalls =
     (let section = foldl (\<lambda>section nr. section @ [jump_eq nr 0 1, ret eperm]) [load seccompOffsetNr] deniedSyscalls;
          section = appendNetworkSocketCheck section socketNr True;
          section = appendNetworkSocketCheck section socketpairNr False
      in section @ [ret seccompRetAllow])"

definition networkDenySeccompFilter :: "sockFilter list" where
  "networkDenySeccompFilter =
     (let x86Section = networkDenySection nrSocketX86_64 nrSocketpairX86_64 networkDenySyscallsX86_64;
          armSection = networkDenySection nrSocketAARCH64 nrSocketpairAARCH64 networkDenySyscallsAARCH64;
          program = [load seccompOffsetArch, jump_eq auditArchX86_64 0 (word_of_nat (length x86Section))];
          program = program @ x86Section;
          program = program @ [jump_eq auditArchAARCH64 0 (word_of_nat (length armSection))];
          program = program @ armSection
      in program @ [ret seccompRetAllow])"

text \<open>
  \<open>applySeccompFilter\<close>: the two \<open>prctl\<close> calls are parameters, with \<open>None\<close> for success; the
  second receives the length, sixteen bits wide, and the instructions.
\<close>

definition applySeccompFilter ::
    "string option \<Rightarrow> (16 word \<times> sockFilter list \<Rightarrow> string option) \<Rightarrow> sockFilter list \<Rightarrow> string \<Rightarrow>
     string option" where
  "applySeccompFilter noNewPrivs load_filter filters name =
     (case noNewPrivs of
        Some err \<Rightarrow> Some (''seccomp: set no_new_privs: '' @ err)
      | None \<Rightarrow>
          let kernelFilters = map (\<lambda>f. \<lparr>Code = Code f, Jt = Jt f, Jf = Jf f, K = K f\<rparr>) filters
          in if length kernelFilters = 0 then Some (''seccomp: empty filter for '' @ name)
             else (case load_filter (word_of_nat (length kernelFilters), kernelFilters) of
                     Some err \<Rightarrow> Some (''seccomp: load '' @ name @ '' filter: '' @ err)
                   | None \<Rightarrow> None))"

section \<open>What the programs decide\<close>

text \<open>The verdicts, over the fields of the kernel's \<open>seccomp_data\<close> at their offsets.\<close>

type_synonym seccomp_data = "32 word \<Rightarrow> 32 word"

definition section_verdict :: "32 word \<Rightarrow> 32 word \<Rightarrow> 32 word list \<Rightarrow> seccomp_data \<Rightarrow> 32 word" where
  "section_verdict socketNr socketpairNr denied data =
     (if data seccompOffsetNr \<in> set denied \<or>
         (data seccompOffsetNr = socketNr \<or> data seccompOffsetNr = socketpairNr) \<and>
         data seccompOffsetArg0 \<noteq> afUnix
      then eperm else seccompRetAllow)"

definition network_verdict :: "seccomp_data \<Rightarrow> 32 word" where
  "network_verdict data =
     (if data seccompOffsetArch = auditArchX86_64
      then section_verdict nrSocketX86_64 nrSocketpairX86_64 networkDenySyscallsX86_64 data
      else if data seccompOffsetArch = auditArchAARCH64
      then section_verdict nrSocketAARCH64 nrSocketpairAARCH64 networkDenySyscallsAARCH64 data
      else seccompRetAllow)"

definition unix_verdict :: "seccomp_data \<Rightarrow> 32 word" where
  "unix_verdict data =
     (if (data seccompOffsetArch = auditArchX86_64 \<and> data seccompOffsetNr = nrSocketX86_64 \<or>
          data seccompOffsetArch = auditArchAARCH64 \<and> data seccompOffsetNr = nrSocketAARCH64) \<and>
         data seccompOffsetArg0 = afUnix
      then eperm else seccompRetAllow)"

text \<open>
  A machine that runs a program from a position with a value in its accumulator.  The laws are the
  documented meaning of the three opcodes: load a word of the input, jump relative to the next
  instruction on equality, return a constant.
\<close>

locale bpf_machine =
  fixes run :: "sockFilter list \<Rightarrow> nat \<Rightarrow> 32 word \<Rightarrow> seccomp_data \<Rightarrow> 32 word option"
  assumes run_load: "pc < length prog \<Longrightarrow> Code (prog ! pc) = bpfLDWABS \<Longrightarrow>
      run prog pc a data = run prog (pc + 1) (data (K (prog ! pc))) data"
    and run_jump: "pc < length prog \<Longrightarrow> Code (prog ! pc) = bpfJEQK \<Longrightarrow>
      run prog pc a data =
        run prog (pc + 1 + unat (if a = K (prog ! pc) then Jt (prog ! pc) else Jf (prog ! pc))) a data"
    and run_ret: "pc < length prog \<Longrightarrow> Code (prog ! pc) = bpfRETK \<Longrightarrow> run prog pc a data = Some (K (prog ! pc))"
begin

text \<open>Running the rest \<open>post\<close> of a program whose first part \<open>pre\<close> has been left behind.\<close>

definition rest :: "sockFilter list \<Rightarrow> sockFilter list \<Rightarrow> 32 word \<Rightarrow> seccomp_data \<Rightarrow> 32 word option" where
  "rest pre post a data = run (pre @ post) (length pre) a data"

lemma rest_load: "rest pre (load k # post) a data = rest (pre @ [load k]) post (data k) data"
  using run_load [of "length pre" "pre @ load k # post"]
  by (simp add: rest_def load_def nth_append)

lemma rest_jump:
  assumes "unat (if a = k then jt else jf) \<le> length post"
  shows "rest pre (jump_eq k jt jf # post) a data =
    rest (pre @ jump_eq k jt jf # take (unat (if a = k then jt else jf)) post)
      (drop (unat (if a = k then jt else jf)) post) a data"
  using assms run_jump [of "length pre" "pre @ jump_eq k jt jf # post" a data]
  by (simp add: rest_def jump_eq_def nth_append)

lemma rest_ret: "rest pre (ret k # post) a data = Some k"
  using run_ret [of "length pre" "pre @ ret k # post"]
  by (simp add: rest_def ret_def nth_append)

lemmas steps = rest_load rest_jump rest_ret

lemma denied_checks:
  "\<exists>pre'. rest pre (concat (map (\<lambda>nr. [jump_eq nr 0 1, ret eperm]) ds) @ post) a data =
    (if a \<in> set ds then Some eperm else rest pre' post a data)"
proof (induction ds arbitrary: pre)
  case Nil
  then show ?case by auto
next
  case (Cons d ds)
  show ?case
  proof (cases "a = d")
    case True
    then show ?thesis by (simp add: steps)
  next
    case False
    then show ?thesis using Cons [of "pre @ [jump_eq d 0 1, ret eperm]"] by (simp add: rest_jump)
  qed
qed

lemma socket_check:
  "\<exists>pre'. rest pre (appendNetworkSocketCheck [] nr reload @ post) a data =
    (if a = nr then Some (if data seccompOffsetArg0 = afUnix then seccompRetAllow else eperm)
     else rest pre' post (if reload then data seccompOffsetNr else a) data)"
  by (auto simp: appendNetworkSocketCheck_def Let_def steps)

lemma section_append: "appendNetworkSocketCheck section nr reload = section @ appendNetworkSocketCheck [] nr reload"
  by (simp add: appendNetworkSocketCheck_def Let_def)

lemma section_code:
  "networkDenySection socketNr socketpairNr denied = load seccompOffsetNr #
    concat (map (\<lambda>nr. [jump_eq nr 0 1, ret eperm]) denied) @ appendNetworkSocketCheck [] socketNr True @
    appendNetworkSocketCheck [] socketpairNr False @ [ret seccompRetAllow]"
proof -
  have "foldl (\<lambda>section nr. section @ [jump_eq nr 0 1, ret eperm]) pre denied =
      pre @ concat (map (\<lambda>nr. [jump_eq nr 0 1, ret eperm]) denied)" for pre
    by (induction denied arbitrary: pre) simp_all
  then show ?thesis unfolding networkDenySection_def Let_def by (subst (1 2) section_append) simp
qed

lemma section_result:
  "rest pre (networkDenySection socketNr socketpairNr denied @ post) a data =
    Some (section_verdict socketNr socketpairNr denied data)"
proof -
  let ?n = "data seccompOffsetNr"
  obtain p1 where 1: "rest (pre @ [load seccompOffsetNr])
      (concat (map (\<lambda>nr. [jump_eq nr 0 1, ret eperm]) denied) @ appendNetworkSocketCheck [] socketNr True @
        appendNetworkSocketCheck [] socketpairNr False @ ret seccompRetAllow # post) ?n data =
      (if ?n \<in> set denied then Some eperm else rest p1 (appendNetworkSocketCheck [] socketNr True @
        appendNetworkSocketCheck [] socketpairNr False @ ret seccompRetAllow # post) ?n data)"
    using denied_checks by blast
  obtain p2 where 2: "rest p1 (appendNetworkSocketCheck [] socketNr True @
        appendNetworkSocketCheck [] socketpairNr False @ ret seccompRetAllow # post) ?n data =
      (if ?n = socketNr then Some (if data seccompOffsetArg0 = afUnix then seccompRetAllow else eperm)
       else rest p2 (appendNetworkSocketCheck [] socketpairNr False @ ret seccompRetAllow # post) ?n data)"
    using socket_check [of p1 socketNr True
      "appendNetworkSocketCheck [] socketpairNr False @ ret seccompRetAllow # post" ?n data] unfolding if_True if_cancel by blast
  obtain p3 where 3: "rest p2 (appendNetworkSocketCheck [] socketpairNr False @ ret seccompRetAllow # post) ?n data =
      (if ?n = socketpairNr then Some (if data seccompOffsetArg0 = afUnix then seccompRetAllow else eperm)
       else rest p3 (ret seccompRetAllow # post) ?n data)"
    using socket_check [of p2 socketpairNr False "ret seccompRetAllow # post" ?n data] unfolding if_True if_cancel by blast
  show ?thesis by (simp add: section_code rest_load 1 2 3 rest_ret section_verdict_def)
qed

lemma network_filter: "run networkDenySeccompFilter 0 a data = Some (network_verdict data)"
proof -
  define x where "x = networkDenySection nrSocketX86_64 nrSocketpairX86_64 networkDenySyscallsX86_64"
  define m where "m = networkDenySection nrSocketAARCH64 nrSocketpairAARCH64 networkDenySyscallsAARCH64"
  have l: "length x = 51" "length m = 51"
    by (simp_all add: x_def m_def section_code appendNetworkSocketCheck_def
        networkDenySyscallsX86_64_def networkDenySyscallsAARCH64_def)
  have xr: "rest pre (x @ post) b data =
      Some (section_verdict nrSocketX86_64 nrSocketpairX86_64 networkDenySyscallsX86_64 data)" for pre post b
    unfolding x_def by (rule section_result)
  have mr: "rest pre (m @ post) b data =
      Some (section_verdict nrSocketAARCH64 nrSocketpairAARCH64 networkDenySyscallsAARCH64 data)" for pre post b
    unfolding m_def by (rule section_result)
  have "run networkDenySeccompFilter 0 a data =
      rest [] (load seccompOffsetArch # jump_eq auditArchX86_64 0 51 # x @
        jump_eq auditArchAARCH64 0 51 # m @ [ret seccompRetAllow]) a data"
    by (simp add: rest_def networkDenySeccompFilter_def Let_def x_def [symmetric] m_def [symmetric] l)
  also have "\<dots> = Some (network_verdict data)"
    by (simp add: rest_load rest_jump l xr mr rest_ret network_verdict_def)
  finally show ?thesis .
qed

lemma unix_filter: "run unixSocketBlockFilter 0 a data = Some (unix_verdict data)"
proof -
  have "run unixSocketBlockFilter 0 a data = rest [] unixSocketBlockFilter a data" by (simp add: rest_def)
  also have "\<dots> = Some (unix_verdict data)"
    by (cases "data seccompOffsetArch = auditArchX86_64"; cases "data seccompOffsetArch = auditArchAARCH64";
        cases "data seccompOffsetNr = nrSocketX86_64"; cases "data seccompOffsetNr = nrSocketAARCH64";
        cases "data seccompOffsetArg0 = afUnix")
      (simp_all add: unixSocketBlockFilter_def steps unix_verdict_def auditArchX86_64_def auditArchAARCH64_def)
  finally show ?thesis .
qed

end

text \<open>A machine as documented: every jump goes forward, so it stops.\<close>

function bpf_run :: "sockFilter list \<Rightarrow> nat \<Rightarrow> 32 word \<Rightarrow> seccomp_data \<Rightarrow> 32 word option" where
  "bpf_run prog pc a data =
     (if length prog \<le> pc then None
      else (let i = prog ! pc in
        if Code i = bpfLDWABS then bpf_run prog (pc + 1) (data (K i)) data
        else if Code i = bpfJEQK then bpf_run prog (pc + 1 + unat (if a = K i then Jt i else Jf i)) a data
        else if Code i = bpfRETK then Some (K i)
        else None))"
  by pat_completeness auto
termination by (relation "measure (\<lambda>(prog, pc, _). length prog - pc)") auto

declare bpf_run.simps [simp del]

interpretation reference: bpf_machine bpf_run
proof
  fix prog :: "sockFilter list" and pc a and data :: seccomp_data
  assume pc: "pc < length prog"
  show "Code (prog ! pc) = bpfLDWABS \<Longrightarrow> bpf_run prog pc a data = bpf_run prog (pc + 1) (data (K (prog ! pc))) data"
    using pc by (subst bpf_run.simps) simp
  show "Code (prog ! pc) = bpfJEQK \<Longrightarrow> bpf_run prog pc a data =
      bpf_run prog (pc + 1 + unat (if a = K (prog ! pc) then Jt (prog ! pc) else Jf (prog ! pc))) a data"
    using pc by (subst bpf_run.simps) (simp add: bpfJEQK_def bpfLDWABS_def Let_def)
  show "Code (prog ! pc) = bpfRETK \<Longrightarrow> bpf_run prog pc a data = Some (K (prog ! pc))"
    using pc by (subst bpf_run.simps) (simp add: bpfJEQK_def bpfLDWABS_def bpfRETK_def)
qed

text \<open>An installed program is the one that was built: its length fits the kernel's sixteen bits.\<close>

lemma installed_filter:
  assumes "applySeccompFilter None load_filter filters name = None" "length filters < 2 ^ 16"
  shows "load_filter (word_of_nat (length filters), filters) = None \<and>
    unat (word_of_nat (length filters) :: 16 word) = length filters \<and> filters \<noteq> []"
proof -
  have "map (\<lambda>f. \<lparr>Code = Code f, Jt = Jt f, Jf = Jf f, K = K f\<rparr>) filters = filters" by (rule map_idI) simp
  then show ?thesis
    using assms by (auto simp: applySeccompFilter_def Let_def unat_of_nat split: if_splits option.splits)
qed

end
