(* ===== verification/Sandbox_Contracts.thy ===== *)
theory Sandbox_Contracts
  imports Demo_Host Profile Seccomp
begin

text \<open>
  The contracts of the sandbox's components: permission grants and their undo, the grant store,
  patch headers, the risk classifier, the shell analyzer, command prefixes and the profile handed
  to the platform sandbox.
\<close>

section \<open>Granting permissions\<close>

definition demo_fs :: FileSystemPermissions where
  "demo_fs = no_permissions\<lparr>fs_write := [''/secret''], fs_denyRead := [''/tmp'']\<rparr>"

definition demo_profile :: RequestPermissionProfile where
  "demo_profile = \<lparr>rpp_network = Some (Some True), rpp_fileSystem = Some demo_fs\<rparr>"

definition demo_granted :: Engine where
  "demo_granted = the (snd (GrantRequestPermissions demo_os demo_profile GrantScopeTurn (Some (demo_engine None))))"

text \<open>Permissions granted for a turn last for the turn: running the cleanup the grant returned gives the
  engine back its scope and the policy it enforces, and everything else but the counter that names
  the next granted profile.\<close>

theorem turn_grant_is_undone:
  assumes "engine_inv e" "GrantRequestPermissions os profile GrantScopeTurn (Some e) = (Inr cs, Some e')"
  shows "(run_cleanups cs e')\<lparr>eng_turnProfiles := eng_turnProfiles e\<rparr> = e \<and>
    effectivePolicy (run_cleanups cs e') = effectivePolicy e"
  by (rule turn_grant_cleanup [OF assms])

theorem turn_grant_is_undone_witness:
  "(run_cleanups [Scope_Undo (RemoveWriteRoot ''/secret''), Remove_Turn_Profile 1] demo_granted)
      \<lparr>eng_turnProfiles := eng_turnProfiles (demo_engine None)\<rparr> = demo_engine None \<and>
    effectivePolicy (run_cleanups [Scope_Undo (RemoveWriteRoot ''/secret''), Remove_Turn_Profile 1] demo_granted) =
      effectivePolicy (demo_engine None)"
proof (rule turn_grant_is_undone)
  show "engine_inv (demo_engine None)" by code_simp
  show "GrantRequestPermissions demo_os demo_profile GrantScopeTurn (Some (demo_engine None)) =
      (Inr [Scope_Undo (RemoveWriteRoot ''/secret''), Remove_Turn_Profile 1], Some demo_granted)"
    by code_simp
qed

text \<open>C18: A grant that fails leaves no trace: when a path of a request for the turn cannot be granted, the
  roots added before it are removed again and the engine is the one before the request.\<close>

theorem failed_grant_leaves_no_trace:
  assumes "GrantRequestPermissions os profile scope (Some e) = (Inl err, e')" "scope \<noteq> GrantScopeSession"
  shows "e' = Some e"
  by (rule failed_turn_grant [OF assms])

theorem failed_grant_leaves_no_trace_witness:
  "snd (GrantRequestPermissions half_os half_profile GrantScopeTurn (Some half_engine)) = Some half_engine"
proof (rule failed_grant_leaves_no_trace)
  show "GrantRequestPermissions half_os half_profile GrantScopeTurn (Some half_engine) =
      (Inl (projl (fst (GrantRequestPermissions half_os half_profile GrantScopeTurn (Some half_engine)))),
       snd (GrantRequestPermissions half_os half_profile GrantScopeTurn (Some half_engine)))"
    by code_simp
qed simp

section \<open>The grant store\<close>

definition demo_bucket :: "Grant list" where
  "demo_bucket = [\<lparr>grant_tool = ''bash'', Scope = [], grant_kind = ScopeToolWide, grant_decision = GrantAllow,
      ApprovedAt = ''2026-01-01T00:00:00Z'', grant_reason = [], Session = False\<rparr>,
    \<lparr>grant_tool = ''bash'', Scope = ''/w/src'', grant_kind = ScopeDir, grant_decision = GrantAllow,
      ApprovedAt = ''2026-01-01T00:00:00Z'', grant_reason = [], Session = False\<rparr>]"

definition demo_state :: grantFile where
  "demo_state = \<lparr>Grants = [(''bash'', demo_bucket)], CommandPrefixes = []\<rparr>"

definition demo_file :: grants_file where
  "demo_file = snd (writeState None demo_state Missing)"

text \<open>Which grant governs: a covering deny wins over every allow, otherwise no covering grant is more
  specific than the one returned, and nothing is returned exactly when nothing covers the scope.\<close>

theorem governing_grant:
  "case lookupGrantBucket bucket q of
     None \<Rightarrow> \<forall>g \<in> set bucket. \<not> grantCovers g q
   | Some g \<Rightarrow> g \<in> set bucket \<and> grantCovers g q \<and>
       (\<forall>h \<in> set bucket. grantCovers h q \<longrightarrow>
          grant_decision g = GrantDeny \<or> grant_decision h = GrantAllow \<and> \<not> moreSpecific h g)"
proof (cases "lookupGrantBucket bucket q")
  case None
  then have "\<forall>g \<in> set bucket. \<not> grantCovers g q" using lookup_bucket_None by blast
  then show ?thesis by (simp add: None)
next
  case (Some g)
  have "grant_decision h = GrantAllow \<and> \<not> moreSpecific h g"
    if "h \<in> set bucket" "grantCovers h q" "grant_decision g \<noteq> GrantDeny" for h
    using lookup_bucket_best [OF Some _ that(1,2)] that(3) by (cases "grant_decision g") simp_all
  then show ?thesis using lookup_bucket_member [OF Some] by (auto simp: Some)
qed

theorem governing_grant_witness:
  "case Some (hd (tl demo_bucket)) of
     None \<Rightarrow> \<forall>g \<in> set demo_bucket. \<not> grantCovers g ''/w/src/a.txt''
   | Some g \<Rightarrow> g \<in> set demo_bucket \<and> grantCovers g ''/w/src/a.txt'' \<and>
       (\<forall>h \<in> set demo_bucket. grantCovers h ''/w/src/a.txt'' \<longrightarrow>
          grant_decision g = GrantDeny \<or> grant_decision h = GrantAllow \<and> \<not> moreSpecific h g)"
proof -
  have "lookupGrantBucket demo_bucket ''/w/src/a.txt'' = Some (hd (tl demo_bucket))" by code_simp
  then show ?thesis using governing_grant [of demo_bucket "''/w/src/a.txt''"] by simp
qed

text \<open>C19: What was loaded from a grants file can be saved and loaded again: unless one of its grants is for a
  host, whose normal form may change when it is taken again, loading what was saved gives the same
  tools, grants, prefixes and order, every reason passed through the redaction once more, and a
  lookup in the saved file is the lookup in the state that was saved.\<close>

theorem saved_store_reloads:
  assumes "readState redact fl = Inr st" "no_hosts st" "valid_key t"
  shows "readState redact (snd (writeState None st fl)) = Inr (reread_state redact st) \<and>
    GrantStore_Lookup redact t q (snd (writeState None st fl)) =
      Inr (map_option (reread redact) (lookupGrantBucket (bucket_of (Grants st) t) q))"
  using readState_stable [OF assms(1,2)] readState_writeState [of st redact fl] Lookup_written [of st t redact q fl] assms(3)
  by blast

theorem saved_store_reloads_witness:
  "readState (\<lambda>s. s) (snd (writeState None demo_state demo_file)) = Inr (reread_state (\<lambda>s. s) demo_state) \<and>
    GrantStore_Lookup (\<lambda>s. s) ''bash'' ''/etc'' (snd (writeState None demo_state demo_file)) =
      Inr (map_option (reread (\<lambda>s. s)) (lookupGrantBucket (bucket_of (Grants demo_state) ''bash'') ''/etc''))"
  by (rule saved_store_reloads; code_simp)

text \<open>A grant that was stored is found: a later lookup of a scope it covers finds a grant, and when the
  new grant denies, a denying one.\<close>

theorem stored_grant_is_found:
  assumes "GrantStore_Grant redact now None input fl = (Inr g, fl')"
    and "readState redact fl = Inr st" "stable_state st" "stable_grant (grant_tool g) g" "grantCovers g q"
  shows "\<exists>h. GrantStore_Lookup redact (grant_tool g) q fl' = Inr (Some h) \<and>
    (grant_decision g = GrantDeny \<longrightarrow> grant_decision h = GrantDeny)"
  by (rule Lookup_after_Grant [OF assms])

definition demo_input :: GrantInput where
  "demo_input = \<lparr>gi_tool = ''bash'', gi_decision = ''deny'', gi_reason = [], gi_scope = ''/w/src'', gi_kind = ''dir''\<rparr>"

definition demo_stored :: "(string + Grant) \<times> grants_file" where
  "demo_stored = GrantStore_Grant (\<lambda>s. s) ''2026-01-02T00:00:00Z'' None demo_input demo_file"

theorem stored_grant_is_found_witness:
  "\<exists>h. GrantStore_Lookup (\<lambda>s. s) (grant_tool (projr (fst demo_stored))) ''/w/src/a.txt'' (snd demo_stored) = Inr (Some h) \<and>
    (grant_decision (projr (fst demo_stored)) = GrantDeny \<longrightarrow> grant_decision h = GrantDeny)"
proof (rule stored_grant_is_found [where fl = demo_file and st = demo_state])
  show "GrantStore_Grant (\<lambda>s. s) ''2026-01-02T00:00:00Z'' None demo_input demo_file =
      (Inr (projr (fst demo_stored)), snd demo_stored)" by code_simp
  show "readState (\<lambda>s. s) demo_file = Inr demo_state" by code_simp
  show "stable_state demo_state" by code_simp
  show "stable_grant (grant_tool (projr (fst demo_stored))) (projr (fst demo_stored))" by code_simp
  show "grantCovers (projr (fst demo_stored)) ''/w/src/a.txt''" by code_simp
qed

text \<open>Revoking a tool leaves it no grant and no command prefix, touches no error path, and reports how
  many entries it removed.\<close>

theorem revoke_clears_tool:
  assumes "GrantStore_Revoke redact None t fl = (Inr n, fl')"
    and "readState redact fl = Inr st" "stable_state st"
  shows "\<exists>st'. readState redact fl' = Inr st' \<and> bucket_of (Grants st') (trim_space t) = [] \<and>
    bucket_of (CommandPrefixes st') (trim_space t) = [] \<and>
    n = length (bucket_of (Grants st) (trim_space t)) + length (bucket_of (CommandPrefixes st) (trim_space t))"
  by (rule Revoke_effect [OF assms])

theorem revoke_clears_tool_witness:
  "\<exists>st'. readState (\<lambda>s. s) (snd (GrantStore_Revoke (\<lambda>s. s) None '' bash'' demo_file)) = Inr st' \<and>
    bucket_of (Grants st') (trim_space '' bash'') = [] \<and> bucket_of (CommandPrefixes st') (trim_space '' bash'') = [] \<and>
    2 = length (bucket_of (Grants demo_state) (trim_space '' bash'')) +
      length (bucket_of (CommandPrefixes demo_state) (trim_space '' bash''))"
proof (rule revoke_clears_tool [where fl = demo_file])
  show "GrantStore_Revoke (\<lambda>s. s) None '' bash'' demo_file =
      (Inr 2, snd (GrantStore_Revoke (\<lambda>s. s) None '' bash'' demo_file))" by code_simp
  show "readState (\<lambda>s. s) demo_file = Inr demo_state" by code_simp
  show "stable_state demo_state" by code_simp
qed

section \<open>Patch headers\<close>

text \<open>C20: For a plain unified diff (each file a \<open>---\<close> and a \<open>+++\<close> header with a path free of white space, then
  hunks whose headers state both counts; no \<open>diff --git\<close> lines, no carriage returns) the paths the policy
  reads off the patch are exactly the paths its file headers name, in order: no line of a hunk, however
  it starts, is taken for a header and no header is lost.\<close>

theorem patch_paths_exact:
  assumes "list_all good_file_patch fs"
    and "list_all (\<lambda>l. newline \<notin> set l \<and> cr \<notin> set l) (List.concat (List.map file_patch_text fs))"
  shows "patchHeaderPaths (patch_text fs) = List.concat (List.map (\<lambda>f. [old_path f, new_path f]) fs)"
  using assms(2) by (intro patchHeaderPaths_text [OF assms(1)]) (auto simp: list_all_iff)

definition demo_patch :: "file_patch list" where
  "demo_patch = [File_Patch ''src/a'' ''src/b''
     [Hunk 1 1 [Context [], Removed ''-- a/old'', Added ''++ b/etc/passwd'', No_Newline]],
     File_Patch ''x'' ''x'' [Hunk 4 4 [Added ''-- /etc/shadow'']]]"

theorem patch_paths_exact_witness:
  "patchHeaderPaths (patch_text demo_patch) =
    List.concat (List.map (\<lambda>f. [old_path f, new_path f]) demo_patch)"
  by (rule patch_paths_exact; code_simp)

section \<open>Classification\<close>

text \<open>The risk level of a request is the highest level of its side effect, its command and its paths,
  and it carries a category exactly when one of these raises it.\<close>

theorem risk_is_worst_part:
  "Level (classifyWithScope os parse s request) =
      Max (insert RiskLow (snd ` set (request_risks os parse s request))) \<and>
    (HasRiskCategory (classifyWithScope os parse s request) c \<longleftrightarrow>
      c \<in> fst ` set (request_risks os parse s request))"
  unfolding classify_Level HasRiskCategory_iff by force

text \<open>C21: The shell analysis reports a command exactly for what it runs: a flag is set when some call of the
  script, or of a script passed to \<open>sh -c\<close> down to the nesting bound, deserves it, and the
  command counts as too complex exactly when one of these scripts cannot be parsed.\<close>

theorem analysis_exact:
  "(ar_interactive (AnalyzeCommand parse c) \<longleftrightarrow> trim_space c \<noteq> [] \<and>
      (\<exists>prog rest. runs parse maxAnalyzerDepth c prog rest \<and> call_interactive prog rest)) \<and>
    (ar_destructive (AnalyzeCommand parse c) \<longleftrightarrow> trim_space c \<noteq> [] \<and>
      (\<exists>prog rest. runs parse maxAnalyzerDepth c prog rest \<and> call_destructive prog rest)) \<and>
    (ar_network (AnalyzeCommand parse c) \<longleftrightarrow> trim_space c \<noteq> [] \<and>
      (\<exists>prog rest. runs parse maxAnalyzerDepth c prog rest \<and> commandUsesNetwork prog rest)) \<and>
    (TooComplex (AnalyzeCommand parse c) \<longleftrightarrow> trim_space c \<noteq> [] \<and> fails parse maxAnalyzerDepth c)"
  by (intro conjI AnalyzeCommand_interactive AnalyzeCommand_destructive AnalyzeCommand_network
      AnalyzeCommand_TooComplex)

text \<open>A removal counts as recursive and forced exactly when, among the arguments before a lone
  \<open>--\<close>, one option asks for recursion and one for force, in any order, long, short or bundled.\<close>

theorem recursive_force_exact:
  "hasRecursiveForce args \<longleftrightarrow>
    list_ex (\<lambda>w. wordText w = ''--recursive'' \<or> rm_flag ''rR'' w) (takeWhile (\<lambda>w. wordText w \<noteq> ''--'') args) \<and>
    list_ex (\<lambda>w. wordText w = ''--force'' \<or> rm_flag ''f'' w) (takeWhile (\<lambda>w. wordText w \<noteq> ''--'') args)"
proof -
  have "recursive_force_from r f args = recursive_force_from r f (takeWhile (\<lambda>w. wordText w \<noteq> ''--'') args)" for r f
    by (induction r f args rule: recursive_force_from.induct) (simp_all add: Let_def)
  moreover have "''--'' \<notin> set (List.map wordText (takeWhile (\<lambda>w. wordText w \<noteq> ''--'') args))"
    by (auto dest: set_takeWhileD)
  ultimately show ?thesis
    unfolding hasRecursiveForce_def list_ex_iff by (simp only: recursive_force_from_iff simp_thms)
qed

section \<open>Command prefixes\<close>

text \<open>A command prefix that may be approved is plain: none of its words is empty, globs, substitutes or
  breaks a line, its program launches nothing else, and it is no banned prefix.\<close>

theorem approvable_prefix_is_plain:
  assumes "NormalizeCommandPrefix prefix = Some p"
  shows "p \<noteq> [] \<and> list_all (\<lambda>x. x \<noteq> [] \<and> \<not> contains x ''$('' \<and> list_all (\<lambda>c. \<not> shell_meta c) x) p \<and>
    \<not> unsafeCommandPrefixLauncher (hd p) \<and> NormalizeCommandPrefix p = Some p"
  using NormalizeCommandPrefix_nonempty [OF assms] safe_prefix_no_meta [OF assms]
    safe_prefix_no_launcher [OF assms] NormalizeCommandPrefix_idem [OF assms]
  by (auto simp: list_all_iff)

theorem approvable_prefix_is_plain_witness:
  "[''go'', ''test''] \<noteq> [] \<and>
    list_all (\<lambda>x. x \<noteq> [] \<and> \<not> contains x ''$('' \<and> list_all (\<lambda>c. \<not> shell_meta c) x) [''go'', ''test''] \<and>
    \<not> unsafeCommandPrefixLauncher (hd [''go'', ''test'']) \<and>
    NormalizeCommandPrefix [''go'', ''test''] = Some [''go'', ''test'']"
  by (rule approvable_prefix_is_plain [where prefix = "['' go'', ''test '']"]; code_simp)

text \<open>The prefixes approved for a session approve exactly what they cover: after any approvals a command
  matches if and only if a prefix with a tool and a word was approved for its tool and is a prefix
  of its words.\<close>

theorem session_prefixes_exact:
  "commandPrefixGrantSet_match (foldl commandPrefixGrantSet_add [] gs) q \<noteq> None \<longleftrightarrow>
    list_ex (\<lambda>g. cp_tool g \<noteq> [] \<and> Prefix g \<noteq> [] \<and> prefix_covers g q) gs"
proof
  assume "commandPrefixGrantSet_match (foldl commandPrefixGrantSet_add [] gs) q \<noteq> None"
  then have "\<exists>g \<in> set [] \<union> set gs. prefix_covers g q" by (rule prefix_session.match_needs_approval)
  then obtain g where g: "g \<in> set gs" "prefix_covers g q" by auto
  then have "cp_tool g \<noteq> [] \<and> Prefix g \<noteq> []" by (auto simp: prefix_covers_def hasStringPrefix_iff)
  with g show "list_ex (\<lambda>g. cp_tool g \<noteq> [] \<and> Prefix g \<noteq> [] \<and> prefix_covers g q) gs"
    by (auto simp: list_ex_iff)
next
  assume "list_ex (\<lambda>g. cp_tool g \<noteq> [] \<and> Prefix g \<noteq> [] \<and> prefix_covers g q) gs"
  then obtain as g bs where g: "gs = as @ g # bs" "cp_tool g \<noteq> [] \<and> Prefix g \<noteq> []" "prefix_covers g q"
    by (auto simp: list_ex_iff in_set_conv_decomp)
  then show "commandPrefixGrantSet_match (foldl commandPrefixGrantSet_add [] gs) q \<noteq> None"
    using prefix_session.match_after_add [OF g(2,3)] prefix_session.approvals_persist by simp
qed

section \<open>The platform sandbox\<close>

text \<open>The profile handed to the platform sandbox and the path guard of the engine agree: under an
  enforced policy the profile's write roots are exactly the roots the engine lets a write into.\<close>

theorem profile_matches_engine:
  assumes "is_abs (cwd os)" "pol_mode policy = ModeEnforce"
  shows "Root ` set (fsp_writeRoots (FileSystem (PermissionProfileFromPolicy os workspace policy (Some s)))) =
    set (write_roots os s policy)"
  by (rule profile_write_roots [OF assms])

theorem profile_matches_engine_witness:
  "Root ` set (fsp_writeRoots (FileSystem (PermissionProfileFromPolicy demo_os ''/w'' demo_policy (Some demo_scope)))) =
    set (write_roots demo_os demo_scope demo_policy)"
  by (rule profile_matches_engine; code_simp)

text \<open>C26: On a kernel that runs BPF programs as documented the network filter answers EPERM to exactly the
  listed system calls and to \<open>socket\<close> and \<open>socketpair\<close> outside \<open>AF_UNIX\<close>, per
  architecture, and the other filter to exactly \<open>socket\<close> with \<open>AF_UNIX\<close>; everything else,
  unknown architectures included, is allowed.\<close>

theorem seccomp_filters_exact:
  assumes "bpf_machine run"
  shows "run networkDenySeccompFilter 0 a data = Some (network_verdict data) \<and>
    run unixSocketBlockFilter 0 a data = Some (unix_verdict data)"
  using bpf_machine.network_filter [OF assms] bpf_machine.unix_filter [OF assms] by simp

theorem seccomp_filters_exact_witness:
  "bpf_run networkDenySeccompFilter 0 0 (\<lambda>k. if k = 4 then 0xC000003E else if k = 0 then 41 else 2) =
      Some (network_verdict (\<lambda>k. if k = 4 then 0xC000003E else if k = 0 then 41 else 2)) \<and>
    bpf_run unixSocketBlockFilter 0 0 (\<lambda>k. if k = 4 then 0xC000003E else if k = 0 then 41 else 2) =
      Some (unix_verdict (\<lambda>k. if k = 4 then 0xC000003E else if k = 0 then 41 else 2))"
  by (rule seccomp_filters_exact [OF reference.bpf_machine_axioms])

end
