(* ===== verification/Sandbox_Limits.thy ===== *)
theory Sandbox_Limits
  imports Sandbox_Properties Seccomp
begin

text \<open>
  Limits of the sandbox that the model exhibits: small histories, each evaluated in full, in
  which the code answers more leniently than its comments promise.
\<close>

section \<open>Scopes of grants\<close>

text \<open>
  The path aliases the guard inspects (\<open>file_path\<close>, \<open>filepath\<close>, \<open>filename\<close>) carry no grant scope,
  so an approval of such a call is recorded for the whole tool, and a deny grant for one file does
  not see the call.
\<close>

definition alias_args :: args where
  "alias_args k = map_option ArgString (map_of [(''file_path'', ''src/b.txt'')] k)"

lemma alias_has_no_scope: "DeriveScope ''write_file'' alias_args = ([], ScopeToolWide)"
  by code_simp

definition file_deny :: RawGrant where
  "file_deny = \<lparr>rg_tool = ''write_file'', rg_scope = ''/w/src/b.txt'', rg_kind = ''file'', rg_decision = ''deny'',
     rg_approvedAt = ''2026-01-01T00:00:00Z'', rg_reason = [], rg_session = False\<rparr>"

abbreviation deny_engine :: Engine where
  "deny_engine \<equiv> demo_engine (Some (Version2 [(''write_file'', [file_deny])] []))"

theorem alias_escapes_scoped_deny:
  "dec_action (Evaluate demo_world None (Some deny_engine)
     (demo_request ''write_file'' ''write'' [(''path'', ''src/b.txt'')])) = ActionDeny"
  "dec_action (Evaluate demo_world None (Some deny_engine)
     (demo_request ''write_file'' ''write'' [(''file_path'', ''src/b.txt'')])) = ActionAllow"
  by code_simp+

text \<open>
  The scope of a request is that of its first path argument; a grant that covers it also waves
  through the other path arguments of the call, though they lie outside the workspace.
\<close>

abbreviation granted_engine :: Engine where
  "granted_engine \<equiv> (demo_engine None)\<lparr>eng_sessionGrants := [(''read_file'', [demo_session_grant])]\<rparr>"

theorem grant_covers_other_paths:
  "dec_action (Evaluate demo_world None (Some granted_engine)
     (demo_request ''read_file'' ''read'' [(''path'', ''/root/key'')])) = ActionPrompt"
  "dec_action (Evaluate demo_world None (Some granted_engine)
     (demo_request ''read_file'' ''read'' [(''path'', ''/etc/hosts''), (''file_path'', ''/root/key'')])) = ActionAllow"
  by code_simp+

section \<open>Grants that are not what they say\<close>

text \<open>A grants file that cannot be read enforces no persistent deny.\<close>

theorem readable_store_denies:
  "dec_action (Evaluate demo_world None (Some (demo_engine (Some (Version2 [(''bash'', [demo_deny])] [])))) demo_ls)
     = ActionDeny"
  by code_simp

theorem unreadable_store_fails_open:
  "dec_action (Evaluate demo_world None (Some (demo_engine (Some (Malformed ''unexpected end of JSON input''))))
     demo_ls) = ActionAllow"
  by code_simp

text \<open>A grant recorded for the session is taken for an allow whatever its decision is.\<close>

theorem session_deny_allows:
  "dec_action (Evaluate demo_world None
     (Some ((demo_engine None)\<lparr>eng_sessionGrants :=
        [(''read_file'', [demo_session_grant\<lparr>grant_decision := GrantDeny\<rparr>])]\<rparr>)) demo_outside) = ActionAllow"
  by code_simp

section \<open>Paths\<close>

text \<open>
  A link inside an \<open>AllowRead\<close> subtree leads out of it: the path under the re-included directory
  is readable although it resolves to a denied file.
\<close>

definition leak_os :: os where
  "leak_os = \<lparr>files = fs_of [(''/w'', Directory), (''/w/secret'', Directory), (''/w/secret/pub'', Directory),
       (''/w/secret/pub/l'', Link ''../key''), (''/w/secret/key'', Regular)],
     cwd = ''/w'', home = None, env = (\<lambda>_. [])\<rparr>"

definition leak_policy :: Policy where
  "leak_policy = DefaultPolicy\<lparr>DenyRead := [''/w/secret''], AllowRead := [''/w/secret/pub'']\<rparr>"

theorem allow_read_link_leaks:
  "readDenied leak_os leak_policy ''/w'' ''/w/secret/key''"
  "\<not> readDenied leak_os leak_policy ''/w'' ''/w/secret/pub/l''"
  "eval_symlinks leak_os ''/w/secret/pub/l'' = Inr ''/w/secret/key''"
  by code_simp+

section \<open>Interactive commands\<close>

text \<open>
  A quoted payload of \<open>bash -c\<close> keeps its quotes, so the interactive command in it is missed;
  the comment on \<open>shellDashCPayload\<close> says that one layer of quotes is stripped.
\<close>

theorem quoted_payload_is_missed:
  "\<not> Interactive (DetectInteractiveCommand ''linux''
      (''bash -c '' @ [quote1] @ ''git rebase -i HEAD'' @ [quote1]))"
  "Interactive (DetectInteractiveCommand ''linux'' ''git rebase -i HEAD'')"
  by code_simp+

section \<open>System calls\<close>

text \<open>
  An x86-64 kernel that offers the x32 interface takes system calls with bit 30 set and reports
  them under the same architecture.  The network filter compares whole numbers, so it lets the x32
  number of \<open>socket\<close> through for every address family, and likewise every listed call.
\<close>

theorem x32_calls_allowed:
  assumes "data seccompOffsetArch = auditArchX86_64"
    and "data seccompOffsetNr \<in> (\<lambda>nr. or nr 0x40000000) `
      set (nrSocketX86_64 # nrSocketpairX86_64 # networkDenySyscallsX86_64)"
  shows "network_verdict data = seccompRetAllow"
  using assms
  by (auto simp: network_verdict_def section_verdict_def nrSocketX86_64_def nrSocketpairX86_64_def
      networkDenySyscallsX86_64_def)

end
