(* ===== verification/Agent_Properties.thy ===== *)
theory Agent_Properties
  imports Guardrails Repetition
begin

text \<open>
  What the runaway guards of the agent loop and the stream's repetition detector promise, stated
  over whole histories: when a run is halted, when a hint is injected, and which final messages
  count as an admission or as a halted run.
\<close>

section \<open>Halting a run\<close>

text \<open>C22: The turn guard halts exactly when it should.  After any history of turns, tool batches, results
  and reminders, a turn halts the run if and only if it is the sixth turn in a row (or a later one)
  without visible text and without an executed tool call, dropped and cut-off turns included, or it
  is a collected turn and at least the third collected turn in a row that did not even reason.\<close>

theorem turn_guard_exact:
  "turn_stops decode op (run_ops decode ops) \<longleftrightarrow>
     turn_op op \<and> (maxNoActionTurns \<le> idle_turns (ops @ [op]) \<or>
       collected_op op \<and> maxEmptyTurns \<le> silent_turns (ops @ [op]))"
proof -
  have idle: "noActionTurns (run_op decode (run_ops decode ops) op) = idle_turns (ops @ [op])"
    using noActionTurns_run [of decode "ops @ [op]"] by simp
  have silent: "emptyTurns (run_op decode (run_ops decode ops) op) = silent_turns (ops @ [op])"
    using emptyTurns_run [of decode "ops @ [op]"] by simp
  show ?thesis
    unfolding idle [symmetric] silent [symmetric] by (cases op) (auto simp: guard_ops Let_def)
qed

text \<open>The repeat guard halts exactly at the sixth tool batch in a row that only repeats calls of the run
  and changes no file, and injects its hint exactly at the third; any batch with a new call or a
  changed file starts the count again.\<close>

theorem repeat_guard_exact:
  "fst (observeNoOpToolCalls (call # calls) changedFiles (run_ops decode ops)) =
     (let n = repeats (ops @ [Calls (call # calls) changedFiles])
      in \<lparr>InjectHint = (n = noOpToolCallHintAt), Stop = (noOpToolCallStopAt \<le> n), Count = n\<rparr>)"
proof -
  let ?s = "run_ops decode ops" and ?op = "Calls (call # calls) changedFiles"
  have n: "repeats (ops @ [?op]) = noOpTurns (snd (observeNoOpToolCalls (call # calls) changedFiles ?s))"
    using noOpTurns_run [of decode "ops @ [?op]"] by simp
  show ?thesis
    unfolding n using noOp_reminder_run [of decode ops]
    by (auto simp: observeNoOpToolCalls_def Let_def mark_seen_eq no_outcome_def thresholds)
qed

text \<open>The failure guard counts, for every tool on its own, the failures in a row with the same error
  signature: it injects its hint exactly at the second, halts from the sixth on, and a success or
  a different error of that tool, and nothing else, starts the count again.\<close>

theorem failure_guard_exact:
  "fst (observeToolResult name True output (run_ops decode ops)) =
     (let n = Suc (same_failures name (errorSignature output) ops)
      in \<lparr>InjectHint = (n = toolFailureHintAt), Stop = (toolFailureStopAt \<le> n), Count = n\<rparr>)"
proof -
  let ?sig = "errorSignature output"
  define rs where "rs = rev (results_of name ops)"
  have r: "toolFailures (run_ops decode ops) name = failure_record rs"
    unfolding rs_def by (rule toolFailures_run)
  consider (none) "failure_record rs = None" "same_failures name ?sig ops = 0"
    | (other) sig rs' where "rs = (True, sig) # rs'" "sig \<noteq> ?sig"
    | (same) rs' where "rs = (True, ?sig) # rs'"
    using that by (cases rs; cases "hd rs"; cases "fst (hd rs)")
      (auto simp: failure_record_None same_failures_def rs_def [symmetric])
  then show ?thesis
  proof cases
    case none
    with r show ?thesis by (simp add: observeToolResult_def Let_def no_outcome_def thresholds)
  next
    case other
    then have "same_failures name ?sig ops = 0" by (simp add: same_failures_def rs_def [symmetric])
    with other r show ?thesis
      by (simp add: observeToolResult_def Let_def no_outcome_def thresholds failure_record_def)
  next
    case same
    then have "same_failures name ?sig ops = Suc (length (takeWhile (\<lambda>r. r = (True, ?sig)) rs'))"
      by (simp add: same_failures_def rs_def [symmetric])
    with same r show ?thesis
      by (auto simp: observeToolResult_def Let_def no_outcome_def thresholds failure_record_def Suc_le_eq)
  qed
qed

section \<open>Reading messages\<close>

text \<open>A halted run is recognised, and nothing else is: the recogniser accepts a message exactly when,
  trimmed, it is the fixed prefix, an integer and one of the guards' own tails, so every answer of
  the turn guards and the repeat guard is accepted, while the answer of the failure guard is not.\<close>

theorem stop_answers_recognised:
  assumes "turns < 2 ^ 63"
  shows "IsNoProgressStop (guardStopAnswer state turns) \<and> IsNoProgressStop (noOpToolCallStopAnswer turns) \<and>
    \<not> IsNoProgressStop (toolFailureStopAnswer tool turns) \<and>
    (IsNoProgressStop content \<longleftrightarrow>
       (\<exists>ds. \<exists>tail \<in> set guardStopTails. atoi ds \<noteq> None \<and>
          trim_space content = noOutputStopPrefix @ ds @ '' turns '' @ tail))"
proof -
  have n: "atoi (itoa turns) \<noteq> None" using assms atoi_itoa [of turns] by simp
  have trim: "trim_space (CHR ''A'' # x @ ''.'') = CHR ''A'' # x @ ''.''" for x
    by (simp add: trim_space_def trim_by_def trim_left_by_def trim_right_by_def is_space_def)
  have own: "IsNoProgressStop (noOutputStopPrefix @ itoa turns @ '' turns '' @ tail)"
    if t: "tail \<in> set guardStopTails" and dot: "has_suffix tail ''.''" for tail
  proof -
    obtain t where "tail = t @ ''.''" using dot by (auto simp: has_suffix_iff)
    then have "trim_space (noOutputStopPrefix @ itoa turns @ '' turns '' @ tail) =
        noOutputStopPrefix @ itoa turns @ '' turns '' @ tail"
      using trim [of "''gent stopped after '' @ itoa turns @ '' turns '' @ t"]
      by (simp add: noOutputStopPrefix_def)
    then show ?thesis unfolding IsNoProgressStop_shape using n t by blast
  qed
  have tails: "list_all (\<lambda>t. has_suffix t ''.'') guardStopTails" by code_simp
  note own' = own [OF _ tails [unfolded list_all_iff, rule_format]]
  have "IsNoProgressStop (guardStopAnswer state turns)"
    unfolding guardStopAnswer_def degenerateStopAnswer_def noActionStopAnswer_def noOutputStopAnswer_def
    using own' by (simp add: guardStopTails_def)
  moreover have "IsNoProgressStop (noOpToolCallStopAnswer turns)"
    unfolding noOpToolCallStopAnswer_def using own' by (simp add: guardStopTails_def)
  moreover have "\<not> has_prefix (trim_space (toolFailureStopAnswer tool turns)) noOutputStopPrefix"
  proof -
    obtain x where "toolFailureStopAnswer tool turns = CHR ''A'' # x @ ''.''" "has_prefix x ''gent stopped:''"
      by (simp add: toolFailureStopAnswer_def)
    then show ?thesis by (auto simp: trim noOutputStopPrefix_def has_prefix_iff)
  qed
  ultimately show ?thesis using IsNoProgressStop_shape [of content]
    by (simp add: IsNoProgressStop_def Let_def)
qed

theorem stop_answers_recognised_witness:
  "IsNoProgressStop (guardStopAnswer newGuardState 3) \<and> IsNoProgressStop (noOpToolCallStopAnswer 3) \<and>
    \<not> IsNoProgressStop (toolFailureStopAnswer ''bash'' 3) \<and>
    (IsNoProgressStop ''done'' \<longleftrightarrow>
       (\<exists>ds. \<exists>tail \<in> set guardStopTails. atoi ds \<noteq> None \<and>
          trim_space ''done'' = noOutputStopPrefix @ ds @ '' turns '' @ tail))"
  by (rule stop_answers_recognised) simp

text \<open>A final message is reported as an admission exactly when, outside balanced quotes, one of its
  sentences does not retell an earlier exchange and contains a phrase of the list, or an inability
  stem at least one of whose occurrences is not followed by a phrase of success.\<close>

theorem admission_exact:
  "selfReportedIncompletion text \<noteq> [] \<longleftrightarrow>
     (\<exists>sentence \<in> set (admissionSentences (to_lower (stripQuoted text))).
        \<not> contains_any sentence narrativeMarkers \<and>
        (contains_any sentence selfReportPhrases \<or>
         (\<exists>stem \<in> set inabilityStems. \<exists>a b. sentence = a @ stem @ b \<and>
            \<not> has_any_prefix (trim_space b) successNegationTails)))"
  unfolding selfReportedIncompletion_def first_admission_iff sentence_admits_iff genuine_at_def
  by (rule refl)

section \<open>Repetition in the stream\<close>

text \<open>C23: The repetition detector implements its specification however the stream is cut into deltas: it
  raises the alarm exactly when the normalized segments the whole stream closes have a non-empty
  prefix that is repeating, and its window never holds more than sixteen segments.\<close>

theorem repetition_detected:
  "(fst (feed_all deltas new_detector) \<longleftrightarrow>
      (\<exists>n \<in> {1..length (segments_from [] False (concat deltas))}.
         repeating (take n (segments_from [] False (concat deltas))))) \<and>
   length (recent (snd (feed_all deltas new_detector))) \<le> repetitionWindow"
  using feed_repeating [of new_detector "[]" "concat deltas"] feed_window [of new_detector "concat deltas"]
  by (simp add: feed_all_concat new_detector_def last_n_def)

end
