(* ===== verification/Edit_Match.thy ===== *)
theory Edit_Match
  imports Complex_Main Go_Regexp
begin

text \<open>
  The tolerant matching of the edit tools (\<open>internal/tools/edit_replacers.go\<close>) and the edit of one
  string shared by \<open>multi_edit\<close> and \<open>edit_file\<close> (\<open>applySingleEdit\<close> of \<open>multi_edit.go\<close>): the seven
  replacers, the cascade \<open>fuzzyEditMatch\<close>, the re-indentation of the replacement, and the edit
  distance.  Texts are byte strings of ASCII text.  The average similarity of a block, a
  \<open>float64\<close> in the code, is kept as an exact rational; the two differ by rounding only, so the
  model decides a block whose exact average lies within rounding of 0.65 by the exact value.
\<close>

section \<open>Lines and windows\<close>

abbreviation (input) lines_of :: "string \<Rightarrow> string list" where "lines_of \<equiv> split_on newline"
abbreviation (input) unlines :: "string list \<Rightarrow> string" where "unlines \<equiv> join [newline]"

definition windows :: "nat \<Rightarrow> 'a list \<Rightarrow> 'a list list" where
  "windows m xs = (if m \<le> length xs then map (\<lambda>i. take m (drop i xs)) [0..<Suc (length xs - m)] else [])"

definition count_newlines :: "string \<Rightarrow> nat" where
  "count_newlines s = length (filter (\<lambda>c. c = newline) s)"

definition splitFindLines :: "string \<Rightarrow> string list" where
  "splitFindLines findText =
     (let lines = lines_of findText in if last lines = [] then butlast lines else lines)"

definition blank_char :: "char \<Rightarrow> bool" where
  "blank_char c \<longleftrightarrow> c = CHR '' '' \<or> c = tab"

definition leadingWhitespace :: "string \<Rightarrow> string" where
  "leadingWhitespace line = takeWhile blank_char line"

section \<open>The edit distance\<close>

text \<open>One row of the two-row matrix: the cell to the left, the rest of b, the previous row.\<close>

fun lev_cells :: "char \<Rightarrow> nat \<Rightarrow> string \<Rightarrow> nat list \<Rightarrow> nat list" where
  "lev_cells x left (y # ys) (diag # up # previous) =
     (let m = min (min (up + 1) (left + 1)) (diag + (if x = y then 0 else 1))
      in m # lev_cells x m ys (up # previous))"
| "lev_cells x left _ _ = []"

fun lev_rows :: "nat \<Rightarrow> string \<Rightarrow> string \<Rightarrow> nat list \<Rightarrow> nat list" where
  "lev_rows i [] b previous = previous"
| "lev_rows i (x # a) b previous = lev_rows (Suc i) a b (Suc i # lev_cells x (Suc i) b previous)"

definition levenshtein :: "string \<Rightarrow> string \<Rightarrow> nat" where
  "levenshtein a b =
     (if a = [] then length b else if b = [] then length a
      else last (lev_rows 0 a b [0..<Suc (length b)]))"

section \<open>The replacers\<close>

definition lineTrimmedReplacer :: "string \<Rightarrow> string \<Rightarrow> string list" where
  "lineTrimmedReplacer content findText =
     (let findLines = splitFindLines findText
      in if findLines = [] then []
         else map unlines (filter (\<lambda>w. list_all2 (\<lambda>c f. trim_space c = trim_space f) w findLines)
           (windows (length findLines) (lines_of content))))"

text \<open>
  For every line that equals the first anchor, the first line two or more below it that equals the
  last anchor.
\<close>

definition anchored_spans :: "string \<Rightarrow> string \<Rightarrow> string list \<Rightarrow> (nat \<times> nat) list" where
  "anchored_spans firstAnchor lastAnchor contentLines =
     List.map_filter (\<lambda>i.
       if trim_space (contentLines ! i) \<noteq> firstAnchor then None
       else map_option (\<lambda>j. (i, j))
         (find (\<lambda>j. trim_space (contentLines ! j) = lastAnchor) [i + 2..<length contentLines]))
     [0..<length contentLines]"

definition span_text :: "string list \<Rightarrow> nat \<Rightarrow> nat \<Rightarrow> string" where
  "span_text contentLines i j = unlines (take (j + 1 - i) (drop i contentLines))"

definition line_similarity :: "string \<Rightarrow> string \<Rightarrow> rat" where
  "line_similarity contentLine findLine =
     (let maxLen = max (length contentLine) (length findLine)
      in if maxLen = 0 then 0
         else 1 - rat_of_nat (levenshtein contentLine findLine) / rat_of_nat maxLen)"

definition middleSimilarity :: "string list \<Rightarrow> string list \<Rightarrow> nat \<times> nat \<Rightarrow> rat" where
  "middleSimilarity contentLines findLines candidate =
     (case candidate of (start, end') \<Rightarrow>
       let searchBlockSize = length findLines;
           actualBlockSize = end' + 1 - start;
           linesToCheck = min (searchBlockSize - 2) (actualBlockSize - 2)
       in if linesToCheck = 0 then 1
          else sum_list (map (\<lambda>j. line_similarity (trim_space (contentLines ! (start + j)))
                                    (trim_space (findLines ! j)))
                 [1..<min (searchBlockSize - 1) (actualBlockSize - 1)]) / rat_of_nat linesToCheck)"

definition editAnchorSimilarityThreshold :: rat where
  "editAnchorSimilarityThreshold = 65 / 100"

definition nat_distance :: "nat \<Rightarrow> nat \<Rightarrow> nat" where
  "nat_distance a b = (if a \<le> b then b - a else a - b)"

definition blockAnchorReplacer :: "string \<Rightarrow> string \<Rightarrow> string list" where
  "blockAnchorReplacer content findText =
     (let findLines = splitFindLines findText; contentLines = lines_of content;
          searchBlockSize = length findLines;
          maxLineDelta = max 1 (searchBlockSize div 4);
          candidates = filter (\<lambda>(i, j). nat_distance (j - i + 1) searchBlockSize \<le> maxLineDelta)
            (anchored_spans (trim_space (hd findLines)) (trim_space (last findLines)) contentLines);
          scored = map (\<lambda>c. (c, middleSimilarity contentLines findLines c)) candidates;
          qualifying = filter (\<lambda>(_, s). editAnchorSimilarityThreshold \<le> s) scored
      in if length findLines < 3 then []
         else map (\<lambda>((i, j), _). span_text contentLines i j) (sort_key (\<lambda>(_, s). - s) qualifying))"

function collapse_spaces :: "string \<Rightarrow> string" where
  "collapse_spaces [] = []"
| "collapse_spaces (c # cs) =
     (if re_space c then CHR '' '' # collapse_spaces (dropWhile re_space cs)
      else c # collapse_spaces cs)"
  by pat_completeness auto
termination
  by (relation "measure length") (auto simp: le_imp_less_Suc length_dropWhile_le)

definition normalizeEditWhitespace :: "string \<Rightarrow> string" where
  "normalizeEditWhitespace text = trim_space (collapse_spaces text)"

text \<open>
  The sub-line pattern: the quoted words with \<open>\s+\<close> between them.  No word begins with a space, so
  the greedy run between two words is the only one that can match.
\<close>

fun match_words :: "string list \<Rightarrow> string \<Rightarrow> nat option" where
  "match_words [] s = Some 0"
| "match_words [w] s = (if has_prefix s w then Some (length w) else None)"
| "match_words (w # v # words) s =
     (if \<not> has_prefix s w then None
      else
        let rest = drop (length w) s; gap = length (takeWhile re_space rest)
        in if gap = 0 then None
           else map_option (\<lambda>n. length w + gap + n) (match_words (v # words) (drop gap rest)))"

fun find_words :: "string list \<Rightarrow> string \<Rightarrow> string" where
  "find_words words [] = []"
| "find_words words (c # cs) = (case match_words words (c # cs) of
      Some n \<Rightarrow> take n (c # cs) | None \<Rightarrow> find_words words cs)"

definition whitespaceNormalizedReplacer :: "string \<Rightarrow> string \<Rightarrow> string list" where
  "whitespaceNormalizedReplacer content findText =
     (let normalizedFind = normalizeEditWhitespace findText;
          contentLines = lines_of content;
          line_candidates = (\<lambda>line.
            let normalizedLine = normalizeEditWhitespace line
            in if normalizedLine = normalizedFind then [line]
               else if \<not> contains normalizedLine normalizedFind then []
               else let m = find_words (str_fields findText) line in if m \<noteq> [] then [m] else []);
          findLines = lines_of findText;
          block_candidates = (if 1 < length findLines
            then filter (\<lambda>b. normalizeEditWhitespace b = normalizedFind)
              (map unlines (windows (length findLines) contentLines))
            else [])
      in if normalizedFind = [] then [] else List.concat (map line_candidates contentLines) @ block_candidates)"

definition stripCommonIndentation :: "string \<Rightarrow> string" where
  "stripCommonIndentation text =
     (let lines = lines_of text;
          indents = map (\<lambda>l. length (leadingWhitespace l)) (filter (\<lambda>l. trim_space l \<noteq> []) lines);
          minIndent = (if indents = [] then 0 else Min (set indents))
      in if minIndent = 0 then text
         else unlines (map (\<lambda>l. if trim_space l = [] then l else drop minIndent l) lines))"

definition indentationFlexibleReplacer :: "string \<Rightarrow> string \<Rightarrow> string list" where
  "indentationFlexibleReplacer content findText =
     (let normalizedFind = stripCommonIndentation findText
      in filter (\<lambda>b. stripCommonIndentation b = normalizedFind)
           (map unlines (windows (length (lines_of findText)) (lines_of content))))"

definition escapable :: "char \<Rightarrow> bool" where
  "escapable c \<longleftrightarrow> c \<in> {CHR ''n'', CHR ''t'', CHR ''r'', quote1, quote2, backtick, backslash, newline, CHR ''$''}"

definition unescaped :: "char \<Rightarrow> char" where
  "unescaped c = (if c = CHR ''n'' then newline else if c = CHR ''t'' then tab
     else if c = CHR ''r'' then cr else c)"

fun unescapeEditString :: "string \<Rightarrow> string" where
  "unescapeEditString (c # d # cs) =
     (if c = backslash \<and> escapable d then unescaped d # unescapeEditString cs
      else c # unescapeEditString (d # cs))"
| "unescapeEditString s = s"

definition escapeNormalizedReplacer :: "string \<Rightarrow> string \<Rightarrow> string list" where
  "escapeNormalizedReplacer content findText =
     (let unescapedFind = unescapeEditString findText
      in (if contains content unescapedFind then [unescapedFind] else []) @
         filter (\<lambda>b. unescapeEditString b = unescapedFind)
           (map unlines (windows (length (lines_of unescapedFind)) (lines_of content))))"

definition trimmedBoundaryReplacer :: "string \<Rightarrow> string \<Rightarrow> string list" where
  "trimmedBoundaryReplacer content findText =
     (let trimmedFind = trim_space findText
      in if trimmedFind = findText \<or> trimmedFind = [] then []
         else (if contains content trimmedFind then [trimmedFind] else []) @
           filter (\<lambda>b. trim_space b = trimmedFind)
             (map unlines (windows (length (lines_of findText)) (lines_of content))))"

definition middle_matches :: "string list \<Rightarrow> string list \<Rightarrow> nat \<Rightarrow> bool" where
  "middle_matches contentLines findLines i =
     (let pairs = filter (\<lambda>(b, f). b \<noteq> [] \<or> f \<noteq> [])
            (map (\<lambda>k. (trim_space (contentLines ! (i + k)), trim_space (findLines ! k)))
              [1..<length findLines - 1]);
          matching = length (filter (\<lambda>(b, f). b = f) pairs)
      in pairs = [] \<or> length pairs \<le> 2 * matching)"

definition contextAwareReplacer :: "string \<Rightarrow> string \<Rightarrow> string list" where
  "contextAwareReplacer content findText =
     (let findLines = splitFindLines findText; contentLines = lines_of content
      in if length findLines < 3 then []
         else map (\<lambda>(i, j). span_text contentLines i j)
           (filter (\<lambda>(i, j). j - i + 1 = length findLines \<and> middle_matches contentLines findLines i)
             (anchored_spans (trim_space (hd findLines)) (trim_space (last findLines)) contentLines)))"

section \<open>The cascade\<close>

datatype fuzzy_error = FuzzyNotFound | FuzzyAmbiguous | FuzzyTooLarge

text \<open>The distinct non-empty candidates of one replacer that occur literally in the content.\<close>

fun distinct_from :: "string list \<Rightarrow> string list \<Rightarrow> string list" where
  "distinct_from seen [] = []"
| "distinct_from seen (s # ss) =
     (if s = [] \<or> s \<in> set seen then distinct_from seen ss else s # distinct_from (s # seen) ss)"

definition literal_candidates :: "string \<Rightarrow> string list \<Rightarrow> string list" where
  "literal_candidates content proposed = filter (contains content) (distinct_from [] proposed)"

definition isDisproportionateEditMatch :: "string \<Rightarrow> string \<Rightarrow> bool" where
  "isDisproportionateEditMatch search findText =
     (let findLines = count_newlines findText + 1; searchLines = count_newlines search + 1;
          limit = max (findLines + 3) (findLines * 2);
          searchTrimmed = length (trim_space search); findTrimmed = length (trim_space findText);
          byteLimit = max (findTrimmed + 500) (findTrimmed * 4)
      in if limit \<le> searchLines then True
         else if findLines = 1 then False
         else byteLimit < searchTrimmed)"

definition replacers :: "(string \<Rightarrow> string \<Rightarrow> string list) list" where
  "replacers = [lineTrimmedReplacer, blockAnchorReplacer, whitespaceNormalizedReplacer,
     indentationFlexibleReplacer, escapeNormalizedReplacer, trimmedBoundaryReplacer,
     contextAwareReplacer]"

fun cascade :: "string \<Rightarrow> string \<Rightarrow> bool \<Rightarrow> bool \<Rightarrow> (string \<Rightarrow> string \<Rightarrow> string list) list \<Rightarrow>
    fuzzy_error + string" where
  "cascade content findText replaceAll found [] = Inl (if found then FuzzyAmbiguous else FuzzyNotFound)"
| "cascade content findText replaceAll found (replacer # rs) =
     (case literal_candidates content (replacer content findText) of
        [] \<Rightarrow> cascade content findText replaceAll found rs
      | search # more \<Rightarrow>
          if \<not> replaceAll \<and> more \<noteq> [] then Inl FuzzyAmbiguous
          else if isDisproportionateEditMatch search findText then Inl FuzzyTooLarge
          else if replaceAll then Inr search
          else if index_of content search = last_index_of content search then Inr search
          else cascade content findText replaceAll True rs)"

definition fuzzyEditMatch :: "string \<Rightarrow> string \<Rightarrow> bool \<Rightarrow> fuzzy_error + string" where
  "fuzzyEditMatch content findText replaceAll = cascade content findText replaceAll False replacers"

section \<open>Adapting the replacement\<close>

fun indent_delta :: "string option \<Rightarrow> (string \<times> string) list \<Rightarrow> string option option" where
  "indent_delta delta [] = Some delta"
| "indent_delta delta ((spanRaw, findRaw) # rest) =
     (let spanLine = trim_suffix spanRaw [cr]; findLine = trim_suffix findRaw [cr];
          spanIndent = leadingWhitespace spanLine; findIndent = leadingWhitespace findLine;
          lineDelta = take (length spanIndent - length findIndent) spanIndent
      in if trim_space spanLine = [] \<and> trim_space findLine = [] then indent_delta delta rest
         else if \<not> has_suffix spanIndent findIndent then None
         else (case delta of
             None \<Rightarrow> indent_delta (Some lineDelta) rest
           | Some d \<Rightarrow> if lineDelta \<noteq> d then None else indent_delta delta rest))"

definition uniformIndentDelta :: "string \<Rightarrow> string \<Rightarrow> string option" where
  "uniformIndentDelta spanText findText =
     (let spanLines = lines_of spanText; findLines = splitFindLines findText
      in if length spanLines \<noteq> length findLines then None
         else (case indent_delta None (zip spanLines findLines) of
             Some (Some d) \<Rightarrow> Some d | _ \<Rightarrow> None))"

definition indent_lines :: "string \<Rightarrow> string \<Rightarrow> string" where
  "indent_lines delta text =
     unlines (map (\<lambda>l. if trim_space l = [] then l else delta @ l) (lines_of text))"

definition adaptReplacementToSpan :: "string \<Rightarrow> string \<Rightarrow> string \<Rightarrow> string" where
  "adaptReplacementToSpan spanText findText replacement =
     (let shifted = (case uniformIndentDelta spanText findText of
            Some delta \<Rightarrow> if delta \<noteq> [] then indent_lines delta replacement else replacement
          | None \<Rightarrow> replacement)
      in if has_suffix spanText [cr] \<and> \<not> has_suffix shifted [cr] then shifted @ [cr] else shifted)"

section \<open>One edit\<close>

text \<open>\<open>strings.Count\<close>: occurrences that do not overlap; the empty string occurs around every byte.\<close>

function count_from :: "string \<Rightarrow> string \<Rightarrow> nat" where
  "count_from [] sub = 0"
| "count_from (c # s) sub =
     (if sub \<noteq> [] \<and> has_prefix (c # s) sub then Suc (count_from (drop (length sub) (c # s)) sub)
      else count_from s sub)"
  by pat_completeness auto
termination
  by (relation "measure (\<lambda>(s, _). length s)") (auto simp: neq_Nil_conv)

definition str_count :: "string \<Rightarrow> string \<Rightarrow> nat" where
  "str_count s sub = (if sub = [] then length s + 1 else count_from s sub)"

definition go_replace_all :: "string \<Rightarrow> string \<Rightarrow> string \<Rightarrow> string" where
  "go_replace_all s old new =
     (if old = [] then new @ List.concat (map (\<lambda>c. c # new) s) else replace_all s old new)"

definition replace_first :: "string \<Rightarrow> string \<Rightarrow> string \<Rightarrow> string" where
  "replace_first s old new =
     (case index_of s old of None \<Rightarrow> s | Some i \<Rightarrow> take i s @ new @ drop (i + length old) s)"

record MultiEditInput =
  OldString :: string
  NewString :: string
  ReplaceAll :: bool

datatype edit_error = Edit_Ambiguous | Edit_Too_Large | Edit_Not_Found | Edit_Many nat

abbreviation (input) crlf :: string where "crlf \<equiv> [cr, newline]"

text \<open>The search string, the replacement and the number of occurrences after the fallbacks.\<close>

definition exact_edit :: "string \<Rightarrow> MultiEditInput \<Rightarrow> string \<times> string \<times> nat" where
  "exact_edit content edit =
     (let oldString = OldString edit; newString = NewString edit;
          occurrences = str_count content oldString;
          crlfOld = go_replace_all oldString [newline] crlf
      in if occurrences = 0 \<and> contains content crlf \<and> \<not> contains oldString crlf \<and>
            0 < str_count content crlfOld
         then (crlfOld,
               if contains newString crlf then newString else go_replace_all newString [newline] crlf,
               str_count content crlfOld)
         else (oldString, newString, occurrences))"

definition resolve_edit :: "string \<Rightarrow> MultiEditInput \<Rightarrow> edit_error + string \<times> string \<times> nat" where
  "resolve_edit content edit =
     (case exact_edit content edit of (oldString, newString, occurrences) \<Rightarrow>
        if occurrences \<noteq> 0 then Inr (oldString, newString, occurrences)
        else
          let translate = contains content crlf \<and> \<not> contains oldString crlf;
              findOld = (if translate then go_replace_all oldString [newline] crlf else oldString);
              findNew = (if translate then go_replace_all newString [newline] crlf else newString)
          in (case fuzzyEditMatch content findOld (ReplaceAll edit) of
                Inr search \<Rightarrow> Inr (search, adaptReplacementToSpan search findOld findNew, str_count content search)
              | Inl FuzzyAmbiguous \<Rightarrow> Inl Edit_Ambiguous
              | Inl FuzzyNotFound \<Rightarrow> Inr (oldString, newString, occurrences)
              | Inl FuzzyTooLarge \<Rightarrow> Inl Edit_Too_Large))"

definition applySingleEdit :: "string \<Rightarrow> MultiEditInput \<Rightarrow> edit_error + string" where
  "applySingleEdit content edit =
     (case resolve_edit content edit of
        Inl e \<Rightarrow> Inl e
      | Inr (oldString, newString, occurrences) \<Rightarrow>
          if occurrences = 0 then Inl Edit_Not_Found
          else if \<not> ReplaceAll edit \<and> 1 < occurrences then Inl (Edit_Many occurrences)
          else if ReplaceAll edit then Inr (go_replace_all content oldString newString)
          else Inr (replace_first content oldString newString))"

text \<open>The loop of \<open>multi_edit\<close>: the first failure, with its number, abandons every edit.\<close>

fun apply_edits :: "nat \<Rightarrow> string \<Rightarrow> MultiEditInput list \<Rightarrow> nat \<times> edit_error + string" where
  "apply_edits index content [] = Inr content"
| "apply_edits index content (edit # edits) =
     (case applySingleEdit content edit of
        Inl e \<Rightarrow> Inl (index + 1, e)
      | Inr updated \<Rightarrow> apply_edits (index + 1) updated edits)"

section \<open>Occurrences\<close>

lemma index_of_le: "s = a @ sub @ b \<Longrightarrow> \<exists>i \<le> length a. index_of s sub = Some i"
proof (induction a arbitrary: s)
  case Nil
  then have "has_prefix s sub" by simp
  then show ?case by (cases s) auto
next
  case (Cons c a)
  then show ?case by (cases "has_prefix s sub") auto
qed

lemma last_index_of_ge: "s = a @ sub @ b \<Longrightarrow> \<exists>i \<ge> length a. last_index_of s sub = Some i"
proof (induction a arbitrary: s)
  case Nil
  then have "has_prefix s sub" by simp
  then show ?case by (cases s) (auto split: option.splits)
next
  case (Cons c a)
  then obtain i where "length a \<le> i" "last_index_of (a @ sub @ b) sub = Some i" by blast
  with Cons.prems show ?case by auto
qed

lemma single_occurrence:
  assumes "index_of s sub = last_index_of s sub" "s = a @ sub @ b" "s = a' @ sub @ b'"
  shows "a = a' \<and> b = b'"
proof -
  obtain i j where i: "i \<le> length a" "index_of s sub = Some i" and j: "length a' \<le> j" "last_index_of s sub = Some j"
    using index_of_le [OF assms(2)] last_index_of_ge [OF assms(3)] by blast
  obtain i' j' where i': "i' \<le> length a'" "index_of s sub = Some i'" and j': "length a \<le> j'" "last_index_of s sub = Some j'"
    using index_of_le [OF assms(3)] last_index_of_ge [OF assms(2)] by blast
  have "length a = length a'" using i j i' j' assms(1) by simp
  then show ?thesis using assms(2,3) by simp
qed

section \<open>The cascade\<close>

lemma distinct_from_props:
  "s \<in> set (distinct_from seen ss) \<Longrightarrow> s \<in> set ss \<and> s \<noteq> [] \<and> s \<notin> set seen"
  by (induction seen ss rule: distinct_from.induct) (auto split: if_splits)

lemma distinct_from_all:
  "s \<in> set ss \<Longrightarrow> s \<noteq> [] \<Longrightarrow> s \<notin> set seen \<Longrightarrow> s \<in> set (distinct_from seen ss)"
  by (induction seen ss rule: distinct_from.induct) auto

lemma distinct_from_distinct: "distinct (distinct_from seen ss)"
  by (induction seen ss rule: distinct_from.induct) (auto dest: distinct_from_props)

lemma literal_candidates_iff:
  "s \<in> set (literal_candidates content proposed) \<longleftrightarrow> s \<in> set proposed \<and> s \<noteq> [] \<and> contains content s"
  by (auto simp: literal_candidates_def dest: distinct_from_props intro: distinct_from_all)

lemma cascade_sound:
  "cascade content findText replaceAll found rs = Inr search \<Longrightarrow>
   (\<exists>replacer \<in> set rs. search \<in> set (literal_candidates content (replacer content findText)) \<and>
      (replaceAll \<or> literal_candidates content (replacer content findText) = [search])) \<and>
   \<not> isDisproportionateEditMatch search findText \<and>
   (replaceAll \<or> index_of content search = last_index_of content search)"
  by (induction content findText replaceAll found rs rule: cascade.induct)
    (fastforce split: list.splits if_splits)+

lemma fuzzy_sound:
  assumes "fuzzyEditMatch content findText replaceAll = Inr search"
  shows "search \<noteq> [] \<and> contains content search \<and> \<not> isDisproportionateEditMatch search findText \<and>
    (\<exists>replacer \<in> set replacers. search \<in> set (replacer content findText) \<and>
       (replaceAll \<or> (\<forall>other \<in> set (replacer content findText).
          other \<noteq> [] \<longrightarrow> contains content other \<longrightarrow> other = search)))"
proof -
  obtain replacer where r: "replacer \<in> set replacers"
      "search \<in> set (literal_candidates content (replacer content findText))"
      "replaceAll \<or> literal_candidates content (replacer content findText) = [search]"
      "\<not> isDisproportionateEditMatch search findText"
    using cascade_sound [of content findText replaceAll False replacers search] assms
    by (auto simp: fuzzyEditMatch_def)
  have "other = search" if "literal_candidates content (replacer content findText) = [search]"
      "other \<in> set (replacer content findText)" "other \<noteq> []" "contains content other" for other
    using that literal_candidates_iff [of other content "replacer content findText"] by simp
  then show ?thesis using r literal_candidates_iff [of search content "replacer content findText"] by blast
qed

lemma fuzzy_unique:
  assumes "fuzzyEditMatch content findText False = Inr search"
    "content = a @ search @ b" "content = a' @ search @ b'"
  shows "a = a' \<and> b = b'"
proof -
  have "index_of content search = last_index_of content search"
    using cascade_sound [of content findText False False replacers search] assms(1)
    by (simp add: fuzzyEditMatch_def)
  then show ?thesis using assms(2,3) by (rule single_occurrence)
qed

section \<open>One edit\<close>

lemma count_from_zero: "sub \<noteq> [] \<Longrightarrow> count_from s sub = 0 \<longleftrightarrow> \<not> contains s sub"
  by (induction s sub rule: count_from.induct) (auto simp: neq_Nil_conv)

lemma str_count_zero: "str_count s sub = 0 \<longleftrightarrow> \<not> contains s sub"
proof (cases "sub = []")
  case True
  then show ?thesis by (cases s) (auto simp: str_count_def)
next
  case False
  then show ?thesis by (simp add: str_count_def count_from_zero)
qed

lemma count_first:
  "index_of s sub = Some i \<Longrightarrow> sub \<noteq> [] \<Longrightarrow> count_from s sub = Suc (count_from (drop (i + length sub) s) sub)"
  by (induction s sub arbitrary: i rule: count_from.induct) (auto split: if_splits)

lemma resolve_edit_occurs:
  assumes "resolve_edit content edit = Inr (old, new, n)"
  shows "n = str_count content old"
  using assms
  by (auto simp: resolve_edit_def exact_edit_def Let_def split: if_splits sum.splits fuzzy_error.splits prod.splits)

lemma applySingleEdit_one:
  assumes "applySingleEdit content edit = Inr updated" "\<not> ReplaceAll edit"
  shows "\<exists>old new a b. resolve_edit content edit = Inr (old, new, 1) \<and> str_count content old = 1 \<and>
    content = a @ old @ b \<and> updated = a @ new @ b \<and> (old \<noteq> [] \<longrightarrow> \<not> contains b old)"
proof -
  obtain old new n where r: "resolve_edit content edit = Inr (old, new, n)" "n = 1" "updated = replace_first content old new"
    using assms by (auto simp: applySingleEdit_def split: sum.splits prod.splits if_splits)
  have c: "str_count content old = 1" using resolve_edit_occurs [OF r(1)] r(2) by simp
  then have "contains content old" using str_count_zero [of content old] by simp
  then obtain i where i: "index_of content old = Some i" using index_of_None [of content old] by auto
  have "count_from (drop (i + length old) content) old = 0" if "old \<noteq> []"
    using count_first [OF i that] c that by (simp add: str_count_def)
  then have "old \<noteq> [] \<longrightarrow> \<not> contains (drop (i + length old) content) old" by (simp add: count_from_zero)
  then show ?thesis using r c i index_of_drop [OF i] by (auto simp: replace_first_def)
qed

lemma exact_edit_used:
  assumes "0 < str_count content (OldString edit)"
  shows "resolve_edit content edit = Inr (OldString edit, NewString edit, str_count content (OldString edit))"
  using assms by (simp add: resolve_edit_def exact_edit_def Let_def)

section \<open>Several edits\<close>

lemma apply_edits_append:
  "apply_edits n content (as @ bs) =
     (case apply_edits n content as of Inl e \<Rightarrow> Inl e | Inr c \<Rightarrow> apply_edits (n + length as) c bs)"
  by (induction n content "as" rule: apply_edits.induct) (auto split: sum.splits)

lemma apply_edits_error:
  "apply_edits n content edits = Inl (i, e) \<longleftrightarrow>
     (\<exists>k c. i = n + k + 1 \<and> k < length edits \<and> apply_edits n content (take k edits) = Inr c \<and>
        applySingleEdit c (edits ! k) = Inl e)"
proof (induction n content edits rule: apply_edits.induct)
  case (2 n content edit edits)
  show ?case
  proof (cases "applySingleEdit content edit")
    case (Inl x)
    have z: "k = 0 \<and> c = content" if "apply_edits n content (take k (edit # edits)) = Inr c" for k c
      using Inl that by (cases k) auto
    show ?thesis
    proof
      assume "apply_edits n content (edit # edits) = Inl (i, e)"
      with Inl show "\<exists>k c. i = n + k + 1 \<and> k < length (edit # edits) \<and>
          apply_edits n content (take k (edit # edits)) = Inr c \<and> applySingleEdit c ((edit # edits) ! k) = Inl e"
        by (intro exI [of _ 0] exI [of _ content]) simp
    next
      assume "\<exists>k c. i = n + k + 1 \<and> k < length (edit # edits) \<and>
          apply_edits n content (take k (edit # edits)) = Inr c \<and> applySingleEdit c ((edit # edits) ! k) = Inl e"
      then obtain k c where "i = n + k + 1" "apply_edits n content (take k (edit # edits)) = Inr c"
        "applySingleEdit c ((edit # edits) ! k) = Inl e" by blast
      with z Inl show "apply_edits n content (edit # edits) = Inl (i, e)" by fastforce
    qed
  next
    case (Inr c')
    have "(\<exists>k c. i = n + k + 1 \<and> k < length (edit # edits) \<and> apply_edits n content (take k (edit # edits)) = Inr c \<and>
        applySingleEdit c ((edit # edits) ! k) = Inl e) \<longleftrightarrow>
      (\<exists>k c. i = (n + 1) + k + 1 \<and> k < length edits \<and> apply_edits (n + 1) c' (take k edits) = Inr c \<and>
        applySingleEdit c (edits ! k) = Inl e)" (is "?L \<longleftrightarrow> ?R")
    proof
      assume ?L
      then obtain k c where k: "i = n + k + 1" "k < length (edit # edits)"
        "apply_edits n content (take k (edit # edits)) = Inr c" "applySingleEdit c ((edit # edits) ! k) = Inl e" by blast
      then obtain j where "k = Suc j" using Inr by (cases k) auto
      with k Inr show ?R by (intro exI [of _ j] exI [of _ c]) simp
    next
      assume ?R
      then obtain k c where "i = (n + 1) + k + 1" "k < length edits" "apply_edits (n + 1) c' (take k edits) = Inr c"
        "applySingleEdit c (edits ! k) = Inl e" by blast
      with Inr show ?L by (intro exI [of _ "Suc k"] exI [of _ c]) simp
    qed
    then show ?thesis using 2 [OF Inr] Inr by simp
  qed
qed simp

section \<open>Windows and indentation\<close>

lemma windows_iff: "w \<in> set (windows m xs) \<longleftrightarrow> length w = m \<and> (\<exists>a b. xs = a @ w @ b)"
proof
  assume "w \<in> set (windows m xs)"
  then have "m \<le> length xs" "w \<in> (\<lambda>i. take m (drop i xs)) ` {0..<Suc (length xs - m)}"
    by (simp_all add: windows_def del: upt_Suc split: if_splits)
  then obtain i where i: "i \<le> length xs - m" "m \<le> length xs" "w = take m (drop i xs)"
    by (auto simp: less_Suc_eq_le)
  then have "xs = take i xs @ w @ drop (i + m) xs"
    by (metis add.commute append_take_drop_id drop_drop)
  with i show "length w = m \<and> (\<exists>a b. xs = a @ w @ b)" by auto
next
  assume "length w = m \<and> (\<exists>a b. xs = a @ w @ b)"
  then obtain a b where "length w = m" "xs = a @ w @ b" by blast
  then have "w = take m (drop (length a) xs)" "length a \<in> set [0..<Suc (length xs - m)]" "m \<le> length xs"
    by simp_all
  then show "w \<in> set (windows m xs)" by (simp add: windows_def del: upt_Suc)
qed

lemma lineTrimmed_iff:
  "s \<in> set (lineTrimmedReplacer content findText) \<longleftrightarrow> splitFindLines findText \<noteq> [] \<and>
     (\<exists>before w after. lines_of content = before @ w @ after \<and> s = unlines w \<and>
        list_all2 (\<lambda>c f. trim_space c = trim_space f) w (splitFindLines findText))"
  by (auto simp: lineTrimmedReplacer_def Let_def windows_iff dest: list_all2_lengthD)

lemma trim_suffix_blank: "trim_space (trim_suffix l [cr]) = [] \<longleftrightarrow> trim_space l = []"
proof (cases "has_suffix l [cr]")
  case True
  then obtain t where "l = t @ [cr]" by (auto simp: has_suffix_iff)
  then show ?thesis by (simp add: trim_suffix_def has_suffix_iff trim_space_Nil_iff is_space_def)
qed (simp add: trim_suffix_def)

lemma trim_suffix_append: "l \<noteq> [] \<Longrightarrow> trim_suffix (d @ l) [cr] = d @ trim_suffix l [cr]"
proof -
  assume "l \<noteq> []"
  then obtain t c where "l = t @ [c]" by (metis rev_exhaust)
  then show ?thesis by (simp add: trim_suffix_def has_suffix_iff)
qed

abbreviation (input) indent_line :: "string \<Rightarrow> string \<Rightarrow> string" where
  "indent_line delta l \<equiv> if trim_space l = [] then l else delta @ l"

lemma indent_delta_indented:
  assumes "\<forall>c \<in> set d. blank_char c" "delta = None \<or> delta = Some d"
  shows "indent_delta delta (zip (map (indent_line d) ls) ls) =
    Some (if \<exists>l \<in> set ls. trim_space l \<noteq> [] then Some d else delta)"
  using assms(2)
proof (induction ls arbitrary: delta)
  case (Cons l ls)
  show ?case
  proof (cases "trim_space l = []")
    case True
    then show ?thesis using Cons by (simp add: trim_suffix_blank Let_def)
  next
    case False
    then have ne: "l \<noteq> []" by auto
    have lead: "leadingWhitespace (d @ x) = d @ leadingWhitespace x" for x
      using assms(1) by (simp add: leadingWhitespace_def)
    have nb: "trim_space (d @ trim_suffix l [cr]) \<noteq> []"
      using False trim_suffix_blank [of l] by (auto simp: trim_space_Nil_iff)
    show ?thesis
      using Cons False nb
      by (auto simp: trim_suffix_append [OF ne] trim_suffix_blank lead Let_def has_suffix_iff)
  qed
qed simp

lemma blank_no_newline: "\<forall>c \<in> set d. blank_char c \<Longrightarrow> newline \<notin> set d"
proof -
  have "\<not> blank_char newline" by (simp add: blank_char_def)
  then show "\<forall>c \<in> set d. blank_char c \<Longrightarrow> newline \<notin> set d" by blast
qed

lemma lines_of_indent:
  assumes "\<forall>c \<in> set d. blank_char c"
  shows "lines_of (indent_lines d text) = map (indent_line d) (lines_of text)"
  unfolding indent_lines_def using blank_no_newline [OF assms] split_on_parts [of _ newline "text"]
  by (intro split_on_join) auto

lemma indent_lines_Nil [simp]: "indent_lines [] text = text"
proof -
  have "indent_line [] = (\<lambda>l. l)" by auto
  then show ?thesis by (simp add: indent_lines_def)
qed

lemma uniformIndentDelta_indented:
  assumes "\<forall>c \<in> set d. blank_char c" "last (lines_of findText) \<noteq> []"
    "\<exists>l \<in> set (lines_of findText). trim_space l \<noteq> []"
  shows "uniformIndentDelta (indent_lines d findText) findText = Some d"
  using indent_delta_indented [OF assms(1), of None "lines_of findText"] assms(2,3)
  by (simp add: uniformIndentDelta_def Let_def splitFindLines_def lines_of_indent [OF assms(1)])

end
