(* ===== verification/Edit_Distance.thy ===== *)
theory Edit_Distance
  imports Edit_Match
begin

text \<open>
  The two-row edit distance of \<open>edit_replacers.go\<close> computes the cost of the cheapest edit script:
  scripts and their cost, the recursive distance, and the matrix as its tabulation.
\<close>

section \<open>Edit scripts\<close>

text \<open>The specification of the distance: the cheapest script of single-character edits.\<close>

datatype edit_step = Keep char | Subst char char | Insert char | Delete char

fun script_source :: "edit_step list \<Rightarrow> string" where
  "script_source [] = []"
| "script_source (Keep c # es) = c # script_source es"
| "script_source (Subst c d # es) = c # script_source es"
| "script_source (Insert d # es) = script_source es"
| "script_source (Delete c # es) = c # script_source es"

fun script_target :: "edit_step list \<Rightarrow> string" where
  "script_target [] = []"
| "script_target (Keep c # es) = c # script_target es"
| "script_target (Subst c d # es) = d # script_target es"
| "script_target (Insert d # es) = d # script_target es"
| "script_target (Delete c # es) = script_target es"

fun step_cost :: "edit_step \<Rightarrow> nat" where
  "step_cost (Keep c) = 0" | "step_cost _ = 1"

definition script_cost :: "edit_step list \<Rightarrow> nat" where
  "script_cost es = sum_list (map step_cost es)"

text \<open>The recursive distance the matrix tabulates.\<close>

fun distance :: "string \<Rightarrow> string \<Rightarrow> nat" where
  "distance [] b = length b"
| "distance a [] = length a"
| "distance (x # a) (y # b) =
     min (min (distance (x # a) b + 1) (distance a (y # b) + 1)) (distance a b + (if x = y then 0 else 1))"

lemma distance_Nil [simp]: "distance a [] = length a"
  by (cases a) auto

lemma distance_Cons1: "distance (x # a) b \<le> Suc (distance a b)"
  by (cases b) auto

lemma distance_Cons2: "distance a (y # b) \<le> Suc (distance a b)"
  by (cases a) auto

lemma distance_lower: "distance (script_source es) (script_target es) \<le> script_cost es"
proof (induction es)
  case (Cons e es)
  then show ?case
    using distance_Cons1 [of _ "script_source es" "script_target es"]
      distance_Cons2 [of "script_source es" _ "script_target es"]
    by (cases e) (auto simp: script_cost_def min_def intro: order_trans)
qed (simp add: script_cost_def)

lemma min_of_three: "min (min p q) r = p \<or> min (min p q) r = q \<or> min (min p q) r = (r::nat)"
  by (simp add: min_def)

lemma distance_script:
  "\<exists>es. script_source es = a \<and> script_target es = b \<and> script_cost es = distance a b"
proof (induction a b rule: distance.induct)
  case (1 b)
  show ?case
    by (induction b) (auto simp: script_cost_def intro: exI [of _ "[]"] exI [of _ "Insert _ # _"])
next
  case (2 x a)
  have "\<exists>es. script_source es = a \<and> script_target es = [] \<and> script_cost es = length a" for a
    by (induction a) (auto simp: script_cost_def intro: exI [of _ "[]"] exI [of _ "Delete _ # _"])
  from this [of "x # a"] show ?case by simp
next
  case (3 x a y b)
  let ?d = "distance (x # a) (y # b)"
  consider "?d = distance (x # a) b + 1" | "?d = distance a (y # b) + 1"
    | "?d = distance a b + (if x = y then 0 else 1)"
    using min_of_three [of "distance (x # a) b + 1" "distance a (y # b) + 1"
        "distance a b + (if x = y then 0 else 1)"] that unfolding distance.simps(3) by blast
  then show ?case
  proof cases
    case 1
    with 3(1) obtain es where "script_source es = x # a" "script_target es = b" "script_cost es + 1 = ?d" by auto
    then have "script_source (Insert y # es) = x # a \<and> script_target (Insert y # es) = y # b \<and>
        script_cost (Insert y # es) = ?d" by (simp add: script_cost_def)
    then show ?thesis by blast
  next
    case 2
    with 3(2) obtain es where "script_source es = a" "script_target es = y # b" "script_cost es + 1 = ?d" by auto
    then have "script_source (Delete x # es) = x # a \<and> script_target (Delete x # es) = y # b \<and>
        script_cost (Delete x # es) = ?d" by (simp add: script_cost_def)
    then show ?thesis by blast
  next
    case 3
    with "3.IH"(3) obtain es where "script_source es = a" "script_target es = b"
      "script_cost es + (if x = y then 0 else 1) = ?d" by metis
    then have "script_source ((if x = y then Keep x else Subst x y) # es) = x # a \<and>
        script_target ((if x = y then Keep x else Subst x y) # es) = y # b \<and>
        script_cost ((if x = y then Keep x else Subst x y) # es) = ?d"
      by (cases "x = y") (simp_all add: script_cost_def del: distance.simps)
    then show ?thesis by blast
  qed
qed

text \<open>Reversing a script reverses its ends and keeps its cost.\<close>

lemma script_append [simp]:
  "script_source (es @ fs) = script_source es @ script_source fs"
  "script_target (es @ fs) = script_target es @ script_target fs"
proof -
  show "script_source (es @ fs) = script_source es @ script_source fs"
    by (induction es rule: script_source.induct) auto
  show "script_target (es @ fs) = script_target es @ script_target fs"
    by (induction es rule: script_target.induct) auto
qed

lemma script_rev [simp]:
  "script_source (rev es) = rev (script_source es)" "script_target (rev es) = rev (script_target es)"
  "script_cost (rev es) = script_cost es"
proof -
  show "script_source (rev es) = rev (script_source es)"
    by (induction es rule: script_source.induct) auto
  show "script_target (rev es) = rev (script_target es)"
    by (induction es rule: script_target.induct) auto
  show "script_cost (rev es) = script_cost es" by (simp add: script_cost_def rev_map [symmetric])
qed

lemma distance_rev_le: "distance (rev a) (rev b) \<le> distance a b"
  by (metis distance_lower distance_script script_rev)

lemma distance_rev: "distance (rev a) (rev b) = distance a b"
  by (metis distance_rev_le order_antisym rev_rev_ident)

section \<open>The matrix\<close>

text \<open>The cells of one row from the prefix \<open>p\<close> of the second string on.\<close>

fun row_from :: "(string \<Rightarrow> nat) \<Rightarrow> string \<Rightarrow> string \<Rightarrow> nat list" where
  "row_from f p [] = [f p]"
| "row_from f p (y # ys) = f p # row_from f (p @ [y]) ys"

definition cell :: "string \<Rightarrow> string \<Rightarrow> nat" where
  "cell a b = distance (rev a) (rev b)"

lemma row_from_Cons: "\<exists>r. row_from f p ys = f p # r"
  by (cases ys) auto

lemma lev_cells_row:
  "lev_cells x (cell (a @ [x]) p) ys (row_from (cell a) p ys) = tl (row_from (cell (a @ [x])) p ys)"
proof (induction ys arbitrary: p)
  case (Cons y ys)
  obtain r where r: "row_from (cell a) (p @ [y]) ys = cell a (p @ [y]) # r" using row_from_Cons by blast
  obtain r' where r': "row_from (cell (a @ [x])) (p @ [y]) ys = cell (a @ [x]) (p @ [y]) # r'"
    using row_from_Cons by blast
  have c: "cell (a @ [x]) (p @ [y]) =
      min (min (cell a (p @ [y]) + 1) (cell (a @ [x]) p + 1)) (cell a p + (if x = y then 0 else 1))"
    by (simp add: cell_def)
  have "lev_cells x (cell (a @ [x]) p) (y # ys) (row_from (cell a) p (y # ys)) =
      cell (a @ [x]) (p @ [y]) # lev_cells x (cell (a @ [x]) (p @ [y])) ys (row_from (cell a) (p @ [y]) ys)"
    using c by (simp add: r Let_def)
  then show ?case using Cons.IH [of "p @ [y]"] r' by simp
qed simp

lemma lev_rows_row:
  "lev_rows (length a) as b (row_from (cell a) [] b) = row_from (cell (a @ as)) [] b"
proof (induction "as" arbitrary: a)
  case (Cons x as)
  have "Suc (length a) = cell (a @ [x]) []" by (simp add: cell_def)
  moreover have "row_from (cell (a @ [x])) [] b = cell (a @ [x]) [] # tl (row_from (cell (a @ [x])) [] b)"
    using row_from_Cons by (metis list.sel(3))
  ultimately show ?case using Cons.IH [of "a @ [x]"] lev_cells_row [of x a "[]" b] by simp
qed simp

lemma row_from_first: "row_from (cell []) p ys = [length p..<Suc (length p + length ys)]"
proof (induction ys arbitrary: p)
  case (Cons y ys)
  then show ?case using upt_conv_Cons [of "length p" "Suc (length p + length (y # ys))"]
    by (simp add: cell_def)
qed (simp add: cell_def)

lemma last_row_from: "last (row_from f p ys) = f (p @ ys)"
proof (induction ys arbitrary: p)
  case (Cons y ys)
  obtain r where "row_from f (p @ [y]) ys = f (p @ [y]) # r" using row_from_Cons by blast
  with Cons [of "p @ [y]"] show ?case by simp
qed simp

lemma levenshtein_distance: "levenshtein a b = distance a b"
proof (cases "a = [] \<or> b = []")
  case True
  then show ?thesis by (auto simp: levenshtein_def)
next
  case False
  have "lev_rows 0 a b [0..<Suc (length b)] = row_from (cell a) [] b"
    using lev_rows_row [of "[]" a b] row_from_first [of "[]" b] by simp
  with False show ?thesis
    by (simp add: levenshtein_def last_row_from cell_def distance_rev del: upt_Suc)
qed

end
