(* ===== verification/Edit_Properties.thy ===== *)
theory Edit_Properties
  imports Edit_Match Edit_Distance
begin

text \<open>
  What the edit tools promise: the tolerant matcher edits only what it can tell apart, a single
  edit changes one place, a batch of edits is abandoned at its first failure, and a replacement
  takes over the indentation of the block it replaces.
\<close>

text \<open>C25: The edit distance is minimal: some script of single-character insertions, deletions and
  substitutions turns the first string into the second at that cost, and none is cheaper.\<close>

theorem levenshtein_minimal:
  "(\<exists>es. script_source es = a \<and> script_target es = b \<and> script_cost es = levenshtein a b) \<and>
   levenshtein (script_source fs) (script_target fs) \<le> script_cost fs"
  by (simp add: levenshtein_distance distance_script distance_lower)

text \<open>C24: The tolerant matcher never guesses: a span it returns for a single replacement occurs at exactly
  one place of the content, is not wildly larger than the text searched for, and is the only span
  that the strategy that proposed it found in the content.\<close>

theorem fuzzy_match_unambiguous:
  assumes "fuzzyEditMatch content findText False = Inr search"
  shows "search \<noteq> [] \<and> \<not> isDisproportionateEditMatch search findText \<and>
    (\<exists>replacer \<in> set replacers. search \<in> set (replacer content findText) \<and>
       (\<forall>other \<in> set (replacer content findText).
          other \<noteq> [] \<longrightarrow> contains content other \<longrightarrow> other = search)) \<and>
    (\<exists>!place. content = fst place @ search @ snd place)"
proof -
  note sound = fuzzy_sound [OF assms]
  then obtain a b where ab: "content = a @ search @ b" by (auto simp: contains_iff)
  have "\<exists>!place. content = fst place @ search @ snd place"
  proof (rule ex1I [of _ "(a, b)"])
    show "content = fst (a, b) @ search @ snd (a, b)" using ab by simp
    show "place = (a, b)" if "content = fst place @ search @ snd place" for place
      using fuzzy_unique [OF assms that ab] by (simp add: prod_eq_iff)
  qed
  with sound show ?thesis by simp
qed

theorem fuzzy_match_unambiguous_witness:
  "''  x = 1'' \<noteq> [] \<and> \<not> isDisproportionateEditMatch ''  x = 1'' ''x = 1  '' \<and>
    (\<exists>replacer \<in> set replacers.
       ''  x = 1'' \<in> set (replacer (''a'' @ [newline] @ ''  x = 1'' @ [newline] @ ''b'') ''x = 1  '') \<and>
       (\<forall>other \<in> set (replacer (''a'' @ [newline] @ ''  x = 1'' @ [newline] @ ''b'') ''x = 1  '').
          other \<noteq> [] \<longrightarrow> contains (''a'' @ [newline] @ ''  x = 1'' @ [newline] @ ''b'') other \<longrightarrow>
          other = ''  x = 1'')) \<and>
    (\<exists>!place. ''a'' @ [newline] @ ''  x = 1'' @ [newline] @ ''b'' = fst place @ ''  x = 1'' @ snd place)"
  by (rule fuzzy_match_unambiguous; code_simp)

text \<open>An edit that does not ask for all occurrences changes one place: the content is cut around one
  occurrence of a search string that is counted once, and only that occurrence is replaced; where
  the given string itself occurs once, it and the given replacement are used as they are.\<close>

theorem single_edit_one_place:
  assumes "applySingleEdit content edit = Inr updated" "\<not> ReplaceAll edit"
  shows "\<exists>old new before after. content = before @ old @ after \<and> updated = before @ new @ after \<and>
    str_count content old = 1 \<and> (old = [] \<or> \<not> contains after old) \<and>
    (str_count content (OldString edit) = 0 \<or> old = OldString edit \<and> new = NewString edit)"
proof -
  obtain old new a b where r: "resolve_edit content edit = Inr (old, new, 1)" "str_count content old = 1"
    "content = a @ old @ b" "updated = a @ new @ b" "old \<noteq> [] \<longrightarrow> \<not> contains b old"
    using applySingleEdit_one [OF assms] by blast
  have "0 < str_count content (OldString edit) \<Longrightarrow> old = OldString edit \<and> new = NewString edit"
    using exact_edit_used [of content edit] r(1) by simp
  with r show ?thesis by blast
qed

theorem single_edit_one_place_witness:
  "\<exists>old new before after. ''a b c'' = before @ old @ after \<and> ''a x c'' = before @ new @ after \<and>
    str_count ''a b c'' old = 1 \<and> (old = [] \<or> \<not> contains after old) \<and>
    (str_count ''a b c'' (OldString \<lparr>OldString = ''b'', NewString = ''x'', ReplaceAll = False\<rparr>) = 0 \<or>
     old = OldString \<lparr>OldString = ''b'', NewString = ''x'', ReplaceAll = False\<rparr> \<and>
     new = NewString \<lparr>OldString = ''b'', NewString = ''x'', ReplaceAll = False\<rparr>)"
  by (rule single_edit_one_place; code_simp)

text \<open>A batch of edits fails at its first failing edit and reports that edit's number and error: the
  edits before it all apply, each to the result of the one before.\<close>

theorem edit_batch_error:
  "apply_edits 0 content edits = Inl (i, e) \<longleftrightarrow>
     (\<exists>k c. i = k + 1 \<and> k < length edits \<and> apply_edits 0 content (take k edits) = Inr c \<and>
        applySingleEdit c (edits ! k) = Inl e)"
  using apply_edits_error [of 0 content edits i e] by simp

text \<open>The first strategy accepts exactly the blocks of whole lines that equal the searched lines after
  trimming each line.\<close>

theorem line_trimmed_exact:
  "s \<in> set (lineTrimmedReplacer content findText) \<longleftrightarrow> splitFindLines findText \<noteq> [] \<and>
     (\<exists>before w after. split_on newline content = before @ w @ after \<and> s = join [newline] w \<and>
        list_all2 (\<lambda>c f. trim_space c = trim_space f) w (splitFindLines findText))"
  by (rule lineTrimmed_iff)

text \<open>A replacement takes over the indentation of the block it replaces: when the block is the searched
  text with every non-blank line indented by the same blanks, every non-blank line of the
  replacement is indented by them, and a carriage return at the block's end is kept.  In particular
  replacing the searched text by itself reproduces the block.\<close>

theorem replacement_follows_indentation:
  assumes "\<forall>c \<in> set delta. blank_char c" "last (split_on newline findText) \<noteq> []"
    "\<exists>l \<in> set (split_on newline findText). trim_space l \<noteq> []"
  shows "adaptReplacementToSpan (indent_lines delta findText) findText replacement =
      (let shifted = indent_lines delta replacement
       in if has_suffix (indent_lines delta findText) [cr] \<and> \<not> has_suffix shifted [cr] then shifted @ [cr]
          else shifted) \<and>
    adaptReplacementToSpan (indent_lines delta findText) findText findText = indent_lines delta findText"
  using uniformIndentDelta_indented [OF assms] by (simp add: adaptReplacementToSpan_def Let_def)

theorem replacement_follows_indentation_witness:
  "adaptReplacementToSpan (indent_lines [tab] (''if x {'' @ [newline] @ ''}'')) (''if x {'' @ [newline] @ ''}'') ''y()'' =
      (let shifted = indent_lines [tab] ''y()''
       in if has_suffix (indent_lines [tab] (''if x {'' @ [newline] @ ''}'')) [cr] \<and> \<not> has_suffix shifted [cr]
          then shifted @ [cr] else shifted) \<and>
    adaptReplacementToSpan (indent_lines [tab] (''if x {'' @ [newline] @ ''}'')) (''if x {'' @ [newline] @ ''}'')
      (''if x {'' @ [newline] @ ''}'') = indent_lines [tab] (''if x {'' @ [newline] @ ''}'')"
  by (rule replacement_follows_indentation; code_simp)

end
