(* ===== verification/Daemon_Pool.thy ===== *)
theory Daemon_Pool
  imports Prelude
begin

text \<open>
  \<open>internal/daemon/backoff.go\<close> and \<open>pool.go\<close>, twice: the retry loop of one request as a
  function of what its attempts meet (the launcher, the worker, the context and the sleeps are
  parameters), and the pool as a step relation in which any number of requests and a drain
  interleave, one critical section or blocking operation at a time.
\<close>

section \<open>Backoff\<close>

text \<open>Durations in nanoseconds.\<close>

definition backoffUnit :: int where "backoffUnit = 1000000000"
definition backoffCap :: int where "backoffCap = 5 * 60 * 1000000000"

fun backoff_loop :: "nat \<Rightarrow> int \<Rightarrow> int" where
  "backoff_loop 0 d = d"
| "backoff_loop (Suc n) d = (let d = d * 2 in if d \<ge> backoffCap then backoffCap else backoff_loop n d)"

definition backoffBase :: "int \<Rightarrow> int" where
  "backoffBase attempt = (if attempt \<le> 0 then backoffUnit else backoff_loop (nat attempt) backoffUnit)"

lemma backoff_loop_min: "0 < d \<Longrightarrow> d < backoffCap \<Longrightarrow> backoff_loop n d = min (d * 2 ^ n) backoffCap"
proof (induction n arbitrary: d)
  case 0
  then show ?case by simp
next
  case (Suc n)
  show ?case
  proof (cases "d * 2 \<ge> backoffCap")
    case True
    have "1 \<le> (2::int) ^ n" by simp
    then have "d * 2 \<le> d * 2 ^ Suc n" using Suc.prems(1) by simp
    then show ?thesis using True by simp
  next
    case False
    then show ?thesis using Suc.IH [of "d * 2"] Suc.prems(1) by (simp add: mult.assoc)
  qed
qed

lemma backoffBase_min: "backoffBase attempt = min (backoffUnit * 2 ^ nat attempt) backoffCap"
  using backoff_loop_min [of backoffUnit "nat attempt"]
  by (auto simp: backoffBase_def backoffUnit_def backoffCap_def)

text \<open>The loop never leaves the range of Go's 64-bit durations.\<close>

lemma backoff_no_overflow: "d < backoffCap \<Longrightarrow> d * 2 < 2 ^ 63"
  by (simp add: backoffCap_def)

section \<open>The retry loop of one request\<close>

definition ExitTempfail :: int where "ExitTempfail = 75"
definition ExitPermanent :: int where "ExitPermanent = 76"

definition defaultPoolSize :: int where "defaultPoolSize = 4"
definition defaultMaxAttempts :: int where "defaultMaxAttempts = 5"
definition defaultTempfailDelay :: int where "defaultTempfailDelay = 30 * 1000000000"

record PoolOptions =
  opt_size :: int
  MaxAttempts :: int
  Backoff :: "nat \<Rightarrow> int"
  TempfailDelay :: int

definition NewPool :: "PoolOptions \<Rightarrow> PoolOptions" where
  "NewPool opts =
     opts\<lparr>opt_size := (if opt_size opts \<le> 0 then defaultPoolSize else opt_size opts),
       MaxAttempts := (if MaxAttempts opts \<le> 0 then defaultMaxAttempts else MaxAttempts opts),
       TempfailDelay := (if TempfailDelay opts \<le> 0 then defaultTempfailDelay else TempfailDelay opts)\<rparr>"

datatype run_error = ErrPoolDraining | ErrPermanent | Exhausted string | Context_Error string

text \<open>
  What the n-th attempt meets: whether the pool drains when it starts, the result of \<open>runOnce\<close>,
  the context's error after a failed \<open>runOnce\<close>, and the context's error if the sleep after it is
  cut short.
\<close>

record attempt_env =
  at_draining :: bool
  at_result :: "string + int"
  at_context :: "string option"
  at_sleep :: "string option"

datatype pool_event = Launch | Sleep int

definition go_int :: "int \<Rightarrow> string" where
  "go_int n = (if n < 0 then ''-'' @ itoa (nat (- n)) else itoa (nat n))"

definition tempfail_error :: "nat \<Rightarrow> int \<Rightarrow> string" where
  "tempfail_error wid code = ''worker '' @ itoa wid @ '' tempfail (code='' @ go_int code @ '')''"

definition exit_error :: "nat \<Rightarrow> int \<Rightarrow> string" where
  "exit_error wid code = ''worker '' @ itoa wid @ '' exited code='' @ go_int code"

definition after :: "pool_event list \<Rightarrow> 'r \<times> pool_event list \<Rightarrow> 'r \<times> pool_event list" where
  "after evs r = (fst r, evs @ snd r)"

lemma after_simps [simp]: "fst (after evs r) = fst r" "snd (after evs r) = evs @ snd r"
  by (simp_all add: after_def)

text \<open>
  The loop from attempt number \<open>max - left\<close> (counted from 0) on, with the restarts so far and the
  last error: its result and what it did.
\<close>

fun run_loop ::
    "PoolOptions \<Rightarrow> nat \<Rightarrow> attempt_env list \<Rightarrow> nat \<Rightarrow> string \<Rightarrow> (int \<times> run_error option) \<times> pool_event list" where
  "run_loop opts wid [] restarts lastErr = ((ExitPermanent, Some (Exhausted lastErr)), [])"
| "run_loop opts wid (a # rest) restarts lastErr =
     (let crashed = (\<lambda>lastErr.
        if rest = [] then ((ExitPermanent, Some (Exhausted lastErr)), [Launch])
        else (let restarts = restarts + 1; delay = Backoff opts restarts
              in case at_sleep a of
                   Some err \<Rightarrow> ((0, Some (Context_Error err)), [Launch, Sleep delay])
                 | None \<Rightarrow> after [Launch, Sleep delay] (run_loop opts wid rest restarts lastErr)))
      in if at_draining a then ((0, Some ErrPoolDraining), [])
         else (case at_result a of
             Inl err \<Rightarrow> (case at_context a of
                 Some cerr \<Rightarrow> ((0, Some (Context_Error cerr)), [Launch])
               | None \<Rightarrow> crashed err)
           | Inr code \<Rightarrow>
               if code = 0 then ((0, None), [Launch])
               else if code = ExitPermanent then ((code, Some ErrPermanent), [Launch])
               else if code = ExitTempfail then
                 (case at_sleep a of
                    Some err \<Rightarrow> ((0, Some (Context_Error err)), [Launch, Sleep (TempfailDelay opts)])
                  | None \<Rightarrow> after [Launch, Sleep (TempfailDelay opts)]
                      (run_loop opts wid rest restarts (tempfail_error wid code)))
               else crashed (exit_error wid code)))"

text \<open>\<open>Run\<close> after its lease: \<open>env n\<close> is what attempt \<open>n\<close> (from 0) meets.\<close>

definition Pool_Run ::
    "PoolOptions \<Rightarrow> nat \<Rightarrow> (nat \<Rightarrow> attempt_env) \<Rightarrow> (int \<times> run_error option) \<times> pool_event list" where
  "Pool_Run opts wid env = run_loop opts wid (map env [0..<nat (MaxAttempts opts)]) 0 []"

text \<open>
  One attempt: the lines the worker's stream yields go to the sink until it ends (\<open>Inr False\<close>) or
  fails; a failed stream kills the worker and fails the attempt whatever its exit code.
\<close>

datatype line_result = Line_Text string | Line_End | Line_Error string

fun pump :: "line_result list \<Rightarrow> string list \<times> string option" where
  "pump [] = ([], None)"
| "pump (Line_End # rs) = ([], None)"
| "pump (Line_Error err # rs) = ([], Some err)"
| "pump (Line_Text l # rs) = (case pump rs of (ls, e) \<Rightarrow> (l # ls, e))"

definition runOnce ::
    "nat \<Rightarrow> string option \<Rightarrow> line_result list \<Rightarrow> string + int \<Rightarrow> string list \<times> (string + int)" where
  "runOnce wid launch_error stdout wait =
     (case launch_error of
        Some err \<Rightarrow> ([], Inl err)
      | None \<Rightarrow>
          (case pump stdout of
             (ls, Some err) \<Rightarrow> (ls, Inl (''daemon: worker '' @ itoa wid @ '' stdout read failed: '' @ err))
           | (ls, None) \<Rightarrow> (ls, wait)))"

subsection \<open>The retry policy\<close>

definition launches :: "pool_event list \<Rightarrow> nat" where
  "launches evs = length (filter (\<lambda>e. e = Launch) evs)"

lemma launches_simps [simp]:
  "launches [] = 0" "launches (Launch # evs) = Suc (launches evs)" "launches (Sleep d # evs) = launches evs"
  by (simp_all add: launches_def)

lemma run_loop_launches: "launches (snd (run_loop opts wid as restarts err)) \<le> length as"
  by (induction as arbitrary: restarts err) (auto simp: Let_def split: sum.split option.split)

text \<open>A worker that ran to its end decides the request with exit code 0 or 76; every other outcome is retried.\<close>

definition decides :: "attempt_env \<Rightarrow> bool" where
  "decides a \<longleftrightarrow> at_result a = Inr 0 \<or> at_result a = Inr ExitPermanent"

text \<open>The waits between attempts: the fixed cool-off, or the backoff of the number of crashes so far.\<close>

definition tempfails :: "attempt_env \<Rightarrow> bool" where
  "tempfails a \<longleftrightarrow> at_result a = Inr ExitTempfail"

fun waits :: "PoolOptions \<Rightarrow> nat \<Rightarrow> attempt_env list \<Rightarrow> int list" where
  "waits opts n [] = []"
| "waits opts n (a # as) =
     (if tempfails a then TempfailDelay opts # waits opts n as
      else Backoff opts (Suc n) # waits opts (Suc n) as)"

definition attempt_error :: "nat \<Rightarrow> attempt_env \<Rightarrow> string" where
  "attempt_error wid a =
     (case at_result a of
        Inl err \<Rightarrow> err
      | Inr code \<Rightarrow> if code = ExitTempfail then tempfail_error wid code else exit_error wid code)"

definition sleeps :: "pool_event list \<Rightarrow> int list" where
  "sleeps evs = concat (map (\<lambda>e. case e of Sleep d \<Rightarrow> [d] | Launch \<Rightarrow> []) evs)"

lemma sleeps_simps [simp]:
  "sleeps [] = []" "sleeps (Launch # evs) = sleeps evs" "sleeps (Sleep d # evs) = d # sleeps evs"
  by (simp_all add: sleeps_def)

text \<open>
  The run goes on after an attempt that was launched, did not decide and was not interrupted; a last
  attempt ends the run in any case.
\<close>

definition goes_on :: "attempt_env \<Rightarrow> bool" where
  "goes_on a \<longleftrightarrow> \<not> at_draining a \<and> \<not> decides a \<and> at_sleep a = None \<and>
     (case at_result a of Inl err \<Rightarrow> at_context a = None | Inr code \<Rightarrow> True)"

text \<open>
  The context's error that ends the run after an attempt: a failed one reports it at once, otherwise
  it cuts a sleep short.  A temporary failure sleeps even after the last attempt.
\<close>

definition interrupted :: "bool \<Rightarrow> attempt_env \<Rightarrow> string option" where
  "interrupted again a =
     (case at_result a of
        Inl err \<Rightarrow> (case at_context a of Some cerr \<Rightarrow> Some cerr | None \<Rightarrow> if again then at_sleep a else None)
      | Inr code \<Rightarrow> if code = ExitTempfail \<or> again then at_sleep a else None)"

definition verdict :: "nat \<Rightarrow> bool \<Rightarrow> attempt_env \<Rightarrow> int \<times> run_error option" where
  "verdict wid again a =
     (if at_draining a then (0, Some ErrPoolDraining)
      else if at_result a = Inr 0 then (0, None)
      else if at_result a = Inr ExitPermanent then (ExitPermanent, Some ErrPermanent)
      else (case interrupted again a of
              Some err \<Rightarrow> (0, Some (Context_Error err))
            | None \<Rightarrow> (ExitPermanent, Some (Exhausted (attempt_error wid a)))))"

text \<open>The sleep the ending attempt itself begins; \<open>n\<close> crashes came before it.\<close>

definition last_wait :: "PoolOptions \<Rightarrow> nat \<Rightarrow> bool \<Rightarrow> attempt_env \<Rightarrow> int list" where
  "last_wait opts n again a =
     (if at_draining a \<or> decides a then []
      else if tempfails a then [TempfailDelay opts]
      else if again \<and> (isl (at_result a) \<longrightarrow> at_context a = None) then [Backoff opts (Suc n)]
      else [])"

definition crashes :: "attempt_env list \<Rightarrow> nat" where
  "crashes as = length (filter (\<lambda>a. \<not> tempfails a) as)"

lemma run_loop_retry:
  assumes "goes_on a" "rest \<noteq> []"
  shows "run_loop opts wid (a # rest) n err =
    (if tempfails a
     then after [Launch, Sleep (TempfailDelay opts)] (run_loop opts wid rest n (attempt_error wid a))
     else after [Launch, Sleep (Backoff opts (Suc n))] (run_loop opts wid rest (Suc n) (attempt_error wid a)))"
  using assms
  by (auto simp: goes_on_def decides_def tempfails_def attempt_error_def Let_def split: sum.splits)

lemma exit_codes: "ExitTempfail \<noteq> ExitPermanent" "ExitTempfail \<noteq> 0" "ExitPermanent \<noteq> 0"
  by (simp_all add: ExitTempfail_def ExitPermanent_def)

lemma run_loop_ends:
  assumes "rest = [] \<or> \<not> goes_on a"
  shows "fst (run_loop opts wid (a # rest) n err) = verdict wid (rest \<noteq> []) a \<and>
    launches (snd (run_loop opts wid (a # rest) n err)) = (if at_draining a then 0 else 1) \<and>
    sleeps (snd (run_loop opts wid (a # rest) n err)) = last_wait opts n (rest \<noteq> []) a"
  using assms exit_codes
  by (cases "at_result a"; cases "at_sleep a"; cases "at_context a"; cases "rest = []"; cases "at_draining a")
    (auto simp: goes_on_def verdict_def last_wait_def interrupted_def decides_def tempfails_def attempt_error_def Let_def)

text \<open>Every run goes on through its first attempts and ends with the first that does not go on, or the last.\<close>

lemma run_loop_policy:
  assumes "as \<noteq> []"
  shows "let calm = takeWhile goes_on (butlast as); a = as ! length calm; again = Suc (length calm) < length as;
      r = run_loop opts wid as n err
    in fst r = verdict wid again a \<and> launches (snd r) = length calm + (if at_draining a then 0 else 1) \<and>
       sleeps (snd r) = waits opts n calm @ last_wait opts (n + crashes calm) again a"
  using assms
proof (induction as arbitrary: n err)
  case (Cons a rest)
  show ?case
  proof (cases "rest = [] \<or> \<not> goes_on a")
    case True
    then have "takeWhile goes_on (butlast (a # rest)) = []" by auto
    then show ?thesis using run_loop_ends [OF True] by (simp add: Let_def crashes_def)
  next
    case False
    then have "takeWhile goes_on (butlast (a # rest)) = a # takeWhile goes_on (butlast rest)" by simp
    then show ?thesis using Cons.IH False run_loop_retry [of a rest opts wid n err]
      by (simp add: Let_def crashes_def)
  qed
qed simp

lemma Pool_Run_launches: "launches (snd (Pool_Run opts wid env)) \<le> nat (MaxAttempts opts)"
  using run_loop_launches [of opts wid "map env [0..<nat (MaxAttempts opts)]"] by (simp add: Pool_Run_def)

lemma NewPool_positive:
  "0 < opt_size (NewPool opts)" "0 < MaxAttempts (NewPool opts)" "0 < TempfailDelay (NewPool opts)"
  by (simp_all add: NewPool_def defaultPoolSize_def defaultMaxAttempts_def defaultTempfailDelay_def)

lemma pump_lines:
  "pump (map Line_Text ls @ Line_End # rs) = (ls, None)"
  "pump (map Line_Text ls @ Line_Error err # rs) = (ls, Some err)"
  by (induction ls) simp_all

section \<open>Many requests and a drain\<close>

text \<open>
  Where a request stands in \<open>Run\<close>: queuing for a slot; leased; about to look whether the pool
  drains; past that look, which holds the lock only while it reads the flag; inside the launcher; with a worker that is not tracked yet; pumping a tracked worker, left
  alone or killed by the drain; after the worker's exit; in its backoff; returned.
\<close>

datatype phase =
    Waiting
  | Leased
  | Starting nat
  | Checked nat
  | Launching nat
  | Launched nat
  | Running nat
  | Killed nat
  | Exited nat
  | Backing_off nat
  | Returned

text \<open>The drain: its grace window, the handles it collected and has yet to kill, over.\<close>

datatype drain_phase = Not_Draining | Grace | Killing "nat list" | Drained

record Pool =
  pool_size :: nat
  slots :: nat
  pool_draining :: bool
  active :: "nat list"
  nextID :: nat
  requests :: "phase list"
  drain :: drain_phase

definition new_pool :: "PoolOptions \<Rightarrow> Pool" where
  "new_pool opts = \<lparr>pool_size = nat (opt_size (NewPool opts)), slots = 0, pool_draining = False, active = [],
     nextID = 0, requests = [], drain = Not_Draining\<rparr>"

fun has_slot :: "phase \<Rightarrow> bool" where
  "has_slot Waiting = False"
| "has_slot Returned = False"
| "has_slot _ = True"

fun worker_of :: "phase \<Rightarrow> nat option" where
  "worker_of Waiting = None"
| "worker_of Leased = None"
| "worker_of Returned = None"
| "worker_of (Starting w) = Some w"
| "worker_of (Checked w) = Some w"
| "worker_of (Launching w) = Some w"
| "worker_of (Launched w) = Some w"
| "worker_of (Running w) = Some w"
| "worker_of (Killed w) = Some w"
| "worker_of (Exited w) = Some w"
| "worker_of (Backing_off w) = Some w"

text \<open>The phases with a worker process, and those whose worker the pool has in its active set.\<close>

fun alive :: "phase \<Rightarrow> bool" where
  "alive (Launched w) = True"
| "alive (Running w) = True"
| "alive (Killed w) = True"
| "alive _ = False"

fun tracked :: "phase \<Rightarrow> bool" where
  "tracked (Running w) = True"
| "tracked (Killed w) = True"
| "tracked _ = False"

fun killed :: "nat \<Rightarrow> phase \<Rightarrow> phase" where
  "killed v (Running w) = (if v = w then Killed w else Running w)"
| "killed v ph = ph"

abbreviation at :: "Pool \<Rightarrow> nat \<Rightarrow> phase \<Rightarrow> bool" where
  "at p r ph \<equiv> r < length (requests p) \<and> requests p ! r = ph"

abbreviation goto :: "nat \<Rightarrow> phase \<Rightarrow> Pool \<Rightarrow> Pool" where
  "goto r ph p \<equiv> p\<lparr>requests := (requests p)[r := ph]\<rparr>"

inductive pool_step :: "Pool \<Rightarrow> Pool \<Rightarrow> bool" where
  queued: "\<not> pool_draining p \<Longrightarrow> pool_step p (p\<lparr>requests := requests p @ [Waiting]\<rparr>)"
| refused: "pool_draining p \<Longrightarrow> pool_step p (p\<lparr>requests := requests p @ [Returned]\<rparr>)"
| leased: "at p r Waiting \<Longrightarrow> slots p < pool_size p \<Longrightarrow> pool_step p (goto r Leased p\<lparr>slots := slots p + 1\<rparr>)"
| gave_up: "at p r Waiting \<Longrightarrow> pool_step p (goto r Returned p)"
| numbered: "at p r Leased \<Longrightarrow> pool_step p (goto r (Starting (nextID p + 1)) p\<lparr>nextID := nextID p + 1\<rparr>)"
| stopped: "at p r (Starting w) \<Longrightarrow> pool_draining p \<Longrightarrow> pool_step p (goto r Returned p\<lparr>slots := slots p - 1\<rparr>)"
| passed: "at p r (Starting w) \<Longrightarrow> \<not> pool_draining p \<Longrightarrow> pool_step p (goto r (Checked w) p)"
| entered: "at p r (Checked w) \<Longrightarrow> pool_step p (goto r (Launching w) p)"
| launched: "at p r (Launching w) \<Longrightarrow> pool_step p (goto r (Launched w) p)"
| not_launched: "at p r (Launching w) \<Longrightarrow> pool_step p (goto r (Exited w) p)"
| track: "at p r (Launched w) \<Longrightarrow> pool_step p (goto r (Running w) p\<lparr>active := w # active p\<rparr>)"
| untrack: "at p r ph \<Longrightarrow> ph = Running w \<or> ph = Killed w \<Longrightarrow>
    pool_step p (goto r (Exited w) p\<lparr>active := removeAll w (active p)\<rparr>)"
| return': "at p r ph \<Longrightarrow> ph = Exited w \<or> ph = Backing_off w \<Longrightarrow>
    pool_step p (goto r Returned p\<lparr>slots := slots p - 1\<rparr>)"
| retry: "at p r (Exited w) \<Longrightarrow> pool_step p (goto r (Backing_off w) p)"
| woke: "at p r (Backing_off w) \<Longrightarrow> pool_step p (goto r (Starting w) p)"
| drain_begins: "drain p = Not_Draining \<Longrightarrow> pool_step p (p\<lparr>pool_draining := True, drain := Grace\<rparr>)"
| drain_idle: "drain p = Grace \<Longrightarrow> active p = [] \<Longrightarrow> pool_step p (p\<lparr>drain := Drained\<rparr>)"
| drain_collects: "drain p = Grace \<Longrightarrow> pool_step p (p\<lparr>drain := Killing (active p)\<rparr>)"
| drain_kills: "drain p = Killing ws \<Longrightarrow> w \<in> set ws \<Longrightarrow>
    pool_step p (p\<lparr>drain := Killing (removeAll w ws), requests := map (killed w) (requests p)\<rparr>)"
| drain_over: "drain p = Killing [] \<Longrightarrow> pool_step p (p\<lparr>drain := Drained\<rparr>)"

inductive pool_reach :: "PoolOptions \<Rightarrow> Pool \<Rightarrow> bool" for opts where
  init: "pool_reach opts (new_pool opts)"
| step: "pool_reach opts p \<Longrightarrow> pool_step p p' \<Longrightarrow> pool_reach opts p'"

definition slots_ok :: "Pool \<Rightarrow> bool" where
  "slots_ok p \<longleftrightarrow> slots p = length (filter has_slot (requests p)) \<and> slots p \<le> pool_size p"

definition worker_ids_ok :: "phase list \<Rightarrow> nat \<Rightarrow> bool" where
  "worker_ids_ok rs n \<longleftrightarrow> (\<forall>r < length rs. \<forall>w. worker_of (rs ! r) = Some w \<longrightarrow> w \<le> n) \<and>
     (\<forall>r < length rs. \<forall>q < length rs. \<forall>w. worker_of (rs ! r) = Some w \<longrightarrow> worker_of (rs ! q) = Some w \<longrightarrow> r = q)"

definition tracks :: "phase list \<Rightarrow> nat \<Rightarrow> bool" where
  "tracks rs w \<longleftrightarrow> (\<exists>r < length rs. tracked (rs ! r) \<and> worker_of (rs ! r) = Some w)"

definition pool_inv :: "Pool \<Rightarrow> bool" where
  "pool_inv p \<longleftrightarrow> slots_ok p \<and> worker_ids_ok (requests p) (nextID p) \<and> (\<forall>w. w \<in> set (active p) \<longleftrightarrow> tracks (requests p) w) \<and>
     pool_draining p = (drain p \<noteq> Not_Draining)"

lemma filter_length_update:
  "r < length xs \<Longrightarrow> length (filter P (xs[r := x])) + (if P (xs ! r) then 1 else 0) =
    length (filter P xs) + (if P x then 1 else 0)"
proof (induction xs arbitrary: r)
  case (Cons y ys)
  then show ?case by (cases r) auto
qed simp

lemma filter_length_pos: "r < length xs \<Longrightarrow> P (xs ! r) \<Longrightarrow> 0 < length (filter P xs)"
  by (metis filter_empty_conv length_greater_0_conv nth_mem)

lemma killed_same [simp]: "has_slot (killed v ph) = has_slot ph" "worker_of (killed v ph) = worker_of ph"
  "tracked (killed v ph) = tracked ph" "alive (killed v ph) = alive ph"
  by (cases ph; simp)+

lemma alive_slot: "alive ph \<Longrightarrow> has_slot ph"
  by (cases ph) simp_all

lemma slots_goto:
  assumes "slots_ok p" "at p r ph"
    "s + (if has_slot ph then 1 else 0) = slots p + (if has_slot ph' then 1 else 0)" "s \<le> pool_size p"
  shows "slots_ok (goto r ph' p\<lparr>slots := s\<rparr>)"
  using filter_length_update [of r "requests p" has_slot ph'] assms by (simp add: slots_ok_def split: if_splits)

lemma slots_kept:
  assumes "slots_ok p" "at p r ph" "has_slot ph' = has_slot ph"
  shows "slots_ok (goto r ph' p)"
  using slots_goto [OF assms(1,2), of "slots p" ph'] assms(1,3) by (simp add: slots_ok_def)

lemma ids_goto:
  assumes "worker_ids_ok rs n" "r < length rs" "worker_of ph = worker_of (rs ! r) \<or> worker_of ph = None"
  shows "worker_ids_ok (rs[r := ph]) n"
proof -
  have "worker_of (rs ! q) = Some w" if "worker_of (rs[r := ph] ! q) = Some w" "q < length rs" for q w
    using assms(2,3) that by (cases "q = r") auto
  then show ?thesis using assms(1) unfolding worker_ids_ok_def length_list_update by blast
qed

lemma ids_fresh:
  assumes "worker_ids_ok rs n" "worker_of ph = Some (Suc n)"
  shows "worker_ids_ok (rs[r := ph]) (Suc n)"
proof -
  have *: "worker_of (rs[r := ph] ! q) = Some w \<Longrightarrow>
      if q = r then w = Suc n else worker_of (rs ! q) = Some w \<and> w \<le> n" if "q < length rs" for q w
    using assms that by (cases "q = r") (auto simp: worker_ids_ok_def)
  show ?thesis
    unfolding worker_ids_ok_def length_list_update
  proof (intro conjI allI impI)
    show "w \<le> Suc n" if "q < length rs" "worker_of (rs[r := ph] ! q) = Some w" for q w
      using * [OF that] by (auto split: if_splits)
    show "q = q'" if "q < length rs" "q' < length rs" "worker_of (rs[r := ph] ! q) = Some w"
      "worker_of (rs[r := ph] ! q') = Some w" for q q' w
      using * [OF that(1,3)] * [OF that(2,4)] assms(1) that(1,2) by (auto simp: worker_ids_ok_def split: if_splits)
  qed
qed

lemma tracks_goto:
  assumes "r < length rs" "\<not> tracked (rs ! r)" "\<not> tracked ph"
  shows "tracks (rs[r := ph]) w = tracks rs w"
proof -
  have "tracked (rs[r := ph] ! q) \<and> worker_of (rs[r := ph] ! q) = Some w \<longleftrightarrow>
      tracked (rs ! q) \<and> worker_of (rs ! q) = Some w" for q
    using assms by (cases "q = r") auto
  then show ?thesis by (simp add: tracks_def)
qed

lemma tracks_add:
  assumes "r < length rs" "\<not> tracked (rs ! r)" "tracked ph" "worker_of ph = Some v"
  shows "tracks (rs[r := ph]) w \<longleftrightarrow> w = v \<or> tracks rs w"
proof -
  have "tracked (rs[r := ph] ! q) \<and> worker_of (rs[r := ph] ! q) = Some w \<longleftrightarrow>
      (if q = r then w = v else tracked (rs ! q) \<and> worker_of (rs ! q) = Some w)" for q
    using assms by (cases "q = r") auto
  then show ?thesis using assms(1,2) unfolding tracks_def length_list_update by metis
qed

lemma tracks_remove:
  assumes "worker_ids_ok rs n" "r < length rs" "worker_of (rs ! r) = Some v" "tracked (rs ! r)" "\<not> tracked ph"
  shows "tracks (rs[r := ph]) w \<longleftrightarrow> w \<noteq> v \<and> tracks rs w"
proof -
  have "tracked (rs[r := ph] ! q) \<and> worker_of (rs[r := ph] ! q) = Some w \<longleftrightarrow>
      q \<noteq> r \<and> tracked (rs ! q) \<and> worker_of (rs ! q) = Some w" for q
    using assms(2,5) by (cases "q = r") auto
  moreover have "q = r" if "q < length rs" "worker_of (rs ! q) = Some v" for q
    using assms(1,2,3) that by (simp add: worker_ids_ok_def)
  ultimately have "tracks (rs[r := ph]) w \<longleftrightarrow>
      (\<exists>q < length rs. w \<noteq> v \<and> tracked (rs ! q) \<and> worker_of (rs ! q) = Some w)"
    using assms(3) unfolding tracks_def length_list_update by (metis option.inject)
  then show ?thesis by (auto simp: tracks_def)
qed

text \<open>A request that moves on and keeps its worker, or takes or gives up its slot.\<close>

lemma inv_goto:
  assumes "pool_inv p" "at p r ph" "worker_of ph' = worker_of ph \<or> worker_of ph' = None" "\<not> tracked ph" "\<not> tracked ph'"
    "s + (if has_slot ph then 1 else 0) = slots p + (if has_slot ph' then 1 else 0)" "s \<le> pool_size p"
  shows "pool_inv (goto r ph' p\<lparr>slots := s\<rparr>)"
  using assms slots_goto [of p r ph s ph'] ids_goto [of "requests p" "nextID p" r ph'] tracks_goto [of r "requests p" ph']
  by (simp add: pool_inv_def)

lemma inv_move:
  assumes "pool_inv p" "at p r ph" "worker_of ph' = worker_of ph" "\<not> tracked ph" "\<not> tracked ph'" "has_slot ph' = has_slot ph"
  shows "pool_inv (goto r ph' p)"
  using assms slots_kept [of p r ph ph'] ids_goto [of "requests p" "nextID p" r ph'] tracks_goto [of r "requests p" ph']
  by (simp add: pool_inv_def)

lemma inv_queue:
  assumes "pool_inv p" "worker_of ph = None" "\<not> has_slot ph"
  shows "pool_inv (p\<lparr>requests := requests p @ [ph]\<rparr>)"
proof -
  have "tracks (requests p @ [ph]) w = tracks (requests p) w" for w
    using assms(2) by (auto simp: tracks_def nth_append less_Suc_eq)
  moreover have "worker_ids_ok (requests p @ [ph]) (nextID p)"
    using assms(1,2) by (auto simp: pool_inv_def worker_ids_ok_def nth_append less_Suc_eq)
  ultimately show ?thesis using assms by (simp add: pool_inv_def slots_ok_def)
qed

lemma inv_kill:
  assumes "pool_inv p" "drain p = Killing ws"
  shows "pool_inv (p\<lparr>drain := Killing vs, requests := map (killed v) (requests p)\<rparr>)"
proof -
  have "tracks (map (killed v) rs) w = tracks rs w" "worker_ids_ok (map (killed v) rs) n = worker_ids_ok rs n" for rs w n
    by (simp_all add: tracks_def worker_ids_ok_def cong: conj_cong)
  then show ?thesis using assms by (simp add: pool_inv_def slots_ok_def filter_map comp_def)
qed

lemma slot_in_use: "pool_inv p \<Longrightarrow> at p r ph \<Longrightarrow> has_slot ph \<Longrightarrow> 0 < slots p"
  using filter_length_pos [of r "requests p" has_slot] by (simp add: pool_inv_def slots_ok_def)

lemma slots_bounded: "pool_inv p \<Longrightarrow> slots p \<le> pool_size p"
  by (simp add: pool_inv_def slots_ok_def)

lemma pool_step_inv: "pool_step p p' \<Longrightarrow> pool_inv p \<Longrightarrow> pool_inv p'"
proof (induction rule: pool_step.induct)
  case (numbered p r)
  then show ?case
    using slots_kept [of p r Leased "Starting (Suc (nextID p))"] ids_fresh [of "requests p" "nextID p" "Starting (Suc (nextID p))" r]
      tracks_goto [of r "requests p" "Starting (Suc (nextID p))"]
    by (simp add: pool_inv_def slots_ok_def)
next
  case (track p r w)
  then show ?case
    using slots_kept [of p r "Launched w" "Running w"] ids_goto [of "requests p" "nextID p" r "Running w"]
      tracks_add [of r "requests p" "Running w" w]
    by (simp add: pool_inv_def slots_ok_def)
next
  case (untrack p r ph w)
  then show ?case
    using slots_kept [of p r ph "Exited w"] ids_goto [of "requests p" "nextID p" r "Exited w"]
      tracks_remove [of "requests p" "nextID p" r w "Exited w"]
    by (auto simp: pool_inv_def slots_ok_def)
next
  case (stopped p r w)
  then show ?case using inv_goto [of p r "Starting w" Returned "slots p - 1"] slot_in_use [of p r] slots_bounded [of p] by simp
next
  case (return' p r ph w)
  then show ?case using inv_goto [of p r ph Returned "slots p - 1"] slot_in_use [of p r ph] slots_bounded [of p] by auto
next
  case (leased p r)
  then show ?case using inv_goto [of p r Waiting Leased "slots p + 1"] by simp
next
  case (drain_kills p ws w)
  then show ?case by (blast intro: inv_kill)
next
  case (drain_collects p)
  then show ?case by (simp add: pool_inv_def slots_ok_def)
next
  case (drain_over p)
  then show ?case by (simp add: pool_inv_def slots_ok_def)
next
  case (drain_begins p)
  then show ?case by (simp add: pool_inv_def slots_ok_def)
next
  case (drain_idle p)
  then show ?case by (simp add: pool_inv_def slots_ok_def)
next
  case (gave_up p r)
  then show ?case using inv_goto [of p r Waiting Returned "slots p"] slots_bounded [of p] by simp
qed (auto intro: inv_queue inv_move)

lemma pool_reach_inv: "pool_reach opts p \<Longrightarrow> pool_inv p"
proof (induction rule: pool_reach.induct)
  case init
  then show ?case by (simp add: pool_inv_def new_pool_def slots_ok_def worker_ids_ok_def tracks_def)
next
  case (step p p')
  then show ?case by (blast intro: pool_step_inv)
qed

lemma pool_size_fixed: "pool_reach opts p \<Longrightarrow> pool_size p = nat (opt_size (NewPool opts))"
proof (induction rule: pool_reach.induct)
  case (step p p')
  from step(2,1,3) show ?case by (induction rule: pool_step.induct) simp_all
qed (simp add: new_pool_def)

text \<open>
  Once the pool drains it lets no request past its look at the flag any more; the requests that are
  past it still launch their workers.
\<close>

fun past_check :: "phase \<Rightarrow> bool" where
  "past_check (Checked w) = True"
| "past_check (Launching w) = True"
| "past_check _ = False"

definition let_through :: "Pool \<Rightarrow> nat" where
  "let_through p = length (filter past_check (requests p))"

lemma let_through_goto:
  "r < length (requests p) \<Longrightarrow> past_check ph \<longrightarrow> past_check (requests p ! r) \<Longrightarrow>
     length (filter past_check ((requests p)[r := ph])) \<le> let_through p"
  using filter_length_update [of r "requests p" past_check ph] by (simp add: let_through_def split: if_splits)

lemma draining_step: "pool_step p p' \<Longrightarrow> pool_draining p \<Longrightarrow> pool_draining p' \<and> let_through p' \<le> let_through p"
proof (induction rule: pool_step.induct)
  case (drain_kills p ws w)
  have "past_check (killed v ph) = past_check ph" for v ph by (cases ph) simp_all
  with drain_kills show ?case by (simp add: let_through_def filter_map comp_def)
next
  case (queued p)
  then show ?case by simp
next
  case (passed p r w)
  then show ?case by simp
next
  case (refused p)
  then show ?case by (simp add: let_through_def)
qed (simp_all add: let_through_def, simp_all add: let_through_def [symmetric] let_through_goto)

end
