(* ===== verification/Daemon_Session.thy ===== *)
theory Daemon_Session
  imports Prelude
begin

text \<open>
  \<open>internal/daemon/session.go\<close>: one routed agent run with its ring of recent output, its
  subscribers with their bounded channels and gap notices, and the manager's registry with its
  eviction of finished sessions.  Channels live in a store of their own, because a consumer keeps
  its channel after the session has let go of it; a send to a closed channel and a second close
  are the value \<open>None\<close>, Go's panic.  Every method that holds the mutex throughout is one step.
\<close>

section \<open>Channels\<close>

record channel =
  queued :: "string list"
  capacity :: nat
  closed :: bool

text \<open>A send inside a \<open>select\<close> with a default branch: whether it was taken.\<close>

definition try_send :: "nat \<Rightarrow> string \<Rightarrow> channel list \<Rightarrow> (bool \<times> channel list) option" where
  "try_send c x h =
     (if closed (h ! c) then None
      else if length (queued (h ! c)) < capacity (h ! c)
      then Some (True, h[c := (h ! c)\<lparr>queued := queued (h ! c) @ [x]\<rparr>])
      else Some (False, h))"

definition close_channel :: "nat \<Rightarrow> channel list \<Rightarrow> channel list option" where
  "close_channel c h = (if closed (h ! c) then None else Some (h[c := (h ! c)\<lparr>closed := True\<rparr>]))"

fun close_all :: "nat list \<Rightarrow> channel list \<Rightarrow> channel list option" where
  "close_all [] h = Some h"
| "close_all (c # cs) h = (case close_channel c h of None \<Rightarrow> None | Some h \<Rightarrow> close_all cs h)"

section \<open>Sessions\<close>

datatype SessionState = SessionQueued | SessionRunning | SessionDone | SessionFailed

record subscriber =
  sub_ch :: nat
  dropped :: nat

record Session =
  sess_id :: string
  sess_cwd :: string
  sess_state :: SessionState
  sess_buffer :: "string list"
  maxBuffer :: int
  sess_lines :: nat
  finished :: bool
  sess_err :: "string option"
  exitCode :: int
  subscribers :: "(nat \<times> subscriber) list"
  nextSub :: nat
  sess_done :: bool

definition defaultSessionBuffer :: int where "defaultSessionBuffer = 1024"

definition subscriber_capacity :: nat where "subscriber_capacity = 256"

definition gapNotice :: "nat \<Rightarrow> string" where
  "gapNotice n = ''{'' @ quote2 # ''type'' @ quote2 # '':'' @ quote2 # ''daemon_gap'' @ quote2 # '','' @
     quote2 # ''dropped'' @ quote2 # '':'' @ itoa n @ ''}''"

definition newSession :: "string \<Rightarrow> string \<Rightarrow> int \<Rightarrow> Session" where
  "newSession i cwd buf =
     \<lparr>sess_id = i, sess_cwd = cwd, sess_state = SessionQueued, sess_buffer = [],
      maxBuffer = (if buf \<le> 0 then defaultSessionBuffer else buf), sess_lines = 0, finished = False,
      sess_err = None, exitCode = 0, subscribers = [], nextSub = 0, sess_done = False\<rparr>"

definition Session_Started :: "Session \<Rightarrow> Session" where
  "Session_Started s = (if sess_state s = SessionQueued then s\<lparr>sess_state := SessionRunning\<rparr> else s)"

definition send_line :: "string \<Rightarrow> subscriber \<Rightarrow> channel list \<Rightarrow> (subscriber \<times> channel list) option" where
  "send_line line sub h =
     (case try_send (sub_ch sub) line h of
        None \<Rightarrow> None
      | Some (True, h) \<Rightarrow> Some (sub, h)
      | Some (False, h) \<Rightarrow> Some (sub\<lparr>dropped := dropped sub + 1\<rparr>, h))"

definition deliver :: "string \<Rightarrow> subscriber \<Rightarrow> channel list \<Rightarrow> (subscriber \<times> channel list) option" where
  "deliver line sub h =
     (if dropped sub > 0
      then (case try_send (sub_ch sub) (gapNotice (dropped sub)) h of
              None \<Rightarrow> None
            | Some (True, h) \<Rightarrow> send_line line (sub\<lparr>dropped := 0\<rparr>) h
            | Some (False, h) \<Rightarrow> Some (sub\<lparr>dropped := dropped sub + 1\<rparr>, h))
      else send_line line sub h)"

text \<open>The loop over the subscribers, in the order the map happens to be iterated in.\<close>

fun broadcast ::
    "string \<Rightarrow> (nat \<times> subscriber) list \<Rightarrow> channel list \<Rightarrow> ((nat \<times> subscriber) list \<times> channel list) option" where
  "broadcast line [] h = Some ([], h)"
| "broadcast line ((i, sub) # subs) h =
     (case deliver line sub h of
        None \<Rightarrow> None
      | Some (sub, h) \<Rightarrow>
          (case broadcast line subs h of None \<Rightarrow> None | Some (subs, h) \<Rightarrow> Some ((i, sub) # subs, h)))"

definition Session_Line :: "string \<Rightarrow> Session \<Rightarrow> channel list \<Rightarrow> (Session \<times> channel list) option" where
  "Session_Line line s h =
     (let s = s\<lparr>sess_lines := sess_lines s + 1\<rparr>;
          s = s\<lparr>sess_buffer := sess_buffer s @ [line]\<rparr>;
          s = (if int (length (sess_buffer s)) > maxBuffer s
               then s\<lparr>sess_buffer := drop (nat (int (length (sess_buffer s)) - maxBuffer s)) (sess_buffer s)\<rparr>
               else s)
      in case broadcast line (subscribers s) h of
           None \<Rightarrow> None
         | Some (subs, h) \<Rightarrow> Some (s\<lparr>subscribers := subs\<rparr>, h))"

definition Session_finish :: "int \<Rightarrow> string option \<Rightarrow> Session \<Rightarrow> channel list \<Rightarrow> (Session \<times> channel list) option" where
  "Session_finish code err s h =
     (let s = s\<lparr>finished := True, exitCode := code, sess_err := err\<rparr>;
          s = s\<lparr>sess_state := (if err \<noteq> None then SessionFailed else SessionDone)\<rparr>;
          subs = subscribers s;
          s = s\<lparr>subscribers := []\<rparr>
      in case close_all (map (\<lambda>e. sub_ch (snd e)) subs) h of
           None \<Rightarrow> None
         | Some h \<Rightarrow> if sess_done s then None else Some (s\<lparr>sess_done := True\<rparr>, h))"

text \<open>
  \<open>Subscribe\<close>: the buffered history, the channel, and the id the returned cancel function
  removes, \<open>None\<close> for the function that does nothing.
\<close>

definition Session_Subscribe ::
    "Session \<Rightarrow> channel list \<Rightarrow> string list \<times> nat \<times> nat option \<times> Session \<times> channel list" where
  "Session_Subscribe s h =
     (let buffered = sess_buffer s
      in if finished s
         then (buffered, length h, None, s, h @ [\<lparr>queued = [], capacity = 0, closed = True\<rparr>])
         else (let i = nextSub s;
                   s = s\<lparr>nextSub := nextSub s + 1\<rparr>;
                   sub = \<lparr>sub_ch = length h, dropped = 0\<rparr>;
                   h = h @ [\<lparr>queued = [], capacity = subscriber_capacity, closed = False\<rparr>]
               in (buffered, sub_ch sub, Some i, s\<lparr>subscribers := subscribers s @ [(i, sub)]\<rparr>, h)))"

definition Session_cancel :: "nat option \<Rightarrow> Session \<Rightarrow> channel list \<Rightarrow> (Session \<times> channel list) option" where
  "Session_cancel token s h =
     (case token of
        None \<Rightarrow> Some (s, h)
      | Some i \<Rightarrow>
          (case map_of (subscribers s) i of
             None \<Rightarrow> Some (s, h)
           | Some sub \<Rightarrow>
               (let s = s\<lparr>subscribers := filter (\<lambda>e. fst e \<noteq> i) (subscribers s)\<rparr>
                in case close_channel (sub_ch sub) h of None \<Rightarrow> None | Some h \<Rightarrow> Some (s, h))))"

section \<open>A session and its consumers\<close>

text \<open>
  What can happen to a session: the pool leases a worker, the worker writes a line, a client
  attaches, detaches or reads from its channel, the run ends.  The trace keeps, per channel, the
  history the client was given, what it has read and which lines were written while it was attached.
\<close>

datatype session_op =
    Lease
  | Output string
  | Attach
  | Detach "nat option"
  | Read nat
  | Ended int "string option"

record watched =
  w_session :: Session
  w_heap :: "channel list"
  w_output :: "string list"
  w_history :: "nat \<Rightarrow> string list"
  w_read :: "nat \<Rightarrow> string list"
  w_since :: "nat \<Rightarrow> string list"

definition watch :: "Session \<Rightarrow> watched" where
  "watch s = \<lparr>w_session = s, w_heap = [], w_output = [], w_history = (\<lambda>_. []), w_read = (\<lambda>_. []), w_since = (\<lambda>_. [])\<rparr>"

definition attached :: "watched \<Rightarrow> nat \<Rightarrow> bool" where
  "attached w c \<longleftrightarrow> c \<in> set (map (\<lambda>e. sub_ch (snd e)) (subscribers (w_session w)))"

fun watch_step :: "watched \<Rightarrow> session_op \<Rightarrow> watched option" where
  "watch_step w Lease = Some (w\<lparr>w_session := Session_Started (w_session w)\<rparr>)"
| "watch_step w (Output line) =
     (case Session_Line line (w_session w) (w_heap w) of
        None \<Rightarrow> None
      | Some (s, h) \<Rightarrow> Some (w\<lparr>w_session := s, w_heap := h, w_output := w_output w @ [line],
          w_since := (\<lambda>c. if attached w c then w_since w c @ [line] else w_since w c)\<rparr>))"
| "watch_step w Attach =
     (case Session_Subscribe (w_session w) (w_heap w) of
        (buffered, c, _, s, h) \<Rightarrow> Some (w\<lparr>w_session := s, w_heap := h, w_history := (w_history w)(c := buffered)\<rparr>))"
| "watch_step w (Detach token) =
     (case Session_cancel token (w_session w) (w_heap w) of
        None \<Rightarrow> None
      | Some (s, h) \<Rightarrow> Some (w\<lparr>w_session := s, w_heap := h\<rparr>))"
| "watch_step w (Read c) =
     (if c < length (w_heap w) \<and> queued (w_heap w ! c) \<noteq> []
      then Some (w\<lparr>w_heap := (w_heap w)[c := (w_heap w ! c)\<lparr>queued := tl (queued (w_heap w ! c))\<rparr>],
             w_read := (w_read w)(c := w_read w c @ [hd (queued (w_heap w ! c))])\<rparr>)
      else Some w)"
| "watch_step w (Ended code err) =
     (case Session_finish code err (w_session w) (w_heap w) of
        None \<Rightarrow> None
      | Some (s, h) \<Rightarrow> Some (w\<lparr>w_session := s, w_heap := h\<rparr>))"

fun watch_steps :: "watched \<Rightarrow> session_op list \<Rightarrow> watched option" where
  "watch_steps w [] = Some w"
| "watch_steps w (op # ops) = (case watch_step w op of None \<Rightarrow> None | Some w \<Rightarrow> watch_steps w ops)"

text \<open>A stream of items accounts for the written lines, up to \<open>d\<close> lines at the end.\<close>

datatype item = Event string | Gap nat

fun item_text :: "item \<Rightarrow> string" where
  "item_text (Event l) = l"
| "item_text (Gap n) = gapNotice n"

fun accounts :: "item list \<Rightarrow> string list \<Rightarrow> nat \<Rightarrow> bool" where
  "accounts [] ls d = (length ls = d)"
| "accounts (Event l # its) [] d = False"
| "accounts (Event l # its) (x # ls) d = (l = x \<and> accounts its ls d)"
| "accounts (Gap n # its) ls d = (0 < n \<and> n \<le> length ls \<and> accounts its (drop n ls) d)"

lemma accounts_length: "accounts its ls d \<Longrightarrow> d \<le> length ls"
  by (induction its ls d rule: accounts.induct) auto

lemma accounts_drop: "accounts its ls d \<Longrightarrow> accounts its (ls @ [x]) (Suc d)"
  by (induction its ls d rule: accounts.induct) auto

lemma accounts_event: "accounts its ls 0 \<Longrightarrow> accounts (its @ [Event x]) (ls @ [x]) 0"
  by (induction its ls "0::nat" rule: accounts.induct) auto

lemma accounts_gap: "accounts its ls d \<Longrightarrow> 0 < d \<Longrightarrow> accounts (its @ [Gap d]) ls 0"
  by (induction its ls d rule: accounts.induct) auto

text \<open>Every line is an event, is counted by a gap, or is among the last \<open>d\<close>.\<close>

fun item_lines :: "item \<Rightarrow> nat" where
  "item_lines (Event l) = 1"
| "item_lines (Gap n) = n"

lemma accounts_total: "accounts its ls d \<Longrightarrow> sum_list (map item_lines its) + d = length ls"
  by (induction its ls d rule: accounts.induct) auto

definition accounted :: "string list \<Rightarrow> string list \<Rightarrow> nat \<Rightarrow> bool" where
  "accounted texts ls d \<longleftrightarrow> (\<exists>its. map item_text its = texts \<and> accounts its ls d)"

lemma accounted_Nil [simp]: "accounted [] [] 0"
  by (simp add: accounted_def)

lemma accounted_drop: "accounted ts ls d \<Longrightarrow> accounted ts (ls @ [x]) (Suc d)"
  by (auto simp: accounted_def dest: accounts_drop)

lemma accounted_event: "accounted ts ls 0 \<Longrightarrow> accounted (ts @ [x]) (ls @ [x]) 0"
  unfolding accounted_def by (metis accounts_event item_text.simps(1) list.simps(8,9) map_append)

lemma accounted_gap: "accounted ts ls d \<Longrightarrow> 0 < d \<Longrightarrow> accounted (ts @ [gapNotice d]) ls 0"
  unfolding accounted_def by (metis accounts_gap item_text.simps(2) list.simps(8,9) map_append)

section \<open>No panic, and no line unaccounted for\<close>

definition sub_ok ::
    "(nat \<Rightarrow> string list) \<Rightarrow> (nat \<Rightarrow> string list) \<Rightarrow> channel list \<Rightarrow> subscriber \<Rightarrow> bool" where
  "sub_ok got since h sub \<longleftrightarrow> sub_ch sub < length h \<and> \<not> closed (h ! sub_ch sub) \<and>
     length (queued (h ! sub_ch sub)) \<le> capacity (h ! sub_ch sub) \<and>
     accounted (got (sub_ch sub) @ queued (h ! sub_ch sub)) (since (sub_ch sub)) (dropped sub)"

text \<open>What a step on one channel leaves alone.\<close>

definition same_but :: "nat set \<Rightarrow> channel list \<Rightarrow> channel list \<Rightarrow> bool" where
  "same_but cs h h' \<longleftrightarrow> length h' = length h \<and> (\<forall>c. c \<notin> cs \<longrightarrow> h' ! c = h ! c)"

lemma same_but_refl [simp]: "same_but cs h h"
  by (simp add: same_but_def)

lemma same_but_trans: "same_but cs h h' \<Longrightarrow> same_but ds h' h'' \<Longrightarrow> same_but (cs \<union> ds) h h''"
  by (simp add: same_but_def)

lemma sub_ok_other: "sub_ok got since h sub \<Longrightarrow> same_but cs h h' \<Longrightarrow> sub_ch sub \<notin> cs \<Longrightarrow> sub_ok got since h' sub"
  by (simp add: sub_ok_def same_but_def)

lemma send_line_ok:
  assumes "sub_ok got since h sub" "dropped sub = 0"
  shows "\<exists>sub' h'. send_line line sub h = Some (sub', h') \<and> sub_ch sub' = sub_ch sub \<and>
    same_but {sub_ch sub} h h' \<and> sub_ok got (\<lambda>c. since c @ [line]) h' sub'"
  using assms accounted_event [of "got (sub_ch sub) @ queued (h ! sub_ch sub)" "since (sub_ch sub)" line]
    accounted_drop [of "got (sub_ch sub) @ queued (h ! sub_ch sub)" "since (sub_ch sub)" 0 line]
  by (auto simp: send_line_def try_send_def sub_ok_def same_but_def)

lemma deliver_ok:
  assumes "sub_ok got since h sub"
  shows "\<exists>sub' h'. deliver line sub h = Some (sub', h') \<and> sub_ch sub' = sub_ch sub \<and>
    same_but {sub_ch sub} h h' \<and> sub_ok got (\<lambda>c. since c @ [line]) h' sub'"
proof (cases "dropped sub = 0")
  case True
  then show ?thesis using send_line_ok [OF assms] by (simp add: deliver_def)
next
  case False
  let ?c = "sub_ch sub"
  let ?h = "h[?c := (h ! ?c)\<lparr>queued := queued (h ! ?c) @ [gapNotice (dropped sub)]\<rparr>]"
  show ?thesis
  proof (cases "length (queued (h ! ?c)) < capacity (h ! ?c)")
    case space: True
    have ok: "sub_ok got since ?h (sub\<lparr>dropped := 0\<rparr>)"
      using assms space False accounted_gap [of "got ?c @ queued (h ! ?c)" "since ?c" "dropped sub"]
      by (simp add: sub_ok_def)
    have same: "same_but {?c} h ?h" by (simp add: same_but_def)
    obtain sub' h' where "send_line line (sub\<lparr>dropped := 0\<rparr>) ?h = Some (sub', h')" "sub_ch sub' = ?c"
      "same_but {?c} ?h h'" "sub_ok got (\<lambda>c. since c @ [line]) h' sub'"
      using send_line_ok [OF ok, of line] by auto
    moreover from this same_but_trans [OF same, of "{?c}" h'] have "same_but {?c} h h'" by simp
    ultimately show ?thesis using assms space False by (simp add: deliver_def try_send_def sub_ok_def)
  next
    case full: False
    then show ?thesis using assms False accounted_drop [of "got ?c @ queued (h ! ?c)" "since ?c" "dropped sub" line]
      by (auto simp: deliver_def try_send_def sub_ok_def)
  qed
qed

abbreviation chans :: "(nat \<times> subscriber) list \<Rightarrow> nat list" where
  "chans \<equiv> map (\<lambda>e. sub_ch (snd e))"

lemma broadcast_ok:
  assumes "distinct (chans subs)" "\<forall>e \<in> set subs. sub_ok got since h (snd e)"
  shows "\<exists>subs' h'. broadcast line subs h = Some (subs', h') \<and> map fst subs' = map fst subs \<and>
    chans subs' = chans subs \<and> same_but (set (chans subs)) h h' \<and>
    (\<forall>e \<in> set subs'. sub_ok got (\<lambda>c. since c @ [line]) h' (snd e))"
  using assms
proof (induction subs arbitrary: h)
  case Nil
  then show ?case by simp
next
  case (Cons e subs)
  obtain i sub where e: "e = (i, sub)" by (cases e)
  obtain sub' h1 where 1: "deliver line sub h = Some (sub', h1)" "sub_ch sub' = sub_ch sub"
    "same_but {sub_ch sub} h h1" "sub_ok got (\<lambda>c. since c @ [line]) h1 sub'"
    using deliver_ok Cons.prems(2) e by fastforce
  have d: "distinct (chans subs)" using Cons.prems(1) by simp
  have "\<forall>e \<in> set subs. sub_ok got since h1 (snd e)"
  proof
    fix e' assume "e' \<in> set subs"
    then have "sub_ok got since h (snd e')" "sub_ch (snd e') \<notin> {sub_ch sub}"
      using Cons.prems e by (auto simp: image_iff)
    then show "sub_ok got since h1 (snd e')" by (rule sub_ok_other [OF _ 1(3)])
  qed
  from Cons.IH [OF d this] obtain subs' h2 where 2: "broadcast line subs h1 = Some (subs', h2)" "map fst subs' = map fst subs"
    "chans subs' = chans subs" "same_but (set (chans subs)) h1 h2"
    "\<forall>e \<in> set subs'. sub_ok got (\<lambda>c. since c @ [line]) h2 (snd e)"
    by blast
  have "sub_ok got (\<lambda>c. since c @ [line]) h2 sub'"
    using sub_ok_other [OF 1(4) 2(4)] 1(2) Cons.prems(1) e by auto
  then show ?case using 1 2 e same_but_trans [OF 1(3) 2(4)] by simp
qed

lemma close_all_ok:
  assumes "distinct cs" "\<forall>c \<in> set cs. c < length h \<and> \<not> closed (h ! c)"
  shows "\<exists>h'. close_all cs h = Some h' \<and> length h' = length h \<and>
    (\<forall>c. queued (h' ! c) = queued (h ! c) \<and> capacity (h' ! c) = capacity (h ! c))"
  using assms
proof (induction cs arbitrary: h)
  case (Cons c cs)
  let ?h = "h[c := (h ! c)\<lparr>closed := True\<rparr>]"
  have "\<forall>d \<in> set cs. d < length ?h \<and> \<not> closed (?h ! d)"
    using Cons.prems by (metis distinct.simps(2) length_list_update list.set_intros(2) nth_list_update_neq)
  then obtain h' where h': "close_all cs ?h = Some h'" "length h' = length ?h"
    "\<forall>d. queued (h' ! d) = queued (?h ! d) \<and> capacity (h' ! d) = capacity (?h ! d)"
    using Cons.IH [of ?h] Cons.prems(1) by auto
  have "queued (?h ! d) = queued (h ! d) \<and> capacity (?h ! d) = capacity (h ! d)" for d
    using Cons.prems(2) by (cases "c = d") simp_all
  with h' show ?case using Cons.prems(2) by (simp add: close_channel_def)
qed simp

text \<open>The last \<open>n\<close> lines, and the ring that keeps them.\<close>

definition latest :: "int \<Rightarrow> 'a list \<Rightarrow> 'a list" where
  "latest n xs = drop (length xs - nat n) xs"

lemma latest_snoc:
  "0 < n \<Longrightarrow> (if int (length (latest n xs @ [x])) > n
     then drop (nat (int (length (latest n xs @ [x])) - n)) (latest n xs @ [x]) else latest n xs @ [x]) =
   latest n (xs @ [x])"
proof (cases "length xs < nat n")
  case True
  moreover assume "0 < n"
  ultimately have "int (Suc (length xs)) \<le> n" by linarith
  with True show ?thesis by (simp add: latest_def)
next
  case False
  moreover assume "0 < n"
  ultimately show ?thesis by (simp add: latest_def Suc_diff_le nat_diff_distrib)
qed

text \<open>The invariant of a session, its channels and its consumers.\<close>

definition channels_ok :: "(nat \<times> subscriber) list \<Rightarrow> watched \<Rightarrow> bool" where
  "channels_ok subs w \<longleftrightarrow> distinct (chans subs) \<and>
     (\<forall>e \<in> set subs. sub_ok (w_read w) (w_since w) (w_heap w) (snd e)) \<and>
     (\<forall>c < length (w_heap w). \<exists>d. accounted (w_read w c @ queued (w_heap w ! c)) (w_since w c) d) \<and>
     (\<forall>c. length (w_heap w) \<le> c \<longrightarrow> w_read w c = [] \<and> w_since w c = [])"

definition history_ok :: "Session \<Rightarrow> watched \<Rightarrow> bool" where
  "history_ok s w \<longleftrightarrow> 0 < maxBuffer s \<and> sess_buffer s = latest (maxBuffer s) (w_output w) \<and>
     sess_lines s = length (w_output w) \<and>
     (\<forall>e \<in> set (subscribers s). \<exists>before. w_output w = before @ w_since w (sub_ch (snd e)) \<and>
        w_history w (sub_ch (snd e)) = latest (maxBuffer s) before)"

definition ids_ok :: "Session \<Rightarrow> bool" where
  "ids_ok s \<longleftrightarrow> distinct (map fst (subscribers s)) \<and> (\<forall>e \<in> set (subscribers s). fst e < nextSub s) \<and>
     finished s = sess_done s \<and> (finished s \<longrightarrow> subscribers s = [])"

definition watch_inv :: "watched \<Rightarrow> bool" where
  "watch_inv w \<longleftrightarrow> ids_ok (w_session w) \<and> channels_ok (subscribers (w_session w)) w \<and> history_ok (w_session w) w"

lemmas watch_defs = watch_inv_def ids_ok_def channels_ok_def history_ok_def

lemma sub_ok_since: "since' (sub_ch sub) = since (sub_ch sub) \<Longrightarrow> sub_ok got since' h sub = sub_ok got since h sub"
  by (simp add: sub_ok_def)

lemma watch_inv_new: "watch_inv (watch (newSession i cwd n))"
  by (simp add: watch_defs watch_def newSession_def latest_def defaultSessionBuffer_def)

lemma step_Leased: "watch_inv w \<Longrightarrow> watch_inv (w\<lparr>w_session := Session_Started (w_session w)\<rparr>)"
  by (simp add: watch_defs Session_Started_def)

text \<open>A line: the subscribers get it or count it, the ring keeps it.\<close>

lemma Session_Line_eq:
  assumes "history_ok s w" "broadcast line (subscribers s) h = Some (subs, h')"
  shows "Session_Line line s h = Some (s\<lparr>sess_lines := sess_lines s + 1,
      sess_buffer := latest (maxBuffer s) (w_output w @ [line]), subscribers := subs\<rparr>, h')"
  using assms latest_snoc [of "maxBuffer s" "w_output w" line]
  by (auto simp: Session_Line_def Let_def history_ok_def split: if_splits)

lemma step_Output:
  assumes "watch_inv w"
  shows "\<exists>w'. watch_step w (Output line) = Some w' \<and> watch_inv w' \<and>
    finished (w_session w') = finished (w_session w)"
proof -
  let ?s = "w_session w" and ?h = "w_heap w"
  let ?since = "\<lambda>c. if attached w c then w_since w c @ [line] else w_since w c"
  have inv: "ids_ok ?s" "channels_ok (subscribers ?s) w" "history_ok ?s w"
    using assms by (simp_all add: watch_inv_def)
  then have dist: "distinct (chans (subscribers ?s))"
    and subs: "\<forall>e \<in> set (subscribers ?s). sub_ok (w_read w) (w_since w) ?h (snd e)"
    by (simp_all add: channels_ok_def)
  from broadcast_ok [OF this, of line] obtain subs' h' where
    b: "broadcast line (subscribers ?s) ?h = Some (subs', h')" "map fst subs' = map fst (subscribers ?s)"
      "chans subs' = chans (subscribers ?s)" "same_but (set (chans (subscribers ?s))) ?h h'"
      "\<forall>e \<in> set subs'. sub_ok (w_read w) (\<lambda>c. w_since w c @ [line]) h' (snd e)"
    by blast
  let ?s' = "?s\<lparr>sess_lines := sess_lines ?s + 1, sess_buffer := latest (maxBuffer ?s) (w_output w @ [line]),
      subscribers := subs'\<rparr>"
  let ?w = "w\<lparr>w_session := ?s', w_heap := h', w_output := w_output w @ [line], w_since := ?since\<rparr>"
  have step: "watch_step w (Output line) = Some ?w"
    using Session_Line_eq [OF inv(3) b(1)] by simp
  have att: "attached w (sub_ch (snd e))" if "e \<in> set subs'" for e
  proof -
    have "sub_ch (snd e) \<in> set (chans subs')" using that by force
    then show ?thesis by (simp only: b(3) attached_def)
  qed
  have ok: "\<forall>e \<in> set subs'. sub_ok (w_read w) ?since h' (snd e)"
    using b(5) att sub_ok_since [of ?since _ "\<lambda>c. w_since w c @ [line]"] by simp
  have len: "length h' = length ?h" using b(4) by (simp add: same_but_def)
  have "\<exists>d. accounted (w_read w c @ queued (h' ! c)) (?since c) d" if "c < length ?h" for c
  proof (cases "attached w c")
    case True
    then have "c \<in> set (chans subs')" by (simp only: b(3) attached_def)
    then show ?thesis using ok unfolding sub_ok_def by fastforce
  next
    case False
    then have "h' ! c = ?h ! c" using b(4) by (auto simp: same_but_def attached_def)
    with False that inv(2) show ?thesis by (simp add: channels_ok_def)
  qed
  moreover have "\<not> attached w c" if "length ?h \<le> c" for c
    using subs that by (auto simp: attached_def sub_ok_def)
  ultimately have ch: "channels_ok subs' ?w"
    using inv(2) b(3) dist ok len by (simp add: channels_ok_def)
  have hist: "history_ok ?s' ?w"
  proof -
    have "\<exists>before. w_output w @ [line] = before @ ?since (sub_ch (snd e)) \<and>
        w_history w (sub_ch (snd e)) = latest (maxBuffer ?s) before" if e: "e \<in> set subs'" for e
    proof -
      have "sub_ch (snd e) \<in> set (chans (subscribers ?s))" unfolding b(3) [symmetric] using e by force
      then obtain before where "w_output w = before @ w_since w (sub_ch (snd e))"
        "w_history w (sub_ch (snd e)) = latest (maxBuffer ?s) before"
        using inv(3) unfolding history_ok_def by fastforce
      then show ?thesis using att [OF e] by simp
    qed
    then show ?thesis using inv(3) by (simp add: history_ok_def)
  qed
  have "\<forall>e \<in> set subs'. fst e < nextSub ?s"
  proof
    fix e assume "e \<in> set subs'"
    then have "fst e \<in> set (map fst subs')" by force
    then show "fst e < nextSub ?s" using inv(1) unfolding b(2) by (auto simp: ids_ok_def)
  qed
  moreover have "subs' = []" if "subscribers ?s = []" using b(2) that by simp
  ultimately have "ids_ok ?s'" using inv(1) b(2) by (simp add: ids_ok_def)
  with ch hist step show ?thesis by (simp add: watch_inv_def)
qed

lemma step_Attach:
  assumes "watch_inv w"
  shows "\<exists>w'. watch_step w Attach = Some w' \<and> watch_inv w' \<and> finished (w_session w') = finished (w_session w)"
proof -
  have "sub_ok got since (h @ [x]) sub = sub_ok got since h sub" if "sub_ch sub < length h" for got since h x sub
    using that by (simp add: sub_ok_def nth_append)
  moreover have "Ex (accounted [] [])" by (rule exI [of _ 0]) simp
  ultimately show ?thesis
    using assms by (auto simp: watch_defs Session_Subscribe_def Let_def nth_append less_Suc_eq sub_ok_def
        intro!: exI [of _ "w_output w"])
qed

lemma step_Read:
  assumes "watch_inv w"
  shows "\<exists>w'. watch_step w (Read c) = Some w' \<and> watch_inv w' \<and> finished (w_session w') = finished (w_session w)"
proof (cases "c < length (w_heap w) \<and> queued (w_heap w ! c) \<noteq> []")
  case True
  let ?q = "queued (w_heap w ! c)"
  let ?h = "(w_heap w)[c := (w_heap w ! c)\<lparr>queued := tl ?q\<rparr>]" and ?r = "(w_read w)(c := w_read w c @ [hd ?q])"
  have q: "?r d @ queued (?h ! d) = w_read w d @ queued (w_heap w ! d)" for d
    using True by (cases "d = c") simp_all
  have ok: "sub_ok ?r (w_since w) ?h sub" if "sub_ok (w_read w) (w_since w) (w_heap w) sub" for sub
  proof -
    have "length (tl ?q) \<le> length ?q" by simp
    then show ?thesis
      using that q [of "sub_ch sub"] by (cases "sub_ch sub = c") (auto simp: sub_ok_def)
  qed
  show ?thesis
    using assms True ok q by (auto simp: watch_inv_def ids_ok_def channels_ok_def history_ok_def)
qed (use assms in auto)

lemma step_Detach:
  assumes "watch_inv w"
  shows "\<exists>w'. watch_step w (Detach token) = Some w' \<and> watch_inv w' \<and> finished (w_session w') = finished (w_session w)"
proof (cases "\<exists>i sub. token = Some i \<and> map_of (subscribers (w_session w)) i = Some sub")
  case True
  let ?s = "w_session w" and ?h = "w_heap w"
  from True obtain i sub where t: "token = Some i" "map_of (subscribers ?s) i = Some sub" by blast
  then have mem: "(i, sub) \<in> set (subscribers ?s)" by (rule_tac map_of_SomeD)
  have inv: "ids_ok ?s" "channels_ok (subscribers ?s) w" "history_ok ?s w"
    using assms by (simp_all add: watch_inv_def)
  let ?h' = "?h[sub_ch sub := (?h ! sub_ch sub)\<lparr>closed := True\<rparr>]"
  let ?subs = "filter (\<lambda>e. fst e \<noteq> i) (subscribers ?s)"
  have "sub_ok (w_read w) (w_since w) ?h sub" using inv(2) mem by (auto simp: channels_ok_def)
  then have open': "\<not> closed (?h ! sub_ch sub)" by (simp add: sub_ok_def)
  have other: "sub_ch (snd e) \<noteq> sub_ch sub" if "e \<in> set ?subs" for e
  proof
    assume "sub_ch (snd e) = sub_ch sub"
    moreover have inj: "inj_on (\<lambda>e. sub_ch (snd e)) (set (subscribers ?s))"
      using inv(2) by (simp add: channels_ok_def distinct_map)
    ultimately have "e = (i, sub)" using that mem by (intro inj_onD [OF inj]) auto
    with that show False by simp
  qed
  have ok: "sub_ok (w_read w) (w_since w) ?h' (snd e)" if "e \<in> set ?subs" for e
    using inv(2) that other [OF that] by (auto simp: channels_ok_def sub_ok_def)
  have q: "queued (?h' ! c) = queued (?h ! c)" if "c < length ?h" for c
    using that by (cases "c = sub_ch sub") simp_all
  have "channels_ok ?subs (w\<lparr>w_session := ?s\<lparr>subscribers := ?subs\<rparr>, w_heap := ?h'\<rparr>)"
    using inv(2) ok q by (auto simp: channels_ok_def distinct_map_filter)
  moreover have "history_ok (?s\<lparr>subscribers := ?subs\<rparr>) (w\<lparr>w_session := ?s\<lparr>subscribers := ?subs\<rparr>, w_heap := ?h'\<rparr>)"
    using inv(3) by (simp add: history_ok_def)
  moreover have "ids_ok (?s\<lparr>subscribers := ?subs\<rparr>)"
    using inv(1) by (auto simp: ids_ok_def distinct_map_filter)
  ultimately show ?thesis
    using t open' by (simp add: Session_cancel_def close_channel_def Let_def watch_inv_def)
next
  case False
  then have "Session_cancel token (w_session w) (w_heap w) = Some (w_session w, w_heap w)"
    by (auto simp: Session_cancel_def split: option.split)
  then show ?thesis using assms by simp
qed

lemma step_Ended:
  assumes "watch_inv w" "\<not> finished (w_session w)"
  shows "\<exists>w'. watch_step w (Ended code err) = Some w' \<and> watch_inv w' \<and> finished (w_session w')"
proof -
  let ?s = "w_session w" and ?h = "w_heap w"
  have inv: "ids_ok ?s" "channels_ok (subscribers ?s) w" "history_ok ?s w"
    using assms by (simp_all add: watch_inv_def)
  have "distinct (chans (subscribers ?s))" using inv(2) by (simp add: channels_ok_def)
  moreover have "\<forall>c \<in> set (chans (subscribers ?s)). c < length ?h \<and> \<not> closed (?h ! c)"
    using inv(2) by (auto simp: channels_ok_def sub_ok_def)
  ultimately obtain h' where h': "close_all (chans (subscribers ?s)) ?h = Some h'" "length h' = length ?h"
    "\<forall>c. queued (h' ! c) = queued (?h ! c) \<and> capacity (h' ! c) = capacity (?h ! c)"
    using close_all_ok by blast
  have "\<not> sess_done ?s" using inv(1) assms(2) by (simp add: ids_ok_def)
  then have "Session_finish code err ?s ?h = Some (?s\<lparr>finished := True, exitCode := code, sess_err := err,
      sess_state := (if err \<noteq> None then SessionFailed else SessionDone), subscribers := [], sess_done := True\<rparr>, h')"
    using h'(1) by (simp add: Session_finish_def Let_def)
  then show ?thesis using inv h'(2,3) by (simp add: watch_inv_def ids_ok_def channels_ok_def history_ok_def)
qed

lemma watch_steps_inv:
  assumes "watch_inv w" "length (filter (\<lambda>op. case op of Ended _ _ \<Rightarrow> True | _ \<Rightarrow> False) ops) +
      (if finished (w_session w) then 1 else 0) \<le> 1"
  shows "\<exists>w'. watch_steps w ops = Some w' \<and> watch_inv w'"
  using assms
proof (induction ops arbitrary: w)
  case Nil
  then show ?case by simp
next
  case (Cons op ops)
  have "\<exists>w'. watch_step w op = Some w' \<and> watch_inv w' \<and>
      (finished (w_session w') \<longleftrightarrow> finished (w_session w) \<or> (case op of Ended _ _ \<Rightarrow> True | _ \<Rightarrow> False))"
  proof (cases op)
    case Lease
    then show ?thesis using step_Leased [OF Cons.prems(1)] by (simp add: Session_Started_def)
  next
    case (Ended code err)
    then show ?thesis using step_Ended [OF Cons.prems(1)] Cons.prems(2) by (auto split: if_splits)
  qed (use step_Output step_Attach step_Detach step_Read Cons.prems(1) in \<open>auto simp del: watch_step.simps\<close>)
  then obtain w' where w': "watch_step w op = Some w'" "watch_inv w'"
    "finished (w_session w') \<longleftrightarrow> finished (w_session w) \<or> (case op of Ended _ _ \<Rightarrow> True | _ \<Rightarrow> False)"
    by blast
  then show ?case using Cons.IH [OF w'(2)] Cons.prems(2) by (auto split: session_op.splits if_splits)
qed

end
