(* ===== verification/Daemon_Registry.thy ===== *)
theory Daemon_Registry
  imports Daemon_Session
begin

text \<open>
  The session manager of \<open>internal/daemon/session.go\<close>: the registry of sessions by id, the
  creation order, and the eviction of the oldest finished sessions.  Sessions are shared objects,
  so they live in a store and the registry holds their positions; the run of a session ends by an
  operation of its own, because it ends in another goroutine.
\<close>

section \<open>The registry\<close>

record SessionManager =
  mgr_maxBuffer :: int
  maxSessions :: int
  sessions :: "(string \<times> nat) list"
  order :: "string list"

definition defaultMaxSessions :: int where "defaultMaxSessions = 256"

definition NewSessionManager :: "int \<Rightarrow> int \<Rightarrow> SessionManager" where
  "NewSessionManager buf sess =
     \<lparr>mgr_maxBuffer = buf, maxSessions = (if sess \<le> 0 then defaultMaxSessions else sess), sessions = [], order = []\<rparr>"

text \<open>The loop of \<open>pruneLocked\<close>: the ids it keeps, and the map without the ones it deletes.\<close>

fun prune_loop ::
    "Session list \<Rightarrow> int \<Rightarrow> string list \<Rightarrow> (string \<times> nat) list \<Rightarrow> string list \<times> (string \<times> nat) list" where
  "prune_loop objs max_sessions [] m = ([], m)"
| "prune_loop objs max_sessions (i # ids) m =
     (case map_of m i of
        None \<Rightarrow> prune_loop objs max_sessions ids m
      | Some p \<Rightarrow>
          if int (length m) > max_sessions \<and> finished (objs ! p)
          then prune_loop objs max_sessions ids (filter (\<lambda>e. fst e \<noteq> i) m)
          else (case prune_loop objs max_sessions ids m of (kept, m) \<Rightarrow> (i # kept, m)))"

definition pruneLocked :: "Session list \<Rightarrow> SessionManager \<Rightarrow> SessionManager" where
  "pruneLocked objs m =
     (if int (length (sessions m)) \<le> maxSessions m then m
      else (case prune_loop objs (maxSessions m) (order m) (sessions m) of
              (kept, ss) \<Rightarrow> m\<lparr>sessions := ss, order := kept\<rparr>))"

text \<open>\<open>Start\<close> up to the goroutine it spawns; \<open>None\<close> is \<open>ErrSessionExists\<close>.\<close>

definition SessionManager_Start ::
    "string \<Rightarrow> string \<Rightarrow> Session list \<times> SessionManager \<Rightarrow> (Session list \<times> SessionManager) option" where
  "SessionManager_Start i cwd st =
     (case st of (objs, m) \<Rightarrow>
        if map_of (sessions m) i \<noteq> None then None
        else (let sess = newSession i cwd (mgr_maxBuffer m);
                  objs = objs @ [sess];
                  m = m\<lparr>sessions := (i, length objs - 1) # sessions m\<rparr>;
                  m = m\<lparr>order := order m @ [i]\<rparr>
              in Some (objs, pruneLocked objs m)))"

definition SessionManager_Get :: "string \<Rightarrow> SessionManager \<Rightarrow> nat option" where
  "SessionManager_Get i m = map_of (sessions m) i"

text \<open>\<open>Attach\<close>: \<open>None\<close> is \<open>ErrSessionNotFound\<close>.\<close>

definition SessionManager_Attach ::
    "string \<Rightarrow> Session list \<times> SessionManager \<Rightarrow> channel list \<Rightarrow>
     (string list \<times> nat \<times> nat option \<times> (Session list \<times> SessionManager) \<times> channel list) option" where
  "SessionManager_Attach i st h =
     (case st of (objs, m) \<Rightarrow>
        (case SessionManager_Get i m of
           None \<Rightarrow> None
         | Some p \<Rightarrow>
             (case Session_Subscribe (objs ! p) h of
                (buffered, c, token, s, h) \<Rightarrow> Some (buffered, c, token, (objs[p := s], m), h))))"

text \<open>\<open>Statuses\<close>: id, state and line count of every session, by id.\<close>

fun SessionState_string :: "SessionState \<Rightarrow> string" where
  "SessionState_string SessionQueued = ''queued''"
| "SessionState_string SessionRunning = ''running''"
| "SessionState_string SessionDone = ''done''"
| "SessionState_string SessionFailed = ''failed''"

definition Session_status :: "Session \<Rightarrow> string \<times> string \<times> nat" where
  "Session_status s = (sess_id s, SessionState_string (sess_state s), sess_lines s)"

definition SessionManager_Statuses :: "Session list \<times> SessionManager \<Rightarrow> (string \<times> string \<times> nat) list" where
  "SessionManager_Statuses st =
     (case st of (objs, m) \<Rightarrow> sort_key fst (map (\<lambda>e. Session_status (objs ! snd e)) (sessions m)))"

section \<open>Eviction\<close>

text \<open>The specification: the first \<open>n\<close> finished ids leave.\<close>

fun evict :: "nat \<Rightarrow> (string \<Rightarrow> bool) \<Rightarrow> string list \<Rightarrow> string list" where
  "evict n fin [] = []"
| "evict n fin (i # ids) = (if 0 < n \<and> fin i then evict (n - 1) fin ids else i # evict n fin ids)"

lemma evict_set: "set (evict n fin ids) \<subseteq> set ids"
  by (induction n fin ids rule: evict.induct) auto

lemma evict_distinct: "distinct ids \<Longrightarrow> distinct (evict n fin ids)"
proof (induction n fin ids rule: evict.induct)
  case (2 n fin i ids)
  then show ?case using evict_set [of n fin ids] by auto
qed simp

lemma evict_unfinished: "i \<in> set ids \<Longrightarrow> \<not> fin i \<Longrightarrow> i \<in> set (evict n fin ids)"
  by (induction n fin ids rule: evict.induct) auto

lemma evict_length: "length (evict n fin ids) + min n (length (filter fin ids)) = length ids"
  by (induction n fin ids rule: evict.induct) (auto simp: min_def split: if_splits)

lemma evict_enough: "length (filter fin ids) \<le> n \<Longrightarrow> \<forall>i \<in> set (evict n fin ids). \<not> fin i"
proof (induction ids arbitrary: n)
  case (Cons i ids)
  show ?case
  proof (cases "0 < n \<and> fin i")
    case True
    then have "length (filter fin ids) \<le> n - 1" using Cons.prems by simp
    from Cons.IH [OF this] True show ?thesis by simp
  next
    case False
    then have "\<not> fin i" "length (filter fin ids) \<le> n" using Cons.prems by (auto split: if_splits)
    with Cons.IH [of n] False show ?thesis by auto
  qed
qed simp

text \<open>What leaves stands before every finished id that stays.\<close>

lemma evict_oldest:
  "\<exists>old new. ids = old @ new \<and> evict n fin ids = filter (\<lambda>i. \<not> fin i) old @ new"
proof (induction n fin ids rule: evict.induct)
  case (2 n fin i ids)
  show ?case
  proof (cases "0 < n \<and> fin i")
    case True
    then obtain old new where "ids = old @ new" "evict (n - 1) fin ids = filter (\<lambda>i. \<not> fin i) old @ new"
      using 2 by blast
    then show ?thesis using True by (intro exI [of _ "i # old"] exI [of _ new]) simp
  next
    case F: False
    show ?thesis
    proof (cases "0 < n")
      case True
      then obtain old new where "ids = old @ new" "evict n fin ids = filter (\<lambda>i. \<not> fin i) old @ new"
        using 2 F by blast
      then show ?thesis using F True by (intro exI [of _ "i # old"] exI [of _ new]) simp
    next
      case False
      have "evict 0 fin ids = ids" by (induction ids) simp_all
      then show ?thesis using False by (intro exI [of _ "[]"] exI [of _ "i # ids"]) simp
    qed
  qed
qed simp

definition mgr_inv :: "Session list \<times> SessionManager \<Rightarrow> bool" where
  "mgr_inv st \<longleftrightarrow> (case st of (objs, m) \<Rightarrow>
     distinct (map fst (sessions m)) \<and> distinct (order m) \<and> set (order m) = fst ` set (sessions m) \<and>
     (\<forall>e \<in> set (sessions m). snd e < length objs \<and> sess_id (objs ! snd e) = fst e) \<and>
     (\<forall>p < length objs. \<not> finished (objs ! p) \<longrightarrow> (sess_id (objs ! p), p) \<in> set (sessions m)))"

abbreviation is_fin :: "Session list \<Rightarrow> (string \<times> nat) list \<Rightarrow> string \<Rightarrow> bool" where
  "is_fin objs m i \<equiv> (case map_of m i of None \<Rightarrow> False | Some p \<Rightarrow> finished (objs ! p))"

lemma map_of_filter_other: "j \<noteq> i \<Longrightarrow> map_of (filter (\<lambda>e. fst e \<noteq> i) m) j = map_of m j"
  by (induction m) auto

lemma length_delete_key:
  "distinct (map fst m) \<Longrightarrow> map_of m i = Some p \<Longrightarrow> length (filter (\<lambda>e. fst e \<noteq> i) m) = length m - 1"
proof (induction m)
  case (Cons e m)
  show ?case
  proof (cases "fst e = i")
    case True
    then have "filter (\<lambda>e. fst e \<noteq> i) m = m" using Cons.prems(1) by (auto simp: filter_id_conv image_iff)
    with True show ?thesis by simp
  next
    case False
    then have "m \<noteq> []" using Cons.prems(2) by (auto split: prod.splits if_splits)
    with False Cons show ?thesis by (cases e) (auto simp: Suc_diff_1 neq_Nil_conv)
  qed
qed simp

lemma prune_loop_spec:
  assumes "distinct (map fst m)" "distinct ids" "set ids \<subseteq> fst ` set m"
  shows "prune_loop objs k ids m =
    (evict (nat (int (length m) - k)) (is_fin objs m) ids,
     filter (\<lambda>e. fst e \<in> set ids \<longrightarrow> fst e \<in> set (evict (nat (int (length m) - k)) (is_fin objs m) ids)) m)"
  using assms
proof (induction ids arbitrary: m)
  case Nil
  then show ?case by simp
next
  case (Cons i ids)
  let ?n = "nat (int (length m) - k)"
  obtain p where p: "map_of m i = Some p"
    using Cons.prems(3) by (metis insert_subset list.simps(15) map_of_eq_None_iff not_None_eq)
  show ?case
  proof (cases "int (length m) > k \<and> finished (objs ! p)")
    case True
    let ?m = "filter (\<lambda>e. fst e \<noteq> i) m"
    have len: "length ?m = length m - 1" by (rule length_delete_key [OF Cons.prems(1) p])
    have fin: "evict j (is_fin objs ?m) ids = evict j (is_fin objs m) ids" for j
    proof -
      have "\<forall>x \<in> set ids. is_fin objs ?m x = is_fin objs m x"
      proof
        fix x assume "x \<in> set ids"
        then have "x \<noteq> i" using Cons.prems(2) by auto
        then show "is_fin objs ?m x = is_fin objs m x" by (simp add: map_of_filter_other)
      qed
      then show ?thesis by (induction j "is_fin objs m" ids rule: evict.induct) auto
    qed
    have "0 < length m" using p by (cases m) auto
    then have n: "nat (int (length ?m) - k) = ?n - 1" using len by linarith
    have "prune_loop objs k ids ?m = (evict (?n - 1) (is_fin objs m) ids,
        filter (\<lambda>e. fst e \<in> set ids \<longrightarrow> fst e \<in> set (evict (?n - 1) (is_fin objs m) ids)) ?m)"
    proof -
      have "distinct (map fst ?m)" using Cons.prems(1) by (rule distinct_map_filter)
      moreover have "distinct ids" using Cons.prems(2) by simp
      moreover have "set ids \<subseteq> fst ` set ?m"
      proof
        fix x assume "x \<in> set ids"
        then have "x \<noteq> i" "x \<in> fst ` set m" using Cons.prems(2,3) by auto
        then show "x \<in> fst ` set ?m" by force
      qed
      ultimately show ?thesis using Cons.IH [of ?m] by (simp only: fin n)
    qed
    moreover have "i \<notin> set (evict (?n - 1) (is_fin objs m) ids)"
      using evict_set [of "?n - 1"] Cons.prems(2) by auto
    ultimately show ?thesis using True p by (auto simp: intro!: filter_cong)
  next
    case False
    then show ?thesis
      using Cons p by (auto simp: intro!: filter_cong)
  qed
qed

section \<open>Histories of the registry\<close>

text \<open>
  A start through the manager, and whatever happens to a session meanwhile: its lease, its output,
  its end, clients coming and going.  The channels are those of the session at hand.
\<close>

inductive mgr_step :: "Session list \<times> SessionManager \<Rightarrow> Session list \<times> SessionManager \<Rightarrow> bool" where
  start: "SessionManager_Start i cwd st = Some st' \<Longrightarrow> mgr_step st st'"
| lease: "p < length objs \<Longrightarrow> mgr_step (objs, m) (objs[p := Session_Started (objs ! p)], m)"
| wrote: "p < length objs \<Longrightarrow> Session_Line l (objs ! p) h = Some (s, h') \<Longrightarrow> mgr_step (objs, m) (objs[p := s], m)"
| ended: "p < length objs \<Longrightarrow> Session_finish code err (objs ! p) h = Some (s, h') \<Longrightarrow>
    mgr_step (objs, m) (objs[p := s], m)"
| attach: "SessionManager_Attach i st h = Some (buffered, c, token, st', h') \<Longrightarrow> mgr_step st st'"
| detach: "p < length objs \<Longrightarrow> Session_cancel token (objs ! p) h = Some (s, h') \<Longrightarrow>
    mgr_step (objs, m) (objs[p := s], m)"

inductive mgr_reach :: "int \<Rightarrow> int \<Rightarrow> Session list \<times> SessionManager \<Rightarrow> bool" for buf k where
  init: "mgr_reach buf k ([], NewSessionManager buf k)"
| step: "mgr_reach buf k st \<Longrightarrow> mgr_step st st' \<Longrightarrow> mgr_reach buf k st'"

lemma pruneLocked_spec:
  assumes "distinct (map fst (sessions m))" "distinct (order m)" "set (order m) = fst ` set (sessions m)"
  shows "\<exists>n. n = nat (int (length (sessions m)) - maxSessions m) \<and>
    order (pruneLocked objs m) = evict n (is_fin objs (sessions m)) (order m) \<and>
    sessions (pruneLocked objs m) = filter (\<lambda>e. fst e \<in> set (order (pruneLocked objs m))) (sessions m) \<and>
    maxSessions (pruneLocked objs m) = maxSessions m"
proof (cases "int (length (sessions m)) \<le> maxSessions m")
  case True
  moreover have "evict 0 f ids = ids" for f ids by (induction ids) simp_all
  moreover have "filter (\<lambda>e. fst e \<in> set (order m)) (sessions m) = sessions m"
    using assms(3) by (simp add: filter_id_conv)
  ultimately show ?thesis by (simp add: pruneLocked_def)
next
  case False
  have "set (order m) \<subseteq> fst ` set (sessions m)" using assms(3) by simp
  note spec = prune_loop_spec [OF assms(1,2) this, of objs "maxSessions m"]
  have "filter (\<lambda>e. fst e \<in> set (order m) \<longrightarrow> P e) (sessions m) = filter P (sessions m)" for P
    using assms(3) by (intro filter_cong) auto
  with False spec show ?thesis by (simp add: pruneLocked_def)
qed

lemma Start_spec:
  assumes "mgr_inv (objs, m)" "SessionManager_Start i cwd (objs, m) = Some (objs', m')"
  shows "objs' = objs @ [newSession i cwd (mgr_maxBuffer m)]"
    "order m' = evict (nat (int (Suc (length (sessions m))) - maxSessions m))
       (is_fin objs' ((i, length objs) # sessions m)) (order m @ [i])"
    "sessions m' = filter (\<lambda>e. fst e \<in> set (order m')) ((i, length objs) # sessions m)"
    "i \<notin> fst ` set (sessions m)" "i \<in> set (order m')"
proof -
  have n: "map_of (sessions m) i = None" and o: "objs' = objs @ [newSession i cwd (mgr_maxBuffer m)]"
    and m': "m' = pruneLocked objs' (m\<lparr>sessions := (i, length objs) # sessions m, order := order m @ [i]\<rparr>)"
    using assms(2) by (auto simp: SessionManager_Start_def Let_def split: if_splits)
  then show fresh: "i \<notin> fst ` set (sessions m)" by (simp add: map_of_eq_None_iff)
  show "objs' = objs @ [newSession i cwd (mgr_maxBuffer m)]" by (rule o)
  let ?m = "m\<lparr>sessions := (i, length objs) # sessions m, order := order m @ [i]\<rparr>"
  have "distinct (map fst (sessions ?m))" "distinct (order ?m)" "set (order ?m) = fst ` set (sessions ?m)"
    using assms(1) fresh by (auto simp: mgr_inv_def)
  from pruneLocked_spec [OF this, of objs']
  show ord: "order m' = evict (nat (int (Suc (length (sessions m))) - maxSessions m))
       (is_fin objs' ((i, length objs) # sessions m)) (order m @ [i])"
    and "sessions m' = filter (\<lambda>e. fst e \<in> set (order m')) ((i, length objs) # sessions m)"
    unfolding m' by simp_all
  show "i \<in> set (order m')" unfolding ord by (rule evict_unfinished) (simp_all add: o newSession_def)
qed

lemma Start_inv:
  assumes "mgr_inv (objs, m)" "SessionManager_Start i cwd (objs, m) = Some (objs', m')"
  shows "mgr_inv (objs', m')"
proof -
  note spec = Start_spec [OF assms]
  let ?m = "(i, length objs) # sessions m"
  have keys: "set (order m') \<subseteq> fst ` set ?m"
    using evict_set assms(1) unfolding spec(2) by (fastforce simp: mgr_inv_def)
  have "set (order m') = fst ` set (sessions m')"
    using keys unfolding spec(3) by auto
  moreover have "distinct (order m')"
    unfolding spec(2) using assms(1) spec(4) by (intro evict_distinct) (auto simp: mgr_inv_def)
  moreover have "distinct (map fst (sessions m'))"
    unfolding spec(3) using assms(1) spec(4) by (intro distinct_map_filter) (auto simp: mgr_inv_def)
  moreover have "\<forall>e \<in> set (sessions m'). snd e < length objs' \<and> sess_id (objs' ! snd e) = fst e"
    using assms(1) unfolding spec(1) spec(3) by (auto simp: mgr_inv_def nth_append newSession_def)
  moreover have "(sess_id (objs' ! p), p) \<in> set (sessions m')"
    if p: "p < length objs'" "\<not> finished (objs' ! p)" for p
  proof (cases "p = length objs")
    case True
    then show ?thesis using spec(5) unfolding spec(1) spec(3) by (simp add: newSession_def)
  next
    case False
    then have "p < length objs" "objs' ! p = objs ! p" using p spec(1) by (auto simp: nth_append)
    then have mem: "(sess_id (objs ! p), p) \<in> set (sessions m)"
      using assms(1) p by (simp add: mgr_inv_def)
    have d: "distinct (map fst ?m)" using assms(1) spec(4) by (simp add: mgr_inv_def)
    have look: "map_of ?m (sess_id (objs ! p)) = Some p"
      using mem by (intro map_of_is_SomeI [OF d]) simp
    have "sess_id (objs ! p) \<in> set (order m @ [i])" using mem assms(1) by (force simp: mgr_inv_def)
    then have "sess_id (objs ! p) \<in> set (order m')"
      unfolding spec(2) using look p(2) by (intro evict_unfinished) simp_all
    then show ?thesis using mem \<open>objs' ! p = objs ! p\<close> unfolding spec(3) by simp
  qed
  ultimately show ?thesis by (simp add: mgr_inv_def)
qed

lemma update_inv:
  assumes "mgr_inv (objs, m)" "p < length objs" "sess_id s = sess_id (objs ! p)" "finished (objs ! p) \<longrightarrow> finished s"
  shows "mgr_inv (objs[p := s], m)"
proof -
  have "sess_id (objs[p := s] ! q) = sess_id (objs ! q)" for q
    using assms(2,3) by (cases "q = p") simp_all
  moreover have "finished (objs ! q) \<longrightarrow> finished (objs[p := s] ! q)" for q
    using assms(2,4) by (cases "q = p") simp_all
  ultimately show ?thesis using assms(1) by (auto simp: mgr_inv_def)
qed

lemma session_steps_keep:
  "Session_Line l s h = Some (s', h') \<Longrightarrow> sess_id s' = sess_id s \<and> finished s' = finished s"
  "Session_finish code err s h = Some (s', h') \<Longrightarrow> sess_id s' = sess_id s \<and> finished s'"
  "Session_cancel token s h = Some (s', h') \<Longrightarrow> sess_id s' = sess_id s \<and> finished s' = finished s"
  "Session_Subscribe s h = (b, c, t, s', h') \<Longrightarrow> sess_id s' = sess_id s \<and> finished s' = finished s"
  "sess_id (Session_Started s) = sess_id s \<and> finished (Session_Started s) = finished s"
  by (auto simp: Session_Line_def Session_finish_def Session_cancel_def Session_Subscribe_def
      Session_Started_def Let_def split: option.splits if_splits)

lemma mgr_step_inv: "mgr_step st st' \<Longrightarrow> mgr_inv st \<Longrightarrow> mgr_inv st'"
proof (induction rule: mgr_step.induct)
  case (start i cwd st st')
  then show ?case by (cases st; cases st') (auto intro: Start_inv)
next
  case (attach i st h buffered c token st' h')
  obtain objs m where st: "st = (objs, m)" by (cases st)
  then obtain p s where p: "map_of (sessions m) i = Some p" "st' = (objs[p := s], m)"
    "Session_Subscribe (objs ! p) h = (buffered, c, token, s, h')"
    using attach(1) by (auto simp: SessionManager_Attach_def SessionManager_Get_def split: option.splits prod.splits)
  have "p < length objs" using map_of_SomeD [OF p(1)] attach(2) st by (auto simp: mgr_inv_def)
  then show ?case using update_inv [of objs m p s] attach(2) st p session_steps_keep(4) [OF p(3)] by simp
qed (auto intro!: update_inv dest: session_steps_keep(1-3) simp: session_steps_keep(5))

lemma mgr_reach_inv: "mgr_reach buf k st \<Longrightarrow> mgr_inv st"
proof (induction rule: mgr_reach.induct)
  case init
  then show ?case by (simp add: mgr_inv_def NewSessionManager_def)
next
  case (step st st')
  then show ?case by (blast intro: mgr_step_inv)
qed

end
