(* ===== verification/Daemon_Properties.thy ===== *)
theory Daemon_Properties
  imports Daemon_Pool Daemon_Registry
begin

text \<open>
  What the daemon promises its clients: the stream of a session accounts for every line of its
  worker, the registry never loses a session that still runs, the pool keeps to its size, and a
  request is retried by a fixed policy.  At the end, two things it does not promise.
\<close>

section \<open>Streams\<close>

text \<open>C27: However a worker's output, attaching, detaching and reading clients and the end of the run
  interleave, a session never sends to a closed channel or closes one twice.  What a client has read
  or can still read, each gap notice standing for as many lines as it names, is the sequence of the
  lines written since it attached, short of a part at the end: for a client that is still subscribed
  that part is the lines its subscription counts as dropped, which the next delivery announces; when
  the channel was closed, by detaching or by the end of the run, the part is lost and no notice tells
  (\<open>end_hides_gap\<close> below).  The history a client was given is the most recent output before those
  lines.\<close>

theorem stream_accounted:
  assumes "length (filter (\<lambda>op. case op of Ended _ _ \<Rightarrow> True | _ \<Rightarrow> False) ops) \<le> 1"
  shows "\<exists>w. watch_steps (watch (newSession i cwd buf)) ops = Some w \<and>
    list_all (\<lambda>e. let c = sub_ch (snd e) in
        accounted (w_read w c @ queued (w_heap w ! c)) (w_since w c) (dropped (snd e)) \<and>
        (\<exists>before. w_output w = before @ w_since w c \<and>
           w_history w c = latest (maxBuffer (w_session w)) before)) (subscribers (w_session w)) \<and>
    list_all (\<lambda>c. \<exists>d. accounted (w_read w c @ queued (w_heap w ! c)) (w_since w c) d) [0..<length (w_heap w)]"
proof -
  have "\<not> finished (w_session (watch (newSession i cwd buf)))" by (simp add: watch_def newSession_def)
  then obtain w where "watch_steps (watch (newSession i cwd buf)) ops = Some w" "watch_inv w"
    using watch_steps_inv [OF watch_inv_new [of i cwd buf], of ops] assms by auto
  then show ?thesis
    by (auto simp: watch_inv_def channels_ok_def history_ok_def sub_ok_def list_all_iff Let_def)
qed

theorem stream_accounted_witness:
  "\<exists>w. watch_steps (watch (newSession ''s'' ''/w'' 1))
      [Lease, Output ''a'', Attach, Output ''b'', Read 0, Ended 0 None, Detach (Some 0)] = Some w \<and>
    list_all (\<lambda>e. let c = sub_ch (snd e) in
        accounted (w_read w c @ queued (w_heap w ! c)) (w_since w c) (dropped (snd e)) \<and>
        (\<exists>before. w_output w = before @ w_since w c \<and>
           w_history w c = latest (maxBuffer (w_session w)) before)) (subscribers (w_session w)) \<and>
    list_all (\<lambda>c. \<exists>d. accounted (w_read w c @ queued (w_heap w ! c)) (w_since w c) d) [0..<length (w_heap w)]"
  by (rule stream_accounted) simp

section \<open>The registry\<close>

text \<open>C28: Starting a session registers it, keeps every session that has not finished registered under its
  id, and lets only the oldest finished sessions go, as few as bring the registry back to its
  limit; afterwards the registry is within its limit or holds no finished session at all.\<close>

theorem registry_keeps_running:
  assumes "mgr_reach buf k (objs, m)" "SessionManager_Start i cwd (objs, m) = Some (objs', m')"
  shows "SessionManager_Get i m' = Some (length objs) \<and>
    list_all (\<lambda>p. finished (objs' ! p) \<or> SessionManager_Get (sess_id (objs' ! p)) m' = Some p) [0..<length objs'] \<and>
    (int (length (sessions m')) \<le> maxSessions m \<or> list_all (\<lambda>e. \<not> finished (objs' ! snd e)) (sessions m')) \<and>
    order m' = evict (nat (int (Suc (length (sessions m))) - maxSessions m))
      (is_fin objs' ((i, length objs) # sessions m)) (order m @ [i])"
proof -
  have inv: "mgr_inv (objs, m)" by (rule mgr_reach_inv [OF assms(1)])
  note spec = Start_spec [OF inv assms(2)]
  have inv': "mgr_inv (objs', m')" by (rule Start_inv [OF inv assms(2)])
  then have d: "distinct (map fst (sessions m'))" and keys: "set (order m') = fst ` set (sessions m')"
    and dord: "distinct (order m')" by (simp_all add: mgr_inv_def)
  have new: "SessionManager_Get i m' = Some (length objs)"
    using spec(5) map_of_is_SomeI [OF d] unfolding SessionManager_Get_def by (simp add: spec(3))
  have kept: "finished (objs' ! p) \<or> SessionManager_Get (sess_id (objs' ! p)) m' = Some p" if "p < length objs'" for p
    using inv' that map_of_is_SomeI [OF d] by (auto simp: SessionManager_Get_def mgr_inv_def)
  let ?fin = "is_fin objs' ((i, length objs) # sessions m)"
  let ?n = "nat (int (Suc (length (sessions m))) - maxSessions m)"
  have "length (order m') = length (sessions m')"
    using keys distinct_card [OF d] distinct_card [OF dord] by simp
  moreover have "length (order m) = length (sessions m)"
  proof -
    have "distinct (map fst (sessions m))" "distinct (order m)" "set (order m) = set (map fst (sessions m))"
      using inv by (simp_all add: mgr_inv_def)
    then show ?thesis by (metis distinct_card length_map)
  qed
  moreover have "length (evict ?n ?fin (order m @ [i])) + min ?n (length (filter ?fin (order m @ [i]))) =
      length (order m @ [i])" by (rule evict_length)
  moreover define F where "F = length (filter ?fin (order m @ [i]))"
  ultimately have len: "length (sessions m') + min ?n F = Suc (length (sessions m))"
    unfolding spec(2) by simp
  have "list_all (\<lambda>e. \<not> finished (objs' ! snd e)) (sessions m')" if "\<not> int (length (sessions m')) \<le> maxSessions m"
  proof -
    have "F \<le> ?n" using len that by linarith
    then have un: "\<forall>j \<in> set (order m'). \<not> ?fin j" unfolding spec(2) F_def by (rule evict_enough)
    have "\<not> finished (objs' ! snd e)" if e: "e \<in> set (sessions m')" for e
    proof -
      have "distinct (map fst ((i, length objs) # sessions m))" using inv spec(4) by (simp add: mgr_inv_def)
      moreover have "e \<in> set ((i, length objs) # sessions m)" using e unfolding spec(3) filter_set [symmetric] by simp
      moreover have "fst e \<in> set (order m')" using e keys by simp
      ultimately have "map_of ((i, length objs) # sessions m) (fst e) = Some (snd e)"
        by (intro map_of_is_SomeI) simp_all
      then show ?thesis using un \<open>fst e \<in> set (order m')\<close> by fastforce
    qed
    then show ?thesis by (simp add: list_all_iff)
  qed
  with new kept spec(2) show ?thesis by (auto simp: list_all_iff)
qed

definition demo_registry :: "Session list \<times> SessionManager" where
  "demo_registry =
     (let (objs, m) = the (SessionManager_Start ''a'' ''/w'' ([], NewSessionManager 0 1));
          (s, h) = the (Session_finish 0 None (objs ! 0) [])
      in (objs[0 := s], m))"

lemma demo_registry_reach: "mgr_reach 0 1 demo_registry"
proof -
  let ?st = "the (SessionManager_Start ''a'' ''/w'' ([], NewSessionManager 0 1))"
  have 1: "mgr_reach 0 1 ?st"
    by (rule mgr_reach.step [OF mgr_reach.init]; rule mgr_step.start [of "''a''" "''/w''"]; code_simp)
  obtain objs m where st: "?st = (objs, m)" by (cases ?st)
  have len: "length (fst ?st) = 1" by code_simp
  have "Session_finish 0 None (fst ?st ! 0) [] \<noteq> None" by code_simp
  then obtain s h where f: "Session_finish 0 None (objs ! 0) [] = Some (s, h)" using st by auto
  have "mgr_step (objs, m) (objs[0 := s], m)" using f len st by (intro mgr_step.ended [OF _ f]) simp
  then have "mgr_reach 0 1 (objs[0 := s], m)" using 1 unfolding st by (rule mgr_reach.step [rotated])
  then show ?thesis by (simp add: demo_registry_def st f)
qed

theorem registry_keeps_running_witness:
  "case (demo_registry, the (SessionManager_Start ''b'' ''/w'' demo_registry)) of ((objs, m), (objs', m')) \<Rightarrow>
    SessionManager_Get ''b'' m' = Some (length objs) \<and>
    list_all (\<lambda>p. finished (objs' ! p) \<or> SessionManager_Get (sess_id (objs' ! p)) m' = Some p) [0..<length objs'] \<and>
    (int (length (sessions m')) \<le> maxSessions m \<or> list_all (\<lambda>e. \<not> finished (objs' ! snd e)) (sessions m')) \<and>
    order m' = evict (nat (int (Suc (length (sessions m))) - maxSessions m))
      (is_fin objs' ((''b'', length objs) # sessions m)) (order m @ [''b''])"
proof -
  obtain objs m where d: "demo_registry = (objs, m)" by (cases demo_registry)
  obtain objs' m' where d': "the (SessionManager_Start ''b'' ''/w'' demo_registry) = (objs', m')"
    by (cases "the (SessionManager_Start ''b'' ''/w'' demo_registry)")
  have "SessionManager_Start ''b'' ''/w'' demo_registry \<noteq> None" by code_simp
  then have s: "SessionManager_Start ''b'' ''/w'' (objs, m) = Some (objs', m')" using d d' by auto
  show ?thesis
    unfolding d' unfolding d prod.case using registry_keeps_running [OF demo_registry_reach [unfolded d] s] .
qed

section \<open>The pool\<close>

text \<open>C29: However requests, workers and a drain interleave, the slots in use are exactly those of the
  requests between lease and return and never exceed the pool's size, so no more workers run at
  once; no two requests share a worker id, the active set holds exactly the workers being pumped,
  and once the pool drains it stays draining and lets no further request past its look at the flag.
  (The look and the launch are two steps, so a request that is past it may still launch.)\<close>

theorem pool_bounded:
  assumes "pool_reach opts p"
  shows "slots p = length (filter has_slot (requests p)) \<and> int (slots p) \<le> opt_size (NewPool opts) \<and>
    int (length (filter alive (requests p))) \<le> opt_size (NewPool opts) \<and>
    distinct (List.map_filter worker_of (requests p)) \<and>
    (w \<in> set (active p) \<longleftrightarrow> list_ex (\<lambda>ph. tracked ph \<and> worker_of ph = Some w) (requests p)) \<and>
    \<not> (pool_step p p' \<and> pool_draining p \<and> (\<not> pool_draining p' \<or> let_through p < let_through p'))"
proof -
  have inv: "pool_inv p" by (rule pool_reach_inv [OF assms])
  have size: "int (pool_size p) = opt_size (NewPool opts)"
    using pool_size_fixed [OF assms] NewPool_positive(1) [of opts] by simp
  have alive: "length (filter alive rs) \<le> length (filter has_slot rs)" for rs
    by (induction rs) (auto dest: alive_slot)
  have "length (filter alive (requests p)) \<le> pool_size p"
    using alive [of "requests p"] inv by (simp add: pool_inv_def slots_ok_def)
  moreover have "distinct (List.map_filter worker_of (requests p))"
  proof -
    have "distinct (List.map_filter worker_of rs)" if "worker_ids_ok rs n" for rs n
      using that
    proof (induction rs)
      case (Cons ph rs)
      have "worker_ids_ok rs n" using Cons.prems unfolding worker_ids_ok_def by (metis Suc_less_eq length_Cons nth_Cons_Suc old.nat.inject)
      moreover have "worker_of (rs ! q) \<noteq> Some v" if "worker_of ph = Some v" "q < length rs" for q v
        using Cons.prems that unfolding worker_ids_ok_def
        by (metis Suc_less_eq length_Cons nat.distinct(1) nth_Cons_0 nth_Cons_Suc zero_less_Suc)
      ultimately show ?case
        using Cons.IH by (auto simp: List.map_filter_def in_set_conv_nth)
    qed (simp add: List.map_filter_def)
    then show ?thesis using inv by (auto simp: pool_inv_def)
  qed
  moreover have "tracks rs w \<longleftrightarrow> list_ex (\<lambda>ph. tracked ph \<and> worker_of ph = Some w) rs" for rs
    unfolding tracks_def list_ex_iff by (metis in_set_conv_nth)
  then have "w \<in> set (active p) \<longleftrightarrow> list_ex (\<lambda>ph. tracked ph \<and> worker_of ph = Some w) (requests p)"
    using inv by (simp add: pool_inv_def)
  ultimately show ?thesis
    using inv size draining_step [of p p'] by (auto simp: pool_inv_def slots_ok_def)
qed

definition demo_options :: PoolOptions where
  "demo_options = \<lparr>opt_size = 1, MaxAttempts = 3, Backoff = (\<lambda>n. int n), TempfailDelay = 7\<rparr>"

definition demo_pool :: Pool where
  "demo_pool = (new_pool demo_options)\<lparr>requests := [Leased], slots := 1\<rparr>"

lemma demo_pool_reach: "pool_reach demo_options demo_pool"
proof -
  let ?p0 = "new_pool demo_options"
  let ?p1 = "?p0\<lparr>requests := requests ?p0 @ [Waiting]\<rparr>"
  have 1: "pool_reach demo_options ?p1"
    by (rule pool_reach.step [OF pool_reach.init], rule pool_step.queued) code_simp
  have "pool_step ?p1 (goto 0 Leased ?p1\<lparr>slots := slots ?p1 + 1\<rparr>)" by (rule pool_step.leased; code_simp)
  from pool_reach.step [OF 1 this] show ?thesis by (simp add: demo_pool_def new_pool_def)
qed

theorem pool_bounded_witness:
  "slots demo_pool = length (filter has_slot (requests demo_pool)) \<and>
    int (slots demo_pool) \<le> opt_size (NewPool demo_options) \<and>
    int (length (filter alive (requests demo_pool))) \<le> opt_size (NewPool demo_options) \<and>
    distinct (List.map_filter worker_of (requests demo_pool)) \<and>
    (1 \<in> set (active demo_pool) \<longleftrightarrow> list_ex (\<lambda>ph. tracked ph \<and> worker_of ph = Some 1) (requests demo_pool)) \<and>
    \<not> (pool_step demo_pool demo_pool \<and> pool_draining demo_pool \<and>
      (\<not> pool_draining demo_pool \<or> let_through demo_pool < let_through demo_pool))"
  by (rule pool_bounded [OF demo_pool_reach])

text \<open>C30: A request runs its attempts until one does not go on, or the last.  An attempt goes on when the pool
  was not draining, the worker's exit code neither succeeded (0) nor forbade a retry (76), and neither
  the context nor the sleep after it was cut short.  The ending attempt gives the result: the drain's
  error (nothing is launched), success, the permanent error, the context's error, or, exhausted, the
  error of that attempt.  Every attempt before it is launched once; after a temporary failure the pool
  waits the fixed cool-off, after the k-th crash the k-th backoff.\<close>

theorem retry_policy:
  "let as = map env [0..<nat (MaxAttempts (NewPool opts))]; calm = takeWhile goes_on (butlast as);
     a = as ! length calm; again = Suc (length calm) < length as; r = Pool_Run (NewPool opts) wid env
   in fst r = verdict wid again a \<and>
      launches (snd r) = length calm + (if at_draining a then 0 else 1) \<and>
      sleeps (snd r) = waits (NewPool opts) 0 calm @ last_wait (NewPool opts) (crashes calm) again a"
proof -
  have "map env [0..<nat (MaxAttempts (NewPool opts))] \<noteq> []" using NewPool_positive(2) [of opts] by simp
  from run_loop_policy [OF this, of "NewPool opts" wid 0 "[]"] show ?thesis by (simp add: Pool_Run_def Let_def)
qed

definition demo_attempt :: "nat \<Rightarrow> attempt_env" where
  "demo_attempt n = \<lparr>at_draining = False, at_result = (if n = 0 then Inr 1 else if n = 1 then Inr 75 else Inr 0),
     at_context = None, at_sleep = None\<rparr>"

text \<open>A crash, a temporary failure and a success.\<close>

theorem retry_policy_witness:
  "fst (Pool_Run (NewPool demo_options) 1 demo_attempt) = (0, None) \<and>
    launches (snd (Pool_Run (NewPool demo_options) 1 demo_attempt)) = 3 \<and>
    sleeps (snd (Pool_Run (NewPool demo_options) 1 demo_attempt)) = [1, 7]"
proof -
  have as: "map demo_attempt [0..<nat (MaxAttempts (NewPool demo_options))] = [demo_attempt 0, demo_attempt 1, demo_attempt 2]"
    by (simp add: demo_options_def NewPool_def numeral_3_eq_3 numeral_2_eq_2)
  have calm: "takeWhile goes_on (butlast [demo_attempt 0, demo_attempt 1, demo_attempt 2]) = [demo_attempt 0, demo_attempt 1]"
    by code_simp
  have "verdict 1 False (demo_attempt 2) = (0, None)" "\<not> at_draining (demo_attempt 2)"
    "waits (NewPool demo_options) 0 [demo_attempt 0, demo_attempt 1] = [1, 7]"
    "last_wait (NewPool demo_options) n False (demo_attempt 2) = []" for n
    by (code_simp, code_simp, code_simp) (simp add: last_wait_def decides_def demo_attempt_def)
  then show ?thesis
    using retry_policy [of demo_attempt demo_options 1] unfolding as Let_def calm by simp
qed

section \<open>What is not promised\<close>

text \<open>
  A drain can miss a worker: a request is past its look at the draining flag when the drain begins,
  the active set is empty, the drain reports an idle pool, and then the worker is launched.
\<close>

lemma drain_misses_worker:
  "\<exists>p. pool_reach demo_options p \<and> drain p = Drained \<and> active p = [] \<and> requests p = [Launched 1]"
proof -
  let ?p2 = "goto 0 (Starting (nextID demo_pool + 1)) demo_pool\<lparr>nextID := nextID demo_pool + 1\<rparr>"
  let ?p3 = "goto 0 (Checked 1) ?p2"
  let ?p4 = "?p3\<lparr>pool_draining := True, drain := Grace\<rparr>"
  let ?p5 = "?p4\<lparr>drain := Drained\<rparr>"
  let ?p6 = "goto 0 (Launching 1) ?p5"
  let ?p7 = "goto 0 (Launched 1) ?p6"
  have 2: "pool_reach demo_options ?p2"
    by (rule pool_reach.step [OF demo_pool_reach], rule pool_step.numbered) code_simp
  have 3: "pool_reach demo_options ?p3" by (rule pool_reach.step [OF 2], rule pool_step.passed; code_simp)
  have 4: "pool_reach demo_options ?p4" by (rule pool_reach.step [OF 3], rule pool_step.drain_begins; code_simp)
  have 5: "pool_reach demo_options ?p5" by (rule pool_reach.step [OF 4], rule pool_step.drain_idle; code_simp)
  have 6: "pool_reach demo_options ?p6" by (rule pool_reach.step [OF 5], rule pool_step.entered) code_simp
  have 7: "pool_reach demo_options ?p7" by (rule pool_reach.step [OF 6], rule pool_step.launched) code_simp
  show ?thesis by (rule exI [of _ ?p7], rule conjI [OF 7]) code_simp
qed

text \<open>
  The end of a run hides the last gap: a client that reads nothing while 257 lines are written has
  a full channel and one dropped line; the channel is then closed without a notice.
\<close>

lemma watch_steps_append:
  "watch_steps w (xs @ ys) = (case watch_steps w xs of None \<Rightarrow> None | Some w \<Rightarrow> watch_steps w ys)"
  by (induction xs arbitrary: w) (auto split: option.split)

definition lagging :: "string \<Rightarrow> nat \<Rightarrow> watched \<Rightarrow> bool" where
  "lagging l n w \<longleftrightarrow> subscribers (w_session w) = [(0, \<lparr>sub_ch = 0, dropped = n - 256\<rparr>)] \<and>
     w_heap w = [\<lparr>queued = replicate (min n 256) l, capacity = 256, closed = False\<rparr>] \<and>
     w_read w 0 = [] \<and> w_since w 0 = replicate n l \<and> \<not> sess_done (w_session w)"

lemma lagging_step:
  assumes "lagging l n w" "n \<le> 256"
  shows "\<exists>w'. watch_step w (Output l) = Some w' \<and> lagging l (Suc n) w'"
proof -
  have "l # replicate 256 l = replicate 257 l" using replicate_Suc [of 256 l] by (simp del: replicate.simps)
  then show ?thesis
    using assms
    by (cases "n = 256") (simp_all add: lagging_def Session_Line_def Let_def deliver_def send_line_def try_send_def
      attached_def replicate_append_same)
qed

lemma lagging_run: "n \<le> 257 \<Longrightarrow>
    \<exists>w. watch_steps (watch (newSession i cwd buf)) (Attach # replicate n (Output l)) = Some w \<and> lagging l n w"
proof (induction n)
  case 0
  then show ?case by (simp add: watch_def newSession_def Session_Subscribe_def lagging_def subscriber_capacity_def)
next
  case (Suc n)
  then obtain w where w: "watch_steps (watch (newSession i cwd buf)) (Attach # replicate n (Output l)) = Some w" "lagging l n w"
    by auto
  have r: "Attach # replicate (Suc n) (Output l) = (Attach # replicate n (Output l)) @ [Output l]"
    by (simp add: replicate_append_same)
  obtain w' where "watch_step w (Output l) = Some w'" "lagging l (Suc n) w'"
    using lagging_step [OF w(2)] Suc.prems by auto
  then show ?case unfolding r watch_steps_append w(1) by simp
qed

lemma end_hides_gap:
  "\<exists>ops w. watch_steps (watch (newSession i cwd buf)) ops = Some w \<and> closed (w_heap w ! 0) \<and>
    w_since w 0 = replicate 257 l \<and> w_read w 0 @ queued (w_heap w ! 0) = replicate 256 l"
proof -
  obtain w where w: "watch_steps (watch (newSession i cwd buf)) (Attach # replicate 257 (Output l)) = Some w" "lagging l 257 w"
    using lagging_run [of 257 i cwd buf l] by auto
  then obtain w' where "watch_step w (Ended 0 None) = Some w'" "closed (w_heap w' ! 0)"
    "w_since w' 0 = replicate 257 l" "w_read w' 0 @ queued (w_heap w' ! 0) = replicate 256 l"
    by (simp add: lagging_def Session_finish_def close_channel_def Let_def)
  then have "watch_steps (watch (newSession i cwd buf)) ((Attach # replicate 257 (Output l)) @ [Ended 0 None]) = Some w'"
    unfolding watch_steps_append w(1) by simp
  with \<open>closed (w_heap w' ! 0)\<close> \<open>w_since w' 0 = _\<close> \<open>w_read w' 0 @ _ = _\<close> show ?thesis by blast
qed

end
