(* ===== verification/Go_Time.thy ===== *)
theory Go_Time
  imports Main
begin

text \<open>
  The part of Go's package \<open>time\<close> the scheduler uses.  An instant is the number of nanoseconds
  since the start of year 0 in UTC, a location gives the offset in force at an instant and the
  instant \<open>time.Date\<close> picks for a wall-clock reading.  The calendar is proleptic Gregorian; a
  month is numbered from January of year 0, and the month of a day is found by search.
\<close>

section \<open>The calendar\<close>

definition leap :: "int \<Rightarrow> bool" where
  "leap y \<longleftrightarrow> y mod 4 = 0 \<and> (y mod 100 \<noteq> 0 \<or> y mod 400 = 0)"

definition leaps_before :: "int \<Rightarrow> int" where
  "leaps_before y = (y + 3) div 4 - (y + 99) div 100 + (y + 399) div 400"

definition days_before :: "int list" where
  "days_before = [0, 31, 59, 90, 120, 151, 181, 212, 243, 273, 304, 334]"

definition month_start :: "int \<Rightarrow> int" where
  "month_start k = 365 * (k div 12) + leaps_before (k div 12) + days_before ! nat (k mod 12)
     + (if 2 \<le> k mod 12 \<and> leap (k div 12) then 1 else 0)"

lemma div_step:
  assumes "0 < (k::int)" "j = k - 1"
  shows "(y + 1 + j) div k = (y + j) div k + (if y mod k = 0 then 1 else 0)"
proof -
  define q r where "q = y div k" and "r = y mod k"
  have y: "y = q * k + r" and r: "0 \<le> r" "r < k" using assms by (simp_all add: q_def r_def)
  have "(y + 1 + j) div k = q + 1"
    unfolding y assms(2) using r by (intro int_div_pos_eq [of _ _ _ r]) (simp_all add: algebra_simps)
  moreover have "(y + j) div k = (if r = 0 then q else q + 1)"
  proof (cases "r = 0")
    case True
    then show ?thesis unfolding y assms(2) using assms(1)
      by (intro int_div_pos_eq [of _ _ _ "k - 1"]) (simp_all add: algebra_simps)
  next
    case False
    then show ?thesis unfolding y assms(2) using r
      by (intro int_div_pos_eq [of _ _ _ "r - 1"]) (simp_all add: algebra_simps)
  qed
  ultimately show ?thesis by (simp add: r_def)
qed

lemma succ_div_mod:
  assumes "0 < (m::int)"
  shows "(k + 1) div m = (if k mod m = m - 1 then k div m + 1 else k div m)"
    "(k + 1) mod m = (if k mod m = m - 1 then 0 else k mod m + 1)"
proof -
  define q r where "q = k div m" and "r = k mod m"
  have k: "k = q * m + r" and r: "0 \<le> r" "r < m" using assms by (simp_all add: q_def r_def)
  have "(k + 1) div m = (if r = m - 1 then q + 1 else q) \<and> (k + 1) mod m = (if r = m - 1 then 0 else r + 1)"
  proof (cases "r = m - 1")
    case True
    then have e: "k + 1 = m * (q + 1) + 0" unfolding k by (simp add: algebra_simps)
    show ?thesis unfolding int_div_pos_eq [OF e order_refl assms] int_mod_pos_eq [OF e order_refl assms]
      using True by simp
  next
    case False
    then have "0 \<le> r + 1" "r + 1 < m" using r by simp_all
    moreover have e: "k + 1 = m * q + (r + 1)" unfolding k by (simp add: algebra_simps)
    ultimately show ?thesis using int_div_pos_eq [OF e] int_mod_pos_eq [OF e] False by simp
  qed
  then show "(k + 1) div m = (if k mod m = m - 1 then k div m + 1 else k div m)"
    "(k + 1) mod m = (if k mod m = m - 1 then 0 else k mod m + 1)" by (simp_all add: q_def r_def)
qed

lemma leaps_before_Suc: "leaps_before (y + 1) = leaps_before y + (if leap y then 1 else 0)"
proof -
  have i: "y mod 100 = 0 \<Longrightarrow> y mod 4 = 0" "y mod 400 = 0 \<Longrightarrow> y mod 100 = 0"
    unfolding dvd_eq_mod_eq_0 [symmetric] by (auto intro: dvd_trans [of 4 100] dvd_trans [of 100 400])
  define A B C where "A = (y + 3) div 4" and "B = (y + 99) div 100" and "C = (y + 399) div 400"
  have e: "(y + 1 + 3) div 4 = A + (if y mod 4 = 0 then 1 else 0)"
    "(y + 1 + 99) div 100 = B + (if y mod 100 = 0 then 1 else 0)"
    "(y + 1 + 399) div 400 = C + (if y mod 400 = 0 then 1 else 0)"
    unfolding A_def B_def C_def by (rule div_step; simp)+
  have L: "leaps_before y = A - B + C" by (simp only: leaps_before_def A_def B_def C_def)
  have M: "leaps_before (y + 1) = A + (if y mod 4 = 0 then 1 else 0) - (B + (if y mod 100 = 0 then 1 else 0)) +
      (C + (if y mod 400 = 0 then 1 else 0))" by (simp only: leaps_before_def e)
  consider "y mod 4 \<noteq> 0" "y mod 100 \<noteq> 0" "y mod 400 \<noteq> 0" | "y mod 4 = 0" "y mod 100 \<noteq> 0" "y mod 400 \<noteq> 0"
    | "y mod 4 = 0" "y mod 100 = 0" "y mod 400 \<noteq> 0" | "y mod 4 = 0" "y mod 100 = 0" "y mod 400 = 0"
    using i by metis
  then show ?thesis by cases (simp_all add: leap_def L M)
qed

lemma month_start_Suc: "28 \<le> month_start (k + 1) - month_start k \<and> month_start (k + 1) - month_start k \<le> 31"
proof (cases "k mod 12 = 11")
  case True
  then have "(k + 1) div 12 = k div 12 + 1" "(k + 1) mod 12 = 0" using succ_div_mod [of 12 k] by simp_all
  then show ?thesis using True by (simp add: month_start_def leaps_before_Suc days_before_def)
next
  case False
  then have s: "(k + 1) div 12 = k div 12" "(k + 1) mod 12 = k mod 12 + 1" using succ_div_mod [of 12 k] by simp_all
  define m where "m = k mod 12"
  have "m < 12" "m \<noteq> 11" using False by (simp_all add: m_def)
  then have "0 \<le> m" "m \<le> 10" by (simp_all add: m_def)
  then have "m = 0 \<or> m = 1 \<or> m = 2 \<or> m = 3 \<or> m = 4 \<or> m = 5 \<or> m = 6 \<or> m = 7 \<or> m = 8 \<or> m = 9 \<or> m = 10" by arith
  then show ?thesis unfolding month_start_def s m_def [symmetric] by (auto simp: days_before_def)
qed

lemma month_start_less: "month_start k < month_start (k + 1)"
  using month_start_Suc [of k] by linarith

lemma month_start_mono: "j < k \<Longrightarrow> month_start j < month_start k"
proof (induction k rule: int_gr_induct [where k = j])
  case base
  then show ?case by (rule month_start_less)
next
  case (step i)
  then show ?case using month_start_less [of i] by linarith
qed

lemma month_start_0: "month_start 0 = 0"
  by (simp add: month_start_def leaps_before_def days_before_def)

lemma month_start_upper: "0 \<le> k \<Longrightarrow> month_start k \<le> 31 * k"
proof (induction k rule: int_ge_induct)
  case base
  then show ?case by (simp add: month_start_0)
next
  case (step i)
  then show ?case using month_start_Suc [of i] by (simp add: algebra_simps)
qed

lemma month_start_lower: "k \<le> 0 \<Longrightarrow> month_start k \<le> 28 * k"
proof (induction k rule: int_le_induct)
  case base
  then show ?case by (simp add: month_start_0)
next
  case (step i)
  then show ?case using month_start_Suc [of "i - 1"] by simp
qed

function find_month :: "int \<Rightarrow> int \<Rightarrow> int" where
  "find_month k n = (if n < month_start (k + 1) then k else find_month (k + 1) n)"
  by pat_completeness auto
termination
proof (relation "measure (\<lambda>(k, n). nat (n - month_start k))")
  fix k n assume "\<not> n < month_start (k + 1)"
  then show "((k + 1, n), k, n) \<in> measure (\<lambda>(k, n). nat (n - month_start k))"
    using month_start_less [of k] by simp
qed simp

declare find_month.simps [simp del]

definition month_of :: "int \<Rightarrow> int" where
  "month_of n = find_month (if 0 \<le> n then n div 31 else n div 28) n"

lemma find_month_bounds:
  "month_start k \<le> n \<Longrightarrow> month_start (find_month k n) \<le> n \<and> n < month_start (find_month k n + 1)"
proof (induction k n rule: find_month.induct)
  case (1 k n)
  then show ?case by (subst (1 2) find_month.simps) auto
qed

lemma month_of_bounds: "month_start (month_of n) \<le> n \<and> n < month_start (month_of n + 1)"
proof -
  have "month_start (if 0 \<le> n then n div 31 else n div 28) \<le> n"
  proof (cases "0 \<le> n")
    case True
    then have "month_start (n div 31) \<le> 31 * (n div 31)"
      by (intro month_start_upper) (simp add: pos_imp_zdiv_nonneg_iff)
    also have "\<dots> \<le> n" by simp
    finally show ?thesis using True by simp
  next
    case False
    then have "month_start (n div 28) \<le> 28 * (n div 28)"
      by (intro month_start_lower) (simp add: div_nonpos_pos_le0)
    also have "\<dots> \<le> n" by simp
    finally show ?thesis using False by simp
  qed
  then show ?thesis unfolding month_of_def by (rule find_month_bounds)
qed

lemma month_of_unique: "month_start k \<le> n \<Longrightarrow> n < month_start (k + 1) \<Longrightarrow> month_of n = k"
proof -
  assume k: "month_start k \<le> n" "n < month_start (k + 1)"
  have "\<not> month_of n < k"
    using k(1) month_of_bounds [of n] month_start_mono [of "month_of n + 1" k] by (cases "month_of n + 1 = k") auto
  moreover have "\<not> k < month_of n"
    using k(2) month_of_bounds [of n] month_start_mono [of "k + 1" "month_of n"] by (cases "k + 1 = month_of n") auto
  ultimately show ?thesis by simp
qed

lemma month_of_less: "month_of n < k \<Longrightarrow> n < month_start k"
  using month_of_bounds [of n] month_start_mono [of "month_of n + 1" k] by (cases "month_of n + 1 = k") auto

section \<open>Instants and locations\<close>

definition ns_minute :: int where "ns_minute = 60 * 1000000000"
definition ns_hour :: int where "ns_hour = 60 * ns_minute"
definition ns_day :: int where "ns_day = 24 * ns_hour"

lemma ns_pos [simp]: "0 < ns_minute" "0 < ns_hour" "0 < ns_day"
  by (simp_all add: ns_minute_def ns_hour_def ns_day_def)

record location =
  offset_at :: "int \<Rightarrow> int"
  at_wall :: "int \<Rightarrow> int"

definition local :: "location \<Rightarrow> int \<Rightarrow> int" where
  "local loc t = t + offset_at loc t"

definition day_number :: "location \<Rightarrow> int \<Rightarrow> int" where
  "day_number loc t = local loc t div ns_day"

definition Year :: "location \<Rightarrow> int \<Rightarrow> int" where
  "Year loc t = month_of (day_number loc t) div 12"

definition Month :: "location \<Rightarrow> int \<Rightarrow> int" where
  "Month loc t = month_of (day_number loc t) mod 12 + 1"

definition Day :: "location \<Rightarrow> int \<Rightarrow> int" where
  "Day loc t = day_number loc t - month_start (month_of (day_number loc t)) + 1"

definition Weekday :: "location \<Rightarrow> int \<Rightarrow> int" where
  "Weekday loc t = (day_number loc t + 6) mod 7"

definition Hour :: "location \<Rightarrow> int \<Rightarrow> int" where
  "Hour loc t = local loc t div ns_hour mod 24"

definition Minute :: "location \<Rightarrow> int \<Rightarrow> int" where
  "Minute loc t = local loc t div ns_minute mod 60"

text \<open>\<open>time.Date\<close> normalises months, days, hours and minutes out of range.\<close>

definition Date :: "location \<Rightarrow> int \<Rightarrow> int \<Rightarrow> int \<Rightarrow> int \<Rightarrow> int \<Rightarrow> int" where
  "Date loc y m d h mi =
     at_wall loc ((month_start (12 * y + m - 1) + d - 1) * ns_day + h * ns_hour + mi * ns_minute)"

definition truncate_minute :: "int \<Rightarrow> int" where
  "truncate_minute t = t - t mod ns_minute"

text \<open>A location at a fixed offset.\<close>

definition fixed_zone :: "int \<Rightarrow> location" where
  "fixed_zone c = \<lparr>offset_at = (\<lambda>_. c), at_wall = (\<lambda>w. w - c)\<rparr>"

lemma local_fixed [simp]: "local (fixed_zone c) t = t + c"
  by (simp add: local_def fixed_zone_def)

lemma Date_fixed: "Date (fixed_zone c) y m d h mi =
    (month_start (12 * y + m - 1) + d - 1) * ns_day + h * ns_hour + mi * ns_minute - c"
  by (simp add: Date_def fixed_zone_def)

text \<open>The year of an instant bounds it, when the offsets are bounded.\<close>

lemma Year_bound:
  assumes "Year loc t \<le> y" "\<bar>offset_at loc t\<bar> \<le> b"
  shows "t < month_start (12 * (y + 1)) * ns_day + b"
proof -
  have "month_of (day_number loc t) < 12 * (y + 1)" 
  proof -
    define q r where "q = month_of (day_number loc t) div 12" and "r = month_of (day_number loc t) mod 12"
    have "month_of (day_number loc t) = 12 * q + r" "r < 12" "q \<le> y" using assms(1) by (simp_all add: q_def r_def Year_def)
    then show ?thesis by (simp add: algebra_simps)
  qed
  then have "day_number loc t < month_start (12 * (y + 1))" by (rule month_of_less)
  then have "local loc t < month_start (12 * (y + 1)) * ns_day"
  proof -
    let ?q = "local loc t div ns_day"
    have "local loc t < (?q + 1) * ns_day"
      using div_mult_mod_eq [of "local loc t" ns_day] pos_mod_bound [OF ns_pos(3), of "local loc t"]
      unfolding distrib_right mult_1 by linarith
    also have "(?q + 1) * ns_day \<le> month_start (12 * (y + 1)) * ns_day"
      using \<open>day_number loc t < _\<close> by (intro mult_right_mono) (simp_all add: day_number_def less_imp_le)
    finally show ?thesis .
  qed
  with assms(2) show ?thesis unfolding local_def by linarith
qed

end
