(* ===== verification/Cron_Schedule.thy ===== *)
theory Cron_Schedule
  imports Prelude Go_Time "HOL-Library.Word"
begin

text \<open>
  \<open>internal/cron/schedule.go\<close>: parsing of five-field cron expressions into 64-bit sets, the
  day rule, and the search for the next run.  The parser's stepping loop adds in Go's 64-bit
  integers, so it is written with its wrap-around; that loop and the search are recursions that
  need not end, and are shown to end.
\<close>

section \<open>Sets of numbers as words\<close>

definition has_bit :: "64 word \<Rightarrow> int \<Rightarrow> bool" where
  "has_bit m n = (and m (push_bit (nat n) 1) \<noteq> 0)"

fun full_from :: "nat \<Rightarrow> nat \<Rightarrow> 64 word \<Rightarrow> 64 word" where
  "full_from 0 n m = m"
| "full_from (Suc left) n m = full_from left (n + 1) (or m (push_bit n 1))"

definition full :: "nat \<Rightarrow> nat \<Rightarrow> 64 word" where
  "full lo hi = full_from (hi + 1 - lo) lo 0"

record Schedule =
  minute_set :: "64 word"
  hour_set :: "64 word"
  dom_set :: "64 word"
  month_set :: "64 word"
  dow_set :: "64 word"
  domStar :: bool
  dowStar :: bool
  expr_text :: string

section \<open>Parsing\<close>

definition monthNames :: "(string \<times> int) list" where
  "monthNames = [(''jan'', 1), (''feb'', 2), (''mar'', 3), (''apr'', 4), (''may'', 5), (''jun'', 6), (''jul'', 7),
     (''aug'', 8), (''sep'', 9), (''oct'', 10), (''nov'', 11), (''dec'', 12)]"

definition dowNames :: "(string \<times> int) list" where
  "dowNames = [(''sun'', 0), (''mon'', 1), (''tue'', 2), (''wed'', 3), (''thu'', 4), (''fri'', 5), (''sat'', 6)]"

datatype parse_error =
    Field_Count nat
  | In_Field string parse_error
  | Empty_Element string
  | Invalid_Step string string
  | Range_Order int int string
  | Invalid_Value string int int
  | Out_Of_Range int int int

definition parseValue :: "string \<Rightarrow> int \<Rightarrow> int \<Rightarrow> (string \<times> int) list \<Rightarrow> parse_error + int" where
  "parseValue tok lo hi names =
     (let tok = trim_space tok
      in case map_of names (to_lower tok) of
           Some v \<Rightarrow> Inr v
         | None \<Rightarrow>
             (case atoi tok of
                None \<Rightarrow> Inl (Invalid_Value tok lo hi)
              | Some n \<Rightarrow> if n < lo \<or> n > hi then Inl (Out_Of_Range n lo hi) else Inr n))"

text \<open>Go's 64-bit addition, and \<open>1 << uint(n)\<close>: a negative \<open>n\<close> shifts everything out.\<close>

definition wrap64 :: "int \<Rightarrow> int" where
  "wrap64 n = (n + 2 ^ 63) mod 2 ^ 64 - 2 ^ 63"

definition one_bit :: "int \<Rightarrow> 64 word" where
  "one_bit n = (if n < 0 then 0 else push_bit (nat n) 1)"

partial_function (option) item_loop :: "int \<Rightarrow> int \<Rightarrow> int \<Rightarrow> 64 word \<Rightarrow> 64 word option" where
  "item_loop step hi n m =
     (if n \<le> hi then item_loop step hi (wrap64 (n + step)) (or m (one_bit n)) else Some m)"

text \<open>The range and the step of an item, then its set; the outer \<open>None\<close> would be a loop that never ends.\<close>

definition item_step :: "string \<Rightarrow> parse_error + string \<times> int" where
  "item_step item =
     (case index_of item ''/'' of
        None \<Rightarrow> Inr (item, 1)
      | Some slash \<Rightarrow>
          (let stepStr = drop (slash + 1) item
           in case atoi stepStr of
                None \<Rightarrow> Inl (Invalid_Step stepStr item)
              | Some n \<Rightarrow> if n \<le> 0 then Inl (Invalid_Step stepStr item) else Inr (take slash item, n)))"

definition item_range ::
    "string \<Rightarrow> string \<Rightarrow> int \<Rightarrow> int \<Rightarrow> int \<Rightarrow> (string \<times> int) list \<Rightarrow> parse_error + int \<times> int" where
  "item_range item rangePart step lo hi names =
     (if rangePart = ''*'' then Inr (lo, hi)
      else (case index_of rangePart ''-'' of
          Some dash \<Rightarrow>
            (case parseValue (take dash rangePart) lo hi names of
               Inl err \<Rightarrow> Inl err
             | Inr a \<Rightarrow>
                 (case parseValue (drop (dash + 1) rangePart) lo hi names of
                    Inl err \<Rightarrow> Inl err
                  | Inr b \<Rightarrow> if a > b then Inl (Range_Order a b item) else Inr (a, b)))
        | None \<Rightarrow>
            (case parseValue rangePart lo hi names of
               Inl err \<Rightarrow> Inl err
             | Inr v \<Rightarrow> Inr (v, if step > 1 then hi else v))))"

definition parseItem ::
    "string \<Rightarrow> int \<Rightarrow> int \<Rightarrow> (string \<times> int) list \<Rightarrow> (parse_error + 64 word) option" where
  "parseItem item lo hi names =
     (case item_step item of
        Inl err \<Rightarrow> Some (Inl err)
      | Inr (rangePart, step) \<Rightarrow>
          (case item_range item rangePart step lo hi names of
             Inl err \<Rightarrow> Some (Inl err)
           | Inr (a, b) \<Rightarrow> map_option Inr (item_loop step b a 0)))"

fun parse_items ::
    "string \<Rightarrow> string list \<Rightarrow> int \<Rightarrow> int \<Rightarrow> (string \<times> int) list \<Rightarrow> 64 word \<Rightarrow> (parse_error + 64 word) option" where
  "parse_items field [] lo hi names m = Some (Inr m)"
| "parse_items field (item # items) lo hi names m =
     (if item = [] then Some (Inl (Empty_Element field))
      else (case parseItem item lo hi names of
              None \<Rightarrow> None
            | Some (Inl err) \<Rightarrow> Some (Inl err)
            | Some (Inr bits) \<Rightarrow> parse_items field items lo hi names (or m bits)))"

definition parseField ::
    "string \<Rightarrow> int \<Rightarrow> int \<Rightarrow> (string \<times> int) list \<Rightarrow> (parse_error + 64 word \<times> bool) option" where
  "parseField field lo hi names =
     (if field = ''*'' then Some (Inr (full (nat lo) (nat hi), True))
      else (case parse_items field (split_on (CHR '','') field) lo hi names 0 of
              None \<Rightarrow> None
            | Some (Inl err) \<Rightarrow> Some (Inl err)
            | Some (Inr m) \<Rightarrow> Some (Inr (m, False))))"

definition in_field :: "string \<Rightarrow> (parse_error + 'a) option \<Rightarrow> ('a \<Rightarrow> (parse_error + 'b) option) \<Rightarrow> (parse_error + 'b) option" where
  "in_field name r f =
     (case r of None \<Rightarrow> None | Some (Inl err) \<Rightarrow> Some (Inl (In_Field name err)) | Some (Inr x) \<Rightarrow> f x)"

definition normalize_dow :: "64 word \<Rightarrow> 64 word" where
  "normalize_dow m = (if and m (push_bit 7 1) \<noteq> 0 then or (and m (not (push_bit 7 1))) 1 else m)"

definition Parse :: "string \<Rightarrow> (parse_error + Schedule) option" where
  "Parse expr =
     (let fs = str_fields (trim_space expr)
      in if length fs \<noteq> 5 then Some (Inl (Field_Count (length fs)))
         else in_field ''minute'' (parseField (fs ! 0) 0 59 []) (\<lambda>(mi, _).
           in_field ''hour'' (parseField (fs ! 1) 0 23 []) (\<lambda>(h, _).
           in_field ''day-of-month'' (parseField (fs ! 2) 1 31 []) (\<lambda>(dom, star).
           in_field ''month'' (parseField (fs ! 3) 1 12 monthNames) (\<lambda>(mon, _).
           in_field ''day-of-week'' (parseField (fs ! 4) 0 7 dowNames) (\<lambda>(dow, star').
             Some (Inr \<lparr>minute_set = mi, hour_set = h, dom_set = dom, month_set = mon, dow_set = normalize_dow dow,
               domStar = star, dowStar = star', expr_text = join '' '' fs\<rparr>)))))))"

section \<open>The next run\<close>

definition nextSearchYears :: int where "nextSearchYears = 9"

definition dayMatches :: "Schedule \<Rightarrow> location \<Rightarrow> int \<Rightarrow> bool" where
  "dayMatches s loc t =
     (let domMatch = has_bit (dom_set s) (Day loc t); dowMatch = has_bit (dow_set s) (Weekday loc t)
      in if domStar s \<and> dowStar s then True
         else if domStar s then dowMatch
         else if dowStar s then domMatch
         else domMatch \<or> dowMatch)"

definition sameWallClockMinute :: "location \<Rightarrow> int \<Rightarrow> int \<Rightarrow> bool" where
  "sameWallClockMinute loc a b \<longleftrightarrow> Year loc a = Year loc b \<and> Month loc a = Month loc b \<and> Day loc a = Day loc b \<and>
     Hour loc a = Hour loc b \<and> Minute loc a = Minute loc b"

text \<open>One pass of the search at \<open>t\<close>: the time it jumps to, or the answer.\<close>

definition search_step :: "Schedule \<Rightarrow> location \<Rightarrow> int \<Rightarrow> int \<Rightarrow> int + int" where
  "search_step s loc after t =
     (if \<not> has_bit (month_set s) (Month loc t) then Inl (Date loc (Year loc t) (Month loc t + 1) 1 0 0)
      else if \<not> dayMatches s loc t then Inl (Date loc (Year loc t) (Month loc t) (Day loc t + 1) 0 0)
      else if \<not> has_bit (hour_set s) (Hour loc t)
      then Inl (Date loc (Year loc t) (Month loc t) (Day loc t) (Hour loc t) 0 + ns_hour)
      else if \<not> has_bit (minute_set s) (Minute loc t) then Inl (t + ns_minute)
      else if sameWallClockMinute loc t after \<and> truncate_minute after = after then Inl (t + ns_minute)
      else Inr t)"

definition forward :: "int \<Rightarrow> int \<Rightarrow> int" where
  "forward start t = (if t > start then t else start + ns_minute)"

text \<open>The search: the outer \<open>None\<close> would be a search that never ends, the inner one is the zero time.\<close>

partial_function (option) next_loop ::
    "Schedule \<Rightarrow> location \<Rightarrow> int \<Rightarrow> int \<Rightarrow> int \<Rightarrow> int option option" where
  "next_loop s loc after yearCap t =
     (if Year loc t \<le> yearCap
      then (case search_step s loc after t of
              Inl t' \<Rightarrow> next_loop s loc after yearCap (forward t t')
            | Inr r \<Rightarrow> Some (Some r))
      else Some None)"

definition Next :: "Schedule \<Rightarrow> location \<Rightarrow> int \<Rightarrow> int option option" where
  "Next s loc after =
     next_loop s loc after (Year loc after + nextSearchYears) (truncate_minute after + ns_minute)"

declare item_loop.simps [code] next_loop.simps [code]

section \<open>Sets\<close>

lemma has_bit_iff: "has_bit m n \<longleftrightarrow> bit m (nat n)"
  by (simp add: has_bit_def push_bit_eq_mult and_exp_eq_0_iff_not_bit)

lemma has_bit_or [simp]: "has_bit (or m m') n \<longleftrightarrow> has_bit m n \<or> has_bit m' n"
  by (simp add: has_bit_iff bit_or_iff)

lemma has_bit_0 [simp]: "\<not> has_bit 0 n"
  by (simp add: has_bit_iff)

lemma has_bit_push: "0 \<le> n \<Longrightarrow> n < 64 \<Longrightarrow> has_bit (2 ^ k) n \<longleftrightarrow> k = nat n"
  by (auto simp: has_bit_iff bit_exp_iff)

lemma has_one_bit: "0 \<le> n \<Longrightarrow> n < 64 \<Longrightarrow> has_bit (one_bit k) n \<longleftrightarrow> k = n"
  by (auto simp: one_bit_def has_bit_push)

lemma full_from_iff: "0 \<le> x \<Longrightarrow> x < 64 \<Longrightarrow>
    has_bit (full_from left n m) x \<longleftrightarrow> has_bit m x \<or> n \<le> nat x \<and> nat x < n + left"
  by (induction left n m rule: full_from.induct) (auto simp: has_bit_push)

lemma full_iff: "0 \<le> lo \<Longrightarrow> 0 \<le> hi \<Longrightarrow> 0 \<le> x \<Longrightarrow> x < 64 \<Longrightarrow> has_bit (full (nat lo) (nat hi)) x \<longleftrightarrow> lo \<le> x \<and> x \<le> hi"
  by (auto simp: full_def full_from_iff)

section \<open>The stepping loop\<close>

lemma wrap64_id: "- (2 ^ 63) \<le> n \<Longrightarrow> n < 2 ^ 63 \<Longrightarrow> wrap64 n = n"
  by (simp add: wrap64_def)

lemma wrap64_over: "2 ^ 63 \<le> n \<Longrightarrow> n < 2 ^ 64 \<Longrightarrow> wrap64 n = n - 2 ^ 64"
proof -
  assume n: "2 ^ 63 \<le> n" "n < 2 ^ 64"
  then have "(n + 2 ^ 63) mod 2 ^ 64 = n + 2 ^ 63 - 2 ^ 64"
    by (intro int_mod_pos_eq [of _ _ 1]) simp_all
  then show "wrap64 n = n - 2 ^ 64" by (simp add: wrap64_def)
qed

lemma dvd_step: "0 < (s::int) \<Longrightarrow> n \<le> x \<and> s dvd x - n \<longleftrightarrow> x = n \<or> n + s \<le> x \<and> s dvd x - (n + s)"
proof -
  assume s: "0 < s"
  have "s dvd x - (n + s) \<longleftrightarrow> s dvd x - n" 
  proof -
    have e: "x - (n + s) = x - n - s" by simp
    show ?thesis unfolding e using dvd_add [of s "x - n - s" s] by (auto intro: dvd_diff)
  qed
  moreover have "n + s \<le> x" if "s dvd x - n" "n < x" using zdvd_imp_le [OF that(1)] that(2) by simp
  ultimately show ?thesis using s by auto
qed

lemma item_loop_exact:
  assumes "0 < step" "step < 2 ^ 62" "0 \<le> n" "hi < 64"
  shows "\<exists>r. item_loop step hi n m = Some r \<and>
    (\<forall>x. 0 \<le> x \<and> x < 64 \<longrightarrow> (has_bit r x \<longleftrightarrow> has_bit m x \<or> n \<le> x \<and> x \<le> hi \<and> step dvd x - n))"
  using assms(3)
proof (induction "nat (hi + 1 - n)" arbitrary: n m rule: less_induct)
  case less
  show ?case
  proof (cases "n \<le> hi")
    case True
    have w: "wrap64 (n + step) = n + step" using True less.prems assms by (intro wrap64_id) simp_all
    have "nat (hi + 1 - (n + step)) < nat (hi + 1 - n)" "0 \<le> n + step"
      using True assms less.prems by auto
    from less.hyps [OF this, of "or m (one_bit n)"] obtain r where
      r: "item_loop step hi (n + step) (or m (one_bit n)) = Some r"
        "\<forall>x. 0 \<le> x \<and> x < 64 \<longrightarrow> (has_bit r x \<longleftrightarrow> has_bit (or m (one_bit n)) x \<or>
          n + step \<le> x \<and> x \<le> hi \<and> step dvd x - (n + step))" by blast
    have "has_bit r x \<longleftrightarrow> has_bit m x \<or> n \<le> x \<and> x \<le> hi \<and> step dvd x - n" if "0 \<le> x \<and> x < 64" for x
      using r(2) that True dvd_step [OF assms(1), of n x] by (auto simp: has_one_bit)
    moreover have "item_loop step hi n m = Some r" using True r(1) by (subst item_loop.simps) (simp add: w)
    ultimately show ?thesis by blast
  next
    case False
    then show ?thesis by (subst item_loop.simps) auto
  qed
qed

lemma item_loop_stops: "hi < n \<Longrightarrow> item_loop step hi n m = Some m"
  by (subst item_loop.simps) simp

text \<open>Even a step that overflows ends the loop.\<close>

lemma item_loop_overflow_ends:
  assumes "2 ^ 62 \<le> step" "step < 2 ^ 63" "0 \<le> n" "n < 64" "hi < 64"
  shows "\<exists>r. item_loop step hi n m = Some r"
  using assms(3,4)
proof (induction "nat n" arbitrary: n m rule: less_induct)
  case less
  show ?case
  proof (cases "n \<le> hi")
    case True
    have first: "item_loop step hi n m = item_loop step hi (wrap64 (n + step)) (or m (one_bit n))"
      using True by (subst item_loop.simps) simp
    show ?thesis
    proof (cases "n + step < 2 ^ 63")
      case True
      then have "wrap64 (n + step) = n + step" using less.prems assms by (intro wrap64_id) simp_all
      then show ?thesis using assms less.prems unfolding first by (simp add: item_loop_stops)
    next
      case False
      define k where "k = n + step - 2 ^ 64"
      have k: "wrap64 (n + step) = k" "k < 0" "- (2 ^ 63) \<le> k"
        using False less.prems assms wrap64_over [of "n + step"] by (simp_all add: k_def)
      have r: "- (2 ^ 63) \<le> k + step" "k + step < n" "- 128 \<le> k + step" using k(3) False less.prems assms
        by (simp_all add: k_def)
      then have w: "wrap64 (k + step) = k + step" using less.prems by (intro wrap64_id) simp_all
      have "item_loop step hi k (or m (one_bit n)) = item_loop step hi (k + step) (or (or m (one_bit n)) (one_bit k))"
        using k True less.prems by (subst item_loop.simps) (simp add: w)
      moreover have "\<exists>r. item_loop step hi (k + step) m' = Some r" for m'
      proof (cases "0 \<le> k + step")
        case True
        then show ?thesis using less.hyps [of "k + step" m'] r(2) less.prems by simp
      next
        case neg: False
        have "wrap64 (k + step + step) = k + step + step" using neg r(3) assms by (intro wrap64_id) simp_all
        moreover have "hi < k + step + step" using r(3) assms by simp
        ultimately show ?thesis using neg True less.prems by (subst item_loop.simps) (simp add: item_loop_stops)
      qed
      ultimately show ?thesis unfolding first k(1) by simp
    qed
  qed (simp add: item_loop_stops)
qed

lemma item_loop_ends:
  assumes "0 < step" "step < 2 ^ 63" "0 \<le> n" "n < 64" "hi < 64"
  shows "\<exists>r. item_loop step hi n m = Some r"
  using item_loop_overflow_ends [of step n hi m] item_loop_exact [of step n hi m] assms by (cases "step < 2 ^ 62") auto

section \<open>The search ends\<close>

lemma forward_later: "start < forward start t"
  by (simp add: forward_def)

definition scheduled :: "Schedule \<Rightarrow> location \<Rightarrow> int \<Rightarrow> bool" where
  "scheduled s loc t \<longleftrightarrow> has_bit (month_set s) (Month loc t) \<and> dayMatches s loc t \<and>
     has_bit (hour_set s) (Hour loc t) \<and> has_bit (minute_set s) (Minute loc t)"

lemma search_step_found: "search_step s loc after t = Inr r \<Longrightarrow> r = t \<and> scheduled s loc t"
  by (auto simp: search_step_def scheduled_def split: if_splits)

lemma next_loop_ends:
  assumes "\<And>t. Year loc t \<le> cap \<Longrightarrow> t \<le> b"
  shows "\<exists>r. next_loop s loc after cap t = Some r \<and>
    (\<forall>x. r = Some x \<longrightarrow> t \<le> x \<and> scheduled s loc x \<and> Year loc x \<le> cap)"
proof (induction "nat (b + 1 - t)" arbitrary: t rule: less_induct)
  case less
  show ?case
  proof (cases "Year loc t \<le> cap")
    case True
    show ?thesis
    proof (cases "search_step s loc after t")
      case (Inl t')
      have "t < forward t t'" by (rule forward_later)
      moreover have "t \<le> b" by (rule assms [OF True])
      ultimately have "nat (b + 1 - forward t t') < nat (b + 1 - t)" by simp
      from less [OF this] obtain r where "next_loop s loc after cap (forward t t') = Some r"
        "\<forall>x. r = Some x \<longrightarrow> forward t t' \<le> x \<and> scheduled s loc x \<and> Year loc x \<le> cap" by blast
      then show ?thesis using True Inl \<open>t < forward t t'\<close> by (subst next_loop.simps) auto
    next
      case (Inr r)
      then show ?thesis using True search_step_found [OF Inr] by (subst next_loop.simps) simp
    qed
  next
    case False
    then show ?thesis by (subst next_loop.simps) simp
  qed
qed

lemma truncate_later: "after < truncate_minute after + ns_minute"
  using pos_mod_bound [OF ns_pos(1), of after] by (simp add: truncate_minute_def)

lemma Next_ends:
  assumes "\<And>t. \<bar>offset_at loc t\<bar> \<le> b"
  shows "\<exists>r. Next s loc after = Some r \<and>
    (\<forall>t. r = Some t \<longrightarrow> after < t \<and> scheduled s loc t \<and> Year loc t \<le> Year loc after + nextSearchYears)"
proof -
  let ?cap = "Year loc after + nextSearchYears"
  have "t \<le> month_start (12 * (?cap + 1)) * ns_day + b" if "Year loc t \<le> ?cap" for t
    using Year_bound [OF that assms] by simp
  from next_loop_ends [of loc ?cap, OF this] show ?thesis
    unfolding Next_def using truncate_later [of after] by (meson less_le_trans)
qed

section \<open>The search is exact at a fixed offset\<close>

lemma hour_index: "local loc t div ns_hour = day_number loc t * 24 + Hour loc t"
  using div_mult_mod_eq [of "local loc t div ns_hour" 24] zdiv_zmult2_eq [of 24 "local loc t" ns_hour]
  by (simp add: day_number_def Hour_def ns_day_def mult.commute)

lemma minute_index: "local loc t div ns_minute = (day_number loc t * 24 + Hour loc t) * 60 + Minute loc t"
  unfolding hour_index [symmetric]
  using div_mult_mod_eq [of "local loc t div ns_minute" 60] zdiv_zmult2_eq [of 60 "local loc t" ns_minute]
  by (simp add: Minute_def ns_hour_def mult.commute)

lemma month_index: "12 * Year loc t + Month loc t - 1 = month_of (day_number loc t)"
  using mult_div_mod_eq [of 12 "month_of (day_number loc t)"] by (simp add: Year_def Month_def)

lemma day_index: "month_start (12 * Year loc t + Month loc t - 1) + Day loc t - 1 = day_number loc t"
  unfolding month_index by (simp add: Day_def)

lemma same_day:
  "day_number loc a = day_number loc b \<Longrightarrow> Month loc a = Month loc b \<and> dayMatches s loc a = dayMatches s loc b"
  by (simp add: Month_def dayMatches_def Day_def Weekday_def)

lemma same_clock: "sameWallClockMinute loc a b \<Longrightarrow> local loc a div ns_minute = local loc b div ns_minute"
  unfolding minute_index using day_index [of loc a] day_index [of loc b] by (simp add: sameWallClockMinute_def)

lemma div_between: "0 < (d::int) \<Longrightarrow> q * d \<le> x \<Longrightarrow> x < (q + 1) * d \<Longrightarrow> x div d = q"
  by (intro int_div_pos_eq [of _ _ _ "x - q * d"]) (simp_all add: algebra_simps)

lemma div_lower: "0 < (d::int) \<Longrightarrow> x div d * d \<le> x"
  using div_mult_mod_eq [of x d] pos_mod_sign [of d x] by linarith

lemma div_upper: "0 < (d::int) \<Longrightarrow> x < (x div d + 1) * d"
  using div_mult_mod_eq [of x d] pos_mod_bound [of d x] unfolding distrib_right mult_1 by linarith

lemma div_less_mult: "0 < (d::int) \<Longrightarrow> x < n * d \<Longrightarrow> x div d < n"
  using div_lower [of d x] by (metis le_less_trans mult_less_cancel_right_pos)

lemma less_mult_div: "0 < (d::int) \<Longrightarrow> x div d < n \<Longrightarrow> x < n * d"
proof -
  assume d: "0 < d" "x div d < n"
  have "x < (x div d + 1) * d" by (rule div_upper [OF d(1)])
  also have "\<dots> \<le> n * d" using d by (intro mult_right_mono) simp_all
  finally show "x < n * d" .
qed

abbreviation aligned :: "int \<Rightarrow> bool" where
  "aligned t \<equiv> t mod ns_minute = 0"

lemma aligned_mult [simp]: "aligned (q * ns_hour)" "aligned (q * ns_day)"
  by (simp_all add: ns_day_def ns_hour_def mod_mult_right_eq)

lemma aligned_step: "aligned a \<Longrightarrow> aligned b \<Longrightarrow> a \<le> b \<Longrightarrow> b < a + ns_minute \<Longrightarrow> b = a"
proof -
  assume a: "aligned a" "aligned b" "a \<le> b" "b < a + ns_minute"
  then have "(b - a) mod ns_minute = 0" by (simp add: mod_diff_eq [symmetric])
  moreover have "(b - a) mod ns_minute = b - a" using a by (intro mod_pos_pos_trivial) simp_all
  ultimately show "b = a" by simp
qed

text \<open>What a jump passes over is not scheduled.\<close>

lemma search_step_skips:
  assumes c: "aligned c" and t: "aligned t" "after < t" and step: "search_step s (fixed_zone c) after t = Inl t'"
  shows "t < t' \<and> aligned t' \<and> (\<forall>v. t \<le> v \<and> v < t' \<and> aligned v \<longrightarrow> \<not> scheduled s (fixed_zone c) v)"
proof -
  let ?z = "fixed_zone c"
  define d where "d = day_number ?z t"
  have d: "d * ns_day \<le> t + c" "t + c < (d + 1) * ns_day"
    using div_lower [of ns_day "t + c"] div_upper [of ns_day "t + c"] by (simp_all add: d_def day_number_def)
  consider
    (month) "\<not> has_bit (month_set s) (Month ?z t)" "t' = Date ?z (Year ?z t) (Month ?z t + 1) 1 0 0"
    | (day) "\<not> dayMatches s ?z t" "t' = Date ?z (Year ?z t) (Month ?z t) (Day ?z t + 1) 0 0"
    | (hour) "\<not> has_bit (hour_set s) (Hour ?z t)" "t' = Date ?z (Year ?z t) (Month ?z t) (Day ?z t) (Hour ?z t) 0 + ns_hour"
    | (minute) "\<not> has_bit (minute_set s) (Minute ?z t)" "t' = t + ns_minute"
    | (again) "sameWallClockMinute ?z t after" "truncate_minute after = after"
    using step by (auto simp: search_step_def split: if_splits)
  then show ?thesis
  proof cases
    case month
    let ?k = "month_of d"
    have t': "t' = month_start (?k + 1) * ns_day - c"
      using month(2) month_index [of ?z t] by (simp add: Date_fixed d_def algebra_simps)
    have k: "month_start ?k \<le> d" "d < month_start (?k + 1)" using month_of_bounds [of d] by simp_all
    have "t + c < month_start (?k + 1) * ns_day" using k(2) by (intro less_mult_div) (simp_all add: d_def day_number_def)
    moreover have "\<not> scheduled s ?z v" if v: "t \<le> v" "v < t'" for v
    proof -
      have "v + c < month_start (?k + 1) * ns_day" using v(2) t' by simp
      then have "day_number ?z v < month_start (?k + 1)" unfolding day_number_def by (intro div_less_mult) simp_all
      moreover have "d \<le> day_number ?z v" unfolding d_def day_number_def using v(1) by (intro zdiv_mono1) simp_all
      ultimately have "month_of (day_number ?z v) = ?k" using k(1) by (intro month_of_unique) simp_all
      then have "Month ?z v = Month ?z t" by (simp add: Month_def d_def)
      then show ?thesis using month(1) by (simp add: scheduled_def)
    qed
    moreover have "aligned t'" unfolding t' using c aligned_mult(2) by (simp add: mod_diff_eq [symmetric])
    ultimately show ?thesis using t' by auto
  next
    case day
    have i: "month_start (12 * Year ?z t + Month ?z t - 1) + (Day ?z t + 1) - 1 = d + 1"
      using day_index [of ?z t] by (simp add: d_def)
    have t': "t' = (d + 1) * ns_day - c" using day(2) unfolding Date_fixed i by simp
    have "\<not> scheduled s ?z v" if v: "t \<le> v" "v < t'" for v
    proof -
      have "day_number ?z v = d" unfolding day_number_def using v d t' by (intro div_between) simp_all
      then show ?thesis using same_day [of ?z v t s] day(1) by (simp add: scheduled_def d_def)
    qed
    moreover have "aligned t'" unfolding t' using c aligned_mult(2) by (simp add: mod_diff_eq [symmetric])
    ultimately show ?thesis using t' d by auto
  next
    case hour
    define h where "h = (t + c) div ns_hour"
    have "(month_start (12 * Year ?z t + Month ?z t - 1) + Day ?z t - 1) * ns_day + Hour ?z t * ns_hour = h * ns_hour"
      using hour_index [of ?z t] unfolding day_index by (simp add: h_def ns_day_def algebra_simps)
    then have t': "t' = (h + 1) * ns_hour - c" using hour(2) by (simp add: Date_fixed algebra_simps)
    have h: "h * ns_hour \<le> t + c" "t + c < (h + 1) * ns_hour"
      unfolding h_def by (rule div_lower div_upper, simp)+
    have "\<not> scheduled s ?z v" if v: "t \<le> v" "v < t'" for v
    proof -
      have "(v + c) div ns_hour = h" using v h t' by (intro div_between) simp_all
      then have "Hour ?z v = Hour ?z t" by (simp add: Hour_def h_def)
      then show ?thesis using hour(1) by (simp add: scheduled_def)
    qed
    moreover have "aligned t'" unfolding t' using c aligned_mult(1) by (simp add: mod_diff_eq [symmetric])
    ultimately show ?thesis using t' h by auto
  next
    case minute
    have "\<not> scheduled s ?z v" if v: "t \<le> v" "v < t'" "aligned v" for v
    proof -
      have "v = t" using v minute(2) by (intro aligned_step [OF t(1) v(3,1)]) simp
      then show ?thesis using minute(1) by (simp add: scheduled_def)
    qed
    moreover have "aligned t'" using t(1) minute(2) by simp
    ultimately show ?thesis using minute(2) by auto
  next
    case again
    have "aligned after" using again(2) by (simp add: truncate_minute_def)
    then have "aligned (t + c)" "aligned (after + c)" using t(1) c by (simp_all add: mod_add_eq [symmetric])
    then have "t + c = (t + c) div ns_minute * ns_minute" "after + c = (after + c) div ns_minute * ns_minute"
      using div_mult_mod_eq [of "t + c" ns_minute] div_mult_mod_eq [of "after + c" ns_minute] by simp_all
    with same_clock [OF again(1)] t(2) show ?thesis by simp
  qed
qed

lemma Year_mono: "a \<le> b \<Longrightarrow> Year (fixed_zone c) a \<le> Year (fixed_zone c) b"
proof -
  assume "a \<le> b"
  then have d: "day_number (fixed_zone c) a \<le> day_number (fixed_zone c) b"
    unfolding day_number_def by (intro zdiv_mono1) simp_all
  have "month_of m \<le> month_of n" if "m \<le> n" for m n
  proof (rule ccontr)
    assume "\<not> month_of m \<le> month_of n"
    then have "n < month_start (month_of m)" by (intro month_of_less) simp
    with month_of_bounds [of m] that show False by simp
  qed
  with d show ?thesis unfolding Year_def by (intro zdiv_mono1) simp_all
qed

lemma next_loop_exact:
  assumes "aligned c" "aligned t" "after < t" "next_loop s (fixed_zone c) after cap t = Some r"
  shows "(\<forall>v. t \<le> v \<and> aligned v \<and> Year (fixed_zone c) v \<le> cap \<and> (\<forall>x. r = Some x \<longrightarrow> v < x) \<longrightarrow>
      \<not> scheduled s (fixed_zone c) v) \<and> (\<forall>x. r = Some x \<longrightarrow> aligned x)"
proof -
  let ?z = "fixed_zone c"
  have b: "u \<le> month_start (12 * (cap + 1)) * ns_day + \<bar>c\<bar>" if "Year ?z u \<le> cap" for u
    using Year_bound [OF that, of "\<bar>c\<bar>"] by (simp add: fixed_zone_def)
  show ?thesis
    using assms(2-4)
  proof (induction "nat (month_start (12 * (cap + 1)) * ns_day + \<bar>c\<bar> + 1 - t)" arbitrary: t rule: less_induct)
    case less
    show ?case
    proof (cases "Year ?z t \<le> cap")
      case True
      show ?thesis
      proof (cases "search_step s ?z after t")
        case (Inl t')
        note skip = search_step_skips [OF assms(1) less.prems(1,2) Inl]
        then have f: "forward t t' = t'" by (simp add: forward_def)
        have n: "next_loop s ?z after cap t' = Some r"
          using less.prems(3) True Inl f by (subst (asm) next_loop.simps) simp
        have "nat (month_start (12 * (cap + 1)) * ns_day + \<bar>c\<bar> + 1 - t') <
            nat (month_start (12 * (cap + 1)) * ns_day + \<bar>c\<bar> + 1 - t)" using skip b [OF True] by simp
        moreover have "aligned t'" "after < t'" using skip less.prems(2) by simp_all
        ultimately have ih: "(\<forall>v. t' \<le> v \<and> aligned v \<and> Year ?z v \<le> cap \<and> (\<forall>x. r = Some x \<longrightarrow> v < x) \<longrightarrow>
            \<not> scheduled s ?z v) \<and> (\<forall>x. r = Some x \<longrightarrow> aligned x)" using n by (rule less.hyps)
        note rest = conjunct1 [OF ih] conjunct2 [OF ih]
        have "\<not> scheduled s ?z v" if "t \<le> v \<and> aligned v \<and> Year ?z v \<le> cap \<and> (\<forall>x. r = Some x \<longrightarrow> v < x)" for v
          using that skip rest(1) by (cases "v < t'") auto
        with rest(2) show ?thesis by blast
      next
        case (Inr x)
        then have "r = Some t" using less.prems(3) True search_step_found [OF Inr] by (subst (asm) next_loop.simps) simp
        then show ?thesis using less.prems(1) by auto
      qed
    next
      case False
      then have "r = None" using less.prems(3) by (subst (asm) next_loop.simps) simp
      then show ?thesis using False Year_mono [of t _ c] by fastforce
    qed
  qed
qed

text \<open>The instants a schedule may run at after \<open>after\<close>, within the search's horizon.\<close>

definition runs_at :: "Schedule \<Rightarrow> location \<Rightarrow> int \<Rightarrow> int \<Rightarrow> bool" where
  "runs_at s loc after t \<longleftrightarrow> after < t \<and> aligned t \<and> scheduled s loc t \<and> Year loc t \<le> Year loc after + nextSearchYears"

lemma after_aligned: "after < v \<Longrightarrow> aligned v \<Longrightarrow> truncate_minute after + ns_minute \<le> v"
proof -
  assume v: "after < v" "aligned v"
  have a: "aligned (truncate_minute after)" by (simp add: truncate_minute_def)
  have "truncate_minute after \<le> after" using pos_mod_sign [OF ns_pos(1), of after] by (simp add: truncate_minute_def)
  then have "v = truncate_minute after" if "v < truncate_minute after + ns_minute"
    using aligned_step [OF a v(2)] that v(1) by simp
  moreover have "v \<noteq> truncate_minute after" using v(1) \<open>truncate_minute after \<le> after\<close> by simp
  ultimately show ?thesis by fastforce
qed

lemma Next_exact:
  assumes "aligned c"
  shows "\<exists>r. Next s (fixed_zone c) after = Some r \<and>
    (case r of
       Some t \<Rightarrow> runs_at s (fixed_zone c) after t \<and> (\<forall>v. runs_at s (fixed_zone c) after v \<longrightarrow> t \<le> v)
     | None \<Rightarrow> \<forall>v. \<not> runs_at s (fixed_zone c) after v)"
proof -
  let ?z = "fixed_zone c" and ?t = "truncate_minute after + ns_minute"
  have "\<bar>offset_at ?z t\<bar> \<le> \<bar>c\<bar>" for t by (simp add: fixed_zone_def)
  from Next_ends [of ?z, OF this, of s after] obtain r where r: "Next s ?z after = Some r"
    "\<forall>t. r = Some t \<longrightarrow> after < t \<and> scheduled s ?z t \<and> Year ?z t \<le> Year ?z after + nextSearchYears" by blast
  have t: "aligned ?t" by (simp add: truncate_minute_def)
  note ex = next_loop_exact [OF assms t truncate_later r(1) [unfolded Next_def]]
  have "\<not> runs_at s ?z after v" if "\<forall>x. r = Some x \<longrightarrow> v < x" for v
  proof
    assume v: "runs_at s ?z after v"
    then have "?t \<le> v" using after_aligned [of after v] by (simp add: runs_at_def)
    moreover have "aligned v" "Year ?z v \<le> Year ?z after + nextSearchYears" "scheduled s ?z v"
      using v unfolding runs_at_def by iprover+
    ultimately show False using conjunct1 [OF ex] that by iprover
  qed
  then have "case r of Some t \<Rightarrow> runs_at s ?z after t \<and> (\<forall>v. runs_at s ?z after v \<longrightarrow> t \<le> v)
      | None \<Rightarrow> \<forall>v. \<not> runs_at s ?z after v"
    using r(2) conjunct2 [OF ex] by (cases r) (auto simp: runs_at_def not_less [symmetric])
  with r(1) show ?thesis by blast
qed

section \<open>Printing and parsing\<close>

datatype cron_item =
    Every "nat option"
  | At nat "nat option"
  | Between nat nat "nat option"

fun step_text :: "nat option \<Rightarrow> string" where
  "step_text None = []"
| "step_text (Some n) = CHR ''/'' # itoa n"

fun range_text :: "cron_item \<Rightarrow> string" where
  "range_text (Every st) = ''*''"
| "range_text (At v st) = itoa v"
| "range_text (Between a b st) = itoa a @ CHR ''-'' # itoa b"

fun step_of :: "cron_item \<Rightarrow> nat option" where
  "step_of (Every st) = st"
| "step_of (At v st) = st"
| "step_of (Between a b st) = st"

definition cron_item_text :: "cron_item \<Rightarrow> string" where
  "cron_item_text it = range_text it @ step_text (step_of it)"

definition cron_field_text :: "cron_item list \<Rightarrow> string" where
  "cron_field_text its = join '','' (map cron_item_text its)"

definition step_value :: "cron_item \<Rightarrow> int" where
  "step_value it = (case step_of it of None \<Rightarrow> 1 | Some n \<Rightarrow> int n)"

fun item_bounds :: "int \<Rightarrow> int \<Rightarrow> cron_item \<Rightarrow> int \<times> int" where
  "item_bounds lo hi (Every st) = (lo, hi)"
| "item_bounds lo hi (At v st) = (int v, if step_value (At v st) > 1 then hi else int v)"
| "item_bounds lo hi (Between a b st) = (int a, int b)"

text \<open>The numbers an item stands for.\<close>

definition denotes :: "int \<Rightarrow> int \<Rightarrow> cron_item \<Rightarrow> int \<Rightarrow> bool" where
  "denotes lo hi it x \<longleftrightarrow> (case item_bounds lo hi it of (a, b) \<Rightarrow> a \<le> x \<and> x \<le> b \<and> step_value it dvd x - a)"

fun good_range :: "int \<Rightarrow> int \<Rightarrow> cron_item \<Rightarrow> bool" where
  "good_range lo hi (Every st) = True"
| "good_range lo hi (At v st) = (lo \<le> int v \<and> int v \<le> hi)"
| "good_range lo hi (Between a b st) = (lo \<le> int a \<and> a \<le> b \<and> int b \<le> hi)"

definition good_item :: "int \<Rightarrow> int \<Rightarrow> cron_item \<Rightarrow> bool" where
  "good_item lo hi it \<longleftrightarrow> good_range lo hi it \<and> (case step_of it of None \<Rightarrow> True | Some n \<Rightarrow> 0 < n \<and> int n < 2 ^ 62)"

lemma itoa_chars: "x \<in> set (itoa n) \<Longrightarrow> is_digit x" "itoa n \<noteq> []"
  using itoa_digits [of n] by (auto simp: list_all_iff)

lemma itoa_plain: "c \<in> set (itoa n) \<Longrightarrow> c \<noteq> CHR ''/'' \<and> c \<noteq> CHR ''-'' \<and> c \<noteq> CHR ''*'' \<and> c \<noteq> CHR '','' \<and> \<not> is_space c"
  using itoa_chars(1) [of c n] by (auto simp: is_digit_def is_space_def)

definition plain_names :: "(string \<times> int) list \<Rightarrow> bool" where
  "plain_names names \<longleftrightarrow> list_all (\<lambda>e. list_ex (\<lambda>c. \<not> is_digit c) (fst e)) names"

lemma plain_tables: "plain_names []" "plain_names monthNames" "plain_names dowNames"
  by code_simp+

lemma to_lower_digits: "list_all is_digit s \<Longrightarrow> to_lower s = s"
  by (induction s) (auto simp: to_lower_def lower_char_def is_digit_def is_upper_def)

lemma itoa_not_name: "plain_names names \<Longrightarrow> map_of names (to_lower (itoa n)) = None"
proof -
  assume p: "plain_names names"
  have d: "list_all is_digit (itoa n)" using itoa_digits [of n] by simp
  then have "to_lower (itoa n) = itoa n" by (rule to_lower_digits)
  moreover have "itoa n \<notin> fst ` set names" using p d by (fastforce simp: plain_names_def list_all_iff list_ex_iff)
  ultimately show ?thesis by (simp add: map_of_eq_None_iff)
qed

lemma parseValue_itoa:
  assumes "plain_names names" "lo \<le> int v" "int v \<le> hi" "hi < 64"
  shows "parseValue (itoa v) lo hi names = Inr (int v)"
proof -
  have "trim_space (itoa v) = itoa v" using itoa_plain by (intro trim_space_word) blast
  moreover have "atoi (itoa v) = Some (int v)" using assms by (intro atoi_itoa) simp
  ultimately show ?thesis using assms itoa_not_name [OF assms(1), of v] by (simp add: parseValue_def)
qed

lemma index_of_absent: "c \<notin> set s \<Longrightarrow> index_of s [c] = None"
  using contains_iff [of s "[c]"] by (auto simp: index_of_None)

lemma range_text_chars: "CHR ''/'' \<notin> set (range_text it)" "CHR '','' \<notin> set (range_text it)" "range_text it \<noteq> []"
  using itoa_plain itoa_chars(2) by (cases it; fastforce)+

lemma item_step_text:
  assumes "good_item lo hi it"
  shows "item_step (cron_item_text it) = Inr (range_text it, step_value it)"
proof (cases "step_of it")
  case None
  then show ?thesis
    using index_of_absent [OF range_text_chars(1), of it]
    by (simp add: item_step_def cron_item_text_def step_value_def)
next
  case (Some n)
  have "index_of (range_text it @ CHR ''/'' # [] @ itoa n) (CHR ''/'' # []) = Some (length (range_text it))"
    by (rule index_of_append [OF range_text_chars(1)])
  moreover have "atoi (itoa n) = Some (int n)" using assms Some by (intro atoi_itoa) (simp add: good_item_def)
  moreover have "0 < n" using assms Some by (simp add: good_item_def)
  ultimately show ?thesis using Some by (simp add: item_step_def cron_item_text_def step_value_def)
qed

lemma item_range_text:
  assumes "good_range lo hi it" "plain_names names" "hi < 64"
  shows "item_range text (range_text it) (step_value it) lo hi names = Inr (item_bounds lo hi it)"
proof (cases it)
  case (Every st)
  then show ?thesis by (simp add: item_range_def)
next
  case (At v st)
  have "itoa v \<noteq> ''*''" using itoa_plain [of "CHR ''*''" v] by auto
  moreover have "index_of (itoa v) ''-'' = None" using itoa_plain by (intro index_of_absent) blast
  ultimately show ?thesis
    using At assms parseValue_itoa [OF assms(2), of lo v hi] by (simp add: item_range_def)
next
  case (Between a b st)
  have "itoa a @ CHR ''-'' # itoa b \<noteq> ''*''" using itoa_chars(2) by (cases "itoa a") auto
  moreover have "index_of (itoa a @ CHR ''-'' # [] @ itoa b) (CHR ''-'' # []) = Some (length (itoa a))"
    using itoa_plain by (intro index_of_append) blast
  ultimately show ?thesis
    using Between assms parseValue_itoa [OF assms(2), of lo a hi] parseValue_itoa [OF assms(2), of lo b hi]
    by (simp add: item_range_def)
qed

lemma item_bounds_range:
  assumes "good_range lo hi it" "0 \<le> lo" "lo \<le> hi" "hi < 64"
  shows "0 \<le> fst (item_bounds lo hi it) \<and> snd (item_bounds lo hi it) < 64"
  using assms by (cases it) auto

lemma parseItem_text:
  assumes "good_item lo hi it" "plain_names names" "0 \<le> lo" "lo \<le> hi" "hi < 64"
  shows "\<exists>m. parseItem (cron_item_text it) lo hi names = Some (Inr m) \<and>
    (\<forall>x. 0 \<le> x \<and> x < 64 \<longrightarrow> (has_bit m x \<longleftrightarrow> denotes lo hi it x))"
proof -
  obtain a b where ab: "item_bounds lo hi it = (a, b)" by (cases "item_bounds lo hi it")
  have g: "good_range lo hi it" using assms(1) by (simp add: good_item_def)
  have "0 < step_value it" "step_value it < 2 ^ 62" using assms(1)
    by (auto simp: good_item_def step_value_def split: option.splits)
  moreover have "0 \<le> a" "b < 64" using item_bounds_range [OF g assms(3-5)] ab by simp_all
  ultimately obtain m where m: "item_loop (step_value it) b a 0 = Some m"
    "\<forall>x. 0 \<le> x \<and> x < 64 \<longrightarrow> (has_bit m x \<longleftrightarrow> a \<le> x \<and> x \<le> b \<and> step_value it dvd x - a)"
    using item_loop_exact [of "step_value it" a b 0] by auto
  then show ?thesis
    using item_step_text [OF assms(1)] item_range_text [OF g assms(2,5), of "cron_item_text it"] ab
    by (auto simp: parseItem_def denotes_def)
qed

lemma cron_item_text_plain: "CHR '','' \<notin> set (cron_item_text it)" "cron_item_text it \<noteq> []"
proof -
  have "CHR '','' \<notin> set (step_text st)" for st using itoa_plain by (cases st) auto
  then show "CHR '','' \<notin> set (cron_item_text it)" using range_text_chars(2) by (simp add: cron_item_text_def)
  show "cron_item_text it \<noteq> []" using range_text_chars(3) by (simp add: cron_item_text_def)
qed

lemma parse_items_text:
  assumes "list_all (good_item lo hi) its" "plain_names names" "0 \<le> lo" "lo \<le> hi" "hi < 64"
  shows "\<exists>r. parse_items field (map cron_item_text its) lo hi names m = Some (Inr r) \<and>
    (\<forall>x. 0 \<le> x \<and> x < 64 \<longrightarrow> (has_bit r x \<longleftrightarrow> has_bit m x \<or> list_ex (\<lambda>it. denotes lo hi it x) its))"
  using assms(1)
proof (induction its arbitrary: m)
  case (Cons it its)
  then obtain k where k: "parseItem (cron_item_text it) lo hi names = Some (Inr k)"
    "\<forall>x. 0 \<le> x \<and> x < 64 \<longrightarrow> (has_bit k x \<longleftrightarrow> denotes lo hi it x)"
    using parseItem_text [OF _ assms(2-5), of it] by auto
  obtain r where "parse_items field (map cron_item_text its) lo hi names (or m k) = Some (Inr r)"
    "\<forall>x. 0 \<le> x \<and> x < 64 \<longrightarrow> (has_bit r x \<longleftrightarrow> has_bit (or m k) x \<or> list_ex (\<lambda>it. denotes lo hi it x) its)"
    using Cons.IH [of "or m k"] Cons.prems by auto
  with k show ?case by (auto simp: cron_item_text_plain(2))
qed simp

lemma cron_item_star: "cron_item_text it = ''*'' \<Longrightarrow> it = Every None"
proof (cases it)
  case (Every st)
  then show "cron_item_text it = ''*'' \<Longrightarrow> it = Every None" by (cases st) (simp_all add: cron_item_text_def)
next
  case (At v st)
  have "itoa v @ r \<noteq> ''*''" for r using itoa_plain [of "CHR ''*''" v] itoa_chars(2) [of v] by (cases "itoa v") auto
  then show "cron_item_text it = ''*'' \<Longrightarrow> it = Every None" using At by (simp add: cron_item_text_def)
next
  case (Between a b st)
  have "itoa a @ r \<noteq> ''*''" for r using itoa_plain [of "CHR ''*''" a] itoa_chars(2) [of a] by (cases "itoa a") auto
  then show "cron_item_text it = ''*'' \<Longrightarrow> it = Every None" using Between by (simp add: cron_item_text_def)
qed

lemma parseField_text:
  assumes "list_all (good_item lo hi) its" "its \<noteq> []" "plain_names names" "0 \<le> lo" "lo \<le> hi" "hi < 64"
  shows "\<exists>m. parseField (cron_field_text its) lo hi names = Some (Inr (m, its = [Every None])) \<and>
    (\<forall>x. 0 \<le> x \<and> x < 64 \<longrightarrow> (has_bit m x \<longleftrightarrow> list_ex (\<lambda>it. denotes lo hi it x) its))"
proof (cases "its = [Every None]")
  case True
  then show ?thesis using assms(4-6)
    by (auto simp: parseField_def cron_field_text_def cron_item_text_def full_iff denotes_def step_value_def)
next
  case False
  have sp: "split_on (CHR '','') (cron_field_text its) = map cron_item_text its"
    unfolding cron_field_text_def using assms(2) cron_item_text_plain(1) by (intro split_on_join) auto
  have "cron_field_text its \<noteq> ''*''"
  proof
    assume "cron_field_text its = ''*''"
    then have "map cron_item_text its = [''*'']" using sp by simp
    then have "its = [Every None]" using cron_item_star by (auto simp: map_eq_Cons_conv)
    with False show False by simp
  qed
  with sp show ?thesis
    using parse_items_text [OF assms(1,3-6), of "cron_field_text its" 0] False by (auto simp: parseField_def)
qed

text \<open>A whole expression.\<close>

record cron_expr =
  ce_minute :: "cron_item list"
  ce_hour :: "cron_item list"
  ce_dom :: "cron_item list"
  ce_month :: "cron_item list"
  ce_dow :: "cron_item list"

definition cron_fields :: "cron_expr \<Rightarrow> string list" where
  "cron_fields e = [cron_field_text (ce_minute e), cron_field_text (ce_hour e), cron_field_text (ce_dom e),
     cron_field_text (ce_month e), cron_field_text (ce_dow e)]"

definition cron_text :: "cron_expr \<Rightarrow> string" where
  "cron_text e = join '' '' (cron_fields e)"

definition good_field :: "int \<Rightarrow> int \<Rightarrow> cron_item list \<Rightarrow> bool" where
  "good_field lo hi its \<longleftrightarrow> its \<noteq> [] \<and> list_all (good_item lo hi) its"

definition good_expr :: "cron_expr \<Rightarrow> bool" where
  "good_expr e \<longleftrightarrow> good_field 0 59 (ce_minute e) \<and> good_field 0 23 (ce_hour e) \<and> good_field 1 31 (ce_dom e) \<and>
     good_field 1 12 (ce_month e) \<and> good_field 0 7 (ce_dow e)"

lemma cron_item_text_no_space: "x \<in> set (cron_item_text it) \<Longrightarrow> \<not> is_space x"
proof -
  have "x \<in> set (step_text st) \<Longrightarrow> \<not> is_space x" for st using itoa_plain by (cases st) (auto simp: is_space_def)
  moreover have "x \<in> set (range_text it) \<Longrightarrow> \<not> is_space x" using itoa_plain by (cases it) (auto simp: is_space_def)
  ultimately show "x \<in> set (cron_item_text it) \<Longrightarrow> \<not> is_space x" by (auto simp: cron_item_text_def)
qed

lemma cron_field_text_word:
  assumes "its \<noteq> []"
  shows "cron_field_text its \<noteq> []" "\<forall>x \<in> set (cron_field_text its). \<not> is_space x"
proof -
  have "set (join '','' (map cron_item_text xs)) \<subseteq> {CHR '',''} \<union> (\<Union>it \<in> set xs. set (cron_item_text it))" for xs
  proof (induction xs)
    case (Cons x xs)
    then show ?case by (cases xs) auto
  qed simp
  then show "\<forall>x \<in> set (cron_field_text its). \<not> is_space x"
    using cron_item_text_no_space unfolding cron_field_text_def by (fastforce simp: is_space_def)
  show "cron_field_text its \<noteq> []"
    using assms cron_item_text_plain(2) by (cases its; cases "tl its") (auto simp: cron_field_text_def)
qed

lemma str_fields_join: "list_all (\<lambda>w. w \<noteq> [] \<and> (\<forall>x \<in> set w. \<not> is_space x)) ws \<Longrightarrow> str_fields (join '' '' ws) = ws"
proof (induction ws)
  case (Cons w ws)
  have sp: "is_space (CHR '' '')" by (simp add: is_space_def)
  show ?case
  proof (cases ws)
    case Nil
    then show ?thesis using Cons.prems str_fields_word [of w] by simp
  next
    case (Cons v vs)
    then have "str_fields (w @ CHR '' '' # join '' '' ws) = w # str_fields (join '' '' ws)"
      using Cons.prems sp by (intro str_fields_Cons_word) auto
    then show ?thesis using Cons Cons.prems Cons.IH by simp
  qed
qed simp

lemma trim_space_ends:
  assumes "a \<noteq> []" "\<forall>x \<in> set a. \<not> is_space x" "b \<noteq> []" "\<forall>x \<in> set b. \<not> is_space x"
  shows "trim_space (a @ m @ b) = a @ m @ b"
proof -
  obtain c a' where a: "a = c # a'" using assms(1) by (cases a) auto
  obtain d b' where b: "b = b' @ [d]" using assms(3) by (cases b rule: rev_cases) auto
  show ?thesis using assms(2,4) by (simp add: trim_space_def trim_by_def trim_left_by_def trim_right_by_def a b)
qed

text \<open>The parsed schedule of an expression: each set holds what its field stands for, with 7 read as Sunday.\<close>

definition denoted :: "int \<Rightarrow> int \<Rightarrow> cron_item list \<Rightarrow> int \<Rightarrow> bool" where
  "denoted lo hi its x \<longleftrightarrow> list_ex (\<lambda>it. denotes lo hi it x) its"

definition stands_for :: "Schedule \<Rightarrow> cron_expr \<Rightarrow> bool" where
  "stands_for s e \<longleftrightarrow>
     (\<forall>x. 0 \<le> x \<and> x < 64 \<longrightarrow>
        (has_bit (minute_set s) x \<longleftrightarrow> denoted 0 59 (ce_minute e) x) \<and>
        (has_bit (hour_set s) x \<longleftrightarrow> denoted 0 23 (ce_hour e) x) \<and>
        (has_bit (dom_set s) x \<longleftrightarrow> denoted 1 31 (ce_dom e) x) \<and>
        (has_bit (month_set s) x \<longleftrightarrow> denoted 1 12 (ce_month e) x) \<and>
        (has_bit (dow_set s) x \<longleftrightarrow> (if x = 0 then denoted 0 7 (ce_dow e) 0 \<or> denoted 0 7 (ce_dow e) 7
          else x \<noteq> 7 \<and> denoted 0 7 (ce_dow e) x))) \<and>
     (domStar s \<longleftrightarrow> ce_dom e = [Every None]) \<and> (dowStar s \<longleftrightarrow> ce_dow e = [Every None]) \<and> expr_text s = cron_text e"

lemma normalize_dow_iff: "0 \<le> x \<Longrightarrow> x < 64 \<Longrightarrow>
    has_bit (normalize_dow m) x \<longleftrightarrow> (if x = 0 then has_bit m 0 \<or> has_bit m 7 else x \<noteq> 7 \<and> has_bit m x)"
proof -
  assume x: "0 \<le> x" "x < 64"
  define k :: "64 word" where "k = push_bit 7 1"
  have k: "bit k n \<longleftrightarrow> n = 7" for n
    unfolding k_def push_bit_of_1 bit_exp_iff by auto
  have seven: "and m k \<noteq> 0 \<longleftrightarrow> has_bit m 7" by (simp add: has_bit_def k_def)
  have "has_bit (or (and m (not k)) 1) x \<longleftrightarrow> x = 0 \<or> x \<noteq> 7 \<and> has_bit m x"
    using x by (auto simp: has_bit_iff bit_or_iff bit_and_iff bit_not_iff bit_1_iff k)
  then show "has_bit (normalize_dow m) x \<longleftrightarrow> (if x = 0 then has_bit m 0 \<or> has_bit m 7 else x \<noteq> 7 \<and> has_bit m x)"
    unfolding normalize_dow_def k_def [symmetric] seven by auto
qed

lemma parsed_field:
  assumes "good_field lo hi its" "plain_names names" "0 \<le> lo" "lo \<le> hi" "hi < 64"
  obtains m where "parseField (cron_field_text its) lo hi names = Some (Inr (m, its = [Every None]))"
    "\<And>x. 0 \<le> x \<Longrightarrow> x < 64 \<Longrightarrow> has_bit m x \<longleftrightarrow> denoted lo hi its x"
  using parseField_text [of lo hi its names] assms unfolding good_field_def denoted_def by blast

lemma cron_text_fields:
  assumes "good_expr e"
  shows "str_fields (trim_space (cron_text e)) = cron_fields e"
proof -
  have ne: "ce_minute e \<noteq> []" "ce_hour e \<noteq> []" "ce_dom e \<noteq> []" "ce_month e \<noteq> []" "ce_dow e \<noteq> []"
    using assms by (simp_all add: good_expr_def good_field_def)
  note words = ne [THEN cron_field_text_word(1)] ne [THEN cron_field_text_word(2)]
  have "cron_text e = cron_field_text (ce_minute e) @
      ('' '' @ cron_field_text (ce_hour e) @ '' '' @ cron_field_text (ce_dom e) @ '' '' @
        cron_field_text (ce_month e) @ '' '') @ cron_field_text (ce_dow e)"
    by (simp add: cron_text_def cron_fields_def)
  then have "trim_space (cron_text e) = cron_text e"
    using trim_space_ends [OF words(1) words(6) words(5) words(10)] by metis
  moreover have "str_fields (join '' '' (cron_fields e)) = cron_fields e"
    using words by (intro str_fields_join) (simp add: cron_fields_def)
  ultimately show ?thesis by (simp add: cron_text_def)
qed

lemma Parse_text:
  assumes "good_expr e"
  shows "\<exists>s. Parse (cron_text e) = Some (Inr s) \<and> stands_for s e"
proof -
  have g: "good_field 0 59 (ce_minute e)" "good_field 0 23 (ce_hour e)" "good_field 1 31 (ce_dom e)"
    "good_field 1 12 (ce_month e)" "good_field 0 7 (ce_dow e)" using assms by (simp_all add: good_expr_def)
  obtain mi where mi: "parseField (cron_field_text (ce_minute e)) 0 59 [] = Some (Inr (mi, ce_minute e = [Every None]))"
    "\<And>x. 0 \<le> x \<Longrightarrow> x < 64 \<Longrightarrow> has_bit mi x \<longleftrightarrow> denoted 0 59 (ce_minute e) x"
    by (rule parsed_field [OF g(1) plain_tables(1)]) simp_all
  obtain h where h: "parseField (cron_field_text (ce_hour e)) 0 23 [] = Some (Inr (h, ce_hour e = [Every None]))"
    "\<And>x. 0 \<le> x \<Longrightarrow> x < 64 \<Longrightarrow> has_bit h x \<longleftrightarrow> denoted 0 23 (ce_hour e) x"
    by (rule parsed_field [OF g(2) plain_tables(1)]) simp_all
  obtain dom where dom: "parseField (cron_field_text (ce_dom e)) 1 31 [] = Some (Inr (dom, ce_dom e = [Every None]))"
    "\<And>x. 0 \<le> x \<Longrightarrow> x < 64 \<Longrightarrow> has_bit dom x \<longleftrightarrow> denoted 1 31 (ce_dom e) x"
    by (rule parsed_field [OF g(3) plain_tables(1)]) simp_all
  obtain mon where mon: "parseField (cron_field_text (ce_month e)) 1 12 monthNames = Some (Inr (mon, ce_month e = [Every None]))"
    "\<And>x. 0 \<le> x \<Longrightarrow> x < 64 \<Longrightarrow> has_bit mon x \<longleftrightarrow> denoted 1 12 (ce_month e) x"
    by (rule parsed_field [OF g(4) plain_tables(2)]) simp_all
  obtain dow where dow: "parseField (cron_field_text (ce_dow e)) 0 7 dowNames = Some (Inr (dow, ce_dow e = [Every None]))"
    "\<And>x. 0 \<le> x \<Longrightarrow> x < 64 \<Longrightarrow> has_bit dow x \<longleftrightarrow> denoted 0 7 (ce_dow e) x"
    by (rule parsed_field [OF g(5) plain_tables(3)]) simp_all
  let ?s = "\<lparr>minute_set = mi, hour_set = h, dom_set = dom, month_set = mon, dow_set = normalize_dow dow,
      domStar = (ce_dom e = [Every None]), dowStar = (ce_dow e = [Every None]), expr_text = cron_text e\<rparr>"
  have "Parse (cron_text e) = Some (Inr ?s)"
    unfolding Parse_def cron_text_fields [OF assms] Let_def
    by (simp add: cron_fields_def in_field_def mi(1) h(1) dom(1) mon(1) dow(1) cron_text_def)
  moreover have "stands_for ?s e"
    by (simp add: stands_for_def mi(2) h(2) dom(2) mon(2) dow(2) normalize_dow_iff)
  ultimately show ?thesis by blast
qed

section \<open>Parsing ends\<close>

lemma atoi_bound: "atoi s = Some n \<Longrightarrow> n < 2 ^ 63"
  by (auto simp: atoi_def Let_def split: if_splits prod.splits)

definition names_within :: "int \<Rightarrow> int \<Rightarrow> (string \<times> int) list \<Rightarrow> bool" where
  "names_within lo hi names \<longleftrightarrow> list_all (\<lambda>e. lo \<le> snd e \<and> snd e \<le> hi) names"

lemma names_tables: "names_within lo hi []" "names_within 1 12 monthNames" "names_within 0 7 dowNames"
  by (simp add: names_within_def) code_simp+

lemma parseValue_within: "parseValue tok lo hi names = Inr v \<Longrightarrow> names_within lo hi names \<Longrightarrow> lo \<le> v \<and> v \<le> hi"
  by (auto simp: parseValue_def Let_def names_within_def list_all_iff split: option.splits if_splits dest!: map_of_SomeD)

lemma item_step_bound: "item_step item = Inr (r, step) \<Longrightarrow> 0 < step \<and> step < 2 ^ 63"
  by (auto simp: item_step_def Let_def split: option.splits if_splits dest: atoi_bound)

lemma item_range_within:
  assumes "item_range item r step lo hi names = Inr (a, b)" "names_within lo hi names" "lo \<le> hi"
  shows "lo \<le> a \<and> a \<le> hi \<and> b \<le> hi"
  using assms parseValue_within [OF _ assms(2)]
  by (auto simp: item_range_def split: option.splits sum.splits if_splits)

lemma parseItem_ends:
  assumes "names_within lo hi names" "0 \<le> lo" "lo \<le> hi" "hi < 64"
  shows "\<exists>r. parseItem item lo hi names = Some r"
proof (cases "item_step item")
  case (Inr p)
  obtain rp step where p: "p = (rp, step)" by (cases p)
  show ?thesis
  proof (cases "item_range item rp step lo hi names")
    case R: (Inr q)
    obtain a b where q: "q = (a, b)" by (cases q)
    have "0 < step" "step < 2 ^ 63" using item_step_bound Inr p by blast+
    moreover have "lo \<le> a" "a \<le> hi" "b \<le> hi" using item_range_within [OF _ assms(1,3)] R q by blast+
    ultimately obtain m where "item_loop step b a 0 = Some m" using assms item_loop_ends [of step a b 0] by auto
    then show ?thesis using Inr R p q by (simp add: parseItem_def)
  qed (simp add: parseItem_def Inr p)
qed (simp add: parseItem_def)

lemma parse_items_ends:
  assumes "names_within lo hi names" "0 \<le> lo" "lo \<le> hi" "hi < 64"
  shows "\<exists>r. parse_items field items lo hi names m = Some r"
proof (induction items arbitrary: m)
  case (Cons item items)
  obtain r where "parseItem item lo hi names = Some r" using parseItem_ends [OF assms, of item] by blast
  then show ?case using Cons.IH by (cases r) auto
qed simp

lemma parseField_ends:
  assumes "names_within lo hi names" "0 \<le> lo" "lo \<le> hi" "hi < 64"
  shows "\<exists>r. parseField field lo hi names = Some r"
proof -
  obtain r where "parse_items field (split_on (CHR '','') field) lo hi names 0 = Some r"
    using parse_items_ends [OF assms] by blast
  then show ?thesis by (cases r) (auto simp: parseField_def)
qed

lemma in_field_ends: "r = Some x \<Longrightarrow> (\<And>y. x = Inr y \<Longrightarrow> \<exists>z. f y = Some z) \<Longrightarrow> \<exists>z. in_field name r f = Some z"
  by (cases x) (auto simp: in_field_def)

lemma Parse_ends: "\<exists>r. Parse expr = Some r"
proof -
  have "\<exists>r. parseField f 0 59 [] = Some r" "\<exists>r. parseField f 0 23 [] = Some r" "\<exists>r. parseField f 1 31 [] = Some r"
    "\<exists>r. parseField f 1 12 monthNames = Some r" "\<exists>r. parseField f 0 7 dowNames = Some r" for f
    using parseField_ends names_tables by simp_all
  then obtain mi h dom mon dow where fields: "\<And>f. parseField f 0 59 [] = Some (mi f)" "\<And>f. parseField f 0 23 [] = Some (h f)"
    "\<And>f. parseField f 1 31 [] = Some (dom f)" "\<And>f. parseField f 1 12 monthNames = Some (mon f)"
    "\<And>f. parseField f 0 7 dowNames = Some (dow f)" by metis
  show ?thesis unfolding Parse_def Let_def
    by (auto simp: split_beta intro!: in_field_ends [OF fields(1)] in_field_ends [OF fields(2)]
      in_field_ends [OF fields(3)] in_field_ends [OF fields(4)] in_field_ends [OF fields(5)])
qed

end
