(* ===== verification/Cron_Properties.thy ===== *)
theory Cron_Properties
  imports Cron_Schedule
begin

text \<open>
  What the cron package promises: an expression parses to the schedule it stands for, parsing and
  the search always end, and at a fixed offset the search finds the first scheduled minute.  The
  last lemma records a step so large that the 64-bit loop counter wraps.
\<close>

definition working_hours :: cron_expr where
  "working_hours = \<lparr>ce_minute = [At 0 None, At 30 None], ce_hour = [Between 9 17 (Some 2)], ce_dom = [Every None],
     ce_month = [Every (Some 3)], ce_dow = [Between 1 5 None, At 7 None]\<rparr>"

text \<open>C31: an expression with numbers, ranges, steps and lists parses, and each set of the schedule holds exactly
  the numbers its field stands for, 7 being read as Sunday; the day-rule flags say which day fields were a star.\<close>

theorem cron_parse_exact:
  assumes "good_expr e"
  shows "\<exists>s. Parse (cron_text e) = Some (Inr s) \<and> stands_for s e"
  by (rule Parse_text [OF assms])

theorem cron_parse_exact_witness:
  "cron_text working_hours = ''0,30 9-17/2 * */3 1-5,7'' \<and>
   (\<exists>s. Parse (cron_text working_hours) = Some (Inr s) \<and> stands_for s working_hours)"
  by (intro conjI cron_parse_exact; code_simp)

text \<open>C32: in a location at a fixed offset of whole minutes the search returns the first scheduled minute strictly
  after the given time, and the zero time exactly when none exists within nine calendar years.\<close>

theorem cron_next_exact:
  assumes "aligned c"
  shows "\<exists>r. Next s (fixed_zone c) after = Some r \<and>
    (case r of
       Some t \<Rightarrow> runs_at s (fixed_zone c) after t \<and> (\<forall>v. runs_at s (fixed_zone c) after v \<longrightarrow> t \<le> v)
     | None \<Rightarrow> \<forall>v. \<not> runs_at s (fixed_zone c) after v)"
  by (rule Next_exact [OF assms])

text \<open>09:30 on Mondays, searched from the first minute of year zero.\<close>

definition monday_morning :: Schedule where
  "monday_morning = \<lparr>minute_set = push_bit 30 1, hour_set = push_bit 9 1, dom_set = full 1 31, month_set = full 1 12,
     dow_set = push_bit 1 1, domStar = True, dowStar = False, expr_text = ''30 9 * * 1''\<rparr>"

theorem cron_next_exact_witness:
  "Next monday_morning (fixed_zone 0) 1 = Some (Some (2 * ns_day + 9 * ns_hour + 30 * ns_minute)) \<and>
   runs_at monday_morning (fixed_zone 0) 1 (2 * ns_day + 9 * ns_hour + 30 * ns_minute) \<and>
   Next (monday_morning\<lparr>month_set := 0\<rparr>) (fixed_zone 0) 1 = Some None"
proof -
  have a: "aligned 0" by simp
  have n: "Next monday_morning (fixed_zone 0) 1 = Some (Some (2 * ns_day + 9 * ns_hour + 30 * ns_minute))"
    by code_simp
  have "Next (monday_morning\<lparr>month_set := 0\<rparr>) (fixed_zone 0) 1 = Some None"
    by code_simp
  with n cron_next_exact [OF a, of monday_morning 1] show ?thesis by auto
qed

text \<open>C33: neither parsing nor the search can run forever: every text parses to a schedule or an error, and in any
  location whose offsets are bounded, daylight saving included, the search returns, either the zero time or a later
  instant that the schedule names.\<close>

theorem cron_search_ends:
  assumes "\<forall>t. \<bar>offset_at loc t\<bar> \<le> b"
  shows "(\<exists>p. Parse text = Some p) \<and> (\<exists>r. Next s loc after = Some r \<and>
    (\<forall>t. r = Some t \<longrightarrow> after < t \<and> scheduled s loc t \<and> Year loc t \<le> Year loc after + nextSearchYears))"
  using Parse_ends [of "text"] Next_ends [of loc b s after] assms by simp

text \<open>A zone whose clocks go forward an hour at the start of its second day.\<close>

definition spring_forward :: location where
  "spring_forward = \<lparr>offset_at = (\<lambda>t. if t < ns_day then 0 else ns_hour),
     at_wall = (\<lambda>w. if w < ns_day then w else w - ns_hour)\<rparr>"

theorem cron_search_ends_witness:
  "(\<exists>p. Parse ''30 9 * * mon'' = Some p) \<and>
   Next monday_morning spring_forward 1 = Some (Some (2 * ns_day + 8 * ns_hour + 30 * ns_minute)) \<and>
   scheduled monday_morning spring_forward (2 * ns_day + 8 * ns_hour + 30 * ns_minute)"
proof -
  have "\<forall>t. \<bar>offset_at spring_forward t\<bar> \<le> ns_hour" by (simp add: spring_forward_def less_imp_le)
  note ends = cron_search_ends [OF this, of "''30 9 * * mon''" monday_morning 1]
  have "Next monday_morning spring_forward 1 = Some (Some (2 * ns_day + 8 * ns_hour + 30 * ns_minute))"
    by code_simp
  with ends show ?thesis by auto
qed

text \<open>A step near the largest integer wraps the loop counter: \<open>59/9223372036854775807\<close> names minute 59 only, but
  the parsed set also holds minute 57.\<close>

lemma huge_step_wraps:
  "map_option (map_sum id (\<lambda>m. (has_bit m 59, has_bit m 58, has_bit m 57)))
     (parseItem ''59/9223372036854775807'' 0 59 []) = Some (Inr (True, False, True))"
  by code_simp

end
