(* ===== verification/Context_Properties.thy ===== *)
theory Context_Properties
  imports Compaction Prune
begin

text \<open>
  What the compaction of a transcript keeps: the tail is the longest that fits its budget, a
  compacted transcript is still one a provider accepts and still asks the newest question, and
  pruning touches old or repeated tool output only.  The last section records three places
  where the code does not do what its comments say.
\<close>

lemma replayable_frames:
  "list_all2 same_frame xs ys \<Longrightarrow> replayable a xs = replayable a ys"
proof (induction xs ys arbitrary: a rule: list_all2_induct)
  case (Cons x xs y ys)
  have "msg_role x = msg_role y \<and> msg_callID x = msg_callID y \<and> msg_calls x = msg_calls y"
    using Cons.hyps(1) by (cases x; cases y) (simp add: same_frame_def)
  then show ?case using Cons.IH by (simp split: MessageRole.split)
qed simp

lemma prune_frames: "list_all2 same_frame (fst (pruneStaleToolOutput ms n)) ms"
proof -
  have "same_frame (fst (pruneStaleToolOutput ms n) ! i) (ms ! i)" if "i < length ms" for i
    using prune_nth [OF that, of n] put_body_frame [of _ i "ms ! i"] by (auto simp: same_frame_def)
  then show ?thesis by (simp add: list_all2_conv_all_nth prune_length)
qed

section \<open>Properties\<close>

text \<open>C34: The tail that a compaction keeps starts at or before the newest user turn, holds no more than the budget
  or, when that turn alone is larger, than that turn, and without a cap on turns it is the longest such tail that
  starts at or after the first user turn.\<close>

theorem tail_is_longest:
  assumes "user_starts ms h \<noteq> []"
  shows "hd (user_starts ms h) \<le> planTail ms h tt budget \<and> planTail ms h tt budget \<le> last (user_starts ms h) \<and>
    tokens_from ms (planTail ms h tt budget) \<le> max budget (tokens_from ms (last (user_starts ms h))) \<and>
    (tt \<le> 0 \<longrightarrow> (\<forall>k. hd (user_starts ms h) \<le> k \<and> k \<le> last (user_starts ms h) \<longrightarrow>
       (planTail ms h tt budget \<le> k \<longleftrightarrow>
        tokens_from ms k \<le> max budget (tokens_from ms (last (user_starts ms h))))))"
  by (rule planTail_fits [OF assms])

definition said :: "MessageRole \<Rightarrow> string \<Rightarrow> Message" where
  "said role txt = (user_message txt)\<lparr>msg_role := role\<rparr>"

definition demo_call :: ToolCall where
  "demo_call = \<lparr>call_ID = ''c1'', call_Name = ''grep'', call_Arguments = ''{}'', call_Signature = []\<rparr>"

definition demo_chat :: "Message list" where
  "demo_chat = [said RoleSystem ''rules'', said RoleUser ''fix the failing test'',
     (said RoleAssistant ''looking'')\<lparr>msg_calls := [demo_call]\<rparr>, (said RoleTool ''main.go: 12'')\<lparr>msg_callID := ''c1''\<rparr>,
     said RoleAssistant ''done'', said RoleUser ''now the docs'', said RoleAssistant ''ok'']"

theorem tail_is_longest_witness:
  "planTail demo_chat 1 (-1) 20 = 4 \<and> tokens_from demo_chat 4 = 15 \<and> tokens_from demo_chat 3 = 21 \<and>
   planTail demo_chat 1 (-1) 20 \<le> last (user_starts demo_chat 1)"
proof -
  have "user_starts demo_chat 1 \<noteq> []" by code_simp
  from tail_is_longest [OF this, of "-1" 20] have "planTail demo_chat 1 (-1) 20 \<le> last (user_starts demo_chat 1)"
    by (elim conjE)
  moreover have "planTail demo_chat 1 (-1) 20 = 4" "tokens_from demo_chat 4 = 15" "tokens_from demo_chat 3 = 21"
    by code_simp+
  ultimately show ?thesis by simp
qed

text \<open>C35: A compaction of a transcript in which every tool result answers a call of the assistant message before it
  gives such a transcript again: the system messages at its head, then one user message whose text is what the options
  attach to the labelled summary, and then the tail, unchanged; the summary has the required shape and headings, and the
  counts reported add up.  The tail of a budgeted compaction (\<open>TailTurns\<close> not zero) never starts after the newest user
  turn.  The legacy tail keeps at least \<open>PreserveLast\<close> messages, which need not reach back to that turn
  (\<open>default_preserve_count_ignored\<close> below).\<close>

theorem compaction_keeps_replay:
  assumes "CompactMessages ms opts = Some (Inr r)" "replayable [] ms"
  shows "replayable [] (Messages r) \<and> RemovedCount r + PreservedCount r = length ms \<and>
    (if Compacted r
     then let h = system_end ms; b = h + RemovedCount r
       in Messages r = take h ms @ [user_message (Attach opts h b (slice ms h b) (summaryLabel @ newline # SummaryText r))] @
            drop b ms \<and>
          h < b \<and> b \<le> length ms \<and> validCompactionSummary (SummaryText r) \<and>
          (if TailTurns opts \<noteq> 0 then user_starts ms h \<noteq> [] \<and> b \<le> last (user_starts ms h)
           else int b \<le> int (length ms) - PreserveLast opts)
     else Messages r = ms)"
  using CompactMessages_result [OF assms(1)]
proof (elim disjE exE conjE)
  assume "r = kept_whole ms"
  then show ?thesis using compact_replayable [OF assms] by (simp add: kept_whole_def)
next
  fix boundary b
  assume b: "raw_boundary ms opts = Some boundary" "b = safe_boundary ms boundary" "Compacted r" "system_end ms < b"
      "b \<le> length ms" "RemovedCount r = b - system_end ms" "PreservedCount r = length ms - RemovedCount r"
      "validCompactionSummary (SummaryText r)"
    and r: "Messages r = compacted_messages ms (Attach opts (system_end ms) b (slice ms (system_end ms) b)
        (summaryLabel @ newline # SummaryText r)) b"
  have e: "system_end ms + RemovedCount r = b" using b(4,6) by simp
  have "int b \<le> int (length ms) - PreserveLast opts" if "TailTurns opts = 0"
    using that b(1,2,4) safe_boundary_props(1) [of ms boundary] by (simp add: raw_boundary_def)
  then show ?thesis
    using compact_replayable [OF assms] b r budgeted_boundary [OF b(1)] unfolding Let_def e
    by (simp add: compacted_messages_def)
qed

definition demo_summary :: string where
  "demo_summary = ''## Objective'' @ newline # ''- fix the test'' @ newline # ''## Next Move'' @ newline # ''- docs''"

definition demo_options :: CompactionOptions where
  "demo_options = \<lparr>PreserveLast = 12, TailTurns = -1, TailTokenBudget = 20, ContextWindow = 0,
     Summarize = Some (\<lambda>_. Inr demo_summary), Attach = (\<lambda>_ _ _ txt. txt)\<rparr>"

definition demo_compacted :: CompactionResult where
  "demo_compacted = \<lparr>Messages = [said RoleSystem ''rules'', user_message (summaryLabel @ newline # demo_summary),
       said RoleAssistant ''done'', said RoleUser ''now the docs'', said RoleAssistant ''ok''],
     RemovedCount = 3, PreservedCount = 4, SummaryText = demo_summary, Compacted = True\<rparr>"

theorem compaction_keeps_replay_witness:
  "CompactMessages demo_chat demo_options = Some (Inr demo_compacted) \<and> replayable [] (Messages demo_compacted) \<and>
   Messages demo_compacted = take 1 demo_chat @ [user_message (summaryLabel @ newline # demo_summary)] @ drop 4 demo_chat \<and>
   4 \<le> last (user_starts demo_chat 1)"
proof -
  have c: "CompactMessages demo_chat demo_options = Some (Inr demo_compacted)" by code_simp
  have r: "replayable [] demo_chat" by code_simp
  have s: "Compacted demo_compacted" "RemovedCount demo_compacted = 3" "SummaryText demo_compacted = demo_summary"
    "TailTurns demo_options \<noteq> 0" "system_end demo_chat = 1" "Attach demo_options = (\<lambda>_ _ _ txt. txt)"
    by (simp_all add: demo_compacted_def demo_options_def demo_chat_def said_def user_message_def system_end_def)
  note keeps = compaction_keeps_replay [OF c r]
  have k: "replayable [] (Messages demo_compacted)" using keeps by (rule conjunct1)
  have "Messages demo_compacted = take 1 demo_chat @ [user_message (summaryLabel @ newline # demo_summary)] @ drop 4 demo_chat"
    "4 \<le> last (user_starts demo_chat 1)"
    using keeps s by (simp_all add: Let_def)
  then show ?thesis using c k by blast
qed

text \<open>C36: Pruning changes message bodies only, lowers the estimate by exactly what it reports, which is nothing or
  at least the threshold, and replaces a body by a shorter one only in an unprotected tool result that is no
  placeholder yet, and that either occurs again later or is followed by a full window of tool output.\<close>

theorem pruning_is_justified:
  assumes "i < length ms"
  shows "length (fst (pruneStaleToolOutput ms n)) = length ms \<and>
    estimateTokens (fst (pruneStaleToolOutput ms n)) = estimateTokens ms - snd (pruneStaleToolOutput ms n) \<and>
    (snd (pruneStaleToolOutput ms n) = 0 \<or> pruneMinReclaimTokens \<le> snd (pruneStaleToolOutput ms n)) \<and>
    replayable [] (fst (pruneStaleToolOutput ms n)) = replayable [] ms \<and>
    (fst (pruneStaleToolOutput ms n) ! i = ms ! i \<or>
     (\<exists>body. fst (pruneStaleToolOutput ms n) ! i = (ms ! i)\<lparr>msg_content := body\<rparr> \<and>
        justified ms (protect_from ms n) (toolNamesByCallID ms) i body))"
  using prune_length [of ms n] prune_tokens [of ms n] prune_threshold [of ms n] prune_changes [OF assms, of n]
    replayable_frames [OF prune_frames [of ms n]] by blast

text \<open>Large bodies, kept opaque.\<close>

definition big_body :: "nat \<Rightarrow> string" where
  "big_body k = replicate k (CHR ''x'')"

definition big_result :: "nat \<Rightarrow> Message" where
  "big_result k = said RoleTool (big_body k)"

lemma big_body_simps [simp]:
  "ApproxTextTokens (big_body k) = int k div 4" "\<not> isPrunedPlaceholder (big_body k)"
  "big_body k = big_body l \<longleftrightarrow> k = l"
proof -
  show "ApproxTextTokens (big_body k) = int k div 4"
    by (simp add: ApproxTextTokens_def big_body_def is_space_def)
  have "trim_space (big_body k) = big_body k" by (rule trim_space_word) (simp add: big_body_def is_space_def)
  then show "\<not> isPrunedPlaceholder (big_body k)"
    by (cases k) (simp_all add: isPrunedPlaceholder_def big_body_def)
  show "big_body k = big_body l \<longleftrightarrow> k = l" by (simp add: big_body_def)
qed

lemma big_result_simps [simp]:
  "msg_role (big_result k) = RoleTool" "msg_content (big_result k) = big_body k" "msg_callID (big_result k) = []"
  "msg_calls (big_result k) = []"
  by (simp_all add: big_result_def said_def user_message_def)

definition pruned_result :: "string \<Rightarrow> Message" where
  "pruned_result txt = said RoleTool txt"

lemma put_big_result [simp]: "(big_result k)\<lparr>msg_content := txt\<rparr> = pruned_result txt"
  by (simp add: big_result_def pruned_result_def said_def user_message_def)

definition duplicate_note :: string where "duplicate_note = duplicatePlaceholder [] 30000"
definition stale_note :: string where "stale_note = prunedPlaceholder [] 30000"

lemma itoa_30000: "itoa 30000 = ''30000''"
  by (simp add: itoa.simps; code_simp)

lemma note_texts:
  "duplicate_note = ''[pruned duplicate tool output (~30000 tokens) '' @ em_dash @ '' identical to a later result still in context]''"
  "stale_note = ''[pruned tool output (~30000 tokens) to reclaim context '' @ em_dash @ '' re-run the tool if you need it again]''"
  by (simp_all add: duplicate_note_def stale_note_def duplicatePlaceholder_def prunedPlaceholder_def toolLabel_def itoa_30000)

lemma note_simps [simp]:
  "ApproxTextTokens duplicate_note = 20" "ApproxTextTokens stale_note = 20" "isPrunedPlaceholder duplicate_note"
  unfolding note_texts by code_simp+

lemmas prune_unfold = pruneStaleToolOutput_def all_replacements_def toolNamesByCallID_def Let_def name_of_def
  result_key_def record_body_def duplicate_note_def [symmetric] stale_note_def [symmetric]
  pruneMinBodyTokens_def pruneMinReclaimTokens_def pruneProtectRecentTokens_def upt_rec put_body_def saved_at_def

theorem pruning_is_justified_witness:
  "pruneStaleToolOutput [big_result 120000, big_result 160000] 0 = ([pruned_result stale_note, big_result 160000], 29980) \<and>
   estimateTokens [pruned_result stale_note, big_result 160000] = estimateTokens [big_result 120000, big_result 160000] - 29980"
proof -
  have p: "pruneStaleToolOutput [big_result 120000, big_result 160000] 0 =
      ([pruned_result stale_note, big_result 160000], 29980)"
    by (simp add: prune_unfold)
  have "0 < length [big_result 120000, big_result 160000]" by simp
  from pruning_is_justified [OF this, of 0] p show ?thesis by simp
qed

section \<open>Limits\<close>

text \<open>The pointer left for a duplicate says that a later copy is still in context, but the second loop may have
  dropped that copy.\<close>

lemma duplicate_pointer_dangles:
  "fst (pruneStaleToolOutput [big_result 120000, big_result 120000, big_result 160000] 0) =
     [pruned_result duplicate_note, pruned_result stale_note, big_result 160000]"
  by (simp add: prune_unfold)

lemma pruned_result_simps [simp]:
  "msg_role (pruned_result txt) = RoleTool" "msg_content (pruned_result txt) = txt" "msg_callID (pruned_result txt) = []"
  "msg_calls (pruned_result txt) = []"
  by (simp_all add: pruned_result_def said_def user_message_def)

text \<open>Pruning twice prunes more than pruning once: the placeholder left for a duplicate counts as recent output in
  the second run, where the duplicate itself was skipped in the first, and this ends the protected window earlier.\<close>

lemma pruning_is_not_idempotent:
  "pruneStaleToolOutput [big_result 120000, big_result 39960, big_result 120001, big_result 120001] 0 =
     ([big_result 120000, big_result 39960, pruned_result duplicate_note, big_result 120001], 29980)"
  "pruneStaleToolOutput [big_result 120000, big_result 39960, pruned_result duplicate_note, big_result 120001] 0 =
     ([pruned_result stale_note, big_result 39960, pruned_result duplicate_note, big_result 120001], 29980)"
  by (simp_all add: prune_unfold)

text \<open>A preserve count of zero is documented to mean the default of twelve messages.  The count that is used is the one
  given: nothing is preserved, the newest question included, and a negative count slices out of range.\<close>

lemma default_preserve_count_ignored:
  "map_option (map_sum id Messages) (CompactMessages demo_chat (demo_options\<lparr>TailTurns := 0, PreserveLast := 0\<rparr>)) =
     Some (Inr [said RoleSystem ''rules'', user_message (summaryLabel @ newline # demo_summary)])"
  "CompactMessages demo_chat (demo_options\<lparr>TailTurns := 0, PreserveLast := -1\<rparr>) = None"
  by code_simp+

end
