(* ===== verification/Approval_Properties.thy ===== *)
theory Approval_Properties
  imports Shell_Tools Demo_Host
begin

text \<open>
  What an approved command prefix lets through, from the tree of the script to the words the bash
  tool runs, and that the prefix a prompt proposes is one the same command matches afterwards.
\<close>

section \<open>Lemmas\<close>

lemma approval_of_covers:
  assumes "approval_of w engine toolName tokens = Some (g, session)"
  shows "hasStringPrefix tokens (Prefix g)"
proof (cases "Engine_LookupCommandPrefix w engine toolName tokens")
  case (Some h)
  with assms have "g = h" by (simp add: approval_of_def)
  with Some show ?thesis
    by (auto simp: Engine_LookupCommandPrefix_def GrantStore_LookupCommandPrefix_def split: option.splits sum.splits if_splits
        dest: find_Some_member)
next
  case None
  with assms have "Engine_LookupCommandPrefixForSession engine toolName tokens = Some g"
    by (auto simp: approval_of_def)
  then show ?thesis
    by (auto simp: Engine_LookupCommandPrefixForSession_def commandPrefixGrantSet_match_def split: option.splits if_splits
        dest: find_Some_member)
qed

lemma approved_prefix_member:
  "(g, session) \<in> set (approvals w engine toolName segs) \<Longrightarrow> \<exists>tokens \<in> set segs. hasStringPrefix tokens (Prefix g)"
  using approval_of_covers by (force simp: map_filter_def)

lemma firstStringArg_other: "key \<notin> set keys \<Longrightarrow> firstStringArg (as(key \<mapsto> v)) keys = firstStringArg as keys"
  by (induction keys) (auto simp: Let_def split: option.split arg_value.split)

lemma escalated_firstStringArg:
  "firstStringArg (as(''sandbox_permissions'' \<mapsto> v)) shell_command_keys = firstStringArg as shell_command_keys"
  by (rule firstStringArg_other) (simp add: shell_command_keys_def)

lemma bash_launch_reviewed:
  assumes "bash_launch os numeric as engine = Inr (c, engine')" "trim_space c \<noteq> []"
  shows "firstStringArg as shell_command_keys = Some (trim_space c)"
  using bashCommandArg_reviewed [OF bash_launch_command [OF assms(1)] assms(2)] by simp

section \<open>Properties\<close>

text \<open>C15: A bash command that runs on an approved prefix was reviewed word by word: the script the tool starts parses to
  plain statements joined by \<open>;\<close>, \<open>&&\<close>, \<open>||\<close> or pipes whose calls are literal words, each of
  these calls begins with an approved prefix or is known to be safe, and the approval that is reported covers one of
  them.  This holds also when the gate added the request to leave the sandbox.\<close>

theorem approved_bash_script_is_reviewed:
  assumes "matchCommandPrefix w windows parse ''bash'' as engine = Some (g, session)"
    "as' = as \<or> as' = as(''sandbox_permissions'' \<mapsto> ArgString ''require_escalated'')"
    "bash_launch os numeric as' engine' = Inr (c, engine'')" "trim_space c \<noteq> []"
  shows "\<exists>stmts segs. parse (trim_space c) = Some stmts \<and> list_all plain_stmt stmts
    \<and> call_tokens_of (List.concat (List.map stmt_calls stmts)) = Some segs
    \<and> list_all (\<lambda>tokens. knownSafeCommandSegment windows tokens
        \<or> (\<exists>h s. approval_of w engine ''bash'' tokens = Some (h, s) \<and> hasStringPrefix tokens (Prefix h))) segs
    \<and> list_ex (\<lambda>tokens. hasStringPrefix tokens (Prefix g)) segs"
proof -
  obtain command segs rest where m: "firstStringArg as shell_command_keys = Some command"
    "safeShellCommandSegments parse command = Some segs" "list_all (reviewed w windows engine ''bash'') segs"
    "List.map fst (approvals w engine ''bash'' segs) = g # rest"
    using assms(1) by (auto simp: matchCommandPrefix_iff simp del: map_eq_Cons_conv)
  have "firstStringArg as' shell_command_keys = firstStringArg as shell_command_keys"
    using assms(2) escalated_firstStringArg by auto
  with m(1) bash_launch_reviewed [OF assms(3,4)] have "command = trim_space c" by simp
  with m(2) obtain stmts where "parse (trim_space c) = Some stmts" "list_all plain_stmt stmts"
    "call_tokens_of (List.concat (List.map stmt_calls stmts)) = Some segs"
    unfolding safeShellCommandSegments_iff by auto
  moreover have "list_all (\<lambda>tokens. knownSafeCommandSegment windows tokens
      \<or> (\<exists>h s. approval_of w engine ''bash'' tokens = Some (h, s) \<and> hasStringPrefix tokens (Prefix h))) segs"
    using m(3) by (auto simp: list_all_iff reviewed_def dest: approval_of_covers)
  moreover have "g \<in> fst ` set (approvals w engine ''bash'' segs)"
    using m(4) by (metis list.set_intros(1) list.set_map)
  then have "list_ex (\<lambda>tokens. hasStringPrefix tokens (Prefix g)) segs"
    by (auto simp: list_ex_iff dest: approved_prefix_member)
  ultimately show ?thesis by blast
qed

definition plain_script :: stmt_parser where
  "plain_script script = Some [Stmt False False False False 0 (CallExpr 0 (List.map (\<lambda>f. [Lit f]) (str_fields script)))]"

definition approving_engine :: "Engine option" where
  "approving_engine = Engine_GrantCommandPrefixForSession ''bash'' [''go'', ''test''] (Some (demo_engine None))"

theorem approved_bash_script_is_reviewed_witness:
  "\<exists>stmts segs. plain_script ''go test ./x'' = Some stmts \<and> list_all plain_stmt stmts
    \<and> call_tokens_of (List.concat (List.map stmt_calls stmts)) = Some segs
    \<and> list_all (\<lambda>tokens. knownSafeCommandSegment False tokens
        \<or> (\<exists>h s. approval_of demo_world approving_engine ''bash'' tokens = Some (h, s) \<and> hasStringPrefix tokens (Prefix h))) segs
    \<and> list_ex (\<lambda>tokens. hasStringPrefix tokens [''go'', ''test'']) segs"
proof -
  have m: "map_option (\<lambda>(g, s). (Prefix g, s)) (matchCommandPrefix demo_world False plain_script ''bash''
      [''command'' \<mapsto> ArgString '' go test ./x ''] approving_engine) = Some ([''go'', ''test''], True)" by code_simp
  then obtain g where g: "matchCommandPrefix demo_world False plain_script ''bash''
      [''command'' \<mapsto> ArgString '' go test ./x ''] approving_engine = Some (g, True)" "Prefix g = [''go'', ''test'']"
    by auto
  have l: "bash_launch demo_os None [''command'' \<mapsto> ArgString '' go test ./x ''] None = Inr ('' go test ./x '', None)"
    by code_simp
  have t: "trim_space '' go test ./x '' = ''go test ./x''" by code_simp
  from approved_bash_script_is_reviewed [OF g(1) disjI1 [OF refl] l] g(2) show ?thesis unfolding t by simp
qed

text \<open>A proposed prefix matches the command it was proposed for: once the prefix of a prompt is approved for the
  session, the same call needs no prompt any more, as long as no word of the prefix begins or ends with a blank.\<close>

theorem proposed_prefix_matches_again:
  assumes "proposedCommandPrefix windows parse toolName as rule = p" "p \<noteq> []" "List.map trim_space p = p"
    "\<not> shellCommandAdditionalPermissionsRequested as"
  shows "matchCommandPrefix w windows parse toolName as (Engine_GrantCommandPrefixForSession toolName p (Some e)) \<noteq> None"
proof -
  let ?engine = "Engine_GrantCommandPrefixForSession toolName p (Some e)"
  obtain command segs where c: "isShellCommandTool toolName" "firstStringArg as shell_command_keys = Some command"
    "safeShellCommandSegments parse command = Some segs" "ValidCommandPrefix p"
    "list_ex (\<lambda>c. hasStringPrefix c p) segs"
    "list_all (\<lambda>c. hasStringPrefix c p \<or> knownSafeCommandSegment windows c) segs"
    by (rule proposedCommandPrefix_covers [OF assms(1,2)])
  have "toolName \<noteq> []" using c(1) by (auto simp: isShellCommandTool_def)
  then have found: "approval_of w ?engine toolName tokens \<noteq> None" if "hasStringPrefix tokens p" for tokens
    using session_prefix_found [OF c(4) assms(3) _ that] by (auto simp: approval_of_def split: option.split)
  have "list_all (reviewed w windows ?engine toolName) segs"
    using c(6) found by (auto simp: list_all_iff reviewed_def)
  moreover have "approvals w ?engine toolName segs \<noteq> []"
    using c(5) found by (force simp: list_ex_iff map_filter_def filter_empty_conv)
  then obtain g s rest where "approvals w ?engine toolName segs = (g, s) # rest" by (metis neq_Nil_conv surj_pair)
  moreover have "?engine \<noteq> None" by (simp add: Engine_GrantCommandPrefixForSession_def split: option.split)
  ultimately have "matchCommandPrefix w windows parse toolName as ?engine =
      Some (g, list_ex snd (approvals w ?engine toolName segs))"
    using c assms(4) by (simp add: matchCommandPrefix_iff)
  then show ?thesis by simp
qed

theorem proposed_prefix_matches_again_witness:
  "matchCommandPrefix demo_world False plain_script ''bash'' [''command'' \<mapsto> ArgString ''go test ./x'']
     (Engine_GrantCommandPrefixForSession ''bash'' [''go'', ''test''] (Some (demo_engine None))) \<noteq> None"
  by (rule proposed_prefix_matches_again [where rule = "Some (Rule_Strings [''go'', ''test''])"]; code_simp)

end
