(* ===== verification/Rule_Match.thy ===== *)
theory Rule_Match
  imports Permission_Rules
begin

text \<open>
  What the documentation of the harness rules promises, stated apart from the code that evaluates
  them: the texts a pattern stands for, the calls a rule covers, and the rule that decides.
\<close>

section \<open>Patterns\<close>

text \<open>The texts a parsed pattern stands for.\<close>

inductive fits :: "glob_item list \<Rightarrow> string \<Rightarrow> bool" where
  fits_nil: "fits [] []"
| fits_star: "slash \<notin> set u \<Longrightarrow> fits items v \<Longrightarrow> fits (Glob_Star # items) (u @ v)"
| fits_any: "c \<noteq> slash \<Longrightarrow> fits items v \<Longrightarrow> fits (Glob_Any # items) (c # v)"
| fits_class: "((\<exists>(lo, hi) \<in> set ranges. lo \<le> c \<and> c \<le> hi) \<longleftrightarrow> \<not> neg) \<Longrightarrow> fits items v \<Longrightarrow>
    fits (Glob_Class neg ranges # items) (c # v)"
| fits_char: "fits items v \<Longrightarrow> fits (Glob_Char c # items) (c # v)"

inductive_simps fits_Nil_iff: "fits [] s"
inductive_cases fits_starE: "fits (Glob_Star # items) s"
inductive_simps fits_any_iff: "fits (Glob_Any # items) s"
inductive_simps fits_class_iff: "fits (Glob_Class neg ranges # items) s"
inductive_simps fits_char_iff: "fits (Glob_Char c # items) s"

lemma fits_star_iff:
  "fits (Glob_Star # items) [] \<longleftrightarrow> fits items []"
  "fits (Glob_Star # items) (c # s) \<longleftrightarrow> fits items (c # s) \<or> c \<noteq> slash \<and> fits (Glob_Star # items) s"
proof -
  show "fits (Glob_Star # items) [] \<longleftrightarrow> fits items []"
    using fits_star [of "[]" items "[]"] by (auto elim: fits_starE)
  show "fits (Glob_Star # items) (c # s) \<longleftrightarrow> fits items (c # s) \<or> c \<noteq> slash \<and> fits (Glob_Star # items) s"
  proof
    assume "fits (Glob_Star # items) (c # s)"
    then obtain u v where uv: "c # s = u @ v" "slash \<notin> set u" "fits items v" by (rule fits_starE)
    show "fits items (c # s) \<or> c \<noteq> slash \<and> fits (Glob_Star # items) s"
    proof (cases u)
      case Nil
      then show ?thesis using uv by simp
    next
      case (Cons d w)
      then show ?thesis using uv fits_star [of w items v] by auto
    qed
  next
    assume "fits items (c # s) \<or> c \<noteq> slash \<and> fits (Glob_Star # items) s"
    then show "fits (Glob_Star # items) (c # s)"
    proof
      assume "fits items (c # s)"
      then show ?thesis using fits_star [of "[]" items "c # s"] by simp
    next
      assume r: "c \<noteq> slash \<and> fits (Glob_Star # items) s"
      then obtain u v where "s = u @ v" "slash \<notin> set u" "fits items v" by (auto elim: fits_starE)
      then show ?thesis using fits_star [of "c # u" items v] conjunct1 [OF r] by simp
    qed
  qed
qed

lemma glob_matches_fits: "glob_matches items s \<longleftrightarrow> fits items s"
proof (induction items s rule: glob_matches.induct)
  case (1 s)
  then show ?case by (simp add: fits_Nil_iff)
qed (auto simp: fits_star_iff fits_any_iff fits_class_iff fits_char_iff list_ex_iff)

section \<open>The calls a rule covers\<close>

text \<open>
  A rule covers a call when it is enabled, its pattern is the name of the tool, \<open>*\<close> or a pattern the
  name fits, it names no side effect or that of the tool, no minimal risk above the risk of the call,
  and only texts that occur in the command.
\<close>

definition rule_covers :: "world \<Rightarrow> string \<Rightarrow> Tool \<Rightarrow> args \<Rightarrow> PermissionMode \<Rightarrow> HarnessPermissionRule \<Rightarrow> bool" where
  "rule_covers w name tool as mode rule \<longleftrightarrow>
     Enabled rule \<noteq> Some False \<and> trim_space (Match rule) \<noteq> []
     \<and> (trim_space (Match rule) \<in> {name, ''*''}
        \<or> (\<exists>items. parse_glob (trim_space (Match rule)) = Some items \<and> fits items name))
     \<and> (trim_space (rule_SideEffect rule) = []
        \<or> equal_fold (trim_space (rule_SideEffect rule)) (SideEffect_string (safety_sideEffect tool)))
     \<and> (\<forall>l. to_lower (trim_space (MinRisk rule)) = RiskLevel_string l \<longrightarrow>
          l \<le> Level (classify_raw w (sandboxRequest name tool as False mode)))
     \<and> (\<forall>needle \<in> set (CommandContains rule).
          \<exists>a b. permissionRuleCommandText as = a @ trim_space needle @ b)"

lemma risk_rank_name: "permissionRuleRiskRank (RiskLevel_string l) < permissionRuleRiskRank m \<longleftrightarrow>
    (\<exists>k. m = RiskLevel_string k \<and> l < k)"
proof -
  have other: "permissionRuleRiskRank m = 0 \<and> (\<nexists>k. m = RiskLevel_string k)"
    if "m \<notin> {''low'', ''medium'', ''high'', ''critical''}"
  proof -
    have "RiskLevel_string k \<in> {''low'', ''medium'', ''high'', ''critical''}" for k by (cases k) simp_all
    then show ?thesis using that by (auto simp: permissionRuleRiskRank_def)
  qed
  have rank: "permissionRuleRiskRank (RiskLevel_string k) = Suc (riskRank k)" for k
    by (cases k) (simp_all add: permissionRuleRiskRank_def)
  have inj: "RiskLevel_string j = RiskLevel_string k \<longleftrightarrow> j = k" for j k by (cases j; cases k; simp)
  show ?thesis
  proof (cases "\<exists>k. m = RiskLevel_string k")
    case True
    then show ?thesis by (auto simp: rank inj less_RiskLevel_def)
  next
    case False
    then have "m \<notin> {''low'', ''medium'', ''high'', ''critical''}"
      by (metis RiskLevel_string.simps insertE empty_iff)
    then show ?thesis using other by auto
  qed
qed

lemma trim_twice [simp]: "trim_space (trim_space s) = trim_space s"
  by (rule trim_space_idem)

lemma wildcardMatch_iff:
  "wildcardMatch p name \<longleftrightarrow> trim_space p \<noteq> [] \<and>
     (trim_space p \<in> {name, ''*''} \<or> (\<exists>items. parse_glob (trim_space p) = Some items \<and> fits items name))"
  by (auto simp: wildcardMatch_def path_Match_def Let_def glob_matches_fits split: option.split)

lemma rule_covers_iff:
  "rule_covers w name tool as mode rule \<longleftrightarrow> IsEnabled rule \<and> trim_space (Match rule) \<noteq> [] \<and>
     permissionRuleMatches rule name (SideEffect_string (safety_sideEffect tool))
       (classify_raw w (sandboxRequest name tool as False mode)) (permissionRuleCommandText as)"
proof -
  have en: "Enabled rule \<noteq> Some False \<longleftrightarrow> IsEnabled rule" by (cases "Enabled rule") (auto simp: IsEnabled_def)
  have names: "RiskLevel_string l \<noteq> []" "[] \<noteq> RiskLevel_string l" for l by (cases l; simp)+
  have occurs: "(\<exists>a b. s = a @ n @ b) \<longleftrightarrow> n = [] \<or> contains s n" for s n :: string
    by (cases "n = []") (auto simp: contains_iff intro: exI [of _ "[]"])
  show ?thesis
    unfolding rule_covers_def permissionRuleMatches_def Let_def en wildcardMatch_iff risk_rank_name trim_twice occurs
    using names by (auto simp: list_all_iff not_le)
qed

lemma permissionRuleAction_None:
  "permissionRuleAction a = None \<longleftrightarrow> to_lower (trim_space a) \<notin> {''allow'', ''ask'', ''prompt'', ''deny''}"
  by (simp add: permissionRuleAction_def Let_def)

section \<open>The rule that decides\<close>

lemma find_rev_filter:
  assumes "Q r" "P r" "\<forall>x \<in> set post. Q x \<longrightarrow> \<not> P x"
  shows "find P (rev (filter Q (pre @ r # post))) = Some r"
proof -
  have "find P (xs @ r # ys) = Some r" if "\<forall>x \<in> set xs. \<not> P x" for xs ys
    using that assms(2) by (induction xs) auto
  then show ?thesis using assms by simp
qed

text \<open>The last rule of the list that covers the call and has a known action decides.\<close>

lemma last_rule_decides:
  assumes "rule_covers w name tool as mode rule" "permissionRuleAction (rule_Action rule) = Some action"
    and "\<forall>r \<in> set post. \<not> rule_covers w name tool as mode r \<or>
      to_lower (trim_space (rule_Action r)) \<notin> {''allow'', ''ask'', ''prompt'', ''deny''}"
  shows "evaluatePermissionRules w (pre @ rule # post) name tool as mode = Some (action, rule_reason rule)"
proof -
  have known: "trim_space a \<noteq> []" if "permissionRuleAction a = Some x" for a x
    using that by (auto simp: permissionRuleAction_def Let_def to_lower_def)
  show ?thesis
    using assms unfolding evaluatePermissionRules_def enabledPermissionRules_def Let_def rule_covers_iff
      permissionRuleAction_None [symmetric]
    by (subst find_rev_filter) (auto dest: known)
qed

end
