(* ===== verification/Gate_Properties.thy ===== *)
theory Gate_Properties
  imports Gate_Undo Demo_Host Rule_Match
begin

text \<open>
  What the path of a tool call from the model to the tool guarantees: nothing runs without a
  reason, a deny rule is final, a command leaves the sandbox only with an approval, what is offered
  to the user is honoured, and an approval for the turn is gone after the call.
\<close>

section \<open>Lemmas\<close>

lemma mode_name: "NormalizePermissionMode (PermissionMode_string mode) = mode"
proof -
  have "list_all (\<lambda>m. NormalizePermissionMode (PermissionMode_string m) = m)
      [PermissionModeAuto, PermissionModeAsk, PermissionUnsafe, PermissionModeAskAll, PermissionModeReadOnly,
       PermissionModeReadWrite, PermissionModeBypassAll]" by code_simp
  then show ?thesis by (cases mode) simp_all
qed

text \<open>The engine lets an escalated shell call through only with an approval.\<close>

lemma escalation_needs_grant:
  assumes "permitted_start w name tool mode s" "started_engine s = Some e" "shellCommandRequiresEscalated (started_args s)"
    "safety_sideEffect tool = SideEffectShell" "pol_mode (effectivePolicy e) \<noteq> ModeDisabled"
  shows "started_granted s"
proof (rule ccontr)
  assume ng: "\<not> started_granted s"
  let ?raw = "registry_request name tool (started_args s) (effectivePermission tool (started_args s)) (started_granted s) mode"
  have mode: "mode \<noteq> PermissionModeBypassAll" using assms(1,2) by (auto simp: permitted_start_def)
  have allow: "dec_action (Evaluate w None (Some e) ?raw) = ActionAllow"
    using assms(1,2) ng mode by (auto simp: permitted_start_def start_decision_def Let_def)
  have "enforcing e ?raw" using assms(5) mode
    by (simp add: enforcing_iff registry_request_def sandboxRequest_def mode_name)
  then have "escalation_gate (the_request e ?raw) (the_risk w e ?raw) = None" by (rule Evaluate_allow_gates(3) [OF allow])
  moreover have "NormalizeSideEffect (SideEffect_string SideEffectShell) = SideEffectShell" by code_simp
  moreover have "requestRequiresEscalatedSandbox (the_request e ?raw)"
    using assms(3) by (auto simp: requestRequiresEscalatedSandbox_def shellCommandRequiresEscalated_def
        registry_request_def sandboxRequest_def argString_def Let_def split: option.splits arg_value.splits)
  ultimately show False using ng assms(4)
    by (simp add: escalation_gate_def registry_request_def sandboxRequest_def split: if_splits)
qed

section \<open>Properties\<close>

text \<open>C7: No tool runs without a reason.  When a call of a tool other than \<open>ask_user\<close> (which is answered
  by the front end) starts a tool, the tool is registered and not filtered out,
  plan mode (when active) lets it through, no deny rule decides it, its arguments are those of the model or those
  of an escalated shell call; the sandbox it runs under did not deny it, and either its permission or the sandbox
  allows it by itself, or the call carries an approval that comes from the mode or its profile, an approved command
  prefix, an allow rule, or a decision of the user about a request he was shown.\<close>

theorem tool_runs_are_justified:
  assumes "s \<in> set (co_started (executeToolCall w registry opts call mode engine))" "call_Name call \<noteq> ''ask_user''"
  shows "\<exists>tool as. registry (call_Name call) = Some tool \<and> decodeCallArgs opts call = Inr as
    \<and> call_args as (started_args s)
    \<and> \<not> containsToolName (DisabledTools opts) (call_Name call)
    \<and> (call_Name call = ''tool_search'' \<or> EnabledTools opts = [] \<or> containsToolName (EnabledTools opts) (call_Name call))
    \<and> (PlanMode opts \<longrightarrow> \<not> planModeDenied (call_Name call) (Some tool))
    \<and> (\<nexists>reason. evaluatePermissionRules w (PermissionRules opts) (call_Name call) tool as mode = Some (ActionDeny, reason))
    \<and> permitted_start w (call_Name call) tool mode s
    \<and> (started_granted s \<longrightarrow> approval_source w opts (call_Name call) tool as mode engine
         (co_asked (executeToolCall w registry opts call mode engine)))"
proof -
  obtain tool as where tool: "registry (call_Name call) = Some tool" and as: "decodeCallArgs opts call = Inr as"
    and early: "early_refusal (w_os w) opts (call_Name call) (Some tool) as = None"
    and gate: "executeToolCall w registry opts call mode engine = gate_call w registry opts (call_Name call) tool as mode engine"
    by (rule executeToolCall_started [OF assms])
  from gate_call_started [OF assms(1) [unfolded gate] tool] early_refusal_None [OF early] tool as gate
  show ?thesis by metis
qed

text \<open>A demonstration: a shell tool, a run with a user who gives one answer, calls that carry a command.\<close>

definition demo_bash :: Tool where
  "demo_bash = \<lparr>safety_sideEffect = SideEffectShell, safety_permission = PermissionPrompt, safety_reason = ''runs a command'',
     PermissionForArgs = None, RejectBeforePermission = None, Capabilities = None, CapabilitiesForArgs = None,
     tool_run = (\<lambda>as engine. \<lparr>res_status = StatusOK, res_output = ''ok'', res_meta = (\<lambda>_. None),
       res_changed = [], res_images = [], SandboxDecision = None\<rparr>)\<rparr>"

definition demo_registry :: registry where
  "demo_registry = [''bash'' \<mapsto> demo_bash, ''exec_command'' \<mapsto> demo_bash]"

definition demo_stmts :: stmt_parser where
  "demo_stmts script = Some [Stmt False False False False 0
     (CallExpr 0 (List.map (\<lambda>f. [Lit f]) (str_fields script)))]"

definition demo_opts :: "PermissionDecisionAction option \<Rightarrow> HarnessPermissionRule list \<Rightarrow> Options" where
  "demo_opts answer rules =
     \<lparr>EnabledTools = [], DisabledTools = [], PlanMode = False, PermissionRules = rules, Cwd = ''/w'',
      OnPermissionRequest = map_option (\<lambda>a request. Inr \<lparr>pd_action = a, pd_reason = []\<rparr>) answer, OnAskUser = None,
      BeforeTool = (\<lambda>_ _. None),
      decode_args = (\<lambda>txt. Inr [''command'' \<mapsto> ArgString txt]),
      decode_request = (\<lambda>_. Inl ''not an object''), render_response = (\<lambda>_. []),
      parse_questions = (\<lambda>_. Inr []), format_answers = (\<lambda>_ _. []),
      decode_profile = (\<lambda>_. Inl ''not an object''), decode_prefix = (\<lambda>_. Rule_Other), parse_stmts = demo_stmts,
      onWindows = False\<rparr>"

definition bash_call :: "string \<Rightarrow> ToolCall" where
  "bash_call command = \<lparr>call_ID = ''c1'', call_Name = ''bash'', call_Arguments = command, call_Signature = []\<rparr>"

definition demo_rule :: "string \<Rightarrow> string \<Rightarrow> string \<Rightarrow> HarnessPermissionRule" where
  "demo_rule name action needle = \<lparr>ID = ''r1'', Match = name, rule_Action = action, rule_SideEffect = [], MinRisk = [],
     CommandContains = [needle], rule_Reason = [], Enabled = None\<rparr>"

lemma demo_decode [simp]: "command \<noteq> [] \<Longrightarrow>
    decodeCallArgs (demo_opts answer rules) (bash_call command) = Inr [''command'' \<mapsto> ArgString command]"
  by (simp add: decodeCallArgs_def demo_opts_def bash_call_def)

lemma demo_registry_bash [simp]: "demo_registry ''bash'' = Some demo_bash"
  by (simp add: demo_registry_def)

definition asked_outcome :: call_outcome where
  "asked_outcome = executeToolCall demo_world demo_registry (demo_opts (Some DecisionAllow) []) (bash_call ''make'')
     PermissionModeAskAll None"

lemma no_rules [simp]: "evaluatePermissionRules w [] name tool as mode = None"
  by (simp add: evaluatePermissionRules_def enabledPermissionRules_def Let_def)

lemma asked_once: "asked_outcome = \<lparr>co_result = \<lparr>tr_status = StatusOK, tr_output = ''ok'', tr_denial = None, tr_meta = (\<lambda>_. None), tr_changed = [], tr_images = []\<rparr>, co_abort = False,
    co_engine = None, co_started = [\<lparr>started_args = [''command'' \<mapsto> ArgString ''make''], started_engine = None, started_granted = True\<rparr>],
    co_asked = co_asked asked_outcome, co_cleanups = []\<rparr>"
proof -
  define as where "as = [''command'' \<mapsto> ArgString ''make'']"
  define opts where "opts = demo_opts (Some DecisionAllow) []"
  have o: "EnabledTools opts = []" "DisabledTools opts = []" "\<not> PlanMode opts" "PermissionRules opts = []"
    "OnPermissionRequest opts = Some (\<lambda>request. Inr \<lparr>pd_action = DecisionAllow, pd_reason = []\<rparr>)" "BeforeTool opts = (\<lambda>_ _. None)"
    by (simp_all add: opts_def demo_opts_def)
  have a: "as ''sandbox_permissions'' = None" "as ''additional_permissions'' = None" by (simp_all add: as_def)
  have early: "early_refusal os opts ''bash'' (Some demo_bash) as = None" for os
    using o a by (simp add: early_refusal_def ToolAllowedByFilters_def containsToolName_def demo_bash_def
        inlineAdditionalPermissionsProfile_def shellCommandAdditionalPermissionsRequested_def)
  have as': "decodeCallArgs opts (bash_call ''make'') = Inr as"
    by (simp add: opts_def as_def)
  have run: "run_call demo_world demo_registry opts ''bash'' demo_bash as PermissionModeAskAll True DecisionAllow [] None
    = \<lparr>co_result = \<lparr>tr_status = StatusOK, tr_output = ''ok'', tr_denial = None, tr_meta = (\<lambda>_. None), tr_changed = [], tr_images = []\<rparr>, co_abort = False, co_engine = None,
       co_started = [\<lparr>started_args = as, started_engine = None, started_granted = True\<rparr>], co_asked = [], co_cleanups = []\<rparr>"
    using o by (simp add: run_call_def shellExecutionArgsForApproval_def shellPrefixApprovalBypassesSandbox_def RunWithOptions_def
        registry_refusal_def effectivePermission_def demo_bash_def maybeRetryUnsandboxed_def
        maybeRetryWithNetworkAfterSandboxDenial_def sandboxDeniedNetworkRetryCandidate_def
        sandboxRestrictedShellRetryCandidate_def call_done_def run_result_def Let_def)
  have answer: "answer_call demo_world demo_registry opts ''bash'' demo_bash as PermissionModeAskAll event
      \<lparr>pd_action = DecisionAllow, pd_reason = []\<rparr> None
    = run_call demo_world demo_registry opts ''bash'' demo_bash as PermissionModeAskAll True DecisionAllow [] None" for event
    using a by (simp add: answer_call_def decide_call_def Let_def grantNetworkForSandboxPrompt_def
        grantInlineAdditionalPermissions_def grantFilesystemForSandboxPrompt_def inlineAdditionalPermissionsProfile_def
        shellCommandAdditionalPermissionsRequested_def)
  have ask: "ask_decision opts request = \<lparr>pd_action = DecisionAllow, pd_reason = []\<rparr>" for request
    using o by (simp add: ask_decision_def requestPermission_def normalizePermissionDecisionAction_def)
  have "starting_grant demo_world opts ''bash'' demo_bash as PermissionModeAskAll None = (False, DecisionOther [])"
    by (simp add: starting_grant_def profilePermission_def effectivePermission_def demo_bash_def matchCommandPrefix_def)
  moreover have "shouldRequestPermission demo_bash as False None False"
    by (simp add: shouldRequestPermission_def demo_bash_def)
  ultimately have "\<exists>event. asked_outcome = (answer_call demo_world demo_registry opts ''bash'' demo_bash as PermissionModeAskAll event
      \<lparr>pd_action = DecisionAllow, pd_reason = []\<rparr> None)\<lparr>co_asked := [permissionRequestFromEvent event as None]\<rparr>"
    unfolding asked_outcome_def opts_def [symmetric] using early as' o
    by (auto simp add: executeToolCall_def bash_call_def gate_call_def prompt_call_def Let_def ask answer run
       intro!: exI)
  then obtain event where e: "asked_outcome = (answer_call demo_world demo_registry opts ''bash'' demo_bash as
      PermissionModeAskAll event \<lparr>pd_action = DecisionAllow, pd_reason = []\<rparr> None)
        \<lparr>co_asked := [permissionRequestFromEvent event as None]\<rparr>" by blast
  show ?thesis unfolding e answer run by (simp add: as_def)
qed

theorem tool_runs_are_justified_witness:
  "length (co_started asked_outcome) = 1 \<and> started_granted (hd (co_started asked_outcome)) \<and>
   approval_source demo_world (demo_opts (Some DecisionAllow) []) ''bash'' demo_bash [''command'' \<mapsto> ArgString ''make'']
     PermissionModeAskAll None (co_asked asked_outcome)"
proof -
  have n: "length (co_started asked_outcome) = 1" "started_granted (hd (co_started asked_outcome))"
    by (subst asked_once, simp)+
  then have s: "hd (co_started asked_outcome) \<in> set (co_started asked_outcome)"
    by (cases "co_started asked_outcome") auto
  have "call_Name (bash_call ''make'') = ''bash''" by (simp add: bash_call_def)
  with tool_runs_are_justified [OF s [unfolded asked_outcome_def], folded asked_outcome_def] n show ?thesis by auto
qed

text \<open>C8: A deny rule is final.  When the last rule of the list that covers a call and has a known action denies it
  (rules after it that are disabled, name another tool, another side effect, a higher risk or a text the command does
  not contain, or have an unknown action, do not count), no tool body runs, the user is not asked and the engine is as
  before, in every permission mode, bypass-all included, and whatever prefix is approved.  The calls \<open>ask_user\<close>,
  \<open>request_permissions\<close> and \<open>exit_plan_mode\<close> are excluded: the agent answers them before it reads the rules.\<close>

theorem deny_rule_is_final:
  assumes "registry (call_Name call) = Some tool" "decodeCallArgs opts call = Inr as"
    "call_Name call \<notin> {''ask_user'', ''request_permissions'', ''exit_plan_mode''}"
    "PermissionRules opts = pre @ rule # post"
    "rule_covers w (call_Name call) tool as mode rule" "to_lower (trim_space (rule_Action rule)) = ''deny''"
    "\<forall>r \<in> set post. \<not> rule_covers w (call_Name call) tool as mode r \<or>
      to_lower (trim_space (rule_Action r)) \<notin> {''allow'', ''ask'', ''prompt'', ''deny''}"
  shows "co_started (executeToolCall w registry opts call mode engine) = [] \<and>
    co_asked (executeToolCall w registry opts call mode engine) = [] \<and>
    co_engine (executeToolCall w registry opts call mode engine) = engine"
proof -
  have "permissionRuleAction (rule_Action rule) = Some ActionDeny" using assms(6) by (simp add: permissionRuleAction_def)
  from last_rule_decides [OF assms(5) this assms(7), of pre]
  have "evaluatePermissionRules w (PermissionRules opts) (call_Name call) tool as mode = Some (ActionDeny, rule_reason rule)"
    by (simp add: assms(4))
  then show ?thesis
    using assms(1-3) by (auto simp: executeToolCall_def Let_def gate_call_def call_done_def split: option.split prod.split)
qed

definition no_make :: HarnessPermissionRule where
  "no_make = demo_rule ''ba*'' ''deny'' ''make''"

text \<open>An older rule allows the tool and a newer one, which is for another command, allows it too.\<close>

theorem deny_rule_is_final_witness:
  "co_started (executeToolCall demo_world demo_registry
     (demo_opts (Some DecisionAllow) [demo_rule ''*'' ''allow'' [], no_make, demo_rule ''bash'' ''allow'' ''ls''])
     (bash_call ''make all'') PermissionModeBypassAll (Some (demo_engine None))) = []"
proof -
  define as where "as = [''command'' \<mapsto> ArgString ''make all'']"
  have name: "call_Name (bash_call ''make all'') = ''bash''" by (simp add: bash_call_def)
  have rules: "PermissionRules (demo_opts answer rules) = rules" for answer rules by (simp add: demo_opts_def)
  have cov: "rule_covers demo_world ''bash'' demo_bash as PermissionModeBypassAll no_make"
    unfolding rule_covers_iff as_def by code_simp
  have deny: "to_lower (trim_space (rule_Action no_make)) = ''deny''" by code_simp
  have other: "\<not> rule_covers demo_world ''bash'' demo_bash as PermissionModeBypassAll (demo_rule ''bash'' ''allow'' ''ls'')"
    unfolding rule_covers_iff as_def by code_simp
  show ?thesis
  proof (rule conjunct1 [OF deny_rule_is_final])
    show "demo_registry (call_Name (bash_call ''make all'')) = Some demo_bash" by (simp add: name)
    show "decodeCallArgs (demo_opts (Some DecisionAllow)
        [demo_rule ''*'' ''allow'' [], no_make, demo_rule ''bash'' ''allow'' ''ls'']) (bash_call ''make all'') = Inr as"
      by (simp add: as_def)
    show "PermissionRules (demo_opts (Some DecisionAllow)
        [demo_rule ''*'' ''allow'' [], no_make, demo_rule ''bash'' ''allow'' ''ls''])
      = [demo_rule ''*'' ''allow'' []] @ no_make # [demo_rule ''bash'' ''allow'' ''ls'']" by (simp add: rules)
  qed (use cov deny other in \<open>simp_all add: name\<close>)
qed

text \<open>C11: What is offered is honoured.  Every decision a request offers, other than denying and cancelling, lets the call
  through: the only way it is refused is that a permission it includes could not be granted.\<close>

theorem offered_decisions_are_honoured:
  assumes "pd_action decision \<in> set (AvailableDecisions (permissionRequestFromEvent event as engine))"
    "pd_action decision \<notin> {DecisionDeny, DecisionCancel}"
  shows "(\<exists>prefix. fst (decide_call w opts name as event decision engine) = Approved prefix) \<or>
    (\<exists>e. fst (decide_call w opts name as event decision engine) = Refused (''failed to grant '' @ e))"
proof -
  have grants: "(\<exists>prefix. fst (grant_all gs p cs en) = Approved prefix)
      \<or> (\<exists>e. fst (grant_all gs p cs en) = Refused (''failed to grant '' @ e))"
    if "list_all (\<lambda>(label, g). has_prefix label ''failed to grant '') gs" for gs p cs en
    using that
  proof (induction gs arbitrary: cs en)
    case (Cons g gs)
    obtain label grant where g: "g = (label, grant)" by (cases g)
    obtain rest where "label = ''failed to grant '' @ rest" using Cons.prems g by (auto simp: has_prefix_iff)
    then show ?case using Cons g by (auto split: sum.split prod.split simp del: append.simps)
  qed simp
  have offered: "pd_action decision \<in> approving"
    "pd_action decision \<in> {DecisionAllowPrefix, DecisionAlwaysAllowPrefix} \<Longrightarrow> ev_prefix event \<noteq> []"
    using assms by (auto simp: permissionRequestFromEvent_def availablePermissionDecisions_def approving_def Let_def
        split: if_splits)
  have labels: "list_all (\<lambda>(label, g). has_prefix label ''failed to grant '') gs"
    if "fst ` set gs \<subseteq> {''failed to grant network permission: '', ''failed to grant additional permissions: '',
      ''failed to grant filesystem permission: '', ''failed to grant session additional permissions: '',
      ''failed to grant session network permission: '', ''failed to grant session filesystem permission: ''}"
    for gs :: "(string \<times> granting) list"
  proof -
    have "list_all (\<lambda>label. has_prefix label ''failed to grant '') [''failed to grant network permission: '',
      ''failed to grant additional permissions: '', ''failed to grant filesystem permission: '',
      ''failed to grant session additional permissions: '', ''failed to grant session network permission: '',
      ''failed to grant session filesystem permission: '']" by code_simp
    with that show ?thesis by (fastforce simp: list_all_iff)
  qed
  note grant = grants [OF labels]
  note unfold = decide_call_def Let_def PermissionDecisionAction.case
  show ?thesis
  proof (cases "pd_action decision")
    case DecisionAllow
    show ?thesis by (simp only: unfold DecisionAllow) (rule grant, simp)
  next
    case DecisionAllowStrict
    show ?thesis by (simp only: unfold DecisionAllowStrict) (rule grant, simp)
  next
    case DecisionAllowForSession
    consider "shellCommandAdditionalPermissionsRequested as"
      | "\<not> shellCommandAdditionalPermissionsRequested as" "networkSandboxPrompt event"
      | "\<not> shellCommandAdditionalPermissionsRequested as" "\<not> networkSandboxPrompt event" "filesystemSandboxPrompt event"
      | "\<not> shellCommandAdditionalPermissionsRequested as" "\<not> networkSandboxPrompt event" "\<not> filesystemSandboxPrompt event"
      by blast
    then show ?thesis
    proof cases
      case 1
      show ?thesis by (simp only: unfold DecisionAllowForSession 1 if_True) (rule grant, simp)
    next
      case 2
      show ?thesis by (simp only: unfold DecisionAllowForSession 2 if_True if_False) (rule grant, simp)
    next
      case 3
      show ?thesis by (simp only: unfold DecisionAllowForSession 3 if_True if_False) (rule grant, simp)
    next
      case 4
      show ?thesis by (simp only: unfold DecisionAllowForSession 4 if_False) simp
    qed
  next
    case DecisionAllowPrefix
    with offered(2) have prefix: "ev_prefix event \<noteq> []" by simp
    show ?thesis by (simp only: unfold DecisionAllowPrefix prefix if_False) (rule grant, simp)
  next
    case DecisionAlwaysAllowPrefix
    with offered(2) have prefix: "ev_prefix event \<noteq> []" by simp
    obtain r e where p: "persistCommandPrefixGrant w name (ev_prefix event) (trim_space (pd_reason decision)) engine = (r, e)"
      by fastforce
    show ?thesis by (simp only: unfold DecisionAlwaysAllowPrefix prefix if_False p prod.case) (rule grant, simp)
  next
    case DecisionAlwaysAllow
    show ?thesis by (simp only: unfold DecisionAlwaysAllow) simp
  qed (use offered in \<open>simp_all add: approving_def\<close>)
qed

theorem offered_decisions_are_honoured_witness:
  "(\<exists>prefix. fst (decide_call demo_world (demo_opts None []) ''bash'' [''command'' \<mapsto> ArgString ''go test'']
       (zero_event\<lparr>ev_tool := ''bash'', ev_action := Some ActionPrompt, ev_prefix := [''go'', ''test'']\<rparr>)
       \<lparr>pd_action = DecisionAllowPrefix, pd_reason = []\<rparr> (Some (demo_engine None))) = Approved prefix) \<or>
   (\<exists>e. fst (decide_call demo_world (demo_opts None []) ''bash'' [''command'' \<mapsto> ArgString ''go test'']
       (zero_event\<lparr>ev_tool := ''bash'', ev_action := Some ActionPrompt, ev_prefix := [''go'', ''test'']\<rparr>)
       \<lparr>pd_action = DecisionAllowPrefix, pd_reason = []\<rparr> (Some (demo_engine None))) = Refused (''failed to grant '' @ e))"
proof (rule offered_decisions_are_honoured)
  show "pd_action \<lparr>pd_action = DecisionAllowPrefix, pd_reason = []\<rparr> \<in> set (AvailableDecisions (permissionRequestFromEvent
      (zero_event\<lparr>ev_tool := ''bash'', ev_action := Some ActionPrompt, ev_prefix := [''go'', ''test'']\<rparr>)
      [''command'' \<mapsto> ArgString ''go test''] (Some (demo_engine None))))"
    by (simp add: permissionRequestFromEvent_def availablePermissionDecisions_def zero_event_def isShellCommandTool_def
        networkSandboxPrompt_def ReasonNetworkBlocked_def shellCommandAdditionalPermissionsRequested_def)
qed simp

text \<open>C10: Approvals for the turn end with the call.  When every request of a call other than \<open>request_permissions\<close>
  (which exists to grant permissions for the rest of the turn, C14) was answered for the turn only
  (allowed, allowed strictly, denied or cancelled), the engine afterwards is the one before, up to the counter that
  names the profiles of a turn, and so is its policy; this holds on every path of the call, its retries included.\<close>

theorem turn_approvals_end_with_the_call:
  assumes "engine_inv e" "call_Name call \<noteq> ''request_permissions''"
    "turn_only opts (co_asked (executeToolCall w registry opts call mode (Some e)))"
  shows "\<exists>e'. co_engine (executeToolCall w registry opts call mode (Some e)) = Some e'
    \<and> e'\<lparr>eng_turnProfiles := eng_turnProfiles e\<rparr> = e \<and> effectivePolicy e' = effectivePolicy e"
proof -
  have same: ?thesis if "co_engine (executeToolCall w registry opts call mode (Some e)) = Some e'" "same_engine e' e" for e'
    using that same_engine_policy [OF that(2)] by (auto simp: same_engine_def)
  have plan: "co_engine (executeExitPlanMode opts engine) = engine" for engine
    by (simp add: executeExitPlanMode_def call_done_def split: option.split ask_reply.split)
  have ask: "co_engine (executeAskUser w registry opts name as mode engine) = engine" for name as engine
    by (simp add: executeAskUser_def call_done_def Let_def split: option.split ask_reply.split sum.split prod.split)
  show ?thesis
  proof (cases "\<exists>as tool. executeToolCall w registry opts call mode (Some e)
      = gate_call w registry opts (call_Name call) tool as mode (Some e)")
    case True
    then obtain as tool where c: "executeToolCall w registry opts call mode (Some e)
      = gate_call w registry opts (call_Name call) tool as mode (Some e)" by blast
    from gate_call_undo [OF assms(3) [unfolded c] assms(1)] c same show ?thesis by auto
  next
    case False
    then have "co_engine (executeToolCall w registry opts call mode (Some e)) = Some e"
      using assms(2)
      by (auto simp: executeToolCall_def Let_def plan ask call_done_def split: sum.splits option.splits prod.splits; blast)
    then show ?thesis by (rule same) simp
  qed
qed

theorem turn_approvals_end_with_the_call_witness:
  "\<exists>e'. co_engine (executeToolCall demo_world demo_registry (demo_opts (Some DecisionAllow) []) (bash_call ''curl https://go.dev'')
      PermissionModeAskAll (Some (demo_engine None))) = Some e'
    \<and> e'\<lparr>eng_turnProfiles := eng_turnProfiles (demo_engine None)\<rparr> = demo_engine None
    \<and> effectivePolicy e' = effectivePolicy (demo_engine None)"
proof (rule turn_approvals_end_with_the_call)
  show "engine_inv (demo_engine None)" by code_simp
  show "call_Name (bash_call ''curl https://go.dev'') \<noteq> ''request_permissions''" by (simp add: bash_call_def)
  show "turn_only (demo_opts (Some DecisionAllow) []) asked" for asked
    by (simp add: turn_only_def turn_decisions_def ask_decision_def requestPermission_def demo_opts_def
        normalizePermissionDecisionAction_def)
qed

text \<open>C9: Outside the modes that approve everything by themselves (unsafe and bypass-all), a command leaves the sandbox
  only with an approval.  When a shell tool was started in another mode with an engine whose policy is not disabled, and
  what it launches is not wrapped by that engine, then the arguments it was started with ask to escalate, the policy has
  no path that may not be read, and the call was approved: by an approved command prefix, by an allow rule, by the user
  about a request he was shown, or, in the modes auto and ask, by the permission the tool itself gives these
  arguments.\<close>

theorem sandbox_is_left_with_approval:
  assumes "s \<in> set (co_started (executeToolCall w registry opts call mode engine))" "call_Name call \<noteq> ''ask_user''"
    "registry (call_Name call) = Some tool" "safety_sideEffect tool = SideEffectShell"
    "started_engine s = Some e" "pol_mode (effectivePolicy e) \<noteq> ModeDisabled"
    "shell_launch (w_os w) numeric (call_Name call) (started_args s) (Some e) = Inr (c, None)"
    "mode \<notin> {PermissionUnsafe, PermissionModeBypassAll}"
  shows "shellCommandRequiresEscalated (started_args s) \<and> normalizeProfilePaths (w_os w) (DenyRead (effectivePolicy e)) = []
    \<and> (\<exists>as. decodeCallArgs opts call = Inr as \<and>
        (effectivePermission tool as = PermissionAllow \<and> mode \<in> {PermissionModeAuto, PermissionModeAsk}
         \<or> matchCommandPrefix w (onWindows opts) (parse_stmts opts) (call_Name call) as engine \<noteq> None
         \<or> (\<exists>reason. evaluatePermissionRules w (PermissionRules opts) (call_Name call) tool as mode
              = Some (ActionAllow, reason))
         \<or> user_approved opts (co_asked (executeToolCall w registry opts call mode engine))))"
proof -
  obtain tool' as where tool': "registry (call_Name call) = Some tool'" and as: "decodeCallArgs opts call = Inr as"
    and gate: "executeToolCall w registry opts call mode engine = gate_call w registry opts (call_Name call) tool' as mode engine"
    by (rule executeToolCall_started [OF assms(1,2)])
  have t: "tool' = tool" using tool' assms(3) by simp
  have launch: "shellCommandRequiresEscalated (started_args s)" "UnsandboxedExecutionAllowed (w_os w) (Some e)"
    using launch_unsandboxed [OF assms(7)] by simp_all
  have started: "permitted_start w (call_Name call) tool mode s"
    "started_granted s \<longrightarrow> approval_source w opts (call_Name call) tool as mode engine
       (co_asked (gate_call w registry opts (call_Name call) tool as mode engine))"
    using gate_call_started [OF assms(1) [unfolded gate t] assms(3)] by blast+
  have "started_granted s"
    by (rule escalation_needs_grant [OF started(1) assms(5) launch(1) assms(4,6)])
  moreover have "effectivePermission tool as = PermissionAllow \<and> mode \<in> {PermissionModeAuto, PermissionModeAsk}"
    if "profilePermission mode tool as = PermissionAllow"
    using that assms(4,8) by (cases mode) (auto simp: profilePermission_def Let_def split: if_splits)
  ultimately show ?thesis using started(2) as gate t launch assms(6,8)
    by (auto simp: UnsandboxedExecutionAllowed_def Let_def approval_source_def)
qed

definition open_engine :: Engine where
  "open_engine = NewEngine demo_os ''/w'' DefaultPolicy None demo_backend (Some demo_scope)"

definition escalated_args :: args where
  "escalated_args = [''command'' \<mapsto> ArgString ''make'', ''sandbox_permissions'' \<mapsto> ArgString ''require_escalated'']"

definition escalated_opts :: "HarnessPermissionRule list \<Rightarrow> Options" where
  "escalated_opts rules = (demo_opts None rules)\<lparr>decode_args := (\<lambda>txt. Inr escalated_args)\<rparr>"

definition escalated_outcome :: "HarnessPermissionRule list \<Rightarrow> PermissionMode \<Rightarrow> call_outcome" where
  "escalated_outcome rules mode = executeToolCall demo_world demo_registry (escalated_opts rules) (bash_call ''make'') mode
     (Some open_engine)"

abbreviation escalated_start :: tool_start where
  "escalated_start \<equiv> \<lparr>started_args = escalated_args, started_engine = Some open_engine, started_granted = True\<rparr>"

text \<open>An escalated call that is granted without a question starts its command, nobody being asked.\<close>

lemma escalated_started:
  assumes granted: "\<exists>action. \<not> shellPrefixApprovalBypassesSandbox action \<and>
      gate_call demo_world demo_registry (escalated_opts rules) ''bash'' demo_bash escalated_args mode (Some open_engine)
      = prompt_call demo_world demo_registry (escalated_opts rules) ''bash'' demo_bash escalated_args mode True action None
          (Some open_engine)"
    and allow: "dec_action (Evaluate demo_world None (Some open_engine) (registry_request ''bash'' demo_bash escalated_args
      PermissionPrompt True mode)) = ActionAllow"
    and mode: "mode \<noteq> PermissionModeBypassAll"
  shows "co_started (escalated_outcome rules mode) = [escalated_start]" "co_asked (escalated_outcome rules mode) = []"
proof -
  have o: "EnabledTools (escalated_opts rules) = []" "DisabledTools (escalated_opts rules) = []" "\<not> PlanMode (escalated_opts rules)"
    "OnPermissionRequest (escalated_opts rules) = None" "BeforeTool (escalated_opts rules) = (\<lambda>_ _. None)"
    by (simp_all add: escalated_opts_def demo_opts_def)
  have a: "decodeCallArgs (escalated_opts rules) (bash_call ''make'') = Inr escalated_args"
    by (simp add: escalated_opts_def decodeCallArgs_def bash_call_def)
  have no_extra: "\<not> shellCommandAdditionalPermissionsRequested escalated_args" "already_escalated escalated_args"
    "escalated_args ''additional_permissions'' = None" by code_simp+
  have early: "early_refusal os (escalated_opts rules) ''bash'' (Some demo_bash) escalated_args = None" for os
    using o no_extra by (simp add: early_refusal_def ToolAllowedByFilters_def containsToolName_def demo_bash_def
        inlineAdditionalPermissionsProfile_def)
  have run: "snd (RunWithOptions demo_world demo_registry ''bash'' escalated_args
      \<lparr>ro_granted = True, ro_mode = mode, ro_sandbox = Some open_engine\<rparr>) = [escalated_start]"
    using allow mode by (simp add: RunWithOptions_def registry_refusal_def Let_def effectivePermission_def demo_bash_def)
  have retry: "maybeRetryUnsandboxed demo_world demo_registry (escalated_opts rules) ''bash'' demo_bash escalated_args res
      mode (Some open_engine) = (No_Retry, [], Some open_engine)" for res
    using no_extra by (simp add: maybeRetryUnsandboxed_def maybeRetryWithNetworkAfterSandboxDenial_def
        sandboxDeniedNetworkRetryCandidate_def sandboxRestrictedShellRetryCandidate_def)
  obtain action where "\<not> shellPrefixApprovalBypassesSandbox action"
    "escalated_outcome rules mode = run_call demo_world demo_registry (escalated_opts rules) ''bash'' demo_bash escalated_args
       mode True action [] (Some open_engine)"
    using granted a early o unfolding escalated_outcome_def
    by (auto simp: executeToolCall_def bash_call_def prompt_call_def Let_def)
  then show "co_started (escalated_outcome rules mode) = [escalated_start]" "co_asked (escalated_outcome rules mode) = []"
    using o run retry by (auto simp: run_call_def call_done_def Let_def shellExecutionArgsForApproval_def split: prod.split)
qed

lemma escalated_launch: "shell_launch demo_os None ''bash'' escalated_args (Some open_engine) = Inr (''make'', None)"
  by code_simp

abbreviation make_allowed :: HarnessPermissionRule where
  "make_allowed \<equiv> demo_rule ''bash'' ''allow'' ''make''"

text \<open>A rule of the user allows \<open>make\<close>, in the mode that otherwise asks about everything.\<close>

theorem sandbox_is_left_with_approval_witness:
  "co_started (escalated_outcome [make_allowed] PermissionModeAskAll) = [escalated_start] \<and>
   co_asked (escalated_outcome [make_allowed] PermissionModeAskAll) = [] \<and>
   shellCommandRequiresEscalated escalated_args \<and> normalizeProfilePaths demo_os (DenyRead (effectivePolicy open_engine)) = []
    \<and> (\<exists>reason. evaluatePermissionRules demo_world [make_allowed] ''bash'' demo_bash escalated_args PermissionModeAskAll
          = Some (ActionAllow, reason))"
proof -
  have rules: "PermissionRules (escalated_opts [make_allowed]) = [make_allowed]"
    by (simp add: escalated_opts_def demo_opts_def)
  have rule: "evaluatePermissionRules demo_world [make_allowed] ''bash'' demo_bash escalated_args PermissionModeAskAll
      = Some (ActionAllow, ''harness permission rule matched: r1'')" by code_simp
  have "\<exists>action. \<not> shellPrefixApprovalBypassesSandbox action \<and>
      gate_call demo_world demo_registry (escalated_opts [make_allowed]) ''bash'' demo_bash escalated_args PermissionModeAskAll
        (Some open_engine)
      = prompt_call demo_world demo_registry (escalated_opts [make_allowed]) ''bash'' demo_bash escalated_args
          PermissionModeAskAll True action None (Some open_engine)"
    by (rule exI [of _ DecisionAllow])
      (simp add: gate_call_def rules rule shellPrefixApprovalBypassesSandbox_def split: prod.split)
  moreover have "dec_action (Evaluate demo_world None (Some open_engine) (registry_request ''bash'' demo_bash escalated_args
      PermissionPrompt True PermissionModeAskAll)) = ActionAllow" by code_simp
  ultimately have started: "co_started (escalated_outcome [make_allowed] PermissionModeAskAll) = [escalated_start]"
    "co_asked (escalated_outcome [make_allowed] PermissionModeAskAll) = []" by (simp_all add: escalated_started)
  have name: "call_Name (bash_call ''make'') = ''bash''" and os: "w_os demo_world = demo_os"
    and shell: "safety_sideEffect demo_bash = SideEffectShell"
    by (simp_all add: bash_call_def demo_world_def demo_bash_def)
  have on: "pol_mode (effectivePolicy open_engine) \<noteq> ModeDisabled" by code_simp
  have s: "escalated_start \<in> set (co_started (executeToolCall demo_world demo_registry (escalated_opts [make_allowed])
      (bash_call ''make'') PermissionModeAskAll (Some open_engine)))"
    using started(1) by (simp add: escalated_outcome_def)
  from sandbox_is_left_with_approval [OF s, unfolded name os, of demo_bash open_engine None "''make''"] on shell
    escalated_launch started rule
  show ?thesis by simp
qed

end
