(* ===== verification/Gate_Limits.thy ===== *)
theory Gate_Limits
  imports Approval_Properties Gate_Properties
begin

text \<open>
  Limits of the tool gate that the model exhibits: small cases, each evaluated in full, in which
  the code is more lenient than its comments and documents promise.
\<close>

section \<open>The command that was looked at and the command that runs\<close>

text \<open>
  The gate, the risk classifier and the rules read \<open>command\<close> before \<open>cmd\<close>; \<open>exec_command\<close> reads \<open>cmd\<close>
  first.  A call that carries both is approved for one command and starts the other, outside the
  sandbox when it asks to escalate.
\<close>

definition two_commands :: args where
  "two_commands = [''command'' \<mapsto> ArgString ''go test'', ''cmd'' \<mapsto> ArgString ''rm -rf build'']"

definition exec_engine :: "Engine option" where
  "exec_engine = Engine_GrantCommandPrefixForSession ''exec_command'' [''go'', ''test''] (Some open_engine)"

theorem exec_command_runs_another_command:
  "matchCommandPrefix demo_world False plain_script ''exec_command'' two_commands exec_engine \<noteq> None"
  "permissionRuleCommandText two_commands = ''go test''"
  "shellExecutionArgsForApproval demo_os ''exec_command'' two_commands DecisionAllowPrefix exec_engine
     ''sandbox_permissions'' = Some (ArgString ''require_escalated'')"
  "exec_launch demo_os None (shellExecutionArgsForApproval demo_os ''exec_command'' two_commands DecisionAllowPrefix exec_engine)
     exec_engine = Inr (''rm -rf build'', None)"
  "bash_launch demo_os None two_commands exec_engine = Inr (''go test'', exec_engine)"
  by code_simp+

section \<open>Unsafe mode\<close>

text \<open>
  A comment in the engine says that unsafe mode must not silently turn a sandboxed shell run into an
  unsandboxed one, and the engine denies an escalated call without the approval flag.  The agent sets
  that flag itself in unsafe mode, so the engine allows the call: the command starts outside the
  sandbox and nobody was asked.
\<close>

theorem unsafe_mode_leaves_the_sandbox:
  "co_started (escalated_outcome [] PermissionUnsafe) = [escalated_start]"
  "co_asked (escalated_outcome [] PermissionUnsafe) = []"
  "shell_launch demo_os None ''bash'' escalated_args (Some open_engine) = Inr (''make'', None)"
  "dec_action (Evaluate demo_world None (Some open_engine) (registry_request ''bash'' demo_bash escalated_args
     PermissionPrompt False PermissionUnsafe)) = ActionDeny"
proof -
  have "PermissionRules (escalated_opts []) = []" by (simp add: escalated_opts_def demo_opts_def)
  then have "gate_call demo_world demo_registry (escalated_opts []) ''bash'' demo_bash escalated_args PermissionUnsafe
        (Some open_engine)
      = prompt_call demo_world demo_registry (escalated_opts []) ''bash'' demo_bash escalated_args
          PermissionUnsafe True (DecisionOther []) None (Some open_engine)"
    by (simp add: gate_call_def starting_grant_def)
  moreover have "\<not> shellPrefixApprovalBypassesSandbox (DecisionOther [])" by (simp add: shellPrefixApprovalBypassesSandbox_def)
  moreover have "dec_action (Evaluate demo_world None (Some open_engine) (registry_request ''bash'' demo_bash escalated_args
      PermissionPrompt True PermissionUnsafe)) = ActionAllow" by code_simp
  ultimately have "co_started (escalated_outcome [] PermissionUnsafe) = [escalated_start] \<and>
      co_asked (escalated_outcome [] PermissionUnsafe) = []"
    using escalated_started [of "[]" PermissionUnsafe] by auto
  then show "co_started (escalated_outcome [] PermissionUnsafe) = [escalated_start]"
    "co_asked (escalated_outcome [] PermissionUnsafe) = []" by blast+
  show "shell_launch demo_os None ''bash'' escalated_args (Some open_engine) = Inr (''make'', None)"
    by (rule escalated_launch)
  show "dec_action (Evaluate demo_world None (Some open_engine) (registry_request ''bash'' demo_bash escalated_args
      PermissionPrompt False PermissionUnsafe)) = ActionDeny" by code_simp
qed

section \<open>Segments that count as safe\<close>

text \<open>
  Next to an approved segment the others may be known-safe ones.  The base name decides, so a
  program of the workspace counts when it is called \<open>cat\<close>; and a configuration given to git on
  its command line may name programs that git starts.
\<close>

theorem workspace_program_counts_as_safe:
  "knownSafeCommandSegment False [''./build/cat'', ''x'']"
  "knownSafeCommandSegment False [''git'', ''-c'', ''core.fsmonitor=./hook'', ''status'']"
  "\<not> knownSafeCommandSegment False [''./build/run'', ''x'']"
  by code_simp+

section \<open>Rules\<close>

text \<open>The first key that is present is read, \<open>null\<close> included, so a null hides the command from the rules.\<close>

theorem null_hides_command:
  "evaluatePermissionRules demo_world [demo_rule ''exec_command'' ''deny'' ''make''] ''exec_command'' demo_bash
     [''cmd'' \<mapsto> ArgString ''make''] PermissionModeAskAll = Some (ActionDeny, ''harness permission rule matched: r1'')"
  "evaluatePermissionRules demo_world [demo_rule ''exec_command'' ''deny'' ''make''] ''exec_command'' demo_bash
     [''command'' \<mapsto> ArgNil, ''cmd'' \<mapsto> ArgString ''make''] PermissionModeAskAll = None"
  "execCommandArg [''command'' \<mapsto> ArgNil, ''cmd'' \<mapsto> ArgString ''make''] = Inr ''make''"
  by code_simp+

text \<open>
  A project may only ask or deny, so that a repository cannot give itself more authority; but a
  project rule with the id of a user's rule takes its place, and a later rule that asks comes
  before an earlier one that denies.
\<close>

definition users_rule :: HarnessPermissionRule where
  "users_rule = demo_rule ''bash'' ''deny'' ''make''"

definition project_rule :: HarnessPermissionRule where
  "project_rule = demo_rule ''no_such_tool'' ''ask'' ''x''"

theorem project_rule_replaces_users_deny:
  "evaluatePermissionRules demo_world [users_rule] ''bash'' demo_bash [''command'' \<mapsto> ArgString ''make''] PermissionModeAskAll
     = Some (ActionDeny, ''harness permission rule matched: r1'')"
  "mergeProjectHarnessConfig [users_rule] [project_rule] = Inr [project_rule]"
  "evaluatePermissionRules demo_world [project_rule] ''bash'' demo_bash [''command'' \<mapsto> ArgString ''make''] PermissionModeAskAll
     = None"
  by code_simp+

theorem later_ask_overrides_deny:
  "mergeProjectHarnessConfig [users_rule] [users_rule\<lparr>ID := ''r2'', rule_Action := ''ask''\<rparr>]
     = Inr [users_rule, users_rule\<lparr>ID := ''r2'', rule_Action := ''ask''\<rparr>]"
  "evaluatePermissionRules demo_world [users_rule, users_rule\<lparr>ID := ''r2'', rule_Action := ''ask''\<rparr>] ''bash'' demo_bash
     [''command'' \<mapsto> ArgString ''make''] PermissionModeAskAll = Some (ActionPrompt, ''harness permission rule matched: r2'')"
  by code_simp+

text \<open>\<open>request_permissions\<close> is answered before the rules are read, so no rule can deny it.\<close>

theorem no_rule_reaches_request_permissions:
  "call_Name call = ''request_permissions'' \<Longrightarrow>
     executeToolCall w registry (opts\<lparr>PermissionRules := rules\<rparr>) call mode engine
       = executeToolCall w registry opts call mode engine"
proof -
  assume name: "call_Name call = ''request_permissions''"
  let ?opts = "opts\<lparr>PermissionRules := rules\<rparr>"
  have sel: "Cwd ?opts = Cwd opts" "decode_profile ?opts = decode_profile opts" "decode_request ?opts = decode_request opts"
    "EnabledTools ?opts = EnabledTools opts" "DisabledTools ?opts = DisabledTools opts" "PlanMode ?opts = PlanMode opts"
    "OnPermissionRequest ?opts = OnPermissionRequest opts" "render_response ?opts = render_response opts"
    "decode_args ?opts = decode_args opts"
    by simp_all
  have decode: "decodeCallArgs ?opts call = decodeCallArgs opts call"
    unfolding decodeCallArgs_def sel by (rule refl)
  have inline: "inlineAdditionalPermissionsProfile os ?opts as = inlineAdditionalPermissionsProfile os opts as" for os as
    unfolding inlineAdditionalPermissionsProfile_def sel by (rule refl)
  have early: "early_refusal os ?opts n t as = early_refusal os opts n t as" for os n t as
    unfolding early_refusal_def sel inline by (rule refl)
  have ask: "ask_decision ?opts request = ask_decision opts request" for request
    unfolding ask_decision_def requestPermission_def sel by (rule refl)
  have response: "permissions_response ?opts = permissions_response opts"
    unfolding permissions_response_def sel by (rule refl)
  have "executeRequestPermissions w ?opts as mode engine = executeRequestPermissions w opts as mode engine" for as
    unfolding executeRequestPermissions_def ask response sel by (rule refl)
  with name decode early show ?thesis by (simp add: executeToolCall_def cong: sum.case_cong option.case_cong)
qed

section \<open>Asking for every action\<close>

text \<open>
  The profile that asks for every action is applied by the sandbox engine: without one a tool that
  is marked \<open>allow\<close> is not asked about.
\<close>

theorem ask_all_needs_an_engine:
  "profilePermission PermissionModeAskAll (demo_bash\<lparr>safety_permission := PermissionAllow\<rparr>) as = PermissionPrompt"
  "shellCommandAdditionalPermissionsRequested as = False \<Longrightarrow>
     \<not> shouldRequestPermission (demo_bash\<lparr>safety_permission := PermissionAllow\<rparr>) as False None False"
  by (simp_all add: profilePermission_def effectivePermission_def demo_bash_def shouldRequestPermission_def)

end
