(* ===== verification/Spec2Isabelle.thy ===== *)
theory Spec2Isabelle
  imports Run_Properties Provider_Properties Loop_Properties Sandbox_Properties Sandbox_Contracts Sandbox_Limits Agent_Properties Edit_Properties Daemon_Properties Cron_Properties Context_Properties
    Approval_Properties Gate_Properties Gate_Limits
begin

text \<open>
  KajiCode is a coding agent for the terminal, written in Go.  A model proposes tool calls; the
  agent loop (\<open>internal/agent\<close>) passes each call to the sandbox policy engine
  (\<open>internal/sandbox\<close>), which allows it, asks the user or denies it; allowed calls run as tools
  (\<open>internal/tools\<close>), shell commands in a platform sandbox; guards of the loop end runs that make
  no progress; a daemon (\<open>internal/daemon\<close>) runs jobs on a bounded pool of workers and streams their
  output, and \<open>internal/cron\<close> says when a scheduled job is due.  This library models the decision
  logic of these parts as HOL functions and step relations, one theory per component, and proves
  what each is for.

  \<^bold>\<open>The standard library.\<close>  \<open>Prelude\<close> holds Go's \<open>strings\<close> and \<open>strconv\<close> operations on strings
  as lists of bytes and the shared interface locales (\<open>enumeration\<close>: a normaliser that undoes the
  text of its constants; \<open>streak\<close>: a counter of consecutive events under any history);
  \<open>Go_Regexp\<close> regular expressions as values with an executable matcher; \<open>Go_Path\<close> lexical
  \<open>filepath\<close> operations; \<open>Go_FS\<close> a POSIX file system as a map from paths to directories, files
  and symbolic links, with the kernel's path walk (at most 40 links) and Go's \<open>EvalSymlinks\<close> (255);
  \<open>Go_URL\<close> the part of \<open>net/url\<close> that host scopes use; \<open>Go_Time\<close> the Gregorian calendar and locations.

  \<^bold>\<open>The sandbox policy engine\<close> (\<open>internal/sandbox\<close>).
  \<^item> \<open>Sandbox_Types\<close>: \<open>types.go\<close>, \<open>normalize.go\<close>; \<open>Safe_Command\<close>: \<open>safe_command.go\<close>, the detector of
    interactive commands with its scanner and wrappers; \<open>Command_Prefix\<close>: \<open>command_prefix.go\<close>.
  \<^item> \<open>Path_Guard\<close>: \<open>paths.go\<close> and \<open>scope.go\<close>, the roots of a scope, their temporary extensions and the
    validation of a path against symbolic links; its specification \<open>create_walk\<close> is the kernel's
    resolution of a path of which only a prefix exists yet, where a write creates the rest;
    \<open>Path_Lists\<close>: \<open>pathlists.go\<close>.
  \<^item> \<open>Analyzer\<close>: \<open>analyzer.go\<close>, over the call expressions of a parsed script, with the nesting bound
    \<open>maxAnalyzerDepth = 4\<close> of the code; \<open>Risk\<close>: \<open>risk.go\<close>, the patterns, the headers of a patch, the
    categories of a request.
  \<^item> \<open>Grants\<close>: \<open>grant_scope.go\<close>, \<open>grants.go\<close> and the session set of \<open>request_permissions.go\<close>;
    \<open>Request_Permissions\<close>: normalisation of permission requests; \<open>Profile\<close>: \<open>profile.go\<close>.
  \<^item> \<open>Engine\<close>: \<open>engine.go\<close>.  \<open>Evaluate\<close> is composed of its gates in the order of the code; the grant
    operations return the changed engine and their list of cleanups.  \<open>Seccomp\<close>: \<open>seccomp.go\<close>, the two
    filter programs as instruction lists.
  \<^item> \<open>Demo_Host\<close> is a small concrete host on which the witnesses are evaluated.

  \<open>Sandbox_Properties\<close> states what the engine's decisions guarantee: what it allows by itself lies
  in a write root of the file system and outside protected metadata, whether the path exists or is
  created by the write; denied paths and persistent
  denies are final, destructive, network and escalating commands do not pass their gates in the modes
  that enforce them, accepted reads resolve inside a read root, and every history of scope operations
  from \<open>NewScope\<close> keeps the scope well formed while the file system changes between them.  \<open>Sandbox_Contracts\<close> holds the contracts of the parts: grants and their undo, the governing
  grant of a bucket, the store's round trip, the exact paths of a patch, exact shell analysis,
  approvable prefixes, agreement of the platform profile with the engine, and the verdicts of the
  seccomp programs.  \<open>Sandbox_Limits\<close> records, at concrete inputs, where the code does not do what its
  comments or its purpose suggest.

  \<^bold>\<open>The guards of the agent loop\<close> (\<open>Guardrails\<close>: \<open>internal/agent/guardrails.go\<close>, the plan items of
  \<open>task_state.go\<close>; \<open>Repetition\<close>: \<open>internal/kajicoderuntime/repetition.go\<close>).  \<open>Agent_Properties\<close>
  shows, for every history of operations, exactly when each guard halts or hints; the thresholds are
  the code's constants.  The streaming repetition detector refines a specification on the whole stream.

  \<^bold>\<open>The context window\<close> (\<open>Context_Tail\<close>: \<open>compaction_tail.go\<close> and the token estimate of
  \<open>compaction.go\<close>; \<open>Compaction\<close>: \<open>CompactMessages\<close> and \<open>internal/sessions/summary_validation.go\<close>;
  \<open>Prune\<close>: \<open>prune.go\<close>; \<open>Run_Compaction\<close>: \<open>compactionState\<close>, \<open>summarizeWithFallback\<close>, \<open>context_plan.go\<close>).
  \<open>Context_Properties\<close> shows that the kept tail starts at a turn and fits its budget, that a compaction
  keeps the system prompt, the pairing of tool calls with their results and the recent turns, and that
  pruning replaces bodies only.  \<open>Run_Compaction\<close> holds \<open>paired\<close>, the transcripts a strict provider
  accepts: each assistant message is followed by exactly one result for each of its calls, in order.

  \<^bold>\<open>The gate of a tool call.\<close>
  \<^item> \<open>Tool_Types\<close>: \<open>internal/tools/types.go\<close>, \<open>capabilities.go\<close>; \<open>Shell_Tools\<close>: the argument readers of
    \<open>argtolerance.go\<close> and the checks of \<open>bash.go\<close> and \<open>exec_command.go\<close> up to the launch.
  \<^item> \<open>Command_Approval\<close>: \<open>internal/agent/command_prefix.go\<close>; \<open>Permission_Rules\<close>: the rules of
    \<open>internal/config/harness.go\<close> with \<open>permission_rules.go\<close>, \<open>permission_profiles.go\<close>, \<open>plan_mode.go\<close>;
    \<open>Permission_Prompt\<close>: the prompt of \<open>loop.go\<close> and the grants that follow a decision;
    \<open>Rule_Match\<close>: the calls a rule covers, stated without the regular expressions of the code
    (\<open>rule_covers\<close>), and that the last covering rule decides.
  \<^item> \<open>Tool_Gate\<close>: \<open>executeToolCall\<close> and \<open>Registry.RunWithOptions\<close>, over the engine as state, with every tool
    body started as part of the result.
  \<^item> \<open>Gate_Facts\<close> and \<open>Gate_Undo\<close> hold what the properties share: when a tool is started, and what the
    cleanups leave of the engine.  \<open>Approval_Properties\<close> and \<open>Gate_Properties\<close> state what an approval
    covers and that no tool runs without one where one is needed; \<open>Gate_Limits\<close> records, at concrete
    inputs, where the gate is more lenient than its comments say.

  \<^bold>\<open>The agent loop.\<close>
  \<^item> \<open>Stream_Collect\<close>: \<open>internal/kajicoderuntime/helpers.go\<close>, \<open>usage.go\<close>, the turn read from a stream;
    \<open>Provider_Retry\<close>: \<open>internal/errhint\<close>, \<open>reconnect.go\<close>; \<open>Turn_Stream\<close>: the request of a turn with its
    recoveries and retries.
  \<^item> \<open>Resource_Keys\<close>: \<open>resource_keys.go\<close>; \<open>Parallel_Tools\<close>: \<open>parallel_tools.go\<close>, the window of calls that
    run together and the batch as a step relation over goroutines and semaphores;
    \<open>Run_Policies\<close>: \<open>task_state.go\<close>, \<open>completion_policy.go\<close>, \<open>profile_controller.go\<close>, \<open>tool_alias.go\<close>.
  \<^item> \<open>Agent_Loop\<close>: one turn of \<open>Run\<close> (\<open>loop.go\<close>), composed of the parts above; \<open>Agent_Run\<close>: the loop over
    the turns and \<open>Run\<close>.  The state of a run is the record \<open>run_state\<close>; its field \<open>rs_clock\<close> counts the
    requests and tool calls made, and the record \<open>loop_env\<close> gives what lies outside (provider, host,
    trackers, relevance gate) as functions of such a moment.  \<open>turn_loop\<close> ends because the number of turns
    begun grows and its limit does not grow beyond that of the escalated posture; there is no fuel.
  \<^item> \<open>Loop_Properties\<close>, \<open>Provider_Properties\<close> and \<open>Run_Properties\<close> state what the parts, the provider
    side and whole runs promise.  The run's transcript is \<open>paired\<close> under one hypothesis, that the
    relevance judge of compaction keeps identifiers, and with one exception: a run whose prompt to leave
    plan mode is cancelled ends with an error and may leave calls without results (\<open>lost_reply\<close>, shown at
    a concrete run as a limit).

  \<^bold>\<open>Editing\<close> (\<open>Edit_Match\<close>: \<open>internal/tools/edit_replacers.go\<close> and the edits of \<open>multi_edit.go\<close>;
  \<open>Edit_Distance\<close>: the specification of the Levenshtein distance).  \<open>Edit_Properties\<close> shows that the
  tolerant matcher only answers unambiguously and that a single edit replaces one occurrence.

  \<^bold>\<open>The daemon\<close> (\<open>Daemon_Session\<close>, \<open>Daemon_Registry\<close>: \<open>session.go\<close>; \<open>Daemon_Pool\<close>: \<open>pool.go\<close>,
  \<open>backoff.go\<close>).  Locked sections of the code are atomic steps; \<open>Daemon_Properties\<close> proves its
  invariants over every interleaving of those steps.  A channel is a queue with its capacity (256 as in
  the code) and a closed flag, and a send on a closed channel is the value \<open>None\<close>, which the invariant
  excludes.  The phases of a request in the pool are the points between which other goroutines may act: the
  test for a drain, the entry into the launcher and the bookkeeping of the worker are steps of their own,
  and a drain collects and kills the workers in separate steps too.  \<open>run_loop\<close> is a request's chain of
  attempts; \<open>verdict\<close> and \<open>goes_on\<close> say of the results of its attempts, a drain and a cancellation how
  it must end.

  \<^bold>\<open>Schedules\<close> (\<open>Cron_Schedule\<close>: \<open>internal/cron/schedule.go\<close>).  The stepping loop of the parser and
  the search for the next run are partial functions, so not ending would be the value \<open>None\<close>;
  \<open>Cron_Properties\<close> shows that they end, and that the search is exact at a fixed offset.

  \<^bold>\<open>Interfaces.\<close>  \<open>enumeration\<close> and \<open>streak\<close> in \<open>Prelude\<close>; \<open>analysis_flag\<close> in \<open>Analyzer\<close> (a flag
  accumulated over a script); \<open>approval_set\<close> in \<open>Command_Prefix\<close>; \<open>grant_book\<close> in \<open>Grants\<close> (session
  set and persistent store); \<open>undoable\<close> in \<open>Engine\<close> (temporary scope operations and their undo);
  \<open>undoable_grant\<close> in \<open>Gate_Undo\<close> (grants for a turn and their cleanups); \<open>bpf_machine\<close> in \<open>Seccomp\<close>
  (the documented steps of the kernel's BPF machine); \<open>call_promise\<close> in \<open>Agent_Run\<close> (what every gated call
  keeps, lifted to the batch, the turn and the run).  Each is interpreted
  on the model's definitions where they are declared.

  \<^bold>\<open>Parameters.\<close>  What is not under \<open>src/\<close> is an argument: the third-party shell parser (a function
  from a script to its call expressions), the BPF machine of the kernel, the outcomes of system calls,
  and values the code receives at run time: the redaction function, the clock, the outcome of
  writing the grant file, JSON already decoded (grant file, tool arguments, plan items), the results
  and exit codes of a launched worker, the offsets of a time zone.  Of a run: the answers of the provider,
  of the user and of the model that writes summaries, the tools' bodies, the hooks that may veto a call.

  \<^bold>\<open>Abstractions.\<close>  Text is ASCII where Go consults Unicode tables.  Hosts are POSIX (path separators,
  case-sensitive names).  Similarities in \<open>Edit_Match\<close> and the ratios of compaction are rational numbers where Go computes in \<open>float64\<close>.
  Go's \<open>int\<close> is \<open>int\<close>, with the range checks of \<open>strconv\<close> and the wrap-around of the cron loop written
  out.  Only decoded data is modelled, not JSON text.

  \<^bold>\<open>Not modelled.\<close>  The terminal interface, providers, the editor protocol, MCP and LSP clients,
  configuration, hooks, plugins, skills, OAuth and the command line are input and output around the
  parts above.  The platform back ends of the sandbox start operating-system facilities.  Of the agent
  loop, tracing, callbacks to the surface and session hooks are left out, as are the bodies of the
  relevance judge and gate, the partition of the advertised tools and the spilling of pruned
  bodies to files.  Of \<open>internal/sessions\<close> only the checks of a summary are modelled, not event logs,
  replay and rewind.
\<close>

end
